(* ===== verification/Dragon_Prelude.thy ===== *)
theory Dragon_Prelude
  imports Main "HOL-Library.Word" "HOL-Library.Monad_Syntax"
begin

text \<open>
  Shared vocabulary of the development: the machine types of the C sources, the
  character classes of \<^verbatim>\<open>ctype.h\<close> in the C locale, the scanning idioms of C strings
  and the counting lemmas on lists that several components use.

  A C string is an Isabelle \<^typ>\<open>string\<close> without its terminating NUL; plain
  \<^verbatim>\<open>char\<close> is unsigned, as in the ARM ABI the device is built for. A nullable pointer
  is an \<^typ>\<open>'a option\<close> wherever the code tests it for NULL. A counted loop
  \<^verbatim>\<open>for (i = 0; i < n; i++)\<close> with an early exit is \<^term>\<open>find P [0..<n]\<close>, and
  one that updates a state is a \<^term>\<open>fold\<close> over \<^term>\<open>[0..<n]\<close>.
\<close>

type_synonym u8 = "8 word"
type_synonym u16 = "16 word"
type_synonym u32 = "32 word"

text \<open>Whether a request for a number of bytes can be served.\<close>

type_synonym allocator = "nat \<Rightarrow> bool"

text \<open>Collections for the definitions a component's proofs unfold together.\<close>

named_theorems ctype_defs "character classes of the C locale"
named_theorems inv_intros "introduction rules for the invariants of the components"

subsection \<open>Character classes (ctype.h, C locale)\<close>

definition isspace :: "char \<Rightarrow> bool" where
  "isspace c \<longleftrightarrow> c = CHR '' '' \<or> (9 \<le> (of_char c :: nat) \<and> (of_char c :: nat) \<le> 13)"

definition isdigit :: "char \<Rightarrow> bool" where
  "isdigit c \<longleftrightarrow> 48 \<le> (of_char c :: nat) \<and> (of_char c :: nat) \<le> 57"

definition isupper :: "char \<Rightarrow> bool" where
  "isupper c \<longleftrightarrow> 65 \<le> (of_char c :: nat) \<and> (of_char c :: nat) \<le> 90"

definition islower :: "char \<Rightarrow> bool" where
  "islower c \<longleftrightarrow> 97 \<le> (of_char c :: nat) \<and> (of_char c :: nat) \<le> 122"

definition isalpha :: "char \<Rightarrow> bool" where
  "isalpha c \<longleftrightarrow> isupper c \<or> islower c"

definition tolower :: "char \<Rightarrow> char" where
  "tolower c = (if isupper c then char_of ((of_char c :: nat) + 32) else c)"

lemmas [ctype_defs] = isspace_def isdigit_def isupper_def islower_def isalpha_def tolower_def

lemma of_char_lt_256 [simp]: "(of_char c :: nat) < 256"
  by (metis UNIV_I image_eqI nat_of_char_less_256)

lemma of_char_tolower_upper:
  "isupper c \<Longrightarrow> (of_char (tolower c) :: nat) = of_char c + 32"
  by (simp add: tolower_def isupper_def of_char_of)

lemma tolower_idem [simp]: "tolower (tolower c) = tolower c"
proof (cases "isupper c")
  case True
  then have "\<not> isupper (tolower c)"
    by (simp add: of_char_tolower_upper isupper_def)
  then show ?thesis by (simp add: tolower_def)
next
  case False
  then show ?thesis by (simp add: tolower_def)
qed

lemma isspace_tolower [simp]: "isspace (tolower c) = isspace c"
proof (cases "isupper c")
  case True
  then have "(of_char (tolower c) :: nat) = of_char c + 32" and "65 \<le> (of_char c :: nat)"
    by (simp_all add: of_char_tolower_upper isupper_def)
  moreover have "\<not> isspace c"
    using True by (auto simp: isspace_def isupper_def)
  moreover have "tolower c \<noteq> CHR '' ''"
  proof
    assume "tolower c = CHR '' ''"
    then have "(of_char (tolower c) :: nat) = 32" by simp
    with calculation show False by simp
  qed
  ultimately show ?thesis by (auto simp: isspace_def)
next
  case False
  then show ?thesis by (simp add: tolower_def)
qed

subsection \<open>Scanning\<close>

definition skip_ws :: "string \<Rightarrow> string" where
  "skip_ws s = dropWhile isspace s"

lemma length_skip_ws [simp]: "length (skip_ws s) \<le> length s"
  by (simp add: skip_ws_def length_dropWhile_le)

lemma skip_ws_Nil [simp]: "skip_ws [] = []"
  by (simp add: skip_ws_def)

lemma skip_ws_nonspace [simp]: "\<not> isspace c \<Longrightarrow> skip_ws (c # s) = c # s"
  by (simp add: skip_ws_def)

lemma skip_ws_space [simp]: "isspace c \<Longrightarrow> skip_ws (c # s) = skip_ws s"
  by (simp add: skip_ws_def)

lemma skip_ws_idem [simp]: "skip_ws (skip_ws s) = skip_ws s"
  by (simp add: skip_ws_def dropWhile_idem)

lemma takeWhile_stop [simp]: "c \<notin> set s \<Longrightarrow> takeWhile (\<lambda>x. x \<noteq> c) (s @ c # t) = s"
  by (induction s) auto

lemma dropWhile_stop [simp]: "c \<notin> set s \<Longrightarrow> dropWhile (\<lambda>x. x \<noteq> c) (s @ c # t) = c # t"
  by (induction s) auto

subsection \<open>Integer conversion\<close>

text \<open>Conversion of a wide value to the 32-bit \<^verbatim>\<open>int\<close>.\<close>

definition to_int :: "int \<Rightarrow> int" where
  "to_int v = signed_take_bit 31 v"

lemma to_int_id: "- (2 ^ 31) \<le> v \<Longrightarrow> v < 2 ^ 31 \<Longrightarrow> to_int v = v"
  by (simp add: to_int_def signed_take_bit_int_eq_self)

definition digit_val :: "char \<Rightarrow> nat option" where
  "digit_val c =
     (if isdigit c then Some (of_char c - 48)
      else if islower c then Some (of_char c - 87)
      else if isupper c then Some (of_char c - 55)
      else None)"

definition is_base_digit :: "nat \<Rightarrow> char \<Rightarrow> bool" where
  "is_base_digit b c = (case digit_val c of None \<Rightarrow> False | Some d \<Rightarrow> d < b)"

fun digits_val :: "nat \<Rightarrow> nat \<Rightarrow> string \<Rightarrow> nat" where
  "digits_val b acc [] = acc"
| "digits_val b acc (c # cs) = digits_val b (acc * b + the (digit_val c)) cs"

text \<open>
  \<^verbatim>\<open>strtol(s, &end, base)\<close> with a 64-bit \<^verbatim>\<open>long\<close>: the saturated value and the unread rest,
  which is the whole string when there is no digit. Base 0 reads the C prefixes.
\<close>

definition strtol_prefix :: "nat \<Rightarrow> string \<Rightarrow> nat \<times> string" where
  "strtol_prefix base s =
     (if (base = 0 \<or> base = 16) \<and> 2 < length s \<and> s ! 0 = CHR ''0'' \<and>
         (s ! 1 = CHR ''x'' \<or> s ! 1 = CHR ''X'') \<and> is_base_digit 16 (s ! 2)
      then (16, drop 2 s)
      else if base = 0 then (if s \<noteq> [] \<and> s ! 0 = CHR ''0'' then 8 else 10, s)
      else (base, s))"

definition strtol :: "nat \<Rightarrow> string \<Rightarrow> int \<times> string" where
  "strtol base s =
     (let s1 = skip_ws s;
          neg = (s1 \<noteq> [] \<and> s1 ! 0 = CHR ''-'');
          s2 = (if s1 \<noteq> [] \<and> (s1 ! 0 = CHR ''-'' \<or> s1 ! 0 = CHR ''+'') then tl s1 else s1);
          (b, s3) = strtol_prefix base s2;
          ds = takeWhile (is_base_digit b) s3;
          v = int (digits_val b 0 ds)
      in if ds = [] then (0, s)
         else (if neg then max (- (2 ^ 63)) (- v) else min (2 ^ 63 - 1) v,
               dropWhile (is_base_digit b) s3))"

text \<open>Decimal output, as \<^verbatim>\<open>%d\<close> writes a non-negative number.\<close>

fun show_nat :: "nat \<Rightarrow> string" where
  "show_nat n = (if n < 10 then [char_of (48 + n)] else show_nat (n div 10) @ [char_of (48 + n mod 10)])"

declare show_nat.simps [simp del]

lemma digit_char: "n < 10 \<Longrightarrow> isdigit (char_of (48 + n)) \<and> digit_val (char_of (48 + n)) = Some n"
  by (simp add: isdigit_def digit_val_def of_char_of)

lemma digits_val_snoc: "digits_val b acc (xs @ [c]) = digits_val b acc xs * b + the (digit_val c)"
  by (induction xs arbitrary: acc) auto

lemma show_nat_digits: "show_nat n \<noteq> [] \<and> list_all isdigit (show_nat n) \<and> digits_val 10 0 (show_nat n) = n"
proof (induction n rule: show_nat.induct)
  case (1 n)
  show ?case
  proof (cases "n < 10")
    case True
    then show ?thesis using digit_char [OF True] by (simp add: show_nat.simps [of n])
  next
    case False
    then show ?thesis
      using "1.IH" digit_char [of "n mod 10"]
      by (simp add: show_nat.simps [of n] digits_val_snoc)
  qed
qed

subsection \<open>Searching an index range\<close>

lemma find_upt_Some:
  "find P [0..<n] = Some i \<longleftrightarrow> i < n \<and> P i \<and> (\<forall>j < i. \<not> P j)"
proof
  assume "find P [0..<n] = Some i"
  then show "i < n \<and> P i \<and> (\<forall>j < i. \<not> P j)"
    by (auto simp: find_Some_iff)
next
  assume R: "i < n \<and> P i \<and> (\<forall>j < i. \<not> P j)"
  then show "find P [0..<n] = Some i"
    by (auto simp: find_Some_iff intro!: exI [of _ i])
qed

lemma find_upt_None: "find P [0..<n] = None \<longleftrightarrow> (\<forall>j < n. \<not> P j)"
  by (auto simp: find_None_iff)

lemma find_upt_cong:
  "(\<And>i. i < n \<Longrightarrow> P i = Q i) \<Longrightarrow> find P [0..<n] = find Q [0..<n]"
  by (rule find_cong) auto

text \<open>The unique hit of a search, whatever the order of the scan.\<close>

lemma find_upt_unique:
  assumes "i < n" "P i" "\<And>j. j < n \<Longrightarrow> P j \<Longrightarrow> j = i"
  shows "find P [0..<n] = Some i"
proof -
  have "\<forall>j < i. \<not> P j"
    using assms by (metis less_irrefl less_trans)
  with assms(1,2) show ?thesis by (simp add: find_upt_Some)
qed

subsection \<open>Loops over lists\<close>

text \<open>What one iteration establishes and the others keep holds after the loop.\<close>

lemma fold_establishes:
  assumes "x \<in> set xs" "I s"
    and "\<And>y s. y \<in> set xs \<Longrightarrow> I s \<Longrightarrow> I (f y s)"
    and "\<And>s. I s \<Longrightarrow> P (f x s)"
    and "\<And>y s. y \<in> set xs \<Longrightarrow> I s \<Longrightarrow> P s \<Longrightarrow> P (f y s)"
  shows "P (fold f xs s)"
proof -
  have keep: "set ys \<subseteq> set xs \<Longrightarrow> I s \<Longrightarrow> P s \<Longrightarrow> P (fold f ys s)" for ys s
    using assms(3,5) by (induction ys arbitrary: s) auto
  have "set ys \<subseteq> set xs \<Longrightarrow> x \<in> set ys \<Longrightarrow> I s \<Longrightarrow> P (fold f ys s)" for ys s
  proof (induction ys arbitrary: s)
    case (Cons y ys)
    then show ?case using assms(3,4) keep by (cases "x = y") auto
  qed simp
  with assms(1,2) show ?thesis by blast
qed

lemma set_enumerate0: "(i, x) \<in> set (enumerate 0 xs) \<longleftrightarrow> i < length xs \<and> xs ! i = x"
  by (auto simp: in_set_enumerate_eq)

text \<open>Reading an updated list inside its bounds, wherever the update went.\<close>

lemma nth_update_inside: "j < length xs \<Longrightarrow> xs[i := x] ! j = (if i = j then x else xs ! j)"
  by (cases "i = j") simp_all

subsection \<open>Counting occupied slots\<close>

definition count_occ :: "'a option list \<Rightarrow> nat" where
  "count_occ xs = length (filter (\<lambda>x. x \<noteq> None) xs)"

lemma count_occ_Nil [simp]: "count_occ [] = 0"
  and count_occ_append [simp]: "count_occ (xs @ ys) = count_occ xs + count_occ ys"
  and count_occ_replicate [simp]: "count_occ (replicate m None) = 0"
  by (simp_all add: count_occ_def)

lemma count_occ_Cons [simp]:
  "count_occ (x # xs) = (if x = None then count_occ xs else Suc (count_occ xs))"
  by (simp add: count_occ_def)

lemma count_occ_le: "count_occ xs \<le> length xs"
  by (simp add: count_occ_def)

lemma count_occ_set_free:
  "i < length xs \<Longrightarrow> xs ! i = None \<Longrightarrow> count_occ (xs[i := Some v]) = Suc (count_occ xs)"
  by (induction xs arbitrary: i) (auto split: nat.splits)

lemma count_occ_clear:
  "i < length xs \<Longrightarrow> xs ! i = Some v \<Longrightarrow> count_occ (xs[i := None]) = count_occ xs - 1
     \<and> 0 < count_occ xs"
proof (induction xs arbitrary: i)
  case Nil
  then show ?case by simp
next
  case (Cons x xs)
  then show ?case
    by (cases i) (auto split: if_splits)
qed

lemma count_occ_full: "count_occ xs = length xs \<longleftrightarrow> (\<forall>i < length xs. xs ! i \<noteq> None)"
proof -
  have "count_occ xs = length xs \<longleftrightarrow> filter (\<lambda>x. x \<noteq> None) xs = xs"
    unfolding count_occ_def by (metis length_filter_less less_irrefl filter_id_conv)
  also have "\<dots> \<longleftrightarrow> (\<forall>x \<in> set xs. x \<noteq> None)"
    by (simp add: filter_id_conv)
  finally show ?thesis by (auto simp: all_set_conv_all_nth)
qed

lemma count_occ_free: "count_occ xs < length xs \<Longrightarrow> \<exists>i < length xs. xs ! i = None"
  using count_occ_full [of xs] by force

subsection \<open>Computations that may fail\<close>

text \<open>Sequencing: the first failure ends the computation.\<close>

definition and_then :: "'e + 'a \<Rightarrow> ('a \<Rightarrow> 'e + 'b) \<Rightarrow> 'e + 'b" where
  "and_then r f = (case r of Inl e \<Rightarrow> Inl e | Inr x \<Rightarrow> f x)"

lemma and_then_simps [simp]: "and_then (Inl e) f = Inl e" "and_then (Inr x) f = f x"
  by (simp_all add: and_then_def)

lemma and_then_Inr: "and_then r f = Inr y \<longleftrightarrow> (\<exists>x. r = Inr x \<and> f x = Inr y)"
  by (cases r) auto

text \<open>A loop whose body may fail.\<close>

fun for_each :: "('a \<Rightarrow> 's \<Rightarrow> 'e + 's) \<Rightarrow> 'a list \<Rightarrow> 's \<Rightarrow> 'e + 's" where
  "for_each f [] s = Inr s"
| "for_each f (x # xs) s = and_then (f x s) (for_each f xs)"

lemma for_each_append: "for_each f (xs @ ys) s = and_then (for_each f xs s) (for_each f ys)"
  by (induction xs arbitrary: s) (auto simp: and_then_def split: sum.split)

lemma for_each_inv:
  "for_each f xs s = Inr s' \<Longrightarrow> P s \<Longrightarrow>
     (\<And>x s s'. x \<in> set xs \<Longrightarrow> P s \<Longrightarrow> f x s = Inr s' \<Longrightarrow> P s') \<Longrightarrow> P s'"
  by (induction xs arbitrary: s) (auto simp: and_then_Inr)

lemma for_each_total:
  "P s \<Longrightarrow> (\<And>x s. x \<in> set xs \<Longrightarrow> P s \<Longrightarrow> \<exists>s'. f x s = Inr s' \<and> P s') \<Longrightarrow>
     \<exists>s'. for_each f xs s = Inr s' \<and> P s'"
proof (induction xs arbitrary: s)
  case (Cons x xs)
  then obtain s1 where "f x s = Inr s1" "P s1" by force
  with Cons.IH [of s1] Cons.prems(2) show ?case by auto
qed simp

text \<open>A counting loop, with an invariant that may speak of the counter.\<close>

lemma for_each_upt_total:
  assumes "P 0 s" and "\<And>i s. i < n \<Longrightarrow> P i s \<Longrightarrow> \<exists>s'. f i s = Inr s' \<and> P (Suc i) s'"
  shows "\<exists>s'. for_each f [0..<n] s = Inr s' \<and> P n s'"
  using assms
proof (induction n)
  case (Suc n)
  then obtain s1 where "for_each f [0..<n] s = Inr s1" "P n s1" by force
  with Suc.prems(2) [of n s1] show ?case by (auto simp: for_each_append)
qed simp

lemma for_each_upt_inv:
  assumes "for_each f [0..<n] s = Inr s'" "P 0 s"
    and "\<And>i s s'. i < n \<Longrightarrow> P i s \<Longrightarrow> f i s = Inr s' \<Longrightarrow> P (Suc i) s'"
  shows "P n s'"
  using assms
proof (induction n arbitrary: s')
  case (Suc n)
  then obtain s1 where s1: "for_each f [0..<n] s = Inr s1" "f n s1 = Inr s'"
    by (auto simp: for_each_append and_then_Inr)
  with Suc.IH [OF s1(1)] Suc.prems(2,3) show ?case by auto
qed simp

end
