(* ===== verification/C_Array.thy ===== *)
theory C_Array
  imports Dragon_Prelude
begin

text \<open>
  The growable array of \<^verbatim>\<open>audio/hal/array.h\<close>. The other components keep their arrays as
  lists; the refinement lemmas here say that the macros compute exactly the list operations
  used there. \<open>fresh\<close> is what \<^verbatim>\<open>realloc\<close> leaves in the new cells.
\<close>

record 'a c_array =
  ca_count :: nat
  ca_size :: nat
  ca_element :: "'a list"

definition ARRAY_INIT :: "'a c_array" where
  "ARRAY_INIT = \<lparr>ca_count = 0, ca_size = 0, ca_element = []\<rparr>"

text \<open>
  \<^verbatim>\<open>_ARRAY_EXTEND\<close>: make room for one more element; the result is the index of its cell and
  the array that counts it.
\<close>

definition ARRAY_EXTEND :: "'a list \<Rightarrow> 'a c_array \<Rightarrow> nat \<times> 'a c_array" where
  "ARRAY_EXTEND fresh a =
     (let a1 = (if ca_count a \<ge> ca_size a then
                  (let sz = (if ca_size a = 0 then 4 else ca_size a * 2)
                   in a\<lparr>ca_size := sz,
                        ca_element := ca_element a @ take (sz - length (ca_element a)) fresh\<rparr>)
                else a)
      in (ca_count a1, a1\<lparr>ca_count := Suc (ca_count a1)\<rparr>))"

definition ARRAY_APPEND :: "'a list \<Rightarrow> 'a c_array \<Rightarrow> 'a \<Rightarrow> 'a c_array" where
  "ARRAY_APPEND fresh a v =
     (case ARRAY_EXTEND fresh a of
        (i, a') \<Rightarrow> a'\<lparr>ca_element := (ca_element a')[i := v]\<rparr>)"

definition ARRAY_APPEND_ZERO :: "'a list \<Rightarrow> 'a \<Rightarrow> 'a c_array \<Rightarrow> nat \<times> 'a c_array" where
  "ARRAY_APPEND_ZERO fresh zero a =
     (case ARRAY_EXTEND fresh a of
        (i, a') \<Rightarrow> (i, a'\<lparr>ca_element := (ca_element a')[i := zero]\<rparr>))"

definition ARRAY_COUNT :: "'a c_array \<Rightarrow> nat" where
  "ARRAY_COUNT a = ca_count a"

text \<open>A read outside the allocated cells has no value.\<close>

definition ARRAY_ELEMENT :: "'a c_array \<Rightarrow> nat \<Rightarrow> 'a option" where
  "ARRAY_ELEMENT a i = (if i < length (ca_element a) then Some (ca_element a ! i) else None)"

text \<open>The elements a \<^verbatim>\<open>FOR_ARRAY_ELEMENT\<close> loop visits, in order.\<close>

definition FOR_ARRAY_ELEMENT :: "'a c_array \<Rightarrow> 'a option list" where
  "FOR_ARRAY_ELEMENT a = map (ARRAY_ELEMENT a) [0..<ca_count a]"

definition ARRAY_FREE :: "'a c_array \<Rightarrow> 'a c_array" where
  "ARRAY_FREE a = a\<lparr>ca_element := [], ca_size := 0, ca_count := 0\<rparr>"

definition ARRAY_FIND :: "'a c_array \<Rightarrow> 'a \<Rightarrow> int" where
  "ARRAY_FIND a x =
     (case find (\<lambda>i. ca_element a ! i = x) [0..<ca_count a] of None \<Rightarrow> - 1 | Some i \<Rightarrow> int i)"

subsection \<open>Invariant and refinement\<close>

text \<open>The allocated cells are as many as \<^verbatim>\<open>size\<close> says and hold every counted element.\<close>

definition ca_inv :: "'a c_array \<Rightarrow> bool" where
  "ca_inv a \<longleftrightarrow> length (ca_element a) = ca_size a \<and> ca_count a \<le> ca_size a"

definition ca_list :: "'a c_array \<Rightarrow> 'a list" where
  "ca_list a = take (ca_count a) (ca_element a)"

text \<open>\<open>fresh\<close> supplies enough cells for the next growth.\<close>

definition enough_fresh :: "'a list \<Rightarrow> 'a c_array \<Rightarrow> bool" where
  "enough_fresh fresh a \<longleftrightarrow> 4 + ca_size a \<le> length fresh"

lemma ca_inv_init: "ca_inv ARRAY_INIT" and ca_list_init: "ca_list ARRAY_INIT = []"
  by (simp_all add: ca_inv_def ARRAY_INIT_def ca_list_def)

lemma length_ca_list: "ca_inv a \<Longrightarrow> length (ca_list a) = ARRAY_COUNT a"
  by (simp add: ca_inv_def ca_list_def ARRAY_COUNT_def)

lemma ARRAY_EXTEND_spec:
  assumes "ca_inv a" "enough_fresh fresh a" "ARRAY_EXTEND fresh a = (i, a')"
  shows "ca_inv a' \<and> i = ca_count a \<and> ca_count a' = Suc i \<and> i < length (ca_element a') \<and>
     take i (ca_element a') = ca_list a"
proof (cases "ca_count a < ca_size a")
  case True
  with assms show ?thesis
    by (auto simp: ARRAY_EXTEND_def ca_inv_def ca_list_def Let_def)
next
  case False
  with assms have eq: "ca_count a = ca_size a" by (simp add: ca_inv_def)
  with assms False show ?thesis
    by (auto simp: ARRAY_EXTEND_def ca_inv_def ca_list_def enough_fresh_def Let_def min_def
        split: if_splits)
qed

lemma ARRAY_APPEND_ZERO_refines:
  assumes "ca_inv a" "enough_fresh fresh a" "ARRAY_APPEND_ZERO fresh z a = (i, a')"
  shows "ca_inv a' \<and> ca_list a' = ca_list a @ [z] \<and> i = ARRAY_COUNT a"
proof -
  obtain b where b: "ARRAY_EXTEND fresh a = (i, b)"
    and a': "a' = b\<lparr>ca_element := (ca_element b)[i := z]\<rparr>"
    using assms(3) by (auto simp: ARRAY_APPEND_ZERO_def split: prod.splits)
  note e = ARRAY_EXTEND_spec [OF assms(1,2) b]
  then have "take (Suc i) ((ca_element b)[i := z]) = ca_list a @ [z]"
    by (auto simp: take_Suc_conv_app_nth)
  with e a' show ?thesis by (auto simp: ca_inv_def ca_list_def ARRAY_COUNT_def)
qed

lemma ARRAY_APPEND_refines:
  assumes "ca_inv a" "enough_fresh fresh a"
  shows "ca_inv (ARRAY_APPEND fresh a v) \<and> ca_list (ARRAY_APPEND fresh a v) = ca_list a @ [v]"
  using ARRAY_APPEND_ZERO_refines [OF assms, of v]
  by (auto simp: ARRAY_APPEND_def ARRAY_APPEND_ZERO_def split: prod.splits)

lemma ARRAY_ELEMENT_refines:
  assumes "ca_inv a" "i < ARRAY_COUNT a"
  shows "ARRAY_ELEMENT a i = Some (ca_list a ! i)"
  using assms by (simp add: ca_inv_def ARRAY_COUNT_def ARRAY_ELEMENT_def ca_list_def)

lemma FOR_ARRAY_ELEMENT_refines:
  assumes "ca_inv a"
  shows "FOR_ARRAY_ELEMENT a = map Some (ca_list a)"
proof -
  have "map (ARRAY_ELEMENT a) [0..<ca_count a] = map (\<lambda>i. Some (ca_list a ! i)) [0..<ca_count a]"
    using ARRAY_ELEMENT_refines [OF assms] by (simp add: ARRAY_COUNT_def)
  also have "\<dots> = map Some (map (\<lambda>i. ca_list a ! i) [0..<length (ca_list a)])"
    using length_ca_list [OF assms] by (simp add: ARRAY_COUNT_def)
  finally show ?thesis by (simp add: FOR_ARRAY_ELEMENT_def map_nth)
qed

lemma ARRAY_FIND_refines:
  assumes "ca_inv a"
  shows "ARRAY_FIND a x =
    (case find (\<lambda>i. ca_list a ! i = x) [0..<length (ca_list a)] of None \<Rightarrow> - 1 | Some i \<Rightarrow> int i)"
proof -
  have "find (\<lambda>i. ca_element a ! i = x) [0..<ca_count a] = find (\<lambda>i. ca_list a ! i = x) [0..<ca_count a]"
    using assms by (intro find_upt_cong) (simp add: ca_list_def ca_inv_def)
  then show ?thesis using length_ca_list [OF assms] by (simp add: ARRAY_FIND_def ARRAY_COUNT_def)
qed

subsection \<open>The contract of a vector\<close>

text \<open>
  A vector as the components use it: an empty one, appending, indexing, all in terms of the
  list it holds.
\<close>

locale vector =
  fixes vnil :: 'v
    and vapp :: "'v \<Rightarrow> 'a \<Rightarrow> 'v"
    and vnth :: "'v \<Rightarrow> nat \<Rightarrow> 'a option"
    and vlen :: "'v \<Rightarrow> nat"
    and vlist :: "'v \<Rightarrow> 'a list"
    and vinv :: "'v \<Rightarrow> bool"
  assumes vnil_ok: "vinv vnil \<and> vlist vnil = []"
    and vapp_ok: "vinv v \<Longrightarrow> vinv (vapp v x) \<and> vlist (vapp v x) = vlist v @ [x]"
    and vnth_ok: "vinv v \<Longrightarrow> i < vlen v \<Longrightarrow> vnth v i = Some (vlist v ! i)"
    and vlen_ok: "vinv v \<Longrightarrow> vlen v = length (vlist v)"
begin

lemma foldl_vapp:
  "vinv v \<Longrightarrow> vinv (foldl vapp v xs) \<and> vlist (foldl vapp v xs) = vlist v @ xs"
  by (induction xs arbitrary: v) (simp_all add: vapp_ok)

lemma of_list_nth:
  assumes "i < length xs"
  shows "vnth (foldl vapp vnil xs) i = Some (xs ! i)"
proof -
  have "vinv (foldl vapp vnil xs)" "vlist (foldl vapp vnil xs) = xs"
    using foldl_vapp [of vnil xs] vnil_ok by auto
  with assms show ?thesis using vnth_ok vlen_ok by metis
qed

lemma old_elements_stay:
  assumes "vinv v" "i < vlen v"
  shows "vnth (vapp v x) i = vnth v i"
proof -
  have "i < vlen (vapp v x)" "vinv (vapp v x)"
    using assms vapp_ok vlen_ok by auto
  then show ?thesis using assms vapp_ok vnth_ok vlen_ok by (simp add: nth_append)
qed

end

text \<open>Growth with zeroed cells: any contents would do.\<close>

definition grow_append :: "'a \<Rightarrow> 'a c_array \<Rightarrow> 'a \<Rightarrow> 'a c_array" where
  "grow_append z a x = ARRAY_APPEND (replicate (4 + ca_size a) z) a x"

interpretation c_vec: vector ARRAY_INIT "grow_append z" ARRAY_ELEMENT ARRAY_COUNT ca_list ca_inv
  for z
  by unfold_locales
    (simp_all add: ca_inv_init ca_list_init ARRAY_ELEMENT_refines length_ca_list grow_append_def
      ARRAY_APPEND_refines enough_fresh_def)

subsection \<open>Properties\<close>

text \<open>
  Building an array with any sequence of appends and reading it by index gives the elements back
  in order, through every growth of the allocation.
\<close>

theorem array_append_element:
  assumes "i < length xs"
  shows "ARRAY_ELEMENT (foldl (grow_append z) ARRAY_INIT xs) i = Some (xs ! i)"
  using assms by (rule c_vec.of_list_nth)

theorem array_append_element_witness:
  "ARRAY_ELEMENT (foldl (grow_append 0) ARRAY_INIT [7, 8, 9, 10, 11, 12 :: int]) 5 = Some 12"
  using array_append_element [of 5 "[7, 8, 9, 10, 11, 12 :: int]" 0] by simp

end
