(* ===== verification/Biquad.thy ===== *)
theory Biquad
  imports Complex_Main Dragon_Prelude
begin

text \<open>
  The second-order filters of \<^verbatim>\<open>audio/hal/dsp/biquad.c\<close> and the equalizers made of them in
  \<^verbatim>\<open>audio/hal/dsp/eq.c\<close> and \<^verbatim>\<open>audio/hal/dsp/eq2.c\<close> (the portable C code, not the NEON and SSE3
  variants). \<^verbatim>\<open>float\<close> is a type \<open>'f\<close> and \<^verbatim>\<open>double\<close> a type \<open>'d\<close> with the arithmetic operations
  and comparisons but no law about them; what else the code uses of the C arithmetic and of
  \<^verbatim>\<open>math.h\<close> is in the record \<open>cmath\<close>. A buffer of samples is a list.
\<close>

subsection \<open>Arithmetic\<close>

text \<open>
  \<open>c_lit n d\<close> is the double closest to the literal \<open>n / d\<close>; \<open>c_float\<close> and \<open>c_double\<close> are the
  conversions between the two types, \<open>c_of_int\<close> and \<open>c_trunc\<close> those between \<^verbatim>\<open>int\<close> and \<^verbatim>\<open>float\<close>.
\<close>

record ('f, 'd) cmath =
  c_lit :: "int \<Rightarrow> int \<Rightarrow> 'd"
  c_pi :: 'd
  c_pow :: "'d \<Rightarrow> 'd \<Rightarrow> 'd"
  c_sqrt :: "'d \<Rightarrow> 'd"
  c_sin :: "'d \<Rightarrow> 'd"
  c_cos :: "'d \<Rightarrow> 'd"
  c_float :: "'d \<Rightarrow> 'f"
  c_double :: "'f \<Rightarrow> 'd"
  c_of_int :: "int \<Rightarrow> 'f"
  c_trunc :: "'f \<Rightarrow> int"

text \<open>The macros \<^verbatim>\<open>max\<close> and \<^verbatim>\<open>min\<close>.\<close>

definition c_max :: "'a :: ord \<Rightarrow> 'a \<Rightarrow> 'a" where
  "c_max a b = (if b < a then a else b)"

definition c_min :: "'a :: ord \<Rightarrow> 'a \<Rightarrow> 'a" where
  "c_min a b = (if a < b then a else b)"

subsection \<open>Filter parameters\<close>

record 'f biquad =
  bq_b0 :: 'f
  bq_b1 :: 'f
  bq_b2 :: 'f
  bq_a1 :: 'f
  bq_a2 :: 'f
  bq_x1 :: 'f
  bq_x2 :: 'f
  bq_y1 :: 'f
  bq_y2 :: 'f

datatype biquad_type =
  BQ_NONE | BQ_LOWPASS | BQ_HIGHPASS | BQ_BANDPASS | BQ_LOWSHELF | BQ_HIGHSHELF | BQ_PEAKING
  | BQ_NOTCH | BQ_ALLPASS

definition set_coefficient ::
  "('f, 'd :: {one, times, inverse}) cmath \<Rightarrow> 'f biquad \<Rightarrow> 'd \<Rightarrow> 'd \<Rightarrow> 'd \<Rightarrow> 'd \<Rightarrow> 'd \<Rightarrow> 'd \<Rightarrow> 'f biquad" where
  "set_coefficient m bq b0 b1 b2 a0 a1 a2 =
     (let a0_inv = 1 / a0
      in bq\<lparr>bq_b0 := c_float m (b0 * a0_inv), bq_b1 := c_float m (b1 * a0_inv),
            bq_b2 := c_float m (b2 * a0_inv), bq_a1 := c_float m (a1 * a0_inv),
            bq_a2 := c_float m (a2 * a0_inv)\<rparr>)"

definition biquad_lowpass ::
  "('f, 'd :: {zero, one, plus, minus, uminus, times, inverse, ord}) cmath \<Rightarrow> 'f biquad \<Rightarrow> 'd \<Rightarrow> 'd \<Rightarrow> 'f biquad" where
  "biquad_lowpass m bq cutoff0 resonance0 =
     (let cutoff = c_max 0 (c_min cutoff0 1)
      in if cutoff = 1 then set_coefficient m bq 1 0 0 1 0 0
         else if cutoff > 0 then
           (let resonance = c_max 0 resonance0;
                g = c_pow m (c_lit m 10 1) (c_lit m 5 100 * resonance);
                d = c_sqrt m ((c_lit m 4 1 - c_sqrt m (c_lit m 16 1 - c_lit m 16 1 / (g * g))) / c_lit m 2 1);
                theta = c_pi m * cutoff;
                sn = c_lit m 1 2 * d * c_sin m theta;
                beta = c_lit m 1 2 * (1 - sn) / (1 + sn);
                gamma = (c_lit m 1 2 + beta) * c_cos m theta;
                alpha = c_lit m 1 4 * (c_lit m 1 2 + beta - gamma);
                b0 = c_lit m 2 1 * alpha;
                b1 = c_lit m 4 1 * alpha;
                b2 = c_lit m 2 1 * alpha;
                a1 = c_lit m 2 1 * - gamma;
                a2 = c_lit m 2 1 * beta
            in set_coefficient m bq b0 b1 b2 1 a1 a2)
         else set_coefficient m bq 0 0 0 1 0 0)"

definition biquad_highpass ::
  "('f, 'd :: {zero, one, plus, minus, uminus, times, inverse, ord}) cmath \<Rightarrow> 'f biquad \<Rightarrow> 'd \<Rightarrow> 'd \<Rightarrow> 'f biquad" where
  "biquad_highpass m bq cutoff0 resonance0 =
     (let cutoff = c_max 0 (c_min cutoff0 1)
      in if cutoff = 1 then set_coefficient m bq 0 0 0 1 0 0
         else if cutoff > 0 then
           (let resonance = c_max 0 resonance0;
                g = c_pow m (c_lit m 10 1) (c_lit m 5 100 * resonance);
                d = c_sqrt m ((c_lit m 4 1 - c_sqrt m (c_lit m 16 1 - c_lit m 16 1 / (g * g))) / c_lit m 2 1);
                theta = c_pi m * cutoff;
                sn = c_lit m 1 2 * d * c_sin m theta;
                beta = c_lit m 1 2 * (1 - sn) / (1 + sn);
                gamma = (c_lit m 1 2 + beta) * c_cos m theta;
                alpha = c_lit m 1 4 * (c_lit m 1 2 + beta + gamma);
                b0 = c_lit m 2 1 * alpha;
                b1 = c_lit m (- 4) 1 * alpha;
                b2 = c_lit m 2 1 * alpha;
                a1 = c_lit m 2 1 * - gamma;
                a2 = c_lit m 2 1 * beta
            in set_coefficient m bq b0 b1 b2 1 a1 a2)
         else set_coefficient m bq 1 0 0 1 0 0)"

definition biquad_bandpass ::
  "('f, 'd :: {zero, one, plus, minus, uminus, times, inverse, ord}) cmath \<Rightarrow> 'f biquad \<Rightarrow> 'd \<Rightarrow> 'd \<Rightarrow> 'f biquad" where
  "biquad_bandpass m bq frequency0 Q0 =
     (let frequency = c_max 0 frequency0; Q = c_max 0 Q0
      in if frequency > 0 \<and> frequency < 1 then
           (let w0 = c_pi m * frequency
            in if Q > 0 then
                 (let alpha = c_sin m w0 / (c_lit m 2 1 * Q);
                      k = c_cos m w0;
                      b0 = alpha; b1 = 0; b2 = - alpha;
                      a0 = 1 + alpha; a1 = c_lit m (- 2) 1 * k; a2 = 1 - alpha
                  in set_coefficient m bq b0 b1 b2 a0 a1 a2)
               else set_coefficient m bq 1 0 0 1 0 0)
         else set_coefficient m bq 0 0 0 1 0 0)"

definition biquad_lowshelf ::
  "('f, 'd :: {zero, one, plus, minus, uminus, times, inverse, ord}) cmath \<Rightarrow> 'f biquad \<Rightarrow> 'd \<Rightarrow> 'd \<Rightarrow> 'f biquad" where
  "biquad_lowshelf m bq frequency0 db_gain =
     (let frequency = c_max 0 (c_min frequency0 1);
          A = c_pow m (c_lit m 10 1) (db_gain / c_lit m 40 1)
      in if frequency = 1 then set_coefficient m bq (A * A) 0 0 1 0 0
         else if frequency > 0 then
           (let w0 = c_pi m * frequency;
                S = 1;
                alpha = c_lit m 1 2 * c_sin m w0 * c_sqrt m ((A + 1 / A) * (1 / S - 1) + c_lit m 2 1);
                k = c_cos m w0;
                k2 = c_lit m 2 1 * c_sqrt m A * alpha;
                a_plus_one = A + 1;
                a_minus_one = A - 1;
                b0 = A * (a_plus_one - a_minus_one * k + k2);
                b1 = c_lit m 2 1 * A * (a_minus_one - a_plus_one * k);
                b2 = A * (a_plus_one - a_minus_one * k - k2);
                a0 = a_plus_one + a_minus_one * k + k2;
                a1 = c_lit m (- 2) 1 * (a_minus_one + a_plus_one * k);
                a2 = a_plus_one + a_minus_one * k - k2
            in set_coefficient m bq b0 b1 b2 a0 a1 a2)
         else set_coefficient m bq 1 0 0 1 0 0)"

definition biquad_highshelf ::
  "('f, 'd :: {zero, one, plus, minus, uminus, times, inverse, ord}) cmath \<Rightarrow> 'f biquad \<Rightarrow> 'd \<Rightarrow> 'd \<Rightarrow> 'f biquad" where
  "biquad_highshelf m bq frequency0 db_gain =
     (let frequency = c_max 0 (c_min frequency0 1);
          A = c_pow m (c_lit m 10 1) (db_gain / c_lit m 40 1)
      in if frequency = 1 then set_coefficient m bq 1 0 0 1 0 0
         else if frequency > 0 then
           (let w0 = c_pi m * frequency;
                S = 1;
                alpha = c_lit m 1 2 * c_sin m w0 * c_sqrt m ((A + 1 / A) * (1 / S - 1) + c_lit m 2 1);
                k = c_cos m w0;
                k2 = c_lit m 2 1 * c_sqrt m A * alpha;
                a_plus_one = A + 1;
                a_minus_one = A - 1;
                b0 = A * (a_plus_one + a_minus_one * k + k2);
                b1 = c_lit m (- 2) 1 * A * (a_minus_one + a_plus_one * k);
                b2 = A * (a_plus_one + a_minus_one * k - k2);
                a0 = a_plus_one - a_minus_one * k + k2;
                a1 = c_lit m 2 1 * (a_minus_one - a_plus_one * k);
                a2 = a_plus_one - a_minus_one * k - k2
            in set_coefficient m bq b0 b1 b2 a0 a1 a2)
         else set_coefficient m bq (A * A) 0 0 1 0 0)"

definition biquad_peaking ::
  "('f, 'd :: {zero, one, plus, minus, uminus, times, inverse, ord}) cmath \<Rightarrow> 'f biquad \<Rightarrow> 'd \<Rightarrow> 'd \<Rightarrow> 'd \<Rightarrow> 'f biquad" where
  "biquad_peaking m bq frequency0 Q0 db_gain =
     (let frequency = c_max 0 (c_min frequency0 1);
          Q = c_max 0 Q0;
          A = c_pow m (c_lit m 10 1) (db_gain / c_lit m 40 1)
      in if frequency > 0 \<and> frequency < 1 then
           (if Q > 0 then
              (let w0 = c_pi m * frequency;
                   alpha = c_sin m w0 / (c_lit m 2 1 * Q);
                   k = c_cos m w0;
                   b0 = 1 + alpha * A;
                   b1 = c_lit m (- 2) 1 * k;
                   b2 = 1 - alpha * A;
                   a0 = 1 + alpha / A;
                   a1 = c_lit m (- 2) 1 * k;
                   a2 = 1 - alpha / A
               in set_coefficient m bq b0 b1 b2 a0 a1 a2)
            else set_coefficient m bq (A * A) 0 0 1 0 0)
         else set_coefficient m bq 1 0 0 1 0 0)"

definition biquad_notch ::
  "('f, 'd :: {zero, one, plus, minus, uminus, times, inverse, ord}) cmath \<Rightarrow> 'f biquad \<Rightarrow> 'd \<Rightarrow> 'd \<Rightarrow> 'f biquad" where
  "biquad_notch m bq frequency0 Q0 =
     (let frequency = c_max 0 (c_min frequency0 1); Q = c_max 0 Q0
      in if frequency > 0 \<and> frequency < 1 then
           (if Q > 0 then
              (let w0 = c_pi m * frequency;
                   alpha = c_sin m w0 / (c_lit m 2 1 * Q);
                   k = c_cos m w0;
                   b0 = 1; b1 = c_lit m (- 2) 1 * k; b2 = 1;
                   a0 = 1 + alpha; a1 = c_lit m (- 2) 1 * k; a2 = 1 - alpha
               in set_coefficient m bq b0 b1 b2 a0 a1 a2)
            else set_coefficient m bq 0 0 0 1 0 0)
         else set_coefficient m bq 1 0 0 1 0 0)"

definition biquad_allpass ::
  "('f, 'd :: {zero, one, plus, minus, uminus, times, inverse, ord}) cmath \<Rightarrow> 'f biquad \<Rightarrow> 'd \<Rightarrow> 'd \<Rightarrow> 'f biquad" where
  "biquad_allpass m bq frequency0 Q0 =
     (let frequency = c_max 0 (c_min frequency0 1); Q = c_max 0 Q0
      in if frequency > 0 \<and> frequency < 1 then
           (if Q > 0 then
              (let w0 = c_pi m * frequency;
                   alpha = c_sin m w0 / (c_lit m 2 1 * Q);
                   k = c_cos m w0;
                   b0 = 1 - alpha; b1 = c_lit m (- 2) 1 * k; b2 = 1 + alpha;
                   a0 = 1 + alpha; a1 = c_lit m (- 2) 1 * k; a2 = 1 - alpha
               in set_coefficient m bq b0 b1 b2 a0 a1 a2)
            else set_coefficient m bq (- 1) 0 0 1 0 0)
         else set_coefficient m bq 1 0 0 1 0 0)"

definition biquad_set ::
  "('f :: zero, 'd :: {zero, one, plus, minus, uminus, times, inverse, ord}) cmath \<Rightarrow> 'f biquad \<Rightarrow> biquad_type
     \<Rightarrow> 'd \<Rightarrow> 'd \<Rightarrow> 'd \<Rightarrow> 'f biquad" where
  "biquad_set m bq0 type freq Q gain =
     (let bq = (set_coefficient m bq0 1 0 0 1 0 0)\<lparr>bq_x1 := 0, bq_x2 := 0, bq_y1 := 0, bq_y2 := 0\<rparr>
      in case type of
           BQ_LOWPASS \<Rightarrow> biquad_lowpass m bq freq Q
         | BQ_HIGHPASS \<Rightarrow> biquad_highpass m bq freq Q
         | BQ_BANDPASS \<Rightarrow> biquad_bandpass m bq freq Q
         | BQ_LOWSHELF \<Rightarrow> biquad_lowshelf m bq freq gain
         | BQ_HIGHSHELF \<Rightarrow> biquad_highshelf m bq freq gain
         | BQ_PEAKING \<Rightarrow> biquad_peaking m bq freq Q gain
         | BQ_NOTCH \<Rightarrow> biquad_notch m bq freq Q
         | BQ_ALLPASS \<Rightarrow> biquad_allpass m bq freq Q
         | BQ_NONE \<Rightarrow> bq)"

subsection \<open>Filtering\<close>

text \<open>One sample through a filter, and a whole buffer: the inner loops of the equalizers.\<close>

definition bq_step :: "('f :: {plus, minus, times}) biquad \<Rightarrow> 'f \<Rightarrow> 'f biquad \<times> 'f" where
  "bq_step q x =
     (let y = bq_b0 q * x + bq_b1 q * bq_x1 q + bq_b2 q * bq_x2 q - bq_a1 q * bq_y1 q - bq_a2 q * bq_y2 q
      in (q\<lparr>bq_x2 := bq_x1 q, bq_x1 := x, bq_y2 := bq_y1 q, bq_y1 := y\<rparr>, y))"

fun bq_run :: "('f :: {plus, minus, times}) biquad \<Rightarrow> 'f list \<Rightarrow> 'f biquad \<times> 'f list" where
  "bq_run q [] = (q, [])"
| "bq_run q (x # xs) =
     (case bq_step q x of (q', y) \<Rightarrow> (case bq_run q' xs of (q'', ys) \<Rightarrow> (q'', y # ys)))"

text \<open>Loops over a buffer that touch its first \<open>count\<close> samples only.\<close>

definition on_prefix :: "nat \<Rightarrow> ('f list \<Rightarrow> 's \<times> 'f list) \<Rightarrow> 'f list \<Rightarrow> 's \<times> 'f list" where
  "on_prefix count f data = (case f (take count data) of (s, ys) \<Rightarrow> (s, ys @ drop count data))"

subsection \<open>The one-channel equalizer\<close>

definition MAX_BIQUADS_PER_EQ :: nat where
  "MAX_BIQUADS_PER_EQ = 10"

record 'f eq =
  eq_n :: nat
  eq_biquad :: "'f biquad list"

definition zero_biquad :: "('f :: zero) biquad" where
  "zero_biquad = \<lparr>bq_b0 = 0, bq_b1 = 0, bq_b2 = 0, bq_a1 = 0, bq_a2 = 0, bq_x1 = 0, bq_x2 = 0, bq_y1 = 0, bq_y2 = 0\<rparr>"

definition eq_new :: "('f :: zero) eq" where
  "eq_new = \<lparr>eq_n = 0, eq_biquad = replicate MAX_BIQUADS_PER_EQ zero_biquad\<rparr>"

definition eq_append_biquad ::
  "('f :: zero, 'd :: {zero, one, plus, minus, uminus, times, inverse, ord}) cmath \<Rightarrow> 'f eq \<Rightarrow> biquad_type
     \<Rightarrow> 'f \<Rightarrow> 'f \<Rightarrow> 'f \<Rightarrow> int \<times> 'f eq" where
  "eq_append_biquad m eq type freq Q gain =
     (if eq_n eq \<ge> MAX_BIQUADS_PER_EQ then (- 1, eq)
      else (0, eq\<lparr>eq_biquad := (eq_biquad eq)[eq_n eq :=
                    biquad_set m (eq_biquad eq ! eq_n eq) type (c_double m freq) (c_double m Q) (c_double m gain)],
                  eq_n := eq_n eq + 1\<rparr>))"

definition eq_append_biquad_direct :: "'f eq \<Rightarrow> 'f biquad \<Rightarrow> int \<times> 'f eq" where
  "eq_append_biquad_direct eq biquad =
     (if eq_n eq \<ge> MAX_BIQUADS_PER_EQ then (- 1, eq)
      else (0, eq\<lparr>eq_biquad := (eq_biquad eq)[eq_n eq := biquad], eq_n := eq_n eq + 1\<rparr>))"

text \<open>The prototype loop: one pass over the buffer for each filter.\<close>

fun eq_chain :: "('f :: {plus, minus, times}) biquad list \<Rightarrow> 'f list \<Rightarrow> 'f biquad list \<times> 'f list" where
  "eq_chain [] data = ([], data)"
| "eq_chain (q # qs) data =
     (case bq_run q data of (q', data') \<Rightarrow> (case eq_chain qs data' of (qs', out) \<Rightarrow> (q' # qs', out)))"

definition eq_process1 :: "('f :: {plus, minus, times}) eq \<Rightarrow> 'f list \<Rightarrow> nat \<Rightarrow> 'f eq \<times> 'f list" where
  "eq_process1 eq data count =
     (case on_prefix count (eq_chain (take (eq_n eq) (eq_biquad eq))) data of
        (qs, out) \<Rightarrow> (eq\<lparr>eq_biquad := qs @ drop (eq_n eq) (eq_biquad eq)\<rparr>, out))"

text \<open>
  The loop in use runs two filters in one pass. The output history of the first serves as the
  input history of the second, whose own \<^verbatim>\<open>x1\<close> and \<^verbatim>\<open>x2\<close> are neither read nor written.
\<close>

definition pair_step ::
  "('f :: {plus, minus, times}) biquad \<Rightarrow> 'f biquad \<Rightarrow> 'f \<Rightarrow> ('f biquad \<times> 'f biquad) \<times> 'f" where
  "pair_step q r x =
     (let y = bq_b0 q * x + bq_b1 q * bq_x1 q + bq_b2 q * bq_x2 q - bq_a1 q * bq_y1 q - bq_a2 q * bq_y2 q;
          z = bq_b0 r * y + bq_b1 r * bq_y1 q + bq_b2 r * bq_y2 q - bq_a1 r * bq_y1 r - bq_a2 r * bq_y2 r
      in ((q\<lparr>bq_x2 := bq_x1 q, bq_x1 := x, bq_y2 := bq_y1 q, bq_y1 := y\<rparr>,
           r\<lparr>bq_y2 := bq_y1 r, bq_y1 := z\<rparr>), z))"

fun pair_run ::
  "('f :: {plus, minus, times}) biquad \<Rightarrow> 'f biquad \<Rightarrow> 'f list \<Rightarrow> ('f biquad \<times> 'f biquad) \<times> 'f list" where
  "pair_run q r [] = ((q, r), [])"
| "pair_run q r (x # xs) =
     (case pair_step q r x of ((q', r'), z) \<Rightarrow> (case pair_run q' r' xs of (s, zs) \<Rightarrow> (s, z # zs)))"

fun eq_pairs :: "('f :: {plus, minus, times}) biquad list \<Rightarrow> 'f list \<Rightarrow> 'f biquad list \<times> 'f list" where
  "eq_pairs [] data = ([], data)"
| "eq_pairs [q] data = (case bq_run q data of (q', data') \<Rightarrow> ([q'], data'))"
| "eq_pairs (q # r # qs) data =
     (case pair_run q r data of
        ((q', r'), data') \<Rightarrow> (case eq_pairs qs data' of (qs', out) \<Rightarrow> (q' # r' # qs', out)))"

definition eq_process :: "('f :: {plus, minus, times}) eq \<Rightarrow> 'f list \<Rightarrow> nat \<Rightarrow> 'f eq \<times> 'f list" where
  "eq_process eq data count =
     (case on_prefix count (eq_pairs (take (eq_n eq) (eq_biquad eq))) data of
        (qs, out) \<Rightarrow> (eq\<lparr>eq_biquad := qs @ drop (eq_n eq) (eq_biquad eq)\<rparr>, out))"

subsection \<open>The two-channel equalizer\<close>

definition MAX_BIQUADS_PER_EQ2 :: nat where
  "MAX_BIQUADS_PER_EQ2 = 10"

record 'f eq2 =
  eq2_n :: "nat \<times> nat"
  eq2_biquad :: "('f biquad \<times> 'f biquad) list"

definition eq2_new ::
  "('f :: zero, 'd :: {zero, one, plus, minus, uminus, times, inverse, ord}) cmath \<Rightarrow> 'f eq2" where
  "eq2_new m =
     (let q = biquad_set m zero_biquad BQ_NONE 0 0 0
      in \<lparr>eq2_n = (0, 0), eq2_biquad = replicate MAX_BIQUADS_PER_EQ2 (q, q)\<rparr>)"

text \<open>\<open>right\<close> is channel 1.\<close>

definition eq2_count :: "'f eq2 \<Rightarrow> bool \<Rightarrow> nat" where
  "eq2_count eq2 right = (if right then snd (eq2_n eq2) else fst (eq2_n eq2))"

definition eq2_put :: "'f eq2 \<Rightarrow> bool \<Rightarrow> 'f biquad \<Rightarrow> 'f eq2" where
  "eq2_put eq2 right biquad =
     (let i = eq2_count eq2 right; pr = eq2_biquad eq2 ! i
      in eq2\<lparr>eq2_biquad := (eq2_biquad eq2)[i := (if right then (fst pr, biquad) else (biquad, snd pr))],
             eq2_n := (if right then (fst (eq2_n eq2), i + 1) else (i + 1, snd (eq2_n eq2)))\<rparr>)"

definition eq2_append_biquad ::
  "('f :: zero, 'd :: {zero, one, plus, minus, uminus, times, inverse, ord}) cmath \<Rightarrow> 'f eq2 \<Rightarrow> bool
     \<Rightarrow> biquad_type \<Rightarrow> 'f \<Rightarrow> 'f \<Rightarrow> 'f \<Rightarrow> int \<times> 'f eq2" where
  "eq2_append_biquad m eq2 channel type freq Q gain =
     (if eq2_count eq2 channel \<ge> MAX_BIQUADS_PER_EQ2 then (- 1, eq2)
      else (let pr = eq2_biquad eq2 ! eq2_count eq2 channel
            in (0, eq2_put eq2 channel
                     (biquad_set m (if channel then snd pr else fst pr) type
                        (c_double m freq) (c_double m Q) (c_double m gain)))))"

definition eq2_append_biquad_direct :: "'f eq2 \<Rightarrow> bool \<Rightarrow> 'f biquad \<Rightarrow> int \<times> 'f eq2" where
  "eq2_append_biquad_direct eq2 channel biquad =
     (if eq2_count eq2 channel \<ge> MAX_BIQUADS_PER_EQ2 then (- 1, eq2)
      else (0, eq2_put eq2 channel biquad))"

text \<open>The body of the loop of \<^verbatim>\<open>eq2_process_one\<close>, left sample and right sample in turn, and the loop.\<close>

definition stereo_step ::
  "('f :: {plus, minus, times}) biquad \<times> 'f biquad \<Rightarrow> 'f \<Rightarrow> 'f \<Rightarrow> ('f biquad \<times> 'f biquad) \<times> 'f \<times> 'f" where
  "stereo_step q xL xR =
     (case q of (qL, qR) \<Rightarrow>
        (let yL = bq_b0 qL * xL + bq_b1 qL * bq_x1 qL + bq_b2 qL * bq_x2 qL - bq_a1 qL * bq_y1 qL - bq_a2 qL * bq_y2 qL;
             qL' = qL\<lparr>bq_x2 := bq_x1 qL, bq_x1 := xL, bq_y2 := bq_y1 qL, bq_y1 := yL\<rparr>;
             yR = bq_b0 qR * xR + bq_b1 qR * bq_x1 qR + bq_b2 qR * bq_x2 qR - bq_a1 qR * bq_y1 qR - bq_a2 qR * bq_y2 qR;
             qR' = qR\<lparr>bq_x2 := bq_x1 qR, bq_x1 := xR, bq_y2 := bq_y1 qR, bq_y1 := yR\<rparr>
         in ((qL', qR'), yL, yR)))"

fun stereo_run ::
  "('f :: {plus, minus, times}) biquad \<times> 'f biquad \<Rightarrow> ('f \<times> 'f) list \<Rightarrow> ('f biquad \<times> 'f biquad) \<times> ('f \<times> 'f) list" where
  "stereo_run q [] = (q, [])"
| "stereo_run q ((xL, xR) # xs) =
     (case stereo_step q xL xR of (q', y) \<Rightarrow> (case stereo_run q' xs of (q'', ys) \<Rightarrow> (q'', y # ys)))"

definition eq2_process_one ::
  "('f :: {plus, minus, times}) biquad \<times> 'f biquad \<Rightarrow> 'f list \<Rightarrow> 'f list \<Rightarrow> nat
     \<Rightarrow> ('f biquad \<times> 'f biquad) \<times> 'f list \<times> 'f list" where
  "eq2_process_one bq data0 data1 count =
     (case stereo_run bq (zip (take count data0) (take count data1)) of
        (bq', ys) \<Rightarrow> (bq', map fst ys @ drop count data0, map snd ys @ drop count data1))"

fun eq2_chain ::
  "nat \<Rightarrow> (('f :: {plus, minus, times}) biquad \<times> 'f biquad) list \<Rightarrow> 'f list \<Rightarrow> 'f list
     \<Rightarrow> ('f biquad \<times> 'f biquad) list \<times> 'f list \<times> 'f list" where
  "eq2_chain count [] data0 data1 = ([], data0, data1)"
| "eq2_chain count [q] data0 data1 =
     (case eq2_process_one q data0 data1 count of (q', out) \<Rightarrow> ([q'], out))"
| "eq2_chain count (q # r # qs) data0 data1 =
     (case eq2_process_one q data0 data1 count of
        (q', d0, d1) \<Rightarrow>
          (case eq2_process_one r d0 d1 count of
             (r', e0, e1) \<Rightarrow> (case eq2_chain count qs e0 e1 of (qs', out) \<Rightarrow> (q' # r' # qs', out))))"

definition eq2_process ::
  "('f :: {plus, minus, times}) eq2 \<Rightarrow> 'f list \<Rightarrow> 'f list \<Rightarrow> nat \<Rightarrow> 'f eq2 \<times> 'f list \<times> 'f list" where
  "eq2_process eq2 data0 data1 count =
     (if count = 0 then (eq2, data0, data1)
      else (let n = (if snd (eq2_n eq2) > fst (eq2_n eq2) then snd (eq2_n eq2) else fst (eq2_n eq2))
            in case eq2_chain count (take n (eq2_biquad eq2)) data0 data1 of
                 (qs, out) \<Rightarrow> (eq2\<lparr>eq2_biquad := qs @ drop n (eq2_biquad eq2)\<rparr>, out)))"

subsection \<open>Streaming\<close>

lemma length_bq_run [simp]: "bq_run q xs = (q', ys) \<Longrightarrow> length ys = length xs"
  by (induction q xs arbitrary: q' ys rule: bq_run.induct) (auto split: prod.splits)

lemma bq_run_append:
  "bq_run q (xs @ ys) =
     (case bq_run q xs of (q', xs') \<Rightarrow> (case bq_run q' ys of (q'', ys') \<Rightarrow> (q'', xs' @ ys')))"
  by (induction q xs rule: bq_run.induct) (auto split: prod.split)

lemma eq_chain_append:
  "eq_chain qs (xs @ ys) =
     (case eq_chain qs xs of (qs', xs') \<Rightarrow> (case eq_chain qs' ys of (qs'', ys') \<Rightarrow> (qs'', xs' @ ys')))"
  by (induction qs xs arbitrary: ys rule: eq_chain.induct) (auto simp: bq_run_append split: prod.split)

lemma eq_chain_lengths:
  "eq_chain qs xs = (qs', ys) \<Longrightarrow> length qs' = length qs \<and> length ys = length xs"
  by (induction qs xs arbitrary: qs' ys rule: eq_chain.induct) (auto split: prod.splits)

subsection \<open>Two filters in one pass\<close>

text \<open>
  The reading of the filters that the one-pass loop has: the input history of every second filter
  is the output history of the filter in front of it.
\<close>

definition feed :: "'f biquad \<Rightarrow> 'f biquad \<Rightarrow> 'f biquad" where
  "feed q r = r\<lparr>bq_x1 := bq_y1 q, bq_x2 := bq_y2 q\<rparr>"

fun aligned :: "'f biquad list \<Rightarrow> 'f biquad list" where
  "aligned [] = []"
| "aligned [q] = [q]"
| "aligned (q # r # qs) = q # feed q r # aligned qs"

lemma pair_step_steps:
  "pair_step q r x = ((q', r'), z) \<Longrightarrow>
     \<exists>y. bq_step q x = (q', y) \<and> bq_step (feed q r) y = (feed q' r', z)"
  by (auto simp: pair_step_def bq_step_def feed_def Let_def)

lemma pair_run_runs:
  "pair_run q r xs = ((q', r'), zs) \<Longrightarrow>
     \<exists>ys. bq_run q xs = (q', ys) \<and> bq_run (feed q r) ys = (feed q' r', zs)"
proof (induction xs arbitrary: q r zs)
  case (Cons x xs)
  obtain q1 r1 z where s: "pair_step q r x = ((q1, r1), z)" by (metis surj_pair)
  obtain zs' where r: "pair_run q1 r1 xs = ((q', r'), zs')" "zs = z # zs'"
    using Cons.prems s by (auto split: prod.splits)
  obtain y where y: "bq_step q x = (q1, y)" "bq_step (feed q r) y = (feed q1 r1, z)"
    using pair_step_steps [OF s] by blast
  obtain ys where "bq_run q1 xs = (q', ys)" "bq_run (feed q1 r1) ys = (feed q' r', zs')"
    using Cons.IH [OF r(1)] by blast
  with y r(2) have "bq_run q (x # xs) = (q', y # ys)" "bq_run (feed q r) (y # ys) = (feed q' r', zs)" by auto
  then show ?case by blast
qed simp

lemma eq_pairs_chain:
  "eq_pairs qs xs = (qs', ys) \<Longrightarrow> eq_chain (aligned qs) xs = (aligned qs', ys) \<and> length qs' = length qs"
proof (induction qs xs arbitrary: qs' ys rule: eq_pairs.induct)
  case (3 q r qs xs)
  obtain q1 r1 zs where p: "pair_run q r xs = ((q1, r1), zs)" by (metis surj_pair)
  then obtain qs1 where c: "eq_pairs qs zs = (qs1, ys)" "qs' = q1 # r1 # qs1"
    using "3.prems" by (auto split: prod.splits)
  obtain ws where "bq_run q xs = (q1, ws)" "bq_run (feed q r) ws = (feed q1 r1, zs)"
    using pair_run_runs [OF p] by blast
  with "3.IH" [OF p [symmetric] refl c(1)] c(2) show ?case by simp
qed (auto split: prod.splits)

subsection \<open>Well-formed equalizers\<close>

text \<open>The array has its fixed length and the count stays within it.\<close>

definition eq_wf :: "'f eq \<Rightarrow> bool" where
  "eq_wf eq \<longleftrightarrow> length (eq_biquad eq) = MAX_BIQUADS_PER_EQ \<and> eq_n eq \<le> MAX_BIQUADS_PER_EQ"

text \<open>No filter in use has seen a sample.\<close>

definition no_history :: "('f :: zero) biquad \<Rightarrow> bool" where
  "no_history q \<longleftrightarrow> bq_x1 q = 0 \<and> bq_x2 q = 0 \<and> bq_y1 q = 0 \<and> bq_y2 q = 0"

definition eq_fresh :: "('f :: zero) eq \<Rightarrow> bool" where
  "eq_fresh eq \<longleftrightarrow> eq_wf eq \<and> list_all no_history (take (eq_n eq) (eq_biquad eq))"

lemmas biquad_kinds_def = biquad_lowpass_def biquad_highpass_def biquad_bandpass_def biquad_lowshelf_def
  biquad_highshelf_def biquad_peaking_def biquad_notch_def biquad_allpass_def

lemma set_coefficient_history [simp]:
  "no_history (set_coefficient m bq b0 b1 b2 a0 a1 a2) = no_history bq"
  by (simp add: set_coefficient_def no_history_def Let_def)

lemma biquad_set_history: "no_history (biquad_set m bq type freq Q gain)"
proof -
  have "no_history ((set_coefficient m bq 1 0 0 1 0 0)\<lparr>bq_x1 := 0, bq_x2 := 0, bq_y1 := 0, bq_y2 := 0\<rparr>)"
    by (simp add: no_history_def)
  then show ?thesis
    by (cases type) (simp_all add: biquad_set_def biquad_kinds_def Let_def)
qed

lemma eq_fresh_new: "eq_fresh eq_new"
  by (simp add: eq_fresh_def eq_wf_def eq_new_def)

lemma take_snoc_update: "n < length xs \<Longrightarrow> take (Suc n) (xs[n := x]) = take n xs @ [x]"
  by (simp add: take_Suc_conv_app_nth)

lemma eq_fresh_append:
  assumes "eq_fresh eq"
  shows "eq_fresh (snd (eq_append_biquad m eq type freq Q gain))"
  using assms
  by (auto simp: eq_fresh_def eq_wf_def eq_append_biquad_def biquad_set_history take_snoc_update)

lemma length_aligned [simp]: "length (aligned qs) = length qs"
  by (induction qs rule: aligned.induct) simp_all

lemma aligned_fresh: "list_all no_history qs \<Longrightarrow> aligned qs = qs"
  by (induction qs rule: aligned.induct) (auto simp: feed_def no_history_def)

definition align_eq :: "'f eq \<Rightarrow> 'f eq" where
  "align_eq eq = eq\<lparr>eq_biquad := aligned (take (eq_n eq) (eq_biquad eq)) @ drop (eq_n eq) (eq_biquad eq)\<rparr>"

lemma eq_process_chain:
  assumes "eq_wf eq" "eq_process eq data count = (eq', out)"
  obtains ys where
    "eq_chain (aligned (take (eq_n eq) (eq_biquad eq))) (take count data) =
       (aligned (take (eq_n eq) (eq_biquad eq')), ys)"
    "out = ys @ drop count data" "eq' = eq\<lparr>eq_biquad := eq_biquad eq'\<rparr>" "eq_wf eq'"
    "drop (eq_n eq) (eq_biquad eq') = drop (eq_n eq) (eq_biquad eq)"
proof -
  let ?n = "eq_n eq" and ?bs = "eq_biquad eq"
  obtain qs ys where p: "eq_pairs (take ?n ?bs) (take count data) = (qs, ys)" by fastforce
  have r: "eq' = eq\<lparr>eq_biquad := qs @ drop ?n ?bs\<rparr>" "out = ys @ drop count data"
    using assms(2) p by (auto simp: eq_process_def on_prefix_def)
  from eq_pairs_chain [OF p] have c: "eq_chain (aligned (take ?n ?bs)) (take count data) = (aligned qs, ys)"
      and "length qs = length (take ?n ?bs)" by auto
  moreover have "length (take ?n ?bs) = ?n" using assms(1) by (simp add: eq_wf_def)
  ultimately show ?thesis
    using assms(1) r by (intro that [of ys]) (simp_all add: eq_wf_def)
qed

text \<open>Processing a sequence of blocks, the state carried from one to the next.\<close>

fun run_blocks :: "('s \<Rightarrow> 'f list \<Rightarrow> 's \<times> 'f list) \<Rightarrow> 's \<Rightarrow> 'f list list \<Rightarrow> 'f list list" where
  "run_blocks f s [] = []"
| "run_blocks f s (b # bs) = (case f s b of (s', b') \<Rightarrow> b' # run_blocks f s' bs)"

lemma eq_chain_blocks:
  "concat (run_blocks eq_chain qs blocks) = snd (eq_chain qs (concat blocks))"
proof (induction blocks arbitrary: qs)
  case Nil
  have "length (snd (eq_chain qs [])) = 0"
    using eq_chain_lengths [of qs "[]"] by (cases "eq_chain qs []") simp
  then show ?case by simp
next
  case (Cons b bs)
  then show ?case by (simp add: eq_chain_append split: prod.split)
qed

lemma eq_blocks_aligned:
  assumes "eq_wf eq"
  shows "run_blocks (\<lambda>e d. eq_process e d (length d)) eq blocks =
         run_blocks eq_chain (aligned (take (eq_n eq) (eq_biquad eq))) blocks"
  using assms
proof (induction blocks arbitrary: eq)
  case (Cons b bs)
  obtain eq' out where p: "eq_process eq b (length b) = (eq', out)" by fastforce
  obtain ys where c: "eq_chain (aligned (take (eq_n eq) (eq_biquad eq))) (take (length b) b) =
       (aligned (take (eq_n eq) (eq_biquad eq')), ys)" "out = ys @ drop (length b) b"
    "eq' = eq\<lparr>eq_biquad := eq_biquad eq'\<rparr>" and wf: "eq_wf eq'"
    by (rule eq_process_chain [OF Cons.prems p])
  have "eq_n eq' = eq_n eq" by (subst c(3)) simp
  with c p Cons.IH [OF wf] show ?case by simp
qed simp

subsection \<open>The two channels are independent\<close>

lemma stereo_run_channels:
  "length xs = length ys \<Longrightarrow>
   stereo_run (qL, qR) (zip xs ys) =
     ((fst (bq_run qL xs), fst (bq_run qR ys)), zip (snd (bq_run qL xs)) (snd (bq_run qR ys)))"
proof (induction xs ys arbitrary: qL qR rule: list_induct2)
  case (Cons x xs y ys)
  have "stereo_step (qL, qR) x y = ((fst (bq_step qL x), fst (bq_step qR y)), snd (bq_step qL x), snd (bq_step qR y))"
    by (simp add: stereo_step_def bq_step_def Let_def)
  then show ?case by (simp add: Cons.IH split: prod.split)
qed simp

lemma length_snd_bq_run [simp]: "length (snd (bq_run q xs)) = length xs"
  by (cases "bq_run q xs") simp

lemma eq2_process_one_channels:
  assumes "length xs = count" "length ys = count"
  shows "eq2_process_one q (xs @ t0) (ys @ t1) count =
    ((fst (bq_run (fst q) xs), fst (bq_run (snd q) ys)), snd (bq_run (fst q) xs) @ t0, snd (bq_run (snd q) ys) @ t1)"
  using assms by (cases q) (simp add: eq2_process_one_def stereo_run_channels)

lemma eq2_chain_Cons:
  "eq2_chain count (q # qs) data0 data1 =
     (case eq2_process_one q data0 data1 count of
        (q', d0, d1) \<Rightarrow> (case eq2_chain count qs d0 d1 of (qs', out) \<Rightarrow> (q' # qs', out)))"
  by (induction qs arbitrary: q data0 data1) (auto split: prod.split)

lemma eq2_chain_channels:
  "length xs = count \<Longrightarrow> length ys = count \<Longrightarrow>
   eq2_chain count qs (xs @ t0) (ys @ t1) =
     (case eq_chain (map fst qs) xs of (ls, out0) \<Rightarrow>
        (case eq_chain (map snd qs) ys of (rs, out1) \<Rightarrow> (zip ls rs, out0 @ t0, out1 @ t1)))"
proof (induction qs arbitrary: xs ys)
  case (Cons q qs)
  then show ?case
    by (simp add: eq2_chain_Cons eq2_process_one_channels split: prod.split)
qed simp

subsection \<open>Exact arithmetic\<close>

text \<open>In a ring, the filter without a type hands its input on unchanged.\<close>

lemma bq_run_identity:
  fixes q :: "('f :: comm_ring_1) biquad"
  assumes "bq_b0 q = 1" "bq_b1 q = 0" "bq_b2 q = 0" "bq_a1 q = 0" "bq_a2 q = 0"
  shows "snd (bq_run q xs) = xs"
  using assms
proof (induction xs arbitrary: q)
  case (Cons x xs)
  obtain q' where q': "bq_step q x = (q', x)"
    using Cons.prems by (simp add: bq_step_def Let_def)
  then have "bq_b0 q' = 1" "bq_b1 q' = 0" "bq_b2 q' = 0" "bq_a1 q' = 0" "bq_a2 q' = 0"
    using Cons.prems by (auto simp: bq_step_def Let_def)
  with Cons.IH q' show ?case by (auto split: prod.split simp: prod_eq_iff)
qed simp

subsection \<open>Properties\<close>

text \<open>Whole numbers as samples, without transcendental functions, for the examples.\<close>

definition int_math :: "(int, rat) cmath" where
  "int_math = \<lparr>c_lit = (\<lambda>n d. of_int n / of_int d), c_pi = 3, c_pow = (\<lambda>x y. 1), c_sqrt = id, c_sin = id,
               c_cos = id, c_float = floor, c_double = of_int, c_of_int = id, c_trunc = id\<rparr>"

text \<open>
  C14. The equalizer loop that runs two filters in one pass, applied to a stream of blocks of any sizes,
  gives sample for sample what the prototype loop gives for the whole stream at once, starting from
  an equalizer that has not processed anything yet.
\<close>

theorem eq_process_stream:
  assumes "eq_fresh eq"
  shows "concat (run_blocks (\<lambda>e d. eq_process e d (length d)) eq blocks) =
         snd (eq_process1 eq (concat blocks) (length (concat blocks)))"
proof -
  have "aligned (take (eq_n eq) (eq_biquad eq)) = take (eq_n eq) (eq_biquad eq)"
    using assms by (intro aligned_fresh) (simp add: eq_fresh_def)
  then have "concat (run_blocks (\<lambda>e d. eq_process e d (length d)) eq blocks) =
      snd (eq_chain (take (eq_n eq) (eq_biquad eq)) (concat blocks))"
    using assms by (simp add: eq_blocks_aligned eq_chain_blocks eq_fresh_def)
  then show ?thesis by (simp add: eq_process1_def on_prefix_def split: prod.split)
qed

definition demo_eq :: "int eq" where
  "demo_eq = snd (eq_append_biquad int_math (snd (eq_append_biquad int_math
     (snd (eq_append_biquad int_math eq_new BQ_NONE 0 0 0)) BQ_BANDPASS 2 1 0)) BQ_NONE 0 0 0)"

lemma demo_eq_fresh: "eq_fresh demo_eq"
  unfolding demo_eq_def by (intro eq_fresh_append eq_fresh_new)

theorem eq_process_stream_witness:
  "concat (run_blocks (\<lambda>e d. eq_process e d (length d)) demo_eq [[5, 6], [], [7]]) =
     snd (eq_process1 demo_eq [5, 6, 7] 3)"
  using eq_process_stream [OF demo_eq_fresh, of "[[5, 6], [], [7]]"] by (simp add: eval_nat_numeral)

text \<open>
  The two-channel equalizer treats its channels independently: each comes out as if its own filters
  had been applied one after the other to it alone, up to the larger of the two filter counts.
\<close>

theorem eq2_process_channels:
  assumes "0 < count" "count \<le> length data0" "count \<le> length data1"
    and "eq2_process eq2 data0 data1 count = (eq2', out0, out1)"
  shows "out0 = snd (eq_chain (map fst (take (max (fst (eq2_n eq2)) (snd (eq2_n eq2))) (eq2_biquad eq2))) (take count data0))
           @ drop count data0 \<and>
         out1 = snd (eq_chain (map snd (take (max (fst (eq2_n eq2)) (snd (eq2_n eq2))) (eq2_biquad eq2))) (take count data1))
           @ drop count data1"
proof -
  have n: "(if snd (eq2_n eq2) > fst (eq2_n eq2) then snd (eq2_n eq2) else fst (eq2_n eq2)) =
      max (fst (eq2_n eq2)) (snd (eq2_n eq2))" by (simp add: max_def)
  have "length (take count data0) = count" "length (take count data1) = count" using assms by simp_all
  from eq2_chain_channels [OF this, of _ "drop count data0" "drop count data1"] assms(1,4)
  show ?thesis unfolding eq2_process_def n Let_def by (auto split: prod.splits if_splits)
qed

theorem eq2_process_channels_witness:
  "fst (snd (eq2_process (snd (eq2_append_biquad_direct (eq2_new int_math) True (zero_biquad\<lparr>bq_b0 := 2\<rparr>)))
     [5, 6] [7, 8] 2)) = [5, 6] \<and>
   snd (snd (eq2_process (snd (eq2_append_biquad_direct (eq2_new int_math) True (zero_biquad\<lparr>bq_b0 := 2\<rparr>)))
     [5, 6] [7, 8] 2)) = [14, 16]"
proof -
  let ?e = "snd (eq2_append_biquad_direct (eq2_new int_math) True (zero_biquad\<lparr>bq_b0 := 2\<rparr>))"
  obtain e' o0 o1 where p: "eq2_process ?e [5, 6] [7, 8] 2 = (e', o0, o1)" by (metis prod_cases3)
  have "take (max (fst (eq2_n ?e)) (snd (eq2_n ?e))) (eq2_biquad ?e) =
      [(biquad_set int_math zero_biquad BQ_NONE 0 0 0, zero_biquad\<lparr>bq_b0 := 2\<rparr>)]"
    by code_simp
  with eq2_process_channels [OF _ _ _ p] p show ?thesis
    by (simp add: biquad_set_def set_coefficient_def int_math_def bq_step_def zero_biquad_def Let_def)
qed

text \<open>
  With exact arithmetic, an untyped filter changes nothing. This is what lets the two-channel
  equalizer pad the shorter of its filter chains.
\<close>

theorem biquad_none_identity:
  fixes m :: "('f :: comm_ring_1, 'd :: linordered_field) cmath"
  assumes "c_float m 1 = 1" "c_float m 0 = 0"
  shows "snd (bq_run (biquad_set m q BQ_NONE freq Q gain) xs) = xs"
  using assms by (intro bq_run_identity) (simp_all add: biquad_set_def set_coefficient_def Let_def)

theorem biquad_none_identity_witness:
  "snd (bq_run (biquad_set int_math zero_biquad BQ_NONE 3 4 5) [1, 2, 3]) = [1, 2, 3]"
  by (rule biquad_none_identity) (simp_all add: int_math_def)

end
