(* ===== verification/Crossover.thy ===== *)
theory Crossover
  imports Biquad
begin

text \<open>
  The three-band crossover filters of \<^verbatim>\<open>audio/hal/dsp/crossover.c\<close> (one channel) and
  \<^verbatim>\<open>audio/hal/dsp/crossover2.c\<close> (two channels at once, the portable C code). Each band filter is
  a fourth-order Linkwitz-Riley filter. The buffers handed to one call are distinct arrays.
\<close>

subsection \<open>One channel\<close>

record 'f lr4 =
  lr_b0 :: 'f
  lr_b1 :: 'f
  lr_b2 :: 'f
  lr_a1 :: 'f
  lr_a2 :: 'f
  lr_x1 :: 'f
  lr_x2 :: 'f
  lr_y1 :: 'f
  lr_y2 :: 'f
  lr_z1 :: 'f
  lr_z2 :: 'f

definition lr4_set ::
  "('f :: zero, 'd :: {zero, one, plus, minus, uminus, times, inverse, ord}) cmath \<Rightarrow> biquad_type \<Rightarrow> 'f \<Rightarrow> 'f lr4" where
  "lr4_set m type freq =
     (let q = biquad_set m zero_biquad type (c_double m freq) 0 0
      in \<lparr>lr_b0 = bq_b0 q, lr_b1 = bq_b1 q, lr_b2 = bq_b2 q, lr_a1 = bq_a1 q, lr_a2 = bq_a2 q,
          lr_x1 = 0, lr_x2 = 0, lr_y1 = 0, lr_y2 = 0, lr_z1 = 0, lr_z2 = 0\<rparr>)"

text \<open>One sample through one filter.\<close>

definition lr4_step :: "('f :: {plus, minus, times}) lr4 \<Rightarrow> 'f \<Rightarrow> 'f lr4 \<times> 'f" where
  "lr4_step f x =
     (let y = lr_b0 f * x + lr_b1 f * lr_x1 f + lr_b2 f * lr_x2 f - lr_a1 f * lr_y1 f - lr_a2 f * lr_y2 f;
          z = lr_b0 f * y + lr_b1 f * lr_y1 f + lr_b2 f * lr_y2 f - lr_a1 f * lr_z1 f - lr_a2 f * lr_z2 f
      in (f\<lparr>lr_x2 := lr_x1 f, lr_x1 := x, lr_y2 := lr_y1 f, lr_y1 := y, lr_z2 := lr_z1 f, lr_z1 := z\<rparr>, z))"

fun split_run ::
  "('f :: {plus, minus, times}) lr4 \<Rightarrow> 'f lr4 \<Rightarrow> 'f list \<Rightarrow> ('f lr4 \<times> 'f lr4) \<times> ('f \<times> 'f) list" where
  "split_run lp hp [] = ((lp, hp), [])"
| "split_run lp hp (x # xs) =
     (case lr4_step lp x of (lp', zl) \<Rightarrow>
        (case lr4_step hp x of (hp', zh) \<Rightarrow>
           (case split_run lp' hp' xs of (s, out) \<Rightarrow> (s, (zl, zh) # out))))"

definition lr4_split ::
  "('f :: {plus, minus, times}) lr4 \<Rightarrow> 'f lr4 \<Rightarrow> nat \<Rightarrow> 'f list \<Rightarrow> 'f list \<Rightarrow> ('f lr4 \<times> 'f lr4) \<times> 'f list \<times> 'f list" where
  "lr4_split lp hp count data0 data1 =
     (case split_run lp hp (take count data0) of
        (s, out) \<Rightarrow> (s, map fst out @ drop count data0, map snd out @ drop count data1))"

fun merge_run ::
  "('f :: {plus, minus, times}) lr4 \<Rightarrow> 'f lr4 \<Rightarrow> 'f list \<Rightarrow> ('f lr4 \<times> 'f lr4) \<times> 'f list" where
  "merge_run lp hp [] = ((lp, hp), [])"
| "merge_run lp hp (x # xs) =
     (case lr4_step lp x of (lp', zl) \<Rightarrow>
        (case lr4_step hp x of (hp', zh) \<Rightarrow>
           (case merge_run lp' hp' xs of (s, out) \<Rightarrow> (s, (zh + lr_z1 lp') # out))))"

definition lr4_merge ::
  "('f :: {plus, minus, times}) lr4 \<Rightarrow> 'f lr4 \<Rightarrow> nat \<Rightarrow> 'f list \<Rightarrow> ('f lr4 \<times> 'f lr4) \<times> 'f list" where
  "lr4_merge lp hp count data = on_prefix count (merge_run lp hp) data"

record 'f crossover =
  xo_lp :: "'f lr4 list"
  xo_hp :: "'f lr4 list"

definition crossover_init ::
  "('f :: zero, 'd :: {zero, one, plus, minus, uminus, times, inverse, ord}) cmath \<Rightarrow> 'f \<Rightarrow> 'f \<Rightarrow> 'f crossover" where
  "crossover_init m freq1 freq2 =
     \<lparr>xo_lp = map (\<lambda>i. lr4_set m BQ_LOWPASS (if i = 0 then freq1 else freq2)) [0..<3],
      xo_hp = map (\<lambda>i. lr4_set m BQ_HIGHPASS (if i = 0 then freq1 else freq2)) [0..<3]\<rparr>"

definition crossover_process ::
  "('f :: {plus, minus, times}) crossover \<Rightarrow> nat \<Rightarrow> 'f list \<Rightarrow> 'f list \<Rightarrow> 'f list
     \<Rightarrow> 'f crossover \<times> 'f list \<times> 'f list \<times> 'f list" where
  "crossover_process xo count data0 data1 data2 =
     (case lr4_split (xo_lp xo ! 0) (xo_hp xo ! 0) count data0 data1 of
        ((lp0, hp0), d0, d1) \<Rightarrow>
      case lr4_merge (xo_lp xo ! 1) (xo_hp xo ! 1) count d0 of
        ((lp1, hp1), e0) \<Rightarrow>
      case lr4_split (xo_lp xo ! 2) (xo_hp xo ! 2) count d1 data2 of
        ((lp2, hp2), e1, e2) \<Rightarrow> (\<lparr>xo_lp = [lp0, lp1, lp2], xo_hp = [hp0, hp1, hp2]\<rparr>, e0, e1, e2))"

subsection \<open>Two channels\<close>

record 'f lr42 =
  l2_b0 :: 'f
  l2_b1 :: 'f
  l2_b2 :: 'f
  l2_a1 :: 'f
  l2_a2 :: 'f
  l2_x1L :: 'f
  l2_x1R :: 'f
  l2_x2L :: 'f
  l2_x2R :: 'f
  l2_y1L :: 'f
  l2_y1R :: 'f
  l2_y2L :: 'f
  l2_y2R :: 'f
  l2_z1L :: 'f
  l2_z1R :: 'f
  l2_z2L :: 'f
  l2_z2R :: 'f

definition lr42_set ::
  "('f :: zero, 'd :: {zero, one, plus, minus, uminus, times, inverse, ord}) cmath \<Rightarrow> biquad_type \<Rightarrow> 'f \<Rightarrow> 'f lr42" where
  "lr42_set m type freq =
     (let q = biquad_set m zero_biquad type (c_double m freq) 0 0
      in \<lparr>l2_b0 = bq_b0 q, l2_b1 = bq_b1 q, l2_b2 = bq_b2 q, l2_a1 = bq_a1 q, l2_a2 = bq_a2 q,
          l2_x1L = 0, l2_x1R = 0, l2_x2L = 0, l2_x2R = 0, l2_y1L = 0, l2_y1R = 0, l2_y2L = 0, l2_y2R = 0,
          l2_z1L = 0, l2_z1R = 0, l2_z2L = 0, l2_z2R = 0\<rparr>)"

text \<open>A left and a right sample through one two-channel filter.\<close>

definition lr42_step :: "('f :: {plus, minus, times}) lr42 \<Rightarrow> 'f \<Rightarrow> 'f \<Rightarrow> 'f lr42 \<times> 'f \<times> 'f" where
  "lr42_step f xL xR =
     (let yL = l2_b0 f * xL + l2_b1 f * l2_x1L f + l2_b2 f * l2_x2L f - l2_a1 f * l2_y1L f - l2_a2 f * l2_y2L f;
          yR = l2_b0 f * xR + l2_b1 f * l2_x1R f + l2_b2 f * l2_x2R f - l2_a1 f * l2_y1R f - l2_a2 f * l2_y2R f;
          zL = l2_b0 f * yL + l2_b1 f * l2_y1L f + l2_b2 f * l2_y2L f - l2_a1 f * l2_z1L f - l2_a2 f * l2_z2L f;
          zR = l2_b0 f * yR + l2_b1 f * l2_y1R f + l2_b2 f * l2_y2R f - l2_a1 f * l2_z1R f - l2_a2 f * l2_z2R f
      in (f\<lparr>l2_x2L := l2_x1L f, l2_x2R := l2_x1R f, l2_x1L := xL, l2_x1R := xR,
            l2_y2L := l2_y1L f, l2_y2R := l2_y1R f, l2_y1L := yL, l2_y1R := yR,
            l2_z2L := l2_z1L f, l2_z2R := l2_z1R f, l2_z1L := zL, l2_z1R := zR\<rparr>, zL, zR))"

fun split2_run ::
  "('f :: {plus, minus, times}) lr42 \<Rightarrow> 'f lr42 \<Rightarrow> ('f \<times> 'f) list
     \<Rightarrow> ('f lr42 \<times> 'f lr42) \<times> (('f \<times> 'f) \<times> ('f \<times> 'f)) list" where
  "split2_run lp hp [] = ((lp, hp), [])"
| "split2_run lp hp ((xL, xR) # xs) =
     (case lr42_step lp xL xR of (lp', zl) \<Rightarrow>
        (case lr42_step hp xL xR of (hp', zh) \<Rightarrow>
           (case split2_run lp' hp' xs of (s, out) \<Rightarrow> (s, (zl, zh) # out))))"

definition lr42_split ::
  "('f :: {plus, minus, times}) lr42 \<Rightarrow> 'f lr42 \<Rightarrow> nat \<Rightarrow> 'f list \<Rightarrow> 'f list \<Rightarrow> 'f list \<Rightarrow> 'f list
     \<Rightarrow> ('f lr42 \<times> 'f lr42) \<times> 'f list \<times> 'f list \<times> 'f list \<times> 'f list" where
  "lr42_split lp hp count data0L data0R data1L data1R =
     (case split2_run lp hp (zip (take count data0L) (take count data0R)) of
        (s, out) \<Rightarrow> (s, map (fst \<circ> fst) out @ drop count data0L, map (snd \<circ> fst) out @ drop count data0R,
                      map (fst \<circ> snd) out @ drop count data1L, map (snd \<circ> snd) out @ drop count data1R))"

fun merge2_run ::
  "('f :: {plus, minus, times}) lr42 \<Rightarrow> 'f lr42 \<Rightarrow> ('f \<times> 'f) list \<Rightarrow> ('f lr42 \<times> 'f lr42) \<times> ('f \<times> 'f) list" where
  "merge2_run lp hp [] = ((lp, hp), [])"
| "merge2_run lp hp ((xL, xR) # xs) =
     (case lr42_step lp xL xR of (lp', _, _) \<Rightarrow>
        (case lr42_step hp xL xR of (hp', zL, zR) \<Rightarrow>
           (case merge2_run lp' hp' xs of (s, out) \<Rightarrow> (s, (zL + l2_z1L lp', zR + l2_z1R lp') # out))))"

definition lr42_merge ::
  "('f :: {plus, minus, times}) lr42 \<Rightarrow> 'f lr42 \<Rightarrow> nat \<Rightarrow> 'f list \<Rightarrow> 'f list
     \<Rightarrow> ('f lr42 \<times> 'f lr42) \<times> 'f list \<times> 'f list" where
  "lr42_merge lp hp count dataL dataR =
     (case merge2_run lp hp (zip (take count dataL) (take count dataR)) of
        (s, out) \<Rightarrow> (s, map fst out @ drop count dataL, map snd out @ drop count dataR))"

record 'f crossover2 =
  xo2_lp :: "'f lr42 list"
  xo2_hp :: "'f lr42 list"

definition crossover2_init ::
  "('f :: zero, 'd :: {zero, one, plus, minus, uminus, times, inverse, ord}) cmath \<Rightarrow> 'f \<Rightarrow> 'f \<Rightarrow> 'f crossover2" where
  "crossover2_init m freq1 freq2 =
     \<lparr>xo2_lp = map (\<lambda>i. lr42_set m BQ_LOWPASS (if i = 0 then freq1 else freq2)) [0..<3],
      xo2_hp = map (\<lambda>i. lr42_set m BQ_HIGHPASS (if i = 0 then freq1 else freq2)) [0..<3]\<rparr>"

definition crossover2_process ::
  "('f :: {plus, minus, times}) crossover2 \<Rightarrow> nat \<Rightarrow> 'f list \<Rightarrow> 'f list \<Rightarrow> 'f list \<Rightarrow> 'f list \<Rightarrow> 'f list \<Rightarrow> 'f list
     \<Rightarrow> 'f crossover2 \<times> 'f list \<times> 'f list \<times> 'f list \<times> 'f list \<times> 'f list \<times> 'f list" where
  "crossover2_process xo2 count data0L data0R data1L data1R data2L data2R =
     (if count = 0 then (xo2, data0L, data0R, data1L, data1R, data2L, data2R)
      else
        case lr42_split (xo2_lp xo2 ! 0) (xo2_hp xo2 ! 0) count data0L data0R data1L data1R of
          ((lp0, hp0), d0L, d0R, d1L, d1R) \<Rightarrow>
        case lr42_merge (xo2_lp xo2 ! 1) (xo2_hp xo2 ! 1) count d0L d0R of
          ((lp1, hp1), e0L, e0R) \<Rightarrow>
        case lr42_split (xo2_lp xo2 ! 2) (xo2_hp xo2 ! 2) count d1L d1R data2L data2R of
          ((lp2, hp2), e1L, e1R, e2L, e2R) \<Rightarrow>
            (\<lparr>xo2_lp = [lp0, lp1, lp2], xo2_hp = [hp0, hp1, hp2]\<rparr>, e0L, e0R, e1L, e1R, e2L, e2R))"

subsection \<open>An LR4 filter is two biquads in series\<close>

definition first_half :: "'f lr4 \<Rightarrow> 'f biquad" where
  "first_half f = \<lparr>bq_b0 = lr_b0 f, bq_b1 = lr_b1 f, bq_b2 = lr_b2 f, bq_a1 = lr_a1 f, bq_a2 = lr_a2 f,
                   bq_x1 = lr_x1 f, bq_x2 = lr_x2 f, bq_y1 = lr_y1 f, bq_y2 = lr_y2 f\<rparr>"

definition second_half :: "'f lr4 \<Rightarrow> 'f biquad" where
  "second_half f = \<lparr>bq_b0 = lr_b0 f, bq_b1 = lr_b1 f, bq_b2 = lr_b2 f, bq_a1 = lr_a1 f, bq_a2 = lr_a2 f,
                    bq_x1 = lr_y1 f, bq_x2 = lr_y2 f, bq_y1 = lr_z1 f, bq_y2 = lr_z2 f\<rparr>"

lemma lr4_step_halves:
  assumes "lr4_step f x = (f', z)"
  obtains y where "bq_step (first_half f) x = (first_half f', y)" "bq_step (second_half f) y = (second_half f', z)"
  using assms by (auto simp: lr4_step_def bq_step_def first_half_def second_half_def Let_def)

lemma split_run_halves:
  assumes "split_run lp hp xs = ((lp', hp'), out)"
  shows "eq_chain [first_half lp, second_half lp] xs = ([first_half lp', second_half lp'], map fst out) \<and>
         eq_chain [first_half hp, second_half hp] xs = ([first_half hp', second_half hp'], map snd out)"
  using assms
proof (induction xs arbitrary: lp hp out)
  case (Cons x xs)
  obtain lp1 zl where l: "lr4_step lp x = (lp1, zl)" by (metis surj_pair)
  obtain hp1 zh where h: "lr4_step hp x = (hp1, zh)" by (metis surj_pair)
  obtain out1 where r: "split_run lp1 hp1 xs = ((lp', hp'), out1)" "out = (zl, zh) # out1"
    using Cons.prems l h by (auto split: prod.splits)
  obtain yl where yl: "bq_step (first_half lp) x = (first_half lp1, yl)" "bq_step (second_half lp) yl = (second_half lp1, zl)"
    by (rule lr4_step_halves [OF l])
  obtain yh where yh: "bq_step (first_half hp) x = (first_half hp1, yh)" "bq_step (second_half hp) yh = (second_half hp1, zh)"
    by (rule lr4_step_halves [OF h])
  from Cons.IH [OF r(1)] r(2) yl yh show ?case by (auto split: prod.splits)
qed simp

subsection \<open>The channels of the two-channel filter\<close>

definition lr42_chan :: "bool \<Rightarrow> 'f lr42 \<Rightarrow> 'f lr4" where
  "lr42_chan right f =
     \<lparr>lr_b0 = l2_b0 f, lr_b1 = l2_b1 f, lr_b2 = l2_b2 f, lr_a1 = l2_a1 f, lr_a2 = l2_a2 f,
      lr_x1 = (if right then l2_x1R f else l2_x1L f), lr_x2 = (if right then l2_x2R f else l2_x2L f),
      lr_y1 = (if right then l2_y1R f else l2_y1L f), lr_y2 = (if right then l2_y2R f else l2_y2L f),
      lr_z1 = (if right then l2_z1R f else l2_z1L f), lr_z2 = (if right then l2_z2R f else l2_z2L f)\<rparr>"

definition xo_chan :: "bool \<Rightarrow> 'f crossover2 \<Rightarrow> 'f crossover" where
  "xo_chan right xo2 = \<lparr>xo_lp = map (lr42_chan right) (xo2_lp xo2), xo_hp = map (lr42_chan right) (xo2_hp xo2)\<rparr>"

text \<open>Picking a channel.\<close>

abbreviation pick :: "bool \<Rightarrow> 'a \<times> 'a \<Rightarrow> 'a" where
  "pick right p \<equiv> if right then snd p else fst p"

lemma lr42_step_chan:
  assumes "lr42_step f xL xR = (f', z)"
  shows "lr4_step (lr42_chan right f) (pick right (xL, xR)) = (lr42_chan right f', pick right z)"
  using assms by (auto simp: lr42_step_def lr4_step_def lr42_chan_def Let_def)

lemma lr42_step_z1:
  "lr42_step f xL xR = (f', zL, zR) \<Longrightarrow> l2_z1L f' = zL \<and> l2_z1R f' = zR"
  by (auto simp: lr42_step_def Let_def)

lemma split2_run_chan:
  "split2_run lp hp xs = ((lp', hp'), out) \<Longrightarrow>
     split_run (lr42_chan right lp) (lr42_chan right hp) (map (pick right) xs) =
       ((lr42_chan right lp', lr42_chan right hp'), map (\<lambda>(l, h). (pick right l, pick right h)) out)"
proof (induction lp hp xs arbitrary: out rule: split2_run.induct)
  case (2 lp hp xL xR xs)
  obtain lp1 zl where l: "lr42_step lp xL xR = (lp1, zl)" by (metis surj_pair)
  obtain hp1 zh where h: "lr42_step hp xL xR = (hp1, zh)" by (metis surj_pair)
  obtain out1 where r: "split2_run lp1 hp1 xs = ((lp', hp'), out1)" "out = (zl, zh) # out1"
    using "2.prems" l h by (auto split: prod.splits)
  note ih = "2.IH" [OF l [symmetric] h [symmetric] r(1)]
  show ?case
    using lr42_step_chan [OF l, of right] lr42_step_chan [OF h, of right] ih r(2) by (cases right) simp_all
qed simp

lemma merge2_run_chan:
  "merge2_run lp hp xs = ((lp', hp'), out) \<Longrightarrow>
     merge_run (lr42_chan right lp) (lr42_chan right hp) (map (pick right) xs) =
       ((lr42_chan right lp', lr42_chan right hp'), map (pick right) out)"
proof (induction lp hp xs arbitrary: out rule: merge2_run.induct)
  case (2 lp hp xL xR xs)
  obtain lp1 zlL zlR where l: "lr42_step lp xL xR = (lp1, zlL, zlR)" by (metis prod_cases3)
  obtain hp1 zL zR where h: "lr42_step hp xL xR = (hp1, zL, zR)" by (metis prod_cases3)
  obtain out1 where r: "merge2_run lp1 hp1 xs = ((lp', hp'), out1)"
      "out = (zL + l2_z1L lp1, zR + l2_z1R lp1) # out1"
    using "2.prems" l h by (auto split: prod.splits)
  note ih = "2.IH" [OF l [symmetric] refl h [symmetric] refl r(1)]
  show ?case
    using lr42_step_chan [OF l, of right] lr42_step_chan [OF h, of right] ih r(2)
    by (cases right) (simp_all add: lr42_chan_def)
qed simp

lemma map_pick_zip:
  "length xs = length ys \<Longrightarrow> map (pick right) (zip xs ys) = pick right (xs, ys)"
  by (cases right) simp_all

lemma length_split2_run: "split2_run lp hp xs = (s, out) \<Longrightarrow> length out = length xs"
  by (induction lp hp xs arbitrary: s out rule: split2_run.induct) (auto split: prod.splits)

lemma length_merge2_run: "merge2_run lp hp xs = (s, out) \<Longrightarrow> length out = length xs"
  by (induction lp hp xs arbitrary: s out rule: merge2_run.induct) (auto split: prod.splits)

lemma lr42_split_chan:
  assumes "lr42_split lp hp count d0L d0R d1L d1R = ((lp', hp'), e0L, e0R, e1L, e1R)"
    "count \<le> length d0L" "count \<le> length d0R"
  shows "lr4_split (lr42_chan right lp) (lr42_chan right hp) count (pick right (d0L, d0R)) (pick right (d1L, d1R)) =
           ((lr42_chan right lp', lr42_chan right hp'), pick right (e0L, e0R), pick right (e1L, e1R)) \<and>
         count \<le> length e0L \<and> count \<le> length e0R \<and> count \<le> length e1L \<and> count \<le> length e1R"
proof -
  obtain out where out: "split2_run lp hp (zip (take count d0L) (take count d0R)) = ((lp', hp'), out)"
      "e0L = map (fst \<circ> fst) out @ drop count d0L" "e0R = map (snd \<circ> fst) out @ drop count d0R"
      "e1L = map (fst \<circ> snd) out @ drop count d1L" "e1R = map (snd \<circ> snd) out @ drop count d1R"
    using assms(1) by (auto simp: lr42_split_def split: prod.splits)
  have "length out = count" using length_split2_run [OF out(1)] assms(2,3) by simp
  moreover have "split_run (lr42_chan right lp) (lr42_chan right hp) (take count (pick right (d0L, d0R))) =
      ((lr42_chan right lp', lr42_chan right hp'), map (\<lambda>(l, h). (pick right l, pick right h)) out)"
    using split2_run_chan [OF out(1), of right] assms(2,3) by (cases right) (simp_all add: map_pick_zip)
  ultimately show ?thesis
    using out(2-5) by (cases right) (simp_all add: lr4_split_def comp_def split_beta)
qed

lemma lr42_merge_chan:
  assumes "lr42_merge lp hp count dL dR = ((lp', hp'), eL, eR)" "count \<le> length dL" "count \<le> length dR"
  shows "lr4_merge (lr42_chan right lp) (lr42_chan right hp) count (pick right (dL, dR)) =
           ((lr42_chan right lp', lr42_chan right hp'), pick right (eL, eR))"
proof -
  obtain out where out: "merge2_run lp hp (zip (take count dL) (take count dR)) = ((lp', hp'), out)"
      "eL = map fst out @ drop count dL" "eR = map snd out @ drop count dR"
    using assms(1) by (auto simp: lr42_merge_def split: prod.splits)
  have "merge_run (lr42_chan right lp) (lr42_chan right hp) (take count (pick right (dL, dR))) =
      ((lr42_chan right lp', lr42_chan right hp'), map (pick right) out)"
    using merge2_run_chan [OF out(1), of right] assms(2,3) by (cases right) (simp_all add: map_pick_zip)
  then show ?thesis
    using out(2,3) by (cases right) (simp_all add: lr4_merge_def on_prefix_def)
qed

text \<open>Three low-pass and three high-pass filters.\<close>

definition xo2_wf :: "'f crossover2 \<Rightarrow> bool" where
  "xo2_wf xo2 \<longleftrightarrow> length (xo2_lp xo2) = 3 \<and> length (xo2_hp xo2) = 3"

lemma three_elements: "length xs = 3 \<Longrightarrow> [xs ! 0, xs ! 1, xs ! 2] = xs"
  by (auto simp: eval_nat_numeral length_Suc_conv)

lemma crossover_process_zero:
  assumes "length (xo_lp xo) = 3" "length (xo_hp xo) = 3"
  shows "crossover_process xo 0 d0 d1 d2 = (xo, d0, d1, d2)"
  using three_elements [OF assms(1)] three_elements [OF assms(2)]
  by (simp add: crossover_process_def lr4_split_def lr4_merge_def on_prefix_def)

subsection \<open>Properties\<close>

text \<open>
  C15. An LR4 filter is two biquads with the same parameters in series, as its comment says: splitting a
  buffer sends it through the two biquads of the low-pass and the two of the high-pass filter, and
  leaves all four with the right history.
\<close>

theorem lr4_split_is_biquads:
  assumes "lr4_split lp hp count data0 data1 = ((lp', hp'), out0, out1)"
  shows "eq_chain [first_half lp, second_half lp] (take count data0) =
           ([first_half lp', second_half lp'], take (length (take count data0)) out0) \<and>
         eq_chain [first_half hp, second_half hp] (take count data0) =
           ([first_half hp', second_half hp'], take (length (take count data0)) out1)"
proof -
  obtain out where out: "split_run lp hp (take count data0) = ((lp', hp'), out)"
      "out0 = map fst out @ drop count data0" "out1 = map snd out @ drop count data1"
    using assms by (auto simp: lr4_split_def split: prod.splits)
  from split_run_halves [OF out(1)] eq_chain_lengths
  have "length out = length (take count data0)" by (metis length_map)
  with split_run_halves [OF out(1)] out(2,3) show ?thesis by simp
qed

theorem lr4_split_is_biquads_witness:
  "\<exists>lp' hp' out0 out1. lr4_split (lr4_set int_math BQ_LOWPASS 1) (lr4_set int_math BQ_HIGHPASS 0) 2 [3, 4] [0, 0] =
     ((lp', hp'), out0, out1) \<and>
     eq_chain [first_half (lr4_set int_math BQ_LOWPASS 1), second_half (lr4_set int_math BQ_LOWPASS 1)] [3, 4] =
       ([first_half lp', second_half lp'], take 2 out0)"
proof -
  obtain lp' hp' out0 out1 where
    "lr4_split (lr4_set int_math BQ_LOWPASS 1) (lr4_set int_math BQ_HIGHPASS 0) 2 [3, 4] [0, 0] = ((lp', hp'), out0, out1)"
    by (metis surj_pair)
  from this lr4_split_is_biquads [OF this] show ?thesis by (auto simp: numeral_2_eq_2)
qed

text \<open>
  The two-channel crossover is two one-channel crossovers side by side: for either channel its
  three output bands and its filter states are those of the one-channel filter on that channel.
\<close>

theorem crossover2_process_channels:
  assumes "xo2_wf xo2" "count \<le> length d0L" "count \<le> length d0R"
    and "crossover2_process xo2 count d0L d0R d1L d1R d2L d2R = (xo2', e0L, e0R, e1L, e1R, e2L, e2R)"
  shows "crossover_process (xo_chan False xo2) count d0L d1L d2L = (xo_chan False xo2', e0L, e1L, e2L) \<and>
         crossover_process (xo_chan True xo2) count d0R d1R d2R = (xo_chan True xo2', e0R, e1R, e2R)"
proof (cases "count = 0")
  case True
  then show ?thesis
    using assms(1,4) by (simp add: crossover2_process_def crossover_process_zero xo_chan_def xo2_wf_def)
next
  case False
  with assms(4) obtain lp0 hp0 f0L f0R f1L f1R lp1 hp1 lp2 hp2 where
      s0: "lr42_split (xo2_lp xo2 ! 0) (xo2_hp xo2 ! 0) count d0L d0R d1L d1R = ((lp0, hp0), f0L, f0R, f1L, f1R)"
      and m1: "lr42_merge (xo2_lp xo2 ! 1) (xo2_hp xo2 ! 1) count f0L f0R = ((lp1, hp1), e0L, e0R)"
      and s2: "lr42_split (xo2_lp xo2 ! 2) (xo2_hp xo2 ! 2) count f1L f1R d2L d2R = ((lp2, hp2), e1L, e1R, e2L, e2R)"
      and x: "xo2' = \<lparr>xo2_lp = [lp0, lp1, lp2], xo2_hp = [hp0, hp1, hp2]\<rparr>"
    by (auto simp: crossover2_process_def split: prod.splits)
  have nth: "map (lr42_chan r) (xo2_lp xo2) ! i = lr42_chan r (xo2_lp xo2 ! i)"
      "map (lr42_chan r) (xo2_hp xo2) ! i = lr42_chan r (xo2_hp xo2 ! i)" if "i < 3" for r i
    using that assms(1) by (simp_all add: xo2_wf_def)
  note c0 = lr42_split_chan [OF s0 assms(2,3)]
  have len: "count \<le> length f0L" "count \<le> length f0R" "count \<le> length f1L" "count \<le> length f1R" using c0 by auto
  note cm = lr42_merge_chan [OF m1 len(1,2)] and c2 = lr42_split_chan [OF s2 len(3,4)]
  from c0 [of False] cm [of False] c2 [of False] c0 [of True] cm [of True] c2 [of True] x show ?thesis
    by (simp add: crossover_process_def xo_chan_def nth)
qed

theorem crossover2_process_channels_witness:
  "\<exists>xo2' e0L e0R e1L e1R e2L e2R.
     crossover2_process (crossover2_init int_math 1 0) 2 [1, 2] [3, 4] [0, 0] [0, 0] [0, 0] [0, 0] =
       (xo2', e0L, e0R, e1L, e1R, e2L, e2R) \<and>
     crossover_process (xo_chan True (crossover2_init int_math 1 0)) 2 [3, 4] [0, 0] [0, 0] =
       (xo_chan True xo2', e0R, e1R, e2R)"
proof -
  obtain xo2' e0L e0R e1L e1R e2L e2R where
    "crossover2_process (crossover2_init int_math 1 0) 2 [1, 2] [3, 4] [0, 0] [0, 0] [0, 0] [0, 0] =
       (xo2', e0L, e0R, e1L, e1R, e2L, e2R)" by (rule prod_cases7)
  moreover have "xo2_wf (crossover2_init int_math 1 0)" by (simp add: xo2_wf_def crossover2_init_def)
  note crossover2_process_channels [OF this _ _ calculation, THEN conjunct2]
  ultimately show ?thesis by simp
qed

end
