(* ===== verification/Dictionary.thy ===== *)
theory Dictionary
  imports Dragon_Prelude
begin

unbundle bit_operations_syntax

text \<open>
  The string dictionary of \<^verbatim>\<open>audio/hal/dictionary.c\<close>: three parallel arrays of
  \<^verbatim>\<open>size\<close> slots (keys, values, cached hashes) and a count of used slots. The
  allocator is the argument \<open>alloc\<close>: \<open>alloc k\<close> tells whether a request for \<open>k\<close> bytes
  succeeds. A pointer takes 8 bytes and an \<^verbatim>\<open>unsigned\<close> 4.
\<close>

subsection \<open>Data and operations\<close>

text \<open>\<^verbatim>\<open>struct _dictionary_\<close>\<close>

record dictionary =
  d_n :: nat
  d_size :: nat
  d_val :: "string option list"
  d_key :: "string option list"
  d_hash :: "u32 list"

text \<open>
  What a failing call leaves behind. \<open>Null_Argument\<close>: the call returned \<open>-1\<close> and changed
  nothing. \<open>Grow_Failed\<close>: the call returned \<open>-1\<close> after some array pointer of the dictionary
  became NULL, so the dictionary can no longer be used. \<open>Endless_Probe\<close>: the search for a
  free slot does not end. \<open>Lost_Arrays\<close>: the operation reads through a NULL array.
\<close>

datatype dict_error = Null_Argument | Grow_Failed | Endless_Probe | Lost_Arrays

definition DICTMINSZ :: nat where
  "DICTMINSZ = 128"

definition sizeof_ptr :: nat where
  "sizeof_ptr = 8"

definition sizeof_unsigned :: nat where
  "sizeof_unsigned = 4"

text \<open>
  \<^verbatim>\<open>mem_double\<close> on an array of \<open>n\<close> elements of \<open>elt\<close> bytes: the old contents followed by
  as many zero elements.
\<close>

definition mem_double ::
  "allocator \<Rightarrow> nat \<Rightarrow> nat \<Rightarrow> 'a \<Rightarrow> 'a list \<Rightarrow> 'a list option" where
  "mem_double alloc elt n zero ptr =
     (if alloc (2 * (n * elt)) then Some (take n ptr @ replicate n zero) else None)"

definition xstrdup :: "allocator \<Rightarrow> string option \<Rightarrow> string option" where
  "xstrdup alloc s =
     (case s of None \<Rightarrow> None
      | Some t \<Rightarrow> if alloc (length t + 1) then Some t else None)"

fun hash_loop :: "u32 \<Rightarrow> string \<Rightarrow> u32" where
  "hash_loop hash [] = hash"
| "hash_loop hash (c # cs) =
     (let h1 = hash + word_of_nat (of_char c);
          h2 = h1 + push_bit 10 h1
      in hash_loop (h2 XOR drop_bit 6 h2) cs)"

definition dictionary_hash :: "string \<Rightarrow> u32" where
  "dictionary_hash key =
     (let h = hash_loop 0 key;
          h1 = h + push_bit 3 h;
          h2 = h1 XOR drop_bit 11 h1
      in h2 + push_bit 15 h2)"

text \<open>
  \<^verbatim>\<open>dictionary_new\<close> checks the allocation of the structure (32 bytes) but not those of the
  three arrays: if one of them fails, the caller gets a dictionary it cannot use.
\<close>

definition dictionary_new :: "allocator \<Rightarrow> int \<Rightarrow> (dict_error + dictionary) option" where
  "dictionary_new alloc size0 =
     (let size = (if size0 < int DICTMINSZ then DICTMINSZ else nat size0)
      in if \<not> alloc 32 then None
         else if alloc (size * sizeof_ptr) \<and> alloc (size * sizeof_unsigned)
         then Some (Inr \<lparr>d_n = 0, d_size = size, d_val = replicate size None,
                         d_key = replicate size None, d_hash = replicate size 0\<rparr>)
         else Some (Inl Lost_Arrays))"

text \<open>
  The test of the search loops: the slot is in use, its cached hash is the wanted one and
  its key is the wanted string.
\<close>

definition slot_matches :: "dictionary \<Rightarrow> u32 \<Rightarrow> string \<Rightarrow> nat \<Rightarrow> bool" where
  "slot_matches d hash key i =
     (case d_key d ! i of None \<Rightarrow> False
      | Some k \<Rightarrow> hash = d_hash d ! i \<and> key = k)"

definition find_slot :: "dictionary \<Rightarrow> string \<Rightarrow> nat option" where
  "find_slot d key = find (slot_matches d (dictionary_hash key) key) [0..<d_size d]"

text \<open>
  The pointers \<^verbatim>\<open>dictionary_get\<close> passes around: NULL, a string, or the token
  \<^verbatim>\<open>(char*)-1\<close> that no string has for its address.
\<close>

datatype c_str = Null_Str | Str string | Invalid_Key

fun ptr_of :: "string option \<Rightarrow> c_str" where
  "ptr_of None = Null_Str"
| "ptr_of (Some s) = Str s"

definition dictionary_get :: "dictionary \<Rightarrow> string \<Rightarrow> c_str \<Rightarrow> c_str" where
  "dictionary_get d key def =
     (case find_slot d key of Some i \<Rightarrow> ptr_of (d_val d ! i) | None \<Rightarrow> def)"

text \<open>The probe for a free slot: start at \<open>i\<close> and wrap at \<open>d_size\<close>.\<close>

partial_function (option) free_slot :: "dictionary \<Rightarrow> nat \<Rightarrow> nat option" where
  "free_slot d i =
     (if d_key d ! i = None then Some i
      else free_slot d (if Suc i = d_size d then 0 else Suc i))"

declare free_slot.simps [code]

text \<open>\<^verbatim>\<open>if (d->n == d->size)\<close>: all three arrays double, or the dictionary is lost.\<close>

definition grow :: "allocator \<Rightarrow> dictionary \<Rightarrow> dict_error + dictionary" where
  "grow alloc d =
     (if d_n d = d_size d then
        (case (mem_double alloc sizeof_ptr (d_size d) None (d_val d),
               mem_double alloc sizeof_ptr (d_size d) None (d_key d),
               mem_double alloc sizeof_unsigned (d_size d) 0 (d_hash d)) of
           (Some v, Some k, Some h) \<Rightarrow>
             Inr (d\<lparr>d_val := v, d_key := k, d_hash := h, d_size := 2 * d_size d\<rparr>)
         | _ \<Rightarrow> Inl Grow_Failed)
      else Inr d)"

definition dictionary_set ::
  "allocator \<Rightarrow> dictionary option \<Rightarrow> string option \<Rightarrow> string option
     \<Rightarrow> dict_error + dictionary" where
  "dictionary_set alloc d0 key0 v =
     (case (d0, key0) of
        (Some d, Some key) \<Rightarrow>
          (case (if 0 < d_n d then find_slot d key else None) of
             Some i \<Rightarrow> Inr (d\<lparr>d_val := (d_val d)[i := xstrdup alloc v]\<rparr>)
           | None \<Rightarrow>
               (case grow alloc d of
                  Inl e \<Rightarrow> Inl e
                | Inr d' \<Rightarrow>
                    (case free_slot d' (d_n d') of
                       None \<Rightarrow> Inl Endless_Probe
                     | Some i \<Rightarrow>
                         Inr (d'\<lparr>d_key := (d_key d')[i := xstrdup alloc (Some key)],
                                 d_val := (d_val d')[i := xstrdup alloc v],
                                 d_hash := (d_hash d')[i := dictionary_hash key],
                                 d_n := Suc (d_n d')\<rparr>))))
      | _ \<Rightarrow> Inl Null_Argument)"

definition dictionary_unset :: "dictionary \<Rightarrow> string option \<Rightarrow> dictionary" where
  "dictionary_unset d key0 =
     (case key0 of
        None \<Rightarrow> d
      | Some key \<Rightarrow>
          (case find_slot d key of
             None \<Rightarrow> d
           | Some i \<Rightarrow>
               d\<lparr>d_key := (d_key d)[i := None], d_val := (d_val d)[i := None],
                 d_hash := (d_hash d)[i := 0], d_n := d_n d - 1\<rparr>))"

text \<open>
  \<^verbatim>\<open>dictionary_del\<close> frees every string of the arrays: what it frees, in the order of the
  loop. After a failed growth the arrays are NULL and the first read goes through them.
\<close>

definition dictionary_del ::
  "(dict_error + dictionary) option \<Rightarrow> dict_error + string list" where
  "dictionary_del d0 =
     (case d0 of
        None \<Rightarrow> Inr []
      | Some (Inl e) \<Rightarrow> Inl Lost_Arrays
      | Some (Inr d) \<Rightarrow>
          Inr (concat (map (\<lambda>i. (case d_key d ! i of None \<Rightarrow> [] | Some k \<Rightarrow> [k])
                             @ (case d_val d ! i of None \<Rightarrow> [] | Some v \<Rightarrow> [v]))
                           [0..<d_size d])))"

text \<open>\<^verbatim>\<open>%20s\<close>: padded on the left to twenty columns.\<close>

definition pad_left :: "nat \<Rightarrow> string \<Rightarrow> string" where
  "pad_left w s = replicate (w - length s) CHR '' '' @ s"

definition dictionary_dump :: "dictionary option \<Rightarrow> string" where
  "dictionary_dump d0 =
     (case d0 of None \<Rightarrow> []
      | Some d \<Rightarrow>
          (if d_n d < 1 then ''empty dictionary'' @ [CHR 0x0A]
           else concat (map (\<lambda>i. case d_key d ! i of None \<Rightarrow> []
                                 | Some k \<Rightarrow> pad_left 20 k @ [CHR 0x09] @ ''['' @
                                     (case d_val d ! i of Some v \<Rightarrow> v | None \<Rightarrow> ''UNDEF'') @
                                     '']'' @ [CHR 0x0A])
                            [0..<d_size d])))"

subsection \<open>Invariant and abstraction\<close>

text \<open>
  The representation invariant: arrays of the right length, the count of used slots, every
  cached hash the hash of its key, no key twice, and room for at least one entry.
\<close>

definition dict_inv :: "dictionary \<Rightarrow> bool" where
  "dict_inv d \<longleftrightarrow>
     length (d_val d) = d_size d \<and> length (d_key d) = d_size d \<and> length (d_hash d) = d_size d \<and>
     0 < d_size d \<and> d_n d = count_occ (d_key d) \<and>
     (\<forall>i < d_size d. \<forall>k. d_key d ! i = Some k \<longrightarrow> d_hash d ! i = dictionary_hash k) \<and>
     (\<forall>i < d_size d. \<forall>j < d_size d. \<forall>k.
        d_key d ! i = Some k \<and> d_key d ! j = Some k \<longrightarrow> i = j)"

text \<open>What a dictionary stands for: a finite map whose values may be NULL.\<close>

definition dict_map :: "dictionary \<Rightarrow> string \<Rightarrow> string option option" where
  "dict_map d key =
     (case find (\<lambda>i. d_key d ! i = Some key) [0..<d_size d] of
        None \<Rightarrow> None | Some i \<Rightarrow> Some (d_val d ! i))"

lemma dict_invD:
  assumes "dict_inv d"
  shows "length (d_val d) = d_size d" "length (d_key d) = d_size d"
    "length (d_hash d) = d_size d" "0 < d_size d" "d_n d = count_occ (d_key d)"
    "\<And>i k. i < d_size d \<Longrightarrow> d_key d ! i = Some k \<Longrightarrow> d_hash d ! i = dictionary_hash k"
    "\<And>i j k. i < d_size d \<Longrightarrow> j < d_size d \<Longrightarrow> d_key d ! i = Some k \<Longrightarrow> d_key d ! j = Some k
       \<Longrightarrow> i = j"
  using assms unfolding dict_inv_def by blast+

lemma find_slot_eq:
  assumes "dict_inv d"
  shows "find_slot d key = find (\<lambda>i. d_key d ! i = Some key) [0..<d_size d]"
  unfolding find_slot_def
  by (rule find_upt_cong) (auto simp: slot_matches_def dict_invD(6) [OF assms] split: option.split)

text \<open>Under the invariant the search finds the slot of the key, and it is the only one.\<close>

lemma find_slot_Some:
  assumes "dict_inv d"
  shows "find_slot d key = Some i \<longleftrightarrow> i < d_size d \<and> d_key d ! i = Some key"
proof
  assume "find_slot d key = Some i"
  then show "i < d_size d \<and> d_key d ! i = Some key"
    by (simp add: find_slot_eq [OF assms] find_upt_Some)
next
  assume "i < d_size d \<and> d_key d ! i = Some key"
  then show "find_slot d key = Some i"
    unfolding find_slot_eq [OF assms]
    by (intro find_upt_unique) (auto dest: dict_invD(7) [OF assms])
qed

lemma find_slot_None:
  assumes "dict_inv d"
  shows "find_slot d key = None \<longleftrightarrow> (\<forall>i < d_size d. d_key d ! i \<noteq> Some key)"
  by (simp add: find_slot_eq [OF assms] find_upt_None)

lemma dict_map_slot:
  "dict_inv d \<Longrightarrow> dict_map d key = map_option (\<lambda>i. d_val d ! i) (find_slot d key)"
  by (simp add: dict_map_def find_slot_eq map_option_case)

lemma dict_map_Some:
  assumes "dict_inv d" "i < d_size d" "d_key d ! i = Some key"
  shows "dict_map d key = Some (d_val d ! i)"
  using assms by (simp add: dict_map_slot find_slot_Some [THEN iffD2])

lemma dict_map_None:
  assumes "dict_inv d"
  shows "dict_map d key = None \<longleftrightarrow> (\<forall>i < d_size d. d_key d ! i \<noteq> Some key)"
  using assms by (simp add: dict_map_slot find_slot_None)

lemma dictionary_get_map:
  "dict_inv d \<Longrightarrow>
     dictionary_get d key def = (case dict_map d key of None \<Rightarrow> def | Some v \<Rightarrow> ptr_of v)"
  by (simp add: dictionary_get_def dict_map_slot split: option.split)

subsection \<open>The probe for a free slot ends\<close>

text \<open>
  How many steps the probe takes from \<open>i\<close> to \<open>j\<close> on a ring of \<open>sz\<close> slots.
\<close>

definition ring_dist :: "nat \<Rightarrow> nat \<Rightarrow> nat \<Rightarrow> nat" where
  "ring_dist sz i j = (if i \<le> j then j - i else j + sz - i)"

lemma ring_dist_step:
  assumes "i < sz" "j < sz" "i \<noteq> j"
  shows "ring_dist sz (if Suc i = sz then 0 else Suc i) j < ring_dist sz i j"
  using assms by (auto simp: ring_dist_def)

lemma free_slot_ends:
  assumes "j < d_size d" "d_key d ! j = None" "i < d_size d"
  shows "\<exists>r. free_slot d i = Some r \<and> r < d_size d \<and> d_key d ! r = None"
  using assms(3)
proof (induction "ring_dist (d_size d) i j" arbitrary: i rule: less_induct)
  case less
  show ?case
  proof (cases "d_key d ! i = None")
    case True
    with less.prems show ?thesis by (subst free_slot.simps) simp
  next
    case False
    let ?i' = "if Suc i = d_size d then 0 else Suc i"
    have "i \<noteq> j" using False assms(2) by auto
    then have "ring_dist (d_size d) ?i' j < ring_dist (d_size d) i j"
      using less.prems assms(1) by (rule_tac ring_dist_step)
    moreover have "?i' < d_size d" using less.prems by auto
    ultimately obtain r where "free_slot d ?i' = Some r" "r < d_size d" "d_key d ! r = None"
      using less.hyps by blast
    with False show ?thesis by (subst free_slot.simps) auto
  qed
qed

lemma free_slot_inv:
  assumes "dict_inv d" "d_n d < d_size d"
  shows "\<exists>r. free_slot d (d_n d) = Some r \<and> r < d_size d \<and> d_key d ! r = None"
proof -
  have "count_occ (d_key d) < length (d_key d)"
    using assms by (simp add: dict_invD)
  then obtain j where "j < d_size d" "d_key d ! j = None"
    using count_occ_free assms(1) by (metis dict_invD(2))
  then show ?thesis using free_slot_ends assms(2) by blast
qed

subsection \<open>Growth, insertion and deletion keep the invariant\<close>

definition grown :: "dictionary \<Rightarrow> dictionary" where
  "grown d = d\<lparr>d_val := d_val d @ replicate (d_size d) None,
               d_key := d_key d @ replicate (d_size d) None,
               d_hash := d_hash d @ replicate (d_size d) 0, d_size := 2 * d_size d\<rparr>"

lemma grown_inv:
  assumes "dict_inv d"
  shows "dict_inv (grown d)"
  using assms unfolding dict_inv_def grown_def
  by (auto simp: nth_append split: if_splits)

lemma grown_map:
  assumes "dict_inv d"
  shows "dict_map (grown d) = dict_map d"
proof
  fix key
  show "dict_map (grown d) key = dict_map d key"
  proof (cases "dict_map d key")
    case None
    then have "\<forall>i < d_size (grown d). d_key (grown d) ! i \<noteq> Some key"
      using dict_map_None [OF assms] dict_invD [OF assms] by (auto simp: grown_def nth_append)
    with None show ?thesis
      using dict_map_None [OF grown_inv [OF assms]] by simp
  next
    case (Some v)
    then obtain i where i: "i < d_size d" "d_key d ! i = Some key" "v = d_val d ! i"
      using assms by (auto simp: dict_map_slot find_slot_Some)
    have "dict_map (grown d) key = Some (d_val (grown d) ! i)"
      by (rule dict_map_Some [OF grown_inv [OF assms]])
        (use i dict_invD [OF assms] in \<open>auto simp: grown_def nth_append\<close>)
    with i Some show ?thesis
      using dict_invD [OF assms] by (simp add: grown_def nth_append)
  qed
qed

lemma grow_cases:
  assumes "dict_inv d"
  shows "grow alloc d =
    (if d_n d < d_size d then Inr d
     else if alloc (2 * (d_size d * sizeof_ptr)) \<and> alloc (2 * (d_size d * sizeof_unsigned))
     then Inr (grown d) else Inl Grow_Failed)"
  using dict_invD [OF assms] count_occ_le [of "d_key d"]
  by (auto simp: grow_def mem_double_def grown_def)

lemma grow_full:
  assumes "dict_inv d" "grow alloc d = Inr d'"
  shows "dict_inv d' \<and> d_n d' < d_size d' \<and> d_n d' = d_n d \<and> dict_map d' = dict_map d \<and>
     d_size d \<le> d_size d'"
  using assms grown_inv [OF assms(1)] grown_map [OF assms(1)] dict_invD(4,5) [OF assms(1)]
    count_occ_le [of "d_key d"] dict_invD(2) [OF assms(1)]
  by (auto simp: grow_cases grown_def split: if_splits)

definition put :: "dictionary \<Rightarrow> nat \<Rightarrow> string \<Rightarrow> string option \<Rightarrow> dictionary" where
  "put d i key v = d\<lparr>d_key := (d_key d)[i := Some key], d_val := (d_val d)[i := v],
                     d_hash := (d_hash d)[i := dictionary_hash key], d_n := Suc (d_n d)\<rparr>"

lemma put_inv:
  assumes "dict_inv d" "i < d_size d" "d_key d ! i = None" "dict_map d key = None"
  shows "dict_inv (put d i key v)"
proof -
  have "count_occ ((d_key d)[i := Some key]) = Suc (count_occ (d_key d))"
    using assms dict_invD(2) by (intro count_occ_set_free) auto
  moreover have "\<forall>j < d_size d. d_key d ! j \<noteq> Some key"
    using assms dict_map_None by blast
  ultimately show ?thesis
    using assms(2,3) dict_invD [OF assms(1)]
    unfolding dict_inv_def put_def by (auto simp: nth_list_update)
qed

lemma put_map:
  assumes "dict_inv d" "i < d_size d" "d_key d ! i = None" "dict_map d key = None"
  shows "dict_map (put d i key v) = (dict_map d)(key \<mapsto> v)"
proof
  fix k
  note inv' = put_inv [OF assms, of v]
  show "dict_map (put d i key v) k = ((dict_map d)(key \<mapsto> v)) k"
  proof (cases "k = key")
    case True
    have "dict_map (put d i key v) key = Some (d_val (put d i key v) ! i)"
      by (rule dict_map_Some [OF inv']) (use assms dict_invD in \<open>auto simp: put_def\<close>)
    with True assms show ?thesis by (simp add: put_def dict_invD)
  next
    case False
    have same: "\<And>j. j < d_size d \<Longrightarrow> d_key (put d i key v) ! j = Some k \<longleftrightarrow> d_key d ! j = Some k"
      using False assms dict_invD(2) [OF assms(1)] by (auto simp: put_def nth_list_update)
    show ?thesis
    proof (cases "dict_map d k")
      case None
      then have "dict_map (put d i key v) k = None"
        unfolding dict_map_None [OF inv'] using same dict_map_None [OF assms(1)]
        by (simp add: put_def)
      with None False show ?thesis by simp
    next
      case (Some w)
      then obtain j where j: "j < d_size d" "d_key d ! j = Some k" "w = d_val d ! j"
        using assms by (auto simp: dict_map_slot find_slot_Some)
      have "dict_map (put d i key v) k = Some (d_val (put d i key v) ! j)"
        by (rule dict_map_Some [OF inv']) (use j same in \<open>auto simp: put_def\<close>)
      moreover have "i \<noteq> j" using j assms(3) by auto
      ultimately show ?thesis using j Some False by (simp add: put_def)
    qed
  qed
qed

lemma overwrite_inv:
  assumes "dict_inv d"
  shows "dict_inv (d\<lparr>d_val := (d_val d)[i := v]\<rparr>)"
  using assms by (simp add: dict_inv_def)

lemma overwrite_map:
  assumes "dict_inv d" "find_slot d key = Some i"
  shows "dict_map (d\<lparr>d_val := (d_val d)[i := v]\<rparr>) = (dict_map d)(key \<mapsto> v)"
proof
  fix k
  let ?d = "d\<lparr>d_val := (d_val d)[i := v]\<rparr>"
  have i: "i < d_size d" "d_key d ! i = Some key"
    using assms find_slot_Some by auto
  have fs: "find_slot ?d k = find_slot d k"
    using assms(1) overwrite_inv [OF assms(1), of i v] by (simp add: find_slot_eq)
  show "dict_map ?d k = ((dict_map d)(key \<mapsto> v)) k"
  proof (cases "find_slot d k")
    case None
    then show ?thesis
      using assms fs overwrite_inv [OF assms(1), of i v]
      by (cases "k = key") (auto simp: dict_map_slot)
  next
    case (Some j)
    then have j: "j < d_size d" "d_key d ! j = Some k"
      using assms(1) find_slot_Some by auto
    then have "j = i \<longleftrightarrow> k = key"
      using i dict_invD(7) [OF assms(1)] by auto
    then show ?thesis
      using assms fs Some i j overwrite_inv [OF assms(1), of i v] dict_invD(1) [OF assms(1)]
      by (auto simp: dict_map_slot)
  qed
qed

lemma empty_map: "dict_inv d \<Longrightarrow> d_n d = 0 \<Longrightarrow> dict_map d key = None"
proof -
  assume inv: "dict_inv d" and "d_n d = 0"
  then have "filter (\<lambda>x. x \<noteq> None) (d_key d) = []"
    by (simp add: dict_invD(5) count_occ_def)
  then have "\<forall>x \<in> set (d_key d). x = None"
    by (simp add: filter_empty_conv)
  then show ?thesis
    unfolding dict_map_None [OF inv] using dict_invD(2) [OF inv] by (metis nth_mem option.distinct(1))
qed

lemma set_slot_lookup:
  "dict_inv d \<Longrightarrow> (if 0 < d_n d then find_slot d key else None) = find_slot d key"
  using empty_map [of d key] by (auto simp: dict_map_slot)

text \<open>
  One equation for \<^verbatim>\<open>dictionary_set\<close> on a well-formed dictionary: replace the value of a
  known key, or grow if full and put the key in some free slot.
\<close>

lemma dictionary_set_result:
  assumes "dict_inv d" "alloc (length key + 1)"
  shows "dictionary_set alloc (Some d) (Some key) v =
    (case find_slot d key of
       Some i \<Rightarrow> Inr (d\<lparr>d_val := (d_val d)[i := xstrdup alloc v]\<rparr>)
     | None \<Rightarrow> (case grow alloc d of Inl e \<Rightarrow> Inl e
        | Inr d' \<Rightarrow> Inr (put d' (the (free_slot d' (d_n d'))) key (xstrdup alloc v))))"
proof (cases "find_slot d key")
  case (Some i)
  then show ?thesis
    using set_slot_lookup [OF assms(1), of key] by (simp add: dictionary_set_def)
next
  case None
  show ?thesis
  proof (cases "grow alloc d")
    case (Inl e)
    with None show ?thesis
      using set_slot_lookup [OF assms(1), of key] by (simp add: dictionary_set_def)
  next
    case (Inr d')
    obtain r where "free_slot d' (d_n d') = Some r"
      using grow_full [OF assms(1) Inr] free_slot_inv by blast
    with None Inr assms(2) show ?thesis
      using set_slot_lookup [OF assms(1), of key]
      by (simp add: dictionary_set_def put_def xstrdup_def)
  qed
qed

lemma dictionary_set_spec:
  assumes "dict_inv d" "alloc (length key + 1)"
    "d_n d = d_size d \<Longrightarrow> find_slot d key = None \<Longrightarrow>
       alloc (2 * (d_size d * sizeof_ptr)) \<and> alloc (2 * (d_size d * sizeof_unsigned))"
  shows "\<exists>d'. dictionary_set alloc (Some d) (Some key) v = Inr d' \<and> dict_inv d' \<and>
     dict_map d' = (dict_map d)(key \<mapsto> xstrdup alloc v)"
proof (cases "find_slot d key")
  case (Some i)
  then show ?thesis
    using overwrite_inv [OF assms(1)] overwrite_map [OF assms(1) Some]
    by (simp add: dictionary_set_result [of d alloc key, OF assms(1,2)])
next
  case None
  have "d_n d \<le> d_size d"
    using dict_invD [OF assms(1)] count_occ_le [of "d_key d"] by simp
  then obtain d' where d': "grow alloc d = Inr d'"
    using grow_cases [OF assms(1), of alloc] assms(3) [OF _ None] by (cases "d_n d < d_size d") auto
  note g = grow_full [OF assms(1) d']
  obtain r where r: "free_slot d' (d_n d') = Some r" "r < d_size d'" "d_key d' ! r = None"
    using free_slot_inv g by blast
  have "dict_map d' key = None"
    using None g assms(1) by (simp add: dict_map_slot)
  with put_inv [OF _ r(2,3)] put_map [OF _ r(2,3)] g r(1) None d' show ?thesis
    by (simp add: dictionary_set_result [of d alloc key, OF assms(1,2)])
qed

lemma dictionary_set_grow_failed:
  assumes "dict_inv d" "alloc (length key + 1)" "d_n d = d_size d" "find_slot d key = None"
    "\<not> (alloc (2 * (d_size d * sizeof_ptr)) \<and> alloc (2 * (d_size d * sizeof_unsigned)))"
  shows "dictionary_set alloc (Some d) (Some key) v = Inl Grow_Failed"
  using assms by (simp add: dictionary_set_result grow_cases)

definition cleared :: "dictionary \<Rightarrow> nat \<Rightarrow> dictionary" where
  "cleared d i = d\<lparr>d_key := (d_key d)[i := None], d_val := (d_val d)[i := None],
                   d_hash := (d_hash d)[i := 0], d_n := d_n d - 1\<rparr>"

lemma cleared_size [simp]: "d_size (cleared d i) = d_size d"
  by (simp add: cleared_def)

lemma cleared_inv:
  assumes "dict_inv d" "i < d_size d" "d_key d ! i = Some key"
  shows "dict_inv (cleared d i)"
proof -
  have "count_occ ((d_key d)[i := None]) = count_occ (d_key d) - 1"
    using count_occ_clear [of i "d_key d" key] assms dict_invD(2) by simp
  then show ?thesis
    using assms(2) dict_invD [OF assms(1)] unfolding cleared_def dict_inv_def
    by (auto simp: nth_list_update split: if_splits)
qed

lemma cleared_slots:
  assumes "dict_inv d" "i < d_size d" "d_key d ! i = Some key"
  shows "find_slot (cleared d i) k = (if k = key then None else find_slot d k)"
proof -
  note inv = cleared_inv [OF assms]
  have keys: "d_key (cleared d i) ! j = Some k \<longleftrightarrow> d_key d ! j = Some k \<and> k \<noteq> key"
    if "j < d_size d" for j
    using that assms dict_invD [OF assms(1)] unfolding cleared_def
    by (auto simp: nth_list_update)
  show ?thesis
  proof (cases "k = key")
    case True
    then show ?thesis using keys by (simp add: find_slot_None [OF inv])
  next
    case False
    then have "find_slot (cleared d i) k = find_slot d k"
      unfolding find_slot_eq [OF inv] find_slot_eq [OF assms(1)] cleared_size
      by (intro find_upt_cong) (simp add: keys)
    with False show ?thesis by simp
  qed
qed

lemma dictionary_unset_spec:
  assumes "dict_inv d"
  shows "dict_inv (dictionary_unset d (Some key)) \<and>
    dict_map (dictionary_unset d (Some key)) = (dict_map d)(key := None)"
proof (cases "find_slot d key")
  case None
  then show ?thesis
    using assms by (auto simp: dictionary_unset_def dict_map_slot fun_eq_iff)
next
  case (Some i)
  then have i: "i < d_size d" "d_key d ! i = Some key" and ne: "k \<noteq> key \<Longrightarrow> find_slot d k \<noteq> Some i" for k
    using assms find_slot_Some by auto
  have "dict_map (cleared d i) k = ((dict_map d)(key := None)) k" for k
  proof (cases "find_slot d k")
    case None
    then show ?thesis
      using cleared_inv [OF assms i] assms by (simp add: dict_map_slot cleared_slots [OF assms i])
  next
    case (Some j)
    then have "k \<noteq> key \<Longrightarrow> d_val (cleared d i) ! j = d_val d ! j"
      using ne [of k] by (simp add: cleared_def nth_list_update_neq)
    with Some show ?thesis
      using cleared_inv [OF assms i] assms by (simp add: dict_map_slot cleared_slots [OF assms i])
  qed
  with cleared_inv [OF assms i] Some show ?thesis
    by (auto simp: dictionary_unset_def cleared_def)
qed

lemma dictionary_new_spec:
  assumes "dictionary_new alloc sz = Some (Inr d)"
  shows "dict_inv d \<and> dict_map d = Map.empty \<and> d_n d = 0 \<and> DICTMINSZ \<le> d_size d"
proof -
  have "d_val d = replicate (d_size d) None" "d_key d = replicate (d_size d) None"
    "d_hash d = replicate (d_size d) 0" "d_n d = 0" and ge: "DICTMINSZ \<le> d_size d"
    using assms by (auto simp: dictionary_new_def Let_def DICTMINSZ_def split: if_splits)
  then have "dict_inv d" by (simp add: dict_inv_def DICTMINSZ_def)
  with \<open>d_n d = 0\<close> ge show ?thesis by (auto simp: fun_eq_iff empty_map)
qed

subsection \<open>The contract the parser relies on\<close>

text \<open>
  A store of strings as the INI parser uses it: an update that succeeds and a deletion, both
  described by the map the store stands for.
\<close>

locale string_store =
  fixes lk :: "'d \<Rightarrow> string \<Rightarrow> string option option"
    and upd :: "'d \<Rightarrow> string \<Rightarrow> string option \<Rightarrow> 'e + 'd"
    and del :: "'d \<Rightarrow> string \<Rightarrow> 'd"
    and wf :: "'d \<Rightarrow> bool"
  assumes upd_ok: "wf d \<Longrightarrow> \<exists>d'. upd d k v = Inr d' \<and> wf d' \<and> lk d' = (lk d)(k \<mapsto> v)"
    and del_ok: "wf d \<Longrightarrow> wf (del d k) \<and> lk (del d k) = (lk d)(k := None)"
begin

lemma upd_total:
  assumes "wf d"
  obtains d' where "upd d k v = Inr d'" "wf d'" "lk d' = (lk d)(k \<mapsto> v)"
  using upd_ok [OF assms] by blast

lemma upd_lookup: "wf d \<Longrightarrow> upd d k v = Inr d' \<Longrightarrow> lk d' k = Some v"
  by (metis upd_ok fun_upd_same sum.inject(2))

lemma upd_other: "wf d \<Longrightarrow> upd d k v = Inr d' \<Longrightarrow> k' \<noteq> k \<Longrightarrow> lk d' k' = lk d k'"
  by (metis upd_ok fun_upd_other sum.inject(2))

lemma del_then_upd:
  assumes "wf d" "upd (del d k) k v = Inr d'"
  shows "lk d' = (lk d)(k \<mapsto> v)"
proof -
  have "wf (del d k)" and l: "lk (del d k) = (lk d)(k := None)"
    using del_ok assms(1) by auto
  then show ?thesis
    using assms(2) upd_ok [of "del d k" k v] by auto
qed

text \<open>Storing a list of pairs, later pairs winning.\<close>

lemma upd_list_ok:
  assumes "wf d"
  shows "\<exists>d'. foldl (\<lambda>r (k, v). case r of Inl e \<Rightarrow> Inl e | Inr x \<Rightarrow> upd x k v) (Inr d) kvs = Inr d' \<and>
     wf d' \<and> lk d' = lk d ++ map_of (rev kvs)"
  using assms
proof (induction kvs arbitrary: d)
  case Nil
  then show ?case by simp
next
  case (Cons kv kvs)
  obtain k v where kv: "kv = (k, v)" by fastforce
  obtain d1 where d1: "upd d k v = Inr d1" "wf d1" "lk d1 = (lk d)(k \<mapsto> v)"
    using Cons.prems upd_total by blast
  from Cons.IH [OF d1(2)] obtain d' where
    "foldl (\<lambda>r (k, v). case r of Inl e \<Rightarrow> Inl e | Inr x \<Rightarrow> upd x k v) (Inr d1) kvs = Inr d'"
    "wf d'" "lk d' = lk d1 ++ map_of (rev kvs)" by blast
  with kv d1(1,3) show ?case by (simp add: map_add_upd_left)
qed

end

text \<open>The dictionary meets the contract when memory does not run out.\<close>

definition set_entry :: "dictionary \<Rightarrow> string \<Rightarrow> string option \<Rightarrow> dict_error + dictionary" where
  "set_entry d k v = dictionary_set (\<lambda>_. True) (Some d) (Some k) v"

lemma xstrdup_id [simp]: "xstrdup (\<lambda>_. True) v = v"
  by (cases v) (simp_all add: xstrdup_def)

interpretation dict_store: string_store dict_map set_entry
  "\<lambda>d k. dictionary_unset d (Some k)" dict_inv
proof unfold_locales
  fix d k v
  assume "dict_inv d"
  then show "\<exists>d'. set_entry d k v = Inr d' \<and> dict_inv d' \<and> dict_map d' = (dict_map d)(k \<mapsto> v)"
    unfolding set_entry_def using dictionary_set_spec [of d "\<lambda>_. True" k v] by simp
next
  fix d k
  assume "dict_inv d"
  then show "dict_inv (dictionary_unset d (Some k)) \<and>
      dict_map (dictionary_unset d (Some k)) = (dict_map d)(k := None)"
    by (rule dictionary_unset_spec)
qed

subsection \<open>Properties\<close>

text \<open>A dictionary without a free slot that holds a list of pairs, for the examples.\<close>

definition dict_of :: "(string \<times> string option) list \<Rightarrow> dictionary" where
  "dict_of kvs = \<lparr>d_n = length kvs, d_size = length kvs, d_val = map snd kvs,
                  d_key = map (\<lambda>(k, v). Some k) kvs, d_hash = map (\<lambda>(k, v). dictionary_hash k) kvs\<rparr>"

lemma dict_of_inv:
  assumes "kvs \<noteq> []" "distinct (map fst kvs)"
  shows "dict_inv (dict_of kvs)"
proof -
  have "count_occ (map (\<lambda>(k, v). Some k) kvs) = length kvs"
    by (induction kvs) (auto simp: count_occ_def)
  moreover have "i = j" if "i < length kvs" "j < length kvs" "fst (kvs ! i) = fst (kvs ! j)" for i j
    using nth_eq_iff_index_eq [OF assms(2), of i j] that by simp
  ultimately show ?thesis using assms(1) by (auto simp: dict_inv_def dict_of_def split_beta)
qed

lemma dict_of_map:
  assumes "distinct (map fst kvs)"
  shows "dict_map (dict_of kvs) = map_of kvs"
proof
  fix key
  show "dict_map (dict_of kvs) key = map_of kvs key"
  proof (cases "map_of kvs key")
    case None
    then have "\<forall>i < length kvs. fst (kvs ! i) \<noteq> key" by (auto simp: map_of_eq_None_iff)
    then have "find (\<lambda>i. d_key (dict_of kvs) ! i = Some key) [0..<d_size (dict_of kvs)] = None"
      by (simp add: find_upt_None dict_of_def split_beta)
    with None show ?thesis by (simp add: dict_map_def)
  next
    case (Some v)
    then obtain i where i: "i < length kvs" "kvs ! i = (key, v)"
      by (meson in_set_conv_nth map_of_SomeD)
    then have u: "j = i" if "j < length kvs" "fst (kvs ! j) = key" for j
      using nth_eq_iff_index_eq [OF assms, of j i] that by simp
    have "find (\<lambda>j. d_key (dict_of kvs) ! j = Some key) [0..<d_size (dict_of kvs)] = Some i"
    proof (rule find_upt_unique)
      show "j = i" if "j < d_size (dict_of kvs)" "d_key (dict_of kvs) ! j = Some key" for j
        using that by (intro u) (simp_all add: dict_of_def split_beta)
    qed (use i in \<open>simp_all add: dict_of_def\<close>)
    with Some i show ?thesis by (simp add: dict_map_def dict_of_def)
  qed
qed

definition full_dict :: dictionary where
  "full_dict = dict_of [(''a'', Some ''1''), (''b'', None)]"

lemma full_dict_inv: "dict_inv full_dict"
  unfolding full_dict_def by (rule dict_of_inv) simp_all

lemma full_dict_slot: "find_slot full_dict ''c'' = None"
  by (simp add: find_slot_def slot_matches_def full_dict_def dict_of_def numeral_2_eq_2)

text \<open>
  C10. \<^verbatim>\<open>dictionary_set\<close> followed by any lookup is the update of a finite map: whether the key is new
  or known, and whether the arrays have to grow or not, the result is a well-formed dictionary that
  maps the key to a copy of the value and leaves every other key as it was.
\<close>

theorem dictionary_set_refines:
  assumes "dict_inv d" "alloc (length key + 1)"
    "d_n d = d_size d \<Longrightarrow> find_slot d key = None \<Longrightarrow>
       alloc (2 * (d_size d * sizeof_ptr)) \<and> alloc (2 * (d_size d * sizeof_unsigned))"
  shows "\<exists>d'. dictionary_set alloc (Some d) (Some key) v = Inr d' \<and> dict_inv d' \<and>
     (\<forall>k def. dictionary_get d' k def =
        (if k = key then ptr_of (xstrdup alloc v) else dictionary_get d k def))"
proof -
  obtain d' where "dictionary_set alloc (Some d) (Some key) v = Inr d'" "dict_inv d'"
      "dict_map d' = (dict_map d)(key \<mapsto> xstrdup alloc v)"
    using dictionary_set_spec [of d alloc key v] assms by blast
  then show ?thesis using assms(1) by (auto simp: dictionary_get_map)
qed

theorem dictionary_set_refines_witness:
  "\<exists>d'. dictionary_set (\<lambda>_. True) (Some full_dict) (Some ''c'') (Some ''x'') = Inr d' \<and> dict_inv d' \<and>
     dictionary_get d' ''c'' Invalid_Key = Str ''x'' \<and> dictionary_get d' ''b'' Invalid_Key = Null_Str"
  using dictionary_set_refines [OF full_dict_inv, of "\<lambda>_. True" "''c''" "Some ''x''"]
  by (auto simp: dictionary_get_def find_slot_def slot_matches_def full_dict_def dict_of_def numeral_2_eq_2)

text \<open>
  \<^verbatim>\<open>dictionary_unset\<close> removes the key and nothing else, and keeps the dictionary well formed.
\<close>

theorem dictionary_unset_refines:
  assumes "dict_inv d"
  shows "dict_inv (dictionary_unset d (Some key)) \<and>
    (\<forall>k def. dictionary_get (dictionary_unset d (Some key)) k def =
       (if k = key then def else dictionary_get d k def))"
  using dictionary_unset_spec [OF assms, of key] assms by (auto simp: dictionary_get_map)

theorem dictionary_unset_refines_witness:
  "dictionary_get (dictionary_unset full_dict (Some ''a'')) ''a'' Invalid_Key = Invalid_Key \<and>
   dict_inv (dictionary_unset full_dict (Some ''a''))"
  using dictionary_unset_refines [OF full_dict_inv, of "''a''"] by simp

text \<open>
  Any sequence of updates of a new dictionary succeeds while memory lasts, however often the
  arrays have to double, and a lookup then finds the last value stored under a key.
\<close>

theorem dictionary_fill:
  assumes "dictionary_new (\<lambda>_. True) sz = Some (Inr d)"
  shows "\<exists>d'. foldl (\<lambda>r (k, v). case r of Inl e \<Rightarrow> Inl e | Inr x \<Rightarrow> dictionary_set (\<lambda>_. True) (Some x) (Some k) v)
            (Inr d) kvs = Inr d' \<and> dict_inv d' \<and>
     (\<forall>k def. dictionary_get d' k def = (case map_of (rev kvs) k of None \<Rightarrow> def | Some v \<Rightarrow> ptr_of v))"
proof -
  have d: "dict_inv d" "dict_map d = Map.empty" using dictionary_new_spec [OF assms] by auto
  from dict_store.upd_list_ok [OF d(1), of kvs] d(2) show ?thesis
    unfolding set_entry_def by (auto simp: dictionary_get_map)
qed

theorem dictionary_fill_witness:
  "\<exists>d d'. dictionary_new (\<lambda>_. True) 0 = Some (Inr d) \<and>
     foldl (\<lambda>r (k, v). case r of Inl e \<Rightarrow> Inl e | Inr x \<Rightarrow> dictionary_set (\<lambda>_. True) (Some x) (Some k) v)
       (Inr d) [(''a'', Some ''1''), (''b'', None), (''a'', Some ''2'')] = Inr d' \<and>
     dictionary_get d' ''a'' Invalid_Key = Str ''2''"
proof -
  obtain d where d: "dictionary_new (\<lambda>_. True) 0 = Some (Inr d)" by (simp add: dictionary_new_def Let_def)
  from dictionary_fill [OF d, of "[(''a'', Some ''1''), (''b'', None), (''a'', Some ''2'')]"] d
  show ?thesis by auto
qed

text \<open>
  The probe for a free slot, which wraps around the arrays without a bound of its own, ends at a
  free slot whenever the dictionary is well formed and not full.
\<close>

theorem free_slot_terminates:
  assumes "dict_inv d" "d_n d < d_size d"
  shows "\<exists>r. free_slot d (d_n d) = Some r \<and> r < d_size d \<and> d_key d ! r = None"
  using assms by (rule free_slot_inv)

theorem free_slot_terminates_witness:
  "\<exists>r. free_slot (dictionary_unset full_dict (Some ''a'')) 1 = Some r \<and> r < 2"
proof -
  let ?d = "dictionary_unset full_dict (Some ''a'')"
  have "dict_inv ?d" using dictionary_unset_spec [OF full_dict_inv] by blast
  moreover have "d_n ?d = 1 \<and> d_size ?d = 2"
    by (simp add: dictionary_unset_def find_slot_def slot_matches_def full_dict_def dict_of_def numeral_2_eq_2)
  ultimately show ?thesis using free_slot_terminates [of ?d] by auto
qed

text \<open>
  When the dictionary is full and one of the doubled arrays cannot be allocated, the call returns
  an error after the old array pointers are lost: the dictionary cannot be used any more.
\<close>

theorem dictionary_set_growth_fails:
  assumes "dict_inv d" "alloc (length key + 1)" "d_n d = d_size d" "find_slot d key = None"
    "\<not> (alloc (2 * (d_size d * sizeof_ptr)) \<and> alloc (2 * (d_size d * sizeof_unsigned)))"
  shows "dictionary_set alloc (Some d) (Some key) v = Inl Grow_Failed"
  using assms by (rule dictionary_set_grow_failed)

theorem dictionary_set_growth_fails_witness:
  "dictionary_set (\<lambda>k. k < 10) (Some full_dict) (Some ''c'') (Some ''x'') = Inl Grow_Failed"
  by (rule dictionary_set_growth_fails [OF full_dict_inv _ _ full_dict_slot])
    (simp_all add: full_dict_def dict_of_def sizeof_ptr_def)

end
