(* ===== verification/Iniparser.thy ===== *)
theory Iniparser
  imports Dictionary
begin

text \<open>
  The INI parser of \<^verbatim>\<open>audio/hal/iniparser.c\<close>. A file is its contents, a string without
  NUL bytes. What C leaves undefined is a value of type \<open>ini_fault\<close>: a \<^verbatim>\<open>sprintf\<close> past the
  end of a buffer, a read before the start of one, a NULL pointer that is read through.
\<close>

definition ASCIILINESZ :: nat where
  "ASCIILINESZ = 1024"

datatype line_status =
  LINE_UNPROCESSED | LINE_ERROR | LINE_EMPTY | LINE_COMMENT | LINE_SECTION | LINE_VALUE

datatype ini_fault = Buffer_Overflow | Read_Before_Buffer | Null_Deref | No_Progress

subsection \<open>String helpers\<close>

definition lwc :: "string \<Rightarrow> string" where
  "lwc s = map tolower (take ASCIILINESZ s)"

definition strlwc :: "string option \<Rightarrow> string option" where
  "strlwc s = map_option lwc s"

text \<open>Trailing blanks go, then nothing else changes.\<close>

definition rstrip :: "string \<Rightarrow> string" where
  "rstrip s = rev (dropWhile isspace (rev s))"

definition strstrip :: "string \<Rightarrow> string" where
  "strstrip s = rstrip (skip_ws s)"

subsection \<open>Looking at a dictionary\<close>

text \<open>The keys in use, in slot order: what the loops over the slots see.\<close>

definition used_keys :: "dictionary \<Rightarrow> (string \<times> string option) list" where
  "used_keys d =
     concat (map (\<lambda>i. case d_key d ! i of None \<Rightarrow> [] | Some k \<Rightarrow> [(k, d_val d ! i)]) [0..<d_size d])"

definition is_section_key :: "string \<Rightarrow> bool" where
  "is_section_key k \<longleftrightarrow> CHR '':'' \<notin> set k"

definition iniparser_getnsec :: "dictionary option \<Rightarrow> int" where
  "iniparser_getnsec d0 =
     (case d0 of None \<Rightarrow> - 1
      | Some d \<Rightarrow>
          fold (\<lambda>i nsec. case d_key d ! i of None \<Rightarrow> nsec
                | Some k \<Rightarrow> if is_section_key k then nsec + 1 else nsec)
               [0..<d_size d] 0)"

text \<open>
  The loop of \<^verbatim>\<open>iniparser_getsecname\<close>: the number of sections found and the key of the slot
  where the loop stopped.
\<close>

fun secname_loop :: "int \<Rightarrow> int \<Rightarrow> string option list \<Rightarrow> int \<times> string option" where
  "secname_loop n foundsec [] = (foundsec, None)"
| "secname_loop n foundsec (None # ks) = secname_loop n foundsec ks"
| "secname_loop n foundsec (Some k # ks) =
     (if is_section_key k then
        (if foundsec + 1 > n then (foundsec + 1, Some k) else secname_loop n (foundsec + 1) ks)
      else secname_loop n foundsec ks)"

definition iniparser_getsecname :: "dictionary option \<Rightarrow> int \<Rightarrow> string option" where
  "iniparser_getsecname d0 n =
     (case d0 of None \<Rightarrow> None
      | Some d \<Rightarrow>
          (if n < 0 then None
           else (case secname_loop n 0 (take (d_size d) (d_key d)) of
                   (foundsec, k) \<Rightarrow> if foundsec \<le> n then None else k)))"

definition iniparser_getstring :: "dictionary option \<Rightarrow> string option \<Rightarrow> c_str \<Rightarrow> c_str" where
  "iniparser_getstring d0 key0 def =
     (case (d0, strlwc key0) of
        (Some d, Some lc_key) \<Rightarrow> dictionary_get d lc_key def
      | _ \<Rightarrow> def)"

definition iniparser_getint ::
  "dictionary option \<Rightarrow> string option \<Rightarrow> int \<Rightarrow> ini_fault + int" where
  "iniparser_getint d key notfound =
     (case iniparser_getstring d key Invalid_Key of
        Invalid_Key \<Rightarrow> Inr notfound
      | Null_Str \<Rightarrow> Inl Null_Deref
      | Str s \<Rightarrow> Inr (to_int (fst (strtol 0 s))))"

text \<open>The character at index 0 of a C string, NUL at its end.\<close>

definition char0 :: "string \<Rightarrow> char" where
  "char0 s = (case s of [] \<Rightarrow> CHR 0x00 | c # _ \<Rightarrow> c)"

definition iniparser_getboolean ::
  "dictionary option \<Rightarrow> string option \<Rightarrow> int \<Rightarrow> ini_fault + int" where
  "iniparser_getboolean d key notfound =
     (case iniparser_getstring d key Invalid_Key of
        Invalid_Key \<Rightarrow> Inr notfound
      | Null_Str \<Rightarrow> Inl Null_Deref
      | Str c \<Rightarrow>
          Inr (if char0 c \<in> set ''yY1tT'' then 1
               else if char0 c \<in> set ''nN0fF'' then 0
               else notfound))"

definition iniparser_find_entry :: "dictionary option \<Rightarrow> string option \<Rightarrow> bool" where
  "iniparser_find_entry ini entry = (iniparser_getstring ini entry Invalid_Key \<noteq> Invalid_Key)"

definition iniparser_set ::
  "allocator \<Rightarrow> dictionary option \<Rightarrow> string option \<Rightarrow> string option \<Rightarrow> dict_error + dictionary" where
  "iniparser_set alloc ini entry v = dictionary_set alloc ini (strlwc entry) v"

definition iniparser_unset :: "dictionary \<Rightarrow> string option \<Rightarrow> dictionary" where
  "iniparser_unset ini entry = dictionary_unset ini (strlwc entry)"

text \<open>
  \<^verbatim>\<open>strncmp(key, "s:", seclen + 1) == 0\<close>: the key starts with the section name and a colon.
  \<^verbatim>\<open>keym\<close> holds \<open>ASCIILINESZ\<close> characters and a NUL.
\<close>

definition in_section :: "string \<Rightarrow> string \<Rightarrow> bool" where
  "in_section s k \<longleftrightarrow> take (length s + 1) k = s @ '':''"

definition keym_fits :: "string \<Rightarrow> bool" where
  "keym_fits s \<longleftrightarrow> length s + 1 \<le> ASCIILINESZ"

definition iniparser_getsecnkeys :: "dictionary option \<Rightarrow> string \<Rightarrow> ini_fault + nat" where
  "iniparser_getsecnkeys d0 s =
     (case d0 of None \<Rightarrow> Inr 0
      | Some d \<Rightarrow>
          (if \<not> iniparser_find_entry d0 (Some s) then Inr 0
           else if \<not> keym_fits s then Inl Buffer_Overflow
           else Inr (fold (\<lambda>(k, v) nkeys. if in_section s k then Suc nkeys else nkeys)
                          (used_keys d) 0)))"

definition iniparser_getseckeys :: "dictionary option \<Rightarrow> string \<Rightarrow> ini_fault + string list option" where
  "iniparser_getseckeys d0 s =
     (case d0 of None \<Rightarrow> Inr None
      | Some d \<Rightarrow>
          (if \<not> iniparser_find_entry d0 (Some s) then Inr None
           else if \<not> keym_fits s then Inl Buffer_Overflow
           else Inr (Some (map fst (filter (\<lambda>(k, v). in_section s k) (used_keys d))))))"

subsection \<open>Writing a dictionary out\<close>

abbreviation nl :: string where
  "nl \<equiv> [CHR 0x0A]"

definition pad_right :: "nat \<Rightarrow> string \<Rightarrow> string" where
  "pad_right w s = s @ replicate (w - length s) CHR '' ''"

definition iniparser_dump :: "dictionary option \<Rightarrow> string" where
  "iniparser_dump d0 =
     (case d0 of None \<Rightarrow> []
      | Some d \<Rightarrow>
          concat (map (\<lambda>(k, v). case v of
                         Some x \<Rightarrow> ''['' @ k @ '']=['' @ x @ '']'' @ nl
                       | None \<Rightarrow> ''['' @ k @ '']=UNDEF'' @ nl) (used_keys d)))"

definition iniparser_dumpsection_ini ::
  "dictionary option \<Rightarrow> string \<Rightarrow> ini_fault + string" where
  "iniparser_dumpsection_ini d0 s =
     (case d0 of None \<Rightarrow> Inr []
      | Some d \<Rightarrow>
          (if \<not> iniparser_find_entry d0 (Some s) then Inr []
           else if \<not> keym_fits s then Inl Buffer_Overflow
           else Inr (nl @ ''['' @ s @ '']'' @ nl @
                concat (map (\<lambda>(k, v). if in_section s k
                               then pad_right 30 (drop (length s + 1) k) @ '' = '' @
                                    (case v of Some x \<Rightarrow> x | None \<Rightarrow> []) @ nl
                               else []) (used_keys d)) @ nl)))"

fun dump_sections :: "dictionary option \<Rightarrow> string option list \<Rightarrow> ini_fault + string" where
  "dump_sections d [] = Inr []"
| "dump_sections d (None # ss) = Inl Null_Deref"
| "dump_sections d (Some s # ss) =
     (case iniparser_dumpsection_ini d s of Inl e \<Rightarrow> Inl e
      | Inr o1 \<Rightarrow> (case dump_sections d ss of Inl e \<Rightarrow> Inl e | Inr o2 \<Rightarrow> Inr (o1 @ o2)))"

text \<open>A NULL value printed with \<^verbatim>\<open>%s\<close> comes out as \<^verbatim>\<open>(null)\<close>.\<close>

definition iniparser_dump_ini :: "dictionary option \<Rightarrow> ini_fault + string" where
  "iniparser_dump_ini d0 =
     (case d0 of None \<Rightarrow> Inr []
      | Some d \<Rightarrow>
          (let nsec = iniparser_getnsec d0
           in if nsec < 1
              then Inr (concat (map (\<lambda>(k, v). k @ '' = '' @
                          (case v of Some x \<Rightarrow> x | None \<Rightarrow> ''(null)'') @ nl) (used_keys d)))
              else (case dump_sections d0 (map (\<lambda>i. iniparser_getsecname d0 (int i)) [0..<nat nsec]) of
                      Inl e \<Rightarrow> Inl e | Inr out \<Rightarrow> Inr (out @ nl))))"

definition iniparser_freedict :: "(dict_error + dictionary) option \<Rightarrow> dict_error + string list" where
  "iniparser_freedict d = dictionary_del d"

subsection \<open>One line\<close>

text \<open>The directives of the \<^verbatim>\<open>sscanf\<close> formats the parser uses.\<close>

datatype scan_item =
    SNot string  \<comment> \<open>\<^verbatim>\<open>%[^...]\<close>\<close>
  | SIn string   \<comment> \<open>\<^verbatim>\<open>%[...]\<close>\<close>
  | SWs          \<comment> \<open>a blank: any run of white space\<close>
  | SLit char    \<comment> \<open>an ordinary character\<close>

text \<open>The strings the conversions store; their number is the result of \<^verbatim>\<open>sscanf\<close>.\<close>

fun sscanf :: "scan_item list \<Rightarrow> string \<Rightarrow> string list" where
  "sscanf [] s = []"
| "sscanf (SNot cs # f) s =
     (let t = takeWhile (\<lambda>c. c \<notin> set cs) s
      in if t = [] then [] else t # sscanf f (dropWhile (\<lambda>c. c \<notin> set cs) s))"
| "sscanf (SIn cs # f) s =
     (let t = takeWhile (\<lambda>c. c \<in> set cs) s
      in if t = [] then [] else t # sscanf f (dropWhile (\<lambda>c. c \<in> set cs) s))"
| "sscanf (SWs # f) s = sscanf f (skip_ws s)"
| "sscanf (SLit c # f) [] = []"
| "sscanf (SLit c # f) (x # xs) = (if x = c then sscanf f xs else [])"

definition fmt_section :: "scan_item list" where
  "fmt_section = [SLit (CHR ''[''), SNot '']'']"

abbreviation dquote :: char where
  "dquote \<equiv> CHR 0x22"

abbreviation squote :: char where
  "squote \<equiv> CHR 0x27"

definition fmt_dquoted :: "scan_item list" where
  "fmt_dquoted = [SNot ''='', SWs, SLit (CHR ''=''), SWs, SLit dquote, SNot [dquote], SLit dquote]"

definition fmt_squoted :: "scan_item list" where
  "fmt_squoted = [SNot ''='', SWs, SLit (CHR ''=''), SWs, SLit squote, SNot [squote], SLit squote]"

definition fmt_plain :: "scan_item list" where
  "fmt_plain = [SNot ''='', SWs, SLit (CHR ''=''), SWs, SNot '';#'']"

definition fmt_comment :: "scan_item list" where
  "fmt_comment = [SNot ''='', SWs, SLit (CHR ''=''), SWs, SIn '';#'']"

definition fmt_empty :: "scan_item list" where
  "fmt_empty = [SNot ''='', SWs, SIn ''='']"

text \<open>The output buffers of \<^verbatim>\<open>iniparser_line\<close>, which keep what an earlier line left there.\<close>

record line_out =
  lo_section :: string
  lo_key :: string
  lo_value :: string

text \<open>\<^verbatim>\<open>sscanf(line, fmt, key, value)\<close>: the count and the buffers.\<close>

definition scan_kv :: "scan_item list \<Rightarrow> string \<Rightarrow> line_out \<Rightarrow> nat \<times> line_out" where
  "scan_kv fmt line b =
     (case sscanf fmt line of
        [] \<Rightarrow> (0, b)
      | [k] \<Rightarrow> (1, b\<lparr>lo_key := k\<rparr>)
      | k # v # _ \<Rightarrow> (2, b\<lparr>lo_key := k, lo_value := v\<rparr>))"

text \<open>A chain \<^verbatim>\<open>sscanf(..) == 2 || sscanf(..) == 2 || ..\<close>.\<close>

fun scan_first :: "scan_item list list \<Rightarrow> string \<Rightarrow> line_out \<Rightarrow> bool \<times> line_out" where
  "scan_first [] line b = (False, b)"
| "scan_first (f # fs) line b =
     (case scan_kv f line b of
        (n, b') \<Rightarrow> if n = 2 then (True, b') else scan_first fs line b')"

definition iniparser_line :: "string \<Rightarrow> line_out \<Rightarrow> line_status \<times> line_out" where
  "iniparser_line input_line b =
     (let line = strstrip input_line in
      if line = [] then (LINE_EMPTY, b)
      else if hd line = CHR ''#'' \<or> hd line = CHR '';'' then (LINE_COMMENT, b)
      else if hd line = CHR ''['' \<and> last line = CHR '']'' then
        (let sec = (case sscanf fmt_section line of [] \<Rightarrow> lo_section b | s # _ \<Rightarrow> s)
         in (LINE_SECTION, b\<lparr>lo_section := lwc (strstrip sec)\<rparr>))
      else
        (case scan_first [fmt_dquoted, fmt_squoted, fmt_plain] line b of
           (True, b1) \<Rightarrow>
             (let v = strstrip (lo_value b1)
              in (LINE_VALUE,
                  b1\<lparr>lo_key := lwc (strstrip (lo_key b1)),
                     lo_value := (if v = [dquote, dquote] \<or> v = [squote, squote]
                                  then [] else v)\<rparr>))
         | (False, b1) \<Rightarrow>
             (case scan_first [fmt_comment, fmt_empty] line b1 of
                (True, b2) \<Rightarrow>
                  (LINE_VALUE, b2\<lparr>lo_key := lwc (strstrip (lo_key b2)), lo_value := []\<rparr>)
              | (False, b2) \<Rightarrow> (LINE_ERROR, b2))))"

subsection \<open>A whole file\<close>

text \<open>
  \<^verbatim>\<open>fgets(buf, n, in)\<close>: at most \<open>n - 1\<close> characters, up to and including the first newline;
  \<open>None\<close> at the end of the file.
\<close>

definition fgets :: "nat \<Rightarrow> string \<Rightarrow> (string \<times> string) option" where
  "fgets n s =
     (if s = [] then None
      else let pre = takeWhile (\<lambda>c. c \<noteq> CHR 0x0A) s;
               full = (if length pre < length s then Suc (length pre) else length pre);
               m = min full (n - 1)
           in Some (take m s, drop m s))"

text \<open>
  The variables of \<^verbatim>\<open>iniparser_load\<close>: \<open>ls_kept\<close> are the characters of a continued line below
  index \<^verbatim>\<open>last\<close>.
\<close>

record load_state =
  ls_dict :: dictionary
  ls_out :: line_out
  ls_kept :: string
  ls_errs :: int

text \<open>
  The \<^verbatim>\<open>switch\<close> on the status of a complete line. \<^verbatim>\<open>tmp\<close> holds \<open>ASCIILINESZ\<close> characters and a
  NUL. When the dictionary cannot grow, \<^verbatim>\<open>errs\<close> is negative, the loop ends and
  \<^verbatim>\<open>dictionary_del\<close> reads through the lost arrays.
\<close>

definition store_entry ::
  "allocator \<Rightarrow> load_state \<Rightarrow> line_out \<Rightarrow> string \<Rightarrow> string option \<Rightarrow> ini_fault + load_state" where
  "store_entry alloc st b k v =
     (case dictionary_set alloc (Some (ls_dict st)) (Some k) v of
        Inl e \<Rightarrow> Inl Null_Deref
      | Inr d \<Rightarrow> Inr (st\<lparr>ls_dict := d, ls_out := b, ls_kept := [], ls_errs := 0\<rparr>))"

definition load_line ::
  "allocator \<Rightarrow> load_state \<Rightarrow> string \<Rightarrow> ini_fault + load_state" where
  "load_line alloc st line =
     (case iniparser_line line (ls_out st) of
        (LINE_SECTION, b) \<Rightarrow> store_entry alloc st b (lo_section b) None
      | (LINE_VALUE, b) \<Rightarrow>
          (if length (lo_section b) + 1 + length (lo_key b) > ASCIILINESZ
           then Inl Buffer_Overflow
           else store_entry alloc st b (lo_section b @ '':'' @ lo_key b) (Some (lo_value b)))
      | (LINE_ERROR, b) \<Rightarrow>
          Inr (st\<lparr>ls_out := b, ls_kept := [], ls_errs := ls_errs st + 1\<rparr>)
      | (_, b) \<Rightarrow> Inr (st\<lparr>ls_out := b, ls_kept := []\<rparr>))"

text \<open>
  The \<^verbatim>\<open>fgets\<close> loop. \<open>below\<close> is the byte in front of the line buffer, which the test for a
  continued line reads when the line is blank. \<open>Inr None\<close> is the return of NULL from inside
  the loop.
\<close>

function load_loop ::
  "allocator \<Rightarrow> char \<Rightarrow> string \<Rightarrow> load_state \<Rightarrow> ini_fault + load_state option" where
  "load_loop alloc below rest st =
     (case fgets (ASCIILINESZ - length (ls_kept st)) rest of
        None \<Rightarrow> Inr (Some st)
      | Some (chunk, rest') \<Rightarrow>
          (if chunk = [] then Inl No_Progress
           else let line = ls_kept st @ chunk in
             if length line = 1 then load_loop alloc below rest' st
             else if last line \<noteq> CHR 0x0A then Inr None
             else let s = rstrip line in
               if s = [] \<and> below = CHR 0x5C then Inl Read_Before_Buffer
               else if s \<noteq> [] \<and> last s = CHR 0x5C
               then load_loop alloc below rest' (st\<lparr>ls_kept := butlast s\<rparr>)
               else (case load_line alloc st s of
                       Inl e \<Rightarrow> Inl e
                     | Inr st' \<Rightarrow> load_loop alloc below rest' st')))"
  by pat_completeness auto
termination
  by (relation "measure (\<lambda>(alloc, below, rest, st). length rest)")
    (auto simp: fgets_def Let_def split: if_splits)

declare load_loop.simps [simp del]

definition init_load :: "dictionary \<Rightarrow> load_state" where
  "init_load d = \<lparr>ls_dict = d, ls_out = \<lparr>lo_section = [], lo_key = [], lo_value = []\<rparr>,
                  ls_kept = [], ls_errs = 0\<rparr>"

text \<open>After the loop: a dictionary with errors is deleted.\<close>

definition finish_load :: "ini_fault + load_state option \<Rightarrow> ini_fault + dictionary option" where
  "finish_load r =
     (case r of
        Inl e \<Rightarrow> Inl e
      | Inr None \<Rightarrow> Inr None
      | Inr (Some st) \<Rightarrow> Inr (if ls_errs st \<noteq> 0 then None else Some (ls_dict st)))"

text \<open>\<open>Inr None\<close>: \<^verbatim>\<open>iniparser_load\<close> returns NULL. \<open>file = None\<close>: it cannot be opened.\<close>

definition iniparser_load ::
  "allocator \<Rightarrow> char \<Rightarrow> string option \<Rightarrow> ini_fault + dictionary option" where
  "iniparser_load alloc below file =
     (case file of None \<Rightarrow> Inr None
      | Some contents \<Rightarrow>
          (case dictionary_new alloc 0 of
             None \<Rightarrow> Inr None
           | Some (Inl e) \<Rightarrow> Inl Null_Deref
           | Some (Inr d) \<Rightarrow>
               finish_load (load_loop alloc below contents (init_load d))))"

subsection \<open>String lemmas\<close>

lemma isspace_nl [simp]: "isspace (CHR 0x0A)"
  by (simp add: isspace_def)

lemma rstrip_Nil [simp]: "rstrip [] = []"
  by (simp add: rstrip_def)

lemma rstrip_snoc_space [simp]: "isspace c \<Longrightarrow> rstrip (s @ [c]) = rstrip s"
  by (simp add: rstrip_def)

lemma rstrip_id: "s \<noteq> [] \<Longrightarrow> \<not> isspace (last s) \<Longrightarrow> rstrip s = s"
  by (cases s rule: rev_cases) (simp_all add: rstrip_def)

lemma skip_ws_id: "s \<noteq> [] \<Longrightarrow> \<not> isspace (hd s) \<Longrightarrow> skip_ws s = s"
  by (cases s) simp_all

lemma strstrip_id: "s \<noteq> [] \<Longrightarrow> \<not> isspace (hd s) \<Longrightarrow> \<not> isspace (last s) \<Longrightarrow> strstrip s = s"
  by (simp add: strstrip_def skip_ws_id rstrip_id)

lemma rstrip_last: "rstrip s \<noteq> [] \<Longrightarrow> \<not> isspace (last (rstrip s))"
  unfolding rstrip_def by (metis hd_dropWhile last_rev rev_is_Nil_conv)

lemma length_rstrip [simp]: "length (rstrip s) \<le> length s"
  by (simp add: rstrip_def) (metis length_dropWhile_le length_rev)

lemma length_strstrip [simp]: "length (strstrip s) \<le> length s"
  unfolding strstrip_def by (meson length_rstrip length_skip_ws le_trans)

lemma length_lwc [simp]: "length (lwc s) \<le> ASCIILINESZ"
  by (simp add: lwc_def)

lemma lwc_idem [simp]: "lwc (lwc s) = lwc s"
  by (simp add: lwc_def comp_def min_def take_map)

definition lower_str :: "string \<Rightarrow> bool" where
  "lower_str s \<longleftrightarrow> map tolower s = s"

lemma lwc_lower: "lower_str s \<Longrightarrow> length s \<le> ASCIILINESZ \<Longrightarrow> lwc s = s"
  by (simp add: lwc_def lower_str_def)

subsection \<open>Counting and naming sections\<close>

definition section_keys :: "dictionary \<Rightarrow> string list" where
  "section_keys d = filter is_section_key (map fst (used_keys d))"

lemma map_fst_used_keys:
  "map fst (used_keys d) =
     concat (map (\<lambda>i. case d_key d ! i of None \<Rightarrow> [] | Some k \<Rightarrow> [k]) [0..<d_size d])"
  by (simp add: used_keys_def map_concat comp_def option.case_distrib [of "map fst"] cong: option.case_cong)

lemma fold_nsec:
  "fold (\<lambda>i nsec. case f i of None \<Rightarrow> nsec | Some k \<Rightarrow> if is_section_key k then nsec + 1 else nsec)
        xs a
   = a + int (length (filter is_section_key
           (concat (map (\<lambda>i. case f i of None \<Rightarrow> [] | Some k \<Rightarrow> [k]) xs))))"
  by (induction xs arbitrary: a) (auto split: option.split)

lemma getnsec_length: "iniparser_getnsec (Some d) = int (length (section_keys d))"
  by (simp add: iniparser_getnsec_def fold_nsec section_keys_def map_fst_used_keys)

lemma secname_loop_result:
  assumes "0 \<le> found" "found \<le> n"
  shows "secname_loop n found ks =
    (let ss = filter is_section_key (concat (map (\<lambda>x. case x of None \<Rightarrow> [] | Some k \<Rightarrow> [k]) ks))
     in if n - found < int (length ss) then (n + 1, Some (ss ! nat (n - found)))
        else (found + int (length ss), None))"
  using assms
proof (induction n found ks rule: secname_loop.induct)
  case (3 n found k ks)
  show ?case
  proof (cases "is_section_key k \<and> found + 1 \<le> n")
    case True
    then have "nat (n - found) = Suc (nat (n - (found + 1)))" by linarith
    with True 3 show ?thesis by (auto simp: Let_def)
  next
    case False
    with 3 show ?thesis by (auto simp: Let_def)
  qed
qed (auto simp: Let_def)

lemma take_keys_conv:
  assumes "length (d_key d) = d_size d"
  shows "concat (map (\<lambda>x. case x of None \<Rightarrow> [] | Some k \<Rightarrow> [k]) (take (d_size d) (d_key d)))
     = map fst (used_keys d)"
proof -
  have "take (d_size d) (d_key d) = map (\<lambda>i. d_key d ! i) [0..<d_size d]"
    using assms by (metis map_nth order_refl take_all)
  then show ?thesis by (simp add: map_fst_used_keys comp_def)
qed

lemma getsecname_nth:
  assumes "length (d_key d) = d_size d"
  shows "iniparser_getsecname (Some d) n =
    (if 0 \<le> n \<and> n < int (length (section_keys d)) then Some (section_keys d ! nat n) else None)"
proof (cases "n < 0")
  case True
  then show ?thesis by (simp add: iniparser_getsecname_def)
next
  case False
  then have "secname_loop n 0 (take (d_size d) (d_key d)) =
      (if n < int (length (section_keys d)) then (n + 1, Some (section_keys d ! nat n))
       else (int (length (section_keys d)), None))"
    by (subst secname_loop_result) (simp_all add: take_keys_conv [OF assms] section_keys_def)
  with False show ?thesis by (simp add: iniparser_getsecname_def)
qed

subsection \<open>Keys of a section\<close>

lemma fold_count:
  "fold (\<lambda>(k, v) n. if P k then Suc n else n) xs a = a + length (filter (\<lambda>(k, v). P k) xs)"
  by (induction xs arbitrary: a) auto

lemma getseckeys_spec:
  assumes "iniparser_getseckeys (Some d) s = Inr (Some ks)"
  shows "iniparser_getsecnkeys (Some d) s = Inr (length ks)"
    and "set ks = {k \<in> set (map fst (used_keys d)). in_section s k}"
  using assms
  by (auto simp: iniparser_getseckeys_def iniparser_getsecnkeys_def fold_count image_iff
      split: if_splits) force

subsection \<open>What loading keeps\<close>

text \<open>Every request for a string of at most one line is met.\<close>

definition small_ok :: "allocator \<Rightarrow> bool" where
  "small_ok alloc \<longleftrightarrow> (\<forall>k \<le> ASCIILINESZ + 1. alloc k)"

lemma small_okD: "small_ok alloc \<Longrightarrow> length k \<le> ASCIILINESZ \<Longrightarrow> alloc (length k + 1)"
  by (simp add: small_ok_def)

lemma store_entry_inv:
  assumes "small_ok alloc" "dict_inv (ls_dict st)" "length k \<le> ASCIILINESZ"
    "store_entry alloc st b k v = Inr st'"
  shows "dict_inv (ls_dict st') \<and>
    dict_map (ls_dict st') = (dict_map (ls_dict st))(k \<mapsto> xstrdup alloc v) \<and>
    ls_errs st' = 0 \<and> ls_kept st' = [] \<and> ls_out st' = b"
proof -
  let ?d = "ls_dict st"
  obtain d where d: "dictionary_set alloc (Some ?d) (Some k) v = Inr d"
    and st': "st' = st\<lparr>ls_dict := d, ls_out := b, ls_kept := [], ls_errs := 0\<rparr>"
    using assms(4) by (auto simp: store_entry_def split: sum.splits)
  have "d_n ?d = d_size ?d \<Longrightarrow> find_slot ?d k = None \<Longrightarrow>
      alloc (2 * (d_size ?d * sizeof_ptr)) \<and> alloc (2 * (d_size ?d * sizeof_unsigned))"
    using d dictionary_set_grow_failed [of ?d alloc k v] small_okD [OF assms(1,3)] assms(2) by force
  then obtain d' where "dictionary_set alloc (Some ?d) (Some k) v = Inr d'" "dict_inv d'"
    "dict_map d' = (dict_map ?d)(k \<mapsto> xstrdup alloc v)"
    using dictionary_set_spec [of ?d alloc k v] small_okD [OF assms(1,3)] assms(2) by auto
  with d st' show ?thesis by simp
qed

lemma iniparser_line_section_length:
  "iniparser_line s b = (LINE_SECTION, b') \<Longrightarrow> length (lo_section b') \<le> ASCIILINESZ"
  by (auto simp: iniparser_line_def Let_def split: if_splits prod.splits bool.splits)

lemma load_line_inv:
  assumes "small_ok alloc" "dict_inv (ls_dict st)" "load_line alloc st s = Inr st'"
  shows "dict_inv (ls_dict st')"
proof (cases "iniparser_line s (ls_out st)")
  case (Pair sta b)
  then show ?thesis
    using assms store_entry_inv [OF assms(1,2), of "lo_section b" b None st']
      store_entry_inv [OF assms(1,2), of "lo_section b @ '':'' @ lo_key b" b "Some (lo_value b)" st']
      iniparser_line_section_length [of s "ls_out st" b]
    by (cases sta) (auto simp: load_line_def split: if_splits)
qed

lemma fgets_shorter: "fgets n s = Some (chunk, rest) \<Longrightarrow> chunk \<noteq> [] \<Longrightarrow> length rest < length s"
  by (auto simp: fgets_def Let_def split: if_splits)

text \<open>A property of the load state that every line keeps holds at the end of the file.\<close>

lemma load_loop_keeps:
  assumes kept: "\<And>st k. I st \<Longrightarrow> I (st\<lparr>ls_kept := k\<rparr>)"
    and line: "\<And>st s st'. I st \<Longrightarrow> load_line alloc st s = Inr st' \<Longrightarrow> I st'"
  shows "I st \<Longrightarrow> load_loop alloc below rest st = Inr (Some st') \<Longrightarrow> I st'"
proof (induction "length rest" arbitrary: rest st rule: less_induct)
  case less
  note unf = load_loop.simps [of alloc below rest st]
  show ?case
  proof (cases "fgets (ASCIILINESZ - length (ls_kept st)) rest")
    case None
    with less.prems unf show ?thesis by simp
  next
    case (Some cr)
    obtain chunk rest' where cr: "cr = (chunk, rest')" by fastforce
    have "chunk \<noteq> []" using less.prems(2) unf Some cr by auto
    then have shorter: "length rest' < length rest" using Some cr fgets_shorter by blast
    consider "load_loop alloc below rest' st = Inr (Some st')"
      | k where "load_loop alloc below rest' (st\<lparr>ls_kept := k\<rparr>) = Inr (Some st')"
      | s st1 where "load_line alloc st s = Inr st1" "load_loop alloc below rest' st1 = Inr (Some st')"
      using less.prems(2) unf Some cr \<open>chunk \<noteq> []\<close>
      by (auto simp: Let_def split: if_splits sum.splits)
    then show ?thesis
      by cases (use less.hyps [OF shorter] less.prems(1) kept line in blast)+
  qed
qed

lemma load_loop_inv:
  assumes "small_ok alloc" "dict_inv (ls_dict st)"
    "load_loop alloc below rest st = Inr (Some st')"
  shows "dict_inv (ls_dict st')"
  by (rule load_loop_keeps [where I = "\<lambda>st. dict_inv (ls_dict st)", OF _ _ assms(2,3)])
    (auto intro: load_line_inv [OF assms(1)])

lemma iniparser_load_inv:
  assumes "small_ok alloc" "iniparser_load alloc below file = Inr (Some d)"
  shows "dict_inv d"
proof -
  obtain contents d0 st where d0: "dictionary_new alloc 0 = Some (Inr d0)"
    and st: "load_loop alloc below contents (init_load d0) = Inr (Some st)" "d = ls_dict st"
    using assms(2)
    by (auto simp: iniparser_load_def finish_load_def split: option.splits sum.splits if_splits)
  have "dict_inv (ls_dict (init_load d0))"
    using dictionary_new_spec [OF d0] by (simp add: init_load_def)
  then show ?thesis using load_loop_inv [OF assms(1) _ st(1)] st(2) by simp
qed

subsection \<open>Reading back what a careful writer writes\<close>

text \<open>
  The items of a plain INI file and how they are written, one line each. The conditions say
  which names and values need no quoting or case folding.
\<close>

datatype ini_item = Section string | Entry string string

fun item_line :: "ini_item \<Rightarrow> string" where
  "item_line (Section s) = ''['' @ s @ '']''"
| "item_line (Entry k v) = k @ ''='' @ v"

definition render :: "ini_item list \<Rightarrow> string" where
  "render items = concat (map (\<lambda>it. item_line it @ nl) items)"

definition trimmed :: "string \<Rightarrow> bool" where
  "trimmed s \<longleftrightarrow> s \<noteq> [] \<and> \<not> isspace (hd s) \<and> \<not> isspace (last s) \<and> CHR 0x0A \<notin> set s"

definition plain_key :: "string \<Rightarrow> bool" where
  "plain_key k \<longleftrightarrow> trimmed k \<and> lower_str k \<and> CHR ''='' \<notin> set k \<and>
     hd k \<notin> {CHR ''#'', CHR '';'', CHR ''[''}"

definition plain_value :: "string \<Rightarrow> bool" where
  "plain_value v \<longleftrightarrow> trimmed v \<and> CHR '';'' \<notin> set v \<and> CHR ''#'' \<notin> set v \<and>
     hd v \<notin> {dquote, squote} \<and> last v \<noteq> CHR 0x5C"

definition plain_section :: "string \<Rightarrow> bool" where
  "plain_section s \<longleftrightarrow> trimmed s \<and> lower_str s \<and> CHR '']'' \<notin> set s"

fun plain_items :: "string \<Rightarrow> ini_item list \<Rightarrow> bool" where
  "plain_items sec [] = True"
| "plain_items sec (Section s # its) =
     (plain_section s \<and> length s + 3 \<le> ASCIILINESZ - 1 \<and> plain_items s its)"
| "plain_items sec (Entry k v # its) =
     (plain_key k \<and> plain_value v \<and> length k + length v + 2 \<le> ASCIILINESZ - 1 \<and>
      length sec + 1 + length k \<le> ASCIILINESZ \<and> plain_items sec its)"

text \<open>The dictionary entries the items stand for.\<close>

fun item_entries :: "string \<Rightarrow> ini_item list \<Rightarrow> (string \<times> string option) list" where
  "item_entries sec [] = []"
| "item_entries sec (Section s # its) = (s, None) # item_entries s its"
| "item_entries sec (Entry k v # its) = (sec @ '':'' @ k, Some v) # item_entries sec its"

text \<open>The section in force after the items.\<close>

fun items_section :: "string \<Rightarrow> ini_item list \<Rightarrow> string" where
  "items_section sec [] = sec"
| "items_section sec (Section s # its) = items_section s its"
| "items_section sec (Entry k v # its) = items_section sec its"

lemma items_section_Cons: "items_section sec (it # its) = items_section (items_section sec [it]) its"
  by (cases it) simp_all

lemma fgets_line:
  assumes "CHR 0x0A \<notin> set s" "length s + 1 \<le> n - 1"
  shows "fgets n (s @ nl @ rest) = Some (s @ nl, rest)"
proof -
  have "takeWhile (\<lambda>c. c \<noteq> CHR 0x0A) (s @ nl @ rest) = s"
    using assms(1) by (subst takeWhile_append2) auto
  with assms(2) show ?thesis by (simp add: fgets_def min_def)
qed

lemma load_loop_line:
  assumes "CHR 0x0A \<notin> set s" "s \<noteq> []" "\<not> isspace (last s)" "last s \<noteq> CHR 0x5C"
    "length s + 1 \<le> ASCIILINESZ - 1" "ls_kept st = []"
  shows "load_loop alloc below (s @ nl @ rest) st =
    (case load_line alloc st s of Inl e \<Rightarrow> Inl e | Inr st' \<Rightarrow> load_loop alloc below rest st')"
proof -
  have "fgets ASCIILINESZ (s @ nl @ rest) = Some (s @ nl, rest)"
    by (rule fgets_line [OF assms(1,5)])
  with assms(2-4,6) show ?thesis
    by (subst load_loop.simps) (simp add: rstrip_id Let_def)
qed

lemma iniparser_line_plain_section:
  assumes "plain_section s" "length s \<le> ASCIILINESZ"
  shows "iniparser_line (''['' @ s @ '']'') b = (LINE_SECTION, b\<lparr>lo_section := s\<rparr>)"
proof -
  have "strstrip (''['' @ s @ '']'') = ''['' @ s @ '']''"
    by (intro strstrip_id) (auto simp: isspace_def)
  moreover have "sscanf fmt_section (''['' @ s @ '']'') = [s]"
    using assms by (auto simp: fmt_section_def plain_section_def trimmed_def Let_def)
  moreover have "lwc (strstrip s) = s"
    using assms by (simp add: plain_section_def trimmed_def strstrip_id lwc_lower)
  ultimately show ?thesis by (simp add: iniparser_line_def)
qed

lemma sscanf_key:
  assumes "CHR ''='' \<notin> set k" "k \<noteq> []"
  shows "sscanf (SNot ''='' # SWs # SLit (CHR ''='') # f) (k @ ''='' @ v) = k # sscanf f v"
proof -
  have "takeWhile (\<lambda>c. c \<notin> set ''='') (k @ ''='' @ v) = k"
    "dropWhile (\<lambda>c. c \<notin> set ''='') (k @ ''='' @ v) = ''='' @ v"
    using assms(1) by simp_all
  with assms(2) show ?thesis by (simp add: isspace_def)
qed

lemma iniparser_line_plain_entry:
  assumes k: "plain_key k" and v: "plain_value v" and len: "length k \<le> ASCIILINESZ"
  shows "iniparser_line (k @ ''='' @ v) b = (LINE_VALUE, b\<lparr>lo_key := k, lo_value := v\<rparr>)"
proof -
  let ?line = "k @ ''='' @ v"
  have kd: "k \<noteq> []" "CHR ''='' \<notin> set k" "hd k \<notin> {CHR ''#'', CHR '';'', CHR ''[''}"
    and vd: "v \<noteq> []" "skip_ws v = v" "hd v \<noteq> dquote" "hd v \<noteq> squote"
    using k v by (auto simp: plain_key_def plain_value_def trimmed_def skip_ws_id)
  have strip: "strstrip ?line = ?line" "strstrip k = k" "strstrip v = v"
    using k v by (auto simp: plain_key_def plain_value_def trimmed_def intro!: strstrip_id)
  have low: "lwc k = k"
    using k len by (simp add: plain_key_def lwc_lower)
  have sc: "sscanf fmt_dquoted ?line = [k]" "sscanf fmt_squoted ?line = [k]"
    unfolding fmt_dquoted_def fmt_squoted_def using kd vd by (subst sscanf_key; cases v; simp)+
  have tw: "takeWhile (\<lambda>c. c \<notin> set '';#'') v = v"
    using v by (subst takeWhile_eq_all_conv) (auto simp: plain_value_def)
  have pl: "sscanf fmt_plain ?line = [k, v]"
    unfolding fmt_plain_def sscanf_key [OF kd(2,1)]
    unfolding sscanf.simps(1,2,4) vd(2) tw Let_def
    using vd(1) by simp
  have "v \<noteq> [dquote, dquote]" "v \<noteq> [squote, squote]"
    using vd(3,4) by (metis list.sel(1))+
  moreover have "hd ?line = hd k" using kd(1) by simp
  ultimately show ?thesis
    using kd low
    by (simp add: iniparser_line_def strip [simplified] scan_kv_def sc [simplified] pl [simplified])
qed

lemma load_line_plain:
  assumes "dict_inv (ls_dict st)" "plain_items (lo_section (ls_out st)) (it # its)"
  shows "\<exists>st'. load_line (\<lambda>_. True) st (item_line it) = Inr st' \<and> dict_inv (ls_dict st') \<and>
     ls_kept st' = [] \<and> ls_errs st' = 0 \<and> plain_items (lo_section (ls_out st')) its \<and>
     lo_section (ls_out st') = items_section (lo_section (ls_out st)) [it] \<and>
     dict_map (ls_dict st') ++ map_of (rev (item_entries (lo_section (ls_out st')) its)) =
     dict_map (ls_dict st) ++ map_of (rev (item_entries (lo_section (ls_out st)) (it # its)))"
proof -
  have small: "small_ok (\<lambda>_. True)" by (simp add: small_ok_def)
  have store: "\<exists>st'. store_entry (\<lambda>_. True) st b k v = Inr st' \<and> dict_inv (ls_dict st') \<and>
      dict_map (ls_dict st') = (dict_map (ls_dict st))(k \<mapsto> v) \<and> ls_errs st' = 0 \<and>
      ls_kept st' = [] \<and> ls_out st' = b" if "length k \<le> ASCIILINESZ" for b k v
    using dict_store.upd_ok [OF assms(1), of k v] store_entry_inv [OF small assms(1) that, of b v]
    by (auto simp: store_entry_def set_entry_def)
  show ?thesis
  proof (cases it)
    case (Section s)
    with assms(2) have "plain_section s" "length s \<le> ASCIILINESZ" by auto
    with Section assms(2) store [of s "(ls_out st)\<lparr>lo_section := s\<rparr>" None] show ?thesis
      by (auto simp: load_line_def iniparser_line_plain_section [simplified] map_add_upd_left)
  next
    case (Entry k v)
    let ?b = "(ls_out st)\<lparr>lo_key := k, lo_value := v\<rparr>"
    have "plain_key k" "plain_value v" "length k \<le> ASCIILINESZ"
      and len: "length (lo_section (ls_out st)) + 1 + length k \<le> ASCIILINESZ"
      using Entry assms(2) by auto
    then have "iniparser_line (item_line it) (ls_out st) = (LINE_VALUE, ?b)"
      using Entry by (simp add: iniparser_line_plain_entry [simplified])
    with Entry assms(2) len store [of "lo_section (ls_out st) @ '':'' @ k" ?b "Some v"] show ?thesis
      by (auto simp: load_line_def map_add_upd_left)
  qed
qed

lemma plain_item_line:
  assumes "plain_items sec (it # its)"
  shows "CHR 0x0A \<notin> set (item_line it)" "item_line it \<noteq> []" "\<not> isspace (last (item_line it))"
    "last (item_line it) \<noteq> CHR 0x5C" "length (item_line it) + 1 \<le> ASCIILINESZ - 1"
  using assms
  by (cases it; auto simp: plain_section_def plain_key_def plain_value_def trimmed_def isspace_def)+

text \<open>Reading a rendered list of items and then the rest of the file.\<close>

lemma load_loop_render:
  assumes "dict_inv (ls_dict st)" "ls_kept st = []"
    "plain_items (lo_section (ls_out st)) items"
  shows "\<exists>st'. (\<forall>rest. load_loop (\<lambda>_. True) below (render items @ rest) st =
       load_loop (\<lambda>_. True) below rest st') \<and>
     ls_errs st' = (if items = [] then ls_errs st else 0) \<and> ls_kept st' = [] \<and>
     dict_inv (ls_dict st') \<and>
     lo_section (ls_out st') = items_section (lo_section (ls_out st)) items \<and>
     dict_map (ls_dict st') =
       dict_map (ls_dict st) ++ map_of (rev (item_entries (lo_section (ls_out st)) items))"
  using assms
proof (induction items arbitrary: st)
  case Nil
  then show ?case by (auto simp: render_def)
next
  case (Cons it items)
  obtain st1 where st1: "load_line (\<lambda>_. True) st (item_line it) = Inr st1" "dict_inv (ls_dict st1)"
      "ls_kept st1 = []" "ls_errs st1 = 0" "plain_items (lo_section (ls_out st1)) items"
      "lo_section (ls_out st1) = items_section (lo_section (ls_out st)) [it]"
    and m: "dict_map (ls_dict st1) ++ map_of (rev (item_entries (lo_section (ls_out st1)) items)) =
      dict_map (ls_dict st) ++ map_of (rev (item_entries (lo_section (ls_out st)) (it # items)))"
    using load_line_plain [OF Cons.prems(1,3)] by blast
  have eq: "load_loop (\<lambda>_. True) below (render (it # items) @ rest) st =
      load_loop (\<lambda>_. True) below (render items @ rest) st1" for rest
  proof -
    have "render (it # items) @ rest = item_line it @ nl @ render items @ rest"
      by (simp add: render_def)
    then show ?thesis
      using load_loop_line [OF plain_item_line [OF Cons.prems(3)] Cons.prems(2)] st1(1) by simp
  qed
  from Cons.IH [OF st1(2,3,5)] st1(4,6) m show ?case
    unfolding eq items_section_Cons [of _ it items] by auto
qed

lemma init_load_simps [simp]:
  "ls_dict (init_load d) = d" "ls_kept (init_load d) = []" "ls_errs (init_load d) = 0"
  "lo_section (ls_out (init_load d)) = []"
  by (simp_all add: init_load_def)

lemma load_loop_end: "load_loop alloc below [] st = Inr (Some st)"
  by (subst load_loop.simps) (simp add: fgets_def)

lemma new_dictionary: "\<exists>d. dictionary_new (\<lambda>_. True) 0 = Some (Inr d) \<and> dict_inv d \<and> dict_map d = Map.empty"
proof -
  obtain d where "dictionary_new (\<lambda>_. True) 0 = Some (Inr d)"
    by (simp add: dictionary_new_def Let_def)
  with dictionary_new_spec show ?thesis by blast
qed

text \<open>Loading a rendered prefix: where the loop stands when it reaches the rest.\<close>

lemma iniparser_load_prefix:
  assumes "plain_items [] items"
  obtains st where "\<And>rest. iniparser_load (\<lambda>_. True) below (Some (render items @ rest)) =
      finish_load (load_loop (\<lambda>_. True) below rest st)"
    "ls_errs st = 0" "ls_kept st = []" "dict_inv (ls_dict st)"
    "lo_section (ls_out st) = items_section [] items"
    "dict_map (ls_dict st) = map_of (rev (item_entries [] items))"
proof -
  obtain d where d: "dictionary_new (\<lambda>_. True) 0 = Some (Inr d)" "dict_inv d" "dict_map d = Map.empty"
    using new_dictionary by blast
  obtain st where st: "\<forall>rest. load_loop (\<lambda>_. True) below (render items @ rest) (init_load d) =
      load_loop (\<lambda>_. True) below rest st" "ls_errs st = 0" "ls_kept st = []" "dict_inv (ls_dict st)"
      "lo_section (ls_out st) = items_section [] items"
      "dict_map (ls_dict st) = map_of (rev (item_entries [] items))"
    using load_loop_render [of "init_load d" items below] assms d by (auto split: if_splits)
  show ?thesis
    by (rule that [OF _ st(2-6)]) (simp add: iniparser_load_def d(1) st(1))
qed

text \<open>A line that is no entry: no equals sign, no comment, no section header.\<close>

definition junk_line :: "string \<Rightarrow> bool" where
  "junk_line s \<longleftrightarrow> trimmed s \<and> CHR ''='' \<notin> set s \<and> hd s \<notin> {CHR ''#'', CHR '';'', CHR ''[''} \<and>
     last s \<noteq> CHR 0x5C \<and> length s + 1 \<le> ASCIILINESZ - 1"

lemma iniparser_line_junk:
  assumes "junk_line s"
  shows "iniparser_line s b = (LINE_ERROR, b\<lparr>lo_key := s\<rparr>)"
proof -
  have "strstrip s = s" and ne: "s \<noteq> []"
    using assms by (auto simp: junk_line_def trimmed_def strstrip_id)
  have tw: "takeWhile (\<lambda>c. c \<notin> set ''='') s = s"
    using assms by (subst takeWhile_eq_all_conv) (auto simp: junk_line_def)
  have dw: "dropWhile (\<lambda>c. c \<notin> set ''='') s = []"
    using assms by (auto simp: junk_line_def)
  have "scan_kv f s b' = (1, b'\<lparr>lo_key := s\<rparr>)"
    if "f \<in> {fmt_dquoted, fmt_squoted, fmt_plain, fmt_comment, fmt_empty}" for f b'
    using that unfolding fmt_dquoted_def fmt_squoted_def fmt_plain_def fmt_comment_def fmt_empty_def
      scan_kv_def
    by (elim insertE emptyE; simp only: sscanf.simps tw dw Let_def) (simp_all add: ne)
  then show ?thesis
    using \<open>strstrip s = s\<close> ne assms by (simp add: iniparser_line_def junk_line_def)
qed

lemma load_loop_junk:
  assumes "junk_line s" "ls_kept st = []"
  shows "load_loop alloc below (s @ nl @ rest) st =
    load_loop alloc below rest
      (st\<lparr>ls_out := (ls_out st)\<lparr>lo_key := s\<rparr>, ls_kept := [], ls_errs := ls_errs st + 1\<rparr>)"
proof -
  have "load_line alloc st s =
      Inr (st\<lparr>ls_out := (ls_out st)\<lparr>lo_key := s\<rparr>, ls_kept := [], ls_errs := ls_errs st + 1\<rparr>)"
    by (simp add: load_line_def iniparser_line_junk [OF assms(1)])
  moreover have "load_loop alloc below (s @ nl @ rest) st =
      (case load_line alloc st s of Inl e \<Rightarrow> Inl e | Inr st' \<Rightarrow> load_loop alloc below rest st')"
    using assms by (intro load_loop_line) (auto simp: junk_line_def trimmed_def)
  ultimately show ?thesis by simp
qed

subsection \<open>Properties\<close>

lemma iniparser_load_rendered:
  assumes "plain_items [] items"
  shows "\<exists>d. iniparser_load (\<lambda>_. True) below (Some (render items)) = Inr (Some d) \<and> dict_inv d \<and>
     dict_map d = map_of (rev (item_entries [] items))"
proof -
  obtain st where "\<And>rest. iniparser_load (\<lambda>_. True) below (Some (render items @ rest)) =
      finish_load (load_loop (\<lambda>_. True) below rest st)"
    "ls_errs st = 0" "ls_kept st = []" "dict_inv (ls_dict st)"
    "lo_section (ls_out st) = items_section [] items"
    "dict_map (ls_dict st) = map_of (rev (item_entries [] items))"
    by (rule iniparser_load_prefix [OF assms, of below], rule that)
  from this(1) [of "[]"] this(2,4,6) show ?thesis by (simp add: load_loop_end finish_load_def)
qed

definition demo_items :: "ini_item list" where
  "demo_items = [Section ''eq'', Entry ''library'' ''x'', Entry ''label'' ''lo'']"

lemma demo_plain: "plain_items [] demo_items"
  unfolding demo_items_def by code_simp

text \<open>
  C13. Every file that loads at all gives a well-formed dictionary: whatever the text is, array
  lengths, entry count, cached hashes and the uniqueness of keys are right, provided requests
  for a single line of memory are met.
\<close>

theorem iniparser_load_well_formed:
  assumes "small_ok alloc" "iniparser_load alloc below file = Inr (Some d)"
  shows "dict_inv d"
  using assms by (rule iniparser_load_inv)

theorem iniparser_load_well_formed_witness:
  "\<exists>d. iniparser_load (\<lambda>_. True) CHR 0x20 (Some (render demo_items)) = Inr (Some d) \<and> dict_inv d"
proof -
  obtain d where "iniparser_load (\<lambda>_. True) CHR 0x20 (Some (render demo_items)) = Inr (Some d)"
    using iniparser_load_rendered [OF demo_plain] by blast
  then show ?thesis
    using iniparser_load_well_formed [of "\<lambda>_. True"] by (auto simp: small_ok_def)
qed

text \<open>
  C11. Reading back a plain INI file: sections and \<^verbatim>\<open>key=value\<close> lines written one per line load
  into exactly the dictionary they denote, later entries overriding earlier ones; sections are
  keys with a NULL value.
\<close>

theorem iniparser_load_render:
  assumes "plain_items [] items"
  shows "\<exists>d. iniparser_load (\<lambda>_. True) below (Some (render items)) = Inr (Some d) \<and> dict_inv d \<and>
     dict_map d = map_of (rev (item_entries [] items))"
  using assms by (rule iniparser_load_rendered)

text \<open>A small file: a section with two entries.\<close>

theorem iniparser_load_render_witness:
  "\<exists>d. iniparser_load (\<lambda>_. True) CHR 0x20 (Some (render demo_items)) = Inr (Some d) \<and>
     dict_map d ''eq:label'' = Some (Some ''lo'') \<and> dict_map d ''eq'' = Some None"
  using iniparser_load_render [OF demo_plain, of "CHR 0x20"] by (auto simp: demo_items_def)


text \<open>
  A file whose last line has two characters or more and no newline is rejected: the check meant
  for lines that overflow the buffer fires at the end of the file too.
\<close>

theorem iniparser_load_unterminated:
  assumes "plain_items [] items" "CHR 0x0A \<notin> set s" "2 \<le> length s" "length s < ASCIILINESZ"
  shows "iniparser_load (\<lambda>_. True) below (Some (render items @ s)) = Inr None"
proof -
  obtain st where st: "\<And>rest. iniparser_load (\<lambda>_. True) below (Some (render items @ rest)) =
      finish_load (load_loop (\<lambda>_. True) below rest st)"
    "ls_errs st = 0" "ls_kept st = []" "dict_inv (ls_dict st)"
    "lo_section (ls_out st) = items_section [] items"
    "dict_map (ls_dict st) = map_of (rev (item_entries [] items))"
    by (rule iniparser_load_prefix [OF assms(1), of below], rule that)
  have ne: "s \<noteq> []" "length s \<noteq> 1" using assms(3) by auto
  then have "last s \<noteq> CHR 0x0A" using assms(2) last_in_set [of s] by metis
  have tw: "takeWhile (\<lambda>c. c \<noteq> CHR 0x0A) s = s"
    using assms(2) by (subst takeWhile_eq_all_conv) auto
  have "fgets ASCIILINESZ s = Some (s, [])"
    unfolding fgets_def tw Let_def using ne(1) assms(4) by simp
  moreover note ne \<open>last s \<noteq> CHR 0x0A\<close>
  ultimately have "load_loop (\<lambda>_. True) below s st = Inr None"
    using st(3) by (subst load_loop.simps) simp
  with st(1) [of s] show ?thesis by (simp add: finish_load_def)
qed

theorem iniparser_load_unterminated_witness:
  "iniparser_load (\<lambda>_. True) CHR 0x20 (Some (render demo_items @ ''k=v'')) = Inr None"
  using iniparser_load_unterminated [OF demo_plain, of "''k=v''"] by (simp add: ASCIILINESZ_def)

text \<open>
  A syntax error is forgotten as soon as a later line is stored: the file loads as if the bad
  line were not there, because the result of storing an entry overwrites the error count.
\<close>

theorem iniparser_load_masks_errors:
  assumes "plain_items [] is1" "junk_line s" "plain_items (items_section [] is1) is2" "is2 \<noteq> []"
  shows "\<exists>d. iniparser_load (\<lambda>_. True) below (Some (render is1 @ s @ nl @ render is2)) = Inr (Some d) \<and>
     dict_map d = map_of (rev (item_entries [] is1)) ++
       map_of (rev (item_entries (items_section [] is1) is2))"
proof -
  obtain st where st: "\<And>rest. iniparser_load (\<lambda>_. True) below (Some (render is1 @ rest)) =
      finish_load (load_loop (\<lambda>_. True) below rest st)"
    "ls_errs st = 0" "ls_kept st = []" "dict_inv (ls_dict st)"
    "lo_section (ls_out st) = items_section [] is1"
    "dict_map (ls_dict st) = map_of (rev (item_entries [] is1))"
    by (rule iniparser_load_prefix [OF assms(1), of below], rule that)
  let ?st = "st\<lparr>ls_out := (ls_out st)\<lparr>lo_key := s\<rparr>, ls_kept := [], ls_errs := ls_errs st + 1\<rparr>"
  obtain st2 where "\<forall>rest. load_loop (\<lambda>_. True) below (render is2 @ rest) ?st =
      load_loop (\<lambda>_. True) below rest st2" "ls_errs st2 = 0"
    "dict_map (ls_dict st2) = dict_map (ls_dict st) ++
       map_of (rev (item_entries (items_section [] is1) is2))"
    using load_loop_render [of ?st is2 below] st assms(3,4) by (auto split: if_splits)
  then show ?thesis
    using st(1) [of "s @ nl @ render is2"] load_loop_junk [OF assms(2) st(3)] st(6)
    by (auto simp: load_loop_end finish_load_def dest: spec [of _ "[]"])
qed

theorem iniparser_load_masks_errors_witness:
  "\<exists>d. iniparser_load (\<lambda>_. True) CHR 0x20
     (Some (render demo_items @ ''junk'' @ nl @ render [Entry ''k'' ''v''])) = Inr (Some d) \<and>
     dict_map d ''eq:k'' = Some (Some ''v'')"
proof -
  have "junk_line ''junk''" by code_simp
  moreover have "plain_items (items_section [] demo_items) [Entry ''k'' ''v'']"
    unfolding demo_items_def by code_simp
  ultimately show ?thesis
    using iniparser_load_masks_errors [OF demo_plain, of "''junk''" "[Entry ''k'' ''v'']" "CHR 0x20"]
    by (auto simp: demo_items_def)
qed

end
