(* ===== verification/Cras_Expr.thy ===== *)
theory Cras_Expr
  imports Dragon_Prelude
begin

text \<open>
  The expression language of \<^verbatim>\<open>audio/hal/cras_expr.c\<close> that decides which DSP plugins are
  disabled: values, environments, the parser and the evaluator. A \<^verbatim>\<open>struct\<close> written through
  a pointer is the value the operation returns; the memory an operation frees is not modelled.
\<close>

subsection \<open>Values\<close>

text \<open>The function pointers a value can hold are those of the four builtins.\<close>

datatype cras_expr_function = Function_not | Function_and | Function_or | Function_equal

datatype cras_expr_value =
    VALUE_NONE
  | VALUE_BOOLEAN bool
  | VALUE_INT int
  | VALUE_STRING string
  | VALUE_FUNCTION cras_expr_function

definition copy_str :: "string \<Rightarrow> nat \<Rightarrow> string" where
  "copy_str beg len = take len beg"

definition cras_expr_value_free :: "cras_expr_value \<Rightarrow> cras_expr_value" where
  "cras_expr_value_free v = VALUE_NONE"

definition value_set_boolean :: "cras_expr_value \<Rightarrow> int \<Rightarrow> cras_expr_value" where
  "value_set_boolean v boolean = VALUE_BOOLEAN (boolean \<noteq> 0)"

definition value_set_integer :: "cras_expr_value \<Rightarrow> int \<Rightarrow> cras_expr_value" where
  "value_set_integer v integer = VALUE_INT integer"

definition value_set_string2 :: "cras_expr_value \<Rightarrow> string \<Rightarrow> nat \<Rightarrow> cras_expr_value" where
  "value_set_string2 v beg len = VALUE_STRING (copy_str beg len)"

definition value_set_string :: "cras_expr_value \<Rightarrow> string \<Rightarrow> cras_expr_value" where
  "value_set_string v str = value_set_string2 v str (length str)"

definition cras_expr_value_set_function ::
  "cras_expr_value \<Rightarrow> cras_expr_function \<Rightarrow> cras_expr_value" where
  "cras_expr_value_set_function v f = VALUE_FUNCTION f"

definition copy_value :: "cras_expr_value \<Rightarrow> cras_expr_value \<Rightarrow> cras_expr_value" where
  "copy_value v original =
     (case original of
        VALUE_NONE \<Rightarrow> VALUE_NONE
      | VALUE_BOOLEAN b \<Rightarrow> VALUE_BOOLEAN b
      | VALUE_INT n \<Rightarrow> VALUE_INT n
      | VALUE_STRING s \<Rightarrow> VALUE_STRING s
      | VALUE_FUNCTION f \<Rightarrow> VALUE_FUNCTION f)"

lemma copy_value_eq [simp]: "copy_value v x = x"
  by (cases x) (simp_all add: copy_value_def)

subsection \<open>Environments\<close>

record cras_expr_env =
  env_keys :: "string list"
  env_values :: "cras_expr_value list"

definition CRAS_EXPR_ENV_INIT :: cras_expr_env where
  "CRAS_EXPR_ENV_INIT = \<lparr>env_keys = [], env_values = []\<rparr>"

text \<open>The index of the value, where the code has a pointer to it.\<close>

definition find_value :: "cras_expr_env \<Rightarrow> string \<Rightarrow> nat option" where
  "find_value env name = find (\<lambda>i. env_keys env ! i = name) [0..<length (env_keys env)]"

definition insert_value :: "cras_expr_env \<Rightarrow> string \<Rightarrow> nat \<times> cras_expr_env" where
  "insert_value env key =
     (length (env_values env),
      env\<lparr>env_keys := env_keys env @ [key], env_values := env_values env @ [VALUE_NONE]\<rparr>)"

definition find_or_insert_value :: "cras_expr_env \<Rightarrow> string \<Rightarrow> nat \<times> cras_expr_env" where
  "find_or_insert_value env key =
     (case find_value env key of Some i \<Rightarrow> (i, env) | None \<Rightarrow> insert_value env key)"

text \<open>The value behind a pointer into the environment.\<close>

definition upd_value ::
  "nat \<times> cras_expr_env \<Rightarrow> (cras_expr_value \<Rightarrow> cras_expr_value) \<Rightarrow> cras_expr_env" where
  "upd_value p f =
     (case p of (i, env) \<Rightarrow>
        env\<lparr>env_values := (env_values env)[i := f (env_values env ! i)]\<rparr>)"

definition env_set_variable :: "cras_expr_env \<Rightarrow> string \<Rightarrow> cras_expr_value \<Rightarrow> cras_expr_env" where
  "env_set_variable env name new_value =
     upd_value (find_or_insert_value env name) (\<lambda>v. copy_value v new_value)"

definition cras_expr_env_set_variable_boolean ::
  "cras_expr_env \<Rightarrow> string \<Rightarrow> int \<Rightarrow> cras_expr_env" where
  "cras_expr_env_set_variable_boolean env name boolean =
     upd_value (find_or_insert_value env name) (\<lambda>v. value_set_boolean v boolean)"

definition cras_expr_env_set_variable_integer ::
  "cras_expr_env \<Rightarrow> string \<Rightarrow> int \<Rightarrow> cras_expr_env" where
  "cras_expr_env_set_variable_integer env name integer =
     upd_value (find_or_insert_value env name) (\<lambda>v. value_set_integer v integer)"

definition cras_expr_env_set_variable_string ::
  "cras_expr_env \<Rightarrow> string \<Rightarrow> string \<Rightarrow> cras_expr_env" where
  "cras_expr_env_set_variable_string env name str =
     upd_value (find_or_insert_value env name) (\<lambda>v. value_set_string v str)"

definition cras_expr_env_install_builtins :: "cras_expr_env \<Rightarrow> cras_expr_env" where
  "cras_expr_env_install_builtins env =
     (let v0 = VALUE_NONE;
          v1 = cras_expr_value_set_function v0 Function_not;
          env1 = env_set_variable env ''not'' v1;
          v2 = cras_expr_value_set_function v1 Function_and;
          env2 = env_set_variable env1 ''and'' v2;
          v3 = cras_expr_value_set_function v2 Function_or;
          env3 = env_set_variable env2 ''or'' v3;
          v4 = cras_expr_value_set_function v3 Function_equal
      in env_set_variable env3 ''equal?'' v4)"

definition cras_expr_env_free :: "cras_expr_env \<Rightarrow> cras_expr_env" where
  "cras_expr_env_free env = env\<lparr>env_keys := [], env_values := []\<rparr>"

subsection \<open>The builtin functions\<close>

text \<open>Each takes the operands, the function itself first, and the old result.\<close>

definition is_false :: "cras_expr_value \<Rightarrow> bool" where
  "is_false v \<longleftrightarrow> v = VALUE_BOOLEAN False"

definition function_not :: "cras_expr_value list \<Rightarrow> cras_expr_value \<Rightarrow> cras_expr_value" where
  "function_not operands result =
     (if length operands \<noteq> 2 then cras_expr_value_free result
      else value_set_boolean result (if is_false (operands ! 1) then 1 else 0))"

definition function_and :: "cras_expr_value list \<Rightarrow> cras_expr_value \<Rightarrow> cras_expr_value" where
  "function_and operands result =
     (let n = length operands in
      if n \<le> 1 then value_set_boolean result 1
      else (case find (\<lambda>i. i \<noteq> 0 \<and> is_false (operands ! i)) [0..<n] of
              Some i \<Rightarrow> value_set_boolean result 0
            | None \<Rightarrow> copy_value result (operands ! (n - 1))))"

definition function_or :: "cras_expr_value list \<Rightarrow> cras_expr_value \<Rightarrow> cras_expr_value" where
  "function_or operands result =
     (case find (\<lambda>i. i \<noteq> 0 \<and> \<not> is_false (operands ! i)) [0..<length operands] of
        Some i \<Rightarrow> copy_value result (operands ! i)
      | None \<Rightarrow> value_set_boolean result 0)"

text \<open>The comparison of one operand with the previous one.\<close>

fun value_differs :: "cras_expr_value \<Rightarrow> cras_expr_value \<Rightarrow> bool" where
  "value_differs VALUE_NONE VALUE_NONE = False"
| "value_differs (VALUE_BOOLEAN a) (VALUE_BOOLEAN b) = (a \<noteq> b)"
| "value_differs (VALUE_INT a) (VALUE_INT b) = (a \<noteq> b)"
| "value_differs (VALUE_STRING a) (VALUE_STRING b) = (a \<noteq> b)"
| "value_differs (VALUE_FUNCTION a) (VALUE_FUNCTION b) = (a \<noteq> b)"
| "value_differs _ _ = True"

definition function_equal_real :: "cras_expr_value list \<Rightarrow> bool" where
  "function_equal_real operands =
     (case find (\<lambda>i. 1 < i \<and> value_differs (operands ! (i - 1)) (operands ! i))
                [0..<length operands] of
        Some i \<Rightarrow> False
      | None \<Rightarrow> True)"

definition function_equal :: "cras_expr_value list \<Rightarrow> cras_expr_value \<Rightarrow> cras_expr_value" where
  "function_equal operands result =
     value_set_boolean result (if function_equal_real operands then 1 else 0)"

fun call_function ::
  "cras_expr_function \<Rightarrow> cras_expr_value list \<Rightarrow> cras_expr_value \<Rightarrow> cras_expr_value" where
  "call_function Function_not = function_not"
| "call_function Function_and = function_and"
| "call_function Function_or = function_or"
| "call_function Function_equal = function_equal"

subsection \<open>Expressions and evaluation\<close>

datatype cras_expr_expression =
    EXPR_NONE
  | EXPR_LITERAL cras_expr_value
  | EXPR_VARIABLE string
  | EXPR_COMPOUND "cras_expr_expression list"

fun cras_expr_expression_eval ::
  "cras_expr_expression \<Rightarrow> cras_expr_env \<Rightarrow> cras_expr_value \<Rightarrow> cras_expr_value" where
  "cras_expr_expression_eval EXPR_NONE env result = VALUE_NONE"
| "cras_expr_expression_eval (EXPR_LITERAL v) env result = copy_value VALUE_NONE v"
| "cras_expr_expression_eval (EXPR_VARIABLE x) env result =
     (case find_value env x of
        None \<Rightarrow> VALUE_NONE
      | Some i \<Rightarrow> copy_value VALUE_NONE (env_values env ! i))"
| "cras_expr_expression_eval (EXPR_COMPOUND children) env result =
     (let values = map (\<lambda>e. cras_expr_expression_eval e env VALUE_NONE) children
      in case values of
           [] \<Rightarrow> VALUE_NONE
         | VALUE_FUNCTION f # _ \<Rightarrow> call_function f values VALUE_NONE
         | _ # _ \<Rightarrow> VALUE_NONE)"

text \<open>
  The two typed evaluations: the return code and what the out parameter holds, its old
  content when the value has another type.
\<close>

definition cras_expr_expression_eval_int ::
  "cras_expr_expression \<Rightarrow> cras_expr_env \<Rightarrow> int \<Rightarrow> int \<times> int" where
  "cras_expr_expression_eval_int expr env integer =
     (case cras_expr_expression_eval expr env VALUE_NONE of
        VALUE_INT n \<Rightarrow> (0, n) | _ \<Rightarrow> (- 1, integer))"

definition cras_expr_expression_eval_boolean ::
  "cras_expr_expression \<Rightarrow> cras_expr_env \<Rightarrow> bool \<Rightarrow> int \<times> bool" where
  "cras_expr_expression_eval_boolean expr env boolean =
     (case cras_expr_expression_eval expr env VALUE_NONE of
        VALUE_BOOLEAN b \<Rightarrow> (0, b) | _ \<Rightarrow> (- 1, boolean))"

subsection \<open>Parsing\<close>

definition new_boolean_literal :: "bool \<Rightarrow> cras_expr_expression" where
  "new_boolean_literal b = EXPR_LITERAL (value_set_boolean VALUE_NONE (if b then 1 else 0))"

definition new_integer_literal :: "int \<Rightarrow> cras_expr_expression" where
  "new_integer_literal integer = EXPR_LITERAL (value_set_integer VALUE_NONE integer)"

definition new_string_literal :: "string \<Rightarrow> nat \<Rightarrow> cras_expr_expression" where
  "new_string_literal beg len = EXPR_LITERAL (value_set_string2 VALUE_NONE beg len)"

definition new_variable :: "string \<Rightarrow> nat \<Rightarrow> cras_expr_expression" where
  "new_variable beg len = EXPR_VARIABLE (copy_str beg len)"

definition is_identifier_char :: "char \<Rightarrow> bool" where
  "is_identifier_char c =
     (if isspace c then False
      else if c = CHR 0x00 then False
      else if isalpha c then True
      else c = CHR ''_'' \<or> c = CHR ''-'' \<or> c = CHR ''?'')"

text \<open>
  \<open>parse_one_expr s\<close> is the expression and the unread rest; \<open>parse_sub_exprs\<close> is the loop over
  the children of a compound expression. The loop goes on only while the rest gets shorter;
  \<open>parse_sub_exprs_eq\<close> below shows that it always does.
\<close>

function (sequential)
  parse_one_expr :: "string \<Rightarrow> cras_expr_expression option \<times> string" and
  parse_sub_exprs :: "string \<Rightarrow> cras_expr_expression list \<times> string"
where
  "parse_one_expr s0 =
     (case skip_ws s0 of
        [] \<Rightarrow> (None, [])
      | c # cs \<Rightarrow>
          if c = CHR ''#'' then
            (case cs of
               [] \<Rightarrow> (None, [])
             | d # ds \<Rightarrow>
                 if d = CHR ''t'' \<or> d = CHR ''f''
                 then (Some (new_boolean_literal (d = CHR ''t'')), ds)
                 else (None, d # ds))
          else if isdigit c \<or> (c = CHR ''-'' \<and> cs \<noteq> [] \<and> isdigit (hd cs)) then
            (case strtol 10 (c # cs) of (v, rest) \<Rightarrow> (Some (new_integer_literal (to_int v)), rest))
          else if c = CHR 0x22 then
            (if CHR 0x22 \<notin> set cs then (Some (new_string_literal cs 0), cs)
             else (let len = length (takeWhile (\<lambda>x. x \<noteq> CHR 0x22) cs)
                   in (Some (new_string_literal cs len), drop (Suc len) cs)))
          else if c = CHR ''('' then
            (case parse_sub_exprs cs of
               (es, rest) \<Rightarrow>
                 (case rest of
                    [] \<Rightarrow> (None, rest)
                  | d # ds \<Rightarrow> if d \<noteq> CHR '')'' then (None, rest)
                             else (Some (EXPR_COMPOUND es), ds)))
          else if is_identifier_char c then
            (let len = length (takeWhile is_identifier_char (c # cs))
             in (Some (new_variable (c # cs) len), drop len (c # cs)))
          else (None, c # cs))"
| "parse_sub_exprs s =
     (case parse_one_expr s of
        (None, rest) \<Rightarrow> ([], rest)
      | (Some e, rest) \<Rightarrow>
          if length rest < length s then
            (case parse_sub_exprs rest of (es, rest') \<Rightarrow> (e # es, rest'))
          else ([e], rest))"
  by pat_completeness auto
termination
proof (relation "measure (case_sum (\<lambda>s. 2 * length s) (\<lambda>s. 2 * length s + 1))", goal_cases)
  case (2 s0 c cs)
  then have "length (c # cs) \<le> length s0" by (metis length_skip_ws)
  then show ?case by simp
qed simp_all

declare parse_one_expr.simps [simp del] parse_sub_exprs.simps [simp del]

definition cras_expr_expression_parse :: "string option \<Rightarrow> cras_expr_expression option" where
  "cras_expr_expression_parse str =
     (case str of None \<Rightarrow> None | Some s \<Rightarrow> fst (parse_one_expr s))"

subsection \<open>Environment lemmas\<close>

definition env_inv :: "cras_expr_env \<Rightarrow> bool" where
  "env_inv env \<longleftrightarrow> length (env_values env) = length (env_keys env) \<and> distinct (env_keys env)"

text \<open>What a name stands for.\<close>

definition env_lookup :: "cras_expr_env \<Rightarrow> string \<Rightarrow> cras_expr_value option" where
  "env_lookup env name = map_option (\<lambda>i. env_values env ! i) (find_value env name)"

lemma find_value_Some:
  assumes "env_inv env"
  shows "find_value env name = Some i \<longleftrightarrow> i < length (env_keys env) \<and> env_keys env ! i = name"
proof
  assume "find_value env name = Some i"
  then show "i < length (env_keys env) \<and> env_keys env ! i = name"
    by (simp add: find_value_def find_upt_Some)
next
  assume "i < length (env_keys env) \<and> env_keys env ! i = name"
  then show "find_value env name = Some i"
    unfolding find_value_def using assms
    by (intro find_upt_unique) (auto simp: env_inv_def nth_eq_iff_index_eq)
qed

lemma find_value_None: "find_value env name = None \<longleftrightarrow> name \<notin> set (env_keys env)"
  by (auto simp: find_value_def find_upt_None in_set_conv_nth)

lemma env_lookup_Some:
  assumes "env_inv env"
  shows "env_lookup env name = Some v \<longleftrightarrow>
    (\<exists>i < length (env_keys env). env_keys env ! i = name \<and> env_values env ! i = v)"
  using find_value_Some [OF assms] by (auto simp: env_lookup_def)

lemma map_eqI_Some:
  assumes "\<And>k v. m k = Some v \<longleftrightarrow> m' k = Some v"
  shows "m = m'"
proof
  fix k show "m k = m' k" using assms by (metis not_None_eq)
qed

lemma overwrite_lookup:
  assumes "env_inv env" "i < length (env_keys env)"
  shows "env_inv (env\<lparr>env_values := (env_values env)[i := w]\<rparr>)"
    and "env_lookup (env\<lparr>env_values := (env_values env)[i := w]\<rparr>) =
      (env_lookup env)(env_keys env ! i \<mapsto> w)"
proof -
  let ?e = "env\<lparr>env_values := (env_values env)[i := w]\<rparr>"
  show inv: "env_inv ?e" using assms(1) by (simp add: env_inv_def)
  show "env_lookup ?e = (env_lookup env)(env_keys env ! i \<mapsto> w)"
  proof (rule map_eqI_Some)
    fix k v
    have "j < length (env_keys env) \<Longrightarrow> env_keys env ! j = env_keys env ! i \<longleftrightarrow> j = i" for j
      using assms by (simp add: env_inv_def nth_eq_iff_index_eq)
    then show "env_lookup ?e k = Some v \<longleftrightarrow> ((env_lookup env)(env_keys env ! i \<mapsto> w)) k = Some v"
      using assms unfolding fun_upd_apply
      by (cases "k = env_keys env ! i")
        (auto simp: env_lookup_Some [OF inv] env_lookup_Some [OF assms(1)] env_inv_def nth_list_update)
  qed
qed

lemma extend_lookup:
  assumes "env_inv env" "name \<notin> set (env_keys env)"
  shows "env_inv (env\<lparr>env_keys := env_keys env @ [name], env_values := env_values env @ [w]\<rparr>)"
    and "env_lookup (env\<lparr>env_keys := env_keys env @ [name], env_values := env_values env @ [w]\<rparr>) =
      (env_lookup env)(name \<mapsto> w)"
proof -
  let ?e = "env\<lparr>env_keys := env_keys env @ [name], env_values := env_values env @ [w]\<rparr>"
  show inv: "env_inv ?e" using assms by (simp add: env_inv_def)
  show "env_lookup ?e = (env_lookup env)(name \<mapsto> w)"
  proof (rule map_eqI_Some)
    fix k v
    show "env_lookup ?e k = Some v \<longleftrightarrow> ((env_lookup env)(name \<mapsto> w)) k = Some v"
      using assms unfolding fun_upd_apply
      by (cases "k = name")
        (auto simp: env_lookup_Some [OF inv] env_lookup_Some [OF assms(1)] env_inv_def nth_append
          less_Suc_eq in_set_conv_nth)
  qed
qed

text \<open>One lemma for the four setters: each writes what \<open>f\<close> makes of the old value.\<close>

lemma upd_value_spec:
  assumes "env_inv env" "\<And>v. f v = w"
  shows "env_inv (upd_value (find_or_insert_value env name) f) \<and>
    env_lookup (upd_value (find_or_insert_value env name) f) = (env_lookup env)(name \<mapsto> w)"
proof (cases "find_value env name")
  case (Some i)
  then have "i < length (env_keys env)" "env_keys env ! i = name"
    using find_value_Some [OF assms(1)] by auto
  with overwrite_lookup [OF assms(1), of i w] Some assms(2) show ?thesis
    by (simp add: find_or_insert_value_def upd_value_def)
next
  case None
  then have "upd_value (find_or_insert_value env name) f =
      env\<lparr>env_keys := env_keys env @ [name], env_values := env_values env @ [w]\<rparr>"
    using assms(2)
    by (simp add: find_or_insert_value_def insert_value_def upd_value_def list_update_append)
  with extend_lookup [OF assms(1), of name w] None show ?thesis
    by (simp add: find_value_None)
qed

lemma env_init_inv: "env_inv CRAS_EXPR_ENV_INIT" and env_init_lookup: "env_lookup CRAS_EXPR_ENV_INIT = Map.empty"
  by (auto simp: env_inv_def CRAS_EXPR_ENV_INIT_def env_lookup_def find_value_def)

text \<open>The setters, each as an update of what the names stand for.\<close>

lemma env_set_spec:
  assumes "env_inv env"
  shows "env_inv (env_set_variable env x w) \<and>
      env_lookup (env_set_variable env x w) = (env_lookup env)(x \<mapsto> w)"
    and "env_inv (cras_expr_env_set_variable_boolean env x b) \<and>
      env_lookup (cras_expr_env_set_variable_boolean env x b) =
        (env_lookup env)(x \<mapsto> VALUE_BOOLEAN (b \<noteq> 0))"
    and "env_inv (cras_expr_env_set_variable_integer env x n) \<and>
      env_lookup (cras_expr_env_set_variable_integer env x n) = (env_lookup env)(x \<mapsto> VALUE_INT n)"
    and "env_inv (cras_expr_env_set_variable_string env x str) \<and>
      env_lookup (cras_expr_env_set_variable_string env x str) =
        (env_lookup env)(x \<mapsto> VALUE_STRING str)"
  unfolding env_set_variable_def cras_expr_env_set_variable_boolean_def
    cras_expr_env_set_variable_integer_def cras_expr_env_set_variable_string_def
  by (rule upd_value_spec [OF assms];
      simp add: value_set_boolean_def value_set_integer_def value_set_string_def
        value_set_string2_def copy_str_def)+

lemma install_builtins_spec:
  assumes "env_inv env"
  shows "env_inv (cras_expr_env_install_builtins env) \<and>
    env_lookup (cras_expr_env_install_builtins env) =
      (env_lookup env)(''not'' \<mapsto> VALUE_FUNCTION Function_not, ''and'' \<mapsto> VALUE_FUNCTION Function_and,
        ''or'' \<mapsto> VALUE_FUNCTION Function_or, ''equal?'' \<mapsto> VALUE_FUNCTION Function_equal)"
  using assms
  by (simp add: cras_expr_env_install_builtins_def Let_def cras_expr_value_set_function_def env_set_spec(1))

subsection \<open>What the builtins compute\<close>

lemma eval_variable:
  "cras_expr_expression_eval (EXPR_VARIABLE x) env r =
     (case env_lookup env x of None \<Rightarrow> VALUE_NONE | Some v \<Rightarrow> v)"
  by (simp add: env_lookup_def split: option.split)

lemma value_differs_iff: "value_differs a b \<longleftrightarrow> a \<noteq> b"
  by (cases "(a, b)" rule: value_differs.cases) auto

lemma upt_Suc_shift: "(\<forall>i < Suc n. P i) \<longleftrightarrow> P 0 \<and> (\<forall>i < n. P (Suc i))"
  by (metis less_Suc_eq_0_disj not0_implies_Suc Suc_less_eq)

lemma function_and_eq:
  "function_and (f # vs) r =
     (if VALUE_BOOLEAN False \<in> set vs then VALUE_BOOLEAN False
      else if vs = [] then VALUE_BOOLEAN True else last vs)"
proof (cases "VALUE_BOOLEAN False \<in> set vs")
  case True
  then obtain i where "i < length vs" "vs ! i = VALUE_BOOLEAN False"
    by (auto simp: in_set_conv_nth)
  then have "find (\<lambda>i. i \<noteq> 0 \<and> is_false ((f # vs) ! i)) [0..<length (f # vs)] \<noteq> None"
    unfolding find_upt_None by (auto simp: is_false_def intro!: exI [of _ "Suc i"])
  with True show ?thesis
    by (auto simp: function_and_def value_set_boolean_def Let_def simp del: upt_Suc)
next
  case False
  then have "find (\<lambda>i. i \<noteq> 0 \<and> is_false ((f # vs) ! i)) [0..<length (f # vs)] = None"
    unfolding find_upt_None by (auto simp: is_false_def upt_Suc_shift in_set_conv_nth)
  with False show ?thesis
    by (auto simp: function_and_def value_set_boolean_def Let_def last_conv_nth simp del: upt_Suc)
qed

lemma find_Suc_upt:
  "find P [0..<Suc n] = (if P 0 then Some 0 else map_option Suc (find (\<lambda>i. P (Suc i)) [0..<n]))"
proof -
  have "[0..<Suc n] = 0 # map Suc [0..<n]" by (simp add: map_Suc_upt upt_conv_Cons)
  moreover have "find P (map Suc xs) = map_option Suc (find (\<lambda>i. P (Suc i)) xs)" for xs
    by (induction xs) auto
  ultimately show ?thesis by simp
qed

lemma find_nth_upt: "map_option (\<lambda>i. xs ! i) (find (\<lambda>i. P (xs ! i)) [0..<length xs]) = find P xs"
  by (induction xs) (simp_all add: find_Suc_upt option.map_comp comp_def del: upt_Suc)

lemma function_or_eq:
  "function_or (f # vs) r =
     (case find (\<lambda>v. v \<noteq> VALUE_BOOLEAN False) vs of Some v \<Rightarrow> v | None \<Rightarrow> VALUE_BOOLEAN False)"
  using find_nth_upt [of vs "\<lambda>v. v \<noteq> VALUE_BOOLEAN False"]
  by (auto simp: function_or_def find_Suc_upt is_false_def value_set_boolean_def simp del: upt_Suc
      split: option.splits)

lemma function_not_eq:
  "function_not [f, v] r = VALUE_BOOLEAN (v = VALUE_BOOLEAN False)"
  by (simp add: function_not_def value_set_boolean_def is_false_def)

lemma function_equal_eq:
  "function_equal (f # v # vs) r = VALUE_BOOLEAN (\<forall>w \<in> set vs. w = v)"
proof -
  have "function_equal_real (f # v # vs) \<longleftrightarrow>
      (\<forall>i < length vs. (v # vs) ! i = vs ! i)"
    by (auto simp: function_equal_real_def find_Suc_upt value_differs_iff find_upt_None
        find_upt_Some simp del: upt_Suc split: option.split)
  also have "\<dots> \<longleftrightarrow> (\<forall>w \<in> set vs. w = v)"
  proof (induction vs arbitrary: v)
    case (Cons a vs)
    show ?case using Cons.IH [of a] by (simp only: length_Cons upt_Suc_shift) auto
  qed simp
  finally show ?thesis by (simp add: function_equal_def value_set_boolean_def)
qed

lemma eval_compound:
  assumes "env_lookup env f = Some (VALUE_FUNCTION g)"
  shows "cras_expr_expression_eval (EXPR_COMPOUND (EXPR_VARIABLE f # es)) env r =
    call_function g (VALUE_FUNCTION g # map (\<lambda>e. cras_expr_expression_eval e env VALUE_NONE) es) VALUE_NONE"
  using assms eval_variable [of f env VALUE_NONE] by simp

subsection \<open>The parser makes progress\<close>

lemma strtol_shorter:
  assumes "isdigit c \<or> (c = CHR ''-'' \<and> cs \<noteq> [] \<and> isdigit (hd cs))"
    "strtol 10 (c # cs) = (v, rest)"
  shows "length rest < length (c # cs)"
proof -
  have base: "is_base_digit 10 d" if "isdigit d" for d
    using that by (auto simp: is_base_digit_def digit_val_def isdigit_def)
  have "\<not> isspace c" using assms(1) by (auto simp: isspace_def isdigit_def)
  then have sk: "skip_ws (c # cs) = c # cs" by simp
  show ?thesis
  proof (cases "isdigit c")
    case True
    then have "c \<noteq> CHR ''-''" "c \<noteq> CHR ''+''" by (auto simp: isdigit_def)
    with assms(2) base [OF True] show ?thesis
      by (auto simp: strtol_def sk strtol_prefix_def length_dropWhile_le le_imp_less_Suc
          split: if_splits)
  next
    case False
    with assms obtain d ds where c: "c = CHR ''-''" "cs = d # ds" "isdigit d"
      by (cases cs) auto
    with assms(2) base [OF c(3)] show ?thesis
      by (auto simp: strtol_def isspace_def strtol_prefix_def length_dropWhile_le le_imp_less_Suc
          less_SucI split: if_splits)
  qed
qed

lemma parse_progress:
  "\<And>oe r. parse_one_expr s = (oe, r) \<Longrightarrow> length r \<le> length s \<and> (oe \<noteq> None \<longrightarrow> length r < length s)"
  "\<And>es r. parse_sub_exprs t = (es, r) \<Longrightarrow> length r \<le> length t"
proof (induction s and t rule: parse_one_expr_parse_sub_exprs.induct)
  case (1 s0)
  show ?case
  proof (cases "skip_ws s0")
    case Nil
    with "1.prems" show ?thesis by (auto simp: parse_one_expr.simps [of s0])
  next
    case (Cons c cs)
    then have le: "length (c # cs) \<le> length s0" by (metis length_skip_ws)
    have "length r \<le> length (c # cs) \<and> (oe \<noteq> None \<longrightarrow> length r < length (c # cs))"
      using "1.prems" "1.IH" [OF Cons] strtol_shorter [of c cs]
      unfolding parse_one_expr.simps [of s0] Cons
      by (auto simp: Let_def split: if_splits list.splits prod.splits)
    with le show ?thesis by linarith
  qed
next
  case (2 s)
  show ?case
    using "2.prems" "2.IH" unfolding parse_sub_exprs.simps [of s]
    by (fastforce split: prod.splits option.splits if_splits)
qed

text \<open>The loop over the children without the length test.\<close>

lemma parse_sub_exprs_eq:
  "parse_sub_exprs s =
     (case parse_one_expr s of
        (None, rest) \<Rightarrow> ([], rest)
      | (Some e, rest) \<Rightarrow> (case parse_sub_exprs rest of (es, rest') \<Rightarrow> (e # es, rest')))"
  using parse_progress(1) [of s] parse_sub_exprs.simps [of s]
  by (auto split: prod.splits option.splits)

lemma parse_one_ws: "isspace c \<Longrightarrow> parse_one_expr (c # s) = parse_one_expr s"
  by (simp add: parse_one_expr.simps [of "c # s"] parse_one_expr.simps [of s])

lemma parse_sub_ws: "isspace c \<Longrightarrow> parse_sub_exprs (c # s) = parse_sub_exprs s"
  using parse_sub_exprs_eq [of "c # s"] parse_sub_exprs_eq [of s] by (simp add: parse_one_ws)

subsection \<open>Printing\<close>

definition show_int :: "int \<Rightarrow> string" where
  "show_int v = (if v < 0 then CHR ''-'' # show_nat (nat (- v)) else show_nat (nat v))"

fun show_expr :: "cras_expr_expression \<Rightarrow> string" where
  "show_expr (EXPR_LITERAL (VALUE_BOOLEAN b)) = (if b then ''#t'' else ''#f'')"
| "show_expr (EXPR_LITERAL (VALUE_INT n)) = show_int n"
| "show_expr (EXPR_LITERAL (VALUE_STRING str)) = CHR 0x22 # str @ [CHR 0x22]"
| "show_expr (EXPR_VARIABLE x) = x"
| "show_expr (EXPR_COMPOUND es) = ''('' @ concat (map (\<lambda>e. show_expr e @ '' '') es) @ '')''"
| "show_expr _ = []"

text \<open>The expressions a parser can produce from a text without faults.\<close>

fun printable :: "cras_expr_expression \<Rightarrow> bool" where
  "printable (EXPR_LITERAL (VALUE_BOOLEAN b)) = True"
| "printable (EXPR_LITERAL (VALUE_INT n)) = (- (2 ^ 31) \<le> n \<and> n < 2 ^ 31)"
| "printable (EXPR_LITERAL (VALUE_STRING str)) = (CHR 0x22 \<notin> set str)"
| "printable (EXPR_VARIABLE x) = (x \<noteq> [] \<and> list_all is_identifier_char x)"
| "printable (EXPR_COMPOUND es) = list_all printable es"
| "printable _ = False"

lemma base_digit_10: "is_base_digit 10 c \<longleftrightarrow> isdigit c"
  by (auto simp: is_base_digit_def digit_val_def isdigit_def islower_def isupper_def)

definition at_delim :: "string \<Rightarrow> bool" where
  "at_delim rest \<longleftrightarrow> rest = [] \<or> isspace (hd rest)"

lemma at_delim_stops:
  assumes "at_delim rest" "list_all P xs" "\<And>c. isspace c \<Longrightarrow> \<not> P c"
  shows "takeWhile P (xs @ rest) = xs" "dropWhile P (xs @ rest) = rest"
proof -
  have "takeWhile P rest = []" "dropWhile P rest = rest"
    using assms(1,3) by (cases rest; auto simp: at_delim_def)+
  with assms(2) show "takeWhile P (xs @ rest) = xs" "dropWhile P (xs @ rest) = rest"
    by (simp_all add: list_all_iff takeWhile_append2 dropWhile_append2)
qed

lemma isdigit_not_space: "isdigit c \<Longrightarrow> \<not> isspace c"
  by (auto simp: isdigit_def isspace_def)

lemma strtol_show_int:
  assumes "- (2 ^ 31) \<le> n" "n < 2 ^ 31" "at_delim rest"
  shows "strtol 10 (show_int n @ rest) = (n, rest)"
proof -
  have stop: "takeWhile (is_base_digit 10) (show_nat m @ rest) = show_nat m"
    "dropWhile (is_base_digit 10) (show_nat m @ rest) = rest" for m
    using at_delim_stops [OF assms(3), of isdigit "show_nat m"] show_nat_digits [of m] isdigit_not_space
    by (auto simp: base_digit_10 [abs_def])
  obtain d ds where dd: "show_nat m = d # ds" "isdigit d" if "m = nat \<bar>n\<bar>" for m
    using show_nat_digits [of "nat \<bar>n\<bar>"] by (cases "show_nat (nat \<bar>n\<bar>)") auto
  have d: "\<not> isspace d" "d \<noteq> CHR ''-''" "d \<noteq> CHR ''+''"
    using dd(2) [OF refl] by (auto simp: isdigit_def isspace_def)
  have val: "int (digits_val 10 0 (show_nat (nat \<bar>n\<bar>))) = \<bar>n\<bar>"
    using show_nat_digits by simp
  show ?thesis
  proof (cases "n < 0")
    case True
    then show ?thesis
      using stop [of "nat \<bar>n\<bar>"] dd(1) [OF refl] val assms(1,2)
      by (simp add: strtol_def show_int_def strtol_prefix_def isspace_def max_def)
  next
    case False
    then show ?thesis
      using stop [of "nat \<bar>n\<bar>"] dd(1) [OF refl] val assms(1,2) d
      by (simp add: strtol_def show_int_def strtol_prefix_def min_def)
  qed
qed

lemma identifier_not_space: "isspace c \<Longrightarrow> \<not> is_identifier_char c"
  by (simp add: is_identifier_char_def)

lemma identifier_head:
  "is_identifier_char c \<Longrightarrow> c \<noteq> CHR ''#'' \<and> c \<noteq> CHR 0x22 \<and> c \<noteq> CHR ''('' \<and> \<not> isdigit c \<and> \<not> isspace c"
  by (auto simp: is_identifier_char_def isalpha_def isupper_def islower_def isdigit_def split: if_splits)

lemma parse_one_variable:
  assumes "x \<noteq> []" "list_all is_identifier_char x" "at_delim rest"
  shows "parse_one_expr (x @ rest) = (Some (EXPR_VARIABLE x), rest)"
proof -
  obtain c cs where x: "x = c # cs" using assms(1) by (cases x) auto
  have c: "is_identifier_char c" using assms(2) x by simp
  have nodash: "\<not> (cs @ rest \<noteq> [] \<and> isdigit (hd (cs @ rest)))"
    using assms(2,3) x identifier_head isdigit_not_space by (cases cs) (auto simp: at_delim_def)
  have tw: "takeWhile is_identifier_char (c # cs @ rest) = c # cs"
    using at_delim_stops(1) [OF assms(3,2) identifier_not_space] x by simp
  show ?thesis
    using identifier_head [OF c] c nodash
    unfolding x append_Cons parse_one_expr.simps [of "c # cs @ rest"]
    by (auto simp: tw new_variable_def copy_str_def simp del: takeWhile.simps)
qed

lemma parse_one_int:
  assumes "- (2 ^ 31) \<le> n" "n < 2 ^ 31" "at_delim rest"
  shows "parse_one_expr (show_int n @ rest) = (Some (EXPR_LITERAL (VALUE_INT n)), rest)"
proof -
  obtain d ds where dd: "show_nat (nat \<bar>n\<bar>) = d # ds" "isdigit d"
    using show_nat_digits [of "nat \<bar>n\<bar>"] by (cases "show_nat (nat \<bar>n\<bar>)") auto
  then obtain c cs where sh: "show_int n @ rest = c # cs"
    and c: "isdigit c \<or> (c = CHR ''-'' \<and> cs \<noteq> [] \<and> isdigit (hd cs))"
    by (cases "n < 0") (auto simp: show_int_def)
  have "\<not> isspace c" "c \<noteq> CHR ''#''"
    using c by (auto simp: isspace_def isdigit_def)
  with c strtol_show_int [OF assms] show ?thesis
    unfolding sh parse_one_expr.simps [of "c # cs"]
    by (simp add: new_integer_literal_def value_set_integer_def to_int_id [OF assms(1,2)])
qed

lemma parse_sub_close: "parse_sub_exprs ('')'' @ rest) = ([], '')'' @ rest)"
  by (subst parse_sub_exprs_eq)
    (simp add: parse_one_expr.simps [of "CHR '')'' # rest"] isspace_def isdigit_def
      is_identifier_char_def isalpha_def isupper_def islower_def)

lemma parse_sub_list:
  assumes "\<And>e rest. e \<in> set es \<Longrightarrow> at_delim rest \<Longrightarrow> parse_one_expr (show_expr e @ rest) = (Some e, rest)"
  shows "parse_sub_exprs (concat (map (\<lambda>e. show_expr e @ '' '') es) @ '')'' @ rest) = (es, '')'' @ rest)"
  using assms
proof (induction es)
  case Nil
  then show ?case using parse_sub_close [of rest] by simp
next
  case (Cons e es)
  let ?r = "concat (map (\<lambda>e. show_expr e @ '' '') es) @ '')'' @ rest"
  have "parse_one_expr (show_expr e @ '' '' @ ?r) = (Some e, '' '' @ ?r)"
    using Cons.prems by (simp add: at_delim_def isspace_def)
  moreover have "parse_sub_exprs ('' '' @ ?r) = (es, '')'' @ rest)"
    using Cons parse_sub_ws [of "CHR '' ''"] by (simp add: isspace_def)
  ultimately show ?case
    using parse_sub_exprs_eq [of "show_expr e @ '' '' @ ?r"] by simp
qed

lemma parse_show_expr:
  "printable e \<Longrightarrow> at_delim rest \<Longrightarrow> parse_one_expr (show_expr e @ rest) = (Some e, rest)"
proof (induction e arbitrary: rest rule: printable.induct)
  case (1 b)
  then show ?case
    by (simp add: parse_one_expr.simps [of "_ # _"] isspace_def new_boolean_literal_def value_set_boolean_def)
next
  case (2 n)
  then show ?case using parse_one_int by simp
next
  case (3 str)
  then show ?case
    by (simp add: parse_one_expr.simps [of "_ # _"] isspace_def isdigit_def new_string_literal_def
        value_set_string2_def copy_str_def Let_def)
next
  case (4 x)
  then show ?case using parse_one_variable by simp
next
  case (5 es)
  have sub: "parse_sub_exprs (concat (map (\<lambda>e. show_expr e @ '' '') es) @ '')'' @ rest) = (es, '')'' @ rest)"
    using 5 by (intro parse_sub_list) (auto simp: list_all_iff)
  then show ?case
    by (simp add: parse_one_expr.simps [of "_ # _"] isspace_def isdigit_def)
qed auto

subsection \<open>Properties\<close>

text \<open>A \<^verbatim>\<open>disable\<close> expression as the configuration files use it.\<close>

definition demo_expr :: cras_expr_expression where
  "demo_expr = EXPR_COMPOUND [EXPR_VARIABLE ''not'',
     EXPR_COMPOUND [EXPR_VARIABLE ''equal?'', EXPR_VARIABLE ''dsp_name'', EXPR_LITERAL (VALUE_STRING ''speaker_eq'')]]"

lemma demo_parse_one: "parse_one_expr ''#t x'' = (Some (EXPR_LITERAL (VALUE_BOOLEAN True)), '' x'')"
  by code_simp

lemma demo_x: "cras_expr_expression_eval (EXPR_VARIABLE ''x'')
     (cras_expr_env_install_builtins CRAS_EXPR_ENV_INIT) VALUE_NONE = VALUE_NONE"
  by code_simp

text \<open>
  C12. Parsing reads back what printing writes: for every expression of booleans, 32-bit integers,
  strings without quotes, identifiers and nested compounds of these.
\<close>

theorem expression_parse_show:
  assumes "printable e"
  shows "cras_expr_expression_parse (Some (show_expr e)) = Some e"
  using parse_show_expr [OF assms, of "[]"] by (simp add: cras_expr_expression_parse_def at_delim_def)

theorem expression_parse_show_witness:
  "cras_expr_expression_parse (Some (show_expr demo_expr)) = Some demo_expr"
  by (rule expression_parse_show) (unfold demo_expr_def, code_simp)

text \<open>
  The parser always makes progress: a parsed expression consumes at least one character and a
  failed attempt never gives characters back, so the loop over the children of a compound
  expression ends on every input.
\<close>

theorem parser_progress:
  "(\<forall>e r. parse_one_expr s = (Some e, r) \<longrightarrow> length r < length s) \<and>
   (\<forall>r. parse_one_expr s = (None, r) \<longrightarrow> length r \<le> length s) \<and>
   parse_sub_exprs s = (case parse_one_expr s of (None, r) \<Rightarrow> ([], r)
     | (Some e, r) \<Rightarrow> (case parse_sub_exprs r of (es, r') \<Rightarrow> (e # es, r')))"
  using parse_progress(1) [of s] parse_sub_exprs_eq [of s] by auto

theorem parser_progress_witness:
  "\<exists>e r. parse_one_expr ''#t x'' = (Some e, r) \<and> length r < 4"
proof -
  obtain e r where "parse_one_expr ''#t x'' = (Some e, r)"
    using demo_parse_one by blast
  with parser_progress [of "''#t x''"] show ?thesis by auto
qed

text \<open>
  Evaluation of the builtins in an environment where they are installed: \<open>and\<close> is false exactly
  when an operand is, otherwise its last operand; \<open>or\<close> is its first operand that is not false;
  \<open>not\<close> is true only of false; \<open>equal?\<close> compares every operand with the first.
\<close>

theorem eval_builtins:
  assumes "env_inv env0" "env = cras_expr_env_install_builtins env0"
    "vs = map (\<lambda>e. cras_expr_expression_eval e env VALUE_NONE) es"
  shows "cras_expr_expression_eval (EXPR_COMPOUND (EXPR_VARIABLE ''and'' # es)) env r =
      (if VALUE_BOOLEAN False \<in> set vs then VALUE_BOOLEAN False
       else if vs = [] then VALUE_BOOLEAN True else last vs) \<and>
    cras_expr_expression_eval (EXPR_COMPOUND (EXPR_VARIABLE ''or'' # es)) env r =
      (case find (\<lambda>v. v \<noteq> VALUE_BOOLEAN False) vs of Some v \<Rightarrow> v | None \<Rightarrow> VALUE_BOOLEAN False) \<and>
    cras_expr_expression_eval (EXPR_COMPOUND [EXPR_VARIABLE ''not'', e1]) env r =
      VALUE_BOOLEAN (cras_expr_expression_eval e1 env VALUE_NONE = VALUE_BOOLEAN False) \<and>
    cras_expr_expression_eval (EXPR_COMPOUND (EXPR_VARIABLE ''equal?'' # e1 # es)) env r =
      VALUE_BOOLEAN (\<forall>v \<in> set vs. v = cras_expr_expression_eval e1 env VALUE_NONE)"
proof -
  note l = install_builtins_spec [OF assms(1), THEN conjunct2, folded assms(2)]
  note rules = eval_compound function_and_eq function_or_eq function_not_eq function_equal_eq
  show ?thesis by (simp add: rules l assms(3) del: cras_expr_expression_eval.simps)
qed

theorem eval_builtins_witness:
  "cras_expr_expression_eval (EXPR_COMPOUND [EXPR_VARIABLE ''and'', EXPR_VARIABLE ''x''])
     (cras_expr_env_install_builtins CRAS_EXPR_ENV_INIT) VALUE_NONE = VALUE_NONE"
  using eval_builtins [OF env_init_inv refl refl, of "[EXPR_VARIABLE ''x'']" VALUE_NONE EXPR_NONE, THEN conjunct1]
  by (simp add: demo_x del: cras_expr_expression_eval.simps)

text \<open>
  De Morgan for the disable conditions: when both conditions evaluate to booleans, negating
  their conjunction gives the same boolean and the same success code as the disjunction of
  their negations.
\<close>

theorem eval_boolean_de_morgan:
  assumes "env_inv env0" "env = cras_expr_env_install_builtins env0"
    "cras_expr_expression_eval a env VALUE_NONE = VALUE_BOOLEAN p"
    "cras_expr_expression_eval b env VALUE_NONE = VALUE_BOOLEAN q"
  shows "cras_expr_expression_eval_boolean
      (EXPR_COMPOUND [EXPR_VARIABLE ''not'', EXPR_COMPOUND [EXPR_VARIABLE ''and'', a, b]]) env d
    = (0, \<not> (p \<and> q)) \<and>
    cras_expr_expression_eval_boolean
      (EXPR_COMPOUND [EXPR_VARIABLE ''or'', EXPR_COMPOUND [EXPR_VARIABLE ''not'', a],
         EXPR_COMPOUND [EXPR_VARIABLE ''not'', b]]) env d
    = (0, \<not> (p \<and> q))"
proof -
  note l = install_builtins_spec [OF assms(1), THEN conjunct2, folded assms(2)]
  note rules = eval_compound function_and_eq function_or_eq function_not_eq
  show ?thesis using assms(3,4)
    by (auto simp: cras_expr_expression_eval_boolean_def rules l simp del: cras_expr_expression_eval.simps)
qed

theorem eval_boolean_de_morgan_witness:
  "cras_expr_expression_eval_boolean
      (EXPR_COMPOUND [EXPR_VARIABLE ''not'',
         EXPR_COMPOUND [EXPR_VARIABLE ''and'', EXPR_LITERAL (VALUE_BOOLEAN True), EXPR_LITERAL (VALUE_BOOLEAN False)]])
      (cras_expr_env_install_builtins CRAS_EXPR_ENV_INIT) False = (0, True)"
  using eval_boolean_de_morgan [OF env_init_inv refl,
      of "EXPR_LITERAL (VALUE_BOOLEAN True)" True "EXPR_LITERAL (VALUE_BOOLEAN False)" False False]
  by simp

text \<open>
  The environment behaves as a map: every setter keeps keys distinct and changes exactly the
  variable it names, whether the name was known before or not.
\<close>

theorem env_setters_are_updates:
  assumes "env_inv env"
  shows "env_inv (cras_expr_env_set_variable_boolean env x b) \<and>
    env_inv (cras_expr_env_set_variable_integer env x n) \<and>
    env_inv (cras_expr_env_set_variable_string env x str) \<and>
    env_lookup (cras_expr_env_set_variable_boolean env x b) =
      (env_lookup env)(x \<mapsto> VALUE_BOOLEAN (b \<noteq> 0)) \<and>
    env_lookup (cras_expr_env_set_variable_integer env x n) = (env_lookup env)(x \<mapsto> VALUE_INT n) \<and>
    env_lookup (cras_expr_env_set_variable_string env x str) = (env_lookup env)(x \<mapsto> VALUE_STRING str)"
  using env_set_spec [OF assms] by blast

theorem env_setters_are_updates_witness:
  "env_lookup (cras_expr_env_set_variable_string CRAS_EXPR_ENV_INIT ''dsp_name'' ''x'') ''dsp_name'' =
     Some (VALUE_STRING ''x'')"
  using env_setters_are_updates [OF env_init_inv, of "''dsp_name''" 0 0 "''x''"] by simp

end
