(* ===== verification/Dsp_Ini.thy ===== *)
theory Dsp_Ini
  imports Iniparser Cras_Expr
begin

text \<open>
  The static DSP graph of \<^verbatim>\<open>audio/hal/cras_dsp_ini.c\<close>: one plugin per section of the INI file
  with its ports, and the flows that connect ports of the same name. A pointer to a plugin is
  its index in the plugin array; \<open>None\<close> is \<^verbatim>\<open>NULL\<close> and \<^verbatim>\<open>INVALID_FLOW_ID\<close>. The type \<open>'f\<close> is the
  C type \<^verbatim>\<open>float\<close>; the conversion \<^verbatim>\<open>strtof\<close> and the value \<^verbatim>\<open>0\<close> are arguments.
\<close>

definition MAX_INI_KEY_LENGTH :: nat where
  "MAX_INI_KEY_LENGTH = 64"

definition MAX_NR_PORT :: nat where
  "MAX_NR_PORT = 128"

definition MAX_PORT_NAME_LENGTH :: nat where
  "MAX_PORT_NAME_LENGTH = 20"

datatype port_direction = PORT_INPUT | PORT_OUTPUT

datatype port_type = PORT_CONTROL | PORT_AUDIO

lemma not_PORT_INPUT [simp]: "d \<noteq> PORT_INPUT \<longleftrightarrow> d = PORT_OUTPUT"
  by (cases d) auto

record 'f port =
  pt_direction :: port_direction
  pt_type :: port_type
  pt_flow_id :: "nat option"
  pt_init_value :: 'f

record 'f plugin =
  pl_title :: string
  pl_library :: "string option"
  pl_label :: "string option"
  pl_purpose :: "string option"
  pl_disable_expr :: "cras_expr_expression option"
  pl_ports :: "'f port list"

record flow =
  fl_type :: port_type
  fl_name :: string
  fl_from :: "nat option"
  fl_to :: "nat option"
  fl_from_port :: nat
  fl_to_port :: nat

record 'f ini =
  ini_dict :: dictionary
  ini_plugins :: "'f plugin list"
  ini_flows :: "flow list"

text \<open>\<^verbatim>\<open>snprintf(buf, n, ...)\<close> keeps the first \<open>n - 1\<close> characters.\<close>

definition snprintf :: "nat \<Rightarrow> string \<Rightarrow> string" where
  "snprintf n s = take (n - 1) s"

fun str_opt :: "c_str \<Rightarrow> string option" where
  "str_opt (Str s) = Some s"
| "str_opt _ = None"

definition getstring :: "dictionary \<Rightarrow> string \<Rightarrow> string \<Rightarrow> string option" where
  "getstring dict sec_name key =
     (let full_key = snprintf MAX_INI_KEY_LENGTH (sec_name @ '':'' @ key)
      in str_opt (iniparser_getstring (Some dict) (Some full_key) Null_Str))"

definition lookup_flow :: "flow list \<Rightarrow> string \<Rightarrow> nat option" where
  "lookup_flow flows name = find (\<lambda>i. fl_name (flows ! i) = name) [0..<length flows]"

text \<open>A zeroed flow with its name: type 0 is \<^verbatim>\<open>PORT_CONTROL\<close>.\<close>

definition new_flow :: "string \<Rightarrow> flow" where
  "new_flow name = \<lparr>fl_type = PORT_CONTROL, fl_name = name, fl_from = None, fl_to = None,
                    fl_from_port = 0, fl_to_port = 0\<rparr>"

definition lookup_or_add_flow :: "flow list \<Rightarrow> string \<Rightarrow> nat \<times> flow list" where
  "lookup_or_add_flow flows name =
     (case lookup_flow flows name of
        Some i \<Rightarrow> (i, flows)
      | None \<Rightarrow> (length flows, flows @ [new_flow name]))"

text \<open>The name of a port attribute: \<open>input_3\<close>, \<open>output_12\<close>.\<close>

definition port_key :: "string \<Rightarrow> nat \<Rightarrow> string" where
  "port_key prefix i = snprintf MAX_PORT_NAME_LENGTH (prefix @ ''_'' @ show_nat i)"

text \<open>
  The loop of \<^verbatim>\<open>parse_ports\<close> for port numbers from \<open>i\<close> on, at most \<open>n\<close> of them. \<open>Inl\<close> is the
  return of \<open>-1\<close>, with the flows and ports added so far.
\<close>

fun parse_ports_loop ::
  "(string \<Rightarrow> 'f) \<Rightarrow> 'f \<Rightarrow> dictionary \<Rightarrow> string \<Rightarrow> nat \<Rightarrow> nat \<Rightarrow> flow list \<Rightarrow> 'f port list
     \<Rightarrow> (flow list \<times> 'f port list) + (flow list \<times> 'f port list)" where
  "parse_ports_loop strtof zero dict sec_name 0 i flows ports = Inr (flows, ports)"
| "parse_ports_loop strtof zero dict sec_name (Suc n) i flows ports =
     (let inp = getstring dict sec_name (port_key ''input'' i);
          direction = (if inp = None then PORT_OUTPUT else PORT_INPUT);
          str = (if inp = None then getstring dict sec_name (port_key ''output'' i) else inp)
      in case str of
           None \<Rightarrow> Inr (flows, ports)
         | Some s \<Rightarrow>
             (case s of
                [] \<Rightarrow> Inl (flows, ports)
              | c # _ \<Rightarrow>
                  if c = CHR ''<'' \<or> c = CHR ''{'' then
                    (case lookup_or_add_flow flows s of
                       (flow_id, flows') \<Rightarrow>
                         parse_ports_loop strtof zero dict sec_name n (Suc i) flows'
                           (ports @ [\<lparr>pt_direction = direction,
                                      pt_type = (if c = CHR ''<'' then PORT_CONTROL else PORT_AUDIO),
                                      pt_flow_id = Some flow_id, pt_init_value = zero\<rparr>]))
                  else
                    parse_ports_loop strtof zero dict sec_name n (Suc i) flows
                      (ports @ [\<lparr>pt_direction = direction, pt_type = PORT_CONTROL,
                                 pt_flow_id = None, pt_init_value = strtof s\<rparr>])))"

definition parse_ports ::
  "(string \<Rightarrow> 'f) \<Rightarrow> 'f \<Rightarrow> dictionary \<Rightarrow> string \<Rightarrow> flow list
     \<Rightarrow> (flow list \<times> 'f port list) + (flow list \<times> 'f port list)" where
  "parse_ports strtof zero dict sec_name flows =
     parse_ports_loop strtof zero dict sec_name MAX_NR_PORT 0 flows []"

text \<open>\<open>None\<close> is the return of \<open>-1\<close>: the caller then frees everything.\<close>

definition parse_plugin_section ::
  "(string \<Rightarrow> 'f) \<Rightarrow> 'f \<Rightarrow> dictionary \<Rightarrow> string \<Rightarrow> flow list \<Rightarrow> (flow list \<times> 'f plugin) option" where
  "parse_plugin_section strtof zero dict sec_name flows =
     (let p = \<lparr>pl_title = sec_name,
               pl_library = getstring dict sec_name ''library'',
               pl_label = getstring dict sec_name ''label'',
               pl_purpose = getstring dict sec_name ''purpose'',
               pl_disable_expr = cras_expr_expression_parse (getstring dict sec_name ''disable''),
               pl_ports = []\<rparr>
      in if pl_library p = None \<or> pl_label p = None then None
         else (case parse_ports strtof zero dict sec_name flows of
                 Inl _ \<Rightarrow> None
               | Inr (flows', ports) \<Rightarrow> Some (flows', p\<lparr>pl_ports := ports\<rparr>)))"

text \<open>One port of \<^verbatim>\<open>fill_flow_info\<close>: port \<open>j\<close> of plugin \<open>i\<close>.\<close>

definition fill_port :: "nat \<Rightarrow> nat \<Rightarrow> 'f port \<Rightarrow> flow list \<Rightarrow> flow list" where
  "fill_port i j port flows =
     (case pt_flow_id port of
        None \<Rightarrow> flows
      | Some flow_id \<Rightarrow>
          (let fl = (flows ! flow_id)\<lparr>fl_type := pt_type port\<rparr>
           in flows[flow_id :=
                (if pt_direction port = PORT_INPUT then fl\<lparr>fl_to := Some i, fl_to_port := j\<rparr>
                 else fl\<lparr>fl_from := Some i, fl_from_port := j\<rparr>)]))"

definition fill_flow_info :: "'f plugin list \<Rightarrow> flow list \<Rightarrow> flow list" where
  "fill_flow_info plugins flows =
     fold (\<lambda>(i, plugin) fs.
             fold (\<lambda>(j, port) fs'. fill_port i j port fs') (enumerate 0 (pl_ports plugin)) fs)
          (enumerate 0 plugins) flows"

text \<open>The loop over the sections.\<close>

fun parse_sections ::
  "(string \<Rightarrow> 'f) \<Rightarrow> 'f \<Rightarrow> dictionary \<Rightarrow> string option list \<Rightarrow> flow list \<Rightarrow> 'f plugin list
     \<Rightarrow> (flow list \<times> 'f plugin list) option" where
  "parse_sections strtof zero dict [] flows plugins = Some (flows, plugins)"
| "parse_sections strtof zero dict (None # secs) flows plugins = None"
| "parse_sections strtof zero dict (Some sec_name # secs) flows plugins =
     (case parse_plugin_section strtof zero dict sec_name flows of
        None \<Rightarrow> None
      | Some (flows', p) \<Rightarrow> parse_sections strtof zero dict secs flows' (plugins @ [p]))"

text \<open>
  \<^verbatim>\<open>cras_dsp_ini_create\<close> on the dictionary that \<^verbatim>\<open>iniparser_load\<close> returned; \<open>calloc_ok\<close> tells
  whether the structure could be allocated.
\<close>

definition cras_dsp_ini_create ::
  "(string \<Rightarrow> 'f) \<Rightarrow> 'f \<Rightarrow> bool \<Rightarrow> dictionary option \<Rightarrow> 'f ini option" where
  "cras_dsp_ini_create strtof zero calloc_ok loaded =
     (if \<not> calloc_ok then None
      else case loaded of
        None \<Rightarrow> None
      | Some dict \<Rightarrow>
          (let nsec = iniparser_getnsec (Some dict);
               secs = map (\<lambda>i. iniparser_getsecname (Some dict) (int i)) [0..<nat nsec]
           in case parse_sections strtof zero dict secs [] [] of
                None \<Rightarrow> None
              | Some (flows, plugins) \<Rightarrow>
                  Some \<lparr>ini_dict = dict, ini_plugins = plugins,
                        ini_flows = fill_flow_info plugins flows\<rparr>))"

text \<open>\<^verbatim>\<open>cras_dsp_ini_free\<close>: the strings freed with the dictionary.\<close>

definition cras_dsp_ini_free :: "'f ini \<Rightarrow> dict_error + string list" where
  "cras_dsp_ini_free ini = iniparser_freedict (Some (Inr (ini_dict ini)))"

fun port_direction_str :: "port_direction \<Rightarrow> string" where
  "port_direction_str PORT_INPUT = ''input''"
| "port_direction_str PORT_OUTPUT = ''output''"

fun port_type_str :: "port_type \<Rightarrow> string" where
  "port_type_str PORT_CONTROL = ''control''"
| "port_type_str PORT_AUDIO = ''audio''"

fun plugin_title :: "'f plugin option \<Rightarrow> string" where
  "plugin_title None = ''(null)''"
| "plugin_title (Some p) = pl_title p"

subsection \<open>Well-formed graphs\<close>

text \<open>
  Every flow id of a port is an index into the flows and every audio port has one; flow names
  are unique.
\<close>

definition ports_ok :: "nat \<Rightarrow> 'f port list \<Rightarrow> bool" where
  "ports_ok n ports \<longleftrightarrow>
     (\<forall>p \<in> set ports. (\<forall>f. pt_flow_id p = Some f \<longrightarrow> f < n) \<and>
        (pt_type p = PORT_AUDIO \<longrightarrow> pt_flow_id p \<noteq> None))"

definition names_ok :: "flow list \<Rightarrow> bool" where
  "names_ok flows \<longleftrightarrow> distinct (map fl_name flows)"

text \<open>
  The ends of flow \<open>f\<close>, where recorded, are ports that carry \<open>f\<close>: an output port at \<^verbatim>\<open>from\<close> and
  an input port at \<^verbatim>\<open>to\<close>.
\<close>

definition end_ok :: "'f plugin list \<Rightarrow> nat \<Rightarrow> port_direction \<Rightarrow> nat \<Rightarrow> nat \<Rightarrow> bool" where
  "end_ok plugins f dir i j \<longleftrightarrow>
     i < length plugins \<and> j < length (pl_ports (plugins ! i)) \<and>
     pt_direction (pl_ports (plugins ! i) ! j) = dir \<and>
     pt_flow_id (pl_ports (plugins ! i) ! j) = Some f"

definition links_ok :: "'f plugin list \<Rightarrow> flow list \<Rightarrow> bool" where
  "links_ok plugins flows \<longleftrightarrow>
     (\<forall>f < length flows.
        (\<forall>i. fl_from (flows ! f) = Some i \<longrightarrow>
              end_ok plugins f PORT_OUTPUT i (fl_from_port (flows ! f))) \<and>
        (\<forall>i. fl_to (flows ! f) = Some i \<longrightarrow>
              end_ok plugins f PORT_INPUT i (fl_to_port (flows ! f))))"

definition ini_wf :: "'f ini \<Rightarrow> bool" where
  "ini_wf ini \<longleftrightarrow>
     names_ok (ini_flows ini) \<and>
     (\<forall>p \<in> set (ini_plugins ini). ports_ok (length (ini_flows ini)) (pl_ports p) \<and>
        length (pl_ports p) \<le> MAX_NR_PORT \<and> pl_library p \<noteq> None \<and> pl_label p \<noteq> None) \<and>
     links_ok (ini_plugins ini) (ini_flows ini)"

lemma ports_ok_mono: "ports_ok n ps \<Longrightarrow> n \<le> m \<Longrightarrow> ports_ok m ps"
  unfolding ports_ok_def by (meson order_less_le_trans)

text \<open>While the sections are parsed, no flow has an end yet.\<close>

definition flows_new :: "flow list \<Rightarrow> bool" where
  "flows_new flows \<longleftrightarrow> names_ok flows \<and> (\<forall>fl \<in> set flows. fl_from fl = None \<and> fl_to fl = None)"

lemma lookup_or_add_flow_spec:
  assumes "flows_new flows" "lookup_or_add_flow flows name = (i, flows')"
  shows "flows_new flows' \<and> i < length flows' \<and> length flows \<le> length flows' \<and>
    fl_name (flows' ! i) = name \<and> take (length flows) flows' = flows"
proof (cases "lookup_flow flows name")
  case None
  then have "name \<notin> set (map fl_name flows)"
    by (auto simp: lookup_flow_def find_upt_None in_set_conv_nth)
  with None assms show ?thesis
    by (auto simp: lookup_or_add_flow_def flows_new_def names_ok_def new_flow_def)
next
  case (Some j)
  then have "j < length flows" "fl_name (flows ! j) = name"
    by (auto simp: lookup_flow_def find_upt_Some)
  with Some assms show ?thesis by (auto simp: lookup_or_add_flow_def)
qed

text \<open>Two ports get the same flow exactly when their values are the same string.\<close>

lemma same_flow_iff_same_name:
  assumes "flows_new flows" "lookup_or_add_flow flows a = (i, flows1)"
    "lookup_or_add_flow flows1 b = (j, flows2)"
  shows "i = j \<longleftrightarrow> a = b"
proof -
  note s1 = lookup_or_add_flow_spec [OF assms(1,2)]
  note s2 = lookup_or_add_flow_spec [OF s1 [THEN conjunct1] assms(3)]
  have "flows2 ! i = flows1 ! i"
    using s1 s2 by (metis nth_take)
  with s1 s2 have "fl_name (flows2 ! i) = a" "fl_name (flows2 ! j) = b" "i < length flows2"
    by auto
  with s2 show ?thesis by (auto simp: flows_new_def names_ok_def distinct_conv_nth)
qed

lemma parse_ports_loop_ok:
  assumes "parse_ports_loop strtof zero dict sec n i flows ports = Inr (flows', ports')"
    "flows_new flows" "ports_ok (length flows) ports"
  shows "flows_new flows' \<and> ports_ok (length flows') ports' \<and> length flows \<le> length flows' \<and>
    length ports' \<le> length ports + n"
  using assms
proof (induction strtof zero dict sec n i flows ports rule: parse_ports_loop.induct)
  case (2 strtof zero dict sec n i flows ports)
  let ?inp = "getstring dict sec (port_key ''input'' i)"
  let ?str = "if ?inp = None then getstring dict sec (port_key ''output'' i) else ?inp"
  show ?case
  proof (cases ?str)
    case None
    with "2.prems" show ?thesis by (auto simp: Let_def)
  next
    case (Some s)
    then obtain c cs where s: "s = c # cs" using "2.prems"(1) by (cases s) (auto simp: Let_def)
    show ?thesis
    proof (cases "c = CHR ''<'' \<or> c = CHR ''{''")
      case True
      obtain f flows1 where la: "lookup_or_add_flow flows s = (f, flows1)" by fastforce
      note spec = lookup_or_add_flow_spec [OF "2.prems"(2) la]
      have "ports_ok (length flows1) ports"
        using spec ports_ok_mono [OF "2.prems"(3)] by simp
      with True Some s la spec "2.prems" "2.IH"(1) [OF refl refl refl Some s True la [symmetric]]
      show ?thesis by (auto simp: Let_def ports_ok_def)
    next
      case False
      with Some s "2.prems" "2.IH"(2) [OF refl refl refl Some s False] show ?thesis
        by (auto simp: Let_def ports_ok_def)
    qed
  qed
qed simp

lemma parse_plugin_section_ok:
  assumes "parse_plugin_section strtof zero dict sec flows = Some (flows', p)" "flows_new flows"
  shows "flows_new flows' \<and> length flows \<le> length flows' \<and> ports_ok (length flows') (pl_ports p) \<and>
    length (pl_ports p) \<le> MAX_NR_PORT \<and> pl_library p \<noteq> None \<and> pl_label p \<noteq> None \<and> pl_title p = sec"
proof -
  obtain ports where pp: "parse_ports strtof zero dict sec flows = Inr (flows', ports)"
    and p: "pl_ports p = ports" "pl_library p \<noteq> None" "pl_label p \<noteq> None" "pl_title p = sec"
    using assms(1) by (auto simp: parse_plugin_section_def Let_def split: if_splits sum.splits prod.splits)
  have "ports_ok (length flows) []" by (simp add: ports_ok_def)
  with parse_ports_loop_ok [of strtof zero dict sec MAX_NR_PORT 0 flows "[]"] pp assms(2) p
  show ?thesis by (auto simp: parse_ports_def)
qed

lemma parse_sections_ok:
  assumes "parse_sections strtof zero dict secs flows plugins = Some (flows', plugins')"
    "flows_new flows" "\<And>p. p \<in> set plugins \<Longrightarrow> ports_ok (length flows) (pl_ports p) \<and>
        length (pl_ports p) \<le> MAX_NR_PORT \<and> pl_library p \<noteq> None \<and> pl_label p \<noteq> None"
  shows "flows_new flows' \<and> (\<forall>p \<in> set plugins'. ports_ok (length flows') (pl_ports p) \<and>
        length (pl_ports p) \<le> MAX_NR_PORT \<and> pl_library p \<noteq> None \<and> pl_label p \<noteq> None) \<and>
    map (Some \<circ> pl_title) plugins' = map (Some \<circ> pl_title) plugins @ secs"
  using assms
proof (induction strtof zero dict secs flows plugins rule: parse_sections.induct)
  case (3 strtof zero dict sec secs flows plugins)
  then obtain flows1 p where p: "parse_plugin_section strtof zero dict sec flows = Some (flows1, p)"
    "parse_sections strtof zero dict secs flows1 (plugins @ [p]) = Some (flows', plugins')"
    by (auto split: option.splits)
  note ok = parse_plugin_section_ok [OF p(1) "3.prems"(2)]
  have "q \<in> set (plugins @ [p]) \<Longrightarrow> ports_ok (length flows1) (pl_ports q) \<and>
        length (pl_ports q) \<le> MAX_NR_PORT \<and> pl_library q \<noteq> None \<and> pl_label q \<noteq> None" for q
    using ok "3.prems"(3) [of q] ports_ok_mono [of "length flows" "pl_ports q" "length flows1"] by auto
  from "3.IH" [OF p(1) refl p(2) _ this] ok show ?case by simp
qed auto

subsection \<open>Linking the flows\<close>

lemma fill_port_length [simp]: "length (fill_port i j port flows) = length flows"
  by (simp add: fill_port_def Let_def split: option.split)

lemma fill_port_names: "names_ok (fill_port i j port flows) = names_ok flows"
proof (cases "pt_flow_id port")
  case (Some f)
  have "map fl_name (fill_port i j port flows) = map fl_name flows"
    using Some by (cases "f < length flows") (auto simp: fill_port_def Let_def map_update list_update_beyond
        intro!: nth_equalityI simp: nth_list_update)
  then show ?thesis by (simp add: names_ok_def)
qed (simp add: fill_port_def)

lemma fill_port_links:
  assumes "links_ok plugins flows" "i < length plugins" "j < length (pl_ports (plugins ! i))"
  shows "links_ok plugins (fill_port i j (pl_ports (plugins ! i) ! j) flows)"
proof (cases "pt_flow_id (pl_ports (plugins ! i) ! j)")
  case None
  with assms show ?thesis by (simp add: fill_port_def)
next
  case (Some f)
  have "end_ok plugins f (pt_direction (pl_ports (plugins ! i) ! j)) i j"
    using assms Some by (simp add: end_ok_def)
  then show ?thesis
    using assms(1) Some unfolding links_ok_def fill_port_def
    by (auto simp: Let_def nth_update_inside split: if_splits)
qed

text \<open>The plugin and port indices the double loop runs over.\<close>

lemma fill_flow_info_induct:
  assumes "I flows"
    and "\<And>i j fs. i < length plugins \<Longrightarrow> j < length (pl_ports (plugins ! i)) \<Longrightarrow> I fs \<Longrightarrow>
      I (fill_port i j (pl_ports (plugins ! i) ! j) fs)"
  shows "I (fill_flow_info plugins flows)"
  unfolding fill_flow_info_def
proof (rule fold_invariant [where Q = "\<lambda>x. x \<in> set (enumerate 0 plugins)"])
  fix x fs
  assume x: "x \<in> set (enumerate 0 plugins)" and fs: "I fs"
  obtain i pl where ip: "x = (i, pl)" by fastforce
  with x have il: "i < length plugins" "plugins ! i = pl" by (simp_all add: set_enumerate0)
  show "I ((\<lambda>(i, plugin) fs. fold (\<lambda>(j, port) fs'. fill_port i j port fs') (enumerate 0 (pl_ports plugin)) fs) x fs)"
    unfolding ip prod.case
    by (rule fold_invariant [where Q = "\<lambda>y. y \<in> set (enumerate 0 (pl_ports pl))"])
      (use fs il assms(2) in \<open>auto simp: set_enumerate0\<close>)
qed (use assms(1) in auto)

lemma fill_flow_info_ok:
  assumes "names_ok flows" "links_ok plugins flows"
  shows "names_ok (fill_flow_info plugins flows) \<and> links_ok plugins (fill_flow_info plugins flows) \<and>
    length (fill_flow_info plugins flows) = length flows"
proof (rule fill_flow_info_induct [where I = "\<lambda>fs. names_ok fs \<and> links_ok plugins fs \<and> length fs = length flows"])
qed (use assms in \<open>auto simp: fill_port_names fill_port_links\<close>)

lemma fill_port_from:
  assumes "f < length flows" "pt_flow_id port = Some f" "pt_direction port = PORT_OUTPUT"
  shows "fl_from (fill_port i j port flows ! f) = Some i"
  using assms by (simp add: fill_port_def Let_def)

lemma fill_port_from_stays:
  assumes "f < length flows" "fl_from (flows ! f) = Some y"
  shows "\<exists>y. fl_from (fill_port i j port flows ! f) = Some y"
  using assms by (auto simp: fill_port_def Let_def nth_update_inside split: option.split)

text \<open>Every flow with an output port has a recorded origin.\<close>

lemma fill_flow_info_complete:
  assumes "end_ok plugins f PORT_OUTPUT i j" "f < length flows"
  shows "fl_from (fill_flow_info plugins flows ! f) \<noteq> None"
proof -
  let ?row = "\<lambda>(i, plugin) fs. fold (\<lambda>(j, port) fs'. fill_port i j port fs') (enumerate 0 (pl_ports plugin)) fs"
  let ?I = "\<lambda>fs. length fs = length flows" and ?P = "\<lambda>fs. fl_from (fs ! f) \<noteq> None"
  have row_len: "?I fs \<Longrightarrow> ?I (?row x fs)" for x :: "nat \<times> 'a plugin" and fs
    by (cases x, simp, rule fold_invariant [where Q = "\<lambda>_. True"]) auto
  have row_keep: "?I fs \<Longrightarrow> ?P fs \<Longrightarrow> ?P (?row x fs)" for x :: "nat \<times> 'a plugin" and fs
  proof -
    assume a: "?I fs" "?P fs"
    have "?I (?row x fs) \<and> ?P (?row x fs)"
      by (cases x, simp only: prod.case,
          rule fold_invariant [where Q = "\<lambda>_. True" and P = "\<lambda>fs. ?I fs \<and> ?P fs"])
        (use a assms(2) in \<open>auto intro: fill_port_from_stays\<close>)
    then show "?P (?row x fs)" ..
  qed
  show ?thesis
    unfolding fill_flow_info_def
  proof (rule fold_establishes [where I = ?I and x = "(i, plugins ! i)"])
    show "(i, plugins ! i) \<in> set (enumerate 0 plugins)"
      using assms(1) by (simp add: set_enumerate0 end_ok_def)
    show "?P (?row (i, plugins ! i) fs)" if "?I fs" for fs
      unfolding prod.case
      by (rule fold_establishes [where I = ?I and x = "(j, pl_ports (plugins ! i) ! j)"])
        (use assms that in
          \<open>auto simp: set_enumerate0 end_ok_def fill_port_from intro: fill_port_from_stays\<close>)
  qed (use row_len row_keep in auto)
qed

lemma ini_create_secs:
  assumes "dict_inv dict"
  shows "map (\<lambda>i. iniparser_getsecname (Some dict) (int i)) [0..<nat (iniparser_getnsec (Some dict))] =
    map Some (section_keys dict)"
  using getsecname_nth [OF dict_invD(2) [OF assms]]
  by (intro nth_equalityI) (simp_all add: getnsec_length)

subsection \<open>Properties\<close>

text \<open>A source feeding a sink, as a configuration and as a graph, for the examples.\<close>

definition demo_entries :: "(string \<times> string option) list" where
  "demo_entries =
     [(''in'', None), (''in:library'', Some ''builtin''), (''in:label'', Some ''source''),
      (''in:purpose'', Some ''playback''), (''in:output_0'', Some ''{x}''),
      (''out'', None), (''out:library'', Some ''builtin''), (''out:label'', Some ''sink''),
      (''out:purpose'', Some ''playback''), (''out:input_0'', Some ''{x}'')]"

definition demo_plugin :: "string \<Rightarrow> string \<Rightarrow> port_direction \<Rightarrow> int plugin" where
  "demo_plugin title label dir =
     \<lparr>pl_title = title, pl_library = Some ''builtin'', pl_label = Some label, pl_purpose = Some ''playback'',
      pl_disable_expr = None,
      pl_ports = [\<lparr>pt_direction = dir, pt_type = PORT_AUDIO, pt_flow_id = Some 0, pt_init_value = 0\<rparr>]\<rparr>"

definition demo_ini :: "int ini" where
  "demo_ini =
     \<lparr>ini_dict = dict_of demo_entries,
      ini_plugins = [demo_plugin ''in'' ''source'' PORT_OUTPUT, demo_plugin ''out'' ''sink'' PORT_INPUT],
      ini_flows = [\<lparr>fl_type = PORT_AUDIO, fl_name = ''{x}'', fl_from = Some 0, fl_to = Some 1,
                    fl_from_port = 0, fl_to_port = 0\<rparr>]\<rparr>"

lemma demo_dict_inv: "dict_inv (dict_of demo_entries)"
  by (rule dict_of_inv) (simp_all add: demo_entries_def)

lemma str_opt_ptr_of: "str_opt (ptr_of v) = v"
  by (cases v) simp_all

lemma demo_getstring:
  "getstring (dict_of demo_entries) sec_name key =
     (case map_of demo_entries (lwc (snprintf MAX_INI_KEY_LENGTH (sec_name @ '':'' @ key))) of
        Some v \<Rightarrow> v | None \<Rightarrow> None)"
proof -
  have "dict_map (dict_of demo_entries) = map_of demo_entries"
    by (rule dict_of_map) (simp add: demo_entries_def)
  then show ?thesis
    by (simp add: getstring_def iniparser_getstring_def strlwc_def dictionary_get_map [OF demo_dict_inv] Let_def
        str_opt_ptr_of split: option.split)
qed

lemma demo_sections: "section_keys (dict_of demo_entries) = [''in'', ''out'']"
  by (simp add: section_keys_def used_keys_def dict_of_def demo_entries_def is_section_key_def upt_rec)

lemma demo_lookup:
  "getstring (dict_of demo_entries) ''in'' ''library'' = Some ''builtin''"
  "getstring (dict_of demo_entries) ''in'' ''label'' = Some ''source''"
  "getstring (dict_of demo_entries) ''in'' ''purpose'' = Some ''playback''"
  "getstring (dict_of demo_entries) ''in'' ''disable'' = None"
  "getstring (dict_of demo_entries) ''in'' (port_key ''input'' 0) = None"
  "getstring (dict_of demo_entries) ''in'' (port_key ''output'' 0) = Some ''{x}''"
  "getstring (dict_of demo_entries) ''in'' (port_key ''input'' 1) = None"
  "getstring (dict_of demo_entries) ''in'' (port_key ''output'' 1) = None"
  "getstring (dict_of demo_entries) ''out'' ''library'' = Some ''builtin''"
  "getstring (dict_of demo_entries) ''out'' ''label'' = Some ''sink''"
  "getstring (dict_of demo_entries) ''out'' ''purpose'' = Some ''playback''"
  "getstring (dict_of demo_entries) ''out'' ''disable'' = None"
  "getstring (dict_of demo_entries) ''out'' (port_key ''input'' 0) = Some ''{x}''"
  "getstring (dict_of demo_entries) ''out'' (port_key ''input'' 1) = None"
  "getstring (dict_of demo_entries) ''out'' (port_key ''output'' 1) = None"
  unfolding demo_getstring by code_simp+

lemma demo_parse:
  "parse_plugin_section (\<lambda>_. 0) 0 (dict_of demo_entries) ''in'' [] =
     Some ([new_flow ''{x}''], demo_plugin ''in'' ''source'' PORT_OUTPUT)"
  "parse_plugin_section (\<lambda>_. 0) 0 (dict_of demo_entries) ''out'' [new_flow ''{x}''] =
     Some ([new_flow ''{x}''], demo_plugin ''out'' ''sink'' PORT_INPUT)"
  by (simp_all add: parse_plugin_section_def parse_ports_def demo_lookup MAX_NR_PORT_def eval_nat_numeral
      lookup_or_add_flow_def lookup_flow_def new_flow_def demo_plugin_def cras_expr_expression_parse_def
      demo_lookup [simplified])

lemma demo_create: "cras_dsp_ini_create (\<lambda>_. 0) 0 True (Some (dict_of demo_entries)) = Some demo_ini"
  unfolding cras_dsp_ini_create_def Let_def ini_create_secs [OF demo_dict_inv] demo_sections option.case
  by (simp add: demo_parse) (simp add: demo_ini_def fill_flow_info_def fill_port_def new_flow_def demo_plugin_def)

text \<open>
  C4. Every graph that is built from a well-formed dictionary is well formed: unique flow names,
  port flow ids in range, at most 128 ports per plugin, library and label present, one plugin
  per section in the order of the sections, and both ends of every flow are ports of the right
  direction that carry this flow. A flow that some output port carries has an origin.
\<close>

theorem ini_create_well_formed:
  assumes "dict_inv dict" "cras_dsp_ini_create strtof zero ok (Some dict) = Some ini"
  shows "ini_wf ini \<and> map pl_title (ini_plugins ini) = section_keys dict \<and>
    (\<forall>f i j. end_ok (ini_plugins ini) f PORT_OUTPUT i j \<longrightarrow> fl_from (ini_flows ini ! f) \<noteq> None)"
proof -
  obtain flows where ps: "parse_sections strtof zero dict (map Some (section_keys dict)) [] [] =
      Some (flows, ini_plugins ini)" and fl: "ini_flows ini = fill_flow_info (ini_plugins ini) flows"
    using assms(2) ini_create_secs [OF assms(1)]
    by (auto simp: cras_dsp_ini_create_def Let_def split: if_splits option.splits prod.splits)
  have "flows_new []" by (simp add: flows_new_def names_ok_def)
  note ok = parse_sections_ok [OF ps this, simplified]
  then have "names_ok flows" and "links_ok (ini_plugins ini) flows"
    by (auto simp: flows_new_def links_ok_def)
  note fill = fill_flow_info_ok [OF this]
  have "map pl_title (ini_plugins ini) = section_keys dict"
    using ok by (metis (no_types, lifting) map_map option.inject inj_map_eq_map inj_onI)
  moreover have "fl_from (ini_flows ini ! f) \<noteq> None" if "end_ok (ini_plugins ini) f PORT_OUTPUT i j" for f i j
  proof -
    have "ports_ok (length flows) (pl_ports (ini_plugins ini ! i))"
      using that ok by (simp add: end_ok_def)
    then have "f < length flows"
      using that nth_mem unfolding end_ok_def ports_ok_def by blast
    then show ?thesis unfolding fl by (rule fill_flow_info_complete [OF that])
  qed
  ultimately show ?thesis
    using ok fill fl unfolding ini_wf_def by auto
qed

theorem ini_create_well_formed_witness:
  "ini_wf demo_ini \<and> map pl_title (ini_plugins demo_ini) = [''in'', ''out'']"
  using ini_create_well_formed [OF demo_dict_inv demo_create] by (simp add: demo_ini_def demo_plugin_def)

end
