(* ===== verification/Dsp_Module.thy ===== *)
theory Dsp_Module
  imports Dsp_Ini
begin

text \<open>
  The interface of a DSP module, \<^verbatim>\<open>audio/hal/cras_dsp_module.h\<close>: the table of functions a pipeline
  calls, and the memory these functions work on.
\<close>

subsection \<open>Memory\<close>

text \<open>
  Where a port's data is: an audio buffer of the pipeline, or the value of an input or output control
  port (instance, port).
\<close>

datatype data_location = Loc_Buffer nat | Loc_Control_In nat nat | Loc_Control_Out nat nat

record 'f store =
  st_buffers :: "'f list list"
  st_controls :: "data_location \<Rightarrow> 'f"

text \<open>
  Faults: the private data is missing or freed, a port number is outside the port table, a port that
  is needed is not connected, an audio port is connected to a single value, a buffer is too short, two
  output ports share a buffer (which the model does not follow), or the effect itself fails.
\<close>

datatype mod_fault = No_Data | Bad_Port | Null_Port | Not_Audio | Out_Of_Range | Same_Buffer | Effect_Fault

subsection \<open>The function table\<close>

text \<open>
  \<^verbatim>\<open>struct dsp_module\<close> for modules of type \<open>'m\<close>, and the loader
  \<^verbatim>\<open>cras_dsp_module_load_builtin\<close>. \<^verbatim>\<open>free_module\<close> only returns memory.
\<close>

record ('m, 'f) module_ops =
  mo_instantiate :: "'m \<Rightarrow> int \<Rightarrow> int \<times> 'm"
  mo_connect_port :: "'m \<Rightarrow> nat \<Rightarrow> data_location \<Rightarrow> mod_fault + 'm"
  mo_get_delay :: "'m \<Rightarrow> mod_fault + int"
  mo_run :: "'m \<Rightarrow> nat \<Rightarrow> 'f store \<Rightarrow> mod_fault + 'm \<times> 'f store"
  mo_deinstantiate :: "'m \<Rightarrow> mod_fault + 'm"
  mo_get_properties :: "'m \<Rightarrow> int"
  mo_load :: "'f plugin \<Rightarrow> 'm option"

definition MODULE_INPLACE_BROKEN :: int where
  "MODULE_INPLACE_BROKEN = 1"

text \<open>\<^verbatim>\<open>properties & MODULE_INPLACE_BROKEN\<close>: the lowest bit.\<close>

definition inplace_broken :: "int \<Rightarrow> bool" where
  "inplace_broken properties \<longleftrightarrow> odd properties"

text \<open>The shape of a memory: how many buffers, how long each, and the control values.\<close>

definition same_shape :: "'f store \<Rightarrow> 'f store \<Rightarrow> bool" where
  "same_shape s s' \<longleftrightarrow>
     map length (st_buffers s') = map length (st_buffers s) \<and> st_controls s' = st_controls s"

lemma same_shape_refl [simp]: "same_shape s s"
  by (simp add: same_shape_def)

lemma same_shape_trans: "same_shape a b \<Longrightarrow> same_shape b c \<Longrightarrow> same_shape a c"
  by (simp add: same_shape_def)

lemma same_shape_lengths:
  assumes "same_shape s s'"
  shows "length (st_buffers s') = length (st_buffers s)"
    and "b < length (st_buffers s) \<Longrightarrow> length (st_buffers s' ! b) = length (st_buffers s ! b)"
  using assms unfolding same_shape_def by (metis length_map, metis length_map nth_map)

subsection \<open>The contract of modules\<close>

text \<open>
  What the pipeline relies on. \<open>conns m\<close> are the locations the ports of a module are connected to.
  Connecting a port adds its location at most; running a module keeps its connections, the shape of
  the memory and the control values, and writes to no buffer its ports are not connected to.
\<close>

locale dsp_modules =
  fixes ops :: "('m, 'f) module_ops"
    and conns :: "'m \<Rightarrow> data_location set"
  assumes connect_adds: "mo_connect_port ops m p l = Inr m' \<Longrightarrow> conns m' \<subseteq> insert l (conns m)"
    and instantiate_clear: "mo_instantiate ops m rate = (0, m') \<Longrightarrow> conns m' = {}"
    and run_conns: "mo_run ops m n s = Inr (m', s') \<Longrightarrow> conns m' = conns m"
    and run_shape: "mo_run ops m n s = Inr (m', s') \<Longrightarrow> same_shape s s'"
    and run_frame: "mo_run ops m n s = Inr (m', s') \<Longrightarrow> Loc_Buffer b \<notin> conns m \<Longrightarrow>
      st_buffers s' ! b = st_buffers s ! b"

end
