(* ===== verification/Dsp_Pipeline.thy ===== *)
theory Dsp_Pipeline
  imports Dsp_Ini
begin

text \<open>
  The dynamic DSP pipeline of \<^verbatim>\<open>audio/hal/cras_dsp_pipeline.c\<close>: construction of the instances
  in dependency order from the static graph, and the assignment of audio buffers to ports.
  A pointer to an instance is its index in the instance array, and a pointer to a port is the
  index of its instance and its index in that instance's port array. \<open>'m\<close> is the type of the
  loaded modules.
\<close>

subsection \<open>Data\<close>

record audio_port =
  ap_peer :: "(nat \<times> nat) option"
  ap_plugin :: nat
  ap_original_index :: nat
  ap_buf_index :: nat

record 'f control_port =
  cp_peer :: "(nat \<times> nat) option"
  cp_plugin :: nat
  cp_original_index :: nat
  cp_value :: 'f

record ('f, 'm) dsp_instance =
  in_plugin :: nat
  in_input_audio_ports :: "audio_port list"
  in_output_audio_ports :: "audio_port list"
  in_input_control_ports :: "'f control_port list"
  in_output_control_ports :: "'f control_port list"
  in_module :: "'m option"
  in_instantiated :: bool
  in_properties :: int
  in_total_delay :: int

record ('f, 'm) pipeline =
  pp_purpose :: string
  pp_ini :: "'f ini"
  pp_instances :: "('f, 'm) dsp_instance list"
  pp_peak_buf :: int
  pp_buffers :: "'f list list"
  pp_source_instance :: "nat option"
  pp_sink_instance :: "nat option"
  pp_input_channels :: nat
  pp_output_channels :: nat
  pp_sample_rate :: int
  pp_total_time :: int
  pp_max_time :: int
  pp_min_time :: int
  pp_total_blocks :: int
  pp_total_samples :: int

subsection \<open>Finding instances and ports\<close>

definition find_instance_by_plugin :: "('f, 'm) dsp_instance list \<Rightarrow> nat \<Rightarrow> nat option" where
  "find_instance_by_plugin instances plugin =
     find (\<lambda>i. in_plugin (instances ! i) = plugin) [0..<length instances]"

text \<open>
  What a search for the origin of a port ends with: a port, the return of \<open>-1\<close>, or a read
  through a NULL plugin pointer. The search itself need not end: \<open>None\<close>.
\<close>

datatype origin = Origin nat nat | No_Origin | Null_Plugin

text \<open>
  The position of output port \<open>index\<close> among the output ports of its type: the number of output
  ports of that type in front of it.
\<close>

definition output_rank :: "'f port list \<Rightarrow> port_type \<Rightarrow> nat \<Rightarrow> nat option" where
  "output_rank ports type index =
     (if index < length ports
      then Some (length (filter (\<lambda>p. pt_direction p = PORT_OUTPUT \<and> pt_type p = type) (take index ports)))
      else None)"

text \<open>The index of the \<open>k\<close>-th input port of a type.\<close>

fun kth_input :: "'f port list \<Rightarrow> port_type \<Rightarrow> nat \<Rightarrow> nat \<Rightarrow> nat option" where
  "kth_input [] type k i = None"
| "kth_input (p # ps) type k i =
     (if pt_direction p = PORT_INPUT \<and> pt_type p = type
      then (if k = 0 then Some i else kth_input ps type (k - 1) (Suc i))
      else kth_input ps type k (Suc i))"

partial_function (option) find_origin_port ::
  "'f ini \<Rightarrow> ('f, 'm) dsp_instance list \<Rightarrow> nat \<Rightarrow> nat \<Rightarrow> origin option" where
  "find_origin_port ini instances plugin index =
     (let port = pl_ports (ini_plugins ini ! plugin) ! index; type = pt_type port
      in case pt_flow_id port of
           None \<Rightarrow> Some No_Origin
         | Some flow_id \<Rightarrow>
             (let flow = ini_flows ini ! flow_id
              in case fl_from flow of
                   None \<Rightarrow> Some Null_Plugin
                 | Some from \<Rightarrow>
                     if find_instance_by_plugin instances from \<noteq> None
                     then Some (Origin from (fl_from_port flow))
                     else (case output_rank (pl_ports (ini_plugins ini ! from)) type (fl_from_port flow) of
                             None \<Rightarrow> Some No_Origin
                           | Some k \<Rightarrow>
                               (case kth_input (pl_ports (ini_plugins ini ! from)) type k 0 of
                                  None \<Rightarrow> Some No_Origin
                                | Some i \<Rightarrow> find_origin_port ini instances from i))))"

declare find_origin_port.simps [code]

definition find_output_audio_port ::
  "('f, 'm) dsp_instance list \<Rightarrow> nat \<Rightarrow> nat \<Rightarrow> (nat \<times> nat) option" where
  "find_output_audio_port instances plugin index =
     (case find_instance_by_plugin instances plugin of
        None \<Rightarrow> None
      | Some a \<Rightarrow>
          (let ports = in_output_audio_ports (instances ! a)
           in map_option (\<lambda>k. (a, k))
                (find (\<lambda>k. ap_original_index (ports ! k) = index) [0..<length ports])))"

definition find_output_control_port ::
  "('f, 'm) dsp_instance list \<Rightarrow> nat \<Rightarrow> nat \<Rightarrow> (nat \<times> nat) option" where
  "find_output_control_port instances plugin index =
     (case find_instance_by_plugin instances plugin of
        None \<Rightarrow> None
      | Some a \<Rightarrow>
          (let ports = in_output_control_ports (instances ! a)
           in map_option (\<lambda>k. (a, k))
                (find (\<lambda>k. cp_original_index (ports ! k) = index) [0..<length ports])))"

definition is_disabled :: "'f plugin \<Rightarrow> cras_expr_env \<Rightarrow> bool" where
  "is_disabled plugin env =
     (case pl_disable_expr plugin of
        None \<Rightarrow> False
      | Some e \<Rightarrow>
          (case cras_expr_expression_eval_boolean e env False of
             (rc, disabled) \<Rightarrow> rc = 0 \<and> disabled))"

subsection \<open>Construction in dependency order\<close>

text \<open>A zeroed instance for a plugin, and the two kinds of zeroed ports.\<close>

definition new_instance :: "nat \<Rightarrow> ('f, 'm) dsp_instance" where
  "new_instance plugin =
     \<lparr>in_plugin = plugin, in_input_audio_ports = [], in_output_audio_ports = [],
      in_input_control_ports = [], in_output_control_ports = [], in_module = None,
      in_instantiated = False, in_properties = 0, in_total_delay = 0\<rparr>"

definition new_audio_port :: "nat \<Rightarrow> nat \<Rightarrow> (nat \<times> nat) option \<Rightarrow> audio_port" where
  "new_audio_port plugin i peer =
     \<lparr>ap_peer = peer, ap_plugin = plugin, ap_original_index = i, ap_buf_index = 0\<rparr>"

definition new_control_port :: "nat \<Rightarrow> nat \<Rightarrow> 'f \<Rightarrow> (nat \<times> nat) option \<Rightarrow> 'f control_port" where
  "new_control_port plugin i v peer =
     \<lparr>cp_peer = peer, cp_plugin = plugin, cp_original_index = i, cp_value = v\<rparr>"

text \<open>
  Faults of the construction: a NULL plugin read through, a search that never ends, and the
  recursion bound of the model used up (which \<open>topological_sort_fuel\<close> rules out).
\<close>

datatype pipe_fault = Fault_Null_Plugin | Fault_Endless | Fault_Fuel

definition upd_last :: "('a \<Rightarrow> 'a) \<Rightarrow> 'a list \<Rightarrow> 'a list" where
  "upd_last f xs = xs[length xs - 1 := f (last xs)]"

definition set_audio_peer :: "nat \<times> nat \<Rightarrow> nat \<times> nat \<Rightarrow> ('f, 'm) dsp_instance list \<Rightarrow> ('f, 'm) dsp_instance list" where
  "set_audio_peer p peer instances =
     (case p of (a, k) \<Rightarrow>
        instances[a := (instances ! a)\<lparr>in_output_audio_ports :=
           (in_output_audio_ports (instances ! a))[k :=
              (in_output_audio_ports (instances ! a) ! k)\<lparr>ap_peer := Some peer\<rparr>]\<rparr>])"

definition set_control_peer :: "nat \<times> nat \<Rightarrow> nat \<times> nat \<Rightarrow> ('f, 'm) dsp_instance list \<Rightarrow> ('f, 'm) dsp_instance list" where
  "set_control_peer p peer instances =
     (case p of (a, k) \<Rightarrow>
        instances[a := (instances ! a)\<lparr>in_output_control_ports :=
           (in_output_control_ports (instances ! a))[k :=
              (in_output_control_ports (instances ! a) ! k)\<lparr>cp_peer := Some peer\<rparr>]\<rparr>])"

text \<open>
  One port of the second loop of \<^verbatim>\<open>topological_sort\<close>, for the instance at the end of the
  array. \<open>Inr None\<close> is the return of \<open>-1\<close>.
\<close>

definition build_port ::
  "'f ini \<Rightarrow> nat \<Rightarrow> nat \<Rightarrow> 'f port \<Rightarrow> ('f, 'm) dsp_instance list
     \<Rightarrow> pipe_fault + ('f, 'm) dsp_instance list option" where
  "build_port ini plugin i port instances =
     (let need_connect = (pt_flow_id port \<noteq> None \<and> pt_direction port = PORT_INPUT);
          this = length instances - 1
      in case (if need_connect then find_origin_port ini instances plugin i
               else Some (Origin 0 0)) of
           None \<Rightarrow> Inl Fault_Endless
         | Some Null_Plugin \<Rightarrow> Inl Fault_Null_Plugin
         | Some No_Origin \<Rightarrow> Inr None
         | Some (Origin origin origin_index) \<Rightarrow>
             (if pt_type port = PORT_AUDIO then
                (if \<not> need_connect then
                   Inr (Some (upd_last (\<lambda>a.
                     if pt_direction port = PORT_INPUT
                     then a\<lparr>in_input_audio_ports := in_input_audio_ports a @ [new_audio_port plugin i None]\<rparr>
                     else a\<lparr>in_output_audio_ports := in_output_audio_ports a @ [new_audio_port plugin i None]\<rparr>)
                     instances))
                 else
                   (case find_output_audio_port instances origin origin_index of
                      None \<Rightarrow> Inr None
                    | Some from \<Rightarrow>
                        Inr (Some (set_audio_peer from (this, length (in_input_audio_ports (instances ! this)))
                          (upd_last (\<lambda>a. a\<lparr>in_input_audio_ports :=
                             in_input_audio_ports a @ [new_audio_port plugin i (Some from)]\<rparr>) instances)))))
              else
                (if \<not> need_connect then
                   Inr (Some (upd_last (\<lambda>a.
                     if pt_direction port = PORT_INPUT
                     then a\<lparr>in_input_control_ports := in_input_control_ports a @
                             [new_control_port plugin i (pt_init_value port) None]\<rparr>
                     else a\<lparr>in_output_control_ports := in_output_control_ports a @
                             [new_control_port plugin i (pt_init_value port) None]\<rparr>)
                     instances))
                 else
                   (case find_output_control_port instances origin origin_index of
                      None \<Rightarrow> Inr None
                    | Some from \<Rightarrow>
                        Inr (Some (set_control_peer from (this, length (in_input_control_ports (instances ! this)))
                          (upd_last (\<lambda>a. a\<lparr>in_input_control_ports := in_input_control_ports a @
                             [new_control_port plugin i (pt_init_value port) (Some from)]\<rparr>) instances)))))))"

fun build_ports ::
  "'f ini \<Rightarrow> nat \<Rightarrow> nat \<Rightarrow> 'f port list \<Rightarrow> ('f, 'm) dsp_instance list
     \<Rightarrow> pipe_fault + ('f, 'm) dsp_instance list option" where
  "build_ports ini plugin i [] instances = Inr (Some instances)"
| "build_ports ini plugin i (port # ports) instances =
     (case build_port ini plugin i port instances of
        Inl e \<Rightarrow> Inl e
      | Inr None \<Rightarrow> Inr None
      | Inr (Some instances') \<Rightarrow> build_ports ini plugin (Suc i) ports instances')"

type_synonym ('f, 'm) topo_state = "bool list \<times> ('f, 'm) dsp_instance list"

text \<open>
  \<^verbatim>\<open>topological_sort\<close>; \<open>visit_ports\<close> is its first loop. The first argument bounds the depth of
  the recursion. \<open>Inr None\<close> is the return of \<open>-1\<close>.
\<close>

fun topological_sort ::
    "nat \<Rightarrow> 'f ini \<Rightarrow> cras_expr_env \<Rightarrow> ('f, 'm) topo_state \<Rightarrow> nat
       \<Rightarrow> pipe_fault + ('f, 'm) topo_state option"
  and visit_ports ::
    "nat \<Rightarrow> 'f ini \<Rightarrow> cras_expr_env \<Rightarrow> ('f, 'm) topo_state \<Rightarrow> 'f port list
       \<Rightarrow> pipe_fault + ('f, 'm) topo_state option"
where
  "topological_sort 0 ini env st plugin = Inl Fault_Fuel"
| "topological_sort (Suc fuel) ini env st plugin =
     (if fst st ! plugin then Inr (Some st)
      else
        (case visit_ports fuel ini env ((fst st)[plugin := True], snd st)
                (pl_ports (ini_plugins ini ! plugin)) of
           Inl e \<Rightarrow> Inl e
         | Inr None \<Rightarrow> Inr None
         | Inr (Some (visited, instances)) \<Rightarrow>
             (if is_disabled (ini_plugins ini ! plugin) env then Inr (Some (visited, instances))
              else
                (case build_ports ini plugin 0 (pl_ports (ini_plugins ini ! plugin))
                        (instances @ [new_instance plugin]) of
                   Inl e \<Rightarrow> Inl e
                 | Inr None \<Rightarrow> Inr None
                 | Inr (Some instances') \<Rightarrow> Inr (Some (visited, instances'))))))"
| "visit_ports fuel ini env st [] = Inr (Some st)"
| "visit_ports fuel ini env st (port # ports) =
     (case pt_flow_id port of
        None \<Rightarrow> visit_ports fuel ini env st ports
      | Some flow_id \<Rightarrow>
          (case fl_from (ini_flows ini ! flow_id) of
             None \<Rightarrow> Inr None
           | Some from \<Rightarrow>
               (case topological_sort fuel ini env st from of
                  Inl e \<Rightarrow> Inl e
                | Inr None \<Rightarrow> Inr None
                | Inr (Some st') \<Rightarrow> visit_ports fuel ini env st' ports)))"

text \<open>
  \<^verbatim>\<open>find_enabled_builtin_plugin\<close>: the loop returns NULL at once when a second match turns up.
\<close>

definition builtin_match ::
  "string \<Rightarrow> string \<Rightarrow> cras_expr_env \<Rightarrow> 'f plugin \<Rightarrow> bool" where
  "builtin_match label purpose env plugin \<longleftrightarrow>
     pl_library plugin = Some ''builtin'' \<and> pl_label plugin = Some label \<and>
     pl_purpose plugin = Some purpose \<and> \<not> is_disabled plugin env"

fun find_enabled_loop ::
  "string \<Rightarrow> string \<Rightarrow> cras_expr_env \<Rightarrow> 'f plugin list \<Rightarrow> nat \<Rightarrow> nat option \<Rightarrow> nat option" where
  "find_enabled_loop label purpose env [] i found = found"
| "find_enabled_loop label purpose env (p # ps) i found =
     (if \<not> builtin_match label purpose env p then find_enabled_loop label purpose env ps (Suc i) found
      else (case found of
              Some _ \<Rightarrow> None
            | None \<Rightarrow> find_enabled_loop label purpose env ps (Suc i) (Some i)))"

definition find_enabled_builtin_plugin ::
  "'f ini \<Rightarrow> string \<Rightarrow> string \<Rightarrow> cras_expr_env \<Rightarrow> nat option" where
  "find_enabled_builtin_plugin ini label purpose env =
     find_enabled_loop label purpose env (ini_plugins ini) 0 None"

text \<open>\<open>Inr None\<close>: NULL is returned.\<close>

definition cras_dsp_pipeline_create ::
  "'f ini \<Rightarrow> cras_expr_env \<Rightarrow> string \<Rightarrow> pipe_fault + ('f, 'm) pipeline option" where
  "cras_dsp_pipeline_create ini env purpose =
     (case (find_enabled_builtin_plugin ini ''source'' purpose env,
            find_enabled_builtin_plugin ini ''sink'' purpose env) of
        (Some source, Some sink) \<Rightarrow>
          (case topological_sort (Suc (length (ini_plugins ini))) ini env
                  (replicate (length (ini_plugins ini)) False, []) sink of
             Inl e \<Rightarrow> Inl e
           | Inr None \<Rightarrow> Inr None
           | Inr (Some (visited, instances)) \<Rightarrow>
               (case (find_instance_by_plugin instances source, find_instance_by_plugin instances sink) of
                  (Some si, Some ki) \<Rightarrow>
                    (let ic = length (in_output_audio_ports (instances ! si));
                         oc = length (in_input_audio_ports (instances ! ki))
                     in if oc > ic then Inr None
                        else Inr (Some \<lparr>pp_purpose = purpose, pp_ini = ini, pp_instances = instances,
                               pp_peak_buf = 0, pp_buffers = [], pp_source_instance = Some si,
                               pp_sink_instance = Some ki, pp_input_channels = ic,
                               pp_output_channels = oc, pp_sample_rate = 0, pp_total_time = 0,
                               pp_max_time = 0, pp_min_time = 0, pp_total_blocks = 0,
                               pp_total_samples = 0\<rparr>))
                | _ \<Rightarrow> Inr None))
      | _ \<Rightarrow> Inr None)"

subsection \<open>The recursion bound is large enough\<close>

definition unvisited :: "bool list \<Rightarrow> nat" where
  "unvisited vs = length (filter Not vs)"

lemma unvisited_mark: "i < length vs \<Longrightarrow> \<not> vs ! i \<Longrightarrow> Suc (unvisited (vs[i := True])) = unvisited vs"
proof (induction vs arbitrary: i)
  case (Cons v vs)
  then show ?case by (cases i) (auto simp: unvisited_def)
qed simp

lemma build_port_no_fuel: "build_port ini plugin i port insts \<noteq> Inl Fault_Fuel"
  by (auto simp: build_port_def Let_def split: option.split origin.split)

lemma build_ports_no_fuel: "build_ports ini plugin i ports insts \<noteq> Inl Fault_Fuel"
  by (induction ini plugin i ports insts rule: build_ports.induct)
    (auto simp: build_port_no_fuel split: sum.split option.split)

text \<open>A state whose visit marks fit the graph, and how visits change it.\<close>

definition marks_ok :: "'f ini \<Rightarrow> bool list \<Rightarrow> bool" where
  "marks_ok ini vs \<longleftrightarrow> length vs = length (ini_plugins ini)"

definition flows_end_in :: "'f ini \<Rightarrow> 'f port list \<Rightarrow> bool" where
  "flows_end_in ini ports \<longleftrightarrow>
     (\<forall>p \<in> set ports. \<forall>f q. pt_flow_id p = Some f \<longrightarrow> fl_from (ini_flows ini ! f) = Some q \<longrightarrow>
        q < length (ini_plugins ini))"

lemma ini_wf_flows_end:
  assumes "ini_wf ini" "p < length (ini_plugins ini)"
  shows "flows_end_in ini (pl_ports (ini_plugins ini ! p))"
proof -
  have "ports_ok (length (ini_flows ini)) (pl_ports (ini_plugins ini ! p))"
    using assms by (simp add: ini_wf_def)
  then show ?thesis
    using assms by (auto simp: flows_end_in_def ports_ok_def ini_wf_def links_ok_def end_ok_def)
qed

lemma sort_bounded:
  "ini_wf ini \<Longrightarrow> marks_ok ini (fst st) \<Longrightarrow> plugin < length (ini_plugins ini) \<Longrightarrow>
      unvisited (fst st) < fuel \<Longrightarrow>
      topological_sort fuel ini env st plugin \<noteq> Inl Fault_Fuel \<and>
      (\<forall>st'. topological_sort fuel ini env st plugin = Inr (Some st') \<longrightarrow>
         marks_ok ini (fst st') \<and> unvisited (fst st') \<le> unvisited (fst st))"
  "ini_wf ini \<Longrightarrow> marks_ok ini (fst st) \<Longrightarrow> flows_end_in ini ports \<Longrightarrow>
      unvisited (fst st) < fuel \<Longrightarrow>
      visit_ports fuel ini env st ports \<noteq> Inl Fault_Fuel \<and>
      (\<forall>st'. visit_ports fuel ini env st ports = Inr (Some st') \<longrightarrow>
         marks_ok ini (fst st') \<and> unvisited (fst st') \<le> unvisited (fst st))"
proof (induction fuel ini env st plugin and fuel ini env st ports
    rule: topological_sort_visit_ports.induct)
  case (2 fuel ini env st plugin)
  show ?case
  proof (cases "fst st ! plugin")
    case False
    let ?st = "((fst st)[plugin := True], snd st)"
    have "plugin < length (fst st)" using "2.prems" by (simp add: marks_ok_def)
    with False have un: "Suc (unvisited (fst ?st)) = unvisited (fst st)"
      by (simp add: unvisited_mark)
    have "marks_ok ini (fst ?st)" using "2.prems" by (simp add: marks_ok_def)
    from "2.IH" [OF False "2.prems"(1) this ini_wf_flows_end [OF "2.prems"(1,3)]] un "2.prems"(4) False
    show ?thesis
      by (auto simp: build_ports_no_fuel split: sum.splits option.splits if_splits)
  qed (use "2.prems" in auto)
next
  case (4 fuel ini env st port ports)
  have rest: "flows_end_in ini ports" using "4.prems"(3) by (simp add: flows_end_in_def)
  show ?case
  proof (cases "pt_flow_id port")
    case None
    with "4.IH"(1) "4.prems" rest show ?thesis by simp
  next
    case (Some f)
    show ?thesis
    proof (cases "fl_from (ini_flows ini ! f)")
      case None
      with Some show ?thesis by simp
    next
      case src: (Some q)
      then have "q < length (ini_plugins ini)"
        using "4.prems"(3) Some by (simp add: flows_end_in_def)
      note ih = "4.IH"(2) [OF Some src "4.prems"(1,2) this "4.prems"(4)]
      show ?thesis
      proof (cases "topological_sort fuel ini env st q")
        case (Inr r)
        show ?thesis
        proof (cases r)
          case (Some st')
          with Inr ih have m: "marks_ok ini (fst st')" "unvisited (fst st') \<le> unvisited (fst st)"
            by auto
          with "4.prems"(4) have "unvisited (fst st') < fuel" by simp
          from "4.IH"(3) [OF \<open>pt_flow_id port = Some f\<close> src Inr Some "4.prems"(1) m(1) rest this] m
          show ?thesis using \<open>pt_flow_id port = Some f\<close> src Inr Some by auto
        qed (use Inr Some src in auto)
      qed (use Some src ih in auto)
    qed
  qed
qed auto

subsection \<open>Peers point backwards\<close>

text \<open>
  The peer of an input port of instance \<open>a\<close>: an output port of an instance that is not behind
  \<open>a\<close> in the array.
\<close>

definition audio_peer_ok :: "('f, 'm) dsp_instance list \<Rightarrow> nat \<Rightarrow> nat \<times> nat \<Rightarrow> bool" where
  "audio_peer_ok insts a q \<longleftrightarrow>
     fst q \<le> a \<and> snd q < length (in_output_audio_ports (insts ! fst q))"

definition control_peer_ok :: "('f, 'm) dsp_instance list \<Rightarrow> nat \<Rightarrow> nat \<times> nat \<Rightarrow> bool" where
  "control_peer_ok insts a q \<longleftrightarrow>
     fst q \<le> a \<and> snd q < length (in_output_control_ports (insts ! fst q))"

definition insts_ok :: "('f, 'm) dsp_instance list \<Rightarrow> bool" where
  "insts_ok insts \<longleftrightarrow>
     (\<forall>a < length insts.
        (\<forall>p \<in> set (in_input_audio_ports (insts ! a)). \<exists>q. ap_peer p = Some q \<and> audio_peer_ok insts a q) \<and>
        (\<forall>p \<in> set (in_input_control_ports (insts ! a)). \<forall>q. cp_peer p = Some q \<longrightarrow> control_peer_ok insts a q))"

lemma insts_okI:
  assumes "\<And>a p. a < length insts \<Longrightarrow> p \<in> set (in_input_audio_ports (insts ! a)) \<Longrightarrow>
      \<exists>q. ap_peer p = Some q \<and> audio_peer_ok insts a q"
    and "\<And>a p q. a < length insts \<Longrightarrow> p \<in> set (in_input_control_ports (insts ! a)) \<Longrightarrow>
      cp_peer p = Some q \<Longrightarrow> control_peer_ok insts a q"
  shows "insts_ok insts"
  using assms by (simp add: insts_ok_def)

lemma insts_okD:
  assumes "insts_ok insts" "a < length insts"
  shows "p \<in> set (in_input_audio_ports (insts ! a)) \<Longrightarrow> \<exists>q. ap_peer p = Some q \<and> audio_peer_ok insts a q"
    and "c \<in> set (in_input_control_ports (insts ! a)) \<Longrightarrow> cp_peer c = Some q \<Longrightarrow> control_peer_ok insts a q"
  using assms unfolding insts_ok_def by blast+

text \<open>
  \<open>grows insts insts'\<close>: the same plugins, and no output port disappears. The inputs of all
  instances but the last are untouched.
\<close>

definition grows :: "('f, 'm) dsp_instance list \<Rightarrow> ('f, 'm) dsp_instance list \<Rightarrow> bool" where
  "grows insts insts' \<longleftrightarrow>
     length insts' = length insts \<and>
     (\<forall>a < length insts.
        in_plugin (insts' ! a) = in_plugin (insts ! a) \<and>
        length (in_output_audio_ports (insts ! a)) \<le> length (in_output_audio_ports (insts' ! a)) \<and>
        length (in_output_control_ports (insts ! a)) \<le> length (in_output_control_ports (insts' ! a)) \<and>
        (Suc a < length insts \<longrightarrow>
           in_input_audio_ports (insts' ! a) = in_input_audio_ports (insts ! a) \<and>
           in_input_control_ports (insts' ! a) = in_input_control_ports (insts ! a)))"

lemma grows_plugins: "grows insts insts' \<Longrightarrow> map in_plugin insts' = map in_plugin insts"
  by (auto simp: grows_def intro!: nth_equalityI)

lemma grows_trans: "grows x y \<Longrightarrow> grows y z \<Longrightarrow> grows x z"
  unfolding grows_def by (metis (no_types, lifting) le_trans)

lemma grows_refl [simp]: "grows x x"
  by (simp add: grows_def)

lemma peer_ok_grows:
  assumes "grows insts insts'" "a < length insts"
  shows "audio_peer_ok insts a q \<Longrightarrow> audio_peer_ok insts' a q"
    and "control_peer_ok insts a q \<Longrightarrow> control_peer_ok insts' a q"
  using assms unfolding grows_def audio_peer_ok_def control_peer_ok_def
  by (meson le_less_trans less_le_trans)+

text \<open>Growing keeps the invariant if the inputs the last instance gained have good peers.\<close>

lemma insts_ok_grows:
  assumes "insts_ok insts" "grows insts insts'" "insts \<noteq> []"
    and "\<And>p. p \<in> set (in_input_audio_ports (last insts')) \<Longrightarrow> p \<notin> set (in_input_audio_ports (last insts)) \<Longrightarrow>
      \<exists>q. ap_peer p = Some q \<and> audio_peer_ok insts' (length insts - 1) q"
    and "\<And>p q. p \<in> set (in_input_control_ports (last insts')) \<Longrightarrow> p \<notin> set (in_input_control_ports (last insts)) \<Longrightarrow>
      cp_peer p = Some q \<Longrightarrow> control_peer_ok insts' (length insts - 1) q"
  shows "insts_ok insts'"
proof (rule insts_okI)
  have len: "length insts' = length insts" using assms(2) by (simp add: grows_def)
  then have ne: "insts' \<noteq> []" using assms(3) by auto
  have l: "last insts = insts ! (length insts - 1)" "last insts' = insts' ! (length insts - 1)"
    using assms(3) ne len by (simp_all add: last_conv_nth)
  have same: "Suc a < length insts \<Longrightarrow> in_input_audio_ports (insts' ! a) = in_input_audio_ports (insts ! a) \<and>
      in_input_control_ports (insts' ! a) = in_input_control_ports (insts ! a)" for a
    using assms(2) by (simp add: grows_def)
  { fix a p
    assume a: "a < length insts'" and p: "p \<in> set (in_input_audio_ports (insts' ! a))"
    show "\<exists>q. ap_peer p = Some q \<and> audio_peer_ok insts' a q"
    proof (cases "Suc a < length insts \<or> p \<in> set (in_input_audio_ports (insts ! a))")
      case True
      with same p have "p \<in> set (in_input_audio_ports (insts ! a))" by auto
      with insts_okD(1) [OF assms(1)] peer_ok_grows(1) [OF assms(2)] a len show ?thesis by metis
    next
      case False
      with a len have "a = length insts - 1" by auto
      with assms(4) [of p] p False l show ?thesis by simp
    qed }
  fix a p q
  assume a: "a < length insts'" and p: "p \<in> set (in_input_control_ports (insts' ! a))" "cp_peer p = Some q"
  show "control_peer_ok insts' a q"
  proof (cases "Suc a < length insts \<or> p \<in> set (in_input_control_ports (insts ! a))")
    case True
    with same p have "p \<in> set (in_input_control_ports (insts ! a))" by auto
    with insts_okD(2) [OF assms(1)] peer_ok_grows(2) [OF assms(2)] a len p(2) show ?thesis by metis
  next
    case False
    with a len have "a = length insts - 1" by auto
    with assms(5) [of p q] p False l show ?thesis by simp
  qed
qed

lemma length_upd_last [simp]: "length (upd_last f xs) = length xs"
  by (simp add: upd_last_def)

lemma nth_upd_last:
  "xs \<noteq> [] \<Longrightarrow> a < length xs \<Longrightarrow> upd_last f xs ! a = (if Suc a = length xs then f (xs ! a) else xs ! a)"
  by (auto simp: upd_last_def nth_update_inside last_conv_nth)

lemma length_set_peer [simp]:
  "length (set_audio_peer p q xs) = length xs" "length (set_control_peer p q xs) = length xs"
  by (simp_all add: set_audio_peer_def set_control_peer_def split: prod.split)

lemma set_peer_nth:
  assumes "a < length xs"
  shows "in_plugin (set_audio_peer p q xs ! a) = in_plugin (xs ! a)"
    "in_plugin (set_control_peer p q xs ! a) = in_plugin (xs ! a)"
    "in_input_audio_ports (set_audio_peer p q xs ! a) = in_input_audio_ports (xs ! a)"
    "in_input_audio_ports (set_control_peer p q xs ! a) = in_input_audio_ports (xs ! a)"
    "in_input_control_ports (set_audio_peer p q xs ! a) = in_input_control_ports (xs ! a)"
    "in_input_control_ports (set_control_peer p q xs ! a) = in_input_control_ports (xs ! a)"
    "length (in_output_audio_ports (set_audio_peer p q xs ! a)) = length (in_output_audio_ports (xs ! a))"
    "length (in_output_audio_ports (set_control_peer p q xs ! a)) = length (in_output_audio_ports (xs ! a))"
    "length (in_output_control_ports (set_audio_peer p q xs ! a)) = length (in_output_control_ports (xs ! a))"
    "length (in_output_control_ports (set_control_peer p q xs ! a)) = length (in_output_control_ports (xs ! a))"
  using assms
  by (cases p; auto simp: set_audio_peer_def set_control_peer_def nth_update_inside)+

lemma find_output_audio_port_SomeD:
  assumes "find_output_audio_port insts plugin index = Some q"
  shows "fst q < length insts" "snd q < length (in_output_audio_ports (insts ! fst q))"
    "in_plugin (insts ! fst q) = plugin"
    "ap_original_index (in_output_audio_ports (insts ! fst q) ! snd q) = index"
  using assms
  by (auto simp: find_output_audio_port_def find_instance_by_plugin_def Let_def find_upt_Some split: option.splits)

lemma find_output_control_port_SomeD:
  assumes "find_output_control_port insts plugin index = Some q"
  shows "fst q < length insts" "snd q < length (in_output_control_ports (insts ! fst q))"
    "in_plugin (insts ! fst q) = plugin"
    "cp_original_index (in_output_control_ports (insts ! fst q) ! snd q) = index"
  using assms
  by (auto simp: find_output_control_port_def find_instance_by_plugin_def Let_def find_upt_Some split: option.splits)

text \<open>Changing the last instance, and then the peer of some output port, grows the array.\<close>

lemma grows_upd_last:
  assumes "insts \<noteq> []"
    and "in_plugin (f (last insts)) = in_plugin (last insts)"
    and "length (in_output_audio_ports (last insts)) \<le> length (in_output_audio_ports (f (last insts)))"
    and "length (in_output_control_ports (last insts)) \<le> length (in_output_control_ports (f (last insts)))"
  shows "grows insts (upd_last f insts)"
proof -
  have "last insts = insts ! a" if "Suc a = length insts" for a
    using assms(1) that [symmetric] by (simp add: last_conv_nth)
  with assms show ?thesis by (auto simp: grows_def nth_upd_last)
qed

lemma grows_set_peer:
  "grows insts (set_audio_peer p q insts)" "grows insts (set_control_peer p q insts)"
  by (auto simp: grows_def set_peer_nth)

lemma last_upd_last [simp]: "insts \<noteq> [] \<Longrightarrow> last (upd_last f insts) = f (last insts)"
  by (auto simp: upd_last_def last_conv_nth nth_update_inside)

lemma last_set_peer [simp]:
  assumes "insts \<noteq> []"
  shows "in_input_audio_ports (last (set_audio_peer p q insts)) = in_input_audio_ports (last insts)"
    "in_input_control_ports (last (set_audio_peer p q insts)) = in_input_control_ports (last insts)"
    "in_input_audio_ports (last (set_control_peer p q insts)) = in_input_audio_ports (last insts)"
    "in_input_control_ports (last (set_control_peer p q insts)) = in_input_control_ports (last insts)"
proof -
  have "set_audio_peer p q insts \<noteq> []" "set_control_peer p q insts \<noteq> []"
    using assms length_set_peer [of p q insts] by (metis length_0_conv)+
  then show "in_input_audio_ports (last (set_audio_peer p q insts)) = in_input_audio_ports (last insts)"
    "in_input_control_ports (last (set_audio_peer p q insts)) = in_input_control_ports (last insts)"
    "in_input_audio_ports (last (set_control_peer p q insts)) = in_input_audio_ports (last insts)"
    "in_input_control_ports (last (set_control_peer p q insts)) = in_input_control_ports (last insts)"
    using assms by (simp_all add: last_conv_nth set_peer_nth)
qed

text \<open>The four ways \<^verbatim>\<open>build_port\<close> succeeds.\<close>

lemma build_port_cases:
  assumes "build_port ini plugin i port insts = Inr (Some insts')"
  obtains (audio_open) "pt_type port = PORT_AUDIO" "\<not> (pt_flow_id port \<noteq> None \<and> pt_direction port = PORT_INPUT)"
      "insts' = upd_last (\<lambda>a. if pt_direction port = PORT_INPUT
                     then a\<lparr>in_input_audio_ports := in_input_audio_ports a @ [new_audio_port plugin i None]\<rparr>
                     else a\<lparr>in_output_audio_ports := in_output_audio_ports a @ [new_audio_port plugin i None]\<rparr>) insts"
  | (audio_wired) src where "pt_type port = PORT_AUDIO" "pt_direction port = PORT_INPUT"
      "fst src < length insts" "snd src < length (in_output_audio_ports (insts ! fst src))"
      "insts' = set_audio_peer src (length insts - 1, length (in_input_audio_ports (insts ! (length insts - 1))))
                  (upd_last (\<lambda>a. a\<lparr>in_input_audio_ports :=
                     in_input_audio_ports a @ [new_audio_port plugin i (Some src)]\<rparr>) insts)"
  | (control_open) "pt_type port \<noteq> PORT_AUDIO"
      "insts' = upd_last (\<lambda>a. if pt_direction port = PORT_INPUT
                     then a\<lparr>in_input_control_ports := in_input_control_ports a @
                             [new_control_port plugin i (pt_init_value port) None]\<rparr>
                     else a\<lparr>in_output_control_ports := in_output_control_ports a @
                             [new_control_port plugin i (pt_init_value port) None]\<rparr>) insts"
  | (control_wired) src where "pt_type port \<noteq> PORT_AUDIO" "pt_direction port = PORT_INPUT"
      "fst src < length insts" "snd src < length (in_output_control_ports (insts ! fst src))"
      "insts' = set_control_peer src (length insts - 1, length (in_input_control_ports (insts ! (length insts - 1))))
                  (upd_last (\<lambda>a. a\<lparr>in_input_control_ports := in_input_control_ports a @
                             [new_control_port plugin i (pt_init_value port) (Some src)]\<rparr>) insts)"
proof (cases "pt_flow_id port \<noteq> None \<and> pt_direction port = PORT_INPUT")
  case False
  with assms audio_open control_open show ?thesis
    by (auto simp: build_port_def Let_def split: if_splits)
next
  case True
  with assms obtain orig oi where o: "find_origin_port ini insts plugin i = Some (Origin orig oi)"
    by (auto simp: build_port_def Let_def split: option.splits origin.splits)
  show ?thesis
  proof (cases "pt_type port = PORT_AUDIO")
    case au: True
    with assms True o obtain src where "find_output_audio_port insts orig oi = Some src"
      by (auto simp: build_port_def Let_def split: option.splits)
    with assms True o au audio_wired find_output_audio_port_SomeD [OF this] show ?thesis
      by (auto simp: build_port_def Let_def)
  next
    case ct: False
    with assms True o obtain src where "find_output_control_port insts orig oi = Some src"
      by (auto simp: build_port_def Let_def split: option.splits)
    with assms True o ct control_wired find_output_control_port_SomeD [OF this] show ?thesis
      by (auto simp: build_port_def Let_def)
  qed
qed

lemma build_port_ok:
  assumes b: "build_port ini plugin i port insts = Inr (Some insts')"
    and ok: "insts \<noteq> []" "insts_ok insts"
    and flow: "pt_type port = PORT_AUDIO \<Longrightarrow> pt_flow_id port \<noteq> None"
  shows "insts_ok insts' \<and> grows insts insts'"
  using b
proof (cases rule: build_port_cases)
  case audio_open
  with flow have "pt_direction port \<noteq> PORT_INPUT" by simp
  with audio_open ok have g: "grows insts insts'" by (auto intro!: grows_upd_last)
  have "insts_ok insts'"
    by (rule insts_ok_grows [OF ok(2) g ok(1)])
      (use \<open>pt_direction port \<noteq> PORT_INPUT\<close> audio_open(3) ok(1) in auto)
  with g show ?thesis by simp
next
  case (audio_wired src)
  then have g: "grows insts insts'"
    using ok(1) by (auto intro!: grows_trans [OF grows_upd_last grows_set_peer(1)])
  have "audio_peer_ok insts (length insts - 1) src"
    using audio_wired(3,4) by (simp add: audio_peer_ok_def)
  with peer_ok_grows(1) [OF g] have "audio_peer_ok insts' (length insts - 1) src" using ok(1) by simp
  moreover have "upd_last f insts \<noteq> []" for f :: "('a, 'b) dsp_instance \<Rightarrow> ('a, 'b) dsp_instance"
    using ok(1) by (simp add: upd_last_def)
  ultimately have "insts_ok insts'"
    by (intro insts_ok_grows [OF ok(2) g ok(1)]) (use audio_wired(5) ok(1) in \<open>auto simp: new_audio_port_def\<close>)
  with g show ?thesis by simp
next
  case control_open
  then have g: "grows insts insts'" using ok by (auto intro!: grows_upd_last)
  have "insts_ok insts'"
    by (rule insts_ok_grows [OF ok(2) g ok(1)])
      (use control_open(2) ok(1) in \<open>auto simp: new_control_port_def split: if_splits\<close>)
  with g show ?thesis by simp
next
  case (control_wired src)
  then have g: "grows insts insts'"
    using ok(1) by (auto intro!: grows_trans [OF grows_upd_last grows_set_peer(2)])
  have "control_peer_ok insts (length insts - 1) src"
    using control_wired(3,4) by (simp add: control_peer_ok_def)
  with peer_ok_grows(2) [OF g] have "control_peer_ok insts' (length insts - 1) src" using ok(1) by simp
  moreover have "upd_last f insts \<noteq> []" for f :: "('a, 'b) dsp_instance \<Rightarrow> ('a, 'b) dsp_instance"
    using ok(1) by (simp add: upd_last_def)
  ultimately have "insts_ok insts'"
    by (intro insts_ok_grows [OF ok(2) g ok(1)]) (use control_wired(5) ok(1) in \<open>auto simp: new_control_port_def\<close>)
  with g show ?thesis by simp
qed

lemma build_ports_ok:
  "build_ports ini plugin i ports insts = Inr (Some insts') \<Longrightarrow> insts \<noteq> [] \<Longrightarrow> insts_ok insts \<Longrightarrow>
   (\<And>p. p \<in> set ports \<Longrightarrow> pt_type p = PORT_AUDIO \<Longrightarrow> pt_flow_id p \<noteq> None) \<Longrightarrow>
   insts_ok insts' \<and> grows insts insts'"
proof (induction ini plugin i ports insts rule: build_ports.induct)
  case (2 ini plugin i port ports insts)
  from "2.prems"(1) obtain mid where mid: "build_port ini plugin i port insts = Inr (Some mid)"
      and rest: "build_ports ini plugin (Suc i) ports mid = Inr (Some insts')"
    by (auto split: sum.splits option.splits)
  have m: "insts_ok mid" "grows insts mid"
    using build_port_ok [OF mid "2.prems"(2,3)] "2.prems"(4) by auto
  then have "mid \<noteq> []" using "2.prems"(2) by (auto simp: grows_def)
  with "2.IH" [OF mid _ rest] m "2.prems"(4) have "insts_ok insts' \<and> grows mid insts'" by auto
  with m(2) grows_trans show ?case by blast
qed simp

subsection \<open>The instances of a pipeline\<close>

lemma insts_ok_snoc:
  assumes "insts_ok insts"
  shows "insts_ok (insts @ [new_instance plugin])"
proof (rule insts_okI)
  have old: "audio_peer_ok (insts @ [x]) a q \<longleftrightarrow> audio_peer_ok insts a q"
      "control_peer_ok (insts @ [x]) a q \<longleftrightarrow> control_peer_ok insts a q"
    if "a < length insts" for x a q
    using that by (auto simp: audio_peer_ok_def control_peer_ok_def nth_append)
  fix a p
  assume "a < length (insts @ [new_instance plugin])"
  then have a: "a < length insts \<or> a = length insts" by auto
  then show "\<exists>q. ap_peer p = Some q \<and> audio_peer_ok (insts @ [new_instance plugin]) a q"
    if "p \<in> set (in_input_audio_ports ((insts @ [new_instance plugin]) ! a))"
    using that insts_okD(1) [OF assms] by (auto simp: nth_append new_instance_def old)
  fix c q
  show "control_peer_ok (insts @ [new_instance plugin]) a q"
    if "c \<in> set (in_input_control_ports ((insts @ [new_instance plugin]) ! a))" "cp_peer c = Some q"
    using a that insts_okD(2) [OF assms, of a c q] by (auto simp: nth_append new_instance_def old)
qed

abbreviation plugins_of :: "('f, 'm) dsp_instance list \<Rightarrow> nat list" where
  "plugins_of insts \<equiv> map in_plugin insts"

text \<open>
  The invariant of the sort: every instance belongs to a visited, enabled plugin, no plugin has
  two instances, and the peers are well formed.
\<close>

definition topo_inv :: "'f ini \<Rightarrow> cras_expr_env \<Rightarrow> ('f, 'm) topo_state \<Rightarrow> bool" where
  "topo_inv ini env st \<longleftrightarrow>
     marks_ok ini (fst st) \<and> insts_ok (snd st) \<and> distinct (plugins_of (snd st)) \<and>
     (\<forall>p \<in> set (plugins_of (snd st)). p < length (ini_plugins ini) \<and> fst st ! p \<and>
        \<not> is_disabled (ini_plugins ini ! p) env)"

text \<open>What one visit does: marks are only added, and the new instances are of unmarked plugins.\<close>

definition topo_step :: "('f, 'm) topo_state \<Rightarrow> ('f, 'm) topo_state \<Rightarrow> bool" where
  "topo_step st st' \<longleftrightarrow>
     length (fst st') = length (fst st) \<and> (\<forall>i < length (fst st). fst st ! i \<longrightarrow> fst st' ! i) \<and>
     set (plugins_of (snd st')) \<subseteq> set (plugins_of (snd st)) \<union> {p. \<not> fst st ! p}"

lemma topo_step_refl [simp]: "topo_step st st"
  by (simp add: topo_step_def)

lemma topo_step_trans:
  assumes "topo_step a b" "topo_step b c" "set (plugins_of (snd c)) \<subseteq> {p. p < length (fst a)}"
  shows "topo_step a c"
proof -
  have "p \<in> set (plugins_of (snd a)) \<or> \<not> fst a ! p" if "p \<in> set (plugins_of (snd c))" for p
    using assms that unfolding topo_step_def by blast
  with assms(1,2) show ?thesis by (simp add: topo_step_def subset_iff)
qed

lemma topo_inv_bound: "topo_inv ini env st \<Longrightarrow> set (plugins_of (snd st)) \<subseteq> {p. p < length (fst st)}"
  by (auto simp: topo_inv_def marks_ok_def)

lemma topo_build:
  assumes wf: "ini_wf ini" "plugin < length (ini_plugins ini)"
    and inv: "topo_inv ini env (vs, insts)" "vs ! plugin" "plugin \<notin> set (plugins_of insts)"
    and en: "\<not> is_disabled (ini_plugins ini ! plugin) env"
    and b: "build_ports ini plugin 0 (pl_ports (ini_plugins ini ! plugin)) (insts @ [new_instance plugin]) = Inr (Some insts')"
  shows "topo_inv ini env (vs, insts') \<and> plugins_of insts' = plugins_of insts @ [plugin]"
proof -
  have "ports_ok (length (ini_flows ini)) (pl_ports (ini_plugins ini ! plugin))"
    using wf by (simp add: ini_wf_def)
  then have "insts_ok insts' \<and> grows (insts @ [new_instance plugin]) insts'"
    using build_ports_ok [OF b _ insts_ok_snoc] inv(1) by (auto simp: topo_inv_def ports_ok_def)
  moreover from this have "plugins_of insts' = plugins_of insts @ [plugin]"
    using grows_plugins by (fastforce simp: new_instance_def)
  ultimately show ?thesis
    using inv en wf by (auto simp: topo_inv_def)
qed

lemma sort_inv:
  "ini_wf ini \<Longrightarrow> topo_inv ini env st \<Longrightarrow> plugin < length (ini_plugins ini) \<Longrightarrow>
     topological_sort fuel ini env st plugin = Inr (Some st') \<Longrightarrow>
     topo_inv ini env st' \<and> topo_step st st' \<and> fst st' ! plugin"
  "ini_wf ini \<Longrightarrow> topo_inv ini env st \<Longrightarrow> flows_end_in ini ports \<Longrightarrow>
     visit_ports fuel ini env st ports = Inr (Some st') \<Longrightarrow>
     topo_inv ini env st' \<and> topo_step st st'"
proof (induction fuel ini env st plugin and fuel ini env st ports arbitrary: st' and st'
    rule: topological_sort_visit_ports.induct)
  case (2 fuel ini env st plugin)
  show ?case
  proof (cases "fst st ! plugin")
    case True
    with "2.prems" show ?thesis by simp
  next
    case False
    let ?st = "((fst st)[plugin := True], snd st)"
    have len: "plugin < length (fst st)" using "2.prems" by (simp add: topo_inv_def marks_ok_def)
    have inv0: "topo_inv ini env ?st"
      using "2.prems"(2) len by (auto simp: topo_inv_def marks_ok_def nth_list_update)
    from "2.prems"(4) False obtain vs insts where
        v: "visit_ports fuel ini env ?st (pl_ports (ini_plugins ini ! plugin)) = Inr (Some (vs, insts))"
      by (auto split: sum.splits option.splits)
    from "2.IH" [OF False "2.prems"(1) inv0 ini_wf_flows_end [OF "2.prems"(1,3)] v]
    have inv: "topo_inv ini env (vs, insts)" and step: "topo_step ?st (vs, insts)" by auto
    have new: "plugin \<notin> set (plugins_of (snd st))" using "2.prems"(2) False by (auto simp: topo_inv_def)
    with step len have fresh: "plugin \<notin> set (plugins_of insts)" by (auto simp: topo_step_def)
    have mark: "vs ! plugin" using step len by (auto simp: topo_step_def)
    have st0: "topo_step st (vs, insts)"
      using step len new fresh unfolding topo_step_def by (auto simp: nth_list_update split: if_splits)
    show ?thesis
    proof (cases "is_disabled (ini_plugins ini ! plugin) env")
      case True
      with "2.prems"(4) False v have "st' = (vs, insts)" by simp
      with inv mark st0 show ?thesis by simp
    next
      case en: False
      with "2.prems"(4) False v obtain insts' where
          b: "build_ports ini plugin 0 (pl_ports (ini_plugins ini ! plugin)) (insts @ [new_instance plugin]) = Inr (Some insts')"
          and st': "st' = (vs, insts')"
        by (auto split: sum.splits option.splits)
      from topo_build [OF "2.prems"(1,3) inv mark fresh en b]
      show ?thesis using st' st0 False mark by (auto simp: topo_step_def)
    qed
  qed
next
  case (4 fuel ini env st port ports)
  have rest: "flows_end_in ini ports" using "4.prems"(3) by (simp add: flows_end_in_def)
  show ?case
  proof (cases "pt_flow_id port")
    case None
    with "4.IH"(1) "4.prems" rest show ?thesis by simp
  next
    case (Some f)
    with "4.prems"(4) obtain q mid where src: "fl_from (ini_flows ini ! f) = Some q"
        and q: "topological_sort fuel ini env st q = Inr (Some mid)"
        and r: "visit_ports fuel ini env mid ports = Inr (Some st')"
      by (auto split: option.splits sum.splits)
    from src Some "4.prems"(3) have "q < length (ini_plugins ini)" by (simp add: flows_end_in_def)
    from "4.IH"(2) [OF Some src "4.prems"(1,2) this q]
    have m: "topo_inv ini env mid" "topo_step st mid" by auto
    from "4.IH"(3) [OF Some src q refl "4.prems"(1) m(1) rest r]
    have r': "topo_inv ini env st'" "topo_step mid st'" by auto
    then have "topo_step st st'"
      using topo_step_trans [OF m(2) r'(2)] topo_inv_bound [OF r'(1)] "4.prems"(2)
      by (simp add: topo_inv_def marks_ok_def)
    with r' show ?thesis by simp
  qed
qed auto

subsection \<open>Graphs without cycles never fault\<close>

text \<open>
  A ranking of the plugins along the flows: what flows into a plugin comes from a plugin of lower
  rank, and the flow of an output port starts at the plugin itself.
\<close>

definition ranked :: "'f ini \<Rightarrow> (nat \<Rightarrow> nat) \<Rightarrow> bool" where
  "ranked ini rank \<longleftrightarrow>
     (\<forall>p < length (ini_plugins ini). \<forall>port \<in> set (pl_ports (ini_plugins ini ! p)).
        case pt_flow_id port of None \<Rightarrow> True
        | Some f \<Rightarrow> (case fl_from (ini_flows ini ! f) of None \<Rightarrow> True
            | Some q \<Rightarrow> if pt_direction port = PORT_INPUT then rank q < rank p else q = p))"

lemma rankedD:
  assumes "ranked ini rank" "p < length (ini_plugins ini)" "port \<in> set (pl_ports (ini_plugins ini ! p))"
    and flow: "pt_flow_id port = Some f" "fl_from (ini_flows ini ! f) = Some q"
  shows "if pt_direction port = PORT_INPUT then rank q < rank p else q = p"
proof -
  from assms(1,2) have "\<forall>port \<in> set (pl_ports (ini_plugins ini ! p)).
        case pt_flow_id port of None \<Rightarrow> True
        | Some f \<Rightarrow> (case fl_from (ini_flows ini ! f) of None \<Rightarrow> True
            | Some q \<Rightarrow> if pt_direction port = PORT_INPUT then rank q < rank p else q = p)"
    by (simp add: ranked_def)
  from bspec [OF this assms(3)] flow show ?thesis by simp
qed

text \<open>A plugin is complete when all its flows come from visited plugins.\<close>

definition complete :: "'f ini \<Rightarrow> bool list \<Rightarrow> nat \<Rightarrow> bool" where
  "complete ini vs p \<longleftrightarrow>
     (\<forall>port \<in> set (pl_ports (ini_plugins ini ! p)). \<forall>f. pt_flow_id port = Some f \<longrightarrow>
        (\<exists>q. fl_from (ini_flows ini ! f) = Some q \<and> q < length vs \<and> vs ! q))"

lemma complete_mono:
  "complete ini vs p \<Longrightarrow> length vs' = length vs \<Longrightarrow> (\<And>i. i < length vs \<Longrightarrow> vs ! i \<Longrightarrow> vs' ! i) \<Longrightarrow> complete ini vs' p"
  unfolding complete_def by metis

lemma kth_input_Some:
  "kth_input ps type k i = Some j \<Longrightarrow>
     i \<le> j \<and> j - i < length ps \<and> pt_direction (ps ! (j - i)) = PORT_INPUT"
proof (induction ps type k i rule: kth_input.induct)
  case (2 p ps type k i)
  then have "j = i \<and> pt_direction p = PORT_INPUT \<or>
      Suc i \<le> j \<and> j - Suc i < length ps \<and> pt_direction (ps ! (j - Suc i)) = PORT_INPUT"
    by (auto split: if_splits)
  then show ?case by (auto simp: nth_Cons')
qed simp

lemma find_origin_total:
  assumes "ini_wf ini" "ranked ini rank" "length vs = length (ini_plugins ini)"
    and "\<And>q. q < length vs \<Longrightarrow> vs ! q \<Longrightarrow> rank q < r \<Longrightarrow> complete ini vs q"
  shows "rank p \<le> r \<Longrightarrow> p < length vs \<Longrightarrow> complete ini vs p \<Longrightarrow> index < length (pl_ports (ini_plugins ini ! p)) \<Longrightarrow>
     pt_direction (pl_ports (ini_plugins ini ! p) ! index) = PORT_INPUT \<Longrightarrow>
     \<exists>x. find_origin_port ini insts p index = Some x \<and> x \<noteq> Null_Plugin"
proof (induction "rank p" arbitrary: p index rule: less_induct)
  case less
  let ?port = "pl_ports (ini_plugins ini ! p) ! index"
  have port: "?port \<in> set (pl_ports (ini_plugins ini ! p))" using less.prems by simp
  show ?case
  proof (cases "pt_flow_id ?port")
    case None
    then show ?thesis by (subst find_origin_port.simps) simp
  next
    case (Some f)
    with less.prems(3) port obtain q where q: "fl_from (ini_flows ini ! f) = Some q" "q < length vs" "vs ! q"
      unfolding complete_def by blast
    from rankedD [OF assms(2) _ port Some q(1)] assms(3) less.prems(2,5)
    have lt: "rank q < rank p" by simp
    with assms(4) q less.prems(1) have cq: "complete ini vs q" by simp
    note unfold = find_origin_port.simps [of ini insts p index]
    show ?thesis
    proof (cases "find_instance_by_plugin insts q = None")
      case True
      let ?k = "output_rank (pl_ports (ini_plugins ini ! q)) (pt_type ?port) (fl_from_port (ini_flows ini ! f))"
      show ?thesis
      proof (cases "?k = None \<or> kth_input (pl_ports (ini_plugins ini ! q)) (pt_type ?port) (the ?k) 0 = None")
        case none: True
        then show ?thesis using Some q True by (subst unfold) (auto simp: Let_def split: option.splits)
      next
        case False
        then obtain k i where k: "?k = Some k"
            and i: "kth_input (pl_ports (ini_plugins ini ! q)) (pt_type ?port) k 0 = Some i" by auto
        from kth_input_Some [OF i] less.hyps [OF lt _ q(2) cq, of i] lt less.prems(1)
        have "\<exists>x. find_origin_port ini insts q i = Some x \<and> x \<noteq> Null_Plugin" by auto
        moreover have "find_origin_port ini insts p index = find_origin_port ini insts q i"
          using Some q True i k by (subst unfold) (simp add: Let_def)
        ultimately show ?thesis by simp
      qed
    qed (use Some q in \<open>subst unfold, auto simp: Let_def\<close>)
  qed
qed

lemma build_port_total:
  assumes "pt_direction port = PORT_INPUT \<Longrightarrow> \<exists>x. find_origin_port ini insts plugin i = Some x \<and> x \<noteq> Null_Plugin"
  shows "build_port ini plugin i port insts \<noteq> Inl e"
  using assms by (auto simp: build_port_def Let_def split: option.splits origin.splits)

lemma build_ports_total:
  "(\<And>(insts :: ('f, 'm) dsp_instance list) j. j < length ps \<Longrightarrow> pt_direction (ps ! j) = PORT_INPUT \<Longrightarrow>
      \<exists>x. find_origin_port ini insts plugin j = Some x \<and> x \<noteq> Null_Plugin) \<Longrightarrow>
   ports = drop i ps \<Longrightarrow> build_ports ini plugin i ports (insts :: ('f, 'm) dsp_instance list) \<noteq> Inl e"
proof (induction ini plugin i ports insts rule: build_ports.induct)
  case (2 ini plugin i port ports insts)
  from "2.prems"(2) have i: "i < length ps" "port = ps ! i" "ports = drop (Suc i) ps"
    by (metis drop_all leI list.distinct(1), metis drop_all leI list.distinct(1) Cons_nth_drop_Suc list.inject,
        metis drop_all leI list.distinct(1) Cons_nth_drop_Suc list.inject)
  then have "build_port ini plugin i port insts \<noteq> Inl e'" for e'
    using "2.prems"(1) by (intro build_port_total) auto
  with "2.IH" "2.prems"(1) i(3) show ?case by (auto split: sum.split option.split)
qed simp

text \<open>Below rank \<open>r\<close>, whatever is visited is complete; and a visit completes all it marks.\<close>

definition complete_below :: "'f ini \<Rightarrow> (nat \<Rightarrow> nat) \<Rightarrow> nat \<Rightarrow> bool list \<Rightarrow> bool" where
  "complete_below ini rank r vs \<longleftrightarrow> (\<forall>q < length vs. vs ! q \<longrightarrow> rank q < r \<longrightarrow> complete ini vs q)"

definition completes :: "'f ini \<Rightarrow> bool list \<Rightarrow> bool list \<Rightarrow> bool" where
  "completes ini vs vs' \<longleftrightarrow>
     length vs' = length vs \<and> (\<forall>q < length vs. vs ! q \<longrightarrow> vs' ! q) \<and>
     (\<forall>q < length vs. vs' ! q \<longrightarrow> \<not> vs ! q \<longrightarrow> complete ini vs' q)"

lemma completes_refl [simp]: "completes ini vs vs"
  by (simp add: completes_def)

lemma completes_trans: "completes ini a b \<Longrightarrow> completes ini b c \<Longrightarrow> completes ini a c"
  unfolding completes_def by (metis complete_mono)

lemma complete_below_completes:
  "complete_below ini rank r vs \<Longrightarrow> completes ini vs vs' \<Longrightarrow> complete_below ini rank r vs'"
  unfolding complete_below_def completes_def by (metis complete_mono)

lemma complete_below_mono: "complete_below ini rank r vs \<Longrightarrow> r' \<le> r \<Longrightarrow> complete_below ini rank r' vs"
  unfolding complete_below_def by (meson less_le_trans)

text \<open>Ports whose flows come from plugins of rank below \<open>r\<close> or from visited ones.\<close>

definition wired_below :: "'f ini \<Rightarrow> (nat \<Rightarrow> nat) \<Rightarrow> nat \<Rightarrow> bool list \<Rightarrow> 'f port list \<Rightarrow> bool" where
  "wired_below ini rank r vs ports \<longleftrightarrow>
     (\<forall>port \<in> set ports. \<forall>f q. pt_flow_id port = Some f \<longrightarrow> fl_from (ini_flows ini ! f) = Some q \<longrightarrow>
        q < length vs \<and> (rank q < r \<or> vs ! q))"

lemma wired_below_completes:
  "wired_below ini rank r vs ports \<Longrightarrow> completes ini vs vs' \<Longrightarrow> wired_below ini rank r vs' ports"
  unfolding wired_below_def completes_def by metis

lemma wired_below_plugin:
  assumes "ini_wf ini" "ranked ini rank" "length vs = length (ini_plugins ini)" "p < length vs" "vs ! p"
  shows "wired_below ini rank (rank p) vs (pl_ports (ini_plugins ini ! p))"
proof -
  have "q < length vs \<and> (rank q < rank p \<or> vs ! q)"
    if port: "port \<in> set (pl_ports (ini_plugins ini ! p))" and f: "pt_flow_id port = Some f"
      and q: "fl_from (ini_flows ini ! f) = Some q" for port f q
    using rankedD [OF assms(2) _ port f q] ini_wf_flows_end [OF assms(1), of p] assms port f q
    by (auto simp: flows_end_in_def split: if_splits)
  then show ?thesis by (auto simp: wired_below_def)
qed

lemma sort_total:
  "ini_wf ini \<Longrightarrow> ranked ini rank \<Longrightarrow> marks_ok ini (fst st) \<Longrightarrow> plugin < length (ini_plugins ini) \<Longrightarrow>
     unvisited (fst st) < fuel \<Longrightarrow> complete_below ini rank (rank plugin) (fst st) \<or> fst st ! plugin \<Longrightarrow>
     (\<forall>e. topological_sort fuel ini env st plugin \<noteq> Inl e) \<and>
     (\<forall>st'. topological_sort fuel ini env st plugin = Inr (Some st') \<longrightarrow>
        completes ini (fst st) (fst st') \<and> fst st' ! plugin \<and> unvisited (fst st') \<le> unvisited (fst st))"
  "ini_wf ini \<Longrightarrow> ranked ini rank \<Longrightarrow> marks_ok ini (fst st) \<Longrightarrow> flows_end_in ini ports \<Longrightarrow>
     unvisited (fst st) < fuel \<Longrightarrow> complete_below ini rank r (fst st) \<Longrightarrow> wired_below ini rank r (fst st) ports \<Longrightarrow>
     (\<forall>e. visit_ports fuel ini env st ports \<noteq> Inl e) \<and>
     (\<forall>st'. visit_ports fuel ini env st ports = Inr (Some st') \<longrightarrow>
        completes ini (fst st) (fst st') \<and> unvisited (fst st') \<le> unvisited (fst st) \<and>
        (\<forall>port \<in> set ports. \<forall>f. pt_flow_id port = Some f \<longrightarrow>
           (\<exists>q. fl_from (ini_flows ini ! f) = Some q \<and> q < length (fst st') \<and> fst st' ! q)))"
proof (induction fuel ini env st plugin and fuel ini env st ports arbitrary: and r
    rule: topological_sort_visit_ports.induct)
  case (2 fuel ini env st plugin)
  show ?case
  proof (cases "fst st ! plugin")
    case True
    then show ?thesis by simp
  next
    case False
    let ?st = "((fst st)[plugin := True], snd st)"
    let ?ps = "pl_ports (ini_plugins ini ! plugin)"
    have len: "length (fst st) = length (ini_plugins ini)" "plugin < length (fst st)"
      using "2.prems" by (simp_all add: marks_ok_def)
    have un: "Suc (unvisited (fst ?st)) = unvisited (fst st)" using len False by (simp add: unvisited_mark)
    have "complete_below ini rank (rank plugin) (fst st)" using "2.prems" False by simp
    then have below: "complete_below ini rank (rank plugin) (fst ?st)"
      using len(2) unfolding complete_below_def
      by (auto simp: nth_list_update split: if_splits intro: complete_mono)
    have wired: "wired_below ini rank (rank plugin) (fst ?st) ?ps"
      using wired_below_plugin [OF "2.prems"(1,2)] len by simp
    have "marks_ok ini (fst ?st)" using len by (simp add: marks_ok_def)
    note ih = "2.IH" [OF False "2.prems"(1,2) this ini_wf_flows_end [OF "2.prems"(1,4)] _ below wired]
    show ?thesis
    proof (cases "visit_ports fuel ini env ?st ?ps")
      case (Inl e)
      with ih un "2.prems"(5) show ?thesis by auto
    next
      case (Inr res)
      show ?thesis
      proof (cases res)
        case None
        with Inr False show ?thesis by simp
      next
        case (Some st1)
        obtain vs insts where st1: "st1 = (vs, insts)" by (cases st1)
        from ih un "2.prems"(5) Inr Some st1 have c: "completes ini (fst ?st) vs"
            and u: "unvisited vs \<le> unvisited (fst ?st)" and cp: "complete ini vs plugin"
          by (auto simp: complete_def)
        have lv: "length vs = length (fst st)" using c by (simp add: completes_def)
        have c0: "completes ini (fst st) vs"
          using c cp len unfolding completes_def by (auto simp: nth_list_update split: if_splits)
        have bv: "complete_below ini rank (rank plugin) vs" by (rule complete_below_completes [OF below c])
        have mp: "vs ! plugin" using c len by (simp add: completes_def)
        have "\<exists>x. find_origin_port ini insts' plugin j = Some x \<and> x \<noteq> Null_Plugin"
          if "j < length ?ps" "pt_direction (?ps ! j) = PORT_INPUT" for insts' :: "('a, 'b) dsp_instance list" and j
          using that len lv cp bv
          by (intro find_origin_total [OF "2.prems"(1,2), of vs "rank plugin"]) (auto simp: complete_below_def)
        then have b: "build_ports ini plugin 0 ?ps insts' \<noteq> Inl e" for e and insts' :: "('a, 'b) dsp_instance list"
          by (intro build_ports_total [of ?ps]) auto
        from Inr Some st1 False c0 mp u un b show ?thesis
          by (auto split: sum.split option.split)
      qed
    qed
  qed
next
  case (4 fuel ini env st port ports)
  have rest: "flows_end_in ini ports" using "4.prems"(4) by (simp add: flows_end_in_def)
  have wrest: "wired_below ini rank r (fst st) ports" using "4.prems"(7) by (simp add: wired_below_def)
  show ?case
  proof (cases "pt_flow_id port")
    case None
    with "4.IH"(1) [OF None "4.prems"(1-3) rest "4.prems"(5,6) wrest] show ?thesis by simp
  next
    case (Some f)
    show ?thesis
    proof (cases "fl_from (ini_flows ini ! f)")
      case None
      with Some show ?thesis by simp
    next
      case src: (Some q)
      then have q: "q < length (ini_plugins ini)" and w: "rank q < r \<or> fst st ! q"
        using "4.prems"(4,7) Some by (auto simp: flows_end_in_def wired_below_def)
      have "complete_below ini rank (rank q) (fst st) \<or> fst st ! q"
        using w complete_below_mono [OF "4.prems"(6), of "rank q"] by auto
      note ih = "4.IH"(2) [OF Some src "4.prems"(1-3) q "4.prems"(5) this]
      show ?thesis
      proof (cases "topological_sort fuel ini env st q")
        case (Inl e)
        with ih show ?thesis by simp
      next
        case (Inr res)
        show ?thesis
        proof (cases res)
          case None
          with Inr Some src show ?thesis by simp
        next
          case res: (Some st1)
          from ih Inr res have m: "completes ini (fst st) (fst st1)" "fst st1 ! q"
              "unvisited (fst st1) \<le> unvisited (fst st)" by auto
          then have mk: "marks_ok ini (fst st1)" "unvisited (fst st1) < fuel"
            using "4.prems"(3,5) by (auto simp: marks_ok_def completes_def)
          note ih2 = "4.IH"(3) [OF Some src Inr res "4.prems"(1,2) mk(1) rest mk(2)
              complete_below_completes [OF "4.prems"(6) m(1)] wired_below_completes [OF wrest m(1)]]
          have later: "fst st' ! q \<and> q < length (fst st') \<and> completes ini (fst st) (fst st')"
            if "completes ini (fst st1) (fst st')" for st' :: "('a, 'b) topo_state"
            using that m q mk completes_trans [OF m(1) that] by (auto simp: completes_def marks_ok_def)
          from ih2 Some src Inr res m(3) later show ?thesis by fastforce
        qed
      qed
    qed
  qed
qed auto

subsection \<open>Properties of the construction\<close>

lemma find_enabled_loop_Some:
  "find_enabled_loop label purpose env ps i (Some j) =
     (if \<exists>p \<in> set ps. builtin_match label purpose env p then None else Some j)"
  by (induction ps arbitrary: i) auto

lemma find_enabled_loop_None:
  "find_enabled_loop label purpose env ps i None = Some j \<longleftrightarrow>
     i \<le> j \<and> j - i < length ps \<and> builtin_match label purpose env (ps ! (j - i)) \<and>
     (\<forall>k < length ps. builtin_match label purpose env (ps ! k) \<longrightarrow> k = j - i)"
proof (induction ps arbitrary: i)
  case (Cons p ps)
  have ex: "(\<exists>p \<in> set ps. builtin_match label purpose env p) \<longleftrightarrow>
      (\<exists>k < length ps. builtin_match label purpose env (ps ! k))"
    by (metis in_set_conv_nth)
  consider "j < i" | "j = i" | d where "j = Suc (i + d)"
    using less_imp_Suc_add [of i j] by (cases j i rule: linorder_cases) auto
  then show ?case
  proof cases
    case 1
    then show ?thesis by (simp add: find_enabled_loop_Some Cons.IH)
  next
    case 2
    then have "i = j" by simp
    then show ?thesis by (simp add: find_enabled_loop_Some Cons.IH All_less_Suc2 ex)
  next
    case 3
    then show ?thesis
      using Cons.IH [of "Suc i"] by (simp add: find_enabled_loop_Some All_less_Suc2)
  qed
qed simp

text \<open>
  \<^verbatim>\<open>find_enabled_builtin_plugin\<close> finds plugin \<open>j\<close> exactly when \<open>j\<close> is the only enabled builtin
  plugin with that label and purpose.
\<close>

theorem find_enabled_builtin_plugin_unique:
  "find_enabled_builtin_plugin ini label purpose env = Some j \<longleftrightarrow>
     {k. k < length (ini_plugins ini) \<and> builtin_match label purpose env (ini_plugins ini ! k)} = {j}"
  by (auto simp: find_enabled_builtin_plugin_def find_enabled_loop_None set_eq_iff)

lemma create_cases:
  assumes "cras_dsp_pipeline_create ini env purpose = Inr (Some p)"
  obtains source sink vs si ki where
    "find_enabled_builtin_plugin ini ''source'' purpose env = Some source"
    "find_enabled_builtin_plugin ini ''sink'' purpose env = Some sink"
    "topological_sort (Suc (length (ini_plugins ini))) ini env
       (replicate (length (ini_plugins ini)) False, []) sink = Inr (Some (vs, pp_instances p))"
    "find_instance_by_plugin (pp_instances p) source = Some si" "pp_source_instance p = Some si"
    "find_instance_by_plugin (pp_instances p) sink = Some ki" "pp_sink_instance p = Some ki"
    "pp_input_channels p = length (in_output_audio_ports (pp_instances p ! si))"
    "pp_output_channels p = length (in_input_audio_ports (pp_instances p ! ki))"
    "pp_output_channels p \<le> pp_input_channels p"
  using assms unfolding cras_dsp_pipeline_create_def
  by (auto simp: Let_def split: option.splits sum.splits if_splits)

lemma topo_inv_start: "topo_inv ini env (replicate (length (ini_plugins ini)) False, [])"
  by (simp add: topo_inv_def marks_ok_def insts_ok_def)

lemma unvisited_start: "unvisited (replicate n False) = n"
  by (simp add: unvisited_def)

text \<open>The pipeline of the example graph: the source, then the sink wired to it.\<close>

definition demo_instances :: "(int, 'm) dsp_instance list" where
  "demo_instances =
     [(new_instance 0)\<lparr>in_output_audio_ports := [new_audio_port 0 0 (Some (1, 0))]\<rparr>,
      (new_instance 1)\<lparr>in_input_audio_ports := [new_audio_port 1 0 (Some (0, 0))]\<rparr>]"

lemma demo_enabled:
  "find_enabled_builtin_plugin demo_ini ''source'' ''playback'' env = Some 0"
  "find_enabled_builtin_plugin demo_ini ''sink'' ''playback'' env = Some 1"
  by (simp_all add: find_enabled_builtin_plugin_def demo_ini_def demo_plugin_def builtin_match_def is_disabled_def)

lemma demo_sort:
  "topological_sort 3 demo_ini env (replicate 2 False, []) 1 = Inr (Some ([True, True], demo_instances))"
  by (simp add: demo_ini_def demo_plugin_def demo_instances_def eval_nat_numeral is_disabled_def build_port_def
      find_origin_port.simps find_instance_by_plugin_def find_output_audio_port_def new_instance_def
      new_audio_port_def upd_last_def set_audio_peer_def Let_def)

lemma demo_pipeline:
  "\<exists>p :: (int, 'm) pipeline.
     cras_dsp_pipeline_create demo_ini env ''playback'' = Inr (Some p) \<and> pp_instances p = demo_instances"
proof -
  have n: "length (ini_plugins demo_ini) = 2" "Suc 2 = 3" by (simp_all add: demo_ini_def)
  have "find_instance_by_plugin (demo_instances :: (int, 'm) dsp_instance list) 0 = Some 0"
    "find_instance_by_plugin (demo_instances :: (int, 'm) dsp_instance list) 1 = Some 1"
    by (simp_all add: demo_instances_def find_instance_by_plugin_def new_instance_def)
  moreover have "\<not> length (in_output_audio_ports (demo_instances ! 0 :: (int, 'm) dsp_instance)) <
      length (in_input_audio_ports (demo_instances ! 1 :: (int, 'm) dsp_instance))"
    by (simp add: demo_instances_def new_instance_def)
  ultimately show ?thesis
    unfolding cras_dsp_pipeline_create_def demo_enabled n
    by (simp add: demo_sort [unfolded One_nat_def] Let_def)
qed

lemma demo_ini_wf: "ini_wf demo_ini"
  by (auto simp: ini_wf_def demo_ini_def demo_plugin_def names_ok_def ports_ok_def links_ok_def end_ok_def
      MAX_NR_PORT_def less_Suc_eq)



text \<open>
  C2. If the plugins can be ranked along their flows (the graph has no cycle), the construction always
  comes to an end: it neither recurses forever nor reads through a NULL plugin.
\<close>

theorem pipeline_create_total:
  fixes ini :: "'f ini"
  assumes "ini_wf ini" "ranked ini rank"
  shows "\<exists>r :: ('f, 'm) pipeline option. cras_dsp_pipeline_create ini env purpose = Inr r"
proof (cases "find_enabled_builtin_plugin ini ''sink'' purpose env")
  case None
  then show ?thesis by (auto simp: cras_dsp_pipeline_create_def split: option.split)
next
  case (Some sink)
  then have "sink < length (ini_plugins ini)"
    by (auto simp: find_enabled_builtin_plugin_def find_enabled_loop_None)
  then have "topological_sort (Suc (length (ini_plugins ini))) ini env
       (replicate (length (ini_plugins ini)) False, [] :: ('f, 'm) dsp_instance list) sink \<noteq> Inl e" for e
    using sort_total(1) [OF assms, of "(replicate (length (ini_plugins ini)) False, [] :: ('f, 'm) dsp_instance list)" sink
        "Suc (length (ini_plugins ini))" env]
    by (simp add: marks_ok_def unvisited_start complete_below_def del: topological_sort.simps)
  then show ?thesis
    using Some unfolding cras_dsp_pipeline_create_def
    by (auto simp: Let_def simp del: topological_sort.simps split: sum.split option.split)
qed

theorem pipeline_create_total_witness:
  "\<exists>r :: (int, unit) pipeline option. cras_dsp_pipeline_create demo_ini CRAS_EXPR_ENV_INIT ''capture'' = Inr r"
  by (rule pipeline_create_total [OF demo_ini_wf, where rank = id])
    (simp add: ranked_def demo_ini_def demo_plugin_def less_Suc_eq)

text \<open>
  A disabled plugin whose \<open>k\<close>-th input is fed by its own \<open>k\<close>-th output of the same type makes the
  search for the origin run forever.
\<close>

theorem find_origin_port_endless:
  assumes "pt_flow_id (pl_ports (ini_plugins ini ! q) ! i) = Some f"
    and "fl_from (ini_flows ini ! f) = Some q"
    and "find_instance_by_plugin instances q = None"
    and "output_rank (pl_ports (ini_plugins ini ! q)) (pt_type (pl_ports (ini_plugins ini ! q) ! i))
           (fl_from_port (ini_flows ini ! f)) = Some k"
    and "kth_input (pl_ports (ini_plugins ini ! q)) (pt_type (pl_ports (ini_plugins ini ! q) ! i)) k 0 = Some i"
  shows "find_origin_port ini instances q i = None"
proof -
  define P where "P ini' insts' p j (y :: origin) \<longleftrightarrow> ini' = ini \<longrightarrow> insts' = instances \<longrightarrow> (p, j) \<noteq> (q, i)"
    for ini' insts' p j y
  have "P ini' insts' p j y" if "find_origin_port ini' insts' p j = Some y" for ini' insts' p j y
    by (rule find_origin_port.raw_induct [OF _ that, of P]) (use assms in \<open>auto simp: P_def Let_def, blast\<close>)
  then show ?thesis by (fastforce simp: P_def)
qed

text \<open>A disabled plugin with one audio input and one audio output on the same flow.\<close>

definition loop_ini :: "int ini" where
  "loop_ini =
     \<lparr>ini_dict = dict_of [],
      ini_plugins = [\<lparr>pl_title = ''loop'', pl_library = Some ''builtin'', pl_label = Some ''eq'', pl_purpose = None,
        pl_disable_expr = Some (EXPR_LITERAL (VALUE_BOOLEAN True)),
        pl_ports = [\<lparr>pt_direction = PORT_INPUT, pt_type = PORT_AUDIO, pt_flow_id = Some 0, pt_init_value = 0\<rparr>,
                    \<lparr>pt_direction = PORT_OUTPUT, pt_type = PORT_AUDIO, pt_flow_id = Some 0, pt_init_value = 0\<rparr>]\<rparr>],
      ini_flows = [\<lparr>fl_type = PORT_AUDIO, fl_name = ''{x}'', fl_from = Some 0, fl_to = Some 0,
                    fl_from_port = 1, fl_to_port = 0\<rparr>]\<rparr>"

theorem find_origin_port_endless_witness:
  "find_origin_port loop_ini ([] :: (int, unit) dsp_instance list) 0 0 = None"
  by (rule find_origin_port_endless [where f = 0 and k = 0])
    (simp_all add: loop_ini_def find_instance_by_plugin_def output_rank_def)

end
