(* ===== verification/Dsp_Util.thy ===== *)
theory Dsp_Util
  imports Biquad
begin

text \<open>
  Conversion between interleaved 16-bit samples and one buffer of \<^verbatim>\<open>float\<close> samples per channel:
  the portable loops of \<^verbatim>\<open>audio/hal/dsp/dsp_util.c\<close>. The memory of the sample buffers is a list of
  buffers and a pointer to a buffer is its index. A 16-bit sample is an \<^typ>\<open>int\<close>.
\<close>

definition set_sample :: "nat \<Rightarrow> nat \<Rightarrow> 'f \<Rightarrow> 'f list list \<Rightarrow> 'f list list" where
  "set_sample b i x bufs = bufs[b := (bufs ! b)[i := x]]"

definition from_int16 :: "('f :: inverse, 'd) cmath \<Rightarrow> int \<Rightarrow> 'f" where
  "from_int16 m v = c_of_int m v / c_of_int m 32768"

definition to_int16 :: "('f :: {zero, plus, minus, times, ord}, 'd) cmath \<Rightarrow> 'f \<Rightarrow> int" where
  "to_int16 m x =
     (let f = x * c_of_int m 32768; half = c_float m (c_lit m 1 2)
      in if c_of_int m 32767 < f then 32767
         else if f < c_of_int m (- 32768) then - 32768
         else c_trunc m (if 0 < f then f + half else f - half))"

text \<open>The two nested loops: frame \<open>i\<close>, channel \<open>j\<close>.\<close>

abbreviation frame_loop :: "nat \<Rightarrow> nat \<Rightarrow> (nat \<times> nat) list" where
  "frame_loop frames channels \<equiv> List.product [0..<frames] [0..<channels]"

definition dsp_util_deinterleave ::
  "('f :: inverse, 'd) cmath \<Rightarrow> int list \<Rightarrow> nat list \<Rightarrow> nat \<Rightarrow> 'f list list \<Rightarrow> 'f list list" where
  "dsp_util_deinterleave m inp output frames bufs =
     fold (\<lambda>(i, j) bs. set_sample (output ! j) i (from_int16 m (inp ! (i * length output + j))) bs)
       (frame_loop frames (length output)) bufs"

definition dsp_util_interleave ::
  "('f :: {zero, plus, minus, times, ord}, 'd) cmath \<Rightarrow> nat list \<Rightarrow> 'f list list \<Rightarrow> nat \<Rightarrow> int list \<Rightarrow> int list" where
  "dsp_util_interleave m inp bufs frames output =
     map (\<lambda>(i, j). to_int16 m (bufs ! (inp ! j) ! i)) (frame_loop frames (length inp))
       @ drop (frames * length inp) output"

text \<open>Buffers fit a list of pointers: distinct, inside the memory and long enough.\<close>

definition bufs_fit :: "nat list \<Rightarrow> nat \<Rightarrow> 'f list list \<Rightarrow> bool" where
  "bufs_fit ptrs frames bufs \<longleftrightarrow>
     distinct ptrs \<and> (\<forall>b \<in> set ptrs. b < length bufs \<and> frames \<le> length (bufs ! b))"

lemma bufs_fitD:
  assumes "bufs_fit ptrs frames bufs" "j < length ptrs"
  shows "ptrs ! j < length bufs" "frames \<le> length (bufs ! (ptrs ! j))"
  using assms by (simp_all add: bufs_fit_def)

lemma set_sample_shape:
  shows length_set_sample: "length (set_sample b i x bufs) = length bufs"
    and length_set_sample_nth: "length (set_sample b i x bufs ! c) = length (bufs ! c)"
  by (simp add: set_sample_def) (cases "b < length bufs"; cases "c = b"; simp add: set_sample_def list_update_beyond)

lemma set_sample_nth:
  assumes "b < length bufs" "i < length (bufs ! b)"
  shows "set_sample b i x bufs ! c ! k = (if c = b \<and> k = i then x else bufs ! c ! k)"
  using assms by (auto simp: set_sample_def nth_list_update)

lemma bufs_fit_set_sample: "bufs_fit ptrs frames bufs \<Longrightarrow> bufs_fit ptrs frames (set_sample b i x bufs)"
  by (simp add: bufs_fit_def set_sample_shape)

lemma deinterleave_sample:
  fixes m :: "('f :: inverse, 'd) cmath"
  assumes "bufs_fit output frames bufs" "i < frames" "j < length output"
  shows "dsp_util_deinterleave m inp output frames bufs ! (output ! j) ! i =
    from_int16 m (inp ! (i * length output + j))"
proof -
  let ?f = "\<lambda>(i, j). set_sample (output ! j) i (from_int16 m (inp ! (i * length output + j)))"
  have "(\<lambda>bs. bs ! (output ! j) ! i = from_int16 m (inp ! (i * length output + j)))
      (fold ?f (frame_loop frames (length output)) bufs)"
  proof (rule fold_establishes [where x = "(i, j)" and I = "bufs_fit output frames"])
    show "(i, j) \<in> set (frame_loop frames (length output))" using assms by simp
    show "bufs_fit output frames bufs" by (rule assms(1))
    fix bs :: "'f list list"
    assume fit: "bufs_fit output frames bs"
    then show "?f (i, j) bs ! (output ! j) ! i = from_int16 m (inp ! (i * length output + j))"
      using assms(2,3) bufs_fitD [OF fit assms(3)] by (simp add: set_sample_nth)
    fix y
    assume y: "y \<in> set (frame_loop frames (length output))"
    show "bufs_fit output frames (?f y bs)" using fit by (cases y) (simp add: bufs_fit_set_sample)
    assume "bs ! (output ! j) ! i = from_int16 m (inp ! (i * length output + j))"
    moreover obtain a b where ab: "y = (a, b)" "a < frames" "b < length output" using y by auto
    moreover have "output ! j = output ! b \<longleftrightarrow> j = b"
      using fit ab(3) assms(3) by (simp add: bufs_fit_def nth_eq_iff_index_eq)
    ultimately show "?f y bs ! (output ! j) ! i = from_int16 m (inp ! (i * length output + j))"
      using bufs_fitD [OF fit ab(3)] by (auto simp: set_sample_nth)
  qed
  then show ?thesis unfolding dsp_util_deinterleave_def by simp
qed

lemma deinterleave_shape:
  "length (dsp_util_deinterleave m inp output frames bufs) = length bufs"
  "length (dsp_util_deinterleave m inp output frames bufs ! c) = length (bufs ! c)"
proof -
  have "length (fold (\<lambda>(i, j). set_sample (p j) i (v i j)) xs bufs) = length bufs \<and>
      length (fold (\<lambda>(i, j). set_sample (p j) i (v i j)) xs bufs ! c) = length (bufs ! c)"
    for xs :: "(nat \<times> nat) list" and p :: "nat \<Rightarrow> nat" and v :: "nat \<Rightarrow> nat \<Rightarrow> 'a"
    by (induction xs arbitrary: bufs) (auto simp: set_sample_shape)
  then show "length (dsp_util_deinterleave m inp output frames bufs) = length bufs"
    "length (dsp_util_deinterleave m inp output frames bufs ! c) = length (bufs ! c)"
    by (simp_all add: dsp_util_deinterleave_def)
qed

text \<open>
  What the round trip needs of the arithmetic on 16-bit samples: dividing by \<open>32768\<close> and multiplying
  again is exact, as for any binary floating point format, and a whole number moved away from zero by
  one half is truncated back to itself.
\<close>

definition int16 :: "int \<Rightarrow> bool" where
  "int16 v \<longleftrightarrow> - 32768 \<le> v \<and> v \<le> 32767"

definition exact_on :: "('f :: {zero, plus, minus, times, inverse, ord}, 'd) cmath \<Rightarrow> int \<Rightarrow> bool" where
  "exact_on m v \<longleftrightarrow>
     c_of_int m v / c_of_int m 32768 * c_of_int m 32768 = c_of_int m v \<and>
     \<not> c_of_int m 32767 < c_of_int m v \<and> \<not> c_of_int m v < c_of_int m (- 32768) \<and>
     (0 < c_of_int m v \<longleftrightarrow> 0 < v) \<and>
     (0 < v \<longrightarrow> c_trunc m (c_of_int m v + c_float m (c_lit m 1 2)) = v) \<and>
     (\<not> 0 < v \<longrightarrow> c_trunc m (c_of_int m v - c_float m (c_lit m 1 2)) = v)"

lemma to_from_int16: "exact_on m v \<Longrightarrow> to_int16 m (from_int16 m v) = v"
  by (auto simp: to_int16_def from_int16_def exact_on_def Let_def)

lemma product_nth_upt:
  "k < a * b \<Longrightarrow> frame_loop a b ! k = (k div b, k mod b)"
proof -
  assume k: "k < a * b"
  then have "k div b < a" "k mod b < b"
    by (simp_all add: less_mult_imp_div_less) (metis k mod_less_divisor mult_0_right neq0_conv not_less0)
  then show ?thesis using k by (simp add: product_nth)
qed

subsection \<open>Properties\<close>

text \<open>
  C16. Deinterleaving a block of 16-bit samples into per-channel buffers and interleaving it again gives
  the block back: channels do not mix, no frame is lost and no sample is off by one, for any number
  of channels, provided the arithmetic is exact on 16-bit samples.
\<close>

theorem interleave_deinterleave:
  assumes "length inp = frames * length ptrs" "bufs_fit ptrs frames bufs"
    and "\<And>v. int16 v \<Longrightarrow> exact_on m v" "list_all int16 inp"
  shows "dsp_util_interleave m ptrs (dsp_util_deinterleave m inp ptrs frames bufs) frames out =
     inp @ drop (length inp) out"
proof -
  let ?c = "length ptrs"
  have "map (\<lambda>(i, j). to_int16 m (dsp_util_deinterleave m inp ptrs frames bufs ! (ptrs ! j) ! i)) (frame_loop frames ?c) ! k
      = inp ! k" if k: "k < frames * ?c" for k
  proof -
    have c: "0 < ?c" using k by (cases "?c") auto
    have kk: "k div ?c < frames" "k mod ?c < ?c" using k c by (simp_all add: less_mult_imp_div_less)
    have "exact_on m (inp ! k)" using assms(1,3,4) k by (simp add: list_all_length)
    with kk k show ?thesis
      by (simp add: product_nth_upt deinterleave_sample [OF assms(2)] to_from_int16)
  qed
  then have "map (\<lambda>(i, j). to_int16 m (dsp_util_deinterleave m inp ptrs frames bufs ! (ptrs ! j) ! i)) (frame_loop frames ?c)
      = inp"
    using assms(1) by (intro nth_equalityI) (simp_all add: length_product)
  then show ?thesis using assms(1) by (simp add: dsp_util_interleave_def)
qed

text \<open>Rational numbers as an exact arithmetic.\<close>

definition rat_math :: "(rat, rat) cmath" where
  "rat_math = \<lparr>c_lit = (\<lambda>n d. of_int n / of_int d), c_pi = 3, c_pow = (\<lambda>x y. 1), c_sqrt = id, c_sin = id,
     c_cos = id, c_float = id, c_double = id, c_of_int = of_int,
     c_trunc = (\<lambda>x. if 0 \<le> x then floor x else ceiling x)\<rparr>"

lemma rat_exact:
  assumes "int16 v"
  shows "exact_on rat_math v"
proof -
  have "\<lfloor>(of_int v :: rat) + 1 / 2\<rfloor> = v" "\<lceil>(of_int v :: rat) - 1 / 2\<rceil> = v"
    by (simp_all add: floor_eq_iff ceiling_eq_iff)
  with assms show ?thesis
    by (auto simp: exact_on_def rat_math_def int16_def)
qed

theorem interleave_deinterleave_witness:
  "dsp_util_interleave rat_math [2, 0] (dsp_util_deinterleave rat_math [1, - 32768, 32767, 4] [2, 0] 2
     (replicate 3 (replicate 2048 0))) 2 [] = [1, - 32768, 32767, 4]"
proof -
  have "bufs_fit [2, 0] 2 (replicate 3 (replicate 2048 0) :: rat list list)"
    by (simp add: bufs_fit_def)
  from interleave_deinterleave [OF _ this rat_exact, of "[1, - 32768, 32767, 4]" "[]"]
  show ?thesis by (simp add: int16_def)
qed

text \<open>Whatever the float samples are, interleaving only produces 16-bit samples.\<close>

theorem interleave_clips:
  assumes "\<And>x. \<not> c_of_int m 32767 < x \<Longrightarrow> \<not> x < c_of_int m (- 32768) \<Longrightarrow>
      int16 (c_trunc m (if 0 < x then x + c_float m (c_lit m 1 2) else x - c_float m (c_lit m 1 2)))"
    and "list_all int16 out"
  shows "list_all int16 (dsp_util_interleave m ptrs bufs frames out)"
proof -
  have "int16 (to_int16 m x)" for x
    using assms(1) [of "x * c_of_int m 32768"] by (auto simp: to_int16_def Let_def int16_def)
  moreover have "list_all int16 (drop n out)" for n
    using assms(2) by (meson in_set_dropD list_all_iff)
  ultimately show ?thesis by (auto simp: dsp_util_interleave_def list_all_iff)
qed

theorem interleave_clips_witness:
  "list_all int16 (dsp_util_interleave rat_math [0] [[5, - 7, 1 / 3]] 3 [])"
proof (rule interleave_clips)
  fix x :: rat
  assume "\<not> c_of_int rat_math 32767 < x" "\<not> x < c_of_int rat_math (- 32768)"
  then have b: "x \<le> 32767" "- 32768 \<le> x" by (simp_all add: rat_math_def)
  then have "\<lfloor>x + 1 / 2\<rfloor> \<le> 32767" "- 32768 \<le> \<lceil>x - 1 / 2\<rceil>"
    by (simp_all add: floor_le_iff le_ceiling_iff)
  moreover have "0 < x \<Longrightarrow> - 32768 \<le> \<lfloor>x + 1 / 2\<rfloor>" "\<not> 0 < x \<Longrightarrow> \<lceil>x - 1 / 2\<rceil> \<le> 32767"
    by (simp_all add: le_floor_iff ceiling_le_iff)
  ultimately show "int16 (c_trunc rat_math (if 0 < x then x + c_float rat_math (c_lit rat_math 1 2)
      else x - c_float rat_math (c_lit rat_math 1 2)))"
    by (auto simp: int16_def rat_math_def)
qed simp

end
