(* ===== verification/Dsp_Run.thy ===== *)
theory Dsp_Run
  imports Dsp_Module Dsp_Pipeline Dsp_Util
begin

text \<open>
  Loading, instantiating and running a pipeline: the second half of
  \<^verbatim>\<open>audio/hal/cras_dsp_pipeline.c\<close>. The functions of the modules are the argument \<open>ops\<close>. The
  memory of a pipeline is its list of audio buffers together with the values of its control ports.
  Pointers stay valid: the arrays of instances and ports do not grow any more.
\<close>

subsection \<open>Faults\<close>

datatype run_fault =
  Null_Module | Null_Peer | Busy_Out_Of_Range | Null_Busy | Buffer_Out_Of_Range | Null_Upstream
  | Null_Buffer | Null_Buffer_Table | Null_Instance | Module_Fault mod_fault

definition lift_fault :: "mod_fault + 'a \<Rightarrow> run_fault + 'a" where
  "lift_fault r = (case r of Inl e \<Rightarrow> Inl (Module_Fault e) | Inr x \<Rightarrow> Inr x)"

lemma lift_fault_Inr [simp]: "lift_fault r = Inr x \<longleftrightarrow> r = Inr x"
  by (cases r) (simp_all add: lift_fault_def)

definition the_module :: "('f, 'm) dsp_instance \<Rightarrow> run_fault + 'm" where
  "the_module inst = (case in_module inst of None \<Rightarrow> Inl Null_Module | Some m \<Rightarrow> Inr m)"

lemma the_module_Inr: "the_module inst = Inr m \<longleftrightarrow> in_module inst = Some m"
  by (simp add: the_module_def split: option.split)

subsection \<open>Loading the modules\<close>

definition load_module ::
  "('m, 'f) module_ops \<Rightarrow> 'f plugin \<Rightarrow> ('f, 'm) dsp_instance \<Rightarrow> int \<times> ('f, 'm) dsp_instance" where
  "load_module ops plugin inst =
     (case mo_load ops plugin of
        None \<Rightarrow> (- 1, inst)
      | Some m \<Rightarrow> (0, inst\<lparr>in_module := Some m, in_properties := mo_get_properties ops m\<rparr>))"

fun load_instances ::
  "('m, 'f) module_ops \<Rightarrow> 'f ini \<Rightarrow> ('f, 'm) dsp_instance list \<Rightarrow> int \<times> ('f, 'm) dsp_instance list" where
  "load_instances ops ini [] = (0, [])"
| "load_instances ops ini (a # as) =
     (case load_module ops (ini_plugins ini ! in_plugin a) a of
        (rc, a') \<Rightarrow> if rc \<noteq> 0 then (- 1, a' # as)
                   else (case load_instances ops ini as of (rc', as') \<Rightarrow> (rc', a' # as')))"

subsection \<open>Assigning buffers to ports\<close>

text \<open>The first free buffer from \<open>k\<close> on; \<open>None\<close> when the search runs off the end of the array.\<close>

definition next_free :: "bool list \<Rightarrow> nat \<Rightarrow> nat option" where
  "next_free busy k = find (\<lambda>j. \<not> busy ! j) [k..<length busy]"

fun use_buffers :: "nat \<Rightarrow> audio_port list \<Rightarrow> bool list \<Rightarrow> run_fault + audio_port list \<times> bool list" where
  "use_buffers k [] busy = Inr ([], busy)"
| "use_buffers k (p # ps) busy =
     (case next_free busy k of
        None \<Rightarrow> Inl Busy_Out_Of_Range
      | Some j \<Rightarrow>
          and_then (use_buffers j ps (busy[j := True]))
            (\<lambda>(ps', busy'). Inr (p\<lparr>ap_buf_index := j\<rparr> # ps', busy')))"

fun unuse_buffers :: "audio_port list \<Rightarrow> bool list \<Rightarrow> run_fault + bool list" where
  "unuse_buffers [] busy = Inr busy"
| "unuse_buffers (p # ps) busy =
     (if ap_buf_index p < length busy then unuse_buffers ps (busy[ap_buf_index p := False])
      else Inl Busy_Out_Of_Range)"

text \<open>The first loop of \<^verbatim>\<open>allocate_buffers\<close>: the buffers needed now and the most needed so far.\<close>

definition count_step :: "('f, 'm) dsp_instance \<Rightarrow> int \<times> int \<Rightarrow> int \<times> int" where
  "count_step inst np =
     (case np of (need_buf, peak_buf) \<Rightarrow>
        (let inp = int (length (in_input_audio_ports inst)); out = int (length (in_output_audio_ports inst))
         in if inplace_broken (in_properties inst)
            then (need_buf + out - inp, max peak_buf (need_buf + out))
            else (need_buf + (out - inp), max peak_buf (need_buf + (out - inp)))))"

definition count_buffers :: "('f, 'm) dsp_instance list \<Rightarrow> int" where
  "count_buffers insts = snd (fold count_step insts (0, 0))"

text \<open>The buffer index of the output port an input port is connected to.\<close>

definition peer_buffer :: "('f, 'm) dsp_instance list \<Rightarrow> audio_port \<Rightarrow> run_fault + nat" where
  "peer_buffer insts p =
     (case ap_peer p of
        None \<Rightarrow> Inl Null_Peer
      | Some (a, k) \<Rightarrow> Inr (ap_buf_index (in_output_audio_ports (insts ! a) ! k)))"

fun collect_buffers ::
  "('f, 'm) dsp_instance list \<Rightarrow> audio_port list \<Rightarrow> run_fault + audio_port list" where
  "collect_buffers insts [] = Inr []"
| "collect_buffers insts (p # ps) =
     and_then (peer_buffer insts p) (\<lambda>b.
     and_then (collect_buffers insts ps) (\<lambda>ps'. Inr (p\<lparr>ap_buf_index := b\<rparr> # ps')))"

text \<open>The body of the last loop of \<^verbatim>\<open>allocate_buffers\<close>.\<close>

definition assign_instance ::
  "nat \<Rightarrow> ('f, 'm) dsp_instance list \<times> bool list \<Rightarrow> run_fault + ('f, 'm) dsp_instance list \<times> bool list" where
  "assign_instance i st =
     (case st of (insts, busy) \<Rightarrow>
        and_then (collect_buffers insts (in_input_audio_ports (insts ! i))) (\<lambda>ins.
        and_then
          (if inplace_broken (in_properties (insts ! i)) then
             and_then (use_buffers 0 (in_output_audio_ports (insts ! i)) busy) (\<lambda>(outs, busy').
             and_then (unuse_buffers ins busy') (\<lambda>busy''. Inr (outs, busy'')))
           else
             and_then (unuse_buffers ins busy) (\<lambda>busy'. use_buffers 0 (in_output_audio_ports (insts ! i)) busy'))
          (\<lambda>(outs, busy').
             Inr (insts[i := (insts ! i)\<lparr>in_input_audio_ports := ins, in_output_audio_ports := outs\<rparr>], busy'))))"

definition DSP_BUFFER_SIZE :: nat where
  "DSP_BUFFER_SIZE = 2048"

text \<open>Some port makes the loops touch the array of busy flags.\<close>

definition has_audio_port :: "('f, 'm) dsp_instance list \<Rightarrow> bool" where
  "has_audio_port insts \<longleftrightarrow> list_ex (\<lambda>a. in_input_audio_ports a \<noteq> [] \<or> in_output_audio_ports a \<noteq> []) insts"

text \<open>
  \<^verbatim>\<open>allocate_buffers\<close>: the return code and the pipeline. \<open>zero\<close> is what cleared memory reads as. A
  missing table of buffers is the empty list, and a missing buffer an empty one.
\<close>

definition allocate_buffers ::
  "allocator \<Rightarrow> 'f \<Rightarrow> ('f, 'm) pipeline \<Rightarrow> run_fault + int \<times> ('f, 'm) pipeline" where
  "allocate_buffers alloc zero p =
     (let peak_buf = nat (count_buffers (pp_instances p));
          p1 = p\<lparr>pp_peak_buf := int peak_buf\<rparr>
      in if \<not> alloc (peak_buf * sizeof_ptr) then Inr (- 1, p1\<lparr>pp_buffers := []\<rparr>)
         else if 0 < peak_buf \<and> \<not> alloc (DSP_BUFFER_SIZE * 4) then Inr (- 1, p1\<lparr>pp_buffers := replicate peak_buf []\<rparr>)
         else if \<not> alloc peak_buf \<and> has_audio_port (pp_instances p) then Inl Null_Busy
         else
           (let p2 = p1\<lparr>pp_buffers := replicate peak_buf (replicate DSP_BUFFER_SIZE zero)\<rparr>
            in and_then (for_each assign_instance [0..<length (pp_instances p)]
                           (pp_instances p, replicate peak_buf False))
                 (\<lambda>(insts, busy). Inr (0, p2\<lparr>pp_instances := insts\<rparr>))))"

definition cras_dsp_pipeline_load ::
  "('m, 'f) module_ops \<Rightarrow> allocator \<Rightarrow> 'f \<Rightarrow> ('f, 'm) pipeline \<Rightarrow> run_fault + int \<times> ('f, 'm) pipeline" where
  "cras_dsp_pipeline_load ops alloc zero p =
     (case load_instances ops (pp_ini p) (pp_instances p) of
        (rc, insts) \<Rightarrow>
          if rc \<noteq> 0 then Inr (- 1, p\<lparr>pp_instances := insts\<rparr>)
          else and_then (allocate_buffers alloc zero (p\<lparr>pp_instances := insts\<rparr>))
                 (\<lambda>(rc', p'). Inr (if rc' \<noteq> 0 then - 1 else 0, p')))"

subsection \<open>Instantiating\<close>

text \<open>The largest delay of the instances that feed the ports.\<close>

fun upstream_delay :: "('f, 'm) dsp_instance list \<Rightarrow> audio_port list \<Rightarrow> int \<Rightarrow> run_fault + int" where
  "upstream_delay insts [] delay = Inr delay"
| "upstream_delay insts (p # ps) delay =
     (case ap_peer p of
        None \<Rightarrow> Inl Null_Peer
      | Some (a, k) \<Rightarrow>
          (case find_instance_by_plugin insts (ap_plugin (in_output_audio_ports (insts ! a) ! k)) of
             None \<Rightarrow> Inl Null_Upstream
           | Some u \<Rightarrow> upstream_delay insts ps (max (in_total_delay (insts ! u)) delay)))"

definition delay_instance ::
  "('m, 'f) module_ops \<Rightarrow> nat \<Rightarrow> ('f, 'm) dsp_instance list \<Rightarrow> run_fault + ('f, 'm) dsp_instance list" where
  "delay_instance ops i insts =
     and_then (upstream_delay insts (in_input_audio_ports (insts ! i)) 0) (\<lambda>delay.
     and_then (the_module (insts ! i)) (\<lambda>m.
     and_then (lift_fault (mo_get_delay ops m)) (\<lambda>d.
     Inr (insts[i := (insts ! i)\<lparr>in_total_delay := delay + d\<rparr>]))))"

definition calculate_audio_delay ::
  "('m, 'f) module_ops \<Rightarrow> ('f, 'm) dsp_instance list \<Rightarrow> run_fault + ('f, 'm) dsp_instance list" where
  "calculate_audio_delay ops insts = for_each (delay_instance ops) [0..<length insts] insts"

text \<open>The first loop of \<^verbatim>\<open>cras_dsp_pipeline_instantiate\<close>.\<close>

fun instantiate_modules ::
  "('m, 'f) module_ops \<Rightarrow> int \<Rightarrow> ('f, 'm) dsp_instance list \<Rightarrow> run_fault + int \<times> ('f, 'm) dsp_instance list" where
  "instantiate_modules ops rate [] = Inr (0, [])"
| "instantiate_modules ops rate (a # as) =
     and_then (the_module a) (\<lambda>m.
       (case mo_instantiate ops m rate of
          (rc, m') \<Rightarrow>
            if rc \<noteq> 0 then Inr (- 1, a\<lparr>in_module := Some m'\<rparr> # as)
            else and_then (instantiate_modules ops rate as)
                   (\<lambda>(rc', as'). Inr (rc', a\<lparr>in_module := Some m', in_instantiated := True\<rparr> # as'))))"

text \<open>What the ports of instance \<open>i\<close> are connected to, in the order of the calls.\<close>

definition connections :: "nat \<Rightarrow> ('f, 'm) dsp_instance \<Rightarrow> (nat \<times> data_location) list" where
  "connections i a =
     map (\<lambda>p. (ap_original_index p, Loc_Buffer (ap_buf_index p))) (in_input_audio_ports a) @
     map (\<lambda>p. (ap_original_index p, Loc_Buffer (ap_buf_index p))) (in_output_audio_ports a) @
     map (\<lambda>(j, c). (cp_original_index c,
            case cp_peer c of Some (a', k) \<Rightarrow> Loc_Control_Out a' k | None \<Rightarrow> Loc_Control_In i j))
       (enumerate 0 (in_input_control_ports a)) @
     map (\<lambda>(j, c). (cp_original_index c, Loc_Control_Out i j)) (enumerate 0 (in_output_control_ports a))"

definition connect_one ::
  "('m, 'f) module_ops \<Rightarrow> nat \<Rightarrow> nat \<times> data_location \<Rightarrow> 'm \<Rightarrow> run_fault + 'm" where
  "connect_one ops nbuf c m =
     (case c of (port, loc) \<Rightarrow>
        (case loc of
           Loc_Buffer b \<Rightarrow>
             if b < nbuf then lift_fault (mo_connect_port ops m port loc) else Inl Buffer_Out_Of_Range
         | _ \<Rightarrow> lift_fault (mo_connect_port ops m port loc)))"

definition connect_instance ::
  "('m, 'f) module_ops \<Rightarrow> nat \<Rightarrow> nat \<Rightarrow> ('f, 'm) dsp_instance list \<Rightarrow> run_fault + ('f, 'm) dsp_instance list" where
  "connect_instance ops nbuf i insts =
     and_then (the_module (insts ! i)) (\<lambda>m.
     and_then (for_each (connect_one ops nbuf) (connections i (insts ! i)) m) (\<lambda>m'.
     Inr (insts[i := (insts ! i)\<lparr>in_module := Some m'\<rparr>])))"

definition cras_dsp_pipeline_instantiate ::
  "('m, 'f) module_ops \<Rightarrow> ('f, 'm) pipeline \<Rightarrow> int \<Rightarrow> run_fault + int \<times> ('f, 'm) pipeline" where
  "cras_dsp_pipeline_instantiate ops p sample_rate =
     and_then (instantiate_modules ops sample_rate (pp_instances p)) (\<lambda>(rc, insts).
       if rc \<noteq> 0 then Inr (- 1, p\<lparr>pp_instances := insts\<rparr>)
       else
         and_then (for_each (connect_instance ops (length (pp_buffers p))) [0..<length insts] insts) (\<lambda>insts'.
         and_then (calculate_audio_delay ops insts') (\<lambda>insts''.
         Inr (0, p\<lparr>pp_sample_rate := sample_rate, pp_instances := insts''\<rparr>))))"

fun deinstantiate_modules ::
  "('m, 'f) module_ops \<Rightarrow> ('f, 'm) dsp_instance list \<Rightarrow> run_fault + ('f, 'm) dsp_instance list" where
  "deinstantiate_modules ops [] = Inr []"
| "deinstantiate_modules ops (a # as) =
     and_then
       (if in_instantiated a
        then and_then (the_module a) (\<lambda>m. and_then (lift_fault (mo_deinstantiate ops m))
               (\<lambda>m'. Inr (a\<lparr>in_module := Some m', in_instantiated := False\<rparr>)))
        else Inr a)
       (\<lambda>a'. and_then (deinstantiate_modules ops as) (\<lambda>as'. Inr (a' # as')))"

definition cras_dsp_pipeline_deinstantiate ::
  "('m, 'f) module_ops \<Rightarrow> ('f, 'm) pipeline \<Rightarrow> run_fault + ('f, 'm) pipeline" where
  "cras_dsp_pipeline_deinstantiate ops p =
     and_then (deinstantiate_modules ops (pp_instances p))
       (\<lambda>insts. Inr (p\<lparr>pp_instances := insts, pp_sample_rate := 0\<rparr>))"

subsection \<open>Queries\<close>

definition cras_dsp_pipeline_get_delay :: "('f, 'm) pipeline \<Rightarrow> run_fault + int" where
  "cras_dsp_pipeline_get_delay p =
     (case pp_sink_instance p of None \<Rightarrow> Inl Null_Instance | Some k \<Rightarrow> Inr (in_total_delay (pp_instances p ! k)))"

definition cras_dsp_pipeline_get_sample_rate :: "('f, 'm) pipeline \<Rightarrow> int" where
  "cras_dsp_pipeline_get_sample_rate p = pp_sample_rate p"

definition cras_dsp_pipeline_get_num_input_channels :: "('f, 'm) pipeline \<Rightarrow> nat" where
  "cras_dsp_pipeline_get_num_input_channels p = pp_input_channels p"

definition cras_dsp_pipeline_get_num_output_channels :: "('f, 'm) pipeline \<Rightarrow> nat" where
  "cras_dsp_pipeline_get_num_output_channels p = pp_output_channels p"

definition cras_dsp_pipeline_get_peak_audio_buffers :: "('f, 'm) pipeline \<Rightarrow> int" where
  "cras_dsp_pipeline_get_peak_audio_buffers p = pp_peak_buf p"

text \<open>A buffer by the original index of a port: NULL when there is no such port.\<close>

definition find_buffer :: "audio_port list \<Rightarrow> nat \<Rightarrow> nat option" where
  "find_buffer ports index = map_option ap_buf_index (find (\<lambda>p. ap_original_index p = index) ports)"

definition cras_dsp_pipeline_get_source_buffer :: "('f, 'm) pipeline \<Rightarrow> nat \<Rightarrow> nat option" where
  "cras_dsp_pipeline_get_source_buffer p index =
     (case pp_source_instance p of None \<Rightarrow> None
      | Some a \<Rightarrow> find_buffer (in_output_audio_ports (pp_instances p ! a)) index)"

definition cras_dsp_pipeline_get_sink_buffer :: "('f, 'm) pipeline \<Rightarrow> nat \<Rightarrow> nat option" where
  "cras_dsp_pipeline_get_sink_buffer p index =
     (case pp_sink_instance p of None \<Rightarrow> None
      | Some a \<Rightarrow> find_buffer (in_input_audio_ports (pp_instances p ! a)) index)"

subsection \<open>Running\<close>

text \<open>The memory the modules of a pipeline see, and the pipeline with a changed memory.\<close>

definition store_of :: "('f, 'm) pipeline \<Rightarrow> 'f store" where
  "store_of p =
     \<lparr>st_buffers = pp_buffers p,
      st_controls = (\<lambda>l. case l of
         Loc_Buffer b \<Rightarrow> pp_buffers p ! b ! 0
       | Loc_Control_In a k \<Rightarrow> cp_value (in_input_control_ports (pp_instances p ! a) ! k)
       | Loc_Control_Out a k \<Rightarrow> cp_value (in_output_control_ports (pp_instances p ! a) ! k))\<rparr>"

definition put_store :: "'f store \<Rightarrow> ('f, 'm) pipeline \<Rightarrow> ('f, 'm) pipeline" where
  "put_store s p =
     p\<lparr>pp_buffers := st_buffers s,
       pp_instances := map (\<lambda>(a, inst).
         inst\<lparr>in_input_control_ports :=
                map (\<lambda>(k, c). c\<lparr>cp_value := st_controls s (Loc_Control_In a k)\<rparr>) (enumerate 0 (in_input_control_ports inst)),
              in_output_control_ports :=
                map (\<lambda>(k, c). c\<lparr>cp_value := st_controls s (Loc_Control_Out a k)\<rparr>) (enumerate 0 (in_output_control_ports inst))\<rparr>)
         (enumerate 0 (pp_instances p))\<rparr>"

definition run_instance ::
  "('m, 'f) module_ops \<Rightarrow> nat \<Rightarrow> nat \<Rightarrow> ('f, 'm) pipeline \<Rightarrow> run_fault + ('f, 'm) pipeline" where
  "run_instance ops sample_count i p =
     and_then (the_module (pp_instances p ! i)) (\<lambda>m.
     and_then (lift_fault (mo_run ops m sample_count (store_of p))) (\<lambda>(m', s').
     Inr (put_store s' (p\<lparr>pp_instances := (pp_instances p)[i := (pp_instances p ! i)\<lparr>in_module := Some m'\<rparr>]\<rparr>))))"

definition cras_dsp_pipeline_run ::
  "('m, 'f) module_ops \<Rightarrow> ('f, 'm) pipeline \<Rightarrow> nat \<Rightarrow> run_fault + ('f, 'm) pipeline" where
  "cras_dsp_pipeline_run ops p sample_count =
     for_each (run_instance ops sample_count) [0..<length (pp_instances p)] p"

definition cras_dsp_pipeline_add_statistic :: "('f, 'm) pipeline \<Rightarrow> int \<times> int \<Rightarrow> int \<Rightarrow> ('f, 'm) pipeline" where
  "cras_dsp_pipeline_add_statistic p time_delta samples =
     (if samples \<le> 0 then p
      else
        (let t = fst time_delta * 1000000000 + snd time_delta;
             p1 = (if pp_total_blocks p = 0 then p\<lparr>pp_max_time := t, pp_min_time := t\<rparr>
                   else p\<lparr>pp_max_time := max (pp_max_time p) t, pp_min_time := min (pp_min_time p) t\<rparr>)
         in p1\<lparr>pp_total_blocks := pp_total_blocks p1 + 1, pp_total_samples := pp_total_samples p1 + samples,
               pp_total_time := pp_total_time p1 + t\<rparr>))"

text \<open>
  The loop of \<^verbatim>\<open>cras_dsp_pipeline_apply\<close>. \<open>target\<close> is the rest of the caller's samples from the moving
  pointer on, and the result is what this rest becomes.
\<close>

function apply_loop ::
  "('m, 'f) module_ops \<Rightarrow> ('f :: {zero, plus, minus, times, inverse, ord}, 'd) cmath \<Rightarrow> nat list \<Rightarrow> nat list
     \<Rightarrow> ('f, 'm) pipeline \<Rightarrow> int list \<Rightarrow> nat \<Rightarrow> run_fault + ('f, 'm) pipeline \<times> int list" where
  "apply_loop ops m source sink p target remaining =
     (if remaining = 0 then Inr (p, target)
      else
        (let chunk = min remaining DSP_BUFFER_SIZE;
             p1 = p\<lparr>pp_buffers := dsp_util_deinterleave m target source chunk (pp_buffers p)\<rparr>
         in and_then (cras_dsp_pipeline_run ops p1 chunk) (\<lambda>p2.
              (let target' = dsp_util_interleave m sink (pp_buffers p2) chunk target;
                   n = chunk * length sink
               in and_then (apply_loop ops m source sink p2 (drop n target') (remaining - chunk))
                    (\<lambda>(p3, rest). Inr (p3, take n target' @ rest))))))"
  by pat_completeness auto
termination
  by (relation "measure (\<lambda>(_, _, _, _, _, _, remaining). remaining)") (auto simp: DSP_BUFFER_SIZE_def)

declare apply_loop.simps [simp del]

definition cras_dsp_pipeline_apply ::
  "('m, 'f) module_ops \<Rightarrow> ('f :: {zero, plus, minus, times, inverse, ord}, 'd) cmath \<Rightarrow> ('f, 'm) pipeline
     \<Rightarrow> int list \<Rightarrow> nat \<Rightarrow> run_fault + ('f, 'm) pipeline \<times> int list" where
  "cras_dsp_pipeline_apply ops m p buf frames =
     (if frames = 0 then Inr (p, buf)
      else
        (let source = map (cras_dsp_pipeline_get_source_buffer p) [0..<pp_input_channels p];
             sink = map (cras_dsp_pipeline_get_sink_buffer p) [0..<pp_output_channels p]
         in if None \<in> set source \<or> None \<in> set sink then Inl Null_Buffer
            else apply_loop ops m (map the source) (map the sink) p buf frames))"

text \<open>\<^verbatim>\<open>cras_dsp_pipeline_free\<close>: the modules that are freed, in their last state.\<close>

fun free_instances ::
  "('m, 'f) module_ops \<Rightarrow> ('f, 'm) dsp_instance list \<Rightarrow> run_fault + 'm list" where
  "free_instances ops [] = Inr []"
| "free_instances ops (a # as) =
     (case in_module a of
        None \<Rightarrow> free_instances ops as
      | Some m \<Rightarrow>
          and_then (if in_instantiated a then lift_fault (mo_deinstantiate ops m) else Inr m) (\<lambda>m'.
          and_then (free_instances ops as) (\<lambda>ms. Inr (m' # ms))))"

definition cras_dsp_pipeline_free :: "('m, 'f) module_ops \<Rightarrow> ('f, 'm) pipeline \<Rightarrow> run_fault + 'm list" where
  "cras_dsp_pipeline_free ops p =
     and_then (free_instances ops (pp_instances p)) (\<lambda>ms.
       if int (length (pp_buffers p)) < pp_peak_buf p then Inl Null_Buffer_Table else Inr ms)"

subsection \<open>Searching for free buffers\<close>

lemma next_free_Some:
  assumes "0 < unvisited busy" "\<And>j. j < k \<Longrightarrow> busy ! j"
  obtains j where "next_free busy k = Some j" "k \<le> j" "j < length busy" "\<not> busy ! j" "\<And>i. i < j \<Longrightarrow> busy ! i"
proof -
  have "filter Not busy \<noteq> []" using assms(1) by (simp add: unvisited_def)
  then obtain i where i: "i < length busy" "\<not> busy ! i"
    by (auto simp: filter_empty_conv in_set_conv_nth)
  with assms(2) have "k \<le> i" by (meson not_le)
  with i have "next_free busy k \<noteq> None" by (auto simp: next_free_def find_None_iff)
  then obtain j where j: "next_free busy k = Some j" by blast
  then obtain n where n: "n < length [k..<length busy]" "\<not> busy ! ([k..<length busy] ! n)" "j = [k..<length busy] ! n"
      "\<forall>m < n. busy ! ([k..<length busy] ! m)"
    by (auto simp: next_free_def find_Some_iff)
  then have jn: "j = k + n" "j < length busy" "\<not> busy ! j" by auto
  moreover have "busy ! i'" if "i' < j" for i'
  proof (cases "i' < k")
    case False
    with that jn have "i' - k < n" "k + (i' - k) = i'" by simp_all
    with n(1,4) show ?thesis by (metis nth_upt length_upt less_diff_conv2 less_imp_le_nat add.commute jn(2) order.strict_trans that)
  qed (use assms(2) in simp)
  ultimately show ?thesis using j that by simp
qed

text \<open>What \<^verbatim>\<open>use_buffers\<close> does when there are enough free buffers.\<close>

lemma use_buffers_spec:
  "length ps \<le> unvisited busy \<Longrightarrow> (\<And>j. j < k \<Longrightarrow> busy ! j) \<Longrightarrow>
   \<exists>bs busy'. use_buffers k ps busy = Inr (map2 (\<lambda>p b. p\<lparr>ap_buf_index := b\<rparr>) ps bs, busy') \<and>
     length bs = length ps \<and> distinct bs \<and> (\<forall>b \<in> set bs. b < length busy \<and> \<not> busy ! b) \<and>
     length busy' = length busy \<and> (\<forall>j < length busy. busy' ! j \<longleftrightarrow> busy ! j \<or> j \<in> set bs)"
proof (induction ps arbitrary: k busy)
  case (Cons p ps)
  obtain j where j: "next_free busy k = Some j" "k \<le> j" "j < length busy" "\<not> busy ! j" "\<And>i. i < j \<Longrightarrow> busy ! i"
    using next_free_Some [of busy k] Cons.prems by force
  let ?busy = "busy[j := True]"
  have "length ps \<le> unvisited ?busy" using unvisited_mark [OF j(3,4)] Cons.prems(1) by simp
  moreover have "\<And>i. i < j \<Longrightarrow> ?busy ! i" using j(5) by simp
  ultimately obtain bs busy' where u: "use_buffers j ps ?busy = Inr (map2 (\<lambda>p b. p\<lparr>ap_buf_index := b\<rparr>) ps bs, busy')"
      "length bs = length ps" "distinct bs" "\<forall>b \<in> set bs. b < length busy \<and> \<not> ?busy ! b"
      "length busy' = length busy" "\<forall>i < length busy. busy' ! i \<longleftrightarrow> ?busy ! i \<or> i \<in> set bs"
    using Cons.IH [of ?busy j] by auto
  have bs: "\<forall>b \<in> set bs. b \<noteq> j \<and> \<not> busy ! b" using u(4) j(3) by (metis nth_list_update_eq nth_list_update_neq)
  have "use_buffers k (p # ps) busy = Inr (map2 (\<lambda>p b. p\<lparr>ap_buf_index := b\<rparr>) (p # ps) (j # bs), busy')"
    using j(1) u(1) by simp
  moreover have "\<forall>i < length busy. busy' ! i \<longleftrightarrow> busy ! i \<or> i \<in> set (j # bs)"
    using u(6) j(3) by (auto simp: nth_list_update)
  ultimately show ?case
    using u(2-5) bs j(3,4) by (intro exI [of _ "j # bs"] exI [of _ busy']) auto
qed simp

lemma unuse_buffers_spec:
  "(\<forall>p \<in> set ps. ap_buf_index p < length busy) \<Longrightarrow>
   \<exists>busy'. unuse_buffers ps busy = Inr busy' \<and> length busy' = length busy \<and>
     (\<forall>j < length busy. busy' ! j \<longleftrightarrow> busy ! j \<and> j \<notin> ap_buf_index ` set ps)"
proof (induction ps arbitrary: busy)
  case (Cons p ps)
  let ?busy = "busy[ap_buf_index p := False]"
  have p: "ap_buf_index p < length busy" using Cons.prems by simp
  obtain busy' where u: "unuse_buffers ps ?busy = Inr busy'" "length busy' = length ?busy"
      "\<forall>j < length ?busy. busy' ! j \<longleftrightarrow> ?busy ! j \<and> j \<notin> ap_buf_index ` set ps"
    using Cons.IH [of ?busy] Cons.prems by auto
  have "\<forall>j < length busy. busy' ! j \<longleftrightarrow> busy ! j \<and> j \<notin> ap_buf_index ` set (p # ps)"
    using u(3) p by (simp add: nth_list_update)
  with p u(1,2) show ?case by (intro exI [of _ busy']) simp
qed simp

lemma unvisited_card: "unvisited busy = length busy - card {j. j < length busy \<and> busy ! j}"
proof -
  have "length (filter Not busy) + length (filter id busy) = length busy"
    using sum_length_filter_compl [of id busy] by (simp add: comp_def)
  then show ?thesis by (simp add: unvisited_def length_filter_conv_card)
qed

subsection \<open>Live ports\<close>

text \<open>
  What the buffer assignment does not change: the peers of the inputs, the number of outputs and
  the property that decides the order of allocation and release.
\<close>

definition port_shape :: "('f, 'm) dsp_instance \<Rightarrow> (nat \<times> nat) option list \<times> nat \<times> bool" where
  "port_shape a = (map ap_peer (in_input_audio_ports a), length (in_output_audio_ports a),
                   inplace_broken (in_properties a))"

definition nout :: "('f, 'm) dsp_instance list \<Rightarrow> nat \<Rightarrow> nat" where
  "nout insts a = length (in_output_audio_ports (insts ! a))"

definition in_peers :: "('f, 'm) dsp_instance list \<Rightarrow> nat \<Rightarrow> (nat \<times> nat) list" where
  "in_peers insts a = map (the \<circ> ap_peer) (in_input_audio_ports (insts ! a))"

text \<open>
  Every audio input is fed by an output of an earlier instance, and no output feeds two inputs.
\<close>

definition feeds_before :: "('f, 'm) dsp_instance list \<Rightarrow> nat \<Rightarrow> (nat \<times> nat) option \<Rightarrow> bool" where
  "feeds_before insts a q =
     (case q of None \<Rightarrow> False
      | Some (b, k) \<Rightarrow> b < a \<and> k < length (in_output_audio_ports (insts ! b)))"

definition wired :: "('f, 'm) dsp_instance list \<Rightarrow> bool" where
  "wired insts \<longleftrightarrow>
     list_all (\<lambda>a. list_all (\<lambda>p. feeds_before insts a (ap_peer p)) (in_input_audio_ports (insts ! a)))
       [0..<length insts] \<and>
     distinct (concat (map (\<lambda>a. map ap_peer (in_input_audio_ports a)) insts))"

text \<open>The output ports written by the first \<open>i\<close> instances and not yet read by one of them.\<close>

definition live :: "('f, 'm) dsp_instance list \<Rightarrow> nat \<Rightarrow> (nat \<times> nat) set" where
  "live insts i = {(b, k). b < i \<and> k < nout insts b} - (\<Union>a \<in> {..<i}. set (in_peers insts a))"

definition buf :: "('f, 'm) dsp_instance list \<Rightarrow> nat \<times> nat \<Rightarrow> nat" where
  "buf insts x = ap_buf_index (in_output_audio_ports (insts ! fst x) ! snd x)"

lemma wired_peer:
  assumes "wired insts" "a < length insts" "p \<in> set (in_input_audio_ports (insts ! a))"
  obtains b k where "ap_peer p = Some (b, k)" "b < a" "k < nout insts b"
proof -
  have "feeds_before insts a (ap_peer p)" using assms by (simp add: wired_def list_all_iff)
  with that show ?thesis by (auto simp: feeds_before_def nout_def split: option.splits)
qed

lemma in_peers_Some:
  assumes "wired insts" "a < length insts"
  shows "map ap_peer (in_input_audio_ports (insts ! a)) = map Some (in_peers insts a)"
proof -
  have "ap_peer p = Some (the (ap_peer p))" if "p \<in> set (in_input_audio_ports (insts ! a))" for p
    by (rule wired_peer [OF assms that]) simp
  then show ?thesis by (simp add: in_peers_def)
qed

lemma in_peers_range:
  assumes "wired insts" "a < length insts" "x \<in> set (in_peers insts a)"
  shows "fst x < a \<and> snd x < nout insts (fst x)"
proof -
  obtain p where p: "p \<in> set (in_input_audio_ports (insts ! a))" "x = the (ap_peer p)"
    using assms(3) by (auto simp: in_peers_def)
  show ?thesis by (rule wired_peer [OF assms(1,2) p(1)]) (use p(2) in simp)
qed

lemma wired_all_peers:
  assumes "wired insts"
  shows "distinct (concat (map (in_peers insts) [0..<length insts]))"
proof -
  have "map (\<lambda>a. map ap_peer (in_input_audio_ports a)) insts =
      map (\<lambda>i. map Some (in_peers insts i)) [0..<length insts]"
    by (rule nth_equalityI) (simp_all add: in_peers_Some [OF assms])
  then have "concat (map (\<lambda>a. map ap_peer (in_input_audio_ports a)) insts) =
      map Some (concat (map (in_peers insts) [0..<length insts]))"
    by (simp add: map_concat comp_def)
  then show ?thesis using assms by (simp add: wired_def distinct_map)
qed

lemma distinct_concat_nth:
  assumes "distinct (concat (map f [0..<n]))" "i < n"
  shows "distinct (f i)" and "j < n \<Longrightarrow> j \<noteq> i \<Longrightarrow> set (f i) \<inter> set (f j) = {}"
proof -
  have less: "set (f a) \<inter> set (f b) = {}" if "a < b" "b < n" for a b
  proof -
    have "[0..<n] = [0..<b] @ [b..<n]" "[b..<n] = b # [Suc b..<n]"
      using that upt_add_eq_append [of 0 b "n - b"] by (simp_all add: upt_conv_Cons)
    with assms(1) have "(\<Union>x \<in> {0..<b}. set (f x)) \<inter> set (f b) = {}" by auto
    moreover have "set (f a) \<subseteq> (\<Union>x \<in> {0..<b}. set (f x))" using that(1) by force
    ultimately show ?thesis by blast
  qed
  then show "j < n \<Longrightarrow> j \<noteq> i \<Longrightarrow> set (f i) \<inter> set (f j) = {}"
    using assms(2) by (metis Int_commute linorder_neqE_nat)
  have "[0..<n] = [0..<i] @ i # [Suc i..<n]"
    using assms(2) upt_add_eq_append [of 0 i "n - i"] by (simp add: upt_conv_Cons)
  with assms(1) show "distinct (f i)" by simp
qed

lemma in_peers_disjoint:
  assumes "wired insts" "a < length insts" "b < length insts" "a \<noteq> b"
  shows "set (in_peers insts a) \<inter> set (in_peers insts b) = {}"
  using distinct_concat_nth(2) [OF wired_all_peers [OF assms(1)] assms(2), of b] assms(3,4) by auto

lemma in_peers_distinct: "wired insts \<Longrightarrow> a < length insts \<Longrightarrow> distinct (in_peers insts a)"
  using distinct_concat_nth(1) wired_all_peers by blast

lemma peers_live:
  assumes "wired insts" "i < length insts"
  shows "set (in_peers insts i) \<subseteq> live insts i"
proof
  fix x
  assume x: "x \<in> set (in_peers insts i)"
  moreover have "x \<notin> set (in_peers insts a)" if "a < i" for a
    using in_peers_disjoint [OF assms(1), of a i] that assms(2) x by auto
  ultimately show "x \<in> live insts i"
    using in_peers_range [OF assms x] by (cases x) (auto simp: live_def)
qed

lemma live_Suc:
  assumes "wired insts" "i < length insts"
  shows "live insts (Suc i) = (live insts i - set (in_peers insts i)) \<union> {i} \<times> {..<nout insts i}"
proof -
  have "(i, k) \<notin> set (in_peers insts a)" if "a \<le> i" for a k
    using in_peers_range [OF assms(1), of a "(i, k)"] that assms(2) by auto
  then show ?thesis by (auto simp: live_def less_Suc_eq)
qed

lemma finite_live: "finite (live insts i)"
proof -
  have "{(b, k). b < i \<and> k < nout insts b} = Sigma {..<i} (\<lambda>b. {..<nout insts b})" by auto
  then show ?thesis by (simp add: live_def)
qed

lemma card_live_split:
  assumes "wired insts" "i < length insts"
  shows "card (live insts (Suc i)) = card (live insts i - set (in_peers insts i)) + nout insts i"
proof -
  have new: "(live insts i - set (in_peers insts i)) \<inter> {i} \<times> {..<nout insts i} = {}" by (auto simp: live_def)
  show ?thesis
    unfolding live_Suc [OF assms]
    by (subst card_Un_disjoint [OF _ _ new]) (auto simp: finite_live card_cartesian_product)
qed

lemma card_live_Suc:
  assumes "wired insts" "i < length insts"
  shows "int (card (live insts (Suc i))) =
    int (card (live insts i)) - int (length (in_input_audio_ports (insts ! i))) + int (nout insts i)"
proof -
  have "card (live insts i - set (in_peers insts i)) = card (live insts i) - length (in_peers insts i)"
    using peers_live [OF assms] in_peers_distinct [OF assms]
    by (simp add: card_Diff_subset distinct_card)
  moreover have "length (in_peers insts i) \<le> card (live insts i)"
    using peers_live [OF assms] in_peers_distinct [OF assms]
    by (metis card_mono distinct_card finite_live)
  ultimately show ?thesis using card_live_split [OF assms] by (simp add: in_peers_def)
qed

subsection \<open>One instance\<close>

lemma shape_facts:
  assumes "map port_shape insts' = map port_shape insts"
  shows "length insts' = length insts"
    and "a < length insts \<Longrightarrow> nout insts' a = nout insts a"
    and "a < length insts \<Longrightarrow> in_peers insts' a = in_peers insts a"
    and "a < length insts \<Longrightarrow> inplace_broken (in_properties (insts' ! a)) = inplace_broken (in_properties (insts ! a))"
    and "a < length insts \<Longrightarrow> map ap_peer (in_input_audio_ports (insts' ! a)) = map ap_peer (in_input_audio_ports (insts ! a))"
proof -
  show len: "length insts' = length insts" using assms by (metis length_map)
  have "port_shape (insts' ! a) = port_shape (insts ! a)" if "a < length insts" for a
    using assms len that by (metis nth_map)
  then show "a < length insts \<Longrightarrow> nout insts' a = nout insts a"
    "a < length insts \<Longrightarrow> in_peers insts' a = in_peers insts a"
    "a < length insts \<Longrightarrow> inplace_broken (in_properties (insts' ! a)) = inplace_broken (in_properties (insts ! a))"
    "a < length insts \<Longrightarrow> map ap_peer (in_input_audio_ports (insts' ! a)) = map ap_peer (in_input_audio_ports (insts ! a))"
    unfolding port_shape_def nout_def in_peers_def by (simp_all flip: map_map)
qed

lemma wired_shape:
  assumes "map port_shape insts' = map port_shape insts" "wired insts"
  shows "wired insts'"
proof -
  note sh = shape_facts [OF assms(1)]
  note peers = sh(5)
  have "list_all (feeds_before insts' a) (map ap_peer (in_input_audio_ports (insts' ! a)))" if a: "a < length insts" for a
  proof -
    have "list_all (feeds_before insts a) (map ap_peer (in_input_audio_ports (insts ! a)))"
      using assms(2) a by (auto simp: wired_def list_all_iff)
    moreover have "feeds_before insts a q \<Longrightarrow> feeds_before insts' a q" for q
      using sh(2) a by (auto simp: feeds_before_def nout_def split: option.splits)
    ultimately show ?thesis unfolding peers [OF a] by (auto simp: list_all_iff)
  qed
  moreover have "map (\<lambda>a. map ap_peer (in_input_audio_ports a)) insts' = map (\<lambda>a. map ap_peer (in_input_audio_ports a)) insts"
    using peers sh(1) by (intro nth_equalityI) simp_all
  ultimately show ?thesis
    using assms(2) sh(1) by (auto simp: wired_def list_all_iff)
qed

lemma live_shape:
  assumes "map port_shape insts' = map port_shape insts" "i \<le> length insts"
  shows "live insts' i = live insts i"
  using shape_facts(2,3) [OF assms(1)] assms(2) unfolding live_def by auto

lemma collect_buffers_spec:
  "(\<forall>p \<in> set ps. ap_peer p \<noteq> None) \<Longrightarrow>
     collect_buffers insts ps = Inr (map (\<lambda>p. p\<lparr>ap_buf_index := buf insts (the (ap_peer p))\<rparr>) ps)"
  by (induction ps) (auto simp: peer_buffer_def buf_def)

text \<open>
  The state after instance \<open>i\<close> got its buffers: its inputs those of their writers, its outputs \<open>bs\<close>.
\<close>

definition assigned :: "('f, 'm) dsp_instance list \<Rightarrow> nat \<Rightarrow> nat list \<Rightarrow> ('f, 'm) dsp_instance list" where
  "assigned insts i bs =
     insts[i := (insts ! i)\<lparr>
       in_input_audio_ports := map (\<lambda>p. p\<lparr>ap_buf_index := buf insts (the (ap_peer p))\<rparr>) (in_input_audio_ports (insts ! i)),
       in_output_audio_ports := map2 (\<lambda>p b. p\<lparr>ap_buf_index := b\<rparr>) (in_output_audio_ports (insts ! i)) bs\<rparr>]"

text \<open>
  The invariant of the assignment: exactly the buffers of live ports are busy, no two live ports
  share one, and no instance behind the writer of a live port was given its buffer.
\<close>

definition busy_exact :: "nat \<Rightarrow> nat \<Rightarrow> ('f, 'm) dsp_instance list \<times> bool list \<Rightarrow> bool" where
  "busy_exact peak i st \<longleftrightarrow>
     (case st of (insts, busy) \<Rightarrow>
        length busy = peak \<and> inj_on (buf insts) (live insts i) \<and>
        {j. j < peak \<and> busy ! j} = buf insts ` live insts i \<and> buf insts ` live insts i \<subseteq> {..<peak})"

lemma assign_instance_spec:
  assumes w: "wired insts" "i < length insts" and inv: "busy_exact peak i (insts, busy)"
    and cap: "card (live insts (Suc i)) \<le> peak"
      "inplace_broken (in_properties (insts ! i)) \<Longrightarrow> card (live insts i) + nout insts i \<le> peak"
  obtains bs busy' where "assign_instance i (insts, busy) = Inr (assigned insts i bs, busy')"
    "length bs = nout insts i" "distinct bs" "length busy' = peak"
    "set bs \<subseteq> {..<peak} - buf insts ` (live insts i - set (in_peers insts i))"
    "inplace_broken (in_properties (insts ! i)) \<Longrightarrow> set bs \<inter> buf insts ` live insts i = {}"
    "{j. j < peak \<and> busy' ! j} = buf insts ` (live insts i - set (in_peers insts i)) \<union> set bs"
proof -
  let ?L = "live insts i" and ?P = "set (in_peers insts i)" and ?f = "buf insts"
  let ?ps = "in_input_audio_ports (insts ! i)" and ?os = "in_output_audio_ports (insts ! i)"
  let ?ins = "map (\<lambda>p. p\<lparr>ap_buf_index := ?f (the (ap_peer p))\<rparr>) ?ps"
  have len: "length busy = peak" and inj: "inj_on ?f ?L" and busy: "{j. j < peak \<and> busy ! j} = ?f ` ?L"
    and rng: "?f ` ?L \<subseteq> {..<peak}" using inv by (auto simp: busy_exact_def)
  have sub: "?P \<subseteq> ?L" by (rule peers_live [OF w])
  have c: "collect_buffers insts ?ps = Inr ?ins"
    by (rule collect_buffers_spec) (use wired_peer [OF w] in blast)
  have ins: "ap_buf_index ` set ?ins = ?f ` ?P" by (force simp: in_peers_def image_image)
  then have ins_ok: "\<forall>p \<in> set ?ins. ap_buf_index p < peak" using sub rng by blast
  have diff: "?f ` ?L - ?f ` ?P = ?f ` (?L - ?P)" using inj_on_image_set_diff [OF inj, of ?L ?P] sub by auto
  have card: "card (?L - ?P) + nout insts i \<le> peak" using cap(1) card_live_split [OF w] by simp
  have cardf: "X \<subseteq> ?L \<Longrightarrow> card (?f ` X) = card X" for X using inj by (meson card_image inj_on_subset)
  show ?thesis
  proof (cases "inplace_broken (in_properties (insts ! i))")
    case True
    have "unvisited busy = peak - card ?L" using unvisited_card [of busy] len busy cardf by simp
    then have "length ?os \<le> unvisited busy" using cap(2) [OF True] by (simp add: nout_def)
    from use_buffers_spec [OF this, of 0] len obtain bs busy1 where
        u: "use_buffers 0 ?os busy = Inr (map2 (\<lambda>p b. p\<lparr>ap_buf_index := b\<rparr>) ?os bs, busy1)"
          "length bs = length ?os" "distinct bs" "\<forall>b \<in> set bs. b < peak \<and> \<not> busy ! b"
          "length busy1 = peak" "\<forall>j < peak. busy1 ! j \<longleftrightarrow> busy ! j \<or> j \<in> set bs" by auto
    from unuse_buffers_spec [of ?ins busy1] ins_ok u(5) obtain busy2 where
        v: "unuse_buffers ?ins busy1 = Inr busy2" "length busy2 = peak"
          "\<forall>j < peak. busy2 ! j \<longleftrightarrow> busy1 ! j \<and> j \<notin> ?f ` ?P" unfolding ins by auto
    have fresh: "set bs \<inter> ?f ` ?L = {}" "set bs \<subseteq> {..<peak}" using u(4) busy by auto
    then have fresh': "set bs \<subseteq> {..<peak} - ?f ` (?L - ?P)" by blast
    have "{j. j < peak \<and> busy2 ! j} = ({j. j < peak \<and> busy ! j} \<union> set bs) - ?f ` ?P"
      using v(3) u(4,6) by auto
    also have "\<dots> = ?f ` (?L - ?P) \<union> set bs" using busy fresh sub diff by blast
    finally show ?thesis
      using that [of bs busy2] c u v True fresh(1) fresh'
      by (auto simp: assign_instance_def assigned_def nout_def)
  next
    case False
    from unuse_buffers_spec [of ?ins busy] ins_ok len obtain busy1 where
        v: "unuse_buffers ?ins busy = Inr busy1" "length busy1 = peak"
          "\<forall>j < peak. busy1 ! j \<longleftrightarrow> busy ! j \<and> j \<notin> ?f ` ?P" unfolding ins by auto
    have "{j. j < peak \<and> busy1 ! j} = {j. j < peak \<and> busy ! j} - ?f ` ?P" using v(3) by auto
    then have b1: "{j. j < peak \<and> busy1 ! j} = ?f ` (?L - ?P)" by (simp only: busy diff)
    then have "unvisited busy1 = peak - card (?L - ?P)" using unvisited_card [of busy1] v(2) cardf [of "?L - ?P"] by auto
    then have "length ?os \<le> unvisited busy1" using card by (simp add: nout_def)
    from use_buffers_spec [OF this, of 0] v(2) obtain bs busy2 where
        u: "use_buffers 0 ?os busy1 = Inr (map2 (\<lambda>p b. p\<lparr>ap_buf_index := b\<rparr>) ?os bs, busy2)"
          "length bs = length ?os" "distinct bs" "\<forall>b \<in> set bs. b < peak \<and> \<not> busy1 ! b"
          "length busy2 = peak" "\<forall>j < peak. busy2 ! j \<longleftrightarrow> busy1 ! j \<or> j \<in> set bs" by auto
    have "{j. j < peak \<and> busy2 ! j} = ?f ` (?L - ?P) \<union> set bs" "set bs \<subseteq> {..<peak} - ?f ` (?L - ?P)"
      using u(4,6) b1 by auto
    with that [of bs busy2] c u v False show ?thesis
      by (auto simp: assign_instance_def assigned_def nout_def)
  qed
qed

subsection \<open>What the assignment establishes\<close>

lemma assigned_shape:
  assumes "i < length insts" "length bs = nout insts i"
  shows "map port_shape (assigned insts i bs) = map port_shape insts"
  using assms
  by (intro nth_equalityI) (auto simp: assigned_def port_shape_def nout_def nth_list_update comp_def)

lemma assigned_other: "a \<noteq> i \<Longrightarrow> assigned insts i bs ! a = insts ! a"
  by (simp add: assigned_def)

lemma assigned_buf_other: "fst x \<noteq> i \<Longrightarrow> buf (assigned insts i bs) x = buf insts x"
  by (simp add: buf_def assigned_other)

lemma assigned_buf_new:
  assumes "i < length insts" "length bs = nout insts i" "k < nout insts i"
  shows "buf (assigned insts i bs) (i, k) = bs ! k"
  using assms by (simp add: buf_def assigned_def nout_def)

text \<open>No instance behind the writer of a live port got the buffer of that port.\<close>

definition unclobbered :: "('f, 'm) dsp_instance list \<Rightarrow> nat \<Rightarrow> bool" where
  "unclobbered insts i \<longleftrightarrow>
     (\<forall>x \<in> live insts i. \<forall>c k. fst x < c \<longrightarrow> c < i \<longrightarrow> k < nout insts c \<longrightarrow> buf insts (c, k) \<noteq> buf insts x)"

text \<open>
  The buffers of instance \<open>a\<close> are right: they exist; its inputs read the buffers their writers wrote;
  no instance between a writer and \<open>a\<close> writes to the writer's buffer; its inputs have different
  buffers, and so have its outputs; and if it cannot work in place, no output has the buffer of an
  input.
\<close>

definition inst_safe :: "nat \<Rightarrow> ('f, 'm) dsp_instance list \<Rightarrow> nat \<Rightarrow> bool" where
  "inst_safe peak insts a \<longleftrightarrow>
     (\<forall>p \<in> set (in_input_audio_ports (insts ! a)).
        ap_buf_index p < peak \<and> ap_buf_index p = buf insts (the (ap_peer p)) \<and>
        (\<forall>c k. fst (the (ap_peer p)) < c \<longrightarrow> c < a \<longrightarrow> k < nout insts c \<longrightarrow> buf insts (c, k) \<noteq> ap_buf_index p)) \<and>
     distinct (map ap_buf_index (in_input_audio_ports (insts ! a))) \<and>
     (\<forall>p \<in> set (in_output_audio_ports (insts ! a)). ap_buf_index p < peak) \<and>
     distinct (map ap_buf_index (in_output_audio_ports (insts ! a))) \<and>
     (inplace_broken (in_properties (insts ! a)) \<longrightarrow>
        ap_buf_index ` set (in_input_audio_ports (insts ! a)) \<inter> ap_buf_index ` set (in_output_audio_ports (insts ! a)) = {})"

definition alloc_inv :: "nat \<Rightarrow> nat \<Rightarrow> ('f, 'm) dsp_instance list \<times> bool list \<Rightarrow> bool" where
  "alloc_inv peak i st \<longleftrightarrow>
     wired (fst st) \<and> busy_exact peak i st \<and> unclobbered (fst st) i \<and> (\<forall>a < i. inst_safe peak (fst st) a)"

text \<open>A choice of output buffers for instance \<open>i\<close>, and the busy flags after it.\<close>

definition good_choice :: "nat \<Rightarrow> ('f, 'm) dsp_instance list \<Rightarrow> nat \<Rightarrow> nat list \<Rightarrow> bool list \<Rightarrow> bool" where
  "good_choice peak insts i bs busy' \<longleftrightarrow>
     length bs = nout insts i \<and> distinct bs \<and> length busy' = peak \<and>
     set bs \<subseteq> {..<peak} - buf insts ` (live insts i - set (in_peers insts i)) \<and>
     (inplace_broken (in_properties (insts ! i)) \<longrightarrow> set bs \<inter> buf insts ` live insts i = {}) \<and>
     {j. j < peak \<and> busy' ! j} = buf insts ` (live insts i - set (in_peers insts i)) \<union> set bs"

lemma busy_exact_step:
  assumes w: "wired insts" "i < length insts" and inv: "busy_exact peak i (insts, busy)"
    and ch: "good_choice peak insts i bs busy'"
  shows "busy_exact peak (Suc i) (assigned insts i bs, busy')"
proof -
  let ?insts = "assigned insts i bs" and ?L = "live insts i - set (in_peers insts i)" and ?n = "nout insts i"
  have bs: "length bs = ?n" "distinct bs" "set bs \<subseteq> {..<peak} - buf insts ` ?L" using ch by (auto simp: good_choice_def)
  have live: "live ?insts (Suc i) = ?L \<union> {i} \<times> {..<?n}"
    using live_shape [OF assigned_shape [OF w(2) bs(1)], of "Suc i"] w by (simp add: live_Suc)
  have old: "buf ?insts x = buf insts x" if "x \<in> ?L" for x
    using that by (intro assigned_buf_other) (auto simp: live_def)
  have new: "buf ?insts (i, k) = bs ! k" if "k < ?n" for k using w(2) bs(1) that by (rule assigned_buf_new)
  have oldI: "buf ?insts ` ?L = buf insts ` ?L" using old by (rule image_cong [OF refl])
  have newI: "buf ?insts ` ({i} \<times> {..<?n}) = set bs"
    using bs(1) new by (fastforce simp: in_set_conv_nth image_iff)
  have "inj_on (buf insts) ?L" using inv by (auto simp: busy_exact_def intro: inj_on_subset)
  then have inj1: "inj_on (buf ?insts) ?L" using old by (simp add: inj_on_def)
  have inj2: "inj_on (buf ?insts) ({i} \<times> {..<?n})"
    using bs(1,2) new by (auto simp: inj_on_def nth_eq_iff_index_eq)
  have "buf ?insts ` ?L \<inter> buf ?insts ` ({i} \<times> {..<?n}) = {}" unfolding oldI newI using bs(3) by auto
  then have inj: "inj_on (buf ?insts) (?L \<union> {i} \<times> {..<?n})" using inj1 inj2 by (auto simp: inj_on_Un)
  have img: "buf ?insts ` (?L \<union> {i} \<times> {..<?n}) = buf insts ` ?L \<union> set bs" unfolding image_Un oldI newI ..
  have "buf insts ` ?L \<subseteq> {..<peak}" using inv by (auto simp: busy_exact_def)
  then show ?thesis
    using ch bs(3) inj unfolding busy_exact_def good_choice_def split live img by auto
qed

lemma unclobbered_step:
  assumes w: "wired insts" "i < length insts" and inv: "unclobbered insts i"
    and ch: "good_choice peak insts i bs busy'"
  shows "unclobbered (assigned insts i bs) (Suc i)"
  unfolding unclobbered_def
proof (intro ballI allI impI)
  let ?insts = "assigned insts i bs" and ?L = "live insts i - set (in_peers insts i)" and ?n = "nout insts i"
  have bs: "length bs = ?n" "set bs \<subseteq> {..<peak} - buf insts ` ?L" using ch by (auto simp: good_choice_def)
  note sh = assigned_shape [OF w(2) bs(1)]
  fix x c k
  assume x: "x \<in> live ?insts (Suc i)" and c: "fst x < c" "c < Suc i" and k: "k < nout ?insts c"
  have "x \<in> ?L \<union> {i} \<times> {..<?n}" using x live_shape [OF sh, of "Suc i"] w by (simp add: live_Suc)
  with c have xL: "x \<in> ?L" by auto
  have kc: "k < nout insts c" using k shape_facts(2) [OF sh, of c] c w(2) by simp
  have bx: "buf ?insts x = buf insts x" using c by (intro assigned_buf_other) simp
  show "buf ?insts (c, k) \<noteq> buf ?insts x"
  proof (cases "c = i")
    case True
    with kc have "buf ?insts (c, k) = bs ! k" using assigned_buf_new [OF w(2) bs(1)] by simp
    moreover have "bs ! k \<in> set bs" using kc True bs(1) by simp
    ultimately show ?thesis using bs(2) xL bx by auto
  next
    case False
    with c have "c < i" by simp
    with inv xL c kc have "buf insts (c, k) \<noteq> buf insts x" by (simp add: unclobbered_def)
    with False bx show ?thesis by (simp add: assigned_buf_other)
  qed
qed

lemma inst_safe_keep:
  assumes "wired insts" "i < length insts" "length bs = nout insts i" "a < i" "inst_safe peak insts a"
  shows "inst_safe peak (assigned insts i bs) a"
proof -
  note sh = assigned_shape [OF assms(2,3)]
  have same: "assigned insts i bs ! a = insts ! a" using assms(4) by (simp add: assigned_other)
  have buf: "buf (assigned insts i bs) x = buf insts x" if "fst x < i" for x
    using that by (intro assigned_buf_other) simp
  have peer: "fst (the (ap_peer p)) < i" if "p \<in> set (in_input_audio_ports (insts ! a))" for p
    by (rule wired_peer [OF assms(1) _ that]) (use assms(2,4) in simp_all)
  have n: "nout (assigned insts i bs) c = nout insts c" if "c < a" for c
    using shape_facts(2) [OF sh, of c] that assms(2,4) by simp
  have "ap_buf_index p < peak \<and> ap_buf_index p = buf (assigned insts i bs) (the (ap_peer p)) \<and>
      (\<forall>c k. fst (the (ap_peer p)) < c \<longrightarrow> c < a \<longrightarrow> k < nout (assigned insts i bs) c \<longrightarrow>
         buf (assigned insts i bs) (c, k) \<noteq> ap_buf_index p)"
    if p: "p \<in> set (in_input_audio_ports (insts ! a))" for p
  proof -
    have "ap_buf_index p < peak" "ap_buf_index p = buf insts (the (ap_peer p))"
      "\<forall>c k. fst (the (ap_peer p)) < c \<longrightarrow> c < a \<longrightarrow> k < nout insts c \<longrightarrow> buf insts (c, k) \<noteq> ap_buf_index p"
      using assms(5) p by (auto simp: inst_safe_def)
    moreover have "buf (assigned insts i bs) (c, k) = buf insts (c, k)" if "c < a" for c k
      using that assms(4) by (intro buf) simp
    ultimately show ?thesis using buf [OF peer [OF p]] n by simp
  qed
  from conjI [OF ballI [OF this] assms(5) [unfolded inst_safe_def, THEN conjunct2]]
  show ?thesis unfolding inst_safe_def same .
qed

lemma inst_safe_new:
  assumes w: "wired insts" "i < length insts" and inv: "busy_exact peak i (insts, busy)" "unclobbered insts i"
    and ch: "good_choice peak insts i bs busy'"
  shows "inst_safe peak (assigned insts i bs) i"
proof -
  let ?insts = "assigned insts i bs" and ?ps = "in_input_audio_ports (insts ! i)"
  have bs: "length bs = nout insts i" "distinct bs" "set bs \<subseteq> {..<peak}"
    "inplace_broken (in_properties (insts ! i)) \<Longrightarrow> set bs \<inter> buf insts ` live insts i = {}"
    using ch by (auto simp: good_choice_def)
  note sh = assigned_shape [OF w(2) bs(1)]
  have ins: "in_input_audio_ports (?insts ! i) = map (\<lambda>p. p\<lparr>ap_buf_index := buf insts (the (ap_peer p))\<rparr>) ?ps"
    and outs: "map ap_buf_index (in_output_audio_ports (?insts ! i)) = bs"
    and props: "in_properties (?insts ! i) = in_properties (insts ! i)"
    using w(2) bs(1) by (simp_all add: assigned_def nout_def comp_def split_beta map_snd_zip [unfolded comp_def])
  have live: "the (ap_peer p) \<in> live insts i" "fst (the (ap_peer p)) < i" if "p \<in> set ?ps" for p
  proof -
    have p: "the (ap_peer p) \<in> set (in_peers insts i)" using that by (simp add: in_peers_def)
    then show "the (ap_peer p) \<in> live insts i" using peers_live [OF w] by auto
    show "fst (the (ap_peer p)) < i" using in_peers_range [OF w p] by simp
  qed
  have rng: "buf insts x < peak" if "x \<in> live insts i" for x using inv(1) that by (auto simp: busy_exact_def)
  have other: "buf ?insts x = buf insts x" if "fst x < i" for x using that by (intro assigned_buf_other) simp
  have n: "nout ?insts c = nout insts c" if "c < i" for c using shape_facts(2) [OF sh, of c] that w(2) by simp
  have "inj_on (buf insts) (set (in_peers insts i))"
    using inv(1) peers_live [OF w] by (auto simp: busy_exact_def intro: inj_on_subset)
  then have d: "distinct (map (buf insts) (in_peers insts i))"
    using in_peers_distinct [OF w] by (simp add: distinct_map)
  have "distinct (map ap_buf_index (in_input_audio_ports (?insts ! i)))"
    using d by (simp add: ins in_peers_def comp_def)
  moreover have "\<forall>p \<in> set (in_output_audio_ports (?insts ! i)). ap_buf_index p < peak"
    using bs(3) outs by (metis imageI lessThan_iff list.set_map subsetD)
  moreover have "distinct (map ap_buf_index (in_output_audio_ports (?insts ! i)))" using bs(2) outs by simp
  moreover have "ap_buf_index ` set (in_input_audio_ports (?insts ! i)) \<inter>
      ap_buf_index ` set (in_output_audio_ports (?insts ! i)) = {}"
    if "inplace_broken (in_properties (?insts ! i))"
  proof -
    have "ap_buf_index ` set (in_input_audio_ports (?insts ! i)) \<subseteq> buf insts ` live insts i"
      using live(1) by (auto simp: ins)
    moreover have "ap_buf_index ` set (in_output_audio_ports (?insts ! i)) = set bs"
      using outs by (metis list.set_map)
    ultimately show ?thesis using bs(4) that props by auto
  qed
  moreover have "ap_buf_index p < peak \<and> ap_buf_index p = buf ?insts (the (ap_peer p)) \<and>
      (\<forall>c k. fst (the (ap_peer p)) < c \<longrightarrow> c < i \<longrightarrow> k < nout ?insts c \<longrightarrow> buf ?insts (c, k) \<noteq> ap_buf_index p)"
    if p: "p \<in> set (in_input_audio_ports (?insts ! i))" for p
  proof -
    obtain q where q: "q \<in> set ?ps" "p = q\<lparr>ap_buf_index := buf insts (the (ap_peer q))\<rparr>" using p by (auto simp: ins)
    with inv(2) live [OF q(1)] show ?thesis by (auto simp: rng other n unclobbered_def)
  qed
  ultimately show ?thesis unfolding inst_safe_def by (intro conjI ballI impI) blast+
qed

subsection \<open>The number of buffers is enough\<close>

definition counted :: "('f, 'm) dsp_instance list \<Rightarrow> nat \<Rightarrow> int \<times> int" where
  "counted insts i = fold count_step (take i insts) (0, 0)"

lemma counted_Suc: "i < length insts \<Longrightarrow> counted insts (Suc i) = count_step (insts ! i) (counted insts i)"
  by (simp add: counted_def take_Suc_conv_app_nth)

lemma counted_peak_mono:
  assumes "i \<le> j" "j \<le> length insts"
  shows "snd (counted insts i) \<le> snd (counted insts j)"
  using assms
proof (induction j)
  case (Suc j)
  have "snd (counted insts j) \<le> snd (counted insts (Suc j))" if "j < length insts"
    using that by (cases "counted insts j") (simp add: counted_Suc count_step_def Let_def)
  with Suc show ?case by (cases "i = Suc j") auto
qed simp

lemma counted_need:
  assumes "wired insts" "i \<le> length insts"
  shows "fst (counted insts i) = int (card (live insts i))"
  using assms(2)
proof (induction i)
  case 0
  then show ?case by (simp add: counted_def live_def)
next
  case (Suc i)
  then have "i < length insts" by simp
  with Suc card_live_Suc [OF assms(1), of i] show ?case
    by (cases "counted insts i") (simp add: counted_Suc count_step_def Let_def nout_def)
qed

lemma count_buffers_enough:
  assumes "wired insts" "i < length insts"
  shows "card (live insts (Suc i)) \<le> nat (count_buffers insts)"
    and "inplace_broken (in_properties (insts ! i)) \<Longrightarrow> card (live insts i) + nout insts i \<le> nat (count_buffers insts)"
proof -
  obtain n pk where c: "counted insts i = (n, pk)" by fastforce
  have n: "n = int (card (live insts i))" using counted_need [OF assms(1), of i] c assms(2) by simp
  have s: "counted insts (Suc i) = count_step (insts ! i) (n, pk)" using counted_Suc [OF assms(2)] c by simp
  have "snd (counted insts (Suc i)) \<le> count_buffers insts"
    using counted_peak_mono [of "Suc i" "length insts" insts] assms(2) by (simp add: counted_def count_buffers_def)
  then have le: "snd (count_step (insts ! i) (n, pk)) \<le> count_buffers insts" by (simp add: s)
  show "card (live insts i) + nout insts i \<le> nat (count_buffers insts)" if "inplace_broken (in_properties (insts ! i))"
    using le that n by (simp add: count_step_def Let_def nout_def zle_int [symmetric] le_nat_iff)
  show "card (live insts (Suc i)) \<le> nat (count_buffers insts)"
    using le n card_live_Suc [OF assms]
    by (simp add: count_step_def Let_def nout_def zle_int [symmetric] le_nat_iff split: if_splits)
qed

lemma alloc_inv_step:
  assumes len: "length insts = n" and w: "wired insts" and sh: "map port_shape (fst st) = map port_shape insts"
    and inv: "alloc_inv (nat (count_buffers insts)) i st" and i: "i < n"
  shows "\<exists>st'. assign_instance i st = Inr st' \<and> map port_shape (fst st') = map port_shape insts \<and>
    alloc_inv (nat (count_buffers insts)) (Suc i) st'"
proof -
  obtain cur busy where st: "st = (cur, busy)" by fastforce
  let ?peak = "nat (count_buffers insts)"
  have sh': "map port_shape cur = map port_shape insts" using sh st by simp
  note facts = shape_facts [OF sh']
  have ic: "i < length cur" using i len facts(1) by simp
  have inv': "wired cur" "busy_exact ?peak i (cur, busy)" "unclobbered cur i" "\<forall>a < i. inst_safe ?peak cur a"
    using inv st by (auto simp: alloc_inv_def)
  have cap: "card (live cur (Suc i)) \<le> ?peak"
      "inplace_broken (in_properties (cur ! i)) \<Longrightarrow> card (live cur i) + nout cur i \<le> ?peak"
    using count_buffers_enough [OF w, of i] i len facts live_shape [OF sh'] by simp_all
  obtain bs busy' where a: "assign_instance i (cur, busy) = Inr (assigned cur i bs, busy')"
      and ch: "good_choice ?peak cur i bs busy'"
    by (rule assign_instance_spec [OF inv'(1) ic inv'(2) cap]) (auto simp: good_choice_def)
  have bs: "length bs = nout cur i" using ch by (simp add: good_choice_def)
  have "alloc_inv ?peak (Suc i) (assigned cur i bs, busy')"
    unfolding alloc_inv_def fst_conv
  proof (intro conjI allI impI)
    show "wired (assigned cur i bs)" by (rule wired_shape [OF assigned_shape [OF ic bs] inv'(1)])
    show "busy_exact ?peak (Suc i) (assigned cur i bs, busy')" by (rule busy_exact_step [OF inv'(1) ic inv'(2) ch])
    show "unclobbered (assigned cur i bs) (Suc i)" by (rule unclobbered_step [OF inv'(1) ic inv'(3) ch])
    show "inst_safe ?peak (assigned cur i bs) a" if "a < Suc i" for a
      using that inst_safe_new [OF inv'(1) ic inv'(2,3) ch] inst_safe_keep [OF inv'(1) ic bs] inv'(4)
      by (cases "a = i") auto
  qed
  with a assigned_shape [OF ic bs] sh' st show ?thesis by auto
qed

lemma assign_all:
  assumes "wired insts"
  shows "\<exists>insts' busy'.
    for_each assign_instance [0..<length insts] (insts, replicate (nat (count_buffers insts)) False) = Inr (insts', busy') \<and>
    map port_shape insts' = map port_shape insts \<and>
    (\<forall>a < length insts. inst_safe (nat (count_buffers insts)) insts' a)"
proof -
  let ?peak = "nat (count_buffers insts)"
  let ?P = "\<lambda>i st. map port_shape (fst st) = map port_shape insts \<and> alloc_inv ?peak i st"
  have "live insts 0 = {}" by (simp add: live_def)
  then have "?P 0 (insts, replicate ?peak False)"
    using assms by (simp add: alloc_inv_def busy_exact_def unclobbered_def)
  then have "\<exists>st'. for_each assign_instance [0..<length insts] (insts, replicate ?peak False) = Inr st' \<and> ?P (length insts) st'"
    by (rule for_each_upt_total) (use alloc_inv_step [OF refl assms] in blast)
  then show ?thesis by (auto simp: alloc_inv_def)
qed

text \<open>The memory requests of \<^verbatim>\<open>allocate_buffers\<close>.\<close>

definition alloc_ok :: "allocator \<Rightarrow> nat \<Rightarrow> bool" where
  "alloc_ok alloc peak \<longleftrightarrow> alloc (peak * sizeof_ptr) \<and> alloc (DSP_BUFFER_SIZE * 4) \<and> alloc peak"

lemma allocate_buffers_succeeds:
  assumes "wired (pp_instances p)" "alloc_ok alloc (nat (count_buffers (pp_instances p)))"
  obtains p' where "allocate_buffers alloc zero p = Inr (0, p')"
    "pp_peak_buf p' = int (nat (count_buffers (pp_instances p)))"
    "pp_buffers p' = replicate (nat (count_buffers (pp_instances p))) (replicate DSP_BUFFER_SIZE zero)"
    "map port_shape (pp_instances p') = map port_shape (pp_instances p)"
    "\<And>a. a < length (pp_instances p') \<Longrightarrow> inst_safe (nat (count_buffers (pp_instances p))) (pp_instances p') a"
proof -
  let ?peak = "nat (count_buffers (pp_instances p))"
  obtain insts busy where "for_each assign_instance [0..<length (pp_instances p)] (pp_instances p, replicate ?peak False) = Inr (insts, busy)"
      "map port_shape insts = map port_shape (pp_instances p)"
      "\<forall>a < length (pp_instances p). inst_safe ?peak insts a"
    using assign_all [OF assms(1)] by blast
  with assms(2) shape_facts(1) [of insts "pp_instances p"] show ?thesis
    by (intro that [of "p\<lparr>pp_peak_buf := int ?peak, pp_buffers := replicate ?peak (replicate DSP_BUFFER_SIZE zero),
          pp_instances := insts\<rparr>"])
       (simp_all add: allocate_buffers_def alloc_ok_def Let_def)
qed

text \<open>
  C3. The buffer assignment of a wired pipeline succeeds with the number of buffers computed up front,
  never leaves the array of busy flags, and is right for every instance: each input reads the
  buffer its upstream output was given, no instance in between writes to it, the inputs of an
  instance have different buffers and so have its outputs, and an instance that cannot work in
  place has no output buffer among its input buffers.
\<close>

theorem allocate_buffers_safe:
  assumes "wired (pp_instances p)" "alloc_ok alloc (nat (count_buffers (pp_instances p)))"
  shows "\<exists>p'. allocate_buffers alloc zero p = Inr (0, p') \<and>
    length (pp_buffers p') = nat (pp_peak_buf p') \<and>
    list_all (\<lambda>b. length b = DSP_BUFFER_SIZE) (pp_buffers p') \<and>
    (\<forall>a < length (pp_instances p'). inst_safe (nat (pp_peak_buf p')) (pp_instances p') a)"
proof -
  obtain p' where "allocate_buffers alloc zero p = Inr (0, p')"
    "pp_peak_buf p' = int (nat (count_buffers (pp_instances p)))"
    "pp_buffers p' = replicate (nat (count_buffers (pp_instances p))) (replicate DSP_BUFFER_SIZE zero)"
    "\<And>a. a < length (pp_instances p') \<Longrightarrow> inst_safe (nat (count_buffers (pp_instances p))) (pp_instances p') a"
    using allocate_buffers_succeeds [OF assms, where zero = zero] by metis
  then show ?thesis by (simp add: list_all_iff del: int_nat_eq)
qed

text \<open>An example: a source with two outputs, an effect that cannot work in place, and a sink.\<close>

definition port_to :: "nat \<Rightarrow> nat \<Rightarrow> nat \<times> nat \<Rightarrow> audio_port" where
  "port_to plugin index peer = new_audio_port plugin index (Some peer)"

definition chain_instances :: "(int, unit) dsp_instance list" where
  "chain_instances =
     [(new_instance 0)\<lparr>in_output_audio_ports := [port_to 0 0 (1, 0), port_to 0 1 (1, 1)]\<rparr>,
      (new_instance 1)\<lparr>in_properties := MODULE_INPLACE_BROKEN,
         in_input_audio_ports := [port_to 1 0 (0, 0), port_to 1 1 (0, 1)],
         in_output_audio_ports := [port_to 1 2 (2, 0)]\<rparr>,
      (new_instance 2)\<lparr>in_input_audio_ports := [port_to 2 0 (1, 0)]\<rparr>]"

definition empty_pipeline :: "'f ini \<Rightarrow> ('f, 'm) dsp_instance list \<Rightarrow> ('f, 'm) pipeline" where
  "empty_pipeline ini insts =
     \<lparr>pp_purpose = ''playback'', pp_ini = ini, pp_instances = insts, pp_peak_buf = 0, pp_buffers = [],
      pp_source_instance = Some 0, pp_sink_instance = Some (length insts - 1), pp_input_channels = 1,
      pp_output_channels = 1, pp_sample_rate = 0, pp_total_time = 0, pp_max_time = 0, pp_min_time = 0,
      pp_total_blocks = 0, pp_total_samples = 0\<rparr>"

lemma chain_wired: "wired chain_instances"
  by (simp add: wired_def chain_instances_def upt_rec port_to_def new_audio_port_def new_instance_def feeds_before_def)

lemma chain_count: "count_buffers chain_instances = 3"
  by (simp add: count_buffers_def count_step_def chain_instances_def inplace_broken_def MODULE_INPLACE_BROKEN_def
      new_instance_def)

theorem allocate_buffers_safe_witness:
  "wired (pp_instances (empty_pipeline demo_ini chain_instances)) \<and>
   (\<exists>p'. allocate_buffers (\<lambda>_. True) 0 (empty_pipeline demo_ini chain_instances) = Inr (0, p') \<and>
      length (pp_buffers p') = nat (pp_peak_buf p') \<and> pp_peak_buf p' = 3)"
proof -
  have w: "wired (pp_instances (empty_pipeline demo_ini chain_instances))" by (simp add: empty_pipeline_def chain_wired)
  have "alloc_ok (\<lambda>_. True) n" for n by (simp add: alloc_ok_def)
  from allocate_buffers_safe [OF w this, of 0] obtain p' where
    p: "allocate_buffers (\<lambda>_. True) 0 (empty_pipeline demo_ini chain_instances) = Inr (0, p')"
      "length (pp_buffers p') = nat (pp_peak_buf p')" by blast
  have "pp_peak_buf p' = 3"
    using p(1) by (auto simp: allocate_buffers_def empty_pipeline_def chain_count and_then_Inr)
  with w p show ?thesis by blast
qed

subsection \<open>A flow with two readers\<close>

text \<open>A dry signal \<open>{x}\<close> that is mixed with the output \<open>{y}\<close> of an effect: two input ports name \<open>{x}\<close>.\<close>

definition shared_port :: "port_direction \<Rightarrow> nat \<Rightarrow> int port" where
  "shared_port dir f = \<lparr>pt_direction = dir, pt_type = PORT_AUDIO, pt_flow_id = Some f, pt_init_value = 0\<rparr>"

definition shared_plugin :: "string \<Rightarrow> string \<Rightarrow> int port list \<Rightarrow> int plugin" where
  "shared_plugin title label ports =
     (demo_plugin title label PORT_INPUT)\<lparr>pl_ports := ports\<rparr>"

definition shared_flow :: "string \<Rightarrow> nat \<Rightarrow> nat \<Rightarrow> nat \<Rightarrow> nat \<Rightarrow> flow" where
  "shared_flow name from fp to tp =
     \<lparr>fl_type = PORT_AUDIO, fl_name = name, fl_from = Some from, fl_to = Some to, fl_from_port = fp, fl_to_port = tp\<rparr>"

definition shared_ini :: "int ini" where
  "shared_ini =
     \<lparr>ini_dict = dict_of [],
      ini_plugins =
        [shared_plugin ''in'' ''source'' [shared_port PORT_OUTPUT 0],
         shared_plugin ''fx'' ''eq'' [shared_port PORT_INPUT 0, shared_port PORT_OUTPUT 1],
         shared_plugin ''mix'' ''mix_stereo'' [shared_port PORT_INPUT 0, shared_port PORT_INPUT 1, shared_port PORT_OUTPUT 2],
         shared_plugin ''out'' ''sink'' [shared_port PORT_INPUT 2]],
      ini_flows = [shared_flow ''{x}'' 0 0 2 0, shared_flow ''{y}'' 1 1 2 1, shared_flow ''{z}'' 2 2 3 0]\<rparr>"

definition shared_instances :: "(int, 'm) dsp_instance list" where
  "shared_instances =
     [(new_instance 0)\<lparr>in_output_audio_ports := [new_audio_port 0 0 (Some (2, 0))]\<rparr>,
      (new_instance 1)\<lparr>in_input_audio_ports := [new_audio_port 1 0 (Some (0, 0))],
         in_output_audio_ports := [new_audio_port 1 1 (Some (2, 1))]\<rparr>,
      (new_instance 2)\<lparr>in_input_audio_ports := [new_audio_port 2 0 (Some (0, 0)), new_audio_port 2 1 (Some (1, 0))],
         in_output_audio_ports := [new_audio_port 2 2 (Some (3, 0))]\<rparr>,
      (new_instance 3)\<lparr>in_input_audio_ports := [new_audio_port 3 0 (Some (2, 0))]\<rparr>]"

lemma shared_sort:
  "topological_sort 5 shared_ini env (replicate 4 False, []) 3 = Inr (Some (replicate 4 True, shared_instances))"
  by (simp add: shared_ini_def shared_plugin_def shared_port_def shared_flow_def demo_plugin_def shared_instances_def
      eval_nat_numeral is_disabled_def build_port_def find_origin_port.simps find_instance_by_plugin_def
      find_output_audio_port_def new_instance_def new_audio_port_def upd_last_def set_audio_peer_def Let_def)

lemma shared_enabled:
  "find_enabled_builtin_plugin shared_ini ''source'' ''playback'' env = Some 0"
  "find_enabled_builtin_plugin shared_ini ''sink'' ''playback'' env = Some 3"
  by (simp_all add: find_enabled_builtin_plugin_def shared_ini_def shared_plugin_def demo_plugin_def builtin_match_def
      is_disabled_def)

lemma shared_created:
  "\<exists>p :: (int, 'm) pipeline.
     cras_dsp_pipeline_create shared_ini env ''playback'' = Inr (Some p) \<and> pp_instances p = shared_instances"
proof -
  have n: "length (ini_plugins shared_ini) = 4" "Suc 4 = 5" by (simp_all add: shared_ini_def)
  have "find_instance_by_plugin (shared_instances :: (int, 'm) dsp_instance list) 0 = Some 0"
    "find_instance_by_plugin (shared_instances :: (int, 'm) dsp_instance list) 3 = Some 3"
    by (simp_all add: shared_instances_def find_instance_by_plugin_def new_instance_def)
  moreover have "\<not> length (in_output_audio_ports (shared_instances ! 0 :: (int, 'm) dsp_instance)) <
      length (in_input_audio_ports (shared_instances ! 3 :: (int, 'm) dsp_instance))"
    by (simp add: shared_instances_def new_instance_def)
  ultimately show ?thesis
    unfolding cras_dsp_pipeline_create_def shared_enabled n
    by (simp add: shared_sort Let_def)
qed


subsection \<open>Statistics\<close>

definition add_statistics :: "((int \<times> int) \<times> int) list \<Rightarrow> ('f, 'm) pipeline \<Rightarrow> ('f, 'm) pipeline" where
  "add_statistics xs p = fold (\<lambda>(t, n) p. cras_dsp_pipeline_add_statistic p t n) xs p"

definition nanoseconds :: "int \<times> int \<Rightarrow> int" where
  "nanoseconds t = fst t * 1000000000 + snd t"

definition stats_match :: "((int \<times> int) \<times> int) list \<Rightarrow> ('f, 'm) pipeline \<Rightarrow> bool" where
  "stats_match xs p \<longleftrightarrow>
     pp_total_blocks p = int (length xs) \<and> pp_total_samples p = sum_list (map snd xs) \<and>
     pp_total_time p = sum_list (map (nanoseconds \<circ> fst) xs) \<and>
     (xs \<noteq> [] \<longrightarrow> pp_max_time p = Max ((nanoseconds \<circ> fst) ` set xs) \<and>
                  pp_min_time p = Min ((nanoseconds \<circ> fst) ` set xs))"

lemma stats_match_snoc:
  assumes "stats_match xs p" "0 < snd x"
  shows "stats_match (xs @ [x]) (cras_dsp_pipeline_add_statistic p (fst x) (snd x))"
  using assms
  by (cases "xs = []")
     (auto simp: stats_match_def cras_dsp_pipeline_add_statistic_def nanoseconds_def Let_def max.commute min.commute)

lemma add_statistics_match: "stats_match [] p \<Longrightarrow> stats_match (filter (\<lambda>x. 0 < snd x) xs) (add_statistics xs p)"
proof (induction xs rule: rev_induct)
  case (snoc x xs)
  then have "stats_match (filter (\<lambda>x. 0 < snd x) xs) (add_statistics xs p)" by blast
  then show ?case
    using stats_match_snoc [of "filter (\<lambda>x. 0 < snd x) xs" _ x]
    by (cases x) (auto simp: add_statistics_def cras_dsp_pipeline_add_statistic_def)
qed (simp add: add_statistics_def)

text \<open>
  Starting from a new pipeline, the statistics count exactly the blocks with a positive number of
  samples: their number, their samples, and the total, largest and smallest of their times.
\<close>

theorem statistics_summarise:
  assumes "pp_total_blocks p = 0" "pp_total_samples p = 0" "pp_total_time p = 0"
  shows "stats_match (filter (\<lambda>x. 0 < snd x) xs) (add_statistics xs p)"
  by (rule add_statistics_match) (use assms in \<open>simp add: stats_match_def\<close>)

theorem statistics_summarise_witness:
  "pp_max_time (add_statistics [((0, 5), 10), ((1, 0), 0), ((0, 7), 20)]
     (empty_pipeline demo_ini chain_instances)) = 7"
  using statistics_summarise [of "empty_pipeline demo_ini chain_instances" "[((0, 5), 10), ((1, 0), 0), ((0, 7), 20)]"]
  by (simp add: stats_match_def nanoseconds_def empty_pipeline_def)

subsection \<open>Delays\<close>

text \<open>Output ports carry the plugin of their instance, and no plugin has two instances.\<close>

definition labelled :: "('f, 'm) dsp_instance list \<Rightarrow> bool" where
  "labelled insts \<longleftrightarrow>
     distinct (map in_plugin insts) \<and>
     list_all (\<lambda>a. list_all (\<lambda>p. ap_plugin p = in_plugin a) (in_output_audio_ports a)) insts"

lemma find_instance_nth:
  assumes "distinct (map in_plugin insts)" "a < length insts"
  shows "find_instance_by_plugin insts (in_plugin (insts ! a)) = Some a"
proof -
  have "\<forall>j < a. in_plugin (insts ! j) \<noteq> in_plugin (insts ! a)"
    using assms nth_eq_iff_index_eq [of "map in_plugin insts"] by (metis length_map less_trans nat_neq_iff nth_map)
  with assms(2) show ?thesis by (auto simp: find_instance_by_plugin_def find_Some_iff)
qed

definition feeder_delay :: "('f, 'm) dsp_instance list \<Rightarrow> audio_port \<Rightarrow> int" where
  "feeder_delay insts p = in_total_delay (insts ! fst (the (ap_peer p)))"

lemma upstream_delay_spec:
  assumes "wired insts" "labelled insts" "a < length insts" "set ps \<subseteq> set (in_input_audio_ports (insts ! a))"
  shows "upstream_delay insts ps d = Inr (Max (insert d (feeder_delay insts ` set ps)))"
  using assms(4)
proof (induction ps arbitrary: d)
  case (Cons p ps)
  obtain b k where p: "ap_peer p = Some (b, k)" "b < a" "k < nout insts b"
    using wired_peer [OF assms(1,3), of p] Cons.prems by auto
  have "ap_plugin (in_output_audio_ports (insts ! b) ! k) = in_plugin (insts ! b)"
    using assms(2,3) p by (auto simp: labelled_def list_all_iff nout_def)
  then have "find_instance_by_plugin insts (ap_plugin (in_output_audio_ports (insts ! b) ! k)) = Some b"
    using find_instance_nth [of insts b] assms(2,3) p(2) by (simp add: labelled_def)
  then have "upstream_delay insts (p # ps) d = upstream_delay insts ps (max (feeder_delay insts p) d)"
    using p(1) by (simp add: feeder_delay_def)
  also have "\<dots> = Inr (Max (insert (max (feeder_delay insts p) d) (feeder_delay insts ` set ps)))"
    using Cons.IH Cons.prems by simp
  also have "Max (insert (max (feeder_delay insts p) d) (feeder_delay insts ` set ps)) =
      Max (insert d (feeder_delay insts ` set (p # ps)))"
    by (cases "ps = []") (simp_all add: Max_insert ac_simps)
  finally show ?case .
qed simp

definition undelayed :: "('f, 'm) dsp_instance \<Rightarrow> ('f, 'm) dsp_instance" where
  "undelayed a = a\<lparr>in_total_delay := 0\<rparr>"

definition delay_eq :: "('m, 'f) module_ops \<Rightarrow> ('f, 'm) dsp_instance list \<Rightarrow> nat \<Rightarrow> bool" where
  "delay_eq ops insts a \<longleftrightarrow>
     (\<exists>m d. in_module (insts ! a) = Some m \<and> mo_get_delay ops m = Inr d \<and>
        in_total_delay (insts ! a) =
          Max (insert 0 (feeder_delay insts ` set (in_input_audio_ports (insts ! a)))) + d)"

definition has_delay :: "('m, 'f) module_ops \<Rightarrow> ('f, 'm) dsp_instance \<Rightarrow> bool" where
  "has_delay ops a \<longleftrightarrow> (\<exists>m d. in_module a = Some m \<and> mo_get_delay ops m = Inr d)"

lemma undelayed_facts:
  assumes "undelayed a = undelayed b"
  shows "in_plugin a = in_plugin b" "in_input_audio_ports a = in_input_audio_ports b"
    "in_output_audio_ports a = in_output_audio_ports b" "in_module a = in_module b" "port_shape a = port_shape b"
  using assms by (cases a; cases b; simp add: undelayed_def port_shape_def)+

lemma undelayed_maps:
  assumes "map undelayed cur = map undelayed insts"
  shows "map port_shape cur = map port_shape insts" "labelled cur \<longleftrightarrow> labelled insts"
    "list_all (has_delay ops) cur \<longleftrightarrow> list_all (has_delay ops) insts"
proof -
  have len: "length cur = length insts" using assms by (metis length_map)
  have eq: "undelayed (cur ! a) = undelayed (insts ! a)" if "a < length insts" for a
    using assms that len by (metis nth_map)
  note f = undelayed_facts [OF eq]
  show "map port_shape cur = map port_shape insts" using len f(5) by (intro nth_equalityI) simp_all
  have "map in_plugin cur = map in_plugin insts" using len f(1) by (intro nth_equalityI) simp_all
  with len f(1,3) show "labelled cur \<longleftrightarrow> labelled insts" by (simp add: labelled_def list_all_length)
  show "list_all (has_delay ops) cur \<longleftrightarrow> list_all (has_delay ops) insts"
    using len f(4) by (simp add: has_delay_def list_all_length)
qed

lemma delay_step:
  assumes w: "wired cur" "labelled cur" "list_all (has_delay ops) cur" "i < length cur"
    and eqs: "\<forall>a < i. delay_eq ops cur a"
  obtains cur' where "delay_instance ops i cur = Inr cur'" "map undelayed cur' = map undelayed cur"
    "\<forall>a < Suc i. delay_eq ops cur' a"
proof -
  obtain m d where m: "in_module (cur ! i) = Some m" "mo_get_delay ops m = Inr d"
    using w(3,4) by (auto simp: list_all_length has_delay_def)
  let ?t = "Max (insert 0 (feeder_delay cur ` set (in_input_audio_ports (cur ! i)))) + d"
  let ?cur = "cur[i := (cur ! i)\<lparr>in_total_delay := ?t\<rparr>]"
  have "delay_instance ops i cur = Inr ?cur"
    using upstream_delay_spec [OF w(1,2,4), of "in_input_audio_ports (cur ! i)" 0] m
    by (simp add: delay_instance_def the_module_def lift_fault_def)
  moreover have "map undelayed ?cur = map undelayed cur"
    using w(4) by (intro nth_equalityI) (auto simp: nth_list_update undelayed_def)
  moreover have "delay_eq ops ?cur a" if "a < Suc i" for a
  proof -
    have ins: "in_input_audio_ports (?cur ! a) = in_input_audio_ports (cur ! a)" using w(4) by (simp add: nth_list_update)
    have "feeder_delay ?cur p = feeder_delay cur p" if "p \<in> set (in_input_audio_ports (cur ! a))" for p
    proof -
      have "a < length cur" using \<open>a < Suc i\<close> w(4) by simp
      from wired_peer [OF w(1) this that] \<open>a < Suc i\<close> show ?thesis by (fastforce simp: feeder_delay_def)
    qed
    then have same: "feeder_delay ?cur ` set (in_input_audio_ports (cur ! a)) =
        feeder_delay cur ` set (in_input_audio_ports (cur ! a))" by (rule image_cong [OF refl])
    show ?thesis
    proof (cases "a = i")
      case True
      with m w(4) same show ?thesis by (simp add: delay_eq_def)
    next
      case False
      with that eqs have "delay_eq ops cur a" by simp
      with False same show ?thesis by (simp add: delay_eq_def)
    qed
  qed
  ultimately show ?thesis using that by blast
qed

text \<open>
  The computed delays satisfy the equation of the longest path: the delay of an instance is its own
  delay on top of the largest delay among the instances that feed it (and none counts as zero).
\<close>

theorem calculate_audio_delay_longest:
  assumes "wired insts" "labelled insts" "list_all (has_delay ops) insts"
  shows "\<exists>insts'. calculate_audio_delay ops insts = Inr insts' \<and> map undelayed insts' = map undelayed insts \<and>
    (\<forall>a < length insts. delay_eq ops insts' a)"
proof -
  let ?P = "\<lambda>i cur. map undelayed cur = map undelayed insts \<and> (\<forall>a < i. delay_eq ops cur a)"
  have "\<exists>cur'. delay_instance ops i cur = Inr cur' \<and> ?P (Suc i) cur'" if i: "i < length insts" and P: "?P i cur" for i cur
  proof -
    note u = undelayed_maps [OF P [THEN conjunct1]]
    have "wired cur" "labelled cur" "list_all (has_delay ops) cur" "i < length cur"
      using wired_shape [OF u(1)] u(2,3) assms i shape_facts(1) [OF u(1)] by simp_all
    from delay_step [OF this P [THEN conjunct2]] P show ?thesis by metis
  qed
  then have "\<exists>cur. for_each (delay_instance ops) [0..<length insts] insts = Inr cur \<and> ?P (length insts) cur"
    by (intro for_each_upt_total) auto
  then show ?thesis by (simp add: calculate_audio_delay_def)
qed

text \<open>An example: a source, an effect that buffers 64 samples, and a sink.\<close>

definition delay_ops :: "(nat, int) module_ops" where
  "delay_ops =
     \<lparr>mo_instantiate = (\<lambda>m rate. (0, m)), mo_connect_port = (\<lambda>m p l. Inr m), mo_get_delay = (\<lambda>m. Inr (int m)),
      mo_run = (\<lambda>m n s. Inr (m, s)), mo_deinstantiate = Inr, mo_get_properties = (\<lambda>m. 0), mo_load = (\<lambda>_. Some 0)\<rparr>"

definition delay_instances :: "(int, nat) dsp_instance list" where
  "delay_instances =
     [(new_instance 0)\<lparr>in_module := Some 0, in_output_audio_ports := [port_to 0 0 (1, 0)]\<rparr>,
      (new_instance 1)\<lparr>in_module := Some 64, in_input_audio_ports := [port_to 1 0 (0, 0)],
         in_output_audio_ports := [port_to 1 1 (2, 0)]\<rparr>,
      (new_instance 2)\<lparr>in_module := Some 0, in_input_audio_ports := [port_to 2 0 (1, 0)]\<rparr>]"

lemma delay_instances_ok:
  "wired delay_instances" "labelled delay_instances" "list_all (has_delay delay_ops) delay_instances"
  by (simp_all add: wired_def labelled_def has_delay_def delay_instances_def delay_ops_def upt_rec port_to_def
      new_audio_port_def new_instance_def feeds_before_def)

theorem calculate_audio_delay_longest_witness:
  "\<exists>insts'. calculate_audio_delay delay_ops delay_instances = Inr insts' \<and> delay_eq delay_ops insts' 2 \<and>
     in_total_delay (insts' ! 2) = 64"
proof -
  obtain insts' where i: "calculate_audio_delay delay_ops delay_instances = Inr insts'"
      "\<forall>a < length delay_instances. delay_eq delay_ops insts' a"
    using calculate_audio_delay_longest [OF delay_instances_ok] by blast
  have "in_total_delay (insts' ! 2) = 64"
    using i(1) by (auto simp: calculate_audio_delay_def delay_instances_def delay_ops_def upt_rec delay_instance_def
        the_module_def lift_fault_def port_to_def new_audio_port_def new_instance_def find_instance_by_plugin_def)
  with i show ?thesis by (auto simp: delay_instances_def)
qed

subsection \<open>Where the modules are connected\<close>

text \<open>Everything of an instance but its module and its delay.\<close>

definition wiring :: "('f, 'm) dsp_instance \<Rightarrow> ('f, 'm) dsp_instance" where
  "wiring a = a\<lparr>in_module := None, in_total_delay := 0, in_instantiated := False\<rparr>"

lemma wiring_facts:
  assumes "wiring a = wiring b"
  shows "in_plugin a = in_plugin b" "in_input_audio_ports a = in_input_audio_ports b"
    "in_output_audio_ports a = in_output_audio_ports b" "in_input_control_ports a = in_input_control_ports b"
    "in_output_control_ports a = in_output_control_ports b" "port_shape a = port_shape b"
    "in_properties a = in_properties b" "connections i a = connections i b"
  using assms by (cases a; cases b; simp add: wiring_def port_shape_def connections_def)+

lemma wiring_update [simp]:
  "wiring (a\<lparr>in_module := m\<rparr>) = wiring a" "wiring (a\<lparr>in_total_delay := d\<rparr>) = wiring a"
  "wiring (a\<lparr>in_instantiated := b\<rparr>) = wiring a"
  by (simp_all add: wiring_def)

lemma wiring_list_update:
  assumes "i < length insts" "wiring a = wiring (insts ! i)"
  shows "map wiring (insts[i := a]) = map wiring insts"
  using assms by (intro nth_equalityI) (auto simp: nth_list_update)

lemma wiring_nth:
  assumes "map wiring insts' = map wiring insts"
  shows "length insts' = length insts" "a < length insts \<Longrightarrow> wiring (insts' ! a) = wiring (insts ! a)"
  using assms by (metis length_map, metis length_map nth_map)

lemma wiring_shape: "map wiring insts' = map wiring insts \<Longrightarrow> map port_shape insts' = map port_shape insts"
  by (intro nth_equalityI) (use wiring_nth wiring_facts(6) in fastforce)+

definition mod_conns :: "('m \<Rightarrow> data_location set) \<Rightarrow> ('f, 'm) dsp_instance \<Rightarrow> data_location set" where
  "mod_conns conns a = (case in_module a of None \<Rightarrow> {} | Some m \<Rightarrow> conns m)"

text \<open>The modules are connected to the locations of their own ports only.\<close>

definition connected :: "('m \<Rightarrow> data_location set) \<Rightarrow> ('f, 'm) dsp_instance list \<Rightarrow> bool" where
  "connected conns insts \<longleftrightarrow>
     (\<forall>c < length insts. mod_conns conns (insts ! c) \<subseteq> snd ` set (connections c (insts ! c)))"

lemma connections_buffer:
  "Loc_Buffer b \<in> snd ` set (connections c a) \<longleftrightarrow>
     b \<in> ap_buf_index ` set (in_input_audio_ports a) \<or> b \<in> ap_buf_index ` set (in_output_audio_ports a)"
proof -
  have "Loc_Buffer b \<notin> snd ` set (map (\<lambda>(j, p). (cp_original_index p,
      case cp_peer p of Some (a', k) \<Rightarrow> Loc_Control_Out a' k | None \<Rightarrow> Loc_Control_In c j)) (enumerate 0 (in_input_control_ports a)))"
    "Loc_Buffer b \<notin> snd ` set (map (\<lambda>(j, p). (cp_original_index p, Loc_Control_Out c j)) (enumerate 0 (in_output_control_ports a)))"
    by (auto split: option.splits)
  then show ?thesis by (simp add: connections_def image_Un image_image) (auto simp: image_iff)
qed

text \<open>The memory seen through a pipeline whose control values are unchanged.\<close>

lemma enumerate_map_id:
  assumes "\<And>k. k < length xs \<Longrightarrow> f k (xs ! k) = xs ! k"
  shows "map (\<lambda>(k, c). f k c) (enumerate 0 xs) = xs"
  using assms by (intro nth_equalityI) (simp_all add: nth_enumerate_eq)

lemma put_store_same:
  assumes "st_controls s = st_controls (store_of p)" "map wiring (pp_instances q) = map wiring (pp_instances p)"
  shows "put_store s q = q\<lparr>pp_buffers := st_buffers s\<rparr>"
proof -
  note w = wiring_nth [OF assms(2)]
  have "map (\<lambda>(a, inst).
         inst\<lparr>in_input_control_ports :=
                map (\<lambda>(k, c). c\<lparr>cp_value := st_controls s (Loc_Control_In a k)\<rparr>) (enumerate 0 (in_input_control_ports inst)),
              in_output_control_ports :=
                map (\<lambda>(k, c). c\<lparr>cp_value := st_controls s (Loc_Control_Out a k)\<rparr>) (enumerate 0 (in_output_control_ports inst))\<rparr>)
         (enumerate 0 (pp_instances q)) = pp_instances q"
  proof (rule enumerate_map_id)
    fix a
    assume "a < length (pp_instances q)"
    then have a: "a < length (pp_instances p)" using w(1) by simp
    let ?i = "pp_instances q ! a"
    note f = wiring_facts [OF w(2) [OF a]]
    have "map (\<lambda>(k, c). c\<lparr>cp_value := st_controls s (Loc_Control_In a k)\<rparr>) (enumerate 0 (in_input_control_ports ?i)) =
        in_input_control_ports ?i"
      by (rule enumerate_map_id) (simp add: assms(1) store_of_def f(4))
    moreover have "map (\<lambda>(k, c). c\<lparr>cp_value := st_controls s (Loc_Control_Out a k)\<rparr>) (enumerate 0 (in_output_control_ports ?i)) =
        in_output_control_ports ?i"
      by (rule enumerate_map_id) (simp add: assms(1) store_of_def f(5))
    ultimately show "?i\<lparr>in_input_control_ports :=
                map (\<lambda>(k, c). c\<lparr>cp_value := st_controls s (Loc_Control_In a k)\<rparr>) (enumerate 0 (in_input_control_ports ?i)),
              in_output_control_ports :=
                map (\<lambda>(k, c). c\<lparr>cp_value := st_controls s (Loc_Control_Out a k)\<rparr>) (enumerate 0 (in_output_control_ports ?i))\<rparr> = ?i"
      by simp
  qed
  then show ?thesis by (simp add: put_store_def)
qed

text \<open>The buffer of a port that waits to be read belongs to no port of the instances in between.\<close>

lemma inst_safe_input:
  assumes "inst_safe peak insts a" "p \<in> set (in_input_audio_ports (insts ! a))" "ap_peer p = Some (b, k)"
  shows "ap_buf_index p = buf insts (b, k)"
    "b < c \<Longrightarrow> c < a \<Longrightarrow> j < nout insts c \<Longrightarrow> buf insts (c, j) \<noteq> ap_buf_index p"
  using assms by (auto simp: inst_safe_def)

lemma buffer_kept_free:
  assumes w: "wired insts" and safe: "\<forall>a < length insts. inst_safe peak insts a"
    and a: "a < length insts" "p \<in> set (in_input_audio_ports (insts ! a))" "ap_peer p = Some (b, k)"
    and c: "b < c" "c < a"
  shows "Loc_Buffer (ap_buf_index p) \<notin> snd ` set (connections c (insts ! c))"
proof -
  have bk: "k < nout insts b" "b < a" using wired_peer [OF w a(1,2)] a(3) by auto
  have x: "ap_buf_index p = buf insts (b, k)"
    and between: "\<And>c k. b < c \<Longrightarrow> c < a \<Longrightarrow> k < nout insts c \<Longrightarrow> buf insts (c, k) \<noteq> ap_buf_index p"
    using inst_safe_input [OF spec [OF safe, THEN mp, OF a(1)] a(2,3)] by blast+
  have "ap_buf_index q \<noteq> ap_buf_index p" if q: "q \<in> set (in_output_audio_ports (insts ! c))" for q
    using between [OF c] q by (auto simp: buf_def nout_def in_set_conv_nth)
  moreover have "ap_buf_index q \<noteq> ap_buf_index p" if q: "q \<in> set (in_input_audio_ports (insts ! c))" for q
  proof -
    have cl: "c < length insts" using c(2) a(1) by simp
    obtain b' k' where q': "ap_peer q = Some (b', k')" "b' < c" "k' < nout insts b'" using wired_peer [OF w cl q] .
    have y: "ap_buf_index q = buf insts (b', k')"
      and between': "\<And>k. b' < b \<Longrightarrow> k < nout insts b \<Longrightarrow> buf insts (b, k) \<noteq> ap_buf_index q"
      using inst_safe_input [OF spec [OF safe, THEN mp, OF cl] q q'(1)] c(1) by blast+
    have "(b', k') \<in> set (in_peers insts c)" "(b, k) \<in> set (in_peers insts a)"
      using q q'(1) a(2,3) by (force simp: in_peers_def)+
    then have ne: "(b', k') \<noteq> (b, k)" using in_peers_disjoint [OF w cl a(1)] c(2) by auto
    consider "b < b'" | "b' < b" | "b' = b" "k' \<noteq> k" using ne by fastforce
    then show ?thesis
    proof cases
      case 1
      with between [OF _ _ q'(3)] q'(2) c(2) y show ?thesis by simp
    next
      case 2
      with between' [OF _ bk(1)] x show ?thesis by simp
    next
      case 3
      have "distinct (map ap_buf_index (in_output_audio_ports (insts ! b)))"
        using safe bk(2) a(1) by (simp add: inst_safe_def)
      with 3 q'(3) bk(1) x y show ?thesis
        using nth_eq_iff_index_eq [of "map ap_buf_index (in_output_audio_ports (insts ! b))" k' k]
        by (simp add: buf_def nout_def)
    qed
  qed
  ultimately show ?thesis unfolding connections_buffer by (metis imageE)
qed

text \<open>The first \<open>i\<close> rounds of \<^verbatim>\<open>cras_dsp_pipeline_run\<close>.\<close>

definition run_prefix ::
  "('m, 'f) module_ops \<Rightarrow> nat \<Rightarrow> nat \<Rightarrow> ('f, 'm) pipeline \<Rightarrow> run_fault + ('f, 'm) pipeline" where
  "run_prefix ops n i p = for_each (run_instance ops n) [0..<i] p"

lemma run_prefix_all: "cras_dsp_pipeline_run ops p n = run_prefix ops n (length (pp_instances p)) p"
  by (simp add: cras_dsp_pipeline_run_def run_prefix_def)

text \<open>What a run keeps: the wiring, where the modules are connected, and the sizes of the buffers.\<close>

definition run_keeps :: "('m \<Rightarrow> data_location set) \<Rightarrow> ('f, 'm) pipeline \<Rightarrow> ('f, 'm) pipeline \<Rightarrow> bool" where
  "run_keeps conns p p' \<longleftrightarrow>
     map wiring (pp_instances p') = map wiring (pp_instances p) \<and>
     map (mod_conns conns) (pp_instances p') = map (mod_conns conns) (pp_instances p) \<and>
     map length (pp_buffers p') = map length (pp_buffers p) \<and>
     pp_source_instance p' = pp_source_instance p \<and> pp_sink_instance p' = pp_sink_instance p \<and>
     pp_peak_buf p' = pp_peak_buf p \<and>
     pp_input_channels p' = pp_input_channels p \<and> pp_output_channels p' = pp_output_channels p"

lemma upt_below: "j \<le> n \<Longrightarrow> set [i..<j] \<subseteq> {..<n}"
  by auto

lemma run_keeps_refl [simp]: "run_keeps conns p p"
  by (simp add: run_keeps_def)

lemma run_keeps_trans: "run_keeps conns p q \<Longrightarrow> run_keeps conns q r \<Longrightarrow> run_keeps conns p r"
  by (simp add: run_keeps_def)

lemma run_keeps_length: "run_keeps conns p q \<Longrightarrow> length (pp_instances q) = length (pp_instances p)"
  by (auto simp: run_keeps_def dest: wiring_nth(1))

lemma run_keeps_conns:
  "run_keeps conns p q \<Longrightarrow> c < length (pp_instances p) \<Longrightarrow>
   mod_conns conns (pp_instances q ! c) = mod_conns conns (pp_instances p ! c)"
  unfolding run_keeps_def by (metis length_map nth_map)

context dsp_modules
begin

lemma run_instance_step:
  assumes "run_instance ops n i p = Inr p'" "i < length (pp_instances p)"
  shows "run_keeps conns p p' \<and>
    (\<forall>b. Loc_Buffer b \<notin> mod_conns conns (pp_instances p ! i) \<longrightarrow> pp_buffers p' ! b = pp_buffers p ! b)"
proof -
  obtain m m' s' where m: "in_module (pp_instances p ! i) = Some m" and r: "mo_run ops m n (store_of p) = Inr (m', s')"
    and p': "p' = put_store s' (p\<lparr>pp_instances := (pp_instances p)[i := (pp_instances p ! i)\<lparr>in_module := Some m'\<rparr>]\<rparr>)"
    using assms(1) unfolding run_instance_def and_then_Inr the_module_Inr lift_fault_Inr by auto
  let ?insts = "(pp_instances p)[i := (pp_instances p ! i)\<lparr>in_module := Some m'\<rparr>]"
  have w: "map wiring ?insts = map wiring (pp_instances p)" by (rule wiring_list_update [OF assms(2)]) simp
  have sh: "same_shape (store_of p) s'" by (rule run_shape [OF r])
  then have ctl: "st_controls s' = st_controls (store_of p)" by (simp add: same_shape_def)
  have "put_store s' (p\<lparr>pp_instances := ?insts\<rparr>) = p\<lparr>pp_instances := ?insts\<rparr>\<lparr>pp_buffers := st_buffers s'\<rparr>"
    by (rule put_store_same [OF ctl]) (simp add: w)
  then have p'': "p' = p\<lparr>pp_instances := ?insts\<rparr>\<lparr>pp_buffers := st_buffers s'\<rparr>" by (simp only: p')
  have conn: "map (mod_conns conns) ?insts = map (mod_conns conns) (pp_instances p)"
  proof (rule nth_equalityI)
    fix j
    assume "j < length (map (mod_conns conns) ?insts)"
    with m run_conns [OF r] assms(2) show "map (mod_conns conns) ?insts ! j = map (mod_conns conns) (pp_instances p) ! j"
      by (cases "j = i") (simp_all add: mod_conns_def)
  qed simp
  have "map length (st_buffers s') = map length (pp_buffers p)" using sh by (simp add: same_shape_def store_of_def)
  with w conn have "run_keeps conns p p'" unfolding run_keeps_def p'' by simp
  moreover have "st_buffers s' ! b = pp_buffers p ! b" if "Loc_Buffer b \<notin> mod_conns conns (pp_instances p ! i)" for b
    using run_frame [OF r, of b] that m by (simp add: mod_conns_def store_of_def)
  ultimately show ?thesis unfolding p'' by simp
qed

lemma run_range_keeps:
  assumes "for_each (run_instance ops n) xs p = Inr p'" "set xs \<subseteq> {..<length (pp_instances p)}"
  shows "run_keeps conns p p' \<and>
    (\<forall>b. (\<forall>i \<in> set xs. Loc_Buffer b \<notin> mod_conns conns (pp_instances p ! i)) \<longrightarrow> pp_buffers p' ! b = pp_buffers p ! b)"
  using assms
proof (induction xs arbitrary: p)
  case (Cons i xs)
  from Cons.prems(1) obtain q where q: "run_instance ops n i p = Inr q" "for_each (run_instance ops n) xs q = Inr p'"
    by (auto simp: and_then_Inr)
  have s: "run_keeps conns p q" "\<And>b. Loc_Buffer b \<notin> mod_conns conns (pp_instances p ! i) \<Longrightarrow> pp_buffers q ! b = pp_buffers p ! b"
    using run_instance_step [OF q(1)] Cons.prems(2) by auto
  have len: "length (pp_instances q) = length (pp_instances p)" using s(1) by (rule run_keeps_length)
  have ih: "run_keeps conns q p'"
      "\<And>b. \<forall>j \<in> set xs. Loc_Buffer b \<notin> mod_conns conns (pp_instances q ! j) \<Longrightarrow> pp_buffers p' ! b = pp_buffers q ! b"
    using Cons.IH [OF q(2)] Cons.prems(2) len by auto
  have "pp_buffers p' ! b = pp_buffers p ! b"
    if "\<forall>j \<in> set (i # xs). Loc_Buffer b \<notin> mod_conns conns (pp_instances p ! j)" for b
    using that ih(2) [of b] s(2) [of b] run_keeps_conns [OF s(1)] Cons.prems(2) by auto
  with run_keeps_trans [OF s(1) ih(1)] show ?case by blast
qed simp

lemma run_keeps_all:
  assumes "cras_dsp_pipeline_run ops p n = Inr p'"
  shows "run_keeps conns p p'"
  using run_range_keeps [OF assms [unfolded cras_dsp_pipeline_run_def] upt_below] by simp

lemma run_dataflow:
  assumes w: "wired (pp_instances p)" and safe: "\<forall>a < length (pp_instances p). inst_safe peak (pp_instances p) a"
    and conn: "connected conns (pp_instances p)"
    and a: "a < length (pp_instances p)" "port \<in> set (in_input_audio_ports (pp_instances p ! a))" "ap_peer port = Some (b, k)"
    and pa: "run_prefix ops n a p = Inr pa"
  shows "\<exists>pb. run_prefix ops n (Suc b) p = Inr pb \<and>
    pp_buffers pa ! ap_buf_index port = pp_buffers pb ! buf (pp_instances p) (b, k)"
proof -
  have ba: "b < a" using wired_peer [OF w a(1,2)] a(3) by auto
  then have "[0..<a] = [0..<Suc b] @ [Suc b..<a]" using upt_add_eq_append [of 0 "Suc b" "a - Suc b"] by simp
  with pa obtain pb where pb: "run_prefix ops n (Suc b) p = Inr pb" "for_each (run_instance ops n) [Suc b..<a] pb = Inr pa"
    by (auto simp: run_prefix_def for_each_append and_then_Inr)
  have keep: "run_keeps conns p pb"
    using run_range_keeps [OF pb(1) [unfolded run_prefix_def] upt_below] ba a(1) by simp
  have "Loc_Buffer (ap_buf_index port) \<notin> mod_conns conns (pp_instances pb ! c)" if "b < c" "c < a" for c
  proof -
    have "mod_conns conns (pp_instances pb ! c) = mod_conns conns (pp_instances p ! c)"
      using run_keeps_conns [OF keep] that(2) a(1) by simp
    moreover have "mod_conns conns (pp_instances p ! c) \<subseteq> snd ` set (connections c (pp_instances p ! c))"
      using conn that(2) a(1) by (simp add: connected_def)
    ultimately show ?thesis using buffer_kept_free [OF w safe a that] by blast
  qed
  then have "pp_buffers pa ! ap_buf_index port = pp_buffers pb ! ap_buf_index port"
    using run_range_keeps [OF pb(2) upt_below] run_keeps_length [OF keep] a(1) by simp
  moreover have "ap_buf_index port = buf (pp_instances p) (b, k)"
    using safe a by (auto simp: inst_safe_def)
  ultimately show ?thesis using pb(1) by auto
qed

lemma connect_all_adds:
  assumes "for_each (connect_one ops nbuf) cs m = Inr m'"
  shows "conns m' \<subseteq> conns m \<union> snd ` set cs"
  using assms
proof (induction cs arbitrary: m)
  case (Cons c cs)
  obtain m1 where m1: "connect_one ops nbuf c m = Inr m1" "for_each (connect_one ops nbuf) cs m1 = Inr m'"
    using Cons.prems by (auto simp: and_then_Inr)
  have "mo_connect_port ops m (fst c) (snd c) = Inr m1"
    using m1(1) by (cases c) (auto simp: connect_one_def split: data_location.splits if_splits)
  from connect_adds [OF this] Cons.IH [OF m1(2)] show ?case by auto
qed simp

lemma instantiate_modules_clear:
  assumes "instantiate_modules ops rate insts = Inr (0, insts')"
  shows "map wiring insts' = map wiring insts \<and> list_all (\<lambda>a. mod_conns conns a = {} \<and> in_instantiated a) insts'"
  using assms
proof (induction insts arbitrary: insts')
  case (Cons a as)
  then obtain m m' as' where m: "in_module a = Some m" "mo_instantiate ops m rate = (0, m')"
      "instantiate_modules ops rate as = Inr (0, as')" "insts' = a\<lparr>in_module := Some m', in_instantiated := True\<rparr> # as'"
    by (auto simp: and_then_Inr the_module_def split: option.splits prod.splits if_splits)
  with Cons.IH [OF m(3)] instantiate_clear [OF m(2)] show ?case by (simp add: mod_conns_def)
qed simp

text \<open>After the first \<open>i\<close> rounds of the connecting loop the first \<open>i\<close> modules are connected, the others not yet.\<close>

definition connecting :: "('f, 'm) dsp_instance list \<Rightarrow> nat \<Rightarrow> ('f, 'm) dsp_instance list \<Rightarrow> bool" where
  "connecting insts i cur \<longleftrightarrow>
     map wiring cur = map wiring insts \<and> list_all in_instantiated cur \<and>
     (\<forall>c < length insts. mod_conns conns (cur ! c) \<subseteq> (if c < i then snd ` set (connections c (insts ! c)) else {}))"

lemma connecting_step:
  assumes "i < length insts" "connecting insts i cur" "connect_instance ops nbuf i cur = Inr cur'"
  shows "connecting insts (Suc i) cur'"
proof -
  have w: "map wiring cur = map wiring insts"
    and c: "\<And>c. c < length insts \<Longrightarrow> mod_conns conns (cur ! c) \<subseteq> (if c < i then snd ` set (connections c (insts ! c)) else {})"
    using assms(2) by (auto simp: connecting_def)
  have i: "i < length cur" using assms(1) wiring_nth(1) [OF w] by simp
  obtain m m' where m: "in_module (cur ! i) = Some m" "for_each (connect_one ops nbuf) (connections i (cur ! i)) m = Inr m'"
      "cur' = cur[i := (cur ! i)\<lparr>in_module := Some m'\<rparr>]"
    using assms(3) by (auto simp: connect_instance_def and_then_Inr the_module_def split: option.splits)
  have "conns m = {}" using c [OF assms(1)] m(1) by (simp add: mod_conns_def)
  then have m': "conns m' \<subseteq> snd ` set (connections i (insts ! i))"
    using connect_all_adds [OF m(2)] wiring_facts(8) [OF wiring_nth(2) [OF w assms(1)]] by auto
  have "map wiring cur' = map wiring insts" using wiring_list_update [OF i, of "(cur ! i)\<lparr>in_module := Some m'\<rparr>"] w m(3) by simp
  moreover have "list_all in_instantiated cur'"
    using assms(2) i by (auto simp: m(3) connecting_def list_all_length nth_list_update)
  moreover have "mod_conns conns (cur' ! c) \<subseteq> (if c < Suc i then snd ` set (connections c (insts ! c)) else {})"
    if "c < length insts" for c
    using that c [of c] m' i by (cases "c = i") (auto simp: m(3) mod_conns_def split: if_splits)
  ultimately show ?thesis by (simp add: connecting_def)
qed

lemma delays_keep:
  assumes "calculate_audio_delay ops insts = Inr insts'" "list_all in_instantiated insts"
  shows "map wiring insts' = map wiring insts \<and> map (mod_conns conns) insts' = map (mod_conns conns) insts \<and>
    list_all in_instantiated insts'"
proof -
  let ?Q = "\<lambda>cur. length cur = length insts \<and> map wiring cur = map wiring insts \<and>
    map (mod_conns conns) cur = map (mod_conns conns) insts \<and> list_all in_instantiated cur"
  have step: "?Q cur'" if h: "i < length insts" "?Q cur" "delay_instance ops i cur = Inr cur'" for i cur cur'
  proof -
    obtain d where cur': "cur' = cur[i := (cur ! i)\<lparr>in_total_delay := d\<rparr>]"
      using h(3) by (auto simp: delay_instance_def and_then_Inr)
    have i: "i < length cur" using h(1,2) by simp
    have "map wiring cur' = map wiring cur" unfolding cur' by (rule wiring_list_update [OF i]) simp
    moreover have "map (mod_conns conns) cur' = map (mod_conns conns) cur"
      unfolding cur' using i by (intro nth_equalityI) (auto simp: nth_list_update mod_conns_def)
    moreover have "list_all in_instantiated cur'"
      unfolding cur' using h(2) i by (simp add: list_all_length nth_list_update)
    moreover have "length cur' = length cur" by (simp add: cur')
    ultimately show ?thesis using h(2) by simp
  qed
  have "?Q insts'"
    by (rule for_each_upt_inv [OF assms(1) [unfolded calculate_audio_delay_def], of "\<lambda>_. ?Q"])
       (use assms(2) in simp, rule step)
  then show ?thesis by simp
qed

lemma connecting_connected:
  assumes "connecting i1 (length i1) i2" "map wiring i3 = map wiring i2" "map (mod_conns conns) i3 = map (mod_conns conns) i2"
  shows "connected conns i3"
proof -
  have w: "map wiring i3 = map wiring i1" using assms(1,2) by (simp add: connecting_def)
  note n = wiring_nth [OF w] and n2 = wiring_nth(1) [OF assms(2)]
  have "mod_conns conns (i3 ! c) \<subseteq> snd ` set (connections c (i3 ! c))" if "c < length i3" for c
  proof -
    have c: "c < length i1" using that n(1) by simp
    have "mod_conns conns (i3 ! c) = mod_conns conns (i2 ! c)" using assms(3) that n2 by (metis nth_map)
    moreover have "mod_conns conns (i2 ! c) \<subseteq> snd ` set (connections c (i1 ! c))" using assms(1) c by (simp add: connecting_def)
    ultimately show ?thesis using wiring_facts(8) [OF n(2) [OF c]] by simp
  qed
  then show ?thesis by (simp add: connected_def)
qed

lemma instantiate_connects:
  assumes "cras_dsp_pipeline_instantiate ops p rate = Inr (0, p')"
  shows "map wiring (pp_instances p') = map wiring (pp_instances p) \<and> connected conns (pp_instances p') \<and>
    list_all in_instantiated (pp_instances p') \<and> pp_sample_rate p' = rate \<and> pp_buffers p' = pp_buffers p \<and>
    pp_peak_buf p' = pp_peak_buf p"
proof -
  obtain i1 i2 i3 where
      r1: "instantiate_modules ops rate (pp_instances p) = Inr (0, i1)"
      and r2: "for_each (connect_instance ops (length (pp_buffers p))) [0..<length i1] i1 = Inr i2"
      and r3: "calculate_audio_delay ops i2 = Inr i3"
      and p': "p' = p\<lparr>pp_sample_rate := rate, pp_instances := i3\<rparr>"
    using assms by (auto simp: cras_dsp_pipeline_instantiate_def and_then_Inr split: if_splits)
  have i1: "map wiring i1 = map wiring (pp_instances p)" "list_all (\<lambda>a. mod_conns conns a = {} \<and> in_instantiated a) i1"
    using instantiate_modules_clear [OF r1] by auto
  have "connecting i1 0 i1" using i1(2) by (simp add: connecting_def list_all_length)
  with r2 have i2: "connecting i1 (length i1) i2"
    by (rule for_each_upt_inv) (rule connecting_step)
  then have "list_all in_instantiated i2" "map wiring i2 = map wiring i1" by (simp_all add: connecting_def)
  with delays_keep [OF r3] connecting_connected [OF i2] i1(1) show ?thesis by (simp add: p')
qed

end

subsection \<open>From loading to running\<close>

lemma wired_ports:
  assumes "map (\<lambda>a. (in_input_audio_ports a, in_output_audio_ports a)) insts' =
      map (\<lambda>a. (in_input_audio_ports a, in_output_audio_ports a)) insts"
  shows "wired insts' = wired insts"
proof -
  have len: "length insts' = length insts" using assms by (metis length_map)
  have ports: "in_input_audio_ports (insts' ! a) = in_input_audio_ports (insts ! a) \<and>
      in_output_audio_ports (insts' ! a) = in_output_audio_ports (insts ! a)" if "a < length insts" for a
    using arg_cong [OF assms, of "\<lambda>xs. xs ! a"] that len by simp
  then have "feeds_before insts' a q = feeds_before insts a q" if "a < length insts" for a q
    using that by (auto simp: feeds_before_def split: option.splits)
  moreover have "map (\<lambda>a. map ap_peer (in_input_audio_ports a)) insts' = map (\<lambda>a. map ap_peer (in_input_audio_ports a)) insts"
    using arg_cong [OF assms, of "map (\<lambda>(i, _). map ap_peer i)"] by (simp add: comp_def)
  ultimately show ?thesis using ports len by (simp add: wired_def list_all_iff)
qed

lemma load_instances_ports:
  "load_instances ops ini insts = (0, insts') \<Longrightarrow>
    map (\<lambda>a. (in_input_audio_ports a, in_output_audio_ports a)) insts' =
    map (\<lambda>a. (in_input_audio_ports a, in_output_audio_ports a)) insts \<and>
    list_all (\<lambda>a. \<exists>md. in_module a = Some md) insts'"
  by (induction insts arbitrary: insts')
     (auto simp: load_module_def split: prod.splits option.splits if_splits)

lemma allocate_buffers_result:
  assumes "wired (pp_instances p)" "allocate_buffers alloc zero p = Inr (0, p')"
  shows "wired (pp_instances p') \<and> map port_shape (pp_instances p') = map port_shape (pp_instances p) \<and>
    (\<forall>a < length (pp_instances p'). inst_safe (nat (pp_peak_buf p')) (pp_instances p') a) \<and>
    pp_buffers p' = replicate (nat (pp_peak_buf p')) (replicate DSP_BUFFER_SIZE zero)"
proof -
  let ?peak = "nat (count_buffers (pp_instances p))"
  obtain insts busy where a: "for_each assign_instance [0..<length (pp_instances p)] (pp_instances p, replicate ?peak False) = Inr (insts, busy)"
      "map port_shape insts = map port_shape (pp_instances p)"
      "\<forall>a < length (pp_instances p). inst_safe ?peak insts a"
    using assign_all [OF assms(1)] by blast
  have "p' = p\<lparr>pp_peak_buf := int ?peak, pp_buffers := replicate ?peak (replicate DSP_BUFFER_SIZE zero), pp_instances := insts\<rparr>"
    using assms(2) a(1) by (auto simp: allocate_buffers_def Let_def and_then_Inr split: if_splits)
  with a wired_shape [OF a(2) assms(1)] shape_facts(1) [OF a(2)] show ?thesis by (simp del: int_nat_eq)
qed

lemma load_result:
  assumes "wired (pp_instances p)" "cras_dsp_pipeline_load ops alloc zero p = Inr (0, p')"
  shows "wired (pp_instances p') \<and> length (pp_instances p') = length (pp_instances p) \<and>
    (\<forall>a < length (pp_instances p'). inst_safe (nat (pp_peak_buf p')) (pp_instances p') a) \<and>
    pp_buffers p' = replicate (nat (pp_peak_buf p')) (replicate DSP_BUFFER_SIZE zero)"
proof -
  obtain insts where l: "load_instances ops (pp_ini p) (pp_instances p) = (0, insts)"
      and a: "allocate_buffers alloc zero (p\<lparr>pp_instances := insts\<rparr>) = Inr (0, p')"
    using assms(2) by (auto simp: cras_dsp_pipeline_load_def and_then_Inr split: prod.splits if_splits)
  note ports = load_instances_ports [OF l, THEN conjunct1]
  have "wired (pp_instances (p\<lparr>pp_instances := insts\<rparr>))" using wired_ports [OF ports] assms(1) by simp
  from allocate_buffers_result [OF this a] arg_cong [OF ports, of length] show ?thesis
    using shape_facts(1) [of "pp_instances p'" insts] by simp
qed

lemma wiring_ports:
  assumes "map wiring insts' = map wiring insts"
  shows "map (\<lambda>a. (in_input_audio_ports a, in_output_audio_ports a)) insts' =
      map (\<lambda>a. (in_input_audio_ports a, in_output_audio_ports a)) insts"
  using arg_cong [OF assms, of "map (\<lambda>a. (in_input_audio_ports a, in_output_audio_ports a))"]
  by (simp add: comp_def wiring_def)

lemma inst_safe_wiring:
  assumes "map wiring insts' = map wiring insts" "a < length insts" "wired insts" "inst_safe peak insts a"
  shows "inst_safe peak insts' a"
proof -
  have len: "length insts' = length insts" using assms(1) by (metis length_map)
  have w: "wiring (insts' ! b) = wiring (insts ! b)" if "b < length insts" for b
    using that assms(1) len by (metis nth_map)
  then have ports: "in_input_audio_ports (insts' ! b) = in_input_audio_ports (insts ! b)"
      "in_output_audio_ports (insts' ! b) = in_output_audio_ports (insts ! b)"
      "in_properties (insts' ! b) = in_properties (insts ! b)" if "b < length insts" for b
    using wiring_facts(2,3,7) that by blast+
  have peer: "buf insts' (the (ap_peer p)) = buf insts (the (ap_peer p))" if h: "p \<in> set (in_input_audio_ports (insts ! a))" for p
  proof -
    obtain b k where "ap_peer p = Some (b, k)" "b < a" using wired_peer [OF assms(3,2) h] by blast
    with ports(2) [of b] assms(2) show ?thesis by (simp add: buf_def)
  qed
  have between: "nout insts' c = nout insts c" "buf insts' (c, k) = buf insts (c, k)" if "c < a" for c k
    using ports(2) [of c] that assms(2) by (simp_all add: buf_def nout_def)
  note here = ports [OF assms(2)]
  have ins: "ap_buf_index p < peak \<and> ap_buf_index p = buf insts' (the (ap_peer p)) \<and>
      (\<forall>c k. fst (the (ap_peer p)) < c \<longrightarrow> c < a \<longrightarrow> k < nout insts' c \<longrightarrow> buf insts' (c, k) \<noteq> ap_buf_index p)"
    if h: "p \<in> set (in_input_audio_ports (insts ! a))" for p
  proof -
    have s: "ap_buf_index p < peak" "ap_buf_index p = buf insts (the (ap_peer p))"
        "\<forall>c k. fst (the (ap_peer p)) < c \<longrightarrow> c < a \<longrightarrow> k < nout insts c \<longrightarrow> buf insts (c, k) \<noteq> ap_buf_index p"
      using assms(4) h unfolding inst_safe_def by blast+
    have u: "buf insts' (c, k) \<noteq> ap_buf_index p" if "fst (the (ap_peer p)) < c" "c < a" "k < nout insts' c" for c k
      using s(3) that between [OF that(2)] by simp
    show ?thesis unfolding peer [OF h] by (intro conjI allI impI; (rule s(1) | rule s(2) | rule u; assumption))
  qed
  from assms(4) show ?thesis unfolding inst_safe_def here
    by (elim conjE, intro conjI) (assumption | rule ballI, erule ins)+
qed

context dsp_modules
begin

text \<open>
  In a pipeline that was loaded and instantiated, what an instance finds in the buffer of an input is
  what the instance upstream had left there.
\<close>

lemma loaded_dataflow:
  assumes w: "wired (pp_instances p)" and load: "cras_dsp_pipeline_load ops alloc zero p = Inr (0, p1)"
    and inst: "cras_dsp_pipeline_instantiate ops p1 rate = Inr (0, p2)"
    and a: "a < length (pp_instances p2)" "port \<in> set (in_input_audio_ports (pp_instances p2 ! a))"
    and run: "run_prefix ops n a (p2\<lparr>pp_buffers := bufs\<rparr>) = Inr pa"
  shows "\<exists>b k pb. ap_peer port = Some (b, k) \<and> b < a \<and>
    run_prefix ops n (Suc b) (p2\<lparr>pp_buffers := bufs\<rparr>) = Inr pb \<and>
    pp_buffers pa ! ap_buf_index port = pp_buffers pb ! buf (pp_instances p2) (b, k)"
proof -
  note l = load_result [OF w load] and i = instantiate_connects [OF inst]
  have w2: "wired (pp_instances p2)" using l i wired_ports [OF wiring_ports] by blast
  have len: "length (pp_instances p2) = length (pp_instances p1)" using i by (metis length_map)
  have safe: "\<forall>c < length (pp_instances p2). inst_safe (nat (pp_peak_buf p1)) (pp_instances p2) c"
    using l i len inst_safe_wiring by metis
  obtain b k where b: "ap_peer port = Some (b, k)" "b < a" using wired_peer [OF w2 a] by blast
  let ?p = "p2\<lparr>pp_buffers := bufs\<rparr>"
  have "\<exists>pb. run_prefix ops n (Suc b) ?p = Inr pb \<and> pp_buffers pa ! ap_buf_index port = pp_buffers pb ! buf (pp_instances ?p) (b, k)"
    by (rule run_dataflow [where peak = "nat (pp_peak_buf p1)", OF _ _ _ _ _ b(1) run]) (use w2 safe i a in simp_all)
  with b show ?thesis by auto
qed

end

end
