(* ===== verification/Drc_Kernel.thy ===== *)
theory Drc_Kernel
  imports Dsp_Util "HOL-Library.Word"
begin

unbundle bit_operations_syntax

text \<open>
  The dynamics compressor of one frequency band: \<^verbatim>\<open>audio/hal/dsp/drc_math.h\<close>,
  \<^verbatim>\<open>audio/hal/dsp/drc_math.c\<close> and \<^verbatim>\<open>audio/hal/dsp/drc_kernel.c\<close> (the portable C code, not the
  NEON and SSE3 variants). The look-ahead buffers are lists; copying outside of a buffer is a fault.
  The allocations, whose results the code does not check, are taken to succeed.
\<close>

subsection \<open>Arithmetic\<close>

text \<open>
  What the compressor uses of the C arithmetic on \<^verbatim>\<open>float\<close>: literals, functions of
  \<^verbatim>\<open>math.h\<close> and the representation of a \<^verbatim>\<open>float\<close> as 32 bits.
\<close>

record 'f fmath =
  f_lit :: "int \<Rightarrow> int \<Rightarrow> 'f"
  f_exp :: "'f \<Rightarrow> 'f"
  f_log :: "'f \<Rightarrow> 'f"
  f_pow :: "'f \<Rightarrow> 'f \<Rightarrow> 'f"
  f_sqrt :: "'f \<Rightarrow> 'f"
  f_asin :: "'f \<Rightarrow> 'f"
  f_rint :: "'f \<Rightarrow> 'f"
  f_abs :: "'f \<Rightarrow> 'f"
  f_max :: "'f \<Rightarrow> 'f \<Rightarrow> 'f"
  f_infinity :: 'f
  f_nan :: 'f
  f_bits :: "'f \<Rightarrow> 32 word"
  f_of_bits :: "32 word \<Rightarrow> 'f"

definition PI_FLOAT :: "'f fmath \<Rightarrow> 'f" where
  "PI_FLOAT fm = f_lit fm 3141592653589793 (10 ^ 15)"

definition TWO_OVER_PI_FLOAT :: "'f fmath \<Rightarrow> 'f" where
  "TWO_OVER_PI_FLOAT fm = f_lit fm 63661977236758134 (10 ^ 17)"

definition NEG_TWO_DB :: "'f fmath \<Rightarrow> 'f" where
  "NEG_TWO_DB fm = f_lit fm 7943282347242815 (10 ^ 16)"

text \<open>The table \<^verbatim>\<open>db_to_linear\<close> that \<^verbatim>\<open>drc_math_init\<close> fills before any kernel is used.\<close>

definition drc_math_init :: "('f, 'd :: inverse) cmath \<Rightarrow> 'f list" where
  "drc_math_init m = map (\<lambda>i. c_float m (c_pow m (c_lit m 10 1) (c_lit m i 1 / c_lit m 20 1))) [- 100..100]"

definition db_index :: "int \<Rightarrow> nat" where
  "db_index i = nat (c_max (c_min i 100) (- 100) + 100)"

definition decibels_to_linear ::
  "('f :: {plus, minus, times}, 'd :: inverse) cmath \<Rightarrow> 'f fmath \<Rightarrow> 'f \<Rightarrow> 'f" where
  "decibels_to_linear m fm decibels =
     (let fi = f_rint fm decibels; x = decibels - fi; i = c_trunc m fi;
          A3 = f_lit fm 254408805631101131439208984375 (10 ^ 33);
          A2 = f_lit fm 6628888659179210662841796875 (10 ^ 30);
          A1 = f_lit fm 11512924730777740478515625 (10 ^ 26);
          A0 = f_lit fm 1 1;
          x2 = x * x
      in ((A3 * x + A2) * x2 + (A1 * x + A0)) * drc_math_init m ! db_index i)"

text \<open>The exponent bits of a \<^verbatim>\<open>float\<close> and the number with other exponent bits.\<close>

definition ieee_exponent :: "32 word \<Rightarrow> nat" where
  "ieee_exponent w = unat (drop_bit 23 w AND 0xFF)"

definition set_ieee_exponent :: "32 word \<Rightarrow> 32 word \<Rightarrow> 32 word" where
  "set_ieee_exponent e w = (w AND NOT (push_bit 23 0xFF)) OR push_bit 23 (e AND 0xFF)"

text \<open>\<^verbatim>\<open>frexpf_fast\<close>: the result and the new value of \<^verbatim>\<open>*e\<close>.\<close>

definition frexpf_fast :: "'f fmath \<Rightarrow> 'f \<Rightarrow> int \<Rightarrow> 'f \<times> int" where
  "frexpf_fast fm x e =
     (let exp = ieee_exponent (f_bits fm x)
      in if exp = 255 then (f_nan fm, e)
         else (f_of_bits fm (set_ieee_exponent 126 (f_bits fm x)), int exp - 126))"

definition linear_to_decibels ::
  "('f :: {zero, plus, minus, times, ord}, 'd) cmath \<Rightarrow> 'f fmath \<Rightarrow> 'f \<Rightarrow> 'f" where
  "linear_to_decibels m fm lin =
     (if lin \<le> 0 then c_of_int m (- 1000)
      else
        (case frexpf_fast fm lin 0 of (x0, e) \<Rightarrow>
           (let s = f_lit fm 707106781186548 (10 ^ 15);
                x = (if s < x0 then x0 * s else x0);
                exp = (if s < x0 then c_of_int m e + f_lit fm 1 2 else c_of_int m e);
                A5 = f_lit fm 1131880283355712890625 (10 ^ 21);
                A4 = f_lit fm (- 4258677959442138671875) (10 ^ 21);
                A3 = f_lit fm 681631565093994140625 (10 ^ 20);
                A2 = f_lit fm (- 61185703277587890625) (10 ^ 19);
                A1 = f_lit fm 36505267620086669921875 (10 ^ 22);
                A0 = f_lit fm (- 1217894077301025390625) (10 ^ 21);
                x2 = x * x; x4 = x2 * x2
            in ((A5 * x + A4) * x4 + (A3 * x + A2) * x2 + (A1 * x + A0)) * f_lit fm 20 1
               + exp * f_lit fm 60205999132796239 (10 ^ 16))))"

definition warp_sinf :: "('f :: {plus, times}) fmath \<Rightarrow> 'f \<Rightarrow> 'f" where
  "warp_sinf fm x =
     (let A7 = f_lit fm (- 43330336920917034149169921875) (10 ^ 31);
          A5 = f_lit fm 79434238374233245849609375 (10 ^ 27);
          A3 = f_lit fm (- 645892798900604248046875) (10 ^ 24);
          A1 = f_lit fm 15707910060882568359375 (10 ^ 22);
          x2 = x * x; x4 = x2 * x2
      in x * ((A7 * x2 + A5) * x4 + (A3 * x2 + A1)))"

definition warp_asinf :: "('f :: times) fmath \<Rightarrow> 'f \<Rightarrow> 'f" where
  "warp_asinf fm x = f_asin fm x * TWO_OVER_PI_FLOAT fm"

definition knee_expf :: "('f :: {plus, minus, times}, 'd :: inverse) cmath \<Rightarrow> 'f fmath \<Rightarrow> 'f \<Rightarrow> 'f" where
  "knee_expf m fm x = decibels_to_linear m fm (f_lit fm 8685889638065044 (10 ^ 15) * x)"

definition isbadf :: "'f fmath \<Rightarrow> 'f \<Rightarrow> bool" where
  "isbadf fm x \<longleftrightarrow> ieee_exponent (f_bits fm x) = 255"

subsection \<open>The kernel\<close>

definition MAX_PRE_DELAY_FRAMES :: nat where
  "MAX_PRE_DELAY_FRAMES = 1024"

definition DEFAULT_PRE_DELAY_FRAMES :: nat where
  "DEFAULT_PRE_DELAY_FRAMES = 256"

definition DIVISION_FRAMES :: nat where
  "DIVISION_FRAMES = 32"

record 'f drc_kernel =
  dk_sample_rate :: 'f
  dk_detector_average :: 'f
  dk_compressor_gain :: 'f
  dk_enabled :: int
  dk_processed :: bool
  dk_last_pre_delay_frames :: nat
  dk_pre_delay_buffers :: "'f list \<times> 'f list"
  dk_pre_delay_read_index :: nat
  dk_pre_delay_write_index :: nat
  dk_max_attack_compression_diff_db :: 'f
  dk_ratio :: 'f
  dk_slope :: 'f
  dk_linear_threshold :: 'f
  dk_db_threshold :: 'f
  dk_db_knee :: 'f
  dk_knee_threshold :: 'f
  dk_ratio_base :: 'f
  dk_K :: 'f
  dk_kA :: 'f
  dk_kB :: 'f
  dk_kC :: 'f
  dk_kD :: 'f
  dk_kE :: 'f
  dk_master_linear_gain :: 'f
  dk_attack_frames :: 'f
  dk_sat_release_frames_inv_neg :: 'f
  dk_sat_release_rate_at_neg_two_db :: 'f
  dk_knee_alpha :: 'f
  dk_knee_beta :: 'f
  dk_envelope_rate :: 'f
  dk_scaled_desired_gain :: 'f

definition cleared :: "('f :: zero) list" where
  "cleared = replicate MAX_PRE_DELAY_FRAMES 0"

text \<open>A kernel in cleared memory; its buffers do not exist yet.\<close>

definition zero_kernel :: "('f :: zero) drc_kernel" where
  "zero_kernel =
     \<lparr>dk_sample_rate = 0, dk_detector_average = 0, dk_compressor_gain = 0, dk_enabled = 0, dk_processed = False,
      dk_last_pre_delay_frames = 0, dk_pre_delay_buffers = ([], []), dk_pre_delay_read_index = 0,
      dk_pre_delay_write_index = 0, dk_max_attack_compression_diff_db = 0, dk_ratio = 0, dk_slope = 0,
      dk_linear_threshold = 0, dk_db_threshold = 0, dk_db_knee = 0, dk_knee_threshold = 0, dk_ratio_base = 0,
      dk_K = 0, dk_kA = 0, dk_kB = 0, dk_kC = 0, dk_kD = 0, dk_kE = 0, dk_master_linear_gain = 0,
      dk_attack_frames = 0, dk_sat_release_frames_inv_neg = 0, dk_sat_release_rate_at_neg_two_db = 0,
      dk_knee_alpha = 0, dk_knee_beta = 0, dk_envelope_rate = 0, dk_scaled_desired_gain = 0\<rparr>"

definition dk_init ::
  "('f :: {zero, one, uminus}) fmath \<Rightarrow> 'f drc_kernel \<Rightarrow> 'f \<Rightarrow> 'f drc_kernel" where
  "dk_init fm dk sample_rate =
     (let uninitialized_value = - 1
      in dk\<lparr>dk_sample_rate := sample_rate, dk_detector_average := 0, dk_compressor_gain := 1, dk_enabled := 0,
            dk_processed := False, dk_last_pre_delay_frames := DEFAULT_PRE_DELAY_FRAMES,
            dk_pre_delay_read_index := 0, dk_pre_delay_write_index := DEFAULT_PRE_DELAY_FRAMES,
            dk_max_attack_compression_diff_db := - f_infinity fm, dk_ratio := uninitialized_value,
            dk_slope := uninitialized_value, dk_linear_threshold := uninitialized_value,
            dk_db_threshold := uninitialized_value, dk_db_knee := uninitialized_value,
            dk_knee_threshold := uninitialized_value, dk_ratio_base := uninitialized_value,
            dk_K := uninitialized_value, dk_pre_delay_buffers := (cleared, cleared)\<rparr>)"

text \<open>
  \<^verbatim>\<open>pre_delay_frames & ~DIVISION_FRAMES_MASK\<close> is rounding down to a multiple of 32. A negative
  product converts to 0.
\<close>

definition pre_delay_frames :: "('f :: times, 'd) cmath \<Rightarrow> 'f \<Rightarrow> 'f \<Rightarrow> nat" where
  "pre_delay_frames m pre_delay_time sample_rate =
     (let n = min (nat (c_trunc m (pre_delay_time * sample_rate))) (MAX_PRE_DELAY_FRAMES - 1)
      in max (n - n mod DIVISION_FRAMES) DIVISION_FRAMES)"

definition set_pre_delay_time ::
  "('f :: {zero, times}, 'd) cmath \<Rightarrow> 'f drc_kernel \<Rightarrow> 'f \<Rightarrow> 'f drc_kernel" where
  "set_pre_delay_time m dk pre_delay_time =
     (let n = pre_delay_frames m pre_delay_time (dk_sample_rate dk)
      in if dk_last_pre_delay_frames dk \<noteq> n
         then dk\<lparr>dk_last_pre_delay_frames := n, dk_pre_delay_buffers := (cleared, cleared),
                 dk_pre_delay_read_index := 0, dk_pre_delay_write_index := n\<rparr>
         else dk)"

subsection \<open>The compression curve\<close>

definition knee_curve ::
  "('f :: {one, plus, minus, uminus, times, inverse, ord}, 'd :: inverse) cmath \<Rightarrow> 'f fmath \<Rightarrow> 'f drc_kernel
     \<Rightarrow> 'f \<Rightarrow> 'f \<Rightarrow> 'f" where
  "knee_curve m fm dk x k =
     (if x < dk_linear_threshold dk then x
      else dk_linear_threshold dk + (1 - knee_expf m fm (- k * (x - dk_linear_threshold dk))) / k)"

definition slope_at ::
  "('f :: {zero, one, plus, minus, uminus, times, inverse, ord}, 'd :: {times, inverse}) cmath \<Rightarrow> 'f fmath
     \<Rightarrow> 'f drc_kernel \<Rightarrow> 'f \<Rightarrow> 'f \<Rightarrow> 'f" where
  "slope_at m fm dk x k =
     (if x < dk_linear_threshold dk then 1
      else
        (let x2 = c_float m (c_double m x * c_lit m 1001 1000);
             x_db = linear_to_decibels m fm x;
             x2Db = linear_to_decibels m fm x2;
             y_db = linear_to_decibels m fm (knee_curve m fm dk x k);
             y2Db = linear_to_decibels m fm (knee_curve m fm dk x2 k)
         in (y2Db - y_db) / (x2Db - x_db)))"

text \<open>The rounds of the bisection in \<^verbatim>\<open>k_at_slope\<close>.\<close>

fun k_at_slope_loop ::
  "('f :: {zero, one, plus, minus, uminus, times, inverse, ord}, 'd :: {times, inverse}) cmath \<Rightarrow> 'f fmath
     \<Rightarrow> 'f drc_kernel \<Rightarrow> 'f \<Rightarrow> 'f \<Rightarrow> nat \<Rightarrow> 'f \<Rightarrow> 'f \<Rightarrow> 'f \<Rightarrow> 'f" where
  "k_at_slope_loop m fm dk desired_slope x 0 minK maxK k = k"
| "k_at_slope_loop m fm dk desired_slope x (Suc n) minK maxK k =
     (let slope = slope_at m fm dk x k;
          maxK' = (if slope < desired_slope then k else maxK);
          minK' = (if slope < desired_slope then minK else k)
      in k_at_slope_loop m fm dk desired_slope x n minK' maxK' (f_sqrt fm (minK' * maxK')))"

definition k_at_slope ::
  "('f :: {zero, one, plus, minus, uminus, times, inverse, ord}, 'd :: {times, inverse}) cmath \<Rightarrow> 'f fmath
     \<Rightarrow> 'f drc_kernel \<Rightarrow> 'f \<Rightarrow> 'f" where
  "k_at_slope m fm dk desired_slope =
     (let x = decibels_to_linear m fm (dk_db_threshold dk + dk_db_knee dk)
      in k_at_slope_loop m fm dk desired_slope x 15 (c_float m (c_lit m 1 10)) (c_of_int m 10000) (c_of_int m 5))"

definition update_static_curve_parameters ::
  "('f :: {zero, one, plus, minus, uminus, times, inverse, ord}, 'd :: {times, inverse}) cmath \<Rightarrow> 'f fmath
     \<Rightarrow> 'f drc_kernel \<Rightarrow> 'f \<Rightarrow> 'f \<Rightarrow> 'f \<Rightarrow> 'f drc_kernel" where
  "update_static_curve_parameters m fm dk db_threshold db_knee ratio =
     (if db_threshold \<noteq> dk_db_threshold dk \<or> db_knee \<noteq> dk_db_knee dk \<or> ratio \<noteq> dk_ratio dk then
        (let dk1 = dk\<lparr>dk_db_threshold := db_threshold, dk_linear_threshold := decibels_to_linear m fm db_threshold,
                      dk_db_knee := db_knee, dk_ratio := ratio, dk_slope := 1 / ratio\<rparr>;
             k = k_at_slope m fm dk1 (1 / ratio);
             dk2 = dk1\<lparr>dk_K := k, dk_knee_alpha := dk_linear_threshold dk1 + 1 / k,
                       dk_knee_beta := - f_exp fm (k * dk_linear_threshold dk1) / k,
                       dk_knee_threshold := decibels_to_linear m fm (db_threshold + db_knee)\<rparr>;
             y0 = knee_curve m fm dk2 (dk_knee_threshold dk2) k
         in dk2\<lparr>dk_ratio_base := y0 * f_pow fm (dk_knee_threshold dk2) (- dk_slope dk2)\<rparr>)
      else dk)"

definition knee_curveK ::
  "('f :: {plus, minus, uminus, times}, 'd :: inverse) cmath \<Rightarrow> 'f fmath \<Rightarrow> 'f drc_kernel \<Rightarrow> 'f \<Rightarrow> 'f" where
  "knee_curveK m fm dk x = dk_knee_alpha dk + dk_knee_beta dk * knee_expf m fm (- dk_K dk * x)"

definition volume_gain ::
  "('f :: {one, plus, minus, uminus, times, inverse, ord}, 'd :: inverse) cmath \<Rightarrow> 'f fmath \<Rightarrow> 'f drc_kernel \<Rightarrow> 'f \<Rightarrow> 'f" where
  "volume_gain m fm dk x =
     (if x < dk_knee_threshold dk then
        (if x < dk_linear_threshold dk then 1 else knee_curveK m fm dk x / x)
      else dk_ratio_base dk * knee_expf m fm (f_log fm x * (dk_slope dk - 1)))"

subsection \<open>Setting the parameters\<close>

record 'f dk_parameters =
  par_db_threshold :: 'f
  par_db_knee :: 'f
  par_ratio :: 'f
  par_attack_time :: 'f
  par_release_time :: 'f
  par_pre_delay_time :: 'f
  par_db_post_gain :: 'f
  par_releaseZone1 :: 'f
  par_releaseZone2 :: 'f
  par_releaseZone3 :: 'f
  par_releaseZone4 :: 'f

text \<open>The release curve: the fourth-order polynomial through the four zones.\<close>

definition release_polynomial ::
  "('f :: {plus, minus, times}) fmath \<Rightarrow> 'f drc_kernel \<Rightarrow> 'f \<Rightarrow> 'f \<Rightarrow> 'f \<Rightarrow> 'f \<Rightarrow> 'f drc_kernel" where
  "release_polynomial fm dk y1 y2 y3 y4 =
     dk\<lparr>dk_kA := f_lit fm 9999999999999998 (10 ^ 16) * y1 + f_lit fm 18432219684323923 (10 ^ 32) * y2
              - f_lit fm 19373394351676423 (10 ^ 32) * y3 + f_lit fm 8824516011816245 (10 ^ 33) * y4,
        dk_kB := f_lit fm (- 15788320352845888) (10 ^ 16) * y1 + f_lit fm 23305837032074286 (10 ^ 16) * y2
              - f_lit fm 9141194204840429 (10 ^ 16) * y3 + f_lit fm 1623677525612032 (10 ^ 16) * y4,
        dk_kC := f_lit fm 5334142869106424 (10 ^ 16) * y1 - f_lit fm 1272736789213631 (10 ^ 15) * y2
              + f_lit fm 9258856042207512 (10 ^ 16) * y3 - f_lit fm 18656310191776226 (10 ^ 17) * y4,
        dk_kD := f_lit fm 8783463138207234 (10 ^ 17) * y1 - f_lit fm 1694162967925622 (10 ^ 16) * y2
              + f_lit fm 8588057951595272 (10 ^ 17) * y3 - f_lit fm 429891410546283 (10 ^ 17) * y4,
        dk_kE := f_lit fm (- 42416883008123074) (10 ^ 18) * y1 + f_lit fm 1115693827987602 (10 ^ 16) * y2
              - f_lit fm 9764676325265872 (10 ^ 17) * y3 + f_lit fm 28494263462021576 (10 ^ 18) * y4\<rparr>"

definition dk_set_parameters ::
  "('f :: {zero, one, plus, minus, uminus, times, inverse, ord}, 'd :: {times, inverse}) cmath \<Rightarrow> 'f fmath
     \<Rightarrow> 'f drc_kernel \<Rightarrow> 'f dk_parameters \<Rightarrow> 'f drc_kernel" where
  "dk_set_parameters m fm dk par =
     (let sample_rate = dk_sample_rate dk;
          dk1 = update_static_curve_parameters m fm dk (par_db_threshold par) (par_db_knee par) (par_ratio par);
          full_range_makeup_gain = f_pow fm (1 / volume_gain m fm dk1 1) (f_lit fm 6 10);
          attack_time = c_max (f_lit fm 1 1000) (par_attack_time par);
          release_frames = sample_rate * par_release_time par;
          sat_release_frames = f_lit fm 25 10000 * sample_rate;
          inv_neg = - 1 / sat_release_frames;
          dk2 = dk1\<lparr>dk_master_linear_gain := decibels_to_linear m fm (par_db_post_gain par) * full_range_makeup_gain,
                    dk_attack_frames := attack_time * sample_rate,
                    dk_sat_release_frames_inv_neg := inv_neg,
                    dk_sat_release_rate_at_neg_two_db := decibels_to_linear m fm (c_of_int m (- 2) * inv_neg) - 1\<rparr>;
          dk3 = release_polynomial fm dk2 (release_frames * par_releaseZone1 par) (release_frames * par_releaseZone2 par)
                  (release_frames * par_releaseZone3 par) (release_frames * par_releaseZone4 par)
      in set_pre_delay_time m dk3 (par_pre_delay_time par))"

definition dk_set_enabled :: "'f drc_kernel \<Rightarrow> int \<Rightarrow> 'f drc_kernel" where
  "dk_set_enabled dk enabled = dk\<lparr>dk_enabled := enabled\<rparr>"

subsection \<open>The envelope\<close>

definition dk_update_envelope ::
  "('f :: {zero, one, plus, minus, uminus, times, inverse, ord}, 'd :: inverse) cmath \<Rightarrow> 'f fmath \<Rightarrow> 'f drc_kernel
     \<Rightarrow> 'f drc_kernel" where
  "dk_update_envelope m fm dk =
     (let scaled_desired_gain = warp_asinf fm (dk_detector_average dk);
          is_releasing = dk_compressor_gain dk < scaled_desired_gain;
          diff = linear_to_decibels m fm (dk_compressor_gain dk / scaled_desired_gain)
      in if is_releasing then
           (let x0 = (if isbadf fm diff then - 1 else diff);
                x1 = c_min (f_lit fm 0 1) (c_max (f_lit fm (- 12) 1) x0);
                x = f_lit fm 1 4 * (x1 + c_of_int m 12);
                x2 = x * x; x3 = x2 * x; x4 = x2 * x2;
                release_frames = dk_kA dk + dk_kB dk * x + dk_kC dk * x2 + dk_kD dk * x3 + dk_kE dk * x4;
                db_per_frame = c_of_int m 5 / release_frames
            in dk\<lparr>dk_max_attack_compression_diff_db := - f_infinity fm,
                  dk_envelope_rate := decibels_to_linear m fm db_per_frame,
                  dk_scaled_desired_gain := scaled_desired_gain\<rparr>)
         else
           (let d = (if isbadf fm diff then 1 else diff);
                max_diff = c_max (dk_max_attack_compression_diff_db dk) d;
                eff_atten_diff_db = c_max (f_lit fm 1 2) max_diff;
                x = f_lit fm 1 4 / eff_atten_diff_db
            in dk\<lparr>dk_max_attack_compression_diff_db := max_diff,
                  dk_envelope_rate := 1 - f_pow fm x (1 / dk_attack_frames dk),
                  dk_scaled_desired_gain := scaled_desired_gain\<rparr>))"

subsection \<open>Memory\<close>

text \<open>Reading and writing a range of a buffer; a range outside of the buffer is a fault. \<open>Endless\<close> is a loop without progress.\<close>

datatype drc_fault = Out_Of_Buffer | Endless

definition read_range :: "'f list \<Rightarrow> nat \<Rightarrow> nat \<Rightarrow> drc_fault + 'f list" where
  "read_range b i n = (if i + n \<le> length b then Inr (take n (drop i b)) else Inl Out_Of_Buffer)"

definition write_range :: "'f list \<Rightarrow> nat \<Rightarrow> 'f list \<Rightarrow> drc_fault + 'f list" where
  "write_range b i xs =
     (if i + length xs \<le> length b then Inr (take i b @ xs @ drop (i + length xs) b) else Inl Out_Of_Buffer)"

subsection \<open>Processing\<close>

definition max_abs_division :: "'f fmath \<Rightarrow> 'f list \<Rightarrow> 'f list \<Rightarrow> 'f list" where
  "max_abs_division fm data0 data1 = map2 (\<lambda>x y. f_max fm (f_abs fm x) (f_abs fm y)) data0 data1"

text \<open>The body of the loop of \<^verbatim>\<open>dk_update_detector_average\<close>.\<close>

definition detector_step ::
  "('f :: {zero, one, plus, minus, uminus, times, inverse, ord}, 'd :: inverse) cmath \<Rightarrow> 'f fmath \<Rightarrow> 'f drc_kernel
     \<Rightarrow> 'f \<Rightarrow> 'f \<Rightarrow> 'f" where
  "detector_step m fm dk abs_input detector_average =
     (let gain = volume_gain m fm dk abs_input;
          avg = (if detector_average < gain then
                   (if NEG_TWO_DB fm < gain
                    then detector_average + (gain - detector_average) * dk_sat_release_rate_at_neg_two_db dk
                    else
                      (let gain_db = linear_to_decibels m fm gain;
                           db_per_frame = gain_db * dk_sat_release_frames_inv_neg dk;
                           sat_release_rate = decibels_to_linear m fm db_per_frame - 1
                       in detector_average + (gain - detector_average) * sat_release_rate))
                 else gain)
      in if isbadf fm avg then f_lit fm 1 1 else c_min avg (f_lit fm 1 1))"

definition div_start :: "'f drc_kernel \<Rightarrow> int" where
  "div_start dk =
     (if dk_pre_delay_write_index dk = 0 then int MAX_PRE_DELAY_FRAMES - int DIVISION_FRAMES
      else int (dk_pre_delay_write_index dk) - int DIVISION_FRAMES)"

definition dk_update_detector_average ::
  "('f :: {zero, one, plus, minus, uminus, times, inverse, ord}, 'd :: inverse) cmath \<Rightarrow> 'f fmath \<Rightarrow> 'f drc_kernel
     \<Rightarrow> drc_fault + 'f drc_kernel" where
  "dk_update_detector_average m fm dk =
     (if div_start dk < 0 then Inl Out_Of_Buffer
      else
        and_then (read_range (fst (dk_pre_delay_buffers dk)) (nat (div_start dk)) DIVISION_FRAMES) (\<lambda>data0.
        and_then (read_range (snd (dk_pre_delay_buffers dk)) (nat (div_start dk)) DIVISION_FRAMES) (\<lambda>data1.
        Inr (dk\<lparr>dk_detector_average :=
                  fold (detector_step m fm dk) (max_abs_division fm data0 data1) (dk_detector_average dk)\<rparr>))))"

text \<open>
  The loop of \<^verbatim>\<open>dk_compress_output\<close>: the gains of \<open>n + 1\<close> rounds of four samples, and the array
  \<^verbatim>\<open>x\<close> at the end.
\<close>

fun gain_rounds :: "('f \<Rightarrow> 'f) \<Rightarrow> ('f \<Rightarrow> 'f) \<Rightarrow> nat \<Rightarrow> 'f list \<Rightarrow> 'f list \<times> 'f list" where
  "gain_rounds g next 0 x = (map g x, x)"
| "gain_rounds g next (Suc n) x =
     (case gain_rounds g next n (map next x) of (gs, x') \<Rightarrow> (map g x @ gs, x'))"

definition scale_range :: "('f :: times) list \<Rightarrow> nat \<Rightarrow> 'f list \<Rightarrow> drc_fault + 'f list" where
  "scale_range b i gs =
     and_then (read_range b i (length gs)) (\<lambda>xs. write_range b i (map2 (*) xs gs))"

definition powers4 :: "('f :: times) \<Rightarrow> 'f \<Rightarrow> 'f list" where
  "powers4 c r = [c * r, c * r * r, c * r * r * r, c * r * r * r * r]"

definition dk_compress_output ::
  "('f :: {one, plus, minus, times, ord}) fmath \<Rightarrow> 'f drc_kernel \<Rightarrow> drc_fault + 'f drc_kernel" where
  "dk_compress_output fm dk =
     (let start = dk_pre_delay_read_index dk; n = DIVISION_FRAMES div 4 - 1;
          master = dk_master_linear_gain dk; base = dk_scaled_desired_gain dk;
          res = (if dk_envelope_rate dk < 1 then
                   (let c = dk_compressor_gain dk - base; r = 1 - dk_envelope_rate dk; r4 = r * r * r * r
                    in case gain_rounds (\<lambda>x. master * warp_sinf fm (x + base)) (\<lambda>x. x * r4) n (powers4 c r) of
                         (gs, x) \<Rightarrow> (gs, x ! 3 + base))
                 else
                   (let c = dk_compressor_gain dk; r = dk_envelope_rate dk; r4 = r * r * r * r
                    in case gain_rounds (\<lambda>x. master * warp_sinf fm x) (\<lambda>x. c_min (f_lit fm 1 1) (x * r4)) n (powers4 c r) of
                         (gs, x) \<Rightarrow> (gs, x ! 3)))
      in and_then (scale_range (fst (dk_pre_delay_buffers dk)) start (fst res)) (\<lambda>left.
         and_then (scale_range (snd (dk_pre_delay_buffers dk)) start (fst res)) (\<lambda>right.
         Inr (dk\<lparr>dk_pre_delay_buffers := (left, right), dk_compressor_gain := snd res\<rparr>))))"

definition dk_process_one_division ::
  "('f :: {zero, one, plus, minus, uminus, times, inverse, ord}, 'd :: inverse) cmath \<Rightarrow> 'f fmath \<Rightarrow> 'f drc_kernel
     \<Rightarrow> drc_fault + 'f drc_kernel" where
  "dk_process_one_division m fm dk =
     and_then (dk_update_detector_average m fm dk) (\<lambda>dk1. dk_compress_output fm (dk_update_envelope m fm dk1))"

text \<open>
  The two \<^verbatim>\<open>memcpy\<close> calls for one channel: \<open>n\<close> samples of \<open>data\<close> from \<open>i\<close> on go into the buffer, and
  the samples at the read position come back.
\<close>

definition exchange ::
  "nat \<Rightarrow> nat \<Rightarrow> nat \<Rightarrow> nat \<Rightarrow> 'f list \<Rightarrow> 'f list \<Rightarrow> drc_fault + 'f list \<times> 'f list" where
  "exchange write read i n buf data =
     and_then (read_range data i n) (\<lambda>xs.
     and_then (write_range buf write xs) (\<lambda>buf'.
     and_then (read_range buf' read n) (\<lambda>ys.
     and_then (write_range data i ys) (\<lambda>data'. Inr (buf', data')))))"

definition exchange2 ::
  "nat \<Rightarrow> nat \<Rightarrow> nat \<Rightarrow> nat \<Rightarrow> 'f list \<times> 'f list \<Rightarrow> 'f list \<times> 'f list
     \<Rightarrow> drc_fault + ('f list \<times> 'f list) \<times> 'f list \<times> 'f list" where
  "exchange2 write read i n bufs datas =
     and_then (exchange write read i n (fst bufs) (fst datas)) (\<lambda>(b0, d0).
     and_then (exchange write read i n (snd bufs) (snd datas)) (\<lambda>(b1, d1).
     Inr ((b0, b1), d0, d1)))"

text \<open>\<^verbatim>\<open>& MAX_PRE_DELAY_FRAMES_MASK\<close> and \<^verbatim>\<open>& DIVISION_FRAMES_MASK\<close> are remainders by 1024 and 32.\<close>

definition dk_copy_fragment ::
  "'f drc_kernel \<Rightarrow> 'f list \<times> 'f list \<Rightarrow> nat \<Rightarrow> nat \<Rightarrow> drc_fault + 'f drc_kernel \<times> 'f list \<times> 'f list" where
  "dk_copy_fragment dk datas frame_index frames_to_process =
     and_then (exchange2 (dk_pre_delay_write_index dk) (dk_pre_delay_read_index dk) frame_index frames_to_process
                 (dk_pre_delay_buffers dk) datas) (\<lambda>(bufs, datas').
     Inr (dk\<lparr>dk_pre_delay_buffers := bufs,
             dk_pre_delay_write_index := (dk_pre_delay_write_index dk + frames_to_process) mod MAX_PRE_DELAY_FRAMES,
             dk_pre_delay_read_index := (dk_pre_delay_read_index dk + frames_to_process) mod MAX_PRE_DELAY_FRAMES\<rparr>,
          datas'))"

text \<open>
  The loop of \<^verbatim>\<open>dk_process_delay_only\<close>. When the chunk is empty nothing changes any more and the
  loop goes on forever.
\<close>

function delay_only_loop ::
  "nat \<Rightarrow> nat \<Rightarrow> nat \<Rightarrow> nat \<Rightarrow> 'f list \<times> 'f list \<Rightarrow> 'f list \<times> 'f list
     \<Rightarrow> drc_fault + (nat \<times> nat) \<times> ('f list \<times> 'f list) \<times> 'f list \<times> 'f list" where
  "delay_only_loop count i read write bufs datas =
     (if i < count then
        (let small = min read write; large = max read write;
             chunk = min (min (large - small) (MAX_PRE_DELAY_FRAMES - large)) (count - i)
         in if chunk = 0 then Inl Endless
            else and_then (exchange2 write read i chunk bufs datas) (\<lambda>(bufs', datas').
                   delay_only_loop count (i + chunk) ((read + chunk) mod MAX_PRE_DELAY_FRAMES)
                     ((write + chunk) mod MAX_PRE_DELAY_FRAMES) bufs' datas'))
      else Inr ((read, write), bufs, datas))"
  by pat_completeness auto
termination
proof (relation "measure (\<lambda>(count, i, _). count - i)", goal_cases)
  case (2 count i r w bufs datas small large chunk)
  from 2(5) have "i < i + chunk" by (simp only: less_add_same_cancel1 neq0_conv)
  from this 2(1) show ?case unfolding in_measure split by (rule diff_less_mono2)
qed simp

declare delay_only_loop.simps [simp del]

definition dk_process_delay_only ::
  "'f drc_kernel \<Rightarrow> 'f list \<times> 'f list \<Rightarrow> nat \<Rightarrow> drc_fault + 'f drc_kernel \<times> 'f list \<times> 'f list" where
  "dk_process_delay_only dk datas count =
     and_then (delay_only_loop count 0 (dk_pre_delay_read_index dk) (dk_pre_delay_write_index dk)
                 (dk_pre_delay_buffers dk) datas) (\<lambda>((read, write), bufs, datas').
     Inr (dk\<lparr>dk_pre_delay_buffers := bufs, dk_pre_delay_read_index := read, dk_pre_delay_write_index := write\<rparr>, datas'))"

text \<open>The loop of \<^verbatim>\<open>dk_process\<close>. \<open>offset\<close> is always below 32, so a fragment is never empty.\<close>

function process_loop ::
  "('f :: {zero, one, plus, minus, uminus, times, inverse, ord}, 'd :: inverse) cmath \<Rightarrow> 'f fmath \<Rightarrow> nat \<Rightarrow> nat \<Rightarrow> nat
     \<Rightarrow> 'f drc_kernel \<Rightarrow> 'f list \<times> 'f list \<Rightarrow> drc_fault + 'f drc_kernel \<times> 'f list \<times> 'f list" where
  "process_loop m fm count i offset dk datas =
     (if i < count then
        (let fragment = min (DIVISION_FRAMES - offset) (count - i)
         in if fragment = 0 then Inl Endless
            else and_then (dk_copy_fragment dk datas i fragment) (\<lambda>(dk1, datas').
                   (let offset' = (offset + fragment) mod DIVISION_FRAMES
                    in and_then (if offset' = 0 then dk_process_one_division m fm dk1 else Inr dk1) (\<lambda>dk2.
                         process_loop m fm count (i + fragment) offset' dk2 datas'))))
      else Inr (dk, datas))"
  by pat_completeness auto
termination
proof (relation "measure (\<lambda>(_, _, count, i, _). count - i)", goal_cases)
  case (2 m fm count i offset dk datas fragment)
  from 2(3) have "i < i + fragment" by (simp only: less_add_same_cancel1 neq0_conv)
  from this 2(1) show ?case unfolding in_measure split by (rule diff_less_mono2)
qed simp

declare process_loop.simps [simp del]

definition dk_process ::
  "('f :: {zero, one, plus, minus, uminus, times, inverse, ord}, 'd :: inverse) cmath \<Rightarrow> 'f fmath \<Rightarrow> 'f drc_kernel
     \<Rightarrow> 'f list \<times> 'f list \<Rightarrow> nat \<Rightarrow> drc_fault + 'f drc_kernel \<times> 'f list \<times> 'f list" where
  "dk_process m fm dk datas count =
     (if dk_enabled dk = 0 then dk_process_delay_only dk datas count
      else
        and_then (if \<not> dk_processed dk
                  then and_then (dk_compress_output fm (dk_update_envelope m fm dk))
                         (\<lambda>dk1. Inr (dk1\<lparr>dk_processed := True\<rparr>))
                  else Inr dk) (\<lambda>dk2.
        process_loop m fm count 0 (dk_pre_delay_write_index dk2 mod DIVISION_FRAMES) dk2 datas))"

subsection \<open>The look-ahead buffer is a queue\<close>

text \<open>The \<open>n\<close> samples that wait in a look-ahead buffer, from the read position on.\<close>

definition pending :: "'f list \<Rightarrow> nat \<Rightarrow> nat \<Rightarrow> 'f list" where
  "pending buf r n = map (\<lambda>k. buf ! ((r + k) mod MAX_PRE_DELAY_FRAMES)) [0..<n]"

lemma length_pending [simp]: "length (pending buf r n) = n"
  by (simp add: pending_def)

lemma read_range_ok: "i + n \<le> length b \<Longrightarrow> read_range b i n = Inr (take n (drop i b))"
  by (simp add: read_range_def)

lemma write_range_ok: "i + length xs \<le> length b \<Longrightarrow> write_range b i xs = Inr (take i b @ xs @ drop (i + length xs) b)"
  by (simp add: write_range_def)

lemma nth_splice:
  assumes "i + length xs \<le> length b" "j < length b"
  shows "(take i b @ xs @ drop (i + length xs) b) ! j = (if i \<le> j \<and> j < i + length xs then xs ! (j - i) else b ! j)"
  using assms by (auto simp: nth_append min_def)

lemma pending_prefix:
  assumes "r + n \<le> length buf" "length buf = MAX_PRE_DELAY_FRAMES" "n \<le> d"
  shows "take n (pending buf r d) = take n (drop r buf)"
  using assms by (intro nth_equalityI) (auto simp: pending_def)

text \<open>The position after the last of \<open>d\<close> waiting samples.\<close>

definition ring_end :: "nat \<Rightarrow> nat \<Rightarrow> nat" where
  "ring_end r d = (r + d) mod MAX_PRE_DELAY_FRAMES"

text \<open>The write position is \<open>d\<close> samples ahead, and \<open>n\<close> samples fit in front of and behind it.\<close>

definition fits :: "nat \<Rightarrow> nat \<Rightarrow> nat \<Rightarrow> bool" where
  "fits r d n \<longleftrightarrow>
     r < MAX_PRE_DELAY_FRAMES \<and> n \<le> d \<and> d + n \<le> MAX_PRE_DELAY_FRAMES \<and>
     ring_end r d + n \<le> MAX_PRE_DELAY_FRAMES \<and> r + n \<le> MAX_PRE_DELAY_FRAMES"

lemma ring_apart:
  assumes "fits r d n" "k < d" "j = (r + k) mod MAX_PRE_DELAY_FRAMES"
  shows "\<not> (ring_end r d \<le> j \<and> j < ring_end r d + n)"
  using assms by (auto simp: fits_def ring_end_def MAX_PRE_DELAY_FRAMES_def mod_if split: if_splits)

lemma exchange_fifo:
  assumes len: "length buf = MAX_PRE_DELAY_FRAMES" and f: "fits r d n" and i: "i + n \<le> length data"
  obtains buf' where
    "exchange (ring_end r d) r i n buf data = Inr (buf', take i data @ take n (pending buf r d) @ drop (i + n) data)"
    "length buf' = MAX_PRE_DELAY_FRAMES"
    "pending buf' (ring_end r n) d = drop n (pending buf r d) @ take n (drop i data)"
proof -
  let ?w = "ring_end r d" and ?xs = "take n (drop i data)"
  define B where "B = take ?w buf @ ?xs @ drop (?w + n) buf"
  have xs: "length ?xs = n" using i by simp
  have w: "?w + n \<le> length buf" "r + n \<le> length buf" "n \<le> d" using f len by (simp_all add: fits_def)
  have len': "length B = MAX_PRE_DELAY_FRAMES" using w(1) xs len by (simp add: B_def)
  have old: "B ! ((r + k) mod MAX_PRE_DELAY_FRAMES) = buf ! ((r + k) mod MAX_PRE_DELAY_FRAMES)" if "k < d" for k
    using nth_splice [of ?w ?xs buf "(r + k) mod MAX_PRE_DELAY_FRAMES"] xs w(1) len ring_apart [OF f that refl]
    by (auto simp: B_def MAX_PRE_DELAY_FRAMES_def)
  then have same: "pending B r d = pending buf r d" by (simp add: pending_def)
  have got: "take n (drop r B) = take n (pending buf r d)"
    using pending_prefix [of r n B d] w len len' same by simp
  have "pending B (ring_end r n) d = drop n (pending buf r d) @ ?xs"
  proof (rule nth_equalityI)
    show "length (pending B (ring_end r n) d) = length (drop n (pending buf r d) @ ?xs)" using xs w(3) by simp
  next
    fix k
    assume "k < length (pending B (ring_end r n) d)"
    then have k: "k < d" by simp
    have idx: "(ring_end r n + k) mod MAX_PRE_DELAY_FRAMES = (r + (n + k)) mod MAX_PRE_DELAY_FRAMES"
      by (simp add: ring_end_def mod_add_left_eq add.assoc)
    show "pending B (ring_end r n) d ! k = (drop n (pending buf r d) @ ?xs) ! k"
    proof (cases "n + k < d")
      case True
      then have "k < d - n" by arith
      with True k w(3) old [OF True] show ?thesis by (simp add: pending_def idx nth_append)
    next
      case False
      then have kn: "k - (d - n) < n" "k = (d - n) + (k - (d - n))" using k w(3) by auto
      have "(r + (n + k)) mod MAX_PRE_DELAY_FRAMES = (ring_end r d + (k - (d - n))) mod MAX_PRE_DELAY_FRAMES"
        unfolding ring_end_def mod_add_left_eq using kn(2) w(3) by (simp add: add.assoc add.commute [of k n])
      also have "\<dots> = ?w + (k - (d - n))" using kn(1) w(1) len by simp
      finally have pos: "(r + (n + k)) mod MAX_PRE_DELAY_FRAMES = ?w + (k - (d - n))" .
      have "B ! (?w + (k - (d - n))) = ?xs ! (k - (d - n))"
        using nth_splice [of ?w ?xs buf "?w + (k - (d - n))", unfolded xs] w(1) kn(1) len by (simp add: B_def)
      moreover have "\<not> k < d - n" using False by arith
      ultimately show ?thesis using k kn(1) False w(3) by (simp add: pending_def idx pos nth_append)
    qed
  qed
  moreover have "exchange ?w r i n buf data = Inr (B, take i data @ take n (pending buf r d) @ drop (i + n) data)"
    using xs w i len' got len
    by (simp add: B_def [symmetric] exchange_def read_range_ok write_range_ok [of _ ?xs] write_range_ok [of i "take n (pending buf r d)"] del: take_append)
  ultimately show ?thesis using that len' by blast
qed


lemma exchange2_fifo:
  assumes "length (fst bufs) = MAX_PRE_DELAY_FRAMES" "length (snd bufs) = MAX_PRE_DELAY_FRAMES" "fits r d n"
    "i + n \<le> length (fst datas)" "i + n \<le> length (snd datas)"
  obtains bufs' where
    "exchange2 (ring_end r d) r i n bufs datas = Inr (bufs',
       (take i (fst datas) @ take n (pending (fst bufs) r d) @ drop (i + n) (fst datas),
        take i (snd datas) @ take n (pending (snd bufs) r d) @ drop (i + n) (snd datas)))"
    "length (fst bufs') = MAX_PRE_DELAY_FRAMES" "length (snd bufs') = MAX_PRE_DELAY_FRAMES"
    "pending (fst bufs') (ring_end r n) d = drop n (pending (fst bufs) r d) @ take n (drop i (fst datas))"
    "pending (snd bufs') (ring_end r n) d = drop n (pending (snd bufs) r d) @ take n (drop i (snd datas))"
proof -
  obtain b0 where b0: "exchange (ring_end r d) r i n (fst bufs) (fst datas) =
      Inr (b0, take i (fst datas) @ take n (pending (fst bufs) r d) @ drop (i + n) (fst datas))"
    "length b0 = MAX_PRE_DELAY_FRAMES" "pending b0 (ring_end r n) d = drop n (pending (fst bufs) r d) @ take n (drop i (fst datas))"
    by (rule exchange_fifo [OF assms(1,3,4)])
  obtain b1 where b1: "exchange (ring_end r d) r i n (snd bufs) (snd datas) =
      Inr (b1, take i (snd datas) @ take n (pending (snd bufs) r d) @ drop (i + n) (snd datas))"
    "length b1 = MAX_PRE_DELAY_FRAMES" "pending b1 (ring_end r n) d = drop n (pending (snd bufs) r d) @ take n (drop i (snd datas))"
    by (rule exchange_fifo [OF assms(2,3,5)])
  show ?thesis by (rule that [of "(b0, b1)"]) (use b0 b1 in \<open>simp_all add: exchange2_def\<close>)
qed

text \<open>
  One channel while a block goes through: the first \<open>i\<close> samples of the block are replaced by the
  first \<open>i\<close> samples of the stream that begins with the \<open>d\<close> samples that waited at first, and the next
  \<open>d\<close> samples of this stream wait now.
\<close>

definition delayed :: "'f list \<Rightarrow> 'f list \<Rightarrow> nat \<Rightarrow> nat \<Rightarrow> 'f list \<Rightarrow> nat \<Rightarrow> 'f list \<Rightarrow> bool" where
  "delayed P data d i buf r cur \<longleftrightarrow>
     length buf = MAX_PRE_DELAY_FRAMES \<and> cur = take i (P @ data) @ drop i data \<and>
     pending buf r d = take d (drop i (P @ data))"

lemma take_drop_front: "length A = i \<Longrightarrow> take i (A @ B) = A \<and> drop (i + n) (A @ B) = drop n B \<and> drop i (A @ B) = B"
  by simp

lemma delayed_step:
  assumes "delayed P data d i buf r cur" "length P = d" "i + n \<le> length data" "n \<le> d" "length buf' = MAX_PRE_DELAY_FRAMES"
    "pending buf' r' d = drop n (pending buf r d) @ take n (drop i cur)"
  shows "delayed P data d (i + n) buf' r' (take i cur @ take n (pending buf r d) @ drop (i + n) cur)"
proof -
  let ?S = "P @ data"
  have cur: "cur = take i ?S @ drop i data" and pen: "pending buf r d = take d (drop i ?S)"
    using assms(1) by (simp_all add: delayed_def)
  have l: "length (take i ?S) = i" using assms(3) by simp
  have dS: "drop i data = drop (d + i) ?S" using assms(2) by simp
  have c: "take i cur = take i ?S" "drop (i + n) cur = drop n (drop i data)" "drop i cur = drop i data"
    using take_drop_front [OF l, of "drop i data" n] unfolding cur by blast+
  have "take i cur @ take n (pending buf r d) @ drop (i + n) cur = take i ?S @ take n (drop i ?S) @ drop (i + n) data"
    unfolding c pen take_take drop_drop min_absorb1 [OF assms(4)] by (simp only: add.commute)
  also have "\<dots> = take (i + n) ?S @ drop (i + n) data" unfolding append_assoc [symmetric] take_add [symmetric] ..
  finally have out: "take i cur @ take n (pending buf r d) @ drop (i + n) cur = take (i + n) ?S @ drop (i + n) data" .
  have "take n (drop i cur) = take n (drop (d + i) ?S)" unfolding c dS ..
  moreover have "drop n (take d (drop i ?S)) = take (d - n) (drop (i + n) ?S)"
    unfolding drop_take drop_drop by (simp only: add.commute)
  moreover have e: "d - n + (i + n) = d + i" using assms(4) by simp
  ultimately have "pending buf' r' d = take (d - n) (drop (i + n) ?S) @ take n (drop (d - n) (drop (i + n) ?S))"
    unfolding assms(6) pen drop_drop using e by (simp only:)
  also have "\<dots> = take d (drop (i + n) ?S)" unfolding take_add [symmetric] using assms(4) by simp
  finally show ?thesis using out assms(5) by (simp only: delayed_def)
qed


lemma ring_end_swap: "ring_end (ring_end r d) n = ring_end (ring_end r n) d"
  unfolding ring_end_def mod_add_left_eq by (simp only: ac_simps)

lemma ring_end_less [simp]: "ring_end r d < MAX_PRE_DELAY_FRAMES"
  by (simp add: ring_end_def MAX_PRE_DELAY_FRAMES_def)

text \<open>The chunk that \<^verbatim>\<open>dk_process_delay_only\<close> chooses is not empty and fits.\<close>

lemma chunk_fits:
  assumes "r < MAX_PRE_DELAY_FRAMES" "0 < d" "d < MAX_PRE_DELAY_FRAMES" "0 < c"
    and "chunk = min (min (max r (ring_end r d) - min r (ring_end r d)) (MAX_PRE_DELAY_FRAMES - max r (ring_end r d))) c"
  shows "0 < chunk \<and> fits r d chunk"
proof (cases "r + d < MAX_PRE_DELAY_FRAMES")
  case True
  then have w: "ring_end r d = r + d" by (simp add: ring_end_def)
  have c: "chunk = min (min d (MAX_PRE_DELAY_FRAMES - (r + d))) c" unfolding assms(5) w by simp
  have "0 < chunk" "chunk \<le> d" "chunk \<le> MAX_PRE_DELAY_FRAMES - (r + d)" unfolding c using True assms(2,4) by auto
  with True assms(1) show ?thesis unfolding fits_def w by arith
next
  case False
  then have w: "ring_end r d = r + d - MAX_PRE_DELAY_FRAMES" using assms(1,3) by (simp add: ring_end_def mod_if)
  have "r + d - MAX_PRE_DELAY_FRAMES \<le> r" using assms(3) by simp
  then have c: "chunk = min (min (r - (r + d - MAX_PRE_DELAY_FRAMES)) (MAX_PRE_DELAY_FRAMES - r)) c"
    unfolding assms(5) w by (simp only: max_absorb1 min_absorb2)
  have le: "chunk \<le> r - (r + d - MAX_PRE_DELAY_FRAMES)" "chunk \<le> MAX_PRE_DELAY_FRAMES - r" unfolding c by simp_all
  have "0 < chunk" unfolding c using False assms(1,3,4) by (simp only: min_less_iff_conj) arith
  with le False assms(1,3) show ?thesis unfolding fits_def w by arith
qed

definition delayed2 ::
  "'f list \<times> 'f list \<Rightarrow> 'f list \<times> 'f list \<Rightarrow> nat \<Rightarrow> nat \<Rightarrow> 'f list \<times> 'f list \<Rightarrow> nat \<Rightarrow> 'f list \<times> 'f list \<Rightarrow> bool" where
  "delayed2 P data d i bufs r cur \<longleftrightarrow>
     delayed (fst P) (fst data) d i (fst bufs) r (fst cur) \<and> delayed (snd P) (snd data) d i (snd bufs) r (snd cur)"

lemma delay_only_loop_spec:
  assumes d: "0 < d" "d < MAX_PRE_DELAY_FRAMES" and P: "length (fst P) = d" "length (snd P) = d"
    and len: "count \<le> length (fst data)" "count \<le> length (snd data)"
  shows "r < MAX_PRE_DELAY_FRAMES \<Longrightarrow> i \<le> count \<Longrightarrow> delayed2 P data d i bufs r cur \<Longrightarrow>
    \<exists>r' bufs' cur'. delay_only_loop count i r (ring_end r d) bufs cur = Inr ((r', ring_end r' d), bufs', cur') \<and>
      r' < MAX_PRE_DELAY_FRAMES \<and> delayed2 P data d count bufs' r' cur'"
proof (induction "count - i" arbitrary: i r bufs cur rule: less_induct)
  case less
  show ?case
  proof (cases "i < count")
    case False
    with less.prems show ?thesis by (simp add: delay_only_loop.simps)
  next
    case True
    define chunk where "chunk = min (min (max r (ring_end r d) - min r (ring_end r d))
      (MAX_PRE_DELAY_FRAMES - max r (ring_end r d))) (count - i)"
    have ch: "0 < chunk" "fits r d chunk" using chunk_fits [OF less.prems(1) d _ chunk_def] True by auto
    have "chunk \<le> count - i" unfolding chunk_def by (rule min.cobounded2)
    with True ch(2) have le: "i + chunk \<le> count" "chunk \<le> d" by (simp_all add: fits_def)
    have dl: "delayed (fst P) (fst data) d i (fst bufs) r (fst cur)" "delayed (snd P) (snd data) d i (snd bufs) r (snd cur)"
      using less.prems(3) by (simp_all add: delayed2_def)
    have fit: "i + chunk \<le> length (fst cur)" "i + chunk \<le> length (snd cur)" "length (fst bufs) = MAX_PRE_DELAY_FRAMES"
        "length (snd bufs) = MAX_PRE_DELAY_FRAMES" "i + chunk \<le> length (fst data)" "i + chunk \<le> length (snd data)"
      using dl le len by (auto simp: delayed_def)
    obtain bufs' where x: "exchange2 (ring_end r d) r i chunk bufs cur = Inr (bufs',
       (take i (fst cur) @ take chunk (pending (fst bufs) r d) @ drop (i + chunk) (fst cur),
        take i (snd cur) @ take chunk (pending (snd bufs) r d) @ drop (i + chunk) (snd cur)))"
      "length (fst bufs') = MAX_PRE_DELAY_FRAMES" "length (snd bufs') = MAX_PRE_DELAY_FRAMES"
      "pending (fst bufs') (ring_end r chunk) d = drop chunk (pending (fst bufs) r d) @ take chunk (drop i (fst cur))"
      "pending (snd bufs') (ring_end r chunk) d = drop chunk (pending (snd bufs) r d) @ take chunk (drop i (snd cur))"
      by (rule exchange2_fifo [OF fit(3,4) ch(2) fit(1,2)])
    let ?cur = "(take i (fst cur) @ take chunk (pending (fst bufs) r d) @ drop (i + chunk) (fst cur),
        take i (snd cur) @ take chunk (pending (snd bufs) r d) @ drop (i + chunk) (snd cur))"
    have "delayed2 P data d (i + chunk) bufs' (ring_end r chunk) ?cur"
      using delayed_step [OF dl(1) P(1) fit(5) le(2) x(2,4)] delayed_step [OF dl(2) P(2) fit(6) le(2) x(3,5)]
      by (simp add: delayed2_def)
    then have "\<exists>r' bufs'' cur'. delay_only_loop count (i + chunk) (ring_end r chunk) (ring_end (ring_end r chunk) d) bufs' ?cur =
        Inr ((r', ring_end r' d), bufs'', cur') \<and> r' < MAX_PRE_DELAY_FRAMES \<and> delayed2 P data d count bufs'' r' cur'"
      by (intro less.hyps) (use True ch(1) le(1) in auto)
    moreover have "delay_only_loop count i r (ring_end r d) bufs cur =
        delay_only_loop count (i + chunk) (ring_end r chunk) (ring_end (ring_end r chunk) d) bufs' ?cur"
      using True ch(1) x(1)
      by (subst delay_only_loop.simps)
         (simp add: chunk_def [symmetric] Let_def ring_end_def [symmetric] ring_end_swap [of r d])
    ultimately show ?thesis by simp
  qed
qed

text \<open>A kernel between two calls.\<close>

definition dk_wf :: "'f drc_kernel \<Rightarrow> bool" where
  "dk_wf dk \<longleftrightarrow>
     length (fst (dk_pre_delay_buffers dk)) = MAX_PRE_DELAY_FRAMES \<and>
     length (snd (dk_pre_delay_buffers dk)) = MAX_PRE_DELAY_FRAMES \<and>
     dk_pre_delay_read_index dk < MAX_PRE_DELAY_FRAMES \<and>
     dk_pre_delay_write_index dk = ring_end (dk_pre_delay_read_index dk) (dk_last_pre_delay_frames dk) \<and>
     DIVISION_FRAMES dvd dk_last_pre_delay_frames dk \<and> DIVISION_FRAMES \<le> dk_last_pre_delay_frames dk \<and>
     dk_last_pre_delay_frames dk + DIVISION_FRAMES \<le> MAX_PRE_DELAY_FRAMES"

text \<open>The samples of the left and right channel that wait in a kernel.\<close>

definition dk_pending :: "'f drc_kernel \<Rightarrow> 'f list \<times> 'f list" where
  "dk_pending dk =
     (pending (fst (dk_pre_delay_buffers dk)) (dk_pre_delay_read_index dk) (dk_last_pre_delay_frames dk),
      pending (snd (dk_pre_delay_buffers dk)) (dk_pre_delay_read_index dk) (dk_last_pre_delay_frames dk))"


subsection \<open>The same gain for both channels\<close>

text \<open>Samples multiplied by lists of gains, one list per sample.\<close>

definition amplified :: "('f :: times) list list \<Rightarrow> 'f list \<Rightarrow> 'f list" where
  "amplified G xs = map2 (\<lambda>gs x. fold (\<lambda>g y. y * g) gs x) G xs"

lemma amplified_append:
  "length G = length xs \<Longrightarrow> amplified (G @ H) (xs @ ys) = amplified G xs @ amplified H ys"
  by (simp add: amplified_def)

lemma amplified_none [simp]: "amplified (replicate (length xs) []) xs = xs"
  by (induction xs) (simp_all add: amplified_def)

lemma length_amplified [simp]: "length (amplified G xs) = min (length G) (length xs)"
  by (simp add: amplified_def)

lemma amplified_more:
  assumes "length G = length xs" "length gs = length xs"
  shows "amplified (map2 (\<lambda>h g. h @ [g]) G gs) xs = map2 (*) (amplified G xs) gs"
  using assms by (intro nth_equalityI) (simp_all add: amplified_def)

text \<open>
  One channel of an enabled kernel while a block goes through: the output so far and the waiting
  samples are the samples of the stream, each multiplied by its gains.
\<close>

definition linked :: "('f :: times) list \<Rightarrow> 'f list \<Rightarrow> nat \<Rightarrow> nat \<Rightarrow> 'f list list \<Rightarrow> 'f list \<Rightarrow> nat \<Rightarrow> 'f list \<Rightarrow> bool" where
  "linked P data d i G buf r cur \<longleftrightarrow>
     length buf = MAX_PRE_DELAY_FRAMES \<and> length cur = length data \<and> drop i cur = drop i data \<and>
     length G = i + d \<and> take i cur @ pending buf r d = amplified G (take (i + d) (P @ data))"

lemma linked_copy:
  assumes "linked P data d i G buf r cur" "length P = d" "i + n \<le> length data" "n \<le> d" "length buf' = MAX_PRE_DELAY_FRAMES"
    "pending buf' r' d = drop n (pending buf r d) @ take n (drop i cur)"
  shows "linked P data d (i + n) (G @ replicate n []) buf' r' (take i cur @ take n (pending buf r d) @ drop (i + n) cur)"
proof -
  let ?S = "P @ data" and ?pen = "pending buf r d" and ?cur = "take i cur @ take n (pending buf r d) @ drop (i + n) cur"
  have l: "length cur = length data" "drop i cur = drop i data" "length G = i + d"
      "take i cur @ ?pen = amplified G (take (i + d) ?S)"
    using assms(1) by (simp_all add: linked_def)
  have xs: "take n (drop i cur) = take n (drop (i + d) ?S)" using l(2) assms(2) by (simp add: add.commute)
  have lx: "length (take n (drop (i + d) ?S)) = n" "length (take (i + d) ?S) = i + d" using assms(2,3) by simp_all
  have tk: "take (i + n) ?cur = take i cur @ take n ?pen" using l(1) assms(3,4) by simp
  have dr: "drop (i + n) ?cur = drop (i + n) data"
  proof -
    have "drop (i + n) ?cur = drop (i + n) cur" using l(1) assms(3,4) by simp
    also have "\<dots> = drop n (drop i cur)" by (simp add: add.commute)
    finally show ?thesis by (simp add: l(2) add.commute)
  qed
  have "take (i + n) ?cur @ pending buf' r' d = (take i cur @ ?pen) @ take n (drop i cur)"
    unfolding tk assms(6) by (metis append_assoc append_take_drop_id)
  also have "\<dots> = amplified (G @ replicate n []) (take (i + d) ?S @ take n (drop (i + d) ?S))"
    unfolding l(4) xs using l(3) lx amplified_append [of G "take (i + d) ?S"] amplified_none [of "take n (drop (i + d) ?S)"]
    by (simp only:)
  also have "\<dots> = amplified (G @ replicate n []) (take (i + n + d) ?S)"
    unfolding take_add [symmetric] by (simp only: ac_simps)
  finally have "take (i + n) ?cur @ pending buf' r' d = amplified (G @ replicate n []) (take (i + n + d) ?S)" .
  moreover have "length ?cur = length data" using l(1) assms(3,4) by simp
  ultimately show ?thesis using l(3) dr assms(5) by (simp only: linked_def length_append length_replicate ac_simps)
qed

text \<open>Multiplying a range of the look-ahead buffer at the read position multiplies the first waiting samples.\<close>

lemma scale_range_fifo:
  assumes len: "length buf = MAX_PRE_DELAY_FRAMES" and gs: "r + length gs \<le> MAX_PRE_DELAY_FRAMES" "length gs \<le> d"
    and d: "d \<le> MAX_PRE_DELAY_FRAMES"
  obtains buf' where "scale_range buf r gs = Inr buf'" "length buf' = MAX_PRE_DELAY_FRAMES"
    "pending buf' r d = map2 (*) (take (length gs) (pending buf r d)) gs @ drop (length gs) (pending buf r d)"
proof -
  let ?n = "length gs"
  let ?ys = "map2 (*) (take ?n (drop r buf)) gs"
  have ly: "length ?ys = ?n" using gs(1) len by simp
  define B where "B = take r buf @ ?ys @ drop (r + ?n) buf"
  have s: "scale_range buf r gs = Inr B"
    using gs(1) len ly by (simp add: scale_range_def read_range_ok write_range_ok B_def)
  have lB: "length B = MAX_PRE_DELAY_FRAMES" using gs(1) len ly by (simp add: B_def)
  have "pending B r d = map2 (*) (take ?n (pending buf r d)) gs @ drop ?n (pending buf r d)"
  proof (rule nth_equalityI)
    show "length (pending B r d) = length (map2 (*) (take ?n (pending buf r d)) gs @ drop ?n (pending buf r d))"
      using gs(2) by simp
  next
    fix k
    assume "k < length (pending B r d)"
    then have k: "k < d" by simp
    let ?j = "(r + k) mod MAX_PRE_DELAY_FRAMES"
    have j: "?j < length buf" using len by (simp add: MAX_PRE_DELAY_FRAMES_def)
    have Bj: "B ! ?j = (if r \<le> ?j \<and> ?j < r + ?n then ?ys ! (?j - r) else buf ! ?j)"
      unfolding B_def using nth_splice [of r ?ys buf ?j, unfolded ly] gs(1) len j by simp
    show "pending B r d ! k = (map2 (*) (take ?n (pending buf r d)) gs @ drop ?n (pending buf r d)) ! k"
    proof (cases "k < ?n")
      case True
      with gs(1) have "?j = r + k" by simp
      with True Bj k gs len show ?thesis by (simp add: pending_def nth_append)
    next
      case False
      have "\<not> (r \<le> ?j \<and> ?j < r + ?n)"
        using False k d gs(1) by (auto simp: mod_if split: if_splits)
      with Bj False k gs(2) show ?thesis by (simp add: pending_def nth_append)
    qed
  qed
  with that s lB show ?thesis by blast
qed

lemma append3_eq:
  "xs @ ys @ zs = xs' @ ys' @ zs' \<Longrightarrow> length xs = length xs' \<Longrightarrow> length ys = length ys' \<Longrightarrow>
   xs = xs' \<and> ys = ys' \<and> zs = zs'"
  by simp

lemma linked_scale:
  assumes "linked P data d i G buf r cur" "length P = d" "i \<le> length data" "length gs \<le> d" "length buf' = MAX_PRE_DELAY_FRAMES"
    "pending buf' r d = map2 (*) (take (length gs) (pending buf r d)) gs @ drop (length gs) (pending buf r d)"
  shows "linked P data d i (take i G @ map2 (\<lambda>h g. h @ [g]) (take (length gs) (drop i G)) gs @ drop (i + length gs) G) buf' r cur"
proof -
  let ?n = "length gs" and ?S = "take (i + d) (P @ data)" and ?pen = "pending buf r d"
  have l: "length cur = length data" "drop i cur = drop i data" "length G = i + d" "take i cur @ ?pen = amplified G ?S"
    using assms(1) by (simp_all add: linked_def)
  have lS: "length ?S = i + d" using assms(2,3) by simp
  let ?H = "map2 (\<lambda>h g. h @ [g]) (take ?n (drop i G)) gs"
  have lH: "length ?H = ?n" using l(3) assms(4) by simp
  have G: "G = take i G @ take ?n (drop i G) @ drop (i + ?n) G"
    by (metis append_take_drop_id drop_drop add.commute)
  have S: "?S = take i ?S @ take ?n (drop i ?S) @ drop (i + ?n) ?S"
    by (metis append_take_drop_id drop_drop add.commute)
  have parts: "length (take i G) = length (take i ?S)" "length (take ?n (drop i G)) = length (take ?n (drop i ?S))"
      "length gs = length (take ?n (drop i ?S))" using l(3) lS assms(4) by simp_all
  have "amplified G ?S = amplified (take i G) (take i ?S) @ amplified (take ?n (drop i G)) (take ?n (drop i ?S)) @
      amplified (drop (i + ?n) G) (drop (i + ?n) ?S)"
    using G S parts(1,2) amplified_append by metis
  then have "take i cur @ take ?n ?pen @ drop ?n ?pen = amplified (take i G) (take i ?S) @
      amplified (take ?n (drop i G)) (take ?n (drop i ?S)) @ amplified (drop (i + ?n) G) (drop (i + ?n) ?S)"
    using l(4) by (simp only: append_take_drop_id)
  moreover have "length (take i cur) = length (amplified (take i G) (take i ?S))"
      "length (take ?n ?pen) = length (amplified (take ?n (drop i G)) (take ?n (drop i ?S)))"
    using l(1,3) lS assms(3,4) by simp_all
  ultimately have eq: "take i cur = amplified (take i G) (take i ?S)"
      "take ?n ?pen = amplified (take ?n (drop i G)) (take ?n (drop i ?S))"
      "drop ?n ?pen = amplified (drop (i + ?n) G) (drop (i + ?n) ?S)"
    by (blast dest: append3_eq)+
  have "amplified (take i G @ ?H @ drop (i + ?n) G) ?S =
      amplified (take i G) (take i ?S) @ amplified ?H (take ?n (drop i ?S)) @ amplified (drop (i + ?n) G) (drop (i + ?n) ?S)"
    using S parts lH amplified_append by metis
  also have "\<dots> = take i cur @ map2 (*) (take ?n ?pen) gs @ drop ?n ?pen"
    unfolding eq amplified_more [OF parts(2,3)] ..
  finally have "take i cur @ pending buf' r d = amplified (take i G @ ?H @ drop (i + ?n) G) ?S"
    unfolding assms(6) ..
  moreover have "length (take i G @ ?H @ drop (i + ?n) G) = i + d" using l(3) lH assms(4) by simp
  ultimately show ?thesis using l(1,2) assms(5) by (simp only: linked_def)
qed


text \<open>The part of a kernel the look-ahead depends on.\<close>

definition same_ring :: "'f drc_kernel \<Rightarrow> 'f drc_kernel \<Rightarrow> bool" where
  "same_ring dk dk' \<longleftrightarrow>
     dk_pre_delay_buffers dk' = dk_pre_delay_buffers dk \<and> dk_pre_delay_read_index dk' = dk_pre_delay_read_index dk \<and>
     dk_pre_delay_write_index dk' = dk_pre_delay_write_index dk \<and> dk_last_pre_delay_frames dk' = dk_last_pre_delay_frames dk \<and>
     dk_enabled dk' = dk_enabled dk \<and> dk_processed dk' = dk_processed dk"

lemma update_envelope_ring: "same_ring dk (dk_update_envelope m fm dk)"
  by (simp add: dk_update_envelope_def same_ring_def Let_def)

definition linked2 ::
  "('f :: times) list \<times> 'f list \<Rightarrow> 'f list \<times> 'f list \<Rightarrow> nat \<Rightarrow> 'f list list \<Rightarrow> 'f drc_kernel \<Rightarrow> 'f list \<times> 'f list \<Rightarrow> bool" where
  "linked2 P data i G dk cur \<longleftrightarrow>
     linked (fst P) (fst data) (dk_last_pre_delay_frames dk) i G (fst (dk_pre_delay_buffers dk)) (dk_pre_delay_read_index dk) (fst cur) \<and>
     linked (snd P) (snd data) (dk_last_pre_delay_frames dk) i G (snd (dk_pre_delay_buffers dk)) (dk_pre_delay_read_index dk) (snd cur)"

lemma same_ring_keeps:
  assumes "same_ring dk dk'"
  shows "dk_wf dk' \<longleftrightarrow> dk_wf dk" "linked2 P data i G dk' cur \<longleftrightarrow> linked2 P data i G dk cur"
  using assms by (simp_all add: same_ring_def dk_wf_def linked2_def)

text \<open>The write position and the read position are at the same place within a division.\<close>

lemma ring_aligned:
  assumes "dk_wf dk"
  shows "dk_pre_delay_read_index dk mod DIVISION_FRAMES = dk_pre_delay_write_index dk mod DIVISION_FRAMES"
proof -
  obtain q where "dk_last_pre_delay_frames dk = DIVISION_FRAMES * q" using assms by (auto simp: dk_wf_def)
  moreover have "DIVISION_FRAMES dvd MAX_PRE_DELAY_FRAMES" by (simp add: DIVISION_FRAMES_def MAX_PRE_DELAY_FRAMES_def)
  ultimately show ?thesis using assms by (simp add: dk_wf_def ring_end_def mod_mod_cancel)
qed

lemma division_fits:
  assumes "x < MAX_PRE_DELAY_FRAMES" "n \<le> DIVISION_FRAMES - x mod DIVISION_FRAMES"
  shows "x + n \<le> MAX_PRE_DELAY_FRAMES"
proof -
  have "x div 32 < 32" using assms(1) by (intro less_mult_imp_div_less) (simp add: MAX_PRE_DELAY_FRAMES_def)
  moreover have "x = 32 * (x div 32) + x mod 32" "x mod 32 < 32" by simp_all
  ultimately show ?thesis using assms(2) unfolding DIVISION_FRAMES_def MAX_PRE_DELAY_FRAMES_def by linarith
qed

lemma length_gain_rounds: "length (fst (gain_rounds g nx n x)) = Suc n * length x"
  by (induction n arbitrary: x) (simp_all add: split_beta)

lemma compress_output_linked:
  assumes wf: "dk_wf dk" and lk: "linked2 P data i G dk cur" and i: "i \<le> length (fst data)" "i \<le> length (snd data)"
    and P: "length (fst P) = dk_last_pre_delay_frames dk" "length (snd P) = dk_last_pre_delay_frames dk"
    and al: "dk_pre_delay_read_index dk mod DIVISION_FRAMES = 0"
  obtains dk' G' where "dk_compress_output fm dk = Inr dk'" "dk_wf dk'" "linked2 P data i G' dk' cur"
    "dk_pre_delay_write_index dk' = dk_pre_delay_write_index dk" "dk_enabled dk' = dk_enabled dk"
    "dk_last_pre_delay_frames dk' = dk_last_pre_delay_frames dk" "dk_processed dk' = dk_processed dk"
proof -
  let ?r = "dk_pre_delay_read_index dk" and ?d = "dk_last_pre_delay_frames dk"
  define res where "res = (if dk_envelope_rate dk < 1 then
       (let c = dk_compressor_gain dk - dk_scaled_desired_gain dk; r = 1 - dk_envelope_rate dk; r4 = r * r * r * r
        in case gain_rounds (\<lambda>x. dk_master_linear_gain dk * warp_sinf fm (x + dk_scaled_desired_gain dk)) (\<lambda>x. x * r4)
             (DIVISION_FRAMES div 4 - 1) (powers4 c r) of
             (gs, x) \<Rightarrow> (gs, x ! 3 + dk_scaled_desired_gain dk))
     else
       (let c = dk_compressor_gain dk; r = dk_envelope_rate dk; r4 = r * r * r * r
        in case gain_rounds (\<lambda>x. dk_master_linear_gain dk * warp_sinf fm x) (\<lambda>x. c_min (f_lit fm 1 1) (x * r4))
             (DIVISION_FRAMES div 4 - 1) (powers4 c r) of
             (gs, x) \<Rightarrow> (gs, x ! 3)))"
  have gs: "length (fst res) = DIVISION_FRAMES"
    by (simp add: res_def Let_def split_beta length_gain_rounds powers4_def DIVISION_FRAMES_def)
  have lens: "length (fst (dk_pre_delay_buffers dk)) = MAX_PRE_DELAY_FRAMES" "length (snd (dk_pre_delay_buffers dk)) = MAX_PRE_DELAY_FRAMES"
      "length (fst res) \<le> ?d" "?d \<le> MAX_PRE_DELAY_FRAMES"
    using wf gs by (auto simp: dk_wf_def)
  have fit: "?r + length (fst res) \<le> MAX_PRE_DELAY_FRAMES"
    using division_fits [of ?r DIVISION_FRAMES] wf al gs by (simp add: dk_wf_def)
  obtain b0 where b0: "scale_range (fst (dk_pre_delay_buffers dk)) ?r (fst res) = Inr b0" "length b0 = MAX_PRE_DELAY_FRAMES"
      "pending b0 ?r ?d = map2 (*) (take (length (fst res)) (pending (fst (dk_pre_delay_buffers dk)) ?r ?d)) (fst res) @
         drop (length (fst res)) (pending (fst (dk_pre_delay_buffers dk)) ?r ?d)"
    by (rule scale_range_fifo [OF lens(1) fit lens(3,4)])
  obtain b1 where b1: "scale_range (snd (dk_pre_delay_buffers dk)) ?r (fst res) = Inr b1" "length b1 = MAX_PRE_DELAY_FRAMES"
      "pending b1 ?r ?d = map2 (*) (take (length (fst res)) (pending (snd (dk_pre_delay_buffers dk)) ?r ?d)) (fst res) @
         drop (length (fst res)) (pending (snd (dk_pre_delay_buffers dk)) ?r ?d)"
    by (rule scale_range_fifo [OF lens(2) fit lens(3,4)])
  let ?dk = "dk\<lparr>dk_pre_delay_buffers := (b0, b1), dk_compressor_gain := snd res\<rparr>"
  have c: "dk_compress_output fm dk = Inr ?dk"
    using b0(1) b1(1) unfolding dk_compress_output_def Let_def res_def [symmetric, unfolded Let_def] by simp
  have lk': "linked (fst P) (fst data) ?d i G (fst (dk_pre_delay_buffers dk)) ?r (fst cur)"
      "linked (snd P) (snd data) ?d i G (snd (dk_pre_delay_buffers dk)) ?r (snd cur)"
    using lk by (simp_all add: linked2_def)
  from linked_scale [OF lk'(1) P(1) i(1) lens(3) b0(2,3)] linked_scale [OF lk'(2) P(2) i(2) lens(3) b1(2,3)]
  show ?thesis by (intro that [OF c]) (use wf b0(2) b1(2) in \<open>simp_all add: linked2_def dk_wf_def\<close>)
qed


lemma detector_ring:
  assumes wf: "dk_wf dk" and al: "dk_pre_delay_write_index dk mod DIVISION_FRAMES = 0"
  obtains dk' where "dk_update_detector_average m fm dk = Inr dk'" "same_ring dk dk'"
proof -
  let ?w = "dk_pre_delay_write_index dk"
  have w: "?w < MAX_PRE_DELAY_FRAMES" using wf by (simp add: dk_wf_def)
  have "DIVISION_FRAMES \<le> ?w" if "?w \<noteq> 0" using that al by (simp add: dvd_imp_le mod_eq_0_iff_dvd)
  then have "0 \<le> div_start dk" "nat (div_start dk) + DIVISION_FRAMES \<le> MAX_PRE_DELAY_FRAMES"
    using w by (auto simp: div_start_def DIVISION_FRAMES_def MAX_PRE_DELAY_FRAMES_def)
  then have "\<exists>dk'. dk_update_detector_average m fm dk = Inr dk' \<and> same_ring dk dk'"
    using wf by (simp add: dk_update_detector_average_def read_range_ok dk_wf_def same_ring_def)
  with that show ?thesis by blast
qed

text \<open>The kernels before and after a step: well formed, linked to the stream, and with the same settings.\<close>

definition same_settings :: "'f drc_kernel \<Rightarrow> 'f drc_kernel \<Rightarrow> bool" where
  "same_settings dk dk' \<longleftrightarrow>
     dk_last_pre_delay_frames dk' = dk_last_pre_delay_frames dk \<and> dk_enabled dk' = dk_enabled dk \<and>
     dk_processed dk' = dk_processed dk"

lemma same_settings_trans: "same_settings a b \<Longrightarrow> same_settings b c \<Longrightarrow> same_settings a c"
  by (simp add: same_settings_def)

lemma one_division_linked:
  assumes wf: "dk_wf dk" and lk: "linked2 P data i G dk cur" and i: "i \<le> length (fst data)" "i \<le> length (snd data)"
    and P: "length (fst P) = dk_last_pre_delay_frames dk" "length (snd P) = dk_last_pre_delay_frames dk"
    and al: "dk_pre_delay_write_index dk mod DIVISION_FRAMES = 0"
  obtains dk' G' where "dk_process_one_division m fm dk = Inr dk'" "dk_wf dk'" "linked2 P data i G' dk' cur"
    "dk_pre_delay_write_index dk' = dk_pre_delay_write_index dk" "same_settings dk dk'"
proof -
  obtain dk1 where d1: "dk_update_detector_average m fm dk = Inr dk1" "same_ring dk dk1" by (rule detector_ring [OF wf al])
  let ?dk2 = "dk_update_envelope m fm dk1"
  have r2: "same_ring dk ?dk2" using d1(2) update_envelope_ring [of dk1 m fm] by (simp add: same_ring_def)
  have al2: "dk_pre_delay_read_index ?dk2 mod DIVISION_FRAMES = 0" using ring_aligned [OF wf] al r2 by (simp add: same_ring_def)
  have P2: "length (fst P) = dk_last_pre_delay_frames ?dk2" "length (snd P) = dk_last_pre_delay_frames ?dk2"
    using P r2 by (simp_all add: same_ring_def)
  have wf2: "dk_wf ?dk2" "linked2 P data i G ?dk2 cur" using same_ring_keeps [OF r2] wf lk by simp_all
  obtain dk' G' where "dk_compress_output fm ?dk2 = Inr dk'" "dk_wf dk'" "linked2 P data i G' dk' cur"
      "dk_pre_delay_write_index dk' = dk_pre_delay_write_index ?dk2" "dk_enabled dk' = dk_enabled ?dk2"
      "dk_last_pre_delay_frames dk' = dk_last_pre_delay_frames ?dk2" "dk_processed dk' = dk_processed ?dk2"
    by (rule compress_output_linked [OF wf2 i P2 al2])
  with d1(1) r2 show ?thesis
    by (intro that [of dk' G']) (simp_all add: dk_process_one_division_def same_ring_def same_settings_def)
qed

lemma copy_fragment_linked:
  assumes wf: "dk_wf dk" and lk: "linked2 P data i G dk cur"
    and P: "length (fst P) = dk_last_pre_delay_frames dk" "length (snd P) = dk_last_pre_delay_frames dk"
    and n: "n \<le> DIVISION_FRAMES - dk_pre_delay_write_index dk mod DIVISION_FRAMES"
    and i: "i + n \<le> length (fst data)" "i + n \<le> length (snd data)"
  obtains dk' cur' where "dk_copy_fragment dk cur i n = Inr (dk', cur')" "dk_wf dk'"
    "linked2 P data (i + n) (G @ replicate n []) dk' cur'" "same_settings dk dk'"
    "dk_pre_delay_write_index dk' = (dk_pre_delay_write_index dk + n) mod MAX_PRE_DELAY_FRAMES"
proof -
  let ?r = "dk_pre_delay_read_index dk" and ?w = "dk_pre_delay_write_index dk" and ?d = "dk_last_pre_delay_frames dk"
  have w: "?w = ring_end ?r ?d" "?r < MAX_PRE_DELAY_FRAMES" "DIVISION_FRAMES \<le> ?d" "?d + DIVISION_FRAMES \<le> MAX_PRE_DELAY_FRAMES"
    using wf by (simp_all add: dk_wf_def)
  have nd: "n \<le> DIVISION_FRAMES" using n by linarith
  have "?w + n \<le> MAX_PRE_DELAY_FRAMES" "?r + n \<le> MAX_PRE_DELAY_FRAMES"
    using division_fits [of ?w n] division_fits [of ?r n] n ring_aligned [OF wf] w(1,2) by simp_all
  with w nd have f: "fits ?r ?d n" by (simp add: fits_def)
  have lk': "linked (fst P) (fst data) ?d i G (fst (dk_pre_delay_buffers dk)) ?r (fst cur)"
      "linked (snd P) (snd data) ?d i G (snd (dk_pre_delay_buffers dk)) ?r (snd cur)"
    using lk by (simp_all add: linked2_def)
  have fit: "length (fst (dk_pre_delay_buffers dk)) = MAX_PRE_DELAY_FRAMES" "length (snd (dk_pre_delay_buffers dk)) = MAX_PRE_DELAY_FRAMES"
      "i + n \<le> length (fst cur)" "i + n \<le> length (snd cur)" "n \<le> ?d"
    using lk' i f by (simp_all add: linked_def fits_def)
  obtain bufs' where x: "exchange2 (ring_end ?r ?d) ?r i n (dk_pre_delay_buffers dk) cur = Inr (bufs',
       (take i (fst cur) @ take n (pending (fst (dk_pre_delay_buffers dk)) ?r ?d) @ drop (i + n) (fst cur),
        take i (snd cur) @ take n (pending (snd (dk_pre_delay_buffers dk)) ?r ?d) @ drop (i + n) (snd cur)))"
      "length (fst bufs') = MAX_PRE_DELAY_FRAMES" "length (snd bufs') = MAX_PRE_DELAY_FRAMES"
      "pending (fst bufs') (ring_end ?r n) ?d = drop n (pending (fst (dk_pre_delay_buffers dk)) ?r ?d) @ take n (drop i (fst cur))"
      "pending (snd bufs') (ring_end ?r n) ?d = drop n (pending (snd (dk_pre_delay_buffers dk)) ?r ?d) @ take n (drop i (snd cur))"
    by (rule exchange2_fifo [OF fit(1,2) f fit(3,4)])
  let ?dk = "dk\<lparr>dk_pre_delay_buffers := bufs', dk_pre_delay_write_index := ring_end (ring_end ?r ?d) n,
      dk_pre_delay_read_index := ring_end ?r n\<rparr>"
  have c: "dk_copy_fragment dk cur i n = Inr (?dk,
       (take i (fst cur) @ take n (pending (fst (dk_pre_delay_buffers dk)) ?r ?d) @ drop (i + n) (fst cur),
        take i (snd cur) @ take n (pending (snd (dk_pre_delay_buffers dk)) ?r ?d) @ drop (i + n) (snd cur)))"
    using x(1) w(1) by (simp add: dk_copy_fragment_def ring_end_def)
  from linked_copy [OF lk'(1) P(1) i(1) fit(5) x(2,4)] linked_copy [OF lk'(2) P(2) i(2) fit(5) x(3,5)]
  have "linked2 P data (i + n) (G @ replicate n []) ?dk
       (take i (fst cur) @ take n (pending (fst (dk_pre_delay_buffers dk)) ?r ?d) @ drop (i + n) (fst cur),
        take i (snd cur) @ take n (pending (snd (dk_pre_delay_buffers dk)) ?r ?d) @ drop (i + n) (snd cur))"
    by (simp add: linked2_def)
  moreover have "dk_wf ?dk" using wf x(2,3) by (simp add: dk_wf_def ring_end_swap [of ?r ?d])
  moreover have "same_settings dk ?dk" by (simp add: same_settings_def)
  moreover have "dk_pre_delay_write_index ?dk = (?w + n) mod MAX_PRE_DELAY_FRAMES" unfolding w(1) by (simp add: ring_end_def)
  ultimately show ?thesis using that [OF c] by blast
qed


lemma process_loop_linked:
  assumes len: "count \<le> length (fst data)" "count \<le> length (snd data)"
  shows "dk_wf dk \<Longrightarrow> linked2 P data i G dk cur \<Longrightarrow> i \<le> count \<Longrightarrow>
    length (fst P) = dk_last_pre_delay_frames dk \<Longrightarrow> length (snd P) = dk_last_pre_delay_frames dk \<Longrightarrow>
    \<exists>dk' cur' G'. process_loop m fm count i (dk_pre_delay_write_index dk mod DIVISION_FRAMES) dk cur = Inr (dk', cur') \<and>
      dk_wf dk' \<and> linked2 P data count G' dk' cur' \<and> same_settings dk dk'"
proof (induction "count - i" arbitrary: i G dk cur rule: less_induct)
  case less
  let ?w = "dk_pre_delay_write_index dk"
  let ?off = "?w mod DIVISION_FRAMES"
  show ?case
  proof (cases "i < count")
    case False
    with less.prems show ?thesis by (auto simp: process_loop.simps same_settings_def)
  next
    case True
    define n where "n = min (DIVISION_FRAMES - ?off) (count - i)"
    have "?off < DIVISION_FRAMES" by (simp add: DIVISION_FRAMES_def)
    then have n0: "0 < n" using True by (simp add: n_def)
    have nle: "n \<le> DIVISION_FRAMES - ?off" "n \<le> count - i" by (simp_all add: n_def)
    then have le: "i + n \<le> count" using True by simp
    have fit: "i + n \<le> length (fst data)" "i + n \<le> length (snd data)" using le len by simp_all
    obtain dk1 cur1 where c: "dk_copy_fragment dk cur i n = Inr (dk1, cur1)" "dk_wf dk1"
        "linked2 P data (i + n) (G @ replicate n []) dk1 cur1" "same_settings dk dk1"
        "dk_pre_delay_write_index dk1 = (?w + n) mod MAX_PRE_DELAY_FRAMES"
      by (rule copy_fragment_linked [OF less.prems(1,2,4,5) nle(1) fit])
    have P1: "length (fst P) = dk_last_pre_delay_frames dk1" "length (snd P) = dk_last_pre_delay_frames dk1"
      using less.prems(4,5) c(4) by (simp_all add: same_settings_def)
    have off: "(?off + n) mod DIVISION_FRAMES = dk_pre_delay_write_index dk1 mod DIVISION_FRAMES"
      unfolding c(5) by (simp add: DIVISION_FRAMES_def MAX_PRE_DELAY_FRAMES_def mod_mod_cancel mod_add_left_eq)
    let ?step = "if (?off + n) mod DIVISION_FRAMES = 0 then dk_process_one_division m fm dk1 else Inr dk1"
    obtain dk2 G2 where d: "?step = Inr dk2" "dk_wf dk2" "linked2 P data (i + n) G2 dk2 cur1" "same_settings dk1 dk2"
        "dk_pre_delay_write_index dk2 = dk_pre_delay_write_index dk1"
    proof (cases "(?off + n) mod DIVISION_FRAMES = 0")
      case z: True
      then have "dk_pre_delay_write_index dk1 mod DIVISION_FRAMES = 0" using off by simp
      from one_division_linked [OF c(2,3) fit P1 this, of m fm] z that show ?thesis by metis
    next
      case False
      with that c(2,3) show ?thesis by (simp add: same_settings_def)
    qed
    have "\<exists>dk' cur' G'. process_loop m fm count (i + n) (dk_pre_delay_write_index dk2 mod DIVISION_FRAMES) dk2 cur1 = Inr (dk', cur') \<and>
      dk_wf dk' \<and> linked2 P data count G' dk' cur' \<and> same_settings dk2 dk'"
      by (rule less.hyps [OF _ d(2,3) le]) (use True n0 P1 d(4) in \<open>auto simp: same_settings_def\<close>)
    moreover have "process_loop m fm count i ?off dk cur =
        process_loop m fm count (i + n) (dk_pre_delay_write_index dk2 mod DIVISION_FRAMES) dk2 cur1"
      using True n0 c(1) d(1) off d(5)
      by (subst process_loop.simps) (simp add: n_def [symmetric] Let_def)
    ultimately show ?thesis using same_settings_trans [OF c(4)] same_settings_trans [OF d(4)] by metis
  qed
qed


subsection \<open>Lengths of buffers\<close>

lemma write_range_length: "write_range b i xs = Inr b' \<Longrightarrow> length b' = length b"
  unfolding write_range_def by (cases "i + length xs \<le> length b") auto

lemma exchange_lengths:
  "exchange w r i n buf data = Inr (buf', data') \<Longrightarrow> length buf' = length buf \<and> length data' = length data"
  by (auto simp: exchange_def and_then_Inr dest!: write_range_length)

lemma exchange2_lengths:
  "exchange2 w r i n bufs datas = Inr (bufs', datas') \<Longrightarrow>
   length (fst datas') = length (fst datas) \<and> length (snd datas') = length (snd datas)"
  by (auto simp: exchange2_def and_then_Inr dest!: exchange_lengths)

lemma delay_only_loop_lengths:
  "delay_only_loop count i r w bufs datas = Inr (rw, bufs', datas') \<Longrightarrow>
   length (fst datas') = length (fst datas) \<and> length (snd datas') = length (snd datas)"
proof (induction "count - i" arbitrary: i r w bufs datas rule: less_induct)
  case less
  show ?case
  proof (cases "i < count")
    case False
    with less.prems show ?thesis by (simp add: delay_only_loop.simps)
  next
    case True
    define chunk where "chunk = min (min (max r w - min r w) (MAX_PRE_DELAY_FRAMES - max r w)) (count - i)"
    have eq: "delay_only_loop count i r w bufs datas =
        (if chunk = 0 then Inl Endless
         else and_then (exchange2 w r i chunk bufs datas) (\<lambda>(bufs', datas').
           delay_only_loop count (i + chunk) ((r + chunk) mod MAX_PRE_DELAY_FRAMES) ((w + chunk) mod MAX_PRE_DELAY_FRAMES) bufs' datas'))"
      unfolding delay_only_loop.simps [of count i] chunk_def Let_def if_P [OF True] ..
    then have c: "chunk \<noteq> 0" using less.prems by (auto split: if_splits)
    moreover from less.prems [unfolded eq if_not_P [OF c]] have "\<exists>b d. exchange2 w r i chunk bufs datas = Inr (b, d) \<and>
        delay_only_loop count (i + chunk) ((r + chunk) mod MAX_PRE_DELAY_FRAMES) ((w + chunk) mod MAX_PRE_DELAY_FRAMES) b d =
          Inr (rw, bufs', datas')" by (auto simp: and_then_Inr)
    ultimately obtain b d where chunk: "chunk \<noteq> 0" and x: "exchange2 w r i chunk bufs datas = Inr (b, d)"
        "delay_only_loop count (i + chunk) ((r + chunk) mod MAX_PRE_DELAY_FRAMES) ((w + chunk) mod MAX_PRE_DELAY_FRAMES) b d =
          Inr (rw, bufs', datas')" by blast
    have "length (fst datas') = length (fst d) \<and> length (snd datas') = length (snd d)"
      by (rule less.hyps [OF _ x(2)]) (use True chunk in simp)
    with exchange2_lengths [OF x(1)] show ?thesis by simp
  qed
qed

lemma process_loop_lengths:
  "process_loop m fm count i off dk datas = Inr (dk', datas') \<Longrightarrow>
   length (fst datas') = length (fst datas) \<and> length (snd datas') = length (snd datas)"
proof (induction "count - i" arbitrary: i off dk datas rule: less_induct)
  case less
  show ?case
  proof (cases "i < count")
    case False
    with less.prems show ?thesis by (simp add: process_loop.simps)
  next
    case True
    define n where "n = min (DIVISION_FRAMES - off) (count - i)"
    have eq: "process_loop m fm count i off dk datas =
        (if n = 0 then Inl Endless
         else and_then (dk_copy_fragment dk datas i n) (\<lambda>(dk1, datas').
           and_then (if (off + n) mod DIVISION_FRAMES = 0 then dk_process_one_division m fm dk1 else Inr dk1) (\<lambda>dk2.
             process_loop m fm count (i + n) ((off + n) mod DIVISION_FRAMES) dk2 datas')))"
      unfolding process_loop.simps [of m fm count i] n_def Let_def if_P [OF True] ..
    then have c: "n \<noteq> 0" using less.prems by (auto split: if_splits)
    moreover from less.prems [unfolded eq if_not_P [OF c]] have "\<exists>k d k'. dk_copy_fragment dk datas i n = Inr (k, d) \<and>
        process_loop m fm count (i + n) ((off + n) mod DIVISION_FRAMES) k' d = Inr (dk', datas')"
      by (auto simp: and_then_Inr)
    ultimately obtain k d k' where n: "n \<noteq> 0" and x: "dk_copy_fragment dk datas i n = Inr (k, d)"
        "process_loop m fm count (i + n) ((off + n) mod DIVISION_FRAMES) k' d = Inr (dk', datas')" by blast
    have "length (fst datas') = length (fst d) \<and> length (snd datas') = length (snd d)"
      by (rule less.hyps [OF _ x(2)]) (use True n in simp)
    moreover have "length (fst d) = length (fst datas) \<and> length (snd d) = length (snd datas)"
      using x(1) by (auto simp: dk_copy_fragment_def and_then_Inr dest!: exchange2_lengths)
    ultimately show ?thesis by simp
  qed
qed

lemma dk_process_lengths:
  "dk_process m fm dk datas count = Inr (dk', datas') \<Longrightarrow>
   length (fst datas') = length (fst datas) \<and> length (snd datas') = length (snd datas)"
  by (auto simp: dk_process_def dk_process_delay_only_def and_then_Inr split: if_splits
      dest: delay_only_loop_lengths process_loop_lengths)

subsection \<open>Properties\<close>

lemma pre_delay_frames_bounds:
  "DIVISION_FRAMES dvd pre_delay_frames m t rate \<and> DIVISION_FRAMES \<le> pre_delay_frames m t rate \<and>
   pre_delay_frames m t rate + DIVISION_FRAMES \<le> MAX_PRE_DELAY_FRAMES"
proof -
  define k where "k = min (nat (c_trunc m (t * rate))) 1023"
  have f: "pre_delay_frames m t rate = max (k - k mod 32) 32"
    by (simp add: pre_delay_frames_def k_def Let_def MAX_PRE_DELAY_FRAMES_def DIVISION_FRAMES_def)
  have "k \<le> 1023" by (simp add: k_def)
  then have q: "k div 32 < 32" by (intro less_mult_imp_div_less) simp
  have "k - k mod 32 = 32 * (k div 32)" by (simp add: minus_mod_eq_mult_div)
  with q show ?thesis unfolding f DIVISION_FRAMES_def MAX_PRE_DELAY_FRAMES_def by (simp add: max_def)
qed

lemma ring_end_0: "n < MAX_PRE_DELAY_FRAMES \<Longrightarrow> ring_end 0 n = n"
  by (simp add: ring_end_def)

lemma set_pre_delay_time_wf:
  assumes "dk_wf dk" "dk_pre_delay_read_index dk = 0"
  shows "dk_wf (set_pre_delay_time m dk t) \<and> dk_pre_delay_read_index (set_pre_delay_time m dk t) = 0"
proof -
  let ?n = "pre_delay_frames m t (dk_sample_rate dk)"
  have "?n < MAX_PRE_DELAY_FRAMES" using pre_delay_frames_bounds [of m t "dk_sample_rate dk"] by (simp add: DIVISION_FRAMES_def)
  with assms pre_delay_frames_bounds [of m t "dk_sample_rate dk"] show ?thesis
    by (simp add: set_pre_delay_time_def Let_def dk_wf_def cleared_def ring_end_0 MAX_PRE_DELAY_FRAMES_def [symmetric])
qed

lemma set_parameters_ring:
  "\<exists>dk2. dk_set_parameters m fm dk par = set_pre_delay_time m dk2 (par_pre_delay_time par) \<and> same_ring dk dk2"
proof -
  have u: "same_ring dk (update_static_curve_parameters m fm dk a b c)" for a b c
    by (simp add: update_static_curve_parameters_def same_ring_def Let_def)
  show ?thesis
    unfolding dk_set_parameters_def Let_def
    by (rule exI, rule conjI, rule refl) (use u in \<open>simp add: same_ring_def release_polynomial_def\<close>)
qed

lemma kernel_ready:
  "dk_wf (dk_set_parameters m fm (dk_init fm dk rate) par) \<and>
   dk_pre_delay_read_index (dk_set_parameters m fm (dk_init fm dk rate) par) = 0"
proof -
  have i: "dk_wf (dk_init fm dk rate)" "dk_pre_delay_read_index (dk_init fm dk rate) = 0"
    by (simp_all add: dk_init_def dk_wf_def Let_def cleared_def ring_end_def DEFAULT_PRE_DELAY_FRAMES_def DIVISION_FRAMES_def
        MAX_PRE_DELAY_FRAMES_def)
  obtain dk2 where d: "dk_set_parameters m fm (dk_init fm dk rate) par = set_pre_delay_time m dk2 (par_pre_delay_time par)"
      "same_ring (dk_init fm dk rate) dk2" using set_parameters_ring by blast
  have "dk_wf dk2" "dk_pre_delay_read_index dk2 = 0" using i same_ring_keeps(1) [OF d(2)] d(2) by (simp_all add: same_ring_def)
  from set_pre_delay_time_wf [OF this] show ?thesis by (simp add: d(1))
qed

text \<open>A kernel that may be used: an enabled one that has not run yet starts at the beginning of a division.\<close>

definition dk_ready :: "'f drc_kernel \<Rightarrow> bool" where
  "dk_ready dk \<longleftrightarrow> dk_wf dk \<and> (dk_enabled dk \<noteq> 0 \<and> \<not> dk_processed dk \<longrightarrow> DIVISION_FRAMES dvd dk_pre_delay_read_index dk)"

lemma dk_init_ready: "dk_ready (dk_set_enabled (dk_set_parameters m fm (dk_init fm dk rate) par) e)"
  using kernel_ready [of m fm dk rate par] by (simp add: dk_ready_def dk_set_enabled_def dk_wf_def)

lemma delay_line:
  assumes "dk_wf dk" "count \<le> length l" "count \<le> length r"
  shows "\<exists>dk'. dk_process_delay_only dk (l, r) count =
      Inr (dk', take count (fst (dk_pending dk) @ l) @ drop count l, take count (snd (dk_pending dk) @ r) @ drop count r) \<and>
    dk_wf dk' \<and> same_settings dk dk' \<and>
    dk_pending dk' = (drop count (fst (dk_pending dk) @ take count l), drop count (snd (dk_pending dk) @ take count r))"
proof -
  let ?r = "dk_pre_delay_read_index dk" and ?d = "dk_last_pre_delay_frames dk" and ?P = "dk_pending dk"
  have wf: "0 < ?d" "?d < MAX_PRE_DELAY_FRAMES" "?r < MAX_PRE_DELAY_FRAMES" "dk_pre_delay_write_index dk = ring_end ?r ?d"
    using assms(1) by (auto simp: dk_wf_def DIVISION_FRAMES_def)
  have P: "length (fst ?P) = ?d" "length (snd ?P) = ?d" by (simp_all add: dk_pending_def)
  have "delayed2 ?P (l, r) ?d 0 (dk_pre_delay_buffers dk) ?r (l, r)"
    using assms(1) by (simp add: delayed2_def delayed_def dk_pending_def dk_wf_def)
  from delay_only_loop_spec [OF wf(1,2) P, of count "(l, r)", OF _ _ wf(3) _ this] assms(2,3)
  obtain r' bufs cur where x: "delay_only_loop count 0 ?r (ring_end ?r ?d) (dk_pre_delay_buffers dk) (l, r) = Inr ((r', ring_end r' ?d), bufs, cur)"
      "r' < MAX_PRE_DELAY_FRAMES" "delayed2 ?P (l, r) ?d count bufs r' cur" by auto
  let ?dk = "dk\<lparr>dk_pre_delay_buffers := bufs, dk_pre_delay_read_index := r', dk_pre_delay_write_index := ring_end r' ?d\<rparr>"
  have win: "take ?d (drop count (p @ xs)) = drop count (p @ take count xs)" if "length p = ?d" "count \<le> length xs" for p xs :: "'a list"
  proof -
    have "take (?d + count) (p @ xs) = p @ take count xs" using that(1) by simp
    then show ?thesis unfolding take_drop by (simp only:)
  qed
  have "dk_process_delay_only dk (l, r) count = Inr (?dk, cur)" using x(1) wf(4) by (simp add: dk_process_delay_only_def)
  moreover have "cur = (take count (fst ?P @ l) @ drop count l, take count (snd ?P @ r) @ drop count r)"
    using x(3) by (cases cur) (simp add: delayed2_def delayed_def)
  moreover have "dk_wf ?dk" using assms(1) x(2,3) by (simp add: dk_wf_def delayed2_def delayed_def)
  moreover have "dk_pending ?dk = (drop count (fst ?P @ take count l), drop count (snd ?P @ take count r))"
    using x(3) win [OF P(1) assms(2)] win [OF P(2) assms(3)]
    by (simp add: dk_pending_def [of ?dk] delayed2_def delayed_def del: take_append drop_append)
  ultimately show ?thesis by (auto simp: same_settings_def)
qed

lemma process_linked:
  assumes ready: "dk_ready dk" "dk_enabled dk \<noteq> 0" and len: "count \<le> length l" "count \<le> length r"
  shows "\<exists>dk' cur G. dk_process m fm dk (l, r) count = Inr (dk', cur) \<and> dk_ready dk' \<and>
    linked2 (dk_pending dk) (l, r) count G dk' cur \<and> dk_last_pre_delay_frames dk' = dk_last_pre_delay_frames dk \<and>
    dk_enabled dk' = dk_enabled dk"
proof -
  let ?P = "dk_pending dk" and ?d = "dk_last_pre_delay_frames dk"
  let ?start = "if \<not> dk_processed dk
    then and_then (dk_compress_output fm (dk_update_envelope m fm dk)) (\<lambda>dk1. Inr (dk1\<lparr>dk_processed := True\<rparr>)) else Inr dk"
  have wf: "dk_wf dk" using ready(1) by (simp add: dk_ready_def)
  have P: "length (fst ?P) = ?d" "length (snd ?P) = ?d" by (simp_all add: dk_pending_def)
  have none: "amplified (replicate ?d []) p = p" if "length p = ?d" for p :: "'a list"
    using amplified_none [of p] that by simp
  have l0: "linked2 ?P (l, r) 0 (replicate ?d []) dk (l, r)"
    using wf none by (simp add: linked2_def linked_def dk_pending_def dk_wf_def)
  obtain dk1 G1 where s: "?start = Inr dk1" "dk_wf dk1" "linked2 ?P (l, r) 0 G1 dk1 (l, r)"
      "dk_last_pre_delay_frames dk1 = ?d" "dk_enabled dk1 = dk_enabled dk" "dk_processed dk1"
  proof (cases "dk_processed dk")
    case True
    with that wf l0 show ?thesis by simp
  next
    case False
    let ?e = "dk_update_envelope m fm dk"
    note ring = update_envelope_ring [of dk m fm]
    have al: "dk_pre_delay_read_index ?e mod DIVISION_FRAMES = 0"
      using ready False ring by (simp add: dk_ready_def same_ring_def mod_eq_0_iff_dvd)
    have Pe: "length (fst ?P) = dk_last_pre_delay_frames ?e" "length (snd ?P) = dk_last_pre_delay_frames ?e"
      using P ring by (simp_all add: same_ring_def)
    have we: "dk_wf ?e" "linked2 ?P (l, r) 0 (replicate ?d []) ?e (l, r)" using same_ring_keeps [OF ring] wf l0 by simp_all
    obtain dk2 G2 where c: "dk_compress_output fm ?e = Inr dk2" "dk_wf dk2" "linked2 ?P (l, r) 0 G2 dk2 (l, r)"
        "dk_pre_delay_write_index dk2 = dk_pre_delay_write_index ?e" "dk_enabled dk2 = dk_enabled ?e"
        "dk_last_pre_delay_frames dk2 = dk_last_pre_delay_frames ?e" "dk_processed dk2 = dk_processed ?e"
      by (rule compress_output_linked [OF we _ _ Pe al]) simp_all
    show ?thesis
      by (rule that [of "dk2\<lparr>dk_processed := True\<rparr>" G2]) (use c ring False in \<open>simp_all add: dk_wf_def linked2_def same_ring_def\<close>)
  qed
  from process_loop_linked [of count "(l, r)" dk1 ?P 0 G1 "(l, r)" m fm] s(2-4) len P
  obtain dk' cur G where q: "process_loop m fm count 0 (dk_pre_delay_write_index dk1 mod DIVISION_FRAMES) dk1 (l, r) = Inr (dk', cur)"
      "dk_wf dk'" "linked2 ?P (l, r) count G dk' cur" "same_settings dk1 dk'" by auto
  have "dk_process m fm dk (l, r) count = Inr (dk', cur)" using ready(2) s(1) q(1) by (simp add: dk_process_def)
  moreover have "dk_ready dk'" using q(2,4) s(6) by (simp add: dk_ready_def same_settings_def)
  ultimately show ?thesis using q(3,4) s(4,5) by (auto simp: same_settings_def)
qed


text \<open>
  A kernel that is initialized, given parameters and switched on or off is ready, and its look-ahead
  is a multiple of a division, at least one division and at least one division shorter than the
  buffer.
\<close>

theorem dk_initialised:
  "let dk' = dk_set_enabled (dk_set_parameters m fm (dk_init fm dk rate) par) e
   in dk_ready dk' \<and> DIVISION_FRAMES dvd dk_last_pre_delay_frames dk' \<and>
      DIVISION_FRAMES \<le> dk_last_pre_delay_frames dk' \<and>
      dk_last_pre_delay_frames dk' + DIVISION_FRAMES \<le> MAX_PRE_DELAY_FRAMES"
proof -
  have "dk_wf (dk_set_enabled (dk_set_parameters m fm (dk_init fm dk rate) par) e)"
    using dk_init_ready [of m fm dk rate par e] by (simp add: dk_ready_def)
  with dk_init_ready [of m fm dk rate par e] show ?thesis by (simp add: Let_def dk_wf_def)
qed

text \<open>
  C34. A disabled kernel is a delay line: it ends without leaving a buffer, gives the samples that waited
  followed by the new ones, and the last samples wait now. The copying in chunks around the end of
  the buffer does not show.
\<close>

theorem dk_disabled_is_delay_line:
  assumes "dk_wf dk" "dk_enabled dk = 0" "count \<le> length l" "count \<le> length r"
  shows "\<exists>dk'. dk_process m fm dk (l, r) count =
      Inr (dk', take count (fst (dk_pending dk) @ l) @ drop count l, take count (snd (dk_pending dk) @ r) @ drop count r) \<and>
    dk_wf dk' \<and>
    dk_pending dk' = (drop count (fst (dk_pending dk) @ take count l), drop count (snd (dk_pending dk) @ take count r))"
  using delay_line [OF assms(1,3,4)] assms(2) by (auto simp: dk_process_def)

text \<open>Rational numbers as samples, for the examples.\<close>

definition rat_fmath :: "rat fmath" where
  "rat_fmath =
     \<lparr>f_lit = (\<lambda>n d. of_int n / of_int d), f_exp = id, f_log = id, f_pow = (\<lambda>x y. x), f_sqrt = id, f_asin = id, f_rint = id,
      f_abs = abs, f_max = max, f_infinity = 1000, f_nan = 0, f_bits = (\<lambda>x. of_int \<lfloor>x\<rfloor>), f_of_bits = (\<lambda>w. of_int (uint w))\<rparr>"

definition demo_kernel :: "int \<Rightarrow> rat drc_kernel" where
  "demo_kernel e = dk_set_enabled (dk_set_parameters rat_math rat_fmath (dk_init rat_fmath zero_kernel 0)
     \<lparr>par_db_threshold = 0, par_db_knee = 0, par_ratio = 1, par_attack_time = 0, par_release_time = 0,
      par_pre_delay_time = 0, par_db_post_gain = 0, par_releaseZone1 = 0, par_releaseZone2 = 0,
      par_releaseZone3 = 0, par_releaseZone4 = 0\<rparr>) e"

lemma demo_kernel_ready: "dk_ready (demo_kernel e)" "dk_enabled (demo_kernel e) = e"
  by (simp_all add: demo_kernel_def dk_init_ready) (simp add: dk_set_enabled_def)

theorem dk_disabled_is_delay_line_witness:
  "\<exists>dk'. dk_process rat_math rat_fmath (demo_kernel 0) ([1, 2, 3], [4, 5, 6]) 2 =
     Inr (dk', take 2 (fst (dk_pending (demo_kernel 0)) @ [1, 2, 3]) @ [3], take 2 (snd (dk_pending (demo_kernel 0)) @ [4, 5, 6]) @ [6]) \<and>
     dk_wf dk'"
proof -
  have "dk_wf (demo_kernel 0)" using demo_kernel_ready(1) by (simp add: dk_ready_def)
  from dk_disabled_is_delay_line [OF this demo_kernel_ready(2), of 2 "[1, 2, 3]" "[4, 5, 6]" rat_math rat_fmath]
  show ?thesis by auto
qed

text \<open>
  An enabled kernel ends without leaving a buffer, delays both channels by the same number of
  samples, and multiplies a sample of the left channel and the sample of the right channel at the
  same time by the same gains.
\<close>

theorem dk_enabled_links_channels:
  assumes "dk_ready dk" "dk_enabled dk \<noteq> 0" "count \<le> length l" "count \<le> length r"
  shows "\<exists>dk' l' r' G. dk_process m fm dk (l, r) count = Inr (dk', l', r') \<and> dk_ready dk' \<and>
    length G = count + dk_last_pre_delay_frames dk \<and>
    take count l' @ fst (dk_pending dk') = amplified G (fst (dk_pending dk) @ take count l) \<and>
    take count r' @ snd (dk_pending dk') = amplified G (snd (dk_pending dk) @ take count r) \<and>
    drop count l' = drop count l \<and> drop count r' = drop count r"
proof -
  let ?d = "dk_last_pre_delay_frames dk"
  obtain dk' cur G where p: "dk_process m fm dk (l, r) count = Inr (dk', cur)" "dk_ready dk'"
      "linked2 (dk_pending dk) (l, r) count G dk' cur" "dk_last_pre_delay_frames dk' = ?d"
    using process_linked [OF assms, of m fm] by blast
  have "take (count + ?d) (x @ y) = x @ take count y" if "length x = ?d" for x y :: "'a list" using that by simp
  from this [of "fst (dk_pending dk)" l] this [of "snd (dk_pending dk)" r] p show ?thesis
    by (intro exI [of _ dk'] exI [of _ "fst cur"] exI [of _ "snd cur"] exI [of _ G])
       (auto simp: linked2_def linked_def dk_pending_def)
qed

theorem dk_enabled_links_channels_witness:
  "\<exists>dk' l' r' G. dk_process rat_math rat_fmath (demo_kernel 1) ([1, 2, 3], [4, 5, 6]) 3 = Inr (dk', l', r') \<and>
     take 3 l' @ fst (dk_pending dk') = amplified G (fst (dk_pending (demo_kernel 1)) @ [1, 2, 3]) \<and>
     take 3 r' @ snd (dk_pending dk') = amplified G (snd (dk_pending (demo_kernel 1)) @ [4, 5, 6])"
  using dk_enabled_links_channels [OF demo_kernel_ready(1), of 1 3 "[1, 2, 3]" "[4, 5, 6]" rat_math rat_fmath]
  by (fastforce simp: demo_kernel_ready(2))

end
