(* ===== verification/Drc.thy ===== *)
theory Drc
  imports Drc_Kernel Crossover
begin

text \<open>
  The three-band compressor of \<^verbatim>\<open>audio/hal/dsp/drc.c\<close> (the portable \<^verbatim>\<open>sum3\<close>): pre-emphasis, a
  crossover into three bands, a kernel for each band, the sum of the bands and de-emphasis.
\<close>

subsection \<open>State\<close>

datatype drc_param =
  PARAM_THRESHOLD | PARAM_KNEE | PARAM_RATIO | PARAM_ATTACK | PARAM_RELEASE | PARAM_PRE_DELAY
  | PARAM_RELEASE_ZONE1 | PARAM_RELEASE_ZONE2 | PARAM_RELEASE_ZONE3 | PARAM_RELEASE_ZONE4 | PARAM_POST_GAIN
  | PARAM_FILTER_STAGE_GAIN | PARAM_FILTER_STAGE_RATIO | PARAM_FILTER_ANCHOR | PARAM_CROSSOVER_LOWER_FREQ
  | PARAM_ENABLED

definition DRC_NUM_KERNELS :: nat where
  "DRC_NUM_KERNELS = 3"

definition DRC_PROCESS_MAX_FRAMES :: nat where
  "DRC_PROCESS_MAX_FRAMES = 2048"

definition DRC_DEFAULT_PRE_DELAY :: "'f fmath \<Rightarrow> 'f" where
  "DRC_DEFAULT_PRE_DELAY fm = f_lit fm 6 1000"

text \<open>The two equalizers are NULL before \<^verbatim>\<open>drc_init\<close>, and the temporary buffers are missing: empty.\<close>

record 'f drc =
  drc_sample_rate :: 'f
  drc_emphasis_disabled :: int
  drc_parameters :: "(drc_param \<Rightarrow> 'f) list"
  drc_emphasis_eq :: "'f eq2 option"
  drc_deemphasis_eq :: "'f eq2 option"
  drc_xo2 :: "'f crossover2"
  drc_kernels :: "'f drc_kernel list"
  drc_data1 :: "'f list \<times> 'f list"
  drc_data2 :: "'f list \<times> 'f list"

datatype drc_error = Kernel_Fault drc_fault | Null_Eq2 | Short_Buffer

subsection \<open>Parameters\<close>

text \<open>The index of a kernel is below 3 at every call.\<close>

definition drc_set_param :: "'f drc \<Rightarrow> nat \<Rightarrow> drc_param \<Rightarrow> 'f \<Rightarrow> 'f drc" where
  "drc_set_param drc index paramID value =
     drc\<lparr>drc_parameters := (drc_parameters drc)[index := (drc_parameters drc ! index)(paramID := value)]\<rparr>"

definition drc_get_param :: "'f drc \<Rightarrow> nat \<Rightarrow> drc_param \<Rightarrow> 'f" where
  "drc_get_param drc index paramID = (drc_parameters drc ! index) paramID"

text \<open>The body of the loop of \<^verbatim>\<open>set_default_parameters\<close>.\<close>

definition default_parameters ::
  "('f :: zero, 'd) cmath \<Rightarrow> 'f fmath \<Rightarrow> (drc_param \<Rightarrow> 'f) \<Rightarrow> drc_param \<Rightarrow> 'f" where
  "default_parameters m fm param =
     param(PARAM_THRESHOLD := c_of_int m (- 24), PARAM_KNEE := c_of_int m 30, PARAM_RATIO := c_of_int m 12,
           PARAM_ATTACK := f_lit fm 3 1000, PARAM_RELEASE := f_lit fm 250 1000,
           PARAM_PRE_DELAY := DRC_DEFAULT_PRE_DELAY fm, PARAM_RELEASE_ZONE1 := f_lit fm 9 100,
           PARAM_RELEASE_ZONE2 := f_lit fm 16 100, PARAM_RELEASE_ZONE3 := f_lit fm 42 100,
           PARAM_RELEASE_ZONE4 := f_lit fm 98 100, PARAM_POST_GAIN := 0, PARAM_ENABLED := 0)"

definition set_default_parameters ::
  "('f :: {zero, inverse}, 'd) cmath \<Rightarrow> 'f fmath \<Rightarrow> 'f drc \<Rightarrow> 'f drc" where
  "set_default_parameters m fm drc =
     (let nyquist = drc_sample_rate drc / c_of_int m 2;
          drc0 = drc\<lparr>drc_parameters := map (default_parameters m fm) (drc_parameters drc)\<rparr>;
          drc1 = drc_set_param drc0 0 PARAM_CROSSOVER_LOWER_FREQ 0;
          drc2 = drc_set_param drc1 1 PARAM_CROSSOVER_LOWER_FREQ (c_of_int m 200 / nyquist);
          drc3 = drc_set_param drc2 2 PARAM_CROSSOVER_LOWER_FREQ (c_of_int m 2000 / nyquist);
          drc4 = drc_set_param drc3 0 PARAM_FILTER_STAGE_GAIN (f_lit fm 44 10);
          drc5 = drc_set_param drc4 0 PARAM_FILTER_STAGE_RATIO (c_of_int m 2)
      in drc_set_param drc5 0 PARAM_FILTER_ANCHOR (c_of_int m 15000 / nyquist))"

text \<open>Cleared memory.\<close>

definition zero_drc :: "('f :: zero) drc" where
  "zero_drc =
     \<lparr>drc_sample_rate = 0, drc_emphasis_disabled = 0, drc_parameters = replicate DRC_NUM_KERNELS (\<lambda>_. 0),
      drc_emphasis_eq = None, drc_deemphasis_eq = None, drc_xo2 = \<lparr>xo2_lp = [], xo2_hp = []\<rparr>,
      drc_kernels = replicate DRC_NUM_KERNELS zero_kernel, drc_data1 = ([], []), drc_data2 = ([], [])\<rparr>"

definition drc_new :: "('f :: {zero, inverse}, 'd) cmath \<Rightarrow> 'f fmath \<Rightarrow> 'f \<Rightarrow> 'f drc" where
  "drc_new m fm sample_rate = set_default_parameters m fm (zero_drc\<lparr>drc_sample_rate := sample_rate\<rparr>)"

subsection \<open>Initialization\<close>

definition init_data_buffer :: "('f :: zero) drc \<Rightarrow> 'f drc" where
  "init_data_buffer drc =
     (let b = replicate DRC_PROCESS_MAX_FRAMES 0 in drc\<lparr>drc_data1 := (b, b), drc_data2 := (b, b)\<rparr>)"

definition emphasis_stage_roots ::
  "('f :: {one, minus, uminus, times, inverse}, 'd) cmath \<Rightarrow> 'f fmath \<Rightarrow> 'f \<Rightarrow> 'f \<Rightarrow> 'f \<times> 'f" where
  "emphasis_stage_roots m fm gain normalized_frequency =
     (let gk = 1 - gain / c_of_int m 20; f1 = normalized_frequency * gk; f2 = normalized_frequency / gk
      in (f_exp fm (- f1 * PI_FLOAT fm), f_exp fm (- f2 * PI_FLOAT fm)))"

text \<open>Only the coefficients of the two filters are written; their histories stay what they were.\<close>

definition emphasis_stage_pair_biquads ::
  "('f :: {one, plus, minus, uminus, times, inverse}, 'd) cmath \<Rightarrow> 'f fmath \<Rightarrow> 'f \<Rightarrow> 'f \<Rightarrow> 'f
     \<Rightarrow> 'f biquad \<times> 'f biquad \<Rightarrow> 'f biquad \<times> 'f biquad" where
  "emphasis_stage_pair_biquads m fm gain f1 f2 ed =
     (case (emphasis_stage_roots m fm gain f1, emphasis_stage_roots m fm gain f2) of ((z1, p1), (z2, p2)) \<Rightarrow>
        (let b0 = 1; b1 = - (z1 + z2); b2 = z1 * z2; a0 = 1; a1 = - (p1 + p2); a2 = p1 * p2;
             alpha = (a0 + a1 + a2) / (b0 + b1 + b2); beta = (b0 + b1 + b2) / (a0 + a1 + a2)
         in ((fst ed)\<lparr>bq_b0 := b0 * alpha, bq_b1 := b1 * alpha, bq_b2 := b2 * alpha, bq_a1 := a1, bq_a2 := a2\<rparr>,
             (snd ed)\<lparr>bq_b0 := a0 * beta, bq_b1 := a1 * beta, bq_b2 := a2 * beta, bq_a1 := b1, bq_a2 := b2\<rparr>)))"

text \<open>One round of the loop of \<^verbatim>\<open>init_emphasis_eq\<close>. \<open>ed\<close> is what is in the variables \<^verbatim>\<open>e\<close> and \<^verbatim>\<open>d\<close>.\<close>

definition emphasis_round ::
  "('f :: {one, plus, minus, uminus, times, inverse}, 'd) cmath \<Rightarrow> 'f fmath \<Rightarrow> 'f \<Rightarrow> 'f
     \<Rightarrow> ('f biquad \<times> 'f biquad) \<times> 'f \<times> 'f eq2 \<times> 'f eq2 \<Rightarrow> ('f biquad \<times> 'f biquad) \<times> 'f \<times> 'f eq2 \<times> 'f eq2" where
  "emphasis_round m fm stage_gain stage_ratio st =
     (case st of (ed, anchor_freq, eq, deq) \<Rightarrow>
        (let ed' = emphasis_stage_pair_biquads m fm stage_gain anchor_freq (anchor_freq / stage_ratio) ed;
             eq1 = snd (eq2_append_biquad_direct eq False (fst ed'));
             deq1 = snd (eq2_append_biquad_direct deq False (snd ed'));
             eq2 = snd (eq2_append_biquad_direct eq1 True (fst ed'));
             deq2 = snd (eq2_append_biquad_direct deq1 True (snd ed'))
         in (ed', anchor_freq / (stage_ratio * stage_ratio), eq2, deq2)))"

text \<open>
  \<open>stack\<close> is the contents of the two uninitialized local variables \<^verbatim>\<open>e\<close> and \<^verbatim>\<open>d\<close>.
\<close>

definition init_emphasis_eq ::
  "('f :: {zero, one, plus, minus, uminus, times, inverse}, 'd :: {zero, one, plus, minus, uminus, times, inverse, ord}) cmath
     \<Rightarrow> 'f fmath \<Rightarrow> 'f biquad \<times> 'f biquad \<Rightarrow> 'f drc \<Rightarrow> 'f drc" where
  "init_emphasis_eq m fm stack drc =
     (let stage_gain = drc_get_param drc 0 PARAM_FILTER_STAGE_GAIN;
          stage_ratio = drc_get_param drc 0 PARAM_FILTER_STAGE_RATIO;
          anchor_freq = drc_get_param drc 0 PARAM_FILTER_ANCHOR
      in case (emphasis_round m fm stage_gain stage_ratio ^^ 2) (stack, anchor_freq, eq2_new m, eq2_new m) of
           (_, _, eq, deq) \<Rightarrow> drc\<lparr>drc_emphasis_eq := Some eq, drc_deemphasis_eq := Some deq\<rparr>)"

definition init_crossover ::
  "('f :: zero, 'd :: {zero, one, plus, minus, uminus, times, inverse, ord}) cmath \<Rightarrow> 'f drc \<Rightarrow> 'f drc" where
  "init_crossover m drc =
     drc\<lparr>drc_xo2 := crossover2_init m (drc_get_param drc 1 PARAM_CROSSOVER_LOWER_FREQ)
                      (drc_get_param drc 2 PARAM_CROSSOVER_LOWER_FREQ)\<rparr>"

definition kernel_parameters :: "'f drc \<Rightarrow> nat \<Rightarrow> 'f dk_parameters" where
  "kernel_parameters drc i =
     \<lparr>par_db_threshold = drc_get_param drc i PARAM_THRESHOLD, par_db_knee = drc_get_param drc i PARAM_KNEE,
      par_ratio = drc_get_param drc i PARAM_RATIO, par_attack_time = drc_get_param drc i PARAM_ATTACK,
      par_release_time = drc_get_param drc i PARAM_RELEASE, par_pre_delay_time = drc_get_param drc i PARAM_PRE_DELAY,
      par_db_post_gain = drc_get_param drc i PARAM_POST_GAIN,
      par_releaseZone1 = drc_get_param drc i PARAM_RELEASE_ZONE1, par_releaseZone2 = drc_get_param drc i PARAM_RELEASE_ZONE2,
      par_releaseZone3 = drc_get_param drc i PARAM_RELEASE_ZONE3, par_releaseZone4 = drc_get_param drc i PARAM_RELEASE_ZONE4\<rparr>"

definition init_kernel ::
  "('f :: {zero, one, plus, minus, uminus, times, inverse, ord}, 'd :: {times, inverse}) cmath \<Rightarrow> 'f fmath \<Rightarrow> 'f drc \<Rightarrow> 'f drc" where
  "init_kernel m fm drc =
     drc\<lparr>drc_kernels := map (\<lambda>i.
       dk_set_enabled (dk_set_parameters m fm (dk_init fm (drc_kernels drc ! i) (drc_sample_rate drc)) (kernel_parameters drc i))
         (c_trunc m (drc_get_param drc i PARAM_ENABLED))) [0..<DRC_NUM_KERNELS]\<rparr>"

definition drc_init ::
  "('f :: {zero, one, plus, minus, uminus, times, inverse, ord}, 'd :: {zero, one, plus, minus, uminus, times, inverse, ord}) cmath
     \<Rightarrow> 'f fmath \<Rightarrow> 'f biquad \<times> 'f biquad \<Rightarrow> 'f drc \<Rightarrow> 'f drc" where
  "drc_init m fm stack drc =
     init_kernel m fm (init_crossover m (init_emphasis_eq m fm stack (init_data_buffer drc)))"

subsection \<open>Processing\<close>

definition sum3 :: "('f :: plus) list \<Rightarrow> 'f list \<Rightarrow> 'f list \<Rightarrow> nat \<Rightarrow> 'f list" where
  "sum3 data data1 data2 n =
     map2 (\<lambda>x (y, z). x + (y + z)) (take n data) (zip (take n data1) (take n data2)) @ drop n data"

definition lift_kernel :: "drc_fault + 'a \<Rightarrow> drc_error + 'a" where
  "lift_kernel r = (case r of Inl e \<Rightarrow> Inl (Kernel_Fault e) | Inr x \<Rightarrow> Inr x)"

definition the_eq2 :: "'f eq2 option \<Rightarrow> drc_error + 'f eq2" where
  "the_eq2 e = (case e of None \<Rightarrow> Inl Null_Eq2 | Some eq \<Rightarrow> Inr eq)"

definition emphasize ::
  "bool \<Rightarrow> ('f :: {plus, minus, times}) eq2 option \<Rightarrow> 'f list \<times> 'f list \<Rightarrow> nat
     \<Rightarrow> drc_error + 'f eq2 option \<times> 'f list \<times> 'f list" where
  "emphasize disabled e data frames =
     (if disabled then Inr (e, data)
      else and_then (the_eq2 e) (\<lambda>eq.
        (case eq2_process eq (fst data) (snd data) frames of (eq', l, r) \<Rightarrow> Inr (Some eq', l, r))))"

definition short :: "'f list \<times> 'f list \<Rightarrow> nat \<Rightarrow> bool" where
  "short data n \<longleftrightarrow> length (fst data) < n \<or> length (snd data) < n"

definition drc_process ::
  "('f :: {zero, one, plus, minus, uminus, times, inverse, ord}, 'd :: inverse) cmath \<Rightarrow> 'f fmath \<Rightarrow> 'f drc
     \<Rightarrow> 'f list \<times> 'f list \<Rightarrow> nat \<Rightarrow> drc_error + 'f drc \<times> 'f list \<times> 'f list" where
  "drc_process m fm drc data frames =
     (if short data frames then Inl Short_Buffer
      else
        and_then (emphasize (drc_emphasis_disabled drc \<noteq> 0) (drc_emphasis_eq drc) data frames) (\<lambda>(emph, l, r).
        if short (drc_data1 drc) frames \<or> short (drc_data2 drc) frames then Inl Short_Buffer
        else
          (case crossover2_process (drc_xo2 drc) frames l r (fst (drc_data1 drc)) (snd (drc_data1 drc))
                  (fst (drc_data2 drc)) (snd (drc_data2 drc)) of
             (xo2, l0, r0, l1, r1, l2, r2) \<Rightarrow>
               and_then (lift_kernel (dk_process m fm (drc_kernels drc ! 0) (l0, r0) frames)) (\<lambda>(k0, a0, b0).
               and_then (lift_kernel (dk_process m fm (drc_kernels drc ! 1) (l1, r1) frames)) (\<lambda>(k1, a1, b1).
               and_then (lift_kernel (dk_process m fm (drc_kernels drc ! 2) (l2, r2) frames)) (\<lambda>(k2, a2, b2).
               and_then (emphasize (drc_emphasis_disabled drc \<noteq> 0) (drc_deemphasis_eq drc)
                           (sum3 a0 a1 a2 frames, sum3 b0 b1 b2 frames) frames) (\<lambda>(deemph, out).
               Inr (drc\<lparr>drc_emphasis_eq := emph, drc_deemphasis_eq := deemph, drc_xo2 := xo2,
                        drc_kernels := [k0, k1, k2], drc_data1 := (a1, b1), drc_data2 := (a2, b2)\<rparr>, out))))))))"


subsection \<open>Lengths of buffers\<close>

lemma length_stereo_run: "length (snd (stereo_run q xs)) = length xs"
  by (induction q xs rule: stereo_run.induct) (auto split: prod.split)

lemma eq2_process_one_lengths:
  assumes "eq2_process_one q d0 d1 count = (q', e0, e1)" "count \<le> length d0" "count \<le> length d1"
  shows "length e0 = length d0 \<and> length e1 = length d1"
  using assms length_stereo_run [of q "zip (take count d0) (take count d1)"]
  by (auto simp: eq2_process_one_def split: prod.splits)

lemma eq2_chain_lengths:
  "eq2_chain count qs d0 d1 = (qs', e0, e1) \<Longrightarrow> count \<le> length d0 \<Longrightarrow> count \<le> length d1 \<Longrightarrow>
   length e0 = length d0 \<and> length e1 = length d1"
proof (induction count qs d0 d1 arbitrary: qs' e0 e1 rule: eq2_chain.induct)
  case (2 count q d0 d1)
  then show ?case by (auto split: prod.splits dest: eq2_process_one_lengths)
next
  case (3 count q r qs d0 d1)
  obtain q1 a0 a1 where a: "eq2_process_one q d0 d1 count = (q1, a0, a1)" by (metis prod_cases3)
  obtain r1 b0 b1 where b: "eq2_process_one r a0 a1 count = (r1, b0, b1)" by (metis prod_cases3)
  obtain qs1 c0 c1 where c: "eq2_chain count qs b0 b1 = (qs1, c0, c1)" by (metis prod_cases3)
  have l: "length b0 = length d0" "length b1 = length d1"
    using eq2_process_one_lengths [OF a] eq2_process_one_lengths [OF b] "3.prems"(2,3) by simp_all
  have "e0 = c0" "e1 = c1" using "3.prems"(1) a b c by simp_all
  with "3.IH" [OF a [symmetric] refl b [symmetric] refl c] l "3.prems"(2,3) show ?case by simp
qed simp

lemma eq2_process_lengths:
  assumes "eq2_process eq d0 d1 count = (eq', e0, e1)" "count \<le> length d0" "count \<le> length d1"
  shows "length e0 = length d0 \<and> length e1 = length d1"
  using assms by (auto simp: eq2_process_def Let_def split: prod.splits if_splits dest: eq2_chain_lengths)

lemma lr42_split_lengths:
  assumes "lr42_split lp hp count d0L d0R d1L d1R = (s, e0L, e0R, e1L, e1R)"
    "count \<le> length d0L" "count \<le> length d0R" "count \<le> length d1L" "count \<le> length d1R"
  shows "length e0L = length d0L \<and> length e0R = length d0R \<and> length e1L = length d1L \<and> length e1R = length d1R"
proof -
  obtain out where "split2_run lp hp (zip (take count d0L) (take count d0R)) = (s, out)"
      "e0L = map (fst \<circ> fst) out @ drop count d0L" "e0R = map (snd \<circ> fst) out @ drop count d0R"
      "e1L = map (fst \<circ> snd) out @ drop count d1L" "e1R = map (snd \<circ> snd) out @ drop count d1R"
    using assms(1) by (auto simp: lr42_split_def split: prod.splits)
  with length_split2_run assms(2-5) show ?thesis by fastforce
qed

lemma lr42_merge_lengths:
  assumes "lr42_merge lp hp count dL dR = (s, eL, eR)" "count \<le> length dL" "count \<le> length dR"
  shows "length eL = length dL \<and> length eR = length dR"
proof -
  obtain out where "merge2_run lp hp (zip (take count dL) (take count dR)) = (s, out)"
      "eL = map fst out @ drop count dL" "eR = map snd out @ drop count dR"
    using assms(1) by (auto simp: lr42_merge_def split: prod.splits)
  with length_merge2_run assms(2,3) show ?thesis by fastforce
qed

lemma crossover2_process_lengths:
  assumes "crossover2_process xo2 n d0L d0R d1L d1R d2L d2R = (xo2', e0L, e0R, e1L, e1R, e2L, e2R)"
    "n \<le> length d0L" "n \<le> length d0R" "n \<le> length d1L" "n \<le> length d1R" "n \<le> length d2L" "n \<le> length d2R"
  shows "length e0L = length d0L \<and> length e0R = length d0R \<and> length e1L = length d1L \<and> length e1R = length d1R \<and>
    length e2L = length d2L \<and> length e2R = length d2R"
proof (cases "n = 0")
  case True
  with assms(1) show ?thesis by (simp add: crossover2_process_def)
next
  case False
  obtain s0 a0L a0R a1L a1R where a: "lr42_split (xo2_lp xo2 ! 0) (xo2_hp xo2 ! 0) n d0L d0R d1L d1R = (s0, a0L, a0R, a1L, a1R)"
    by (metis surj_pair)
  obtain s1 b0L b0R where b: "lr42_merge (xo2_lp xo2 ! 1) (xo2_hp xo2 ! 1) n a0L a0R = (s1, b0L, b0R)" by (metis surj_pair)
  obtain s2 c1L c1R c2L c2R where c: "lr42_split (xo2_lp xo2 ! 2) (xo2_hp xo2 ! 2) n a1L a1R d2L d2R = (s2, c1L, c1R, c2L, c2R)"
    by (metis surj_pair)
  have l: "length a0L = length d0L" "length a0R = length d0R" "length a1L = length d1L" "length a1R = length d1R"
    using lr42_split_lengths [OF a] assms(2-5) by simp_all
  have "e0L = b0L" "e0R = b0R" "e1L = c1L" "e1R = c1R" "e2L = c2L" "e2R = c2R"
    using assms(1) False a b c by (simp_all add: crossover2_process_def split_beta)
  with l lr42_merge_lengths [OF b] lr42_split_lengths [OF c] assms(2-7) show ?thesis by simp
qed

lemma dk_process_ok:
  assumes "dk_ready dk" "n \<le> length l" "n \<le> length r"
  obtains dk' l' r' where "dk_process m fm dk (l, r) n = Inr (dk', l', r')" "dk_ready dk'"
    "length l' = length l" "length r' = length r"
proof (cases "dk_enabled dk = 0")
  case True
  have "dk_wf dk" using assms(1) by (simp add: dk_ready_def)
  from delay_line [OF this assms(2,3)] True assms(2,3) that show ?thesis
    by (fastforce simp: dk_process_def dk_ready_def same_settings_def)
next
  case False
  from process_linked [OF assms(1) False assms(2,3), of m fm] that show ?thesis
    by (auto simp: linked2_def linked_def)
qed

lemma emphasize_ok:
  assumes "e \<noteq> None" "n \<le> length l" "n \<le> length r"
  obtains e' l' r' where "emphasize d e (l, r) n = Inr (e', l', r')" "e' \<noteq> None" "length l' = length l" "length r' = length r"
proof (cases d)
  case True
  with assms(1) that show ?thesis by (simp add: emphasize_def)
next
  case False
  obtain eq where eq: "e = Some eq" using assms(1) by auto
  obtain eq' l' r' where p: "eq2_process eq l r n = (eq', l', r')" by (metis prod_cases3)
  with eq2_process_lengths [OF p assms(2,3)] eq False that show ?thesis by (simp add: emphasize_def the_eq2_def)
qed

lemma length_sum3: "n \<le> length a \<Longrightarrow> n \<le> length b \<Longrightarrow> n \<le> length c \<Longrightarrow> length (sum3 a b c n) = length a"
  by (simp add: sum3_def)

lemma emphasize_lengths:
  assumes "emphasize d e (l, r) n = Inr (e', l', r')" "n \<le> length l" "n \<le> length r"
  shows "length l' = length l \<and> length r' = length r"
  using assms eq2_process_lengths
  by (fastforce simp: emphasize_def the_eq2_def and_then_Inr split: if_splits option.splits prod.splits)

lemma drc_process_lengths:
  assumes "drc_process m fm drc (l, r) n = Inr (drc', l', r')"
  shows "length l' = length l \<and> length r' = length r"
proof -
  have n: "n \<le> length l" "n \<le> length r" using assms by (auto simp: drc_process_def short_def split: if_splits)
  obtain em l0 r0 where e: "emphasize (drc_emphasis_disabled drc \<noteq> 0) (drc_emphasis_eq drc) (l, r) n = Inr (em, l0, r0)"
    using assms by (auto simp: drc_process_def and_then_Inr split: if_splits)
  have l0: "length l0 = length l" "length r0 = length r" using emphasize_lengths [OF e n] by simp_all
  obtain xo a0 b0 a1 b1 a2 b2 where x: "crossover2_process (drc_xo2 drc) n l0 r0 (fst (drc_data1 drc)) (snd (drc_data1 drc))
      (fst (drc_data2 drc)) (snd (drc_data2 drc)) = (xo, a0, b0, a1, b1, a2, b2)" by (metis surj_pair)
  have sh: "n \<le> length (fst (drc_data1 drc))" "n \<le> length (snd (drc_data1 drc))" "n \<le> length (fst (drc_data2 drc))" "n \<le> length (snd (drc_data2 drc))"
    using assms e by (auto simp: drc_process_def short_def split: if_splits)
  obtain k0 p0 q0 k1 p1 q1 k2 p2 q2 de where k: "dk_process m fm (drc_kernels drc ! 0) (a0, b0) n = Inr (k0, p0, q0)"
      "dk_process m fm (drc_kernels drc ! 1) (a1, b1) n = Inr (k1, p1, q1)"
      "dk_process m fm (drc_kernels drc ! 2) (a2, b2) n = Inr (k2, p2, q2)"
      "emphasize (drc_emphasis_disabled drc \<noteq> 0) (drc_deemphasis_eq drc) (sum3 p0 p1 p2 n, sum3 q0 q1 q2 n) n = Inr (de, l', r')"
    using assms e x sh n by (auto simp: drc_process_def short_def lift_kernel_def and_then_Inr split: if_splits sum.splits)
  have "length p0 = length l" "length q0 = length r" "length p1 = length (fst (drc_data1 drc))" "length q1 = length (snd (drc_data1 drc))"
      "length p2 = length (fst (drc_data2 drc))" "length q2 = length (snd (drc_data2 drc))"
    using dk_process_lengths [OF k(1)] dk_process_lengths [OF k(2)] dk_process_lengths [OF k(3)]
      crossover2_process_lengths [OF x] l0 n sh by simp_all
  then have "length (sum3 p0 p1 p2 n) = length l" "length (sum3 q0 q1 q2 n) = length r" using n sh by (simp_all add: length_sum3)
  with emphasize_lengths [OF k(4)] n show ?thesis by simp
qed

subsection \<open>Properties\<close>

text \<open>A compressor after its initialization.\<close>

definition drc_ok :: "'f drc \<Rightarrow> bool" where
  "drc_ok drc \<longleftrightarrow>
     drc_emphasis_eq drc \<noteq> None \<and> drc_deemphasis_eq drc \<noteq> None \<and>
     length (drc_kernels drc) = DRC_NUM_KERNELS \<and> list_all dk_ready (drc_kernels drc) \<and>
     \<not> short (drc_data1 drc) DRC_PROCESS_MAX_FRAMES \<and> \<not> short (drc_data2 drc) DRC_PROCESS_MAX_FRAMES"

text \<open>However its parameters are set, an initialized compressor is ready.\<close>

lemma drc_init_ok: "drc_ok (drc_init m fm stack drc)"
  by (simp add: drc_ok_def drc_init_def init_kernel_def init_crossover_def init_emphasis_eq_def init_data_buffer_def
      short_def list_all_length dk_init_ready Let_def split: prod.split)

text \<open>
  C33. Processing at most 2048 frames never fails: no buffer is left, no loop runs forever, no pointer is
  NULL, and the compressor stays ready for the next block.
\<close>

theorem drc_process_safe:
  assumes "drc_ok drc" "frames \<le> DRC_PROCESS_MAX_FRAMES" "frames \<le> length l" "frames \<le> length r"
  shows "\<exists>drc' l' r'. drc_process m fm drc (l, r) frames = Inr (drc', l', r') \<and> drc_ok drc' \<and>
    length l' = length l \<and> length r' = length r"
proof -
  let ?d1 = "drc_data1 drc" and ?d2 = "drc_data2 drc"
  have ok: "drc_emphasis_eq drc \<noteq> None" "drc_deemphasis_eq drc \<noteq> None"
      "DRC_PROCESS_MAX_FRAMES \<le> length (fst ?d1)" "DRC_PROCESS_MAX_FRAMES \<le> length (snd ?d1)"
      "DRC_PROCESS_MAX_FRAMES \<le> length (fst ?d2)" "DRC_PROCESS_MAX_FRAMES \<le> length (snd ?d2)"
      "dk_ready (drc_kernels drc ! 0)" "dk_ready (drc_kernels drc ! 1)" "dk_ready (drc_kernels drc ! 2)"
    using assms(1) by (auto simp: drc_ok_def short_def list_all_length DRC_NUM_KERNELS_def)
  obtain em l0 r0 where e: "emphasize (drc_emphasis_disabled drc \<noteq> 0) (drc_emphasis_eq drc) (l, r) frames = Inr (em, l0, r0)"
      "em \<noteq> None" "length l0 = length l" "length r0 = length r"
    by (rule emphasize_ok [OF ok(1) assms(3,4)])
  obtain xo a0 b0 a1 b1 a2 b2 where x: "crossover2_process (drc_xo2 drc) frames l0 r0 (fst ?d1) (snd ?d1) (fst ?d2) (snd ?d2) =
      (xo, a0, b0, a1, b1, a2, b2)" by (metis surj_pair)
  have xl: "length a0 = length l" "length b0 = length r" "length a1 = length (fst ?d1)" "length b1 = length (snd ?d1)"
      "length a2 = length (fst ?d2)" "length b2 = length (snd ?d2)"
    using crossover2_process_lengths [OF x] e(3,4) assms(2-4) ok(3-6) by simp_all
  have fit: "frames \<le> length a0" "frames \<le> length b0" "frames \<le> length a1" "frames \<le> length b1" "frames \<le> length a2" "frames \<le> length b2"
    using xl ok(3-6) assms(2-4) by simp_all
  obtain k0 p0 q0 where k0: "dk_process m fm (drc_kernels drc ! 0) (a0, b0) frames = Inr (k0, p0, q0)" "dk_ready k0"
      "length p0 = length a0" "length q0 = length b0" by (rule dk_process_ok [OF ok(7) fit(1,2)])
  obtain k1 p1 q1 where k1: "dk_process m fm (drc_kernels drc ! 1) (a1, b1) frames = Inr (k1, p1, q1)" "dk_ready k1"
      "length p1 = length a1" "length q1 = length b1" by (rule dk_process_ok [OF ok(8) fit(3,4)])
  obtain k2 p2 q2 where k2: "dk_process m fm (drc_kernels drc ! 2) (a2, b2) frames = Inr (k2, p2, q2)" "dk_ready k2"
      "length p2 = length a2" "length q2 = length b2" by (rule dk_process_ok [OF ok(9) fit(5,6)])
  have s: "length (sum3 p0 p1 p2 frames) = length l" "length (sum3 q0 q1 q2 frames) = length r"
    using fit k0(3,4) k1(3,4) k2(3,4) xl(1,2) by (simp_all add: length_sum3)
  have sf: "frames \<le> length (sum3 p0 p1 p2 frames)" "frames \<le> length (sum3 q0 q1 q2 frames)" using s assms(3,4) by simp_all
  obtain de l' r' where d: "emphasize (drc_emphasis_disabled drc \<noteq> 0) (drc_deemphasis_eq drc)
        (sum3 p0 p1 p2 frames, sum3 q0 q1 q2 frames) frames = Inr (de, l', r')"
      "de \<noteq> None" "length l' = length l" "length r' = length r"
    using emphasize_ok [OF ok(2) sf] s by metis
  have ns: "\<not> short (l, r) frames" "\<not> short ?d1 frames" "\<not> short ?d2 frames"
    using assms(2-4) ok(3-6) by (auto simp: short_def)
  let ?drc = "drc\<lparr>drc_emphasis_eq := em, drc_deemphasis_eq := de, drc_xo2 := xo, drc_kernels := [k0, k1, k2],
      drc_data1 := (p1, q1), drc_data2 := (p2, q2)\<rparr>"
  have "drc_process m fm drc (l, r) frames = Inr (?drc, l', r')"
    using ns e(1) x k0(1) k1(1) k2(1) d(1) by (simp add: drc_process_def lift_kernel_def)
  moreover have "drc_ok ?drc"
    using e(2) d(2) k0(2) k1(2,3,4) k2(2,3,4) xl ok(3-6) by (simp add: drc_ok_def short_def DRC_NUM_KERNELS_def)
  ultimately show ?thesis using d(3,4) by blast
qed

theorem drc_process_safe_witness:
  "\<exists>drc' l' r'. drc_process rat_math rat_fmath
     (drc_init rat_math rat_fmath (zero_biquad, zero_biquad) (drc_new rat_math rat_fmath 48000)) ([1, 2], [3, 4]) 2 =
       Inr (drc', l', r') \<and> drc_ok drc'"
  using drc_process_safe [OF drc_init_ok, of 2 "[1, 2]" "[3, 4]" rat_math rat_fmath rat_math rat_fmath
      "(zero_biquad, zero_biquad)" "drc_new rat_math rat_fmath 48000"]
  by (auto simp: DRC_PROCESS_MAX_FRAMES_def)


text \<open>The samples a filter remembers.\<close>

definition history :: "'f biquad \<Rightarrow> 'f \<times> 'f \<times> 'f \<times> 'f" where
  "history q = (bq_x1 q, bq_x2 q, bq_y1 q, bq_y2 q)"

lemma stage_pair_history:
  "history (fst (emphasis_stage_pair_biquads m fm gain f1 f2 ed)) = history (fst ed)"
  "history (snd (emphasis_stage_pair_biquads m fm gain f1 f2 ed)) = history (snd ed)"
  by (simp_all add: emphasis_stage_pair_biquads_def history_def Let_def split: prod.split)

text \<open>
  The emphasis filters of an initialized compressor start with the contents of uninitialized local
  variables as their history: \<^verbatim>\<open>init_emphasis_eq\<close> sets the coefficients of \<^verbatim>\<open>e\<close> and \<^verbatim>\<open>d\<close> only and copies
  the whole structures.
\<close>

theorem drc_init_uninitialised_history:
  "\<exists>eq deq. drc_emphasis_eq (drc_init m fm stack drc) = Some eq \<and> drc_deemphasis_eq (drc_init m fm stack drc) = Some deq \<and>
     history (fst (eq2_biquad eq ! 0)) = history (fst stack) \<and> history (snd (eq2_biquad eq ! 1)) = history (fst stack) \<and>
     history (fst (eq2_biquad deq ! 0)) = history (snd stack) \<and> history (snd (eq2_biquad deq ! 1)) = history (snd stack)"
proof -
  let ?drc = "init_data_buffer drc"
  define g where "g = drc_get_param ?drc 0 PARAM_FILTER_STAGE_GAIN"
  define q where "q = drc_get_param ?drc 0 PARAM_FILTER_STAGE_RATIO"
  define a where "a = drc_get_param ?drc 0 PARAM_FILTER_ANCHOR"
  define ed where "ed = emphasis_stage_pair_biquads m fm g a (a / q) stack"
  define ed' where "ed' = emphasis_stage_pair_biquads m fm g (a / (q * q)) (a / (q * q) / q) ed"
  have h: "history (fst ed) = history (fst stack)" "history (snd ed) = history (snd stack)"
      "history (fst ed') = history (fst stack)" "history (snd ed') = history (snd stack)"
    by (simp_all add: ed_def ed'_def stage_pair_history)
  have "\<exists>eq deq. (emphasis_round m fm g q ^^ 2) (stack, a, eq2_new m, eq2_new m) = (ed', a / (q * q) / (q * q), eq, deq) \<and>
      eq2_biquad eq ! 0 = (fst ed, fst ed) \<and> eq2_biquad eq ! 1 = (fst ed', fst ed') \<and>
      eq2_biquad deq ! 0 = (snd ed, snd ed) \<and> eq2_biquad deq ! 1 = (snd ed', snd ed')"
    by (simp add: numeral_2_eq_2 emphasis_round_def ed_def [symmetric] ed'_def [symmetric] Let_def eq2_new_def
        eq2_append_biquad_direct_def eq2_put_def eq2_count_def MAX_BIQUADS_PER_EQ2_def eval_nat_numeral)
  then show ?thesis
    using h unfolding drc_init_def init_emphasis_eq_def g_def q_def a_def
    by (auto simp: Let_def init_kernel_def init_crossover_def)
qed

end
