(* ===== verification/Dsp_Builtin.thy ===== *)
theory Dsp_Builtin
  imports Dsp_Run Drc
begin

text \<open>
  The built-in modules of \<^verbatim>\<open>audio/hal/cras_dsp_mod_builtin.c\<close>: source and sink, \<^verbatim>\<open>invert_lr\<close>,
  \<^verbatim>\<open>mix_stereo\<close>, the equalizers \<^verbatim>\<open>eq\<close> and \<^verbatim>\<open>eq2\<close>, and the compressor \<^verbatim>\<open>drc\<close>. The loops over samples
  are run on the shared memory, so that ports that share a buffer behave as in the code. The
  allocations, whose results the code does not check, are taken to succeed.
\<close>

subsection \<open>State\<close>

datatype module_kind = Kind_Empty | Kind_Invert_Lr | Kind_Mix_Stereo | Kind_Eq | Kind_Eq2 | Kind_Drc

record 'f eq_data =
  ed_sample_rate :: int
  ed_eq :: "'f eq option"
  ed_ports :: "data_location option list"

record 'f eq2_data =
  e2d_sample_rate :: int
  e2d_eq2 :: "'f eq2 option"
  e2d_ports :: "data_location option list"

record 'f drc_data =
  dd_sample_rate :: int
  dd_drc :: "'f drc option"
  dd_ports :: "data_location option list"

text \<open>What \<^verbatim>\<open>module->data\<close> points to: nothing, memory that was freed, or the data of the module.\<close>

datatype 'f module_data =
  Data_Null | Data_Freed | Data_Ports "data_location option list" | Data_Eq "'f eq_data"
  | Data_Eq2 "'f eq2_data" | Data_Drc "'f drc_data"

record 'f builtin =
  bm_kind :: module_kind
  bm_data :: "'f module_data"

definition data_ports :: "'f module_data \<Rightarrow> data_location option list" where
  "data_ports d =
     (case d of Data_Null \<Rightarrow> [] | Data_Freed \<Rightarrow> [] | Data_Ports ps \<Rightarrow> ps | Data_Eq e \<Rightarrow> ed_ports e
      | Data_Eq2 e \<Rightarrow> e2d_ports e | Data_Drc e \<Rightarrow> dd_ports e)"

definition set_port :: "data_location option list \<Rightarrow> nat \<Rightarrow> data_location \<Rightarrow> mod_fault + data_location option list" where
  "set_port ps port loc = (if port < length ps then Inr (ps[port := Some loc]) else Inl Bad_Port)"

subsection \<open>Instantiating and connecting\<close>

definition empty_instantiate :: "'f builtin \<Rightarrow> int \<Rightarrow> int \<times> 'f builtin" where
  "empty_instantiate md sample_rate = (0, md)"

definition invert_lr_instantiate :: "'f builtin \<Rightarrow> int \<Rightarrow> int \<times> 'f builtin" where
  "invert_lr_instantiate md sample_rate = (0, md\<lparr>bm_data := Data_Ports (replicate 4 None)\<rparr>)"

definition mix_stereo_instantiate :: "'f builtin \<Rightarrow> int \<Rightarrow> int \<times> 'f builtin" where
  "mix_stereo_instantiate md sample_rate = (0, md\<lparr>bm_data := Data_Ports (replicate 4 None)\<rparr>)"

definition eq_instantiate :: "'f builtin \<Rightarrow> int \<Rightarrow> int \<times> 'f builtin" where
  "eq_instantiate md sample_rate =
     (0, md\<lparr>bm_data := Data_Eq \<lparr>ed_sample_rate = sample_rate, ed_eq = None,
                         ed_ports = replicate (2 + MAX_BIQUADS_PER_EQ * 4) None\<rparr>\<rparr>)"

definition eq2_instantiate :: "'f builtin \<Rightarrow> int \<Rightarrow> int \<times> 'f builtin" where
  "eq2_instantiate md sample_rate =
     (0, md\<lparr>bm_data := Data_Eq2 \<lparr>e2d_sample_rate = sample_rate, e2d_eq2 = None,
                          e2d_ports = replicate (4 + MAX_BIQUADS_PER_EQ2 * 8) None\<rparr>\<rparr>)"

definition drc_instantiate :: "'f builtin \<Rightarrow> int \<Rightarrow> int \<times> 'f builtin" where
  "drc_instantiate md sample_rate =
     (0, md\<lparr>bm_data := Data_Drc \<lparr>dd_sample_rate = sample_rate, dd_drc = None,
                          dd_ports = replicate (4 + 1 + 8 * 3) None\<rparr>\<rparr>)"

definition empty_connect_port :: "'f builtin \<Rightarrow> nat \<Rightarrow> data_location \<Rightarrow> mod_fault + 'f builtin" where
  "empty_connect_port md port loc = Inr md"

definition invert_lr_connect_port :: "'f builtin \<Rightarrow> nat \<Rightarrow> data_location \<Rightarrow> mod_fault + 'f builtin" where
  "invert_lr_connect_port md port loc =
     (case bm_data md of
        Data_Ports ps \<Rightarrow> and_then (set_port ps port loc) (\<lambda>ps'. Inr (md\<lparr>bm_data := Data_Ports ps'\<rparr>))
      | _ \<Rightarrow> Inl No_Data)"

definition mix_stereo_connect_port :: "'f builtin \<Rightarrow> nat \<Rightarrow> data_location \<Rightarrow> mod_fault + 'f builtin" where
  "mix_stereo_connect_port md port loc =
     (case bm_data md of
        Data_Ports ps \<Rightarrow> and_then (set_port ps port loc) (\<lambda>ps'. Inr (md\<lparr>bm_data := Data_Ports ps'\<rparr>))
      | _ \<Rightarrow> Inl No_Data)"

definition eq_connect_port :: "'f builtin \<Rightarrow> nat \<Rightarrow> data_location \<Rightarrow> mod_fault + 'f builtin" where
  "eq_connect_port md port loc =
     (case bm_data md of
        Data_Eq e \<Rightarrow> and_then (set_port (ed_ports e) port loc) (\<lambda>ps'. Inr (md\<lparr>bm_data := Data_Eq (e\<lparr>ed_ports := ps'\<rparr>)\<rparr>))
      | _ \<Rightarrow> Inl No_Data)"

definition eq2_connect_port :: "'f builtin \<Rightarrow> nat \<Rightarrow> data_location \<Rightarrow> mod_fault + 'f builtin" where
  "eq2_connect_port md port loc =
     (case bm_data md of
        Data_Eq2 e \<Rightarrow> and_then (set_port (e2d_ports e) port loc) (\<lambda>ps'. Inr (md\<lparr>bm_data := Data_Eq2 (e\<lparr>e2d_ports := ps'\<rparr>)\<rparr>))
      | _ \<Rightarrow> Inl No_Data)"

definition drc_connect_port :: "'f builtin \<Rightarrow> nat \<Rightarrow> data_location \<Rightarrow> mod_fault + 'f builtin" where
  "drc_connect_port md port loc =
     (case bm_data md of
        Data_Drc e \<Rightarrow> and_then (set_port (dd_ports e) port loc) (\<lambda>ps'. Inr (md\<lparr>bm_data := Data_Drc (e\<lparr>dd_ports := ps'\<rparr>)\<rparr>))
      | _ \<Rightarrow> Inl No_Data)"

definition empty_get_delay :: "'f builtin \<Rightarrow> mod_fault + int" where
  "empty_get_delay md = Inr 0"

definition drc_get_delay :: "('f :: times, 'd) cmath \<Rightarrow> 'f fmath \<Rightarrow> 'f builtin \<Rightarrow> mod_fault + int" where
  "drc_get_delay m fm md =
     (case bm_data md of
        Data_Drc e \<Rightarrow> Inr (c_trunc m (DRC_DEFAULT_PRE_DELAY fm * c_of_int m (dd_sample_rate e)))
      | _ \<Rightarrow> Inl No_Data)"

text \<open>Freeing a NULL pointer is allowed where the data is not read first.\<close>

definition empty_deinstantiate :: "'f builtin \<Rightarrow> mod_fault + 'f builtin" where
  "empty_deinstantiate md = Inr md"

definition free_data :: "'f builtin \<Rightarrow> mod_fault + 'f builtin" where
  "free_data md =
     (case bm_data md of Data_Null \<Rightarrow> Inr md | Data_Freed \<Rightarrow> Inl No_Data | _ \<Rightarrow> Inr (md\<lparr>bm_data := Data_Freed\<rparr>))"

definition invert_lr_deinstantiate :: "'f builtin \<Rightarrow> mod_fault + 'f builtin" where
  "invert_lr_deinstantiate md = free_data md"

definition mix_stereo_deinstantiate :: "'f builtin \<Rightarrow> mod_fault + 'f builtin" where
  "mix_stereo_deinstantiate md = free_data md"

definition eq_deinstantiate :: "'f builtin \<Rightarrow> mod_fault + 'f builtin" where
  "eq_deinstantiate md = (if bm_data md = Data_Null then Inl No_Data else free_data md)"

definition eq2_deinstantiate :: "'f builtin \<Rightarrow> mod_fault + 'f builtin" where
  "eq2_deinstantiate md = (if bm_data md = Data_Null then Inl No_Data else free_data md)"

definition drc_deinstantiate :: "'f builtin \<Rightarrow> mod_fault + 'f builtin" where
  "drc_deinstantiate md = (if bm_data md = Data_Null then Inl No_Data else free_data md)"

text \<open>The function pointers that the \<^verbatim>\<open>init_module\<close> functions store, by the kind of module.\<close>

definition builtin_instantiate :: "'f builtin \<Rightarrow> int \<Rightarrow> int \<times> 'f builtin" where
  "builtin_instantiate md =
     (case bm_kind md of
        Kind_Empty \<Rightarrow> empty_instantiate md | Kind_Invert_Lr \<Rightarrow> invert_lr_instantiate md
      | Kind_Mix_Stereo \<Rightarrow> mix_stereo_instantiate md | Kind_Eq \<Rightarrow> eq_instantiate md
      | Kind_Eq2 \<Rightarrow> eq2_instantiate md | Kind_Drc \<Rightarrow> drc_instantiate md)"

definition builtin_connect_port :: "'f builtin \<Rightarrow> nat \<Rightarrow> data_location \<Rightarrow> mod_fault + 'f builtin" where
  "builtin_connect_port md =
     (case bm_kind md of
        Kind_Empty \<Rightarrow> empty_connect_port md | Kind_Invert_Lr \<Rightarrow> invert_lr_connect_port md
      | Kind_Mix_Stereo \<Rightarrow> mix_stereo_connect_port md | Kind_Eq \<Rightarrow> eq_connect_port md
      | Kind_Eq2 \<Rightarrow> eq2_connect_port md | Kind_Drc \<Rightarrow> drc_connect_port md)"

definition builtin_get_delay :: "('f :: times, 'd) cmath \<Rightarrow> 'f fmath \<Rightarrow> 'f builtin \<Rightarrow> mod_fault + int" where
  "builtin_get_delay m fm md = (if bm_kind md = Kind_Drc then drc_get_delay m fm md else empty_get_delay md)"

definition builtin_deinstantiate :: "'f builtin \<Rightarrow> mod_fault + 'f builtin" where
  "builtin_deinstantiate md =
     (case bm_kind md of
        Kind_Empty \<Rightarrow> empty_deinstantiate md | Kind_Invert_Lr \<Rightarrow> invert_lr_deinstantiate md
      | Kind_Mix_Stereo \<Rightarrow> mix_stereo_deinstantiate md | Kind_Eq \<Rightarrow> eq_deinstantiate md
      | Kind_Eq2 \<Rightarrow> eq2_deinstantiate md | Kind_Drc \<Rightarrow> drc_deinstantiate md)"

lemmas instantiate_defs =
  builtin_instantiate_def empty_instantiate_def invert_lr_instantiate_def mix_stereo_instantiate_def eq_instantiate_def
  eq2_instantiate_def drc_instantiate_def

lemmas connect_port_defs =
  builtin_connect_port_def empty_connect_port_def invert_lr_connect_port_def mix_stereo_connect_port_def eq_connect_port_def
  eq2_connect_port_def drc_connect_port_def

definition empty_get_properties :: "'f builtin \<Rightarrow> int" where
  "empty_get_properties md = 0"

subsection \<open>Ports\<close>

definition port_at :: "data_location option list \<Rightarrow> nat \<Rightarrow> mod_fault + data_location" where
  "port_at ps i = (if i < length ps then (case ps ! i of None \<Rightarrow> Inl Null_Port | Some l \<Rightarrow> Inr l) else Inl Bad_Port)"

text \<open>\<^verbatim>\<open>*ports[i]\<close>\<close>

definition read_port :: "'f store \<Rightarrow> data_location option list \<Rightarrow> nat \<Rightarrow> mod_fault + 'f" where
  "read_port s ps i =
     and_then (port_at ps i) (\<lambda>l.
       (case l of
          Loc_Buffer b \<Rightarrow> if b < length (st_buffers s) \<and> st_buffers s ! b \<noteq> [] then Inr (st_buffers s ! b ! 0) else Inl Out_Of_Range
        | _ \<Rightarrow> Inr (st_controls s l)))"

text \<open>The buffer of an audio port of which \<open>n\<close> samples are used.\<close>

definition audio_buffer :: "'f store \<Rightarrow> data_location option list \<Rightarrow> nat \<Rightarrow> nat \<Rightarrow> mod_fault + nat" where
  "audio_buffer s ps i n =
     and_then (port_at ps i) (\<lambda>l.
       (case l of
          Loc_Buffer b \<Rightarrow> if b < length (st_buffers s) \<and> n \<le> length (st_buffers s ! b) then Inr b else Inl Out_Of_Range
        | _ \<Rightarrow> Inl Not_Audio))"

subsection \<open>Simple modules\<close>

definition invert_lr_step :: "nat \<Rightarrow> nat \<Rightarrow> nat \<Rightarrow> nat \<Rightarrow> nat \<Rightarrow> ('f :: uminus) list list \<Rightarrow> 'f list list" where
  "invert_lr_step p0 p1 p2 p3 i bufs =
     (let bufs' = set_sample p2 i (- (bufs ! p0 ! i)) bufs in set_sample p3 i (bufs' ! p1 ! i) bufs')"

definition mix_stereo_step :: "nat \<Rightarrow> nat \<Rightarrow> nat \<Rightarrow> nat \<Rightarrow> nat \<Rightarrow> ('f :: plus) list list \<Rightarrow> 'f list list" where
  "mix_stereo_step p0 p1 p2 p3 i bufs =
     (let tmp = bufs ! p0 ! i + bufs ! p1 ! i in set_sample p3 i tmp (set_sample p2 i tmp bufs))"

definition run_four_ports ::
  "(nat \<Rightarrow> nat \<Rightarrow> nat \<Rightarrow> nat \<Rightarrow> nat \<Rightarrow> 'f list list \<Rightarrow> 'f list list) \<Rightarrow> data_location option list \<Rightarrow> nat \<Rightarrow> 'f store
     \<Rightarrow> mod_fault + 'f store" where
  "run_four_ports step ps n s =
     (if n = 0 then Inr s
      else
        and_then (audio_buffer s ps 0 n) (\<lambda>p0. and_then (audio_buffer s ps 1 n) (\<lambda>p1.
        and_then (audio_buffer s ps 2 n) (\<lambda>p2. and_then (audio_buffer s ps 3 n) (\<lambda>p3.
        Inr (s\<lparr>st_buffers := fold (step p0 p1 p2 p3) [0..<n] (st_buffers s)\<rparr>))))))"

definition invert_lr_run ::
  "('f :: uminus) builtin \<Rightarrow> nat \<Rightarrow> 'f store \<Rightarrow> mod_fault + 'f builtin \<times> 'f store" where
  "invert_lr_run md sample_count s =
     (case bm_data md of
        Data_Ports ps \<Rightarrow> and_then (run_four_ports invert_lr_step ps sample_count s) (\<lambda>s'. Inr (md, s'))
      | _ \<Rightarrow> Inl No_Data)"

definition mix_stereo_run ::
  "('f :: plus) builtin \<Rightarrow> nat \<Rightarrow> 'f store \<Rightarrow> mod_fault + 'f builtin \<times> 'f store" where
  "mix_stereo_run md sample_count s =
     (case bm_data md of
        Data_Ports ps \<Rightarrow> and_then (run_four_ports mix_stereo_step ps sample_count s) (\<lambda>s'. Inr (md, s'))
      | _ \<Rightarrow> Inl No_Data)"

text \<open>\<^verbatim>\<open>if (from != to) memcpy(to, from, sizeof(float) * n)\<close>\<close>

definition copy_buffer :: "nat \<Rightarrow> nat \<Rightarrow> nat \<Rightarrow> 'f list list \<Rightarrow> 'f list list" where
  "copy_buffer src dst n bufs =
     (if src = dst then bufs else bufs[dst := take n (bufs ! src) @ drop n (bufs ! dst)])"


subsection \<open>Equalizers\<close>

definition biquad_type_of_int :: "int \<Rightarrow> biquad_type" where
  "biquad_type_of_int t =
     (if t = 1 then BQ_LOWPASS else if t = 2 then BQ_HIGHPASS else if t = 3 then BQ_BANDPASS
      else if t = 4 then BQ_LOWSHELF else if t = 5 then BQ_HIGHSHELF else if t = 6 then BQ_PEAKING
      else if t = 7 then BQ_NOTCH else if t = 8 then BQ_ALLPASS else BQ_NONE)"

text \<open>\<^verbatim>\<open>sample_rate / 2\<close>, which rounds towards zero\<close>

definition half_rate :: "int \<Rightarrow> int" where
  "half_rate sample_rate = (if sample_rate < 0 then - ((- sample_rate) div 2) else sample_rate div 2)"

text \<open>The four parameters of a filter at the ports from \<open>k\<close> on.\<close>

definition read_filter ::
  "('f, 'd) cmath \<Rightarrow> 'f store \<Rightarrow> data_location option list \<Rightarrow> nat \<Rightarrow> mod_fault + biquad_type \<times> 'f \<times> 'f \<times> 'f" where
  "read_filter m s ps k =
     and_then (read_port s ps k) (\<lambda>type. and_then (read_port s ps (k + 1)) (\<lambda>freq.
     and_then (read_port s ps (k + 2)) (\<lambda>Q. and_then (read_port s ps (k + 3)) (\<lambda>gain.
     Inr (biquad_type_of_int (c_trunc m type), freq, Q, gain)))))"

text \<open>The loops that build the equalizers, from the port numbers still to be looked at.\<close>

fun build_eq ::
  "('f :: {zero, inverse}, 'd :: {zero, one, plus, minus, uminus, times, inverse, ord}) cmath \<Rightarrow> 'f store
     \<Rightarrow> data_location option list \<Rightarrow> 'f \<Rightarrow> nat list \<Rightarrow> 'f eq \<Rightarrow> mod_fault + 'f eq" where
  "build_eq m s ps nyquist [] eq = Inr eq"
| "build_eq m s ps nyquist (i # is) eq =
     (if ps ! i = None then Inr eq
      else and_then (read_filter m s ps i) (\<lambda>(type, freq, Q, gain).
             build_eq m s ps nyquist is (snd (eq_append_biquad m eq type (freq / nyquist) Q gain))))"

fun build_eq2 ::
  "('f :: {zero, inverse}, 'd :: {zero, one, plus, minus, uminus, times, inverse, ord}) cmath \<Rightarrow> 'f store
     \<Rightarrow> data_location option list \<Rightarrow> 'f \<Rightarrow> nat list \<Rightarrow> 'f eq2 \<Rightarrow> mod_fault + 'f eq2" where
  "build_eq2 m s ps nyquist [] eq2 = Inr eq2"
| "build_eq2 m s ps nyquist (i # is) eq2 =
     (if ps ! i = None then Inr eq2
      else and_then (read_filter m s ps i) (\<lambda>(type, freq, Q, gain).
             (let e1 = snd (eq2_append_biquad m eq2 False type (freq / nyquist) Q gain)
              in and_then (read_filter m s ps (i + 4)) (\<lambda>(type', freq', Q', gain').
                   build_eq2 m s ps nyquist is (snd (eq2_append_biquad m e1 True type' (freq' / nyquist) Q' gain'))))))"

definition eq_first_ports :: "nat list" where
  "eq_first_ports = map (\<lambda>k. 2 + 4 * k) [0..<MAX_BIQUADS_PER_EQ]"

definition eq2_first_ports :: "nat list" where
  "eq2_first_ports = map (\<lambda>k. 4 + 8 * k) [0..<MAX_BIQUADS_PER_EQ2]"

definition eq_run ::
  "('f :: {zero, plus, minus, times, inverse}, 'd :: {zero, one, plus, minus, uminus, times, inverse, ord}) cmath
     \<Rightarrow> 'f eq_data \<Rightarrow> nat \<Rightarrow> 'f store \<Rightarrow> mod_fault + 'f eq_data \<times> 'f store" where
  "eq_run m e n s =
     and_then
       (case ed_eq e of
          Some eq \<Rightarrow> Inr eq
        | None \<Rightarrow> build_eq m s (ed_ports e) (c_of_int m (half_rate (ed_sample_rate e))) eq_first_ports eq_new) (\<lambda>eq.
     if n = 0 then Inr (e\<lparr>ed_eq := Some eq\<rparr>, s)
     else
       and_then (audio_buffer s (ed_ports e) 0 n) (\<lambda>p0. and_then (audio_buffer s (ed_ports e) 1 n) (\<lambda>p1.
         (let bufs = copy_buffer p0 p1 n (st_buffers s)
          in case eq_process eq (bufs ! p1) n of
               (eq', out) \<Rightarrow> Inr (e\<lparr>ed_eq := Some eq'\<rparr>, s\<lparr>st_buffers := bufs[p1 := out]\<rparr>)))))"

text \<open>The two inputs of a stereo effect copied to its two outputs, the effect applied there.\<close>

definition run_in_place ::
  "data_location option list \<Rightarrow> nat \<Rightarrow> ('f list \<Rightarrow> 'f list \<Rightarrow> mod_fault + 'x \<times> 'f list \<times> 'f list) \<Rightarrow> 'f store
     \<Rightarrow> mod_fault + 'x \<times> 'f store" where
  "run_in_place ps n effect s =
     (if n = 0 then and_then (effect [] []) (\<lambda>(x, _). Inr (x, s))
      else
        and_then (audio_buffer s ps 0 n) (\<lambda>p0. and_then (audio_buffer s ps 1 n) (\<lambda>p1.
        and_then (audio_buffer s ps 2 n) (\<lambda>p2. and_then (audio_buffer s ps 3 n) (\<lambda>p3.
        if p2 = p3 then Inl Same_Buffer
        else
          (let bufs = copy_buffer p1 p3 n (copy_buffer p0 p2 n (st_buffers s))
           in and_then (effect (bufs ! p2) (bufs ! p3)) (\<lambda>(x, l, r).
                Inr (x, s\<lparr>st_buffers := bufs[p2 := l, p3 := r]\<rparr>))))))))"

definition eq2_run ::
  "('f :: {zero, plus, minus, times, inverse}, 'd :: {zero, one, plus, minus, uminus, times, inverse, ord}) cmath
     \<Rightarrow> 'f eq2_data \<Rightarrow> nat \<Rightarrow> 'f store \<Rightarrow> mod_fault + 'f eq2_data \<times> 'f store" where
  "eq2_run m e n s =
     and_then
       (case e2d_eq2 e of
          Some eq2 \<Rightarrow> Inr eq2
        | None \<Rightarrow> build_eq2 m s (e2d_ports e) (c_of_int m (half_rate (e2d_sample_rate e))) eq2_first_ports (eq2_new m)) (\<lambda>eq2.
     and_then (run_in_place (e2d_ports e) n (\<lambda>l r. Inr (eq2_process eq2 l r n)) s) (\<lambda>(eq2', s').
     Inr (e\<lparr>e2d_eq2 := Some eq2'\<rparr>, s')))"

subsection \<open>The compressor\<close>

text \<open>The parameters of band \<open>i\<close> at the ports from \<open>5 + 8 i\<close> on.\<close>

definition read_band ::
  "'f :: inverse store \<Rightarrow> data_location option list \<Rightarrow> 'f \<Rightarrow> nat \<Rightarrow> 'f drc \<Rightarrow> mod_fault + 'f drc" where
  "read_band s ps nyquist i drc =
     (let k = 5 + i * 8
      in and_then (read_port s ps k) (\<lambda>f. and_then (read_port s ps (k + 1)) (\<lambda>enable.
         and_then (read_port s ps (k + 2)) (\<lambda>threshold. and_then (read_port s ps (k + 3)) (\<lambda>knee.
         and_then (read_port s ps (k + 4)) (\<lambda>ratio. and_then (read_port s ps (k + 5)) (\<lambda>attack.
         and_then (read_port s ps (k + 6)) (\<lambda>release. and_then (read_port s ps (k + 7)) (\<lambda>boost.
         Inr (fold (\<lambda>(p, v) d. drc_set_param d i p v)
                [(PARAM_CROSSOVER_LOWER_FREQ, f / nyquist), (PARAM_ENABLED, enable), (PARAM_THRESHOLD, threshold),
                 (PARAM_KNEE, knee), (PARAM_RATIO, ratio), (PARAM_ATTACK, attack), (PARAM_RELEASE, release),
                 (PARAM_POST_GAIN, boost)] drc))))))))))"

definition build_drc ::
  "('f :: {zero, one, plus, minus, uminus, times, inverse, ord}, 'd :: {zero, one, plus, minus, uminus, times, inverse, ord}) cmath
     \<Rightarrow> 'f fmath \<Rightarrow> 'f biquad \<times> 'f biquad \<Rightarrow> 'f store \<Rightarrow> data_location option list \<Rightarrow> int \<Rightarrow> mod_fault + 'f drc" where
  "build_drc m fm stack s ps sample_rate =
     (let nyquist = c_of_int m (half_rate sample_rate); drc = drc_new m fm (c_of_int m sample_rate)
      in and_then (read_port s ps 4) (\<lambda>dis.
         and_then (for_each (read_band s ps nyquist) [0..<3] (drc\<lparr>drc_emphasis_disabled := c_trunc m dis\<rparr>)) (\<lambda>drc'.
         Inr (drc_init m fm stack drc'))))"

definition lift_drc :: "drc_error + 'a \<Rightarrow> mod_fault + 'a" where
  "lift_drc r = (case r of Inl _ \<Rightarrow> Inl Effect_Fault | Inr x \<Rightarrow> Inr x)"

definition drc_run ::
  "('f :: {zero, one, plus, minus, uminus, times, inverse, ord}, 'd :: {zero, one, plus, minus, uminus, times, inverse, ord}) cmath
     \<Rightarrow> 'f fmath \<Rightarrow> 'f biquad \<times> 'f biquad \<Rightarrow> 'f drc_data \<Rightarrow> nat \<Rightarrow> 'f store \<Rightarrow> mod_fault + 'f drc_data \<times> 'f store" where
  "drc_run m fm stack e n s =
     and_then
       (case dd_drc e of
          Some drc \<Rightarrow> Inr drc
        | None \<Rightarrow> build_drc m fm stack s (dd_ports e) (dd_sample_rate e)) (\<lambda>drc.
     and_then (run_in_place (dd_ports e) n (\<lambda>l r. lift_drc (drc_process m fm drc (l, r) n)) s) (\<lambda>(drc', s').
     Inr (e\<lparr>dd_drc := Some drc'\<rparr>, s')))"

subsection \<open>The function table\<close>

definition builtin_run ::
  "('f :: {zero, one, plus, minus, uminus, times, inverse, ord}, 'd :: {zero, one, plus, minus, uminus, times, inverse, ord}) cmath
     \<Rightarrow> 'f fmath \<Rightarrow> 'f biquad \<times> 'f biquad \<Rightarrow> 'f builtin \<Rightarrow> nat \<Rightarrow> 'f store \<Rightarrow> mod_fault + 'f builtin \<times> 'f store" where
  "builtin_run m fm stack md n s =
     (case bm_kind md of
        Kind_Empty \<Rightarrow> Inr (md, s)
      | Kind_Invert_Lr \<Rightarrow> invert_lr_run md n s
      | Kind_Mix_Stereo \<Rightarrow> mix_stereo_run md n s
      | Kind_Eq \<Rightarrow>
          (case bm_data md of
             Data_Eq e \<Rightarrow> and_then (eq_run m e n s) (\<lambda>(e', s'). Inr (md\<lparr>bm_data := Data_Eq e'\<rparr>, s'))
           | _ \<Rightarrow> Inl No_Data)
      | Kind_Eq2 \<Rightarrow>
          (case bm_data md of
             Data_Eq2 e \<Rightarrow> and_then (eq2_run m e n s) (\<lambda>(e', s'). Inr (md\<lparr>bm_data := Data_Eq2 e'\<rparr>, s'))
           | _ \<Rightarrow> Inl No_Data)
      | Kind_Drc \<Rightarrow>
          (case bm_data md of
             Data_Drc e \<Rightarrow> and_then (drc_run m fm stack e n s) (\<lambda>(e', s'). Inr (md\<lparr>bm_data := Data_Drc e'\<rparr>, s'))
           | _ \<Rightarrow> Inl No_Data))"

lemmas builtin_run_defs = builtin_run_def invert_lr_run_def mix_stereo_run_def

text \<open>The library and the label of a plugin of a configuration are not NULL.\<close>

definition cras_dsp_module_load_builtin :: "'f plugin \<Rightarrow> 'f builtin option" where
  "cras_dsp_module_load_builtin plugin =
     (if pl_library plugin \<noteq> Some ''builtin'' then None
      else
        Some \<lparr>bm_kind =
                (if pl_label plugin = Some ''mix_stereo'' then Kind_Mix_Stereo
                 else if pl_label plugin = Some ''invert_lr'' then Kind_Invert_Lr
                 else if pl_label plugin = Some ''eq'' then Kind_Eq
                 else if pl_label plugin = Some ''eq2'' then Kind_Eq2
                 else if pl_label plugin = Some ''drc'' then Kind_Drc
                 else Kind_Empty),
              bm_data = Data_Null\<rparr>)"

definition builtin_ops ::
  "('f :: {zero, one, plus, minus, uminus, times, inverse, ord}, 'd :: {zero, one, plus, minus, uminus, times, inverse, ord}) cmath
     \<Rightarrow> 'f fmath \<Rightarrow> 'f biquad \<times> 'f biquad \<Rightarrow> ('f builtin, 'f) module_ops" where
  "builtin_ops m fm stack =
     \<lparr>mo_instantiate = builtin_instantiate, mo_connect_port = builtin_connect_port,
      mo_get_delay = builtin_get_delay m fm, mo_run = builtin_run m fm stack,
      mo_deinstantiate = builtin_deinstantiate, mo_get_properties = empty_get_properties,
      mo_load = cras_dsp_module_load_builtin\<rparr>"

text \<open>The locations the ports of a module are connected to.\<close>

definition builtin_conns :: "'f builtin \<Rightarrow> data_location set" where
  "builtin_conns md = (if bm_kind md = Kind_Empty then {} else {l. Some l \<in> set (data_ports (bm_data md))})"


subsection \<open>What a run writes\<close>

text \<open>Memory with the same buffer sizes in which only the buffers of \<open>B\<close> may differ.\<close>

definition touches :: "nat set \<Rightarrow> 'f list list \<Rightarrow> 'f list list \<Rightarrow> bool" where
  "touches B bufs bufs' \<longleftrightarrow> map length bufs' = map length bufs \<and> (\<forall>b. b \<notin> B \<longrightarrow> bufs' ! b = bufs ! b)"

lemma touches_refl [simp]: "touches B bufs bufs"
  by (simp add: touches_def)

lemma touches_trans: "touches B a b \<Longrightarrow> touches B b c \<Longrightarrow> touches B a c"
  by (simp add: touches_def)

lemma touches_length:
  assumes "touches B bufs bufs'"
  shows "length bufs' = length bufs" and "b < length bufs \<Longrightarrow> length (bufs' ! b) = length (bufs ! b)"
  using assms unfolding touches_def by (metis length_map, metis length_map nth_map)

lemma touches_update:
  assumes "b \<in> B" "b < length bufs \<Longrightarrow> length xs = length (bufs ! b)"
  shows "touches B bufs (bufs[b := xs])"
proof -
  have "map length (bufs[b := xs]) = map length bufs"
  proof (rule nth_equalityI)
    fix i
    assume "i < length (map length (bufs[b := xs]))"
    then show "map length (bufs[b := xs]) ! i = map length bufs ! i" using assms(2) by (cases "i = b") simp_all
  qed simp
  moreover have "bufs[b := xs] ! c = bufs ! c" if "c \<notin> B" for c
    using assms(1) that by (metis nth_list_update_neq)
  ultimately show ?thesis by (simp add: touches_def)
qed

lemma touches_set_sample: "b \<in> B \<Longrightarrow> touches B bufs (set_sample b i x bufs)"
  unfolding set_sample_def by (rule touches_update) simp_all

lemma touches_copy:
  assumes "dst \<in> B" "n \<le> length (bufs ! src)" "n \<le> length (bufs ! dst)"
  shows "touches B bufs (copy_buffer src dst n bufs)"
  unfolding copy_buffer_def using assms by (auto intro!: touches_update)

lemma touches_fold: "(\<And>i bufs. touches B bufs (f i bufs)) \<Longrightarrow> touches B bufs (fold f is bufs)"
  by (induction "is" arbitrary: bufs) (auto intro: touches_trans)

lemma audio_buffer_Inr:
  assumes "audio_buffer s ps i n = Inr b"
  shows "Some (Loc_Buffer b) \<in> set ps" "b < length (st_buffers s)" "n \<le> length (st_buffers s ! b)"
  using assms
  by (auto simp: audio_buffer_def port_at_def and_then_Inr in_set_conv_nth split: if_splits option.splits data_location.splits)

text \<open>The buffers that ports are connected to.\<close>

definition port_buffers :: "data_location option list \<Rightarrow> nat set" where
  "port_buffers ps = {b. Some (Loc_Buffer b) \<in> set ps}"

lemma run_four_ports_touches:
  assumes "run_four_ports step ps n s = Inr s'"
    and "\<And>p0 p1 p2 p3 i bufs. touches {p2, p3} bufs (step p0 p1 p2 p3 i bufs)"
  shows "touches (port_buffers ps) (st_buffers s) (st_buffers s') \<and> st_controls s' = st_controls s"
proof (cases "n = 0")
  case True
  with assms(1) show ?thesis by (simp add: run_four_ports_def)
next
  case False
  with assms(1) obtain p0 p1 p2 p3 where p: "audio_buffer s ps 2 n = Inr p2" "audio_buffer s ps 3 n = Inr p3"
      "s' = s\<lparr>st_buffers := fold (step p0 p1 p2 p3) [0..<n] (st_buffers s)\<rparr>"
    by (auto simp: run_four_ports_def and_then_Inr)
  have "touches {p2, p3} (st_buffers s) (st_buffers s')"
    unfolding p(3) using touches_fold [OF assms(2)] by simp
  moreover have "{p2, p3} \<subseteq> port_buffers ps" using audio_buffer_Inr(1) [OF p(1)] audio_buffer_Inr(1) [OF p(2)] by (simp add: port_buffers_def)
  ultimately have "touches (port_buffers ps) (st_buffers s) (st_buffers s')" by (auto simp: touches_def)
  with p(3) show ?thesis by simp
qed

lemma steps_touch:
  "touches {p2, p3} bufs (invert_lr_step p0 p1 p2 p3 i bufs)"
  "touches {p2, p3} mem (mix_stereo_step p0 p1 p2 p3 i mem)"
  unfolding invert_lr_step_def mix_stereo_step_def Let_def
  by (rule touches_trans [OF touches_set_sample touches_set_sample]; simp)+

lemma simple_run_touches:
  "run_four_ports invert_lr_step ps n s = Inr s' \<Longrightarrow>
     touches (port_buffers ps) (st_buffers s) (st_buffers s') \<and> st_controls s' = st_controls s"
  "run_four_ports mix_stereo_step ps n u = Inr u' \<Longrightarrow>
     touches (port_buffers ps) (st_buffers u) (st_buffers u') \<and> st_controls u' = st_controls u"
  using run_four_ports_touches [of invert_lr_step ps n s s', OF _ steps_touch(1)]
    run_four_ports_touches [of mix_stereo_step ps n u u', OF _ steps_touch(2)] by blast+

lemma length_pair_run: "length (snd (pair_run q r xs)) = length xs"
  by (induction q r xs rule: pair_run.induct) (auto split: prod.split)

lemma length_eq_pairs: "length (snd (eq_pairs qs xs)) = length xs"
proof (induction qs xs rule: eq_pairs.induct)
  case (3 q r qs data)
  obtain q' r' d where p: "pair_run q r data = ((q', r'), d)" by (metis surj_pair)
  have "length (snd (eq_pairs qs d)) = length d" using "3.IH" p by simp
  then show ?case using p length_pair_run [of q r data] by (simp add: split_beta)
qed (auto simp: split_beta)

lemma length_eq_process: "length (snd (eq_process eq data n)) = length data"
  using length_eq_pairs [of "take (eq_n eq) (eq_biquad eq)" "take n data"]
  by (simp add: eq_process_def on_prefix_def split_beta)

lemma eq_run_touches:
  assumes "eq_run m e n s = Inr (e', s')"
  shows "touches (port_buffers (ed_ports e)) (st_buffers s) (st_buffers s') \<and> st_controls s' = st_controls s \<and>
    ed_ports e' = ed_ports e"
proof (cases "n = 0")
  case True
  with assms show ?thesis by (auto simp: eq_run_def and_then_Inr)
next
  case False
  define res where "res eq p0 p1 = eq_process eq (copy_buffer p0 p1 n (st_buffers s) ! p1) n" for eq p0 p1
  obtain eq p0 p1 where p: "audio_buffer s (ed_ports e) 0 n = Inr p0" "audio_buffer s (ed_ports e) 1 n = Inr p1"
      "e' = e\<lparr>ed_eq := Some (fst (res eq p0 p1))\<rparr>"
      "s' = s\<lparr>st_buffers := (copy_buffer p0 p1 n (st_buffers s))[p1 := snd (res eq p0 p1)]\<rparr>"
    using assms False by (auto simp: eq_run_def and_then_Inr Let_def split_beta res_def)
  have B: "p1 \<in> port_buffers (ed_ports e)" using audio_buffer_Inr(1) [OF p(2)] by (simp add: port_buffers_def)
  have "touches (port_buffers (ed_ports e)) (st_buffers s) (copy_buffer p0 p1 n (st_buffers s))"
    by (rule touches_copy [OF B]) (use audio_buffer_Inr [OF p(1)] audio_buffer_Inr [OF p(2)] in simp_all)
  moreover have "touches (port_buffers (ed_ports e)) (copy_buffer p0 p1 n (st_buffers s)) ((copy_buffer p0 p1 n (st_buffers s))[p1 := snd (res eq p0 p1)])"
    by (rule touches_update [OF B]) (simp add: res_def length_eq_process)
  ultimately show ?thesis using touches_trans by (auto simp: p(3,4))
qed

lemma run_in_place_touches:
  assumes "run_in_place ps n effect s = Inr (x, s')"
    and "\<And>l r x l' r'. n \<le> length l \<Longrightarrow> n \<le> length r \<Longrightarrow> effect l r = Inr (x, l', r') \<Longrightarrow> length l' = length l \<and> length r' = length r"
  shows "touches (port_buffers ps) (st_buffers s) (st_buffers s') \<and> st_controls s' = st_controls s"
proof (cases "n = 0")
  case True
  with assms(1) show ?thesis by (auto simp: run_in_place_def and_then_Inr)
next
  case False
  define cp where "cp p0 p1 p2 p3 = copy_buffer p1 p3 n (copy_buffer p0 p2 n (st_buffers s))" for p0 p1 p2 p3
  obtain p0 p1 p2 p3 l r where p: "audio_buffer s ps 0 n = Inr p0" "audio_buffer s ps 1 n = Inr p1"
      "audio_buffer s ps 2 n = Inr p2" "audio_buffer s ps 3 n = Inr p3" "p2 \<noteq> p3"
      "effect (cp p0 p1 p2 p3 ! p2) (cp p0 p1 p2 p3 ! p3) = Inr (x, l, r)"
      "s' = s\<lparr>st_buffers := (cp p0 p1 p2 p3)[p2 := l, p3 := r]\<rparr>"
    using assms(1) False by (auto simp: run_in_place_def and_then_Inr Let_def cp_def split: if_splits)
  let ?B = "port_buffers ps" and ?first = "copy_buffer p0 p2 n (st_buffers s)" and ?c = "cp p0 p1 p2 p3"
  note ab = audio_buffer_Inr [OF p(1)] audio_buffer_Inr [OF p(2)] audio_buffer_Inr [OF p(3)] audio_buffer_Inr [OF p(4)]
  have B: "p2 \<in> ?B" "p3 \<in> ?B" using ab(7,10) by (simp_all add: port_buffers_def)
  have t0: "touches ?B (st_buffers s) ?first" by (rule touches_copy [OF B(1)]) (use ab in simp_all)
  have tc: "touches ?B ?first ?c" unfolding cp_def
    by (rule touches_copy [OF B(2)]) (use ab touches_length(2) [OF t0] in simp_all)
  have t1: "touches ?B (st_buffers s) ?c" by (rule touches_trans [OF t0 tc])
  have "length l = length (?c ! p2) \<and> length r = length (?c ! p3)"
    by (rule assms(2) [OF _ _ p(6)]) (use ab touches_length(2) [OF t1] in simp_all)
  then have "touches ?B ?c (?c[p2 := l, p3 := r])"
    using touches_trans [OF touches_update [OF B(1), of ?c l] touches_update [OF B(2), of "?c[p2 := l]" r]] p(5) by simp
  with t1 show ?thesis using touches_trans by (auto simp: p(7))
qed

lemma eq2_run_touches:
  assumes "eq2_run m e n s = Inr (e', s')"
  shows "touches (port_buffers (e2d_ports e)) (st_buffers s) (st_buffers s') \<and> st_controls s' = st_controls s \<and>
    e2d_ports e' = e2d_ports e"
proof -
  obtain eq2 x where r: "run_in_place (e2d_ports e) n (\<lambda>l r. Inr (eq2_process eq2 l r n)) s = Inr (x, s')" "e' = e\<lparr>e2d_eq2 := Some x\<rparr>"
    using assms by (auto simp: eq2_run_def and_then_Inr)
  have "touches (port_buffers (e2d_ports e)) (st_buffers s) (st_buffers s') \<and> st_controls s' = st_controls s"
    by (rule run_in_place_touches [OF r(1)]) (simp, rule eq2_process_lengths)
  with r(2) show ?thesis by simp
qed

lemma drc_run_touches:
  assumes "drc_run m fm stack e n s = Inr (e', s')"
  shows "touches (port_buffers (dd_ports e)) (st_buffers s) (st_buffers s') \<and> st_controls s' = st_controls s \<and>
    dd_ports e' = dd_ports e"
proof -
  obtain drc x where r: "run_in_place (dd_ports e) n (\<lambda>l r. lift_drc (drc_process m fm drc (l, r) n)) s = Inr (x, s')"
      "e' = e\<lparr>dd_drc := Some x\<rparr>"
    using assms by (auto simp: drc_run_def and_then_Inr)
  have "length l' = length l \<and> length r' = length r" if "lift_drc (drc_process m fm drc (l, r) n) = Inr (x, l', r')" for l r x l' r'
    by (rule drc_process_lengths [of m fm drc l r n x]) (use that in \<open>simp add: lift_drc_def split: sum.splits\<close>)
  with run_in_place_touches [OF r(1)] r(2) show ?thesis by auto
qed

lemma builtin_run_touches:
  assumes "builtin_run m fm stack md n s = Inr (md', s')"
  shows "builtin_conns md' = builtin_conns md \<and> st_controls s' = st_controls s \<and>
    touches {b. Loc_Buffer b \<in> builtin_conns md} (st_buffers s) (st_buffers s')"
proof (cases "bm_kind md = Kind_Empty")
  case True
  with assms show ?thesis by (simp add: builtin_run_defs)
next
  case False
  have pb: "{b. Loc_Buffer b \<in> builtin_conns md} = port_buffers (data_ports (bm_data md))"
    using False by (simp add: builtin_conns_def port_buffers_def)
  have "data_ports (bm_data md') = data_ports (bm_data md) \<and> bm_kind md' = bm_kind md \<and> st_controls s' = st_controls s \<and>
      touches (port_buffers (data_ports (bm_data md))) (st_buffers s) (st_buffers s')"
    using assms False
    by (auto simp: builtin_run_defs and_then_Inr data_ports_def split: module_kind.splits module_data.splits
        dest: simple_run_touches eq_run_touches eq2_run_touches drc_run_touches)
  then show ?thesis unfolding pb by (auto simp: builtin_conns_def)
qed

text \<open>The built-in modules keep the contract of modules.\<close>

interpretation builtin: dsp_modules "builtin_ops m fm stack" builtin_conns
  for m :: "('f :: {zero, one, plus, minus, uminus, times, inverse, ord}, 'd :: {zero, one, plus, minus, uminus, times, inverse, ord}) cmath"
    and fm stack
proof
  fix md md' :: "'f builtin" and p l
  assume c: "mo_connect_port (builtin_ops m fm stack) md p l = Inr md'"
  have set_port: "set_port ps p l = Inr ps' \<Longrightarrow> Some x \<in> set ps' \<Longrightarrow> x = l \<or> Some x \<in> set ps" for ps ps' x
    by (auto simp: set_port_def split: if_splits dest: set_update_subset_insert [THEN subsetD])
  show "builtin_conns md' \<subseteq> insert l (builtin_conns md)"
  proof
    fix x
    assume x: "x \<in> builtin_conns md'"
    show "x \<in> insert l (builtin_conns md)"
      using c x set_port [of "data_ports (bm_data md)" "data_ports (bm_data md')" x]
      by (auto simp: builtin_ops_def connect_port_defs builtin_conns_def data_ports_def and_then_Inr
          split: if_splits module_data.splits module_kind.splits)
  qed
next
  fix md md' :: "'f builtin" and rate
  assume "mo_instantiate (builtin_ops m fm stack) md rate = (0, md')"
  then show "builtin_conns md' = {}"
    by (auto simp: builtin_ops_def instantiate_defs builtin_conns_def data_ports_def split: module_kind.splits)
next
  fix md md' :: "'f builtin" and n and s s' :: "'f store" and b
  assume r: "mo_run (builtin_ops m fm stack) md n s = Inr (md', s')"
  then have t: "builtin_conns md' = builtin_conns md" "st_controls s' = st_controls s"
      "touches {b. Loc_Buffer b \<in> builtin_conns md} (st_buffers s) (st_buffers s')"
    using builtin_run_touches [of m fm stack md n s md' s'] by (simp_all add: builtin_ops_def)
  show "builtin_conns md' = builtin_conns md" by (rule t(1))
  show "same_shape s s'" using t(2,3) by (simp add: same_shape_def touches_def)
  show "st_buffers s' ! b = st_buffers s ! b" if "Loc_Buffer b \<notin> builtin_conns md" using t(3) that by (simp add: touches_def)
qed

subsection \<open>The simple modules on distinct outputs\<close>

definition stereo_result :: "nat \<Rightarrow> nat \<Rightarrow> nat \<Rightarrow> 'f list \<Rightarrow> 'f list \<Rightarrow> 'f list list \<Rightarrow> 'f list list" where
  "stereo_result p2 p3 n l r bufs =
     bufs[p2 := take n l @ drop n (bufs ! p2), p3 := take n r @ drop n (bufs ! p3)]"

text \<open>What the first \<open>k\<close> samples of a loop leave unread is still as it was.\<close>

lemma stereo_result_unread:
  assumes "k < n" "p2 \<noteq> p3" "p2 < length bufs" "p3 < length bufs" "n \<le> length l" "n \<le> length r"
    "n \<le> length (bufs ! p2)" "n \<le> length (bufs ! p3)"
  shows "stereo_result p2 p3 k l r bufs ! p ! k = bufs ! p ! k"
proof -
  have "(take k xs @ drop k (bufs ! b)) ! k = bufs ! b ! k" if "n \<le> length xs" "n \<le> length (bufs ! b)" for xs b
    using that assms(1) by (simp add: nth_append)
  with assms show ?thesis by (auto simp: stereo_result_def nth_list_update)
qed

lemma take_Suc_update:
  "k < length xs \<Longrightarrow> k < length ys \<Longrightarrow> (take k xs @ drop k ys)[k := xs ! k] = take (Suc k) xs @ drop (Suc k) ys"
  by (simp add: list_update_append take_Suc_conv_app_nth Cons_nth_drop_Suc [symmetric])

lemma stereo_result_step:
  assumes "k < n" "p2 \<noteq> p3" "p2 < length bufs" "p3 < length bufs" "n \<le> length l" "n \<le> length r"
    "n \<le> length (bufs ! p2)" "n \<le> length (bufs ! p3)"
  shows "set_sample p3 k (r ! k) (set_sample p2 k (l ! k) (stereo_result p2 p3 k l r bufs)) =
    stereo_result p2 p3 (Suc k) l r bufs"
  using assms take_Suc_update [of k l "bufs ! p2"] take_Suc_update [of k r "bufs ! p3"]
  by (simp add: stereo_result_def set_sample_def list_update_swap [of p2 p3])

lemma fold_stereo:
  assumes inv: "\<And>k. k < n \<Longrightarrow> step k (stereo_result p2 p3 k l r bufs) =
      set_sample p3 k (r ! k) (set_sample p2 k (l ! k) (stereo_result p2 p3 k l r bufs))"
    and b: "p2 \<noteq> p3" "p2 < length bufs" "p3 < length bufs" "n \<le> length l" "n \<le> length r"
      "n \<le> length (bufs ! p2)" "n \<le> length (bufs ! p3)"
  shows "fold step [0..<n] bufs = stereo_result p2 p3 n l r bufs"
proof -
  have "fold step [0..<k] bufs = stereo_result p2 p3 k l r bufs" if "k \<le> n" for k
    using that
  proof (induction k)
    case 0
    show ?case by (simp add: stereo_result_def)
  next
    case (Suc k)
    then show ?case using inv [of k] stereo_result_step [OF _ b, of k] by simp
  qed
  then show ?thesis by simp
qed

definition all_ports :: "'f store \<Rightarrow> data_location option list \<Rightarrow> nat \<Rightarrow> nat \<Rightarrow> nat \<Rightarrow> nat \<Rightarrow> nat \<Rightarrow> bool" where
  "all_ports s ps n p0 p1 p2 p3 \<longleftrightarrow> list_all (\<lambda>(i, b). audio_buffer s ps i n = Inr b) [(0, p0), (1, p1), (2, p2), (3, p3)]"

lemma all_ports_range:
  assumes "all_ports s ps n p0 p1 p2 p3" "p \<in> {p0, p1, p2, p3}"
  shows "p < length (st_buffers s) \<and> n \<le> length (st_buffers s ! p)"
  using assms audio_buffer_Inr(2,3) by (auto simp: all_ports_def)

lemma run_four_ports_fold:
  assumes "all_ports s ps n p0 p1 p2 p3"
  shows "run_four_ports step ps n s = Inr (s\<lparr>st_buffers := fold (step p0 p1 p2 p3) [0..<n] (st_buffers s)\<rparr>)"
  using assms by (cases "n = 0") (simp_all add: run_four_ports_def all_ports_def and_then_def)

lemma invert_lr_fold:
  assumes ports: "all_ports s ps n p0 p1 p2 p3" and out: "p2 \<noteq> p3" "p2 \<noteq> p1"
  shows "fold (invert_lr_step p0 p1 p2 p3) [0..<n] (st_buffers s) =
    stereo_result p2 p3 n (map uminus (st_buffers s ! p0)) (st_buffers s ! p1) (st_buffers s)"
    (is "_ = stereo_result p2 p3 n ?l ?r ?b")
proof (rule fold_stereo)
  note range = all_ports_range [OF ports]
  show "p2 < length ?b" "p3 < length ?b" "n \<le> length ?l" "n \<le> length ?r" "n \<le> length (?b ! p2)" "n \<le> length (?b ! p3)"
    using range by simp_all
  fix k
  assume k: "k < n"
  have "stereo_result p2 p3 k ?l ?r ?b ! p ! k = ?b ! p ! k" for p
    by (rule stereo_result_unread [OF k out(1)]) (use range in simp_all)
  then show "invert_lr_step p0 p1 p2 p3 k (stereo_result p2 p3 k ?l ?r ?b) =
      set_sample p3 k (?r ! k) (set_sample p2 k (?l ! k) (stereo_result p2 p3 k ?l ?r ?b))"
    using k range [of p0] out(2) by (simp add: invert_lr_step_def Let_def set_sample_def)
qed (rule out(1))

lemma mix_stereo_fold:
  assumes ports: "all_ports s ps n p0 p1 p2 p3" and out: "p2 \<noteq> p3"
  shows "fold (mix_stereo_step p0 p1 p2 p3) [0..<n] (st_buffers s) =
    stereo_result p2 p3 n (map2 (+) (st_buffers s ! p0) (st_buffers s ! p1)) (map2 (+) (st_buffers s ! p0) (st_buffers s ! p1))
      (st_buffers s)"
    (is "_ = stereo_result p2 p3 n ?x ?y ?b")
proof (rule fold_stereo)
  note range = all_ports_range [OF ports]
  show "p2 < length ?b" "p3 < length ?b" "n \<le> length ?x" "n \<le> length ?x" "n \<le> length (?b ! p2)" "n \<le> length (?b ! p3)"
    using range by simp_all
  fix k
  assume k: "k < n"
  have "stereo_result p2 p3 k ?x ?x ?b ! p ! k = ?b ! p ! k" for p
    by (rule stereo_result_unread [OF k out]) (use range in simp_all)
  then show "mix_stereo_step p0 p1 p2 p3 k (stereo_result p2 p3 k ?x ?x ?b) =
      set_sample p3 k (?x ! k) (set_sample p2 k (?x ! k) (stereo_result p2 p3 k ?x ?x ?b))"
    using k range [of p0] range [of p1] by (simp add: mix_stereo_step_def Let_def)
qed (rule out)



subsection \<open>Pipelines of built-in modules\<close>


text \<open>A stereo plugin whose left input is the right output of the source, and the other way round.\<close>

definition crossed_port :: "port_direction \<Rightarrow> nat \<Rightarrow> rat port" where
  "crossed_port dir f = \<lparr>pt_direction = dir, pt_type = PORT_AUDIO, pt_flow_id = Some f, pt_init_value = 0\<rparr>"

definition crossed_plugin :: "string \<Rightarrow> string \<Rightarrow> rat port list \<Rightarrow> rat plugin" where
  "crossed_plugin title label ports =
     \<lparr>pl_title = title, pl_library = Some ''builtin'', pl_label = Some label, pl_purpose = Some ''playback'',
      pl_disable_expr = None, pl_ports = ports\<rparr>"

definition crossed_ini :: "rat ini" where
  "crossed_ini =
     \<lparr>ini_dict = dict_of [],
      ini_plugins =
        [crossed_plugin ''in'' ''source'' [crossed_port PORT_OUTPUT 0, crossed_port PORT_OUTPUT 1],
         crossed_plugin ''fx'' ''invert_lr''
           [crossed_port PORT_INPUT 1, crossed_port PORT_INPUT 0, crossed_port PORT_OUTPUT 2, crossed_port PORT_OUTPUT 3],
         crossed_plugin ''out'' ''sink'' [crossed_port PORT_INPUT 2, crossed_port PORT_INPUT 3]],
      ini_flows = [shared_flow ''{l}'' 0 0 1 1, shared_flow ''{r}'' 0 1 1 0, shared_flow ''{x}'' 1 2 2 0, shared_flow ''{y}'' 1 3 2 1]\<rparr>"

definition crossed_instances :: "(rat, rat builtin) dsp_instance list" where
  "crossed_instances =
     [(new_instance 0)\<lparr>in_output_audio_ports := [new_audio_port 0 0 (Some (1, 1)), new_audio_port 0 1 (Some (1, 0))]\<rparr>,
      (new_instance 1)\<lparr>in_input_audio_ports := [new_audio_port 1 0 (Some (0, 1)), new_audio_port 1 1 (Some (0, 0))],
         in_output_audio_ports := [new_audio_port 1 2 (Some (2, 0)), new_audio_port 1 3 (Some (2, 1))]\<rparr>,
      (new_instance 2)\<lparr>in_input_audio_ports := [new_audio_port 2 0 (Some (1, 0)), new_audio_port 2 1 (Some (1, 1))]\<rparr>]"

lemma crossed_sort:
  "topological_sort 4 crossed_ini env (replicate 3 False, []) 2 = Inr (Some (replicate 3 True, crossed_instances))"
  by (simp add: crossed_ini_def crossed_plugin_def crossed_port_def shared_flow_def crossed_instances_def
      eval_nat_numeral is_disabled_def build_port_def find_origin_port.simps find_instance_by_plugin_def
      find_output_audio_port_def new_instance_def new_audio_port_def upd_last_def set_audio_peer_def Let_def)

lemma crossed_enabled:
  "find_enabled_builtin_plugin crossed_ini ''source'' ''playback'' env = Some 0"
  "find_enabled_builtin_plugin crossed_ini ''sink'' ''playback'' env = Some 2"
  by (simp_all add: find_enabled_builtin_plugin_def crossed_ini_def crossed_plugin_def builtin_match_def
      is_disabled_def)

lemma crossed_created:
  "\<exists>p. cras_dsp_pipeline_create crossed_ini env ''playback'' = Inr (Some p) \<and> pp_instances p = crossed_instances \<and>
     pp_ini p = crossed_ini"
proof -
  have n: "length (ini_plugins crossed_ini) = 3" "Suc 3 = 4" by (simp_all add: crossed_ini_def)
  have "find_instance_by_plugin crossed_instances 0 = Some 0" "find_instance_by_plugin crossed_instances 2 = Some 2"
    by (simp_all add: crossed_instances_def find_instance_by_plugin_def new_instance_def)
  moreover have "\<not> length (in_output_audio_ports (crossed_instances ! 0)) < length (in_input_audio_ports (crossed_instances ! 2))"
    by (simp add: crossed_instances_def new_instance_def)
  ultimately show ?thesis
    unfolding cras_dsp_pipeline_create_def crossed_enabled n
    by (simp add: crossed_sort Let_def)
qed

lemma crossed_wired: "wired crossed_instances"
  by (simp add: wired_def crossed_instances_def upt_rec new_audio_port_def new_instance_def feeds_before_def)

text \<open>The instances after loading, with their buffers, and when they are instantiated.\<close>

definition crossed_loaded :: "(rat, rat builtin) dsp_instance list" where
  "crossed_loaded =
     [(crossed_instances ! 0)\<lparr>in_module := Some \<lparr>bm_kind = Kind_Empty, bm_data = Data_Null\<rparr>,
        in_output_audio_ports := [(new_audio_port 0 0 (Some (1, 1)))\<lparr>ap_buf_index := 0\<rparr>, (new_audio_port 0 1 (Some (1, 0)))\<lparr>ap_buf_index := 1\<rparr>]\<rparr>,
      (crossed_instances ! 1)\<lparr>in_module := Some \<lparr>bm_kind = Kind_Invert_Lr, bm_data = Data_Null\<rparr>,
        in_input_audio_ports := [(new_audio_port 1 0 (Some (0, 1)))\<lparr>ap_buf_index := 1\<rparr>, (new_audio_port 1 1 (Some (0, 0)))\<lparr>ap_buf_index := 0\<rparr>],
        in_output_audio_ports := [(new_audio_port 1 2 (Some (2, 0)))\<lparr>ap_buf_index := 0\<rparr>, (new_audio_port 1 3 (Some (2, 1)))\<lparr>ap_buf_index := 1\<rparr>]\<rparr>,
      (crossed_instances ! 2)\<lparr>in_module := Some \<lparr>bm_kind = Kind_Empty, bm_data = Data_Null\<rparr>,
        in_input_audio_ports := [(new_audio_port 2 0 (Some (1, 0)))\<lparr>ap_buf_index := 0\<rparr>, (new_audio_port 2 1 (Some (1, 1)))\<lparr>ap_buf_index := 1\<rparr>]\<rparr>]"

definition crossed_ready :: "(rat, rat builtin) dsp_instance list" where
  "crossed_ready =
     [(crossed_loaded ! 0)\<lparr>in_instantiated := True\<rparr>,
      (crossed_loaded ! 1)\<lparr>in_instantiated := True,
        in_module := Some \<lparr>bm_kind = Kind_Invert_Lr, bm_data = Data_Ports (map (Some \<circ> Loc_Buffer) [1, 0, 0, 1])\<rparr>\<rparr>,
      (crossed_loaded ! 2)\<lparr>in_instantiated := True\<rparr>]"

abbreviation rat_ops :: "(rat builtin, rat) module_ops" where
  "rat_ops \<equiv> builtin_ops rat_math rat_fmath (zero_biquad, zero_biquad)"

lemma crossed_load_instances:
  "load_instances rat_ops crossed_ini crossed_instances =
     (0, map2 (\<lambda>kind a. a\<lparr>in_module := Some \<lparr>bm_kind = kind, bm_data = Data_Null\<rparr>\<rparr>)
           [Kind_Empty, Kind_Invert_Lr, Kind_Empty] crossed_instances)"
  by (simp add: crossed_instances_def crossed_ini_def crossed_plugin_def load_module_def builtin_ops_def
      cras_dsp_module_load_builtin_def empty_get_properties_def new_instance_def)

lemma crossed_load:
  assumes "pp_instances p = crossed_instances" "pp_ini p = crossed_ini"
  shows "cras_dsp_pipeline_load rat_ops (\<lambda>_. True) 0 p =
    Inr (0, p\<lparr>pp_peak_buf := 2, pp_buffers := replicate 2 (replicate DSP_BUFFER_SIZE 0), pp_instances := crossed_loaded\<rparr>)"
proof -
  define insts where "insts = map2 (\<lambda>kind a. a\<lparr>in_module := Some \<lparr>bm_kind = kind, bm_data = Data_Null\<rparr>\<rparr>)
    [Kind_Empty, Kind_Invert_Lr, Kind_Empty] crossed_instances"
  have c: "count_buffers insts = 2"
    by (simp add: insts_def count_buffers_def count_step_def crossed_instances_def new_instance_def inplace_broken_def)
  have a: "for_each assign_instance [0..<length insts] (insts, replicate 2 False) = Inr (crossed_loaded, [False, False])"
    by (simp add: insts_def crossed_instances_def crossed_loaded_def eval_nat_numeral upt_rec assign_instance_def peer_buffer_def next_free_def
        new_instance_def new_audio_port_def inplace_broken_def)
  show ?thesis
    unfolding cras_dsp_pipeline_load_def assms crossed_load_instances insts_def [symmetric]
    by (simp add: allocate_buffers_def Let_def c a)
qed

lemma crossed_instantiate:
  assumes "pp_instances p = crossed_loaded" "length (pp_buffers p) = 2"
  shows "cras_dsp_pipeline_instantiate rat_ops p 48000 = Inr (0, p\<lparr>pp_sample_rate := 48000, pp_instances := crossed_ready\<rparr>)"
  unfolding cras_dsp_pipeline_instantiate_def assms
  by (simp add: crossed_loaded_def crossed_ready_def crossed_instances_def eval_nat_numeral upt_rec the_module_def
      builtin_ops_def instantiate_defs connect_port_defs builtin_get_delay_def empty_get_delay_def set_port_def
      connect_instance_def connections_def connect_one_def lift_fault_def calculate_audio_delay_def delay_instance_def
      find_instance_by_plugin_def new_instance_def new_audio_port_def)

lemma crossed_run:
  assumes "pp_instances p = crossed_ready" "pp_buffers p = [[x], [y]]"
  shows "cras_dsp_pipeline_run rat_ops p 1 = Inr (p\<lparr>pp_buffers := [[- y], [- y]]\<rparr>)"
    and "run_prefix rat_ops 1 1 p = Inr p"
  unfolding cras_dsp_pipeline_run_def run_prefix_def
  by (simp_all add: assms run_instance_def the_module_def crossed_loaded_def crossed_ready_def crossed_instances_def
      eval_nat_numeral upt_rec builtin_ops_def builtin_run_defs run_four_ports_def audio_buffer_def port_at_def
      lift_fault_def store_of_def put_store_def invert_lr_step_def set_sample_def new_instance_def new_audio_port_def)


text \<open>
  A stereo plugin whose inputs are the source's outputs the other way round is created, loaded,
  instantiated and run without an error. As no built-in module declares that it cannot work in
  place, its outputs get the buffers of its inputs, crosswise, and \<^verbatim>\<open>invert_lr\<close> overwrites its right
  input before it reads it: both outputs carry the negated left input, for all samples \<open>x\<close> and \<open>y\<close>
  of the source, and the other channel is lost.
\<close>

theorem crossed_buffers_lose_a_channel:
  "\<exists>p p1 p2 :: (rat, rat builtin) pipeline.
     cras_dsp_pipeline_create crossed_ini CRAS_EXPR_ENV_INIT ''playback'' = Inr (Some p) \<and>
     cras_dsp_pipeline_load rat_ops (\<lambda>_. True) 0 p = Inr (0, p1) \<and>
     cras_dsp_pipeline_instantiate rat_ops p1 48000 = Inr (0, p2) \<and>
     map ap_buf_index (in_input_audio_ports (pp_instances p2 ! 1)) = [1, 0] \<and>
     map ap_buf_index (in_output_audio_ports (pp_instances p2 ! 1)) = [0, 1] \<and>
     (\<forall>x y. \<exists>p3. cras_dsp_pipeline_run rat_ops (p2\<lparr>pp_buffers := [[x], [y]]\<rparr>) 1 = Inr p3 \<and>
        pp_buffers p3 = [[- y], [- y]])"
proof -
  obtain p :: "(rat, rat builtin) pipeline" where
    p: "cras_dsp_pipeline_create crossed_ini CRAS_EXPR_ENV_INIT ''playback'' = Inr (Some p)"
      "pp_instances p = crossed_instances" "pp_ini p = crossed_ini" using crossed_created by blast
  let ?p1 = "p\<lparr>pp_peak_buf := 2, pp_buffers := replicate 2 (replicate DSP_BUFFER_SIZE 0), pp_instances := crossed_loaded\<rparr>"
  let ?p2 = "?p1\<lparr>pp_sample_rate := 48000, pp_instances := crossed_ready\<rparr>"
  have i: "cras_dsp_pipeline_instantiate rat_ops ?p1 48000 = Inr (0, ?p2)" by (rule crossed_instantiate) simp_all
  have r: "\<exists>p3. cras_dsp_pipeline_run rat_ops (?p2\<lparr>pp_buffers := [[x], [y]]\<rparr>) 1 = Inr p3 \<and> pp_buffers p3 = [[- y], [- y]]" for x y
    using crossed_run(1) [of "?p2\<lparr>pp_buffers := [[x], [y]]\<rparr>" x y] by simp
  have b: "map ap_buf_index (in_input_audio_ports (pp_instances ?p2 ! 1)) = [1, 0]"
      "map ap_buf_index (in_output_audio_ports (pp_instances ?p2 ! 1)) = [0, 1]"
    by (simp_all add: crossed_ready_def crossed_loaded_def crossed_instances_def)
  show ?thesis
    by (rule exI [of _ p], rule exI [of _ ?p1], rule exI [of _ ?p2])
       (intro conjI allI; rule p(1) crossed_load [OF p(2,3)] i b r)
qed

end
