(* ===== verification/Dsp_Context.thy ===== *)
theory Dsp_Context
  imports Dsp_Builtin
begin

text \<open>
  The DSP contexts of \<^verbatim>\<open>audio/hal/cras_dsp.c\<close>: the configuration that is loaded, the list of contexts,
  and the pipeline each context holds. A pipeline points into the configuration it was created
  from, so configurations carry an address, and the ones that are allocated are recorded. The
  allocations whose results the code does not check are taken to succeed.
\<close>

subsection \<open>State\<close>

datatype name_ptr = Name_Null | Name_Ok string | Name_Freed

datatype dsp_fault =
  Pipe_Fault pipe_fault | Run_Fault run_fault | Ini_Fault ini_fault | Dict_Fault dict_error
  | Freed_Ini | Freed_Name | Null_Name | No_Context | Null_Pipeline

text \<open>What the code runs on: the mathematics, the stack contents, the allocator, \<^verbatim>\<open>strtof\<close>.\<close>

record ('f, 'd) dsp_world =
  w_math :: "('f, 'd) cmath"
  w_fmath :: "'f fmath"
  w_stack :: "'f biquad \<times> 'f biquad"
  w_alloc :: allocator
  w_calloc :: bool
  w_strtof :: "string \<Rightarrow> 'f"
  w_below :: char

text \<open>A pipeline with the address of the configuration it points into.\<close>

record 'f dsp_context =
  cx_id :: nat
  cx_pipeline :: "(nat \<times> ('f, 'f builtin) pipeline) option"
  cx_env :: cras_expr_env
  cx_sample_rate :: int
  cx_purpose :: string

record 'f dsp_state =
  ds_filename :: name_ptr
  ds_ini :: "(nat \<times> 'f ini) option"
  ds_contexts :: "'f dsp_context list"
  ds_live :: "nat list"
  ds_next :: nat

definition dsp_start :: "'f dsp_state" where
  "dsp_start = \<lparr>ds_filename = Name_Null, ds_ini = None, ds_contexts = [], ds_live = [], ds_next = 0\<rparr>"

definition lift_to :: "('a \<Rightarrow> 'b) \<Rightarrow> 'a + 'c \<Rightarrow> 'b + 'c" where
  "lift_to f r = (case r of Inl e \<Rightarrow> Inl (f e) | Inr x \<Rightarrow> Inr x)"

lemma lift_to_Inr [simp]: "lift_to f r = Inr x \<longleftrightarrow> r = Inr x"
  by (simp add: lift_to_def split: sum.split)

definition world_ops ::
  "('f :: {zero, one, plus, minus, uminus, times, inverse, ord}, 'd :: {zero, one, plus, minus, uminus, times, inverse, ord}) dsp_world
     \<Rightarrow> ('f builtin, 'f) module_ops" where
  "world_ops w = builtin_ops (w_math w) (w_fmath w) (w_stack w)"

subsection \<open>Operations\<close>

definition initialize_environment :: "cras_expr_env \<Rightarrow> cras_expr_env" where
  "initialize_environment env =
     (let e1 = cras_expr_env_install_builtins env;
          e2 = cras_expr_env_set_variable_boolean e1 ''disable_eq'' 0;
          e3 = cras_expr_env_set_variable_boolean e2 ''disable_drc'' 0
      in cras_expr_env_set_variable_string e3 ''dsp_name'' '''')"

text \<open>The label \<^verbatim>\<open>bail\<close>, with a pipeline.\<close>

definition bail ::
  "('f :: {zero, one, plus, minus, uminus, times, inverse, ord}, 'd :: {zero, one, plus, minus, uminus, times, inverse, ord}) dsp_world
     \<Rightarrow> ('f, 'f builtin) pipeline \<Rightarrow> dsp_fault + 'a option" where
  "bail w p = and_then (lift_to Run_Fault (cras_dsp_pipeline_free (world_ops w) p)) (\<lambda>_. Inr None)"

definition prepare_pipeline ::
  "('f :: {zero, one, plus, minus, uminus, times, inverse, ord}, 'd :: {zero, one, plus, minus, uminus, times, inverse, ord}) dsp_world
     \<Rightarrow> (nat \<times> 'f ini) option \<Rightarrow> 'f dsp_context \<Rightarrow> dsp_fault + (nat \<times> ('f, 'f builtin) pipeline) option" where
  "prepare_pipeline w ini ctx =
     (case ini of
        None \<Rightarrow> Inr None
      | Some (addr, i) \<Rightarrow>
          and_then (lift_to Pipe_Fault (cras_dsp_pipeline_create i (cx_env ctx) (cx_purpose ctx))) (\<lambda>created.
          (case created of
             None \<Rightarrow> Inr None
           | Some p \<Rightarrow>
               and_then (lift_to Run_Fault (cras_dsp_pipeline_load (world_ops w) (w_alloc w) 0 p)) (\<lambda>(rc, p1).
               if rc \<noteq> 0 then bail w p1
               else
                 and_then (lift_to Run_Fault (cras_dsp_pipeline_instantiate (world_ops w) p1 (cx_sample_rate ctx))) (\<lambda>(rc', p2).
                 if rc' \<noteq> 0 then bail w p2
                 else if cras_dsp_pipeline_get_sample_rate p2 \<noteq> cx_sample_rate ctx then bail w p2
                 else Inr (Some (addr, p2)))))))"

definition free_old ::
  "('f :: {zero, one, plus, minus, uminus, times, inverse, ord}, 'd :: {zero, one, plus, minus, uminus, times, inverse, ord}) dsp_world
     \<Rightarrow> (nat \<times> ('f, 'f builtin) pipeline) option \<Rightarrow> dsp_fault + unit" where
  "free_old w pl =
     (case pl of
        None \<Rightarrow> Inr ()
      | Some (_, p) \<Rightarrow> and_then (lift_to Run_Fault (cras_dsp_pipeline_free (world_ops w) p)) (\<lambda>_. Inr ()))"

definition load_context ::
  "('f :: {zero, one, plus, minus, uminus, times, inverse, ord}, 'd :: {zero, one, plus, minus, uminus, times, inverse, ord}) dsp_world
     \<Rightarrow> (nat \<times> 'f ini) option \<Rightarrow> 'f dsp_context \<Rightarrow> dsp_fault + 'f dsp_context" where
  "load_context w ini ctx =
     and_then (prepare_pipeline w ini ctx) (\<lambda>pipeline.
     and_then (free_old w (cx_pipeline ctx)) (\<lambda>_.
     Inr (ctx\<lparr>cx_pipeline := pipeline\<rparr>)))"

text \<open>The context a client's pointer stands for; a pointer to no context is an error of the client.\<close>

fun on_context :: "nat \<Rightarrow> ('f dsp_context \<Rightarrow> dsp_fault + 'f dsp_context) \<Rightarrow> 'f dsp_context list \<Rightarrow> dsp_fault + 'f dsp_context list" where
  "on_context addr f [] = Inl No_Context"
| "on_context addr f (c # cs) =
     (if cx_id c = addr then and_then (f c) (\<lambda>c'. Inr (c' # cs))
      else and_then (on_context addr f cs) (\<lambda>cs'. Inr (c # cs')))"

definition with_context :: "nat \<Rightarrow> ('f dsp_context \<Rightarrow> dsp_fault + 'f dsp_context) \<Rightarrow> 'f dsp_state \<Rightarrow> dsp_fault + 'f dsp_state" where
  "with_context addr f s = and_then (on_context addr f (ds_contexts s)) (\<lambda>cs. Inr (s\<lparr>ds_contexts := cs\<rparr>))"

definition cras_dsp_set_variable :: "nat \<Rightarrow> string \<Rightarrow> string \<Rightarrow> 'f dsp_state \<Rightarrow> dsp_fault + 'f dsp_state" where
  "cras_dsp_set_variable addr key val s =
     with_context addr (\<lambda>c. Inr (c\<lparr>cx_env := cras_expr_env_set_variable_string (cx_env c) key val\<rparr>)) s"

definition cras_dsp_load_pipeline ::
  "('f :: {zero, one, plus, minus, uminus, times, inverse, ord}, 'd :: {zero, one, plus, minus, uminus, times, inverse, ord}) dsp_world
     \<Rightarrow> nat \<Rightarrow> 'f dsp_state \<Rightarrow> dsp_fault + 'f dsp_state" where
  "cras_dsp_load_pipeline w addr s = with_context addr (load_context w (ds_ini s)) s"

fun load_contexts ::
  "('f :: {zero, one, plus, minus, uminus, times, inverse, ord}, 'd :: {zero, one, plus, minus, uminus, times, inverse, ord}) dsp_world
     \<Rightarrow> (nat \<times> 'f ini) option \<Rightarrow> 'f dsp_context list \<Rightarrow> dsp_fault + 'f dsp_context list" where
  "load_contexts w ini [] = Inr []"
| "load_contexts w ini (c # cs) =
     and_then (load_context w ini c) (\<lambda>c'. and_then (load_contexts w ini cs) (\<lambda>cs'. Inr (c' # cs')))"

text \<open>Freeing a configuration, which must be allocated.\<close>

definition free_ini :: "(nat \<times> 'f ini) option \<Rightarrow> nat list \<Rightarrow> dsp_fault + nat list" where
  "free_ini ini alive =
     (case ini of
        None \<Rightarrow> Inr alive
      | Some (addr, i) \<Rightarrow>
          if addr \<notin> set alive then Inl Freed_Ini
          else and_then (lift_to Dict_Fault (cras_dsp_ini_free i)) (\<lambda>_. Inr (remove1 addr alive)))"

text \<open>\<^verbatim>\<open>cras_dsp_ini_create\<close> on the file of a name; \<open>files\<close> is the file system at the time of the call.\<close>

definition create_ini ::
  "('f :: zero, 'd) dsp_world \<Rightarrow> (string \<Rightarrow> string option) \<Rightarrow> string \<Rightarrow> dsp_fault + 'f ini option" where
  "create_ini w files name =
     (if \<not> w_calloc w then Inr None
      else and_then (lift_to Ini_Fault (iniparser_load (w_alloc w) (w_below w) (files name))) (\<lambda>loaded.
             Inr (cras_dsp_ini_create (w_strtof w) 0 True loaded)))"

definition cras_dsp_reload_ini ::
  "('f :: {zero, one, plus, minus, uminus, times, inverse, ord}, 'd :: {zero, one, plus, minus, uminus, times, inverse, ord}) dsp_world
     \<Rightarrow> (string \<Rightarrow> string option) \<Rightarrow> 'f dsp_state \<Rightarrow> dsp_fault + 'f dsp_state" where
  "cras_dsp_reload_ini w files s =
     (case ds_filename s of
        Name_Null \<Rightarrow> Inl Null_Name
      | Name_Freed \<Rightarrow> Inl Freed_Name
      | Name_Ok name \<Rightarrow>
          and_then (create_ini w files name) (\<lambda>created.
          (let ini = map_option (\<lambda>i. (ds_next s, i)) created;
               alive = (case created of None \<Rightarrow> ds_live s | Some _ \<Rightarrow> ds_next s # ds_live s)
           in and_then (load_contexts w ini (ds_contexts s)) (\<lambda>cs.
              and_then (free_ini (ds_ini s) alive) (\<lambda>alive'.
              Inr (s\<lparr>ds_ini := ini, ds_contexts := cs, ds_live := alive', ds_next := Suc (ds_next s)\<rparr>))))))"

definition cras_dsp_init ::
  "('f :: {zero, one, plus, minus, uminus, times, inverse, ord}, 'd :: {zero, one, plus, minus, uminus, times, inverse, ord}) dsp_world
     \<Rightarrow> (string \<Rightarrow> string option) \<Rightarrow> string \<Rightarrow> 'f dsp_state \<Rightarrow> dsp_fault + 'f dsp_state" where
  "cras_dsp_init w files filename s = cras_dsp_reload_ini w files (s\<lparr>ds_filename := Name_Ok filename\<rparr>)"

definition cras_dsp_stop :: "'f dsp_state \<Rightarrow> dsp_fault + 'f dsp_state" where
  "cras_dsp_stop s =
     (if ds_filename s = Name_Freed then Inl Freed_Name
      else
        (let s1 = s\<lparr>ds_filename := (if ds_filename s = Name_Null then Name_Null else Name_Freed)\<rparr>
         in and_then (free_ini (ds_ini s) (ds_live s)) (\<lambda>alive. Inr (s1\<lparr>ds_ini := None, ds_live := alive\<rparr>))))"

definition cras_dsp_context_new :: "int \<Rightarrow> string \<Rightarrow> 'f dsp_state \<Rightarrow> nat \<times> 'f dsp_state" where
  "cras_dsp_context_new sample_rate purpose s =
     (let ctx = \<lparr>cx_id = ds_next s, cx_pipeline = None, cx_env = initialize_environment CRAS_EXPR_ENV_INIT,
                 cx_sample_rate = sample_rate, cx_purpose = purpose\<rparr>
      in (ds_next s, s\<lparr>ds_contexts := ds_contexts s @ [ctx], ds_next := Suc (ds_next s)\<rparr>))"

definition find_context :: "nat \<Rightarrow> 'f dsp_state \<Rightarrow> dsp_fault + 'f dsp_context" where
  "find_context addr s = (case find (\<lambda>c. cx_id c = addr) (ds_contexts s) of None \<Rightarrow> Inl No_Context | Some c \<Rightarrow> Inr c)"

definition cras_dsp_context_free ::
  "('f :: {zero, one, plus, minus, uminus, times, inverse, ord}, 'd :: {zero, one, plus, minus, uminus, times, inverse, ord}) dsp_world
     \<Rightarrow> nat \<Rightarrow> 'f dsp_state \<Rightarrow> dsp_fault + 'f dsp_state" where
  "cras_dsp_context_free w addr s =
     and_then (find_context addr s) (\<lambda>c.
     and_then (free_old w (cx_pipeline c)) (\<lambda>_.
     Inr (s\<lparr>ds_contexts := filter (\<lambda>c. cx_id c \<noteq> addr) (ds_contexts s)\<rparr>)))"

definition cras_dsp_get_pipeline :: "nat \<Rightarrow> 'f dsp_state \<Rightarrow> dsp_fault + (nat \<times> ('f, 'f builtin) pipeline) option" where
  "cras_dsp_get_pipeline addr s = and_then (find_context addr s) (\<lambda>c. Inr (cx_pipeline c))"

definition cras_dsp_num_output_channels :: "nat \<Rightarrow> 'f dsp_state \<Rightarrow> dsp_fault + nat" where
  "cras_dsp_num_output_channels addr s =
     and_then (find_context addr s) (\<lambda>c.
       (case cx_pipeline c of None \<Rightarrow> Inl Null_Pipeline
        | Some (_, p) \<Rightarrow> Inr (cras_dsp_pipeline_get_num_output_channels p)))"

definition cras_dsp_num_input_channels :: "nat \<Rightarrow> 'f dsp_state \<Rightarrow> dsp_fault + nat" where
  "cras_dsp_num_input_channels addr s =
     and_then (find_context addr s) (\<lambda>c.
       (case cx_pipeline c of None \<Rightarrow> Inl Null_Pipeline
        | Some (_, p) \<Rightarrow> Inr (cras_dsp_pipeline_get_num_input_channels p)))"

subsection \<open>Calls of the clients\<close>

text \<open>The calls other than \<^verbatim>\<open>cras_dsp_stop\<close>, in any order, while the files may change between calls.\<close>

inductive dsp_step ::
  "('f :: {zero, one, plus, minus, uminus, times, inverse, ord}, 'd :: {zero, one, plus, minus, uminus, times, inverse, ord}) dsp_world
     \<Rightarrow> 'f dsp_state \<Rightarrow> 'f dsp_state \<Rightarrow> bool" for w where
  call_init: "cras_dsp_init w files filename s = Inr s' \<Longrightarrow> dsp_step w s s'"
| call_reload: "cras_dsp_reload_ini w files s = Inr s' \<Longrightarrow> dsp_step w s s'"
| call_new: "cras_dsp_context_new sample_rate purpose s = (addr, s') \<Longrightarrow> dsp_step w s s'"
| call_load: "cras_dsp_load_pipeline w addr s = Inr s' \<Longrightarrow> dsp_step w s s'"
| call_set: "cras_dsp_set_variable addr key val s = Inr s' \<Longrightarrow> dsp_step w s s'"
| call_free: "cras_dsp_context_free w addr s = Inr s' \<Longrightarrow> dsp_step w s s'"

subsection \<open>A pipeline that was prepared\<close>

lemma allocate_keeps:
  assumes "allocate_buffers alloc zero p = Inr (rc, p')"
  shows "pp_ini p' = pp_ini p \<and> pp_purpose p' = pp_purpose p"
  using assms unfolding allocate_buffers_def Let_def
  by (cases "alloc (nat (count_buffers (pp_instances p)) * sizeof_ptr)") (auto simp: and_then_Inr simp del: int_nat_eq split: if_split_asm)

lemma load_keeps:
  assumes "cras_dsp_pipeline_load ops alloc zero p = Inr (rc, p')"
  shows "pp_ini p' = pp_ini p \<and> pp_purpose p' = pp_purpose p"
proof -
  obtain rc' insts where l: "load_instances ops (pp_ini p) (pp_instances p) = (rc', insts)" by force
  show ?thesis
  proof (cases "rc' = 0")
    case True
    then obtain rc'' where "allocate_buffers alloc zero (p\<lparr>pp_instances := insts\<rparr>) = Inr (rc'', p')"
      using assms l by (auto simp: cras_dsp_pipeline_load_def and_then_Inr)
    from allocate_keeps [OF this] show ?thesis by simp
  next
    case False
    with assms l show ?thesis by (auto simp: cras_dsp_pipeline_load_def)
  qed
qed

lemma instantiate_keeps:
  "cras_dsp_pipeline_instantiate ops p rate = Inr (rc, p') \<Longrightarrow> pp_ini p' = pp_ini p \<and> pp_purpose p' = pp_purpose p"
  by (auto simp: cras_dsp_pipeline_instantiate_def and_then_Inr split: prod.splits if_splits)

lemma create_keeps:
  "cras_dsp_pipeline_create ini env purpose = Inr (Some p) \<Longrightarrow> pp_ini p = ini \<and> pp_purpose p = purpose"
  by (auto simp: cras_dsp_pipeline_create_def Let_def simp del: topological_sort.simps
      split: option.splits sum.splits prod.splits if_splits)

lemma bail_None: "bail w p = Inr r \<Longrightarrow> r = None"
  by (auto simp: bail_def and_then_Inr)

text \<open>What a context's pipeline is: loaded and instantiated from a configuration, for the context.\<close>

definition pipeline_for :: "'f ini \<Rightarrow> 'f dsp_context \<Rightarrow> ('f, 'f builtin) pipeline \<Rightarrow> bool" where
  "pipeline_for i ctx p \<longleftrightarrow>
     pp_ini p = i \<and> pp_purpose p = cx_purpose ctx \<and> cras_dsp_pipeline_get_sample_rate p = cx_sample_rate ctx \<and>
     list_all in_instantiated (pp_instances p)"

lemma prepare_pipeline_result:
  assumes "prepare_pipeline w ini ctx = Inr (Some (addr, p))"
  obtains i where "ini = Some (addr, i)" "pipeline_for i ctx p"
proof -
  obtain i p0 p1 where i: "ini = Some (addr, i)"
      and c: "cras_dsp_pipeline_create i (cx_env ctx) (cx_purpose ctx) = Inr (Some p0)"
      and l: "cras_dsp_pipeline_load (world_ops w) (w_alloc w) 0 p0 = Inr (0, p1)"
      and n: "cras_dsp_pipeline_instantiate (world_ops w) p1 (cx_sample_rate ctx) = Inr (0, p)"
      and r: "cras_dsp_pipeline_get_sample_rate p = cx_sample_rate ctx"
    using assms by (auto simp: prepare_pipeline_def and_then_Inr dest: bail_None split: option.splits if_splits)
  have "list_all in_instantiated (pp_instances p)"
    using builtin.instantiate_connects [OF n [unfolded world_ops_def]] by simp
  with r create_keeps [OF c] load_keeps [OF l] instantiate_keeps [OF n] have "pipeline_for i ctx p"
    by (simp add: pipeline_for_def)
  with i show ?thesis by (rule that)
qed

subsection \<open>The environment of a context\<close>

lemma initialize_environment_spec:
  assumes "env_inv env"
  shows "env_inv (initialize_environment env) \<and>
    env_lookup (initialize_environment env) =
      (env_lookup env)(''not'' \<mapsto> VALUE_FUNCTION Function_not, ''and'' \<mapsto> VALUE_FUNCTION Function_and,
        ''or'' \<mapsto> VALUE_FUNCTION Function_or, ''equal?'' \<mapsto> VALUE_FUNCTION Function_equal,
        ''disable_eq'' \<mapsto> VALUE_BOOLEAN False, ''disable_drc'' \<mapsto> VALUE_BOOLEAN False, ''dsp_name'' \<mapsto> VALUE_STRING '''')"
  using install_builtins_spec [OF assms] unfolding initialize_environment_def Let_def
  by (simp add: env_set_spec)

subsection \<open>The invariant\<close>

text \<open>
  A context's pipeline, when it has one, points into the configuration that is loaded now, and is
  instantiated for the purpose and the sample rate of the context.
\<close>

definition context_ok :: "(nat \<times> 'f ini) option \<Rightarrow> 'f dsp_context \<Rightarrow> bool" where
  "context_ok ini c \<longleftrightarrow>
     env_inv (cx_env c) \<and>
     (case cx_pipeline c of None \<Rightarrow> True
      | Some (addr, p) \<Rightarrow> (case ini of None \<Rightarrow> False | Some (addr', i) \<Rightarrow> addr' = addr \<and> pipeline_for i c p))"

definition dsp_inv :: "'f dsp_state \<Rightarrow> bool" where
  "dsp_inv s \<longleftrightarrow>
     ds_filename s \<noteq> Name_Freed \<and>
     ds_live s = (case ds_ini s of None \<Rightarrow> [] | Some (addr, _) \<Rightarrow> [addr]) \<and>
     pred_option (\<lambda>(addr, _). addr < ds_next s) (ds_ini s) \<and>
     distinct (map cx_id (ds_contexts s)) \<and> list_all (\<lambda>c. cx_id c < ds_next s) (ds_contexts s) \<and>
     list_all (context_ok (ds_ini s)) (ds_contexts s)"

lemma dsp_start_inv: "dsp_inv dsp_start"
  by (simp add: dsp_inv_def dsp_start_def)

lemma load_context_ok:
  assumes "load_context w ini c = Inr c'" "env_inv (cx_env c)"
  shows "context_ok ini c' \<and> cx_id c' = cx_id c \<and> prepare_pipeline w ini c = Inr (cx_pipeline c') \<and>
    c' = c\<lparr>cx_pipeline := cx_pipeline c'\<rparr>"
proof -
  obtain pl where pl: "prepare_pipeline w ini c = Inr pl" "c' = c\<lparr>cx_pipeline := pl\<rparr>"
    using assms(1) by (auto simp: load_context_def and_then_Inr)
  have "context_ok ini c'"
  proof (cases pl)
    case None
    with pl(2) assms(2) show ?thesis by (simp add: context_ok_def)
  next
    case (Some ap)
    then obtain addr p where ap: "pl = Some (addr, p)" by (cases ap) simp
    obtain i where "ini = Some (addr, i)" "pipeline_for i c p" by (rule prepare_pipeline_result [OF pl(1) [unfolded ap]])
    then show ?thesis using assms(2) by (simp add: context_ok_def pl(2) ap pipeline_for_def)
  qed
  with pl show ?thesis by simp
qed

lemma load_contexts_ok:
  assumes "load_contexts w ini cs = Inr cs'" "list_all (\<lambda>c. env_inv (cx_env c)) cs"
  shows "list_all2 (\<lambda>c c'. context_ok ini c' \<and> prepare_pipeline w ini c = Inr (cx_pipeline c') \<and>
    c' = c\<lparr>cx_pipeline := cx_pipeline c'\<rparr>) cs cs'"
  using assms
proof (induction cs arbitrary: cs')
  case (Cons c cs)
  then show ?case using load_context_ok [of w ini c] by (auto simp: and_then_Inr)
qed simp

lemma kept_ids:
  "list_all2 (\<lambda>c c'. P c c' \<and> c' = c\<lparr>cx_pipeline := cx_pipeline c'\<rparr>) cs cs' \<Longrightarrow> map cx_id cs' = map cx_id cs"
proof (induction rule: list_all2_induct)
  case (Cons c cs c' cs')
  then have "cx_id c' = cx_id (c\<lparr>cx_pipeline := cx_pipeline c'\<rparr>)" by argo
  with Cons.IH show ?case by simp
qed simp

lemma on_context_ok:
  assumes "on_context addr f cs = Inr cs'" "list_all P cs"
    and "\<And>c c'. f c = Inr c' \<Longrightarrow> P c \<Longrightarrow> P c' \<and> cx_id c' = cx_id c"
  shows "list_all P cs' \<and> map cx_id cs' = map cx_id cs"
  using assms(1,2)
proof (induction cs arbitrary: cs')
  case (Cons c cs)
  then show ?case using assms(3) by (auto simp: and_then_Inr split: if_splits)
qed simp

lemma ids_below: "map cx_id cs' = map cx_id cs \<Longrightarrow> list_all (\<lambda>c. cx_id c < n) cs' = list_all (\<lambda>c. cx_id c < n) cs"
  using list.pred_map [of "\<lambda>i. i < n" cx_id cs] list.pred_map [of "\<lambda>i. i < n" cx_id cs'] by (simp add: comp_def)

lemma with_context_inv:
  assumes "with_context addr f s = Inr s'" "dsp_inv s"
    and "\<And>c c'. f c = Inr c' \<Longrightarrow> context_ok (ds_ini s) c \<Longrightarrow> context_ok (ds_ini s) c' \<and> cx_id c' = cx_id c"
  shows "dsp_inv s'"
proof -
  obtain cs where cs: "on_context addr f (ds_contexts s) = Inr cs" "s' = s\<lparr>ds_contexts := cs\<rparr>"
    using assms(1) by (auto simp: with_context_def and_then_Inr)
  have "list_all (context_ok (ds_ini s)) (ds_contexts s)" using assms(2) by (simp add: dsp_inv_def)
  from on_context_ok [OF cs(1) this assms(3)] have "list_all (context_ok (ds_ini s)) cs \<and> map cx_id cs = map cx_id (ds_contexts s)" by blast
  with assms(2) ids_below [of cs "ds_contexts s"] show ?thesis by (simp add: dsp_inv_def cs(2))
qed

lemma reload_result:
  assumes "cras_dsp_reload_ini w files s = Inr s'"
  obtains name created cs where "ds_filename s = Name_Ok name" "create_ini w files name = Inr created"
    "load_contexts w (map_option (\<lambda>i. (ds_next s, i)) created) (ds_contexts s) = Inr cs"
    "free_ini (ds_ini s) (case created of None \<Rightarrow> ds_live s | Some _ \<Rightarrow> ds_next s # ds_live s) = Inr (ds_live s')"
    "s' = s\<lparr>ds_ini := map_option (\<lambda>i. (ds_next s, i)) created, ds_contexts := cs, ds_live := ds_live s', ds_next := Suc (ds_next s)\<rparr>"
  using assms by (auto simp: cras_dsp_reload_ini_def Let_def and_then_Inr split: name_ptr.splits)

lemma reload_inv:
  assumes "cras_dsp_reload_ini w files s = Inr s'" "dsp_inv s"
  shows "dsp_inv s'"
proof -
  obtain name created cs where r: "ds_filename s = Name_Ok name"
      "load_contexts w (map_option (\<lambda>i. (ds_next s, i)) created) (ds_contexts s) = Inr cs"
      "free_ini (ds_ini s) (case created of None \<Rightarrow> ds_live s | Some _ \<Rightarrow> ds_next s # ds_live s) = Inr (ds_live s')"
      "s' = s\<lparr>ds_ini := map_option (\<lambda>i. (ds_next s, i)) created, ds_contexts := cs, ds_live := ds_live s', ds_next := Suc (ds_next s)\<rparr>"
    using reload_result [OF assms(1)] by metis
  let ?ini = "map_option (\<lambda>i. (ds_next s, i)) created"
  have "list_all (\<lambda>c. env_inv (cx_env c)) (ds_contexts s)"
    using assms(2) by (auto simp: dsp_inv_def context_ok_def list_all_iff)
  note cs = load_contexts_ok [OF r(2) this]
  have "map cx_id cs = map cx_id (ds_contexts s)" by (rule kept_ids) (use cs in \<open>auto elim: list_all2_mono\<close>)
  then have ids: "distinct (map cx_id cs)" "list_all (\<lambda>c. cx_id c < Suc (ds_next s)) cs"
    using assms(2) ids_below [of cs "ds_contexts s" "Suc (ds_next s)"] by (auto simp: dsp_inv_def list_all_iff)
  have ok: "list_all (context_ok ?ini) cs"
    using cs by (auto simp: list_all_length list_all2_conv_all_nth)
  have live: "ds_live s' = (case ?ini of None \<Rightarrow> [] | Some (addr, _) \<Rightarrow> [addr])"
    using r(3) assms(2) by (auto simp: free_ini_def dsp_inv_def and_then_Inr split: option.splits if_splits)
  have r4: "ds_ini s' = ?ini" "ds_contexts s' = cs" "ds_next s' = Suc (ds_next s)" "ds_filename s' = Name_Ok name"
    by (subst r(4), simp add: r(1))+
  show ?thesis unfolding dsp_inv_def live r4 using ids ok by (cases created) simp_all
qed

lemma dsp_step_inv: "dsp_step w s s' \<Longrightarrow> dsp_inv s \<Longrightarrow> dsp_inv s'"
proof (induction rule: dsp_step.induct)
  case (call_init files filename s s')
  have "dsp_inv (s\<lparr>ds_filename := Name_Ok filename\<rparr>)" using call_init(2) by (simp add: dsp_inv_def)
  with call_init(1) show ?case unfolding cras_dsp_init_def by (rule reload_inv)
next
  case (call_reload files s s')
  then show ?case by (rule reload_inv)
next
  case (call_new sample_rate purpose s addr s')
  let ?c = "\<lparr>cx_id = ds_next s, cx_pipeline = None, cx_env = initialize_environment CRAS_EXPR_ENV_INIT,
    cx_sample_rate = sample_rate, cx_purpose = purpose\<rparr>"
  have s': "s' = s\<lparr>ds_contexts := ds_contexts s @ [?c], ds_next := Suc (ds_next s)\<rparr>"
    using call_new(1) by (auto simp: cras_dsp_context_new_def Let_def)
  have ok: "context_ok ini ?c" for ini
    using initialize_environment_spec [OF env_init_inv] by (simp add: context_ok_def)
  have below: "list_all (\<lambda>c. cx_id c < ds_next s) (ds_contexts s)" "pred_option (\<lambda>(addr, _). addr < ds_next s) (ds_ini s)"
    using call_new(2) by (simp_all add: dsp_inv_def)
  have "list_all (\<lambda>c. cx_id c < Suc (ds_next s)) (ds_contexts s)" "ds_next s \<notin> cx_id ` set (ds_contexts s)"
    using below(1) by (auto simp: list_all_iff)
  moreover have "pred_option (\<lambda>(addr, _). addr < Suc (ds_next s)) (ds_ini s)"
    using below(2) by (rule option.pred_mono_strong) auto
  ultimately show ?case using call_new(2) ok by (simp add: s' dsp_inv_def)
next
  case (call_load addr s s')
  show ?case
    using call_load unfolding cras_dsp_load_pipeline_def
    by (rule with_context_inv) (use load_context_ok in \<open>auto simp: context_ok_def\<close>)
next
  case (call_set addr key val s s')
  show ?case
    using call_set unfolding cras_dsp_set_variable_def
    by (rule with_context_inv) (auto simp: context_ok_def pipeline_for_def env_set_spec split: option.splits)
next
  case (call_free addr s s')
  then show ?case
    by (auto simp: cras_dsp_context_free_def and_then_Inr dsp_inv_def list_all_iff distinct_map_filter)
qed

subsection \<open>Properties\<close>


text \<open>A world, and the calls of a client that opens a context before the configuration is there.\<close>

definition rat_world :: "(rat, rat) dsp_world" where
  "rat_world = \<lparr>w_math = rat_math, w_fmath = rat_fmath, w_stack = (zero_biquad, zero_biquad), w_alloc = (\<lambda>_. True),
     w_calloc = True, w_strtof = (\<lambda>_. 0), w_below = CHR ''x''\<rparr>"




text \<open>
  After \<^verbatim>\<open>cras_dsp_stop\<close> the name of the configuration file is freed but the pointer to it is kept:
  a reload and a second stop both read freed memory, whatever the state was, until the next
  \<^verbatim>\<open>cras_dsp_init\<close>. The configuration itself is freed once.
\<close>

theorem stop_leaves_freed_name:
  assumes "cras_dsp_stop s = Inr s'" "ds_filename s = Name_Ok name"
  shows "cras_dsp_reload_ini w files s' = Inl Freed_Name \<and> cras_dsp_stop s' = Inl Freed_Name \<and> ds_ini s' = None"
proof -
  obtain alive where "s' = s\<lparr>ds_filename := Name_Freed, ds_ini := None, ds_live := alive\<rparr>"
    using assms by (auto simp: cras_dsp_stop_def Let_def and_then_Inr)
  then show ?thesis by (simp add: cras_dsp_reload_ini_def cras_dsp_stop_def)
qed

theorem stop_leaves_freed_name_witness:
  "\<exists>s'. cras_dsp_stop (dsp_start\<lparr>ds_filename := Name_Ok ''a''\<rparr>) = Inr s' \<and>
     cras_dsp_reload_ini rat_world (\<lambda>_. None) s' = Inl Freed_Name"
proof -
  obtain s' where s: "cras_dsp_stop (dsp_start\<lparr>ds_filename := Name_Ok ''a''\<rparr> :: rat dsp_state) = Inr s'"
    by (simp add: cras_dsp_stop_def dsp_start_def free_ini_def)
  with stop_leaves_freed_name [OF s, of "''a''" rat_world "\<lambda>_. None"] show ?thesis by auto
qed

end
