(* ===== verification/Flash_Device.thy ===== *)
theory Flash_Device
  imports Dragon_Prelude
begin

unbundle bit_operations_syntax

text \<open>
  Flash devices of the firmware updater: the interface \<^verbatim>\<open>struct flash_device_ops\<close>, the wrapper around it in
  \<^verbatim>\<open>recovery/updater/flash_device.c\<close>, and its implementation on files and blobs in
  \<^verbatim>\<open>recovery/updater/flash_file.cpp\<close>. An operation takes the state of the device, which includes what the
  hardware holds, and returns its result and the new state. The functions on the flash map and the
  GBB, which the code calls through pointers to the device, follow in the theory of the boot data.
\<close>

subsection \<open>Ranges of bytes\<close>

definition bytes_at :: "nat \<Rightarrow> nat \<Rightarrow> 'a list \<Rightarrow> 'a list" where
  "bytes_at off n xs = take n (drop off xs)"

definition patch :: "nat \<Rightarrow> 'a list \<Rightarrow> 'a list \<Rightarrow> 'a list" where
  "patch off ys xs = take off xs @ ys @ drop (off + length ys) xs"

lemma length_bytes_at [simp]: "off + n \<le> length xs \<Longrightarrow> length (bytes_at off n xs) = n"
  by (simp add: bytes_at_def)

lemma length_patch [simp]: "off + length ys \<le> length xs \<Longrightarrow> length (patch off ys xs) = length xs"
  by (simp add: patch_def)

lemma nth_bytes_at: "off + n \<le> length xs \<Longrightarrow> i < n \<Longrightarrow> bytes_at off n xs ! i = xs ! (off + i)"
  by (simp add: bytes_at_def)

lemma nth_patch:
  "off + length ys \<le> length xs \<Longrightarrow> i < length xs \<Longrightarrow>
     patch off ys xs ! i = (if off \<le> i \<and> i < off + length ys then ys ! (i - off) else xs ! i)"
  by (auto simp: patch_def nth_append)

lemma bytes_at_eqI:
  assumes "off + n \<le> length xs" "off + n \<le> length ys" "\<And>i. off \<le> i \<Longrightarrow> i < off + n \<Longrightarrow> xs ! i = ys ! i"
  shows "bytes_at off n xs = bytes_at off n ys"
  using assms by (intro nth_equalityI) (simp_all add: nth_bytes_at)

lemma bytes_at_patch_same [simp]: "off + length ys \<le> length xs \<Longrightarrow> bytes_at off (length ys) (patch off ys xs) = ys"
  by (simp add: bytes_at_def patch_def)

lemma bytes_at_patch_other:
  assumes "off + length ys \<le> length xs" "o' + n \<le> length xs" "o' + n \<le> off \<or> off + length ys \<le> o'"
  shows "bytes_at o' n (patch off ys xs) = bytes_at o' n xs"
  by (rule bytes_at_eqI) (use assms in \<open>auto simp: nth_patch\<close>)

lemma bytes_at_patch_inside:
  assumes "off \<le> o'" "o' + length ys \<le> off + n" "off + n \<le> length xs"
  shows "bytes_at off n (patch o' ys xs) = patch (o' - off) ys (bytes_at off n xs)"
  by (rule nth_equalityI) (use assms in \<open>auto simp: nth_bytes_at nth_patch add.commute\<close>)

lemma bytes_at_bytes_at: "o' + k \<le> n \<Longrightarrow> off + n \<le> length xs \<Longrightarrow> bytes_at o' k (bytes_at off n xs) = bytes_at (off + o') k xs"
  by (rule nth_equalityI) (simp_all add: nth_bytes_at add.assoc)

lemma bytes_at_add: "bytes_at off (a + b) xs = bytes_at off a xs @ bytes_at (off + a) b xs"
  by (simp add: bytes_at_def take_add add.commute)

lemma patch_append:
  assumes "off + length (ys @ zs) \<le> length xs"
  shows "patch (off + length ys) zs (patch off ys xs) = patch off (ys @ zs) xs"
  by (rule nth_equalityI) (use assms in \<open>auto simp: nth_patch nth_append\<close>)

lemma patch_patch_inside:
  assumes "k + length d \<le> length ys" "off + length ys \<le> length xs"
  shows "patch (off + k) d (patch off ys xs) = patch off (patch k d ys) xs"
  by (rule nth_equalityI) (use assms in \<open>auto simp: nth_patch\<close>)

lemma patch_own [simp]: "off + n \<le> length xs \<Longrightarrow> patch off (bytes_at off n xs) xs = xs"
  by (rule nth_equalityI) (auto simp: nth_patch nth_bytes_at)

lemma patch_over: "length xs = length ys \<Longrightarrow> off + length ys \<le> length zs \<Longrightarrow> patch off xs (patch off ys zs) = patch off xs zs"
  by (rule nth_equalityI) (auto simp: nth_patch)

text \<open>Numbers in memory, least significant byte first.\<close>

fun le_val :: "u8 list \<Rightarrow> nat" where
  "le_val [] = 0"
| "le_val (b # bs) = unat b + 256 * le_val bs"

fun le_bytes :: "nat \<Rightarrow> nat \<Rightarrow> u8 list" where
  "le_bytes 0 n = []"
| "le_bytes (Suc k) n = of_nat n # le_bytes k (n div 256)"

lemma length_le_bytes [simp]: "length (le_bytes k n) = k"
  by (induction k arbitrary: n) simp_all

lemma le_val_bytes: "le_val (le_bytes k n) = n mod 256 ^ k"
proof (induction k arbitrary: n)
  case (Suc k)
  have "unat (of_nat n :: u8) = n mod 256" by (simp add: unsigned_of_nat take_bit_eq_mod)
  then show ?case using Suc mod_mult2_eq [of n 256 "256 ^ k"] by simp
qed simp

lemma le_val_bound: "le_val bs < 256 ^ length bs"
proof (induction bs)
  case (Cons b bs)
  have "unat b < 256" using unsigned_less [of b] by simp
  with Cons show ?case by simp
qed simp

subsection \<open>The interface\<close>

text \<open>
  What can go wrong outside of a return code. A failed read leaves no usable buffer, so its result
  is \<open>Inl\<close> of the code; \<open>Inr\<close> are the bytes of a read that returned 0.
\<close>

datatype flash_fault = Never_Returns | Div_By_Zero | Over_Read | Over_Write | Null_Data | Uninitialised

definition EIO :: int where "EIO = 5"
definition ENOENT :: int where "ENOENT = 2"
definition ENOMEM :: int where "ENOMEM = 12"
definition ENODEV :: int where "ENODEV = 19"
definition EINVAL :: int where "EINVAL = 22"

record ('p, 'h) flash_ops =
  fo_name :: string
  fo_open :: "'p \<Rightarrow> 'h option"
  fo_read :: "'h \<Rightarrow> nat \<Rightarrow> nat \<Rightarrow> flash_fault + (int + u8 list) \<times> 'h"
  fo_write :: "'h \<Rightarrow> nat \<Rightarrow> u8 list \<Rightarrow> flash_fault + int \<times> 'h"
  fo_erase :: "'h \<Rightarrow> nat \<Rightarrow> nat \<Rightarrow> flash_fault + int \<times> 'h"
  fo_get_size :: "'h \<Rightarrow> nat"
  fo_get_write_size :: "'h \<Rightarrow> nat"
  fo_get_erase_size :: "'h \<Rightarrow> nat"
  fo_get_fmap_offset :: "'h \<Rightarrow> nat"
  fo_cmd :: "('h \<Rightarrow> int \<Rightarrow> int \<Rightarrow> u8 list \<Rightarrow> nat \<Rightarrow> (int \<times> u8 list) \<times> 'h) option"

subsection \<open>Devices\<close>

text \<open>The flash map and the GBB are the bytes that were read, once they were read.\<close>

record ('p, 'h) flash_device =
  fd_ops :: "('p, 'h) flash_ops"
  fd_priv :: 'h
  fd_fmap :: "u8 list option"
  fd_gbb :: "u8 list option"
  fd_gbb_size :: nat
  fd_total_size :: nat
  fd_write_size :: nat
  fd_erase_size :: nat

text \<open>\<open>devices\<close> is the table of implementations, \<open>calloc_ok\<close> whether the structure can be allocated.\<close>

definition flash_open ::
  "('p, 'h) flash_ops list \<Rightarrow> bool \<Rightarrow> string option \<Rightarrow> 'p \<Rightarrow> ('p, 'h) flash_device option" where
  "flash_open devices calloc_ok name params =
     (let ops = (case name of
                   None \<Rightarrow> devices ! 0
                 | Some n \<Rightarrow> (case find (\<lambda>d. fo_name d = n) devices of None \<Rightarrow> devices ! 0 | Some d \<Rightarrow> d))
      in if \<not> calloc_ok then None
         else case fo_open ops params of
             None \<Rightarrow> None
           | Some h \<Rightarrow>
               Some \<lparr>fd_ops = ops, fd_priv = h, fd_fmap = None, fd_gbb = None, fd_gbb_size = 0,
                     fd_total_size = fo_get_size ops h, fd_write_size = fo_get_write_size ops h,
                     fd_erase_size = fo_get_erase_size ops h\<rparr>)"

definition flash_read ::
  "('p, 'h) flash_device \<Rightarrow> nat \<Rightarrow> nat \<Rightarrow> flash_fault + (int + u8 list) \<times> ('p, 'h) flash_device" where
  "flash_read dev off len =
     and_then (fo_read (fd_ops dev) (fd_priv dev) off len) (\<lambda>(r, h). Inr (r, dev\<lparr>fd_priv := h\<rparr>))"

definition flash_write ::
  "('p, 'h) flash_device \<Rightarrow> nat \<Rightarrow> u8 list \<Rightarrow> flash_fault + int \<times> ('p, 'h) flash_device" where
  "flash_write dev off buff =
     (if fd_write_size dev = 0 then Inl Div_By_Zero
      else if off mod fd_write_size dev \<noteq> 0 \<or> length buff mod fd_write_size dev \<noteq> 0 then Inr (- EINVAL, dev)
      else and_then (fo_write (fd_ops dev) (fd_priv dev) off buff) (\<lambda>(r, h). Inr (r, dev\<lparr>fd_priv := h\<rparr>)))"

definition flash_erase ::
  "('p, 'h) flash_device \<Rightarrow> nat \<Rightarrow> nat \<Rightarrow> flash_fault + int \<times> ('p, 'h) flash_device" where
  "flash_erase dev off len =
     (if fd_erase_size dev = 0 then Inl Div_By_Zero
      else if off mod fd_erase_size dev \<noteq> 0 \<or> len mod fd_erase_size dev \<noteq> 0 then Inr (- EINVAL, dev)
      else and_then (fo_erase (fd_ops dev) (fd_priv dev) off len) (\<lambda>(r, h). Inr (r, dev\<lparr>fd_priv := h\<rparr>)))"

definition flash_get_size :: "('p, 'h) flash_device \<Rightarrow> nat" where
  "flash_get_size dev = fo_get_size (fd_ops dev) (fd_priv dev)"

definition flash_cmd ::
  "('p, 'h) flash_device \<Rightarrow> int \<Rightarrow> int \<Rightarrow> u8 list \<Rightarrow> nat \<Rightarrow> (int \<times> u8 list) \<times> ('p, 'h) flash_device" where
  "flash_cmd dev cmd ver odata isize =
     (case fo_cmd (fd_ops dev) of
        None \<Rightarrow> ((- ENOENT, []), dev)
      | Some f \<Rightarrow> (case f (fd_priv dev) cmd ver odata isize of (r, h) \<Rightarrow> (r, dev\<lparr>fd_priv := h\<rparr>)))"

subsection \<open>The contract of an implementation\<close>

text \<open>A byte that can be written over another one without erasing: no bit has to go from 0 to 1.\<close>

definition writable_over :: "u8 list \<Rightarrow> u8 list \<Rightarrow> bool" where
  "writable_over old new \<longleftrightarrow> list_all2 (\<lambda>a b. and a b = b) old new"

lemma all_u8: "list_all (\<lambda>n. P (word_of_int n)) [0..255] \<Longrightarrow> P (x :: u8)"
proof -
  assume "list_all (\<lambda>n. P (word_of_int n)) [0..255]"
  moreover have "uint x \<in> set [0..255]" using unsigned_less [of x, where 'a = int] by simp
  ultimately have "P (word_of_int (uint x))" by (simp only: list_all_iff)
  then show ?thesis by simp
qed

lemma erased_writable: "length xs = n \<Longrightarrow> writable_over (replicate n 0xFF) xs"
proof -
  have "255 AND x = x" for x :: u8 by (rule all_u8 [where x = x]) code_simp
  then show "length xs = n \<Longrightarrow> ?thesis" by (simp add: writable_over_def list_all2_conv_all_nth)
qed

text \<open>
  \<open>contents h\<close> is what the medium holds. Reading gives what is there and changes nothing; writing and
  erasing touch nothing outside their range, whether they succeed or not. A write that succeeds has
  stored its data where the old bytes could be written over, and an erase that succeeds has
  set its range to \<open>0xFF\<close>. Offsets and sizes of areas have 32 bits, which erasing relies on.
\<close>

locale flash_medium =
  fixes ops :: "('p, 'h) flash_ops"
    and contents :: "'h \<Rightarrow> u8 list"
    and usable :: "'h \<Rightarrow> bool"
  assumes read_back: "usable h \<Longrightarrow> fo_read ops h off n = Inr (Inr xs, h') \<Longrightarrow>
      off + n \<le> length (contents h) \<and> xs = bytes_at off n (contents h)"
    and read_keeps: "usable h \<Longrightarrow> fo_read ops h off n = Inr (r, h') \<Longrightarrow> usable h' \<and> contents h' = contents h"
    and write_frame: "usable h \<Longrightarrow> fo_write ops h off xs = Inr (rc, h') \<Longrightarrow>
      usable h' \<and> length (contents h') = length (contents h) \<and>
      (\<forall>i < length (contents h). i < off \<or> off + length xs \<le> i \<longrightarrow> contents h' ! i = contents h ! i)"
    and write_done: "usable h \<Longrightarrow> fo_write ops h off xs = Inr (0, h') \<Longrightarrow>
      writable_over (bytes_at off (length xs) (contents h)) xs \<Longrightarrow>
      off + length xs \<le> length (contents h) \<and> contents h' = patch off xs (contents h)"
    and erase_frame: "usable h \<Longrightarrow> off < 2 ^ 32 \<Longrightarrow> n < 2 ^ 32 \<Longrightarrow> fo_erase ops h off n = Inr (rc, h') \<Longrightarrow>
      usable h' \<and> length (contents h') = length (contents h) \<and>
      (\<forall>i < length (contents h). i < off \<or> off + n \<le> i \<longrightarrow> contents h' ! i = contents h ! i)"
    and erase_done: "usable h \<Longrightarrow> off < 2 ^ 32 \<Longrightarrow> n < 2 ^ 32 \<Longrightarrow> fo_erase ops h off n = Inr (0, h') \<Longrightarrow>
      off + n \<le> length (contents h) \<and> contents h' = patch off (replicate n 0xFF) (contents h)"

text \<open>A medium without failures: every operation inside its bounds succeeds.\<close>

locale reliable_medium = flash_medium +
  assumes read_total: "usable h \<Longrightarrow> off + n \<le> length (contents h) \<Longrightarrow> \<exists>xs h'. fo_read ops h off n = Inr (Inr xs, h')"
    and write_total: "usable h \<Longrightarrow> off + length xs \<le> length (contents h) \<Longrightarrow> \<exists>h'. fo_write ops h off xs = Inr (0, h')"
    and erase_total: "usable h \<Longrightarrow> off < 2 ^ 32 \<Longrightarrow> n < 2 ^ 32 \<Longrightarrow> off + n \<le> length (contents h) \<Longrightarrow> \<exists>h'. fo_erase ops h off n = Inr (0, h')"

subsection \<open>Files and blobs\<close>

text \<open>
  A blob has no backing file: its descriptor is \<open>- 1\<close>. \<open>files\<close> gives the descriptor, the contents and the
  block size of a file that can be opened and mapped.
\<close>

datatype edify_value = Value_Blob "u8 list" | Value_String string | Value_Invalid

record file_data =
  ff_fd :: int
  ff_data :: "u8 list"
  ff_blksize :: nat

definition file_blob_open :: "u8 list \<Rightarrow> file_data" where
  "file_blob_open blob = \<lparr>ff_fd = - 1, ff_data = blob, ff_blksize = 0\<rparr>"

definition file_open ::
  "(string \<Rightarrow> (int \<times> u8 list \<times> nat) option) \<Rightarrow> bool \<Rightarrow> edify_value \<Rightarrow> file_data option" where
  "file_open files calloc_ok val =
     (if \<not> calloc_ok then None
      else case val of
          Value_Blob blob \<Rightarrow> Some (file_blob_open blob)
        | Value_Invalid \<Rightarrow> None
        | Value_String path \<Rightarrow>
            (case files path of
               None \<Rightarrow> None
             | Some (fd, bytes, blksize) \<Rightarrow> Some \<lparr>ff_fd = fd, ff_data = bytes, ff_blksize = blksize\<rparr>))"

definition file_read :: "file_data \<Rightarrow> nat \<Rightarrow> nat \<Rightarrow> flash_fault + (int + u8 list) \<times> file_data" where
  "file_read dev offset count =
     Inr (if length (ff_data dev) < offset + count then Inl (- EINVAL) else Inr (bytes_at offset count (ff_data dev)), dev)"

definition file_write :: "file_data \<Rightarrow> nat \<Rightarrow> u8 list \<Rightarrow> flash_fault + int \<times> file_data" where
  "file_write dev offset buffer =
     Inr (if length (ff_data dev) < offset + length buffer then (- EINVAL, dev)
          else (0, dev\<lparr>ff_data := patch offset buffer (ff_data dev)\<rparr>))"

definition file_erase :: "file_data \<Rightarrow> nat \<Rightarrow> nat \<Rightarrow> flash_fault + int \<times> file_data" where
  "file_erase dev offset count =
     Inr (if length (ff_data dev) < offset + count then (- EINVAL, dev)
          else (0, dev\<lparr>ff_data := patch offset (replicate count 0xFF) (ff_data dev)\<rparr>))"

definition file_get_size :: "file_data \<Rightarrow> nat" where
  "file_get_size dev = length (ff_data dev)"

definition file_get_write_size :: "file_data \<Rightarrow> nat" where
  "file_get_write_size dev = (if 0 < ff_fd dev then ff_blksize dev else 0)"

definition file_get_erase_size :: "file_data \<Rightarrow> nat" where
  "file_get_erase_size dev = (if 0 < ff_fd dev then ff_blksize dev else 0)"

definition file_get_fmap_offset :: "file_data \<Rightarrow> nat" where
  "file_get_fmap_offset dev = length (ff_data dev)"

definition flash_file_ops ::
  "(string \<Rightarrow> (int \<times> u8 list \<times> nat) option) \<Rightarrow> bool \<Rightarrow> (edify_value, file_data) flash_ops" where
  "flash_file_ops files calloc_ok =
     \<lparr>fo_name = ''file'', fo_open = file_open files calloc_ok, fo_read = file_read, fo_write = file_write,
      fo_erase = file_erase, fo_get_size = file_get_size, fo_get_write_size = file_get_write_size,
      fo_get_erase_size = file_get_erase_size, fo_get_fmap_offset = file_get_fmap_offset, fo_cmd = None\<rparr>"

lemmas file_defs = flash_file_ops_def file_read_def file_write_def file_erase_def

interpretation file_dev: reliable_medium "flash_file_ops files calloc_ok" ff_data "\<lambda>_. True"
  for files calloc_ok
  by unfold_locales (auto simp: file_defs EINVAL_def nth_patch split: if_splits)

text \<open>
  A blob can be read but neither written nor erased: its block size counts as 0, and the alignment
  test of \<^verbatim>\<open>flash_write\<close> and \<^verbatim>\<open>flash_erase\<close> divides by it.
\<close>

theorem blob_write_divides_by_zero:
  "\<exists>dev. flash_open [flash_file_ops files True] True (Some ''file'') (Value_Blob blob) = Some dev \<and>
     flash_read dev 0 (length blob) = Inr (Inr blob, dev) \<and>
     flash_write dev off buff = Inl Div_By_Zero \<and> flash_erase dev off len = Inl Div_By_Zero"
  by (simp add: flash_open_def flash_file_ops_def file_open_def file_blob_open_def flash_read_def flash_write_def
      flash_erase_def file_read_def file_get_write_size_def file_get_erase_size_def bytes_at_def)

end
