(* ===== verification/Flash_Mtd.thy ===== *)
theory Flash_Mtd
  imports Flash_Device
begin

text \<open>
  The flash device on the MTD interface of the kernel, \<^verbatim>\<open>recovery/updater/flash_mtd.c\<close>. The system calls
  are arguments; what the code relies on is that the device is NOR flash behind a character
  device, stated as \<open>nor_kernel\<close>.
\<close>

subsection \<open>The system calls\<close>

text \<open>
  The calls on the descriptor of the device, on the state \<open>'k\<close> of the kernel: \<^verbatim>\<open>lseek(fd, offset, SEEK_SET)\<close>,
  \<^verbatim>\<open>read\<close> with the bytes it stores, \<^verbatim>\<open>write\<close>, \<^verbatim>\<open>ioctl(fd, MEMERASE)\<close> with the fields of its argument, and
  \<^verbatim>\<open>errno\<close> after a failure.
\<close>

record 'k mtd_calls =
  mc_lseek :: "nat \<Rightarrow> 'k \<Rightarrow> int \<times> 'k"
  mc_read :: "nat \<Rightarrow> 'k \<Rightarrow> (int \<times> u8 list) \<times> 'k"
  mc_write :: "u8 list \<Rightarrow> 'k \<Rightarrow> int \<times> 'k"
  mc_erase :: "u32 \<Rightarrow> u32 \<Rightarrow> 'k \<Rightarrow> int \<times> 'k"
  mc_errno :: "'k \<Rightarrow> int"

text \<open>\<^verbatim>\<open>struct mtd_data\<close>, with the fields of \<^verbatim>\<open>struct mtd_info_user\<close> that are used, and the kernel.\<close>

record 'k mtd_data =
  md_fd :: int
  md_size :: u32
  md_erasesize :: u32
  md_writesize :: u32
  md_kernel :: 'k

text \<open>
  \<open>opened path\<close> is what \<^verbatim>\<open>open\<close> and \<^verbatim>\<open>MEMGETINFO\<close> give: nothing when the file cannot be opened, else the
  descriptor, the device information when the call succeeds, and the state of the kernel.
\<close>

record mtd_info =
  mi_type :: nat
  mi_size :: u32
  mi_erasesize :: u32
  mi_writesize :: u32

definition MTD_NORFLASH :: nat where
  "MTD_NORFLASH = 3"

definition DEFAULT_MTD_FILE :: string where
  "DEFAULT_MTD_FILE = ''/dev/mtd/mtd0''"

definition ALTERNATE_MTD_FILE :: string where
  "ALTERNATE_MTD_FILE = ''/dev/mtd0''"

definition mtd_open_path ::
  "(string \<Rightarrow> (int \<times> mtd_info option \<times> 'k) option) \<Rightarrow> bool \<Rightarrow> string \<Rightarrow> 'k mtd_data option" where
  "mtd_open_path opened calloc_ok path =
     (if \<not> calloc_ok then None
      else case opened path of
          None \<Rightarrow> None
        | Some (fd, info, k) \<Rightarrow>
            (case info of
               None \<Rightarrow> None
             | Some i \<Rightarrow>
                 if mi_type i \<noteq> MTD_NORFLASH then None
                 else Some \<lparr>md_fd = fd, md_size = mi_size i, md_erasesize = mi_erasesize i,
                            md_writesize = mi_writesize i, md_kernel = k\<rparr>))"

text \<open>The default path is tried first, and the alternate one when it cannot be opened.\<close>

definition mtd_open ::
  "(string \<Rightarrow> (int \<times> mtd_info option \<times> 'k) option) \<Rightarrow> bool \<Rightarrow> string option \<Rightarrow> 'k mtd_data option" where
  "mtd_open opened calloc_ok params =
     (case params of
        Some path \<Rightarrow> mtd_open_path opened calloc_ok path
      | None \<Rightarrow>
          if calloc_ok \<and> opened DEFAULT_MTD_FILE = None then mtd_open_path opened calloc_ok ALTERNATE_MTD_FILE
          else mtd_open_path opened calloc_ok DEFAULT_MTD_FILE)"

subsection \<open>Reading, writing, erasing\<close>

text \<open>
  The loops of \<^verbatim>\<open>mtd_read\<close> and \<^verbatim>\<open>mtd_write\<close>, which go on while a call returns 0. \<open>None\<close>: the loop never
  ends. A call never returns more than it was asked for.
\<close>

partial_function (option) mtd_read_loop ::
  "'k mtd_calls \<Rightarrow> nat \<Rightarrow> u8 list \<Rightarrow> 'k \<Rightarrow> ((int + u8 list) \<times> 'k) option" where
  "mtd_read_loop c count got k =
     (if count = 0 then Some (Inr got, k)
      else case mc_read c count k of
          ((res, bytes), k') \<Rightarrow>
            if res < 0 then Some (Inl (mc_errno c k'), k')
            else mtd_read_loop c (count - nat res) (got @ take (nat res) bytes) k')"

declare mtd_read_loop.simps [code]

partial_function (option) mtd_write_loop :: "'k mtd_calls \<Rightarrow> u8 list \<Rightarrow> 'k \<Rightarrow> (int \<times> 'k) option" where
  "mtd_write_loop c rest k =
     (if rest = [] then Some (0, k)
      else case mc_write c rest k of
          (res, k') \<Rightarrow>
            if res < 0 then Some (mc_errno c k', k')
            else mtd_write_loop c (drop (nat res) rest) k')"

declare mtd_write_loop.simps [code]

definition mtd_read ::
  "'k mtd_calls \<Rightarrow> 'k mtd_data \<Rightarrow> nat \<Rightarrow> nat \<Rightarrow> flash_fault + (int + u8 list) \<times> 'k mtd_data" where
  "mtd_read c dev offset count =
     (case mc_lseek c offset (md_kernel dev) of
        (pos, k) \<Rightarrow>
          if pos \<noteq> int offset then Inr (Inl (mc_errno c k), dev\<lparr>md_kernel := k\<rparr>)
          else case mtd_read_loop c count [] k of
              None \<Rightarrow> Inl Never_Returns
            | Some (r, k') \<Rightarrow> Inr (r, dev\<lparr>md_kernel := k'\<rparr>))"

definition mtd_write ::
  "'k mtd_calls \<Rightarrow> 'k mtd_data \<Rightarrow> nat \<Rightarrow> u8 list \<Rightarrow> flash_fault + int \<times> 'k mtd_data" where
  "mtd_write c dev offset buffer =
     (case mc_lseek c offset (md_kernel dev) of
        (pos, k) \<Rightarrow>
          if pos \<noteq> int offset then Inr (mc_errno c k, dev\<lparr>md_kernel := k\<rparr>)
          else case mtd_write_loop c buffer k of
              None \<Rightarrow> Inl Never_Returns
            | Some (r, k') \<Rightarrow> Inr (r, dev\<lparr>md_kernel := k'\<rparr>))"

text \<open>The offset and the length are cut to 32 bits in \<^verbatim>\<open>struct erase_info_user\<close>.\<close>

definition mtd_erase ::
  "'k mtd_calls \<Rightarrow> 'k mtd_data \<Rightarrow> nat \<Rightarrow> nat \<Rightarrow> flash_fault + int \<times> 'k mtd_data" where
  "mtd_erase c dev offset count =
     (case mc_erase c (of_nat offset) (of_nat count) (md_kernel dev) of
        (res, k) \<Rightarrow> Inr (if res < 0 then mc_errno c k else 0, dev\<lparr>md_kernel := k\<rparr>))"

definition mtd_get_size :: "'k mtd_data \<Rightarrow> nat" where
  "mtd_get_size dev = (if 0 < md_fd dev then unat (md_size dev) else 0)"

definition mtd_get_write_size :: "'k mtd_data \<Rightarrow> nat" where
  "mtd_get_write_size dev = (if 0 < md_fd dev then unat (md_writesize dev) else 0)"

definition mtd_get_erase_size :: "'k mtd_data \<Rightarrow> nat" where
  "mtd_get_erase_size dev = (if 0 < md_fd dev then unat (md_erasesize dev) else 0)"

text \<open>\<open>fdt_fmap_offset\<close> is what \<^verbatim>\<open>fdt_read_u32("fmap-offset")\<close> returns; the sum wraps around.\<close>

definition mtd_get_fmap_offset :: "u32 \<Rightarrow> 'k mtd_data \<Rightarrow> nat" where
  "mtd_get_fmap_offset fdt_fmap_offset dev = unat (fdt_fmap_offset + 64)"

definition flash_mtd_ops ::
  "(string \<Rightarrow> (int \<times> mtd_info option \<times> 'k) option) \<Rightarrow> bool \<Rightarrow> u32 \<Rightarrow> 'k mtd_calls
     \<Rightarrow> (string option, 'k mtd_data) flash_ops" where
  "flash_mtd_ops opened calloc_ok fdt_fmap_offset c =
     \<lparr>fo_name = ''spi'', fo_open = mtd_open opened calloc_ok, fo_read = mtd_read c, fo_write = mtd_write c,
      fo_erase = mtd_erase c, fo_get_size = mtd_get_size, fo_get_write_size = mtd_get_write_size,
      fo_get_erase_size = mtd_get_erase_size, fo_get_fmap_offset = mtd_get_fmap_offset fdt_fmap_offset, fo_cmd = None\<rparr>"

subsection \<open>NOR flash behind the calls\<close>

text \<open>
  What the kernel documents: \<open>mem\<close> are the bytes of the chip and \<open>pos\<close> is the file position. A read inside
  the chip returns at least one byte and a read at its end returns 0. Writing can only clear
  bits. A read or write inside the bounds may be short but does not fail.
\<close>

record 'k nor_view =
  nv_mem :: "'k \<Rightarrow> u8 list"
  nv_pos :: "'k \<Rightarrow> nat"

definition seek_law :: "'k mtd_calls \<Rightarrow> 'k nor_view \<Rightarrow> bool" where
  "seek_law c v \<longleftrightarrow>
     (\<forall>off k. nv_mem v (snd (mc_lseek c off k)) = nv_mem v k \<and>
        (off \<le> length (nv_mem v k) \<longrightarrow>
           fst (mc_lseek c off k) = int off \<and> nv_pos v (snd (mc_lseek c off k)) = off) \<and>
        (length (nv_mem v k) < off \<longrightarrow> fst (mc_lseek c off k) = - 1))"

definition read_law :: "'k mtd_calls \<Rightarrow> 'k nor_view \<Rightarrow> bool" where
  "read_law c v \<longleftrightarrow>
     (\<forall>n k. 0 < n \<longrightarrow> nv_pos v k \<le> length (nv_mem v k) \<longrightarrow>
        (\<exists>j k'. mc_read c n k = ((int j, bytes_at (nv_pos v k) j (nv_mem v k)), k') \<and>
           nv_mem v k' = nv_mem v k \<and> nv_pos v k' = nv_pos v k + j \<and> j \<le> n \<and>
           nv_pos v k + j \<le> length (nv_mem v k) \<and> (nv_pos v k < length (nv_mem v k) \<longrightarrow> 0 < j)))"

definition write_law :: "'k mtd_calls \<Rightarrow> 'k nor_view \<Rightarrow> bool" where
  "write_law c v \<longleftrightarrow>
     (\<forall>ys k. ys \<noteq> [] \<longrightarrow> nv_pos v k \<le> length (nv_mem v k) \<longrightarrow>
        (if nv_pos v k < length (nv_mem v k)
         then \<exists>j k'. mc_write c ys k = (int j, k') \<and> 0 < j \<and> j \<le> length ys \<and> nv_pos v k' = nv_pos v k + j \<and>
                nv_pos v k + j \<le> length (nv_mem v k) \<and>
                nv_mem v k' = patch (nv_pos v k) (map2 (and) (bytes_at (nv_pos v k) j (nv_mem v k)) (take j ys)) (nv_mem v k)
         else \<exists>k'. mc_write c ys k = (- 1, k') \<and> nv_mem v k' = nv_mem v k))"

definition erase_law :: "'k mtd_calls \<Rightarrow> 'k nor_view \<Rightarrow> bool" where
  "erase_law c v \<longleftrightarrow>
     (\<forall>start len k.
        if unat start + unat len \<le> length (nv_mem v k)
        then fst (mc_erase c start len k) = 0 \<and>
             nv_mem v (snd (mc_erase c start len k)) = patch (unat start) (replicate (unat len) 0xFF) (nv_mem v k)
        else fst (mc_erase c start len k) = - 1 \<and> nv_mem v (snd (mc_erase c start len k)) = nv_mem v k)"

definition nor_kernel :: "'k mtd_calls \<Rightarrow> 'k nor_view \<Rightarrow> bool" where
  "nor_kernel c v \<longleftrightarrow>
     seek_law c v \<and> read_law c v \<and> write_law c v \<and> erase_law c v \<and> (\<forall>k. mc_errno c k \<noteq> 0)"

lemma nor_kernelD:
  assumes "nor_kernel c v"
  shows "seek_law c v" "read_law c v" "write_law c v" "erase_law c v" "mc_errno c k \<noteq> 0"
  using assms by (simp_all add: nor_kernel_def)

lemma read_lawD:
  assumes "read_law c v" "0 < n" "nv_pos v k < length (nv_mem v k)"
  shows "\<exists>j k'. mc_read c n k = ((int j, bytes_at (nv_pos v k) j (nv_mem v k)), k') \<and>
    nv_mem v k' = nv_mem v k \<and> nv_pos v k' = nv_pos v k + j \<and> j \<le> n \<and> nv_pos v k + j \<le> length (nv_mem v k) \<and> 0 < j"
proof -
  have "nv_pos v k \<le> length (nv_mem v k)" using assms(3) by simp
  from assms(1) [unfolded read_law_def, rule_format, OF assms(2) this] assms(3) show ?thesis by blast
qed

lemma write_lawD:
  assumes "write_law c v" "ys \<noteq> []" "nv_pos v k < length (nv_mem v k)"
  shows "\<exists>j k'. mc_write c ys k = (int j, k') \<and> 0 < j \<and> j \<le> length ys \<and> nv_pos v k' = nv_pos v k + j \<and>
    nv_pos v k + j \<le> length (nv_mem v k) \<and>
    nv_mem v k' = patch (nv_pos v k) (map2 (and) (bytes_at (nv_pos v k) j (nv_mem v k)) (take j ys)) (nv_mem v k)"
proof -
  have "nv_pos v k \<le> length (nv_mem v k)" using assms(3) by simp
  from assms(1) [unfolded write_law_def, rule_format, OF assms(2) this] assms(3) show ?thesis by simp
qed

lemma write_lawD_full:
  assumes "write_law c v" "ys \<noteq> []" "nv_pos v k = length (nv_mem v k)"
  shows "\<exists>k'. mc_write c ys k = (- 1, k') \<and> nv_mem v k' = nv_mem v k"
  using assms(1) [unfolded write_law_def, rule_format, OF assms(2), of k] assms(3) by simp

lemma read_loop_done:
  assumes "read_law c v" "nv_pos v k + count \<le> length (nv_mem v k)"
  shows "\<exists>k'. mtd_read_loop c count got k = Some (Inr (got @ bytes_at (nv_pos v k) count (nv_mem v k)), k') \<and>
    nv_mem v k' = nv_mem v k"
  using assms(2)
proof (induction count arbitrary: got k rule: less_induct)
  case (less count)
  show ?case
  proof (cases "count = 0")
    case True
    then show ?thesis by (subst mtd_read_loop.simps) (simp add: bytes_at_def)
  next
    case False
    then obtain j k' where r: "mc_read c count k = ((int j, bytes_at (nv_pos v k) j (nv_mem v k)), k')"
        "nv_mem v k' = nv_mem v k" "nv_pos v k' = nv_pos v k + j" "j \<le> count" "0 < j"
      using read_lawD [OF assms(1), of count k] less.prems by auto
    have "nv_pos v k' + (count - j) \<le> length (nv_mem v k')" using r less.prems by simp
    from less.IH [OF _ this, of "got @ bytes_at (nv_pos v k) j (nv_mem v k)"] r(4,5) False
    obtain k'' where k'': "mtd_read_loop c (count - j) (got @ bytes_at (nv_pos v k) j (nv_mem v k)) k' =
        Some (Inr ((got @ bytes_at (nv_pos v k) j (nv_mem v k)) @ bytes_at (nv_pos v k') (count - j) (nv_mem v k')), k'')"
        "nv_mem v k'' = nv_mem v k'" by auto
    have "bytes_at (nv_pos v k) count (nv_mem v k) = bytes_at (nv_pos v k) j (nv_mem v k) @ bytes_at (nv_pos v k + j) (count - j) (nv_mem v k)"
      using bytes_at_add [of "nv_pos v k" j "count - j" "nv_mem v k"] r(4) by simp
    moreover have "length (bytes_at (nv_pos v k) j (nv_mem v k)) = j" using r(4) less.prems by simp
    ultimately show ?thesis
      using k'' r(1,2,3) False by (subst mtd_read_loop.simps) (simp)
  qed
qed

text \<open>Past the end of the chip the calls return 0 for ever.\<close>

lemma read_loop_endless:
  assumes "read_law c v" "mtd_read_loop c count got k = Some r"
  shows "nv_pos v k \<le> length (nv_mem v k) \<longrightarrow> nv_pos v k + count \<le> length (nv_mem v k)"
proof -
  define P where "P c' count' (got' :: u8 list) k' (y :: (int + u8 list) \<times> 'a) \<longleftrightarrow>
      (c' = c \<longrightarrow> nv_pos v k' \<le> length (nv_mem v k') \<longrightarrow> nv_pos v k' + count' \<le> length (nv_mem v k'))"
    for c' count' got' k' y
  have "P c count got k r"
  proof (rule mtd_read_loop.raw_induct [OF _ assms(2), of P])
    fix loop c' count' got' k' y
    assume IH: "\<And>c n g k y. loop c n g k = Some y \<Longrightarrow> P c n g k y"
      and step: "(if count' = 0 then Some (Inr got', k')
        else case mc_read c' count' k' of ((res, bytes), k'') \<Rightarrow>
          if res < 0 then Some (Inl (mc_errno c' k''), k'')
          else loop c' (count' - nat res) (got' @ take (nat res) bytes) k'') = Some y"
    show "P c' count' got' k' y" unfolding P_def
    proof (intro impI, rule ccontr)
      assume c: "c' = c" and pos: "nv_pos v k' \<le> length (nv_mem v k')" and over: "\<not> nv_pos v k' + count' \<le> length (nv_mem v k')"
      then have n: "0 < count'" by simp
      from assms(1) [unfolded read_law_def, rule_format, OF n pos] obtain j k'' where
        r: "mc_read c count' k' = ((int j, bytes_at (nv_pos v k') j (nv_mem v k')), k'')" "nv_mem v k'' = nv_mem v k'"
          "nv_pos v k'' = nv_pos v k' + j" "nv_pos v k' + j \<le> length (nv_mem v k')" by blast
      have "loop c' (count' - j) (got' @ take j (bytes_at (nv_pos v k') j (nv_mem v k'))) k'' = Some y"
        using step r(1) n c by simp
      from IH [OF this] r over c show False by (simp add: P_def)
    qed
  qed
  then show ?thesis by (simp add: P_def)
qed

definition nor_write :: "nat \<Rightarrow> u8 list \<Rightarrow> u8 list \<Rightarrow> u8 list" where
  "nor_write pos ys mem = patch pos (map2 (and) (bytes_at pos (length ys) mem) ys) mem"

lemma nth_nor_write:
  assumes "pos + length ys \<le> length mem" "i < length mem"
  shows "nor_write pos ys mem ! i = (if pos \<le> i \<and> i < pos + length ys then and (mem ! i) (ys ! (i - pos)) else mem ! i)"
  using assms by (auto simp: nor_write_def nth_patch nth_bytes_at)

lemma length_nor_write [simp]: "pos + length ys \<le> length mem \<Longrightarrow> length (nor_write pos ys mem) = length mem"
  by (simp add: nor_write_def)

lemma nor_write_append:
  assumes "pos + length (xs @ ys) \<le> length mem"
  shows "nor_write (pos + length xs) ys (nor_write pos xs mem) = nor_write pos (xs @ ys) mem"
  by (rule nth_equalityI) (use assms in \<open>auto simp: nth_nor_write nth_append\<close>)

lemma nor_write_over:
  assumes "pos + length ys \<le> length mem" "writable_over (bytes_at pos (length ys) mem) ys"
  shows "nor_write pos ys mem = patch pos ys mem"
proof (rule nth_equalityI)
  fix i
  assume "i < length (nor_write pos ys mem)"
  then have i: "i < length mem" using assms(1) by simp
  have "and (mem ! (pos + j)) (ys ! j) = ys ! j" if "j < length ys" for j
    using assms that by (simp add: writable_over_def list_all2_conv_all_nth nth_bytes_at)
  from this [of "i - pos"] i assms(1) show "nor_write pos ys mem ! i = patch pos ys mem ! i"
    by (auto simp: nth_nor_write nth_patch)
qed (use assms(1) in simp)

text \<open>Writing goes as far as the chip reaches.\<close>

lemma write_loop_result:
  assumes w: "write_law c v" and e: "\<And>k. mc_errno c k \<noteq> 0" and pos: "nv_pos v k \<le> length (nv_mem v k)"
  shows "\<exists>rc k'. mtd_write_loop c ys k = Some (rc, k') \<and> (rc = 0 \<longleftrightarrow> nv_pos v k + length ys \<le> length (nv_mem v k)) \<and>
    nv_mem v k' = nor_write (nv_pos v k) (take (length (nv_mem v k) - nv_pos v k) ys) (nv_mem v k)"
  using pos
proof (induction ys arbitrary: k rule: length_induct)
  case (1 ys)
  let ?p = "nv_pos v k" and ?m = "nv_mem v k"
  consider "ys = []" | "ys \<noteq> []" "?p = length ?m" | "ys \<noteq> []" "?p < length ?m" using "1.prems" by linarith
  then show ?case
  proof cases
    case 1
    then show ?thesis using "1.prems" by (subst mtd_write_loop.simps) (simp add: nor_write_def patch_def)
  next
    case 2
    from write_lawD_full [OF w 2] obtain k' where "mc_write c ys k = (- 1, k')" "nv_mem v k' = ?m" by blast
    with 2 e show ?thesis by (subst mtd_write_loop.simps) (simp add: nor_write_def patch_def)
  next
    case 3
    from write_lawD [OF w 3] obtain j k' where
      j: "mc_write c ys k = (int j, k')" "0 < j" "j \<le> length ys" "nv_pos v k' = ?p + j" "?p + j \<le> length ?m"
        "nv_mem v k' = patch ?p (map2 (and) (bytes_at ?p j ?m) (take j ys)) ?m" by blast
    have m': "nv_mem v k' = nor_write ?p (take j ys) ?m" using j(3,6) by (simp add: nor_write_def min_absorb2)
    have len: "length (nv_mem v k') = length ?m" using m' j(3,5) by simp
    have "length (drop j ys) < length ys" using j(2) 3(1) by simp
    moreover have "nv_pos v k' \<le> length (nv_mem v k')" using j(4,5) len by simp
    ultimately obtain rc k'' where r: "mtd_write_loop c (drop j ys) k' = Some (rc, k'')"
        "rc = 0 \<longleftrightarrow> nv_pos v k' + length (drop j ys) \<le> length (nv_mem v k')"
        "nv_mem v k'' = nor_write (nv_pos v k') (take (length (nv_mem v k') - nv_pos v k') (drop j ys)) (nv_mem v k')"
      using "1.IH" by blast
    have split: "take (length ?m - ?p) ys = take j ys @ take (length ?m - ?p - j) (drop j ys)"
      using j(5) take_add [of j "length ?m - ?p - j" ys] by simp
    have "nv_mem v k'' = nor_write (?p + length (take j ys)) (take (length ?m - ?p - j) (drop j ys)) (nor_write ?p (take j ys) ?m)"
      using r(3) len j(3,4) m' by simp
    also have "\<dots> = nor_write ?p (take (length ?m - ?p) ys) ?m"
      unfolding split by (rule nor_write_append) (use j(3,5) in simp)
    finally show ?thesis using r(1,2) 3(1) j(1,3,4) len by (subst mtd_write_loop.simps) auto
  qed
qed

subsection \<open>The contract\<close>

lemma lseek_cases:
  assumes "seek_law c v"
  obtains k' where "mc_lseek c off k = (int off, k')" "off \<le> length (nv_mem v k)" "nv_mem v k' = nv_mem v k" "nv_pos v k' = off"
  | k' where "mc_lseek c off k = (- 1, k')" "length (nv_mem v k) < off" "nv_mem v k' = nv_mem v k"
  using assms unfolding seek_law_def by (metis linorder_not_less prod.collapse)

lemma mtd_read_result:
  assumes n: "nor_kernel c v"
  shows "off + n \<le> length (nv_mem v (md_kernel dev)) \<Longrightarrow>
      \<exists>k'. mtd_read c dev off n = Inr (Inr (bytes_at off n (nv_mem v (md_kernel dev))), dev\<lparr>md_kernel := k'\<rparr>) \<and>
        nv_mem v k' = nv_mem v (md_kernel dev)"
    and "length (nv_mem v (md_kernel dev)) < off \<Longrightarrow>
      \<exists>r k'. mtd_read c dev off n = Inr (Inl r, dev\<lparr>md_kernel := k'\<rparr>) \<and> nv_mem v k' = nv_mem v (md_kernel dev)"
    and "off \<le> length (nv_mem v (md_kernel dev)) \<Longrightarrow> length (nv_mem v (md_kernel dev)) < off + n \<Longrightarrow>
      mtd_read c dev off n = Inl Never_Returns"
proof -
  note law = nor_kernelD [OF n]
  let ?m = "nv_mem v (md_kernel dev)"
  show "\<exists>k'. mtd_read c dev off n = Inr (Inr (bytes_at off n ?m), dev\<lparr>md_kernel := k'\<rparr>) \<and> nv_mem v k' = ?m"
    if "off + n \<le> length ?m"
  proof (rule lseek_cases [OF law(1), of off "md_kernel dev"])
    fix k'
    assume k': "mc_lseek c off (md_kernel dev) = (int off, k')" "nv_mem v k' = ?m" "nv_pos v k' = off"
    with that read_loop_done [OF law(2), of k' n "[]"] show ?thesis by (auto simp: mtd_read_def)
  qed (use that in simp)
  show "\<exists>r k'. mtd_read c dev off n = Inr (Inl r, dev\<lparr>md_kernel := k'\<rparr>) \<and> nv_mem v k' = ?m" if "length ?m < off"
    by (rule lseek_cases [OF law(1), of off "md_kernel dev"]) (use that in \<open>auto simp: mtd_read_def\<close>)
  show "mtd_read c dev off n = Inl Never_Returns" if "off \<le> length ?m" "length ?m < off + n"
  proof (rule lseek_cases [OF law(1), of off "md_kernel dev"])
    fix k'
    assume k': "mc_lseek c off (md_kernel dev) = (int off, k')" "nv_mem v k' = ?m" "nv_pos v k' = off"
    have "mtd_read_loop c n [] k' \<noteq> Some r" for r
      using read_loop_endless [OF law(2), of n "[]" k' r] k' that by auto
    then show ?thesis using k' by (simp add: mtd_read_def split: option.split)
  qed (use that in simp)
qed

lemma mtd_write_result:
  assumes n: "nor_kernel c v"
  shows "\<exists>rc k'. mtd_write c dev off ys = Inr (rc, dev\<lparr>md_kernel := k'\<rparr>) \<and>
    (rc = 0 \<longleftrightarrow> off + length ys \<le> length (nv_mem v (md_kernel dev))) \<and>
    nv_mem v k' = (if off \<le> length (nv_mem v (md_kernel dev))
      then nor_write off (take (length (nv_mem v (md_kernel dev)) - off) ys) (nv_mem v (md_kernel dev))
      else nv_mem v (md_kernel dev))"
proof -
  note law = nor_kernelD [OF n]
  show ?thesis
  proof (rule lseek_cases [OF law(1), of off "md_kernel dev"])
    fix k'
    assume k': "mc_lseek c off (md_kernel dev) = (int off, k')" "off \<le> length (nv_mem v (md_kernel dev))"
      "nv_mem v k' = nv_mem v (md_kernel dev)" "nv_pos v k' = off"
    with write_loop_result [OF law(3,5), of k' ys] show ?thesis by (auto simp: mtd_write_def)
  next
    fix k'
    assume "mc_lseek c off (md_kernel dev) = (- 1, k')" "length (nv_mem v (md_kernel dev)) < off"
      "nv_mem v k' = nv_mem v (md_kernel dev)"
    with law(5) [of k'] show ?thesis by (auto simp: mtd_write_def)
  qed
qed

lemma mtd_erase_result:
  assumes n: "nor_kernel c v" and b: "off < 2 ^ 32" "len < 2 ^ 32"
  shows "\<exists>rc k'. mtd_erase c dev off len = Inr (rc, dev\<lparr>md_kernel := k'\<rparr>) \<and>
    (rc = 0 \<longleftrightarrow> off + len \<le> length (nv_mem v (md_kernel dev))) \<and>
    nv_mem v k' = (if off + len \<le> length (nv_mem v (md_kernel dev))
      then patch off (replicate len 0xFF) (nv_mem v (md_kernel dev)) else nv_mem v (md_kernel dev))"
proof -
  have u: "unat (of_nat off :: u32) = off" "unat (of_nat len :: u32) = len" using b by (simp_all add: unsigned_of_nat take_bit_nat_eq_self)
  obtain res k' where r: "mc_erase c (of_nat off) (of_nat len) (md_kernel dev) = (res, k')" by force
  from nor_kernelD(4) [OF n, unfolded erase_law_def, rule_format, of "of_nat off" "of_nat len" "md_kernel dev"] r u nor_kernelD(5) [OF n]
  show ?thesis by (auto simp: mtd_erase_def split: if_splits)
qed

definition mtd_contents :: "'k nor_view \<Rightarrow> 'k mtd_data \<Rightarrow> u8 list" where
  "mtd_contents v dev = nv_mem v (md_kernel dev)"

lemma mtd_reliable:
  assumes n: "nor_kernel c v"
  shows "reliable_medium (flash_mtd_ops opened calloc_ok fdt c) (mtd_contents v) (\<lambda>_. True)"
proof
  fix h h' :: "'a mtd_data" and off n xs r rc
  show "off + n \<le> length (mtd_contents v h) \<and> xs = bytes_at off n (mtd_contents v h)"
    if "fo_read (flash_mtd_ops opened calloc_ok fdt c) h off n = Inr (Inr xs, h')"
    using that mtd_read_result [OF n, where off = off and n = n and dev = h] by (cases "off \<le> length (mtd_contents v h)"; cases "off + n \<le> length (mtd_contents v h)")
      (auto simp: flash_mtd_ops_def mtd_contents_def)
  show "True \<and> mtd_contents v h' = mtd_contents v h"
    if "fo_read (flash_mtd_ops opened calloc_ok fdt c) h off n = Inr (r, h')"
    using that mtd_read_result [OF n, where off = off and n = n and dev = h] by (cases "off \<le> length (mtd_contents v h)"; cases "off + n \<le> length (mtd_contents v h)")
      (auto simp: flash_mtd_ops_def mtd_contents_def)
  show "\<exists>xs h'. fo_read (flash_mtd_ops opened calloc_ok fdt c) h off n = Inr (Inr xs, h')" if "off + n \<le> length (mtd_contents v h)"
    using that mtd_read_result(1) [OF n, of off n h] by (auto simp: flash_mtd_ops_def mtd_contents_def)
next
  fix h h' :: "'a mtd_data" and off xs rc
  let ?m = "mtd_contents v h"
  obtain rc' k' where w: "fo_write (flash_mtd_ops opened calloc_ok fdt c) h off xs = Inr (rc', h\<lparr>md_kernel := k'\<rparr>)"
      "rc' = 0 \<longleftrightarrow> off + length xs \<le> length ?m"
      "nv_mem v k' = (if off \<le> length ?m then nor_write off (take (length ?m - off) xs) ?m else ?m)"
    using mtd_write_result [OF n, of h off xs] by (auto simp: flash_mtd_ops_def mtd_contents_def)
  show "True \<and> length (mtd_contents v h') = length ?m \<and>
      (\<forall>i < length ?m. i < off \<or> off + length xs \<le> i \<longrightarrow> mtd_contents v h' ! i = ?m ! i)"
    if "fo_write (flash_mtd_ops opened calloc_ok fdt c) h off xs = Inr (rc, h')"
    using that w by (auto simp: mtd_contents_def nth_nor_write)
  show "off + length xs \<le> length ?m \<and> mtd_contents v h' = patch off xs ?m"
    if "fo_write (flash_mtd_ops opened calloc_ok fdt c) h off xs = Inr (0, h')" "writable_over (bytes_at off (length xs) ?m) xs"
  proof -
    have fits: "off + length xs \<le> length ?m" using that(1) w(1,2) by simp
    then have "take (length ?m - off) xs = xs" by simp
    with that w(1,3) fits nor_write_over [OF fits that(2)] show ?thesis by (auto simp: mtd_contents_def)
  qed
  show "\<exists>h'. fo_write (flash_mtd_ops opened calloc_ok fdt c) h off xs = Inr (0, h')" if "off + length xs \<le> length ?m"
    using that w(1,2) by auto
next
  fix h h' :: "'a mtd_data" and off n :: nat and rc
  let ?m = "mtd_contents v h"
  assume b: "off < 2 ^ 32" "n < 2 ^ 32"
  obtain rc' k' where e: "fo_erase (flash_mtd_ops opened calloc_ok fdt c) h off n = Inr (rc', h\<lparr>md_kernel := k'\<rparr>)"
      "rc' = 0 \<longleftrightarrow> off + n \<le> length ?m"
      "nv_mem v k' = (if off + n \<le> length ?m then patch off (replicate n 0xFF) ?m else ?m)"
    using mtd_erase_result [OF \<open>nor_kernel c v\<close> b, of h] by (auto simp: flash_mtd_ops_def mtd_contents_def)
  show "True \<and> length (mtd_contents v h') = length ?m \<and>
      (\<forall>i < length ?m. i < off \<or> off + n \<le> i \<longrightarrow> mtd_contents v h' ! i = ?m ! i)"
    if "fo_erase (flash_mtd_ops opened calloc_ok fdt c) h off n = Inr (rc, h')"
    using that e by (auto simp: mtd_contents_def nth_patch)
  show "off + n \<le> length ?m \<and> mtd_contents v h' = patch off (replicate n 0xFF) ?m"
    if "fo_erase (flash_mtd_ops opened calloc_ok fdt c) h off n = Inr (0, h')"
    using that e by (auto simp: mtd_contents_def)
  show "\<exists>h'. fo_erase (flash_mtd_ops opened calloc_ok fdt c) h off n = Inr (0, h')" if "off + n \<le> length ?m"
    using that e(1,2) by auto
qed

subsection \<open>A chip\<close>

text \<open>A NOR chip behind calls that transfer at most four bytes.\<close>

record nor_chip =
  ch_mem :: "u8 list"
  ch_pos :: nat

definition chip_view :: "nor_chip nor_view" where
  "chip_view = \<lparr>nv_mem = ch_mem, nv_pos = ch_pos\<rparr>"

definition chip_calls :: "nor_chip mtd_calls" where
  "chip_calls =
     \<lparr>mc_lseek = (\<lambda>off k. if off \<le> length (ch_mem k) then (int off, k\<lparr>ch_pos := off\<rparr>) else (- 1, k)),
      mc_read = (\<lambda>n k. let j = min (min n 4) (length (ch_mem k) - ch_pos k)
        in ((int j, bytes_at (ch_pos k) j (ch_mem k)), k\<lparr>ch_pos := ch_pos k + j\<rparr>)),
      mc_write = (\<lambda>ys k. let j = min (min (length ys) 4) (length (ch_mem k) - ch_pos k)
        in if j = 0 then (- 1, k)
           else (int j, k\<lparr>ch_mem := patch (ch_pos k) (map2 (and) (bytes_at (ch_pos k) j (ch_mem k)) (take j ys)) (ch_mem k),
                          ch_pos := ch_pos k + j\<rparr>)),
      mc_erase = (\<lambda>start len k. if unat start + unat len \<le> length (ch_mem k)
        then (0, k\<lparr>ch_mem := patch (unat start) (replicate (unat len) 0xFF) (ch_mem k)\<rparr>) else (- 1, k)),
      mc_errno = (\<lambda>_. 5)\<rparr>"

lemma chip_kernel: "nor_kernel chip_calls chip_view"
  unfolding nor_kernel_def
proof (intro conjI)
  show "seek_law chip_calls chip_view" by (auto simp: seek_law_def chip_calls_def chip_view_def)
  show "read_law chip_calls chip_view" by (auto simp: read_law_def chip_calls_def chip_view_def Let_def)
  show "write_law chip_calls chip_view" by (auto simp: write_law_def chip_calls_def chip_view_def Let_def min_def split: if_splits)
  show "erase_law chip_calls chip_view" by (auto simp: erase_law_def chip_calls_def chip_view_def)
qed (simp add: chip_calls_def)


definition demo_chip :: "nor_chip mtd_data" where
  "demo_chip = \<lparr>md_fd = 3, md_size = 8, md_erasesize = 4, md_writesize = 1,
     md_kernel = \<lparr>ch_mem = [1, 2, 3, 4, 5, 6, 7, 8], ch_pos = 0\<rparr>\<rparr>"


end
