(* ===== verification/Vboot.thy ===== *)
theory Vboot
  imports Flash_Mtd
begin

unbundle bit_operations_syntax

text \<open>
  The boot data of the firmware, \<^verbatim>\<open>recovery/updater/vboot_interface.c\<close> with the functions of
  \<^verbatim>\<open>recovery/updater/flash_device.c\<close> that call it: the flash map and its sections, the root key in the
  Google Binary Block, and the flags in the NVRAM section, which is a log of 16-byte blocks in
  flash. \<open>fdt\<close> gives the bytes of a property of the device tree, when its file can be read.
\<close>

subsection \<open>The device tree\<close>

text \<open>A property with the NUL byte that is added to it.\<close>

definition fdt_read_string :: "(string \<Rightarrow> u8 list option) \<Rightarrow> allocator \<Rightarrow> string \<Rightarrow> u8 list option" where
  "fdt_read_string fdt alloc prp =
     (case fdt prp of
        None \<Rightarrow> None
      | Some bytes \<Rightarrow> if \<not> alloc (length bytes + 1) then None else Some (bytes @ [0]))"

text \<open>The first four bytes, most significant byte first; \<open>-1\<close> when there are not as many.\<close>

definition fdt_read_u32 :: "(string \<Rightarrow> u8 list option) \<Rightarrow> string \<Rightarrow> u32" where
  "fdt_read_u32 fdt prp =
     (case fdt prp of
        None \<Rightarrow> - 1
      | Some bytes \<Rightarrow> if length bytes < 4 then - 1 else of_nat (le_val (rev (take 4 bytes))))"

text \<open>The part of \<^verbatim>\<open>vboot_struct.h\<close> that is used, and the partition that is running.\<close>

record shared_data_layout =
  sl_magic :: nat
  sl_magic_at :: nat
  sl_firmware_index_at :: nat

definition vboot_get_mainfw_act ::
  "shared_data_layout \<Rightarrow> (string \<Rightarrow> u8 list option) \<Rightarrow> allocator \<Rightarrow> flash_fault + char" where
  "vboot_get_mainfw_act s fdt alloc =
     (case fdt_read_string fdt alloc ''vboot-shared-data'' of
        None \<Rightarrow> Inr (CHR ''E'')
      | Some shd \<Rightarrow>
          if length shd < sl_magic_at s + 4 then Inl Over_Read
          else if le_val (bytes_at (sl_magic_at s) 4 shd) \<noteq> sl_magic s then Inr (CHR ''E'')
          else if length shd \<le> sl_firmware_index_at s then Inl Over_Read
          else
            (let idx = shd ! sl_firmware_index_at s
             in Inr (if idx = 0 then CHR ''A'' else if idx = 1 then CHR ''B'' else if idx = 0xFF then CHR ''R'' else CHR ''E'')))"

subsection \<open>The flash map\<close>

definition bytes_of :: "string \<Rightarrow> u8 list" where
  "bytes_of s = map of_char s"

definition FMAP_SIGNATURE :: "u8 list" where
  "FMAP_SIGNATURE = bytes_of ''__FMAP__''"

text \<open>
  The loop of \<^verbatim>\<open>fmap_scan_offset\<close>, which goes down in steps of 64 bytes: \<open>Suc k\<close> when the offset is
  \<open>64 * Suc k\<close> before the step.
\<close>

fun fmap_scan :: "('p, 'h) flash_device \<Rightarrow> nat \<Rightarrow> flash_fault + nat \<times> ('p, 'h) flash_device" where
  "fmap_scan dev 0 = Inr (0, dev)"
| "fmap_scan dev (Suc k) =
     and_then (flash_read dev (64 * k) 8) (\<lambda>(r, dev').
       (case r of
          Inl _ \<Rightarrow> Inr (64 * k, dev')
        | Inr sig \<Rightarrow> if sig = FMAP_SIGNATURE \<or> k = 0 then Inr (64 * k, dev') else fmap_scan dev' k))"

text \<open>The offset is a \<^verbatim>\<open>uint32_t\<close>: from 0 the first step wraps around.\<close>

definition fmap_scan_offset ::
  "('p, 'h) flash_device \<Rightarrow> nat \<Rightarrow> flash_fault + nat \<times> ('p, 'h) flash_device" where
  "fmap_scan_offset dev end_off =
     (let off = unat (of_nat (end_off - end_off mod 64) :: u32)
      in fmap_scan dev (if off = 0 then 2 ^ 32 div 64 else off div 64))"

text \<open>The packed \<^verbatim>\<open>struct fmap\<close> and \<^verbatim>\<open>struct fmap_area\<close>.\<close>

definition sizeof_fmap :: nat where "sizeof_fmap = 56"
definition sizeof_area :: nat where "sizeof_area = 42"

definition fmap_nareas :: "u8 list \<Rightarrow> nat" where
  "fmap_nareas fm = le_val (bytes_at 54 2 fm)"

definition area_at :: "nat \<Rightarrow> nat" where
  "area_at i = sizeof_fmap + i * sizeof_area"

definition area_offset :: "u8 list \<Rightarrow> nat \<Rightarrow> nat" where
  "area_offset fm i = le_val (bytes_at (area_at i) 4 fm)"

definition area_size :: "u8 list \<Rightarrow> nat \<Rightarrow> nat" where
  "area_size fm i = le_val (bytes_at (area_at i + 4) 4 fm)"

text \<open>The result of the allocation is not tested before the map is read into it.\<close>

definition fmap_load ::
  "allocator \<Rightarrow> ('p, 'h) flash_device \<Rightarrow> nat \<Rightarrow> flash_fault + u8 list option \<times> ('p, 'h) flash_device" where
  "fmap_load alloc dev offset =
     and_then (flash_read dev offset sizeof_fmap) (\<lambda>(r, dev').
       (case r of
          Inl _ \<Rightarrow> Inr (None, dev')
        | Inr hdr \<Rightarrow>
            if take 8 hdr \<noteq> FMAP_SIGNATURE then Inr (None, dev')
            else if \<not> alloc (sizeof_fmap + fmap_nareas hdr * sizeof_area) then Inl Null_Data
            else
              and_then (flash_read dev' offset (sizeof_fmap + fmap_nareas hdr * sizeof_area)) (\<lambda>(r', dev'').
                (case r' of Inl _ \<Rightarrow> Inr (None, dev'') | Inr fm \<Rightarrow> Inr (Some fm, dev'')))))"

definition flash_get_fmap ::
  "allocator \<Rightarrow> ('p, 'h) flash_device \<Rightarrow> flash_fault + u8 list option \<times> ('p, 'h) flash_device" where
  "flash_get_fmap alloc dev =
     (case fd_fmap dev of
        Some fm \<Rightarrow> Inr (Some fm, dev)
      | None \<Rightarrow>
          and_then (fmap_scan_offset dev (fo_get_fmap_offset (fd_ops dev) (fd_priv dev))) (\<lambda>(off, dev').
          and_then (fmap_load alloc dev' off) (\<lambda>(fm, dev'').
          Inr (fm, dev''\<lparr>fd_fmap := fm\<rparr>))))"

text \<open>\<^verbatim>\<open>strcmp\<close> of a name with the memory from an area's name on.\<close>

fun name_matches :: "u8 list \<Rightarrow> u8 list \<Rightarrow> flash_fault + bool" where
  "name_matches cs [] = Inl Over_Read"
| "name_matches [] (m # ms) = Inr (m = 0)"
| "name_matches (c # cs) (m # ms) = (if c = m then name_matches cs ms else Inr False)"

text \<open>The index of the area with a name: the areas from \<open>i\<close> on, of which there are \<open>left\<close>.\<close>

fun fmap_find :: "u8 list \<Rightarrow> string \<Rightarrow> nat \<Rightarrow> nat \<Rightarrow> flash_fault + nat option" where
  "fmap_find fm name i 0 = Inr None"
| "fmap_find fm name i (Suc left) =
     and_then (name_matches (bytes_of name) (drop (area_at i + 8) fm)) (\<lambda>eq.
       if eq then Inr (Some i) else fmap_find fm name (Suc i) left)"

definition find_area :: "u8 list \<Rightarrow> string \<Rightarrow> flash_fault + nat option" where
  "find_area fm name = fmap_find fm name 0 (fmap_nareas fm)"

text \<open>The return code and what is stored in \<^verbatim>\<open>*offset\<close>, when something is.\<close>

definition fmap_get_section_offset ::
  "allocator \<Rightarrow> ('p, 'h) flash_device \<Rightarrow> string option \<Rightarrow> flash_fault + (int \<times> nat option) \<times> ('p, 'h) flash_device" where
  "fmap_get_section_offset alloc dev name =
     and_then (flash_get_fmap alloc dev) (\<lambda>(fmap, dev').
       (case fmap of
          None \<Rightarrow> Inr ((- 1, None), dev')
        | Some fm \<Rightarrow>
            (case name of
               None \<Rightarrow> Inr ((0, Some 0), dev')
             | Some n \<Rightarrow>
                 and_then (find_area fm n) (\<lambda>found.
                   (case found of None \<Rightarrow> Inr ((- 1, None), dev') | Some i \<Rightarrow> Inr ((0, Some (area_offset fm i)), dev'))))))"

text \<open>The data with its offset, or \<open>None\<close> for NULL; the size is the length of the data.\<close>

definition fmap_read_section ::
  "allocator \<Rightarrow> ('p, 'h) flash_device \<Rightarrow> string option
     \<Rightarrow> flash_fault + (u8 list \<times> nat) option \<times> ('p, 'h) flash_device" where
  "fmap_read_section alloc dev name =
     and_then (flash_get_fmap alloc dev) (\<lambda>(fmap, dev').
       (case fmap of
          None \<Rightarrow> Inr (None, dev')
        | Some fm \<Rightarrow>
            and_then
              (case name of
                 None \<Rightarrow> Inr (Some (flash_get_size dev', 0))
               | Some n \<Rightarrow> and_then (find_area fm n) (\<lambda>found.
                   Inr (map_option (\<lambda>i. (area_size fm i, area_offset fm i)) found)))
              (\<lambda>section.
                (case section of
                   None \<Rightarrow> Inr (None, dev')
                 | Some (sz, start_offset) \<Rightarrow>
                     if \<not> alloc sz then Inr (None, dev')
                     else
                       and_then (flash_read dev' start_offset sz) (\<lambda>(r, dev'').
                         (case r of Inl _ \<Rightarrow> Inr (None, dev'') | Inr bytes \<Rightarrow> Inr (Some (bytes, start_offset), dev'')))))))"

subsection \<open>The root key\<close>

text \<open>The part of \<^verbatim>\<open>gbb_header.h\<close> that is used: the signature and the positions of the fields.\<close>

record gbb_layout =
  gl_signature :: "u8 list"
  gl_sizeof :: nat
  gl_signature_at :: nat
  gl_rootkey_offset_at :: nat
  gl_rootkey_size_at :: nat

text \<open>The size is only used together with a GBB that was read.\<close>

definition flash_get_gbb ::
  "allocator \<Rightarrow> ('p, 'h) flash_device \<Rightarrow> flash_fault + u8 list option \<times> ('p, 'h) flash_device" where
  "flash_get_gbb alloc dev =
     (case fd_gbb dev of
        Some gbb \<Rightarrow> Inr (Some gbb, dev)
      | None \<Rightarrow>
          and_then (fmap_read_section alloc dev (Some ''GBB'')) (\<lambda>(r, dev').
            (case r of
               None \<Rightarrow> Inr (None, dev')
             | Some (gbb, _) \<Rightarrow> Inr (Some gbb, dev'\<lparr>fd_gbb := Some gbb, fd_gbb_size := length gbb\<rparr>))))"

definition le32_at :: "nat \<Rightarrow> u8 list \<Rightarrow> u32" where
  "le32_at off bs = of_nat (le_val (bytes_at off 4 bs))"

text \<open>
  The GBB with the offset and the size of the key in it. The signature is compared before the size
  is tested, and the sum of the two fields is a sum of \<^verbatim>\<open>uint32_t\<close>.
\<close>

definition gbb_get_rootkey ::
  "gbb_layout \<Rightarrow> allocator \<Rightarrow> ('p, 'h) flash_device
     \<Rightarrow> flash_fault + (u8 list \<times> nat \<times> nat) option \<times> ('p, 'h) flash_device" where
  "gbb_get_rootkey g alloc dev =
     and_then (flash_get_gbb alloc dev) (\<lambda>(r, dev').
       (case r of
          None \<Rightarrow> Inr (None, dev')
        | Some gbb \<Rightarrow>
            if length gbb < gl_signature_at g + length (gl_signature g) then Inl Over_Read
            else if bytes_at (gl_signature_at g) (length (gl_signature g)) gbb \<noteq> gl_signature g \<or> length gbb < gl_sizeof g
            then Inr (None, dev')
            else
              (let off = le32_at (gl_rootkey_offset_at g) gbb; sz = le32_at (gl_rootkey_size_at g) gbb
               in if length gbb < unat (off + sz) then Inr (None, dev')
                  else Inr (Some (gbb, unat off, unat sz), dev'))))"

subsection \<open>The checksum\<close>

definition crc8_bit :: "u32 \<Rightarrow> u32" where
  "crc8_bit crc = push_bit 1 (if crc AND 0x8000 \<noteq> 0 then crc XOR push_bit 3 0x1070 else crc)"

definition crc8_byte :: "u8 \<Rightarrow> u32 \<Rightarrow> u32" where
  "crc8_byte d crc = (crc8_bit ^^ 8) (crc XOR push_bit 8 (ucast d))"

definition crc8 :: "u8 list \<Rightarrow> u8" where
  "crc8 data = ucast (drop_bit 8 (fold crc8_byte data 0))"

subsection \<open>Flags in the NVRAM\<close>

definition VB_CRC_OFFSET :: nat where "VB_CRC_OFFSET = 15"
definition VB_NVDATA_SIZE :: nat where "VB_NVDATA_SIZE = 16"

record vbnv_param =
  vp_name :: string
  vp_writable :: bool
  vp_offset :: nat
  vp_shift :: nat
  vp_mask :: u8

definition param :: "string \<Rightarrow> bool \<Rightarrow> nat \<Rightarrow> nat \<Rightarrow> u8 \<Rightarrow> vbnv_param" where
  "param name w off sh m = \<lparr>vp_name = name, vp_writable = w, vp_offset = off, vp_shift = sh, vp_mask = m\<rparr>"

definition param_table :: "vbnv_param list" where
  "param_table =
     [param ''try_count'' True 1 0 0xF, param ''backup_nvram'' True 1 4 1, param ''oprom_needed'' True 1 5 1,
      param ''disable_dev'' True 1 6 1, param ''debug_reset'' True 1 7 1, param ''boot_result'' True 7 0 3,
      param ''fw_tried'' False 7 2 1, param ''fw_try_next'' True 7 3 1, param ''fw_prev_result'' False 7 4 3,
      param ''prev_tried'' False 7 6 1, param ''dev_boot_usb'' True 4 0 1, param ''dev_boot_signed_only'' True 4 1 1,
      param ''dev_boot_legacy'' True 4 2 1, param ''dev_boot_fastboot_full_cap'' True 4 3 1,
      param ''tpm_clear_owner_request'' True 5 0 1, param ''tpm_clear_owner_done'' True 5 1 1,
      param ''unlock_fastboot'' True 8 0 1, param ''boot_on_ac_detect'' True 8 1 1,
      param ''recovery_reason'' True 2 0 0xFF]"

definition can_overwrite :: "u8 \<Rightarrow> u8 \<Rightarrow> bool" where
  "can_overwrite current new \<longleftrightarrow> current AND new = new"

definition vp_bits :: "vbnv_param \<Rightarrow> u8" where
  "vp_bits p = push_bit (vp_shift p) (vp_mask p)"

definition erased_block :: "u8 list" where
  "erased_block = replicate VB_NVDATA_SIZE 0xFF"

text \<open>The number of the first empty block, or the number of blocks; the block in use is the one before.\<close>

definition first_empty :: "u8 list \<Rightarrow> nat" where
  "first_empty nvram =
     (let n = length nvram div VB_NVDATA_SIZE
      in case find (\<lambda>i. bytes_at (VB_NVDATA_SIZE * i) VB_NVDATA_SIZE nvram = erased_block) [0..<n] of
           None \<Rightarrow> n | Some i \<Rightarrow> i)"

definition current_block :: "u8 list \<Rightarrow> u8 list" where
  "current_block nvram = bytes_at (VB_NVDATA_SIZE * (first_empty nvram - 1)) VB_NVDATA_SIZE nvram"

definition get_bits :: "vbnv_param \<Rightarrow> u8 list \<Rightarrow> u8" where
  "get_bits p block = drop_bit (vp_shift p) (block ! vp_offset p AND vp_bits p)"

definition new_block :: "vbnv_param \<Rightarrow> u8 \<Rightarrow> u8 list \<Rightarrow> u8 list" where
  "new_block p val block =
     (let flag_value = push_bit (vp_shift p) (val AND vp_mask p);
          b = block[vp_offset p := (block ! vp_offset p AND NOT (vp_bits p)) OR (flag_value AND vp_bits p)]
      in b[VB_CRC_OFFSET := crc8 (take VB_CRC_OFFSET b)])"

text \<open>The writing branch of \<^verbatim>\<open>vbnv_readwrite\<close>: \<open>dummy\<close> replaces the block in use, or goes into the next empty block.\<close>

definition write_entry ::
  "('p, 'h) flash_device \<Rightarrow> nat \<Rightarrow> u8 list \<Rightarrow> flash_fault + int \<times> ('p, 'h) flash_device" where
  "write_entry spi offset dummy =
     and_then (flash_write spi offset dummy) (\<lambda>(rc, spi'). Inr (if rc \<noteq> 0 then - EIO else 0, spi'))"

definition store_block ::
  "('p, 'h) flash_device \<Rightarrow> u8 list \<Rightarrow> nat \<Rightarrow> u8 list \<Rightarrow> flash_fault + int \<times> ('p, 'h) flash_device" where
  "store_block spi nvram offset dummy =
     (let i = first_empty nvram
      in if list_all2 can_overwrite (current_block nvram) dummy
         then write_entry spi (offset + VB_NVDATA_SIZE * (i - 1)) dummy
         else if VB_NVDATA_SIZE * i \<noteq> length nvram then write_entry spi (offset + VB_NVDATA_SIZE * i) dummy
         else and_then (flash_erase spi offset (length nvram)) (\<lambda>(rc, spi').
                if rc \<noteq> 0 then Inr (- EIO, spi') else write_entry spi' offset dummy))"

text \<open>\<open>val\<close> is what to write, or \<open>None\<close> to read; the results are the code and \<^verbatim>\<open>*value\<close>.\<close>

definition vbnv_readwrite ::
  "allocator \<Rightarrow> ('p, 'h) flash_device \<Rightarrow> vbnv_param \<Rightarrow> u8 option
     \<Rightarrow> flash_fault + (int \<times> u8 option) \<times> ('p, 'h) flash_device" where
  "vbnv_readwrite alloc spi p val =
     (if VB_NVDATA_SIZE \<le> vp_offset p then Inr ((- EIO, val), spi)
      else
        and_then (fmap_read_section alloc spi (Some ''RW_NVRAM'')) (\<lambda>(section, spi1).
          (case section of
             None \<Rightarrow> Inr ((- EIO, val), spi1)
           | Some (nvram, offset) \<Rightarrow>
               if length nvram < VB_NVDATA_SIZE \<or> length nvram mod VB_NVDATA_SIZE \<noteq> 0 then Inr ((- EIO, val), spi1)
               else
                 (case val of
                    None \<Rightarrow> Inr ((0, Some (get_bits p (current_block nvram))), spi1)
                  | Some v \<Rightarrow>
                      and_then (store_block spi1 nvram offset (new_block p v (current_block nvram))) (\<lambda>(rc, spi2).
                        Inr ((rc, val), spi2))))))"

definition vbnv_set_flag ::
  "allocator \<Rightarrow> ('p, 'h) flash_device \<Rightarrow> string \<Rightarrow> u8 \<Rightarrow> flash_fault + int \<times> ('p, 'h) flash_device" where
  "vbnv_set_flag alloc spi name val =
     (case find (\<lambda>p. vp_name p = name) param_table of
        None \<Rightarrow> Inr (- EIO, spi)
      | Some p \<Rightarrow>
          if vp_writable p then and_then (vbnv_readwrite alloc spi p (Some val)) (\<lambda>((rc, _), spi'). Inr (rc, spi'))
          else Inr (- EIO, spi))"

definition vbnv_get_flag ::
  "allocator \<Rightarrow> ('p, 'h) flash_device \<Rightarrow> string \<Rightarrow> flash_fault + (int \<times> u8 option) \<times> ('p, 'h) flash_device" where
  "vbnv_get_flag alloc spi name =
     (case find (\<lambda>p. vp_name p = name) param_table of
        None \<Rightarrow> Inr ((- EIO, None), spi)
      | Some p \<Rightarrow> vbnv_readwrite alloc spi p None)"


subsection \<open>The checksum is CRC-8\<close>

text \<open>The same checksum on bytes: the remainder modulo $x^8 + x^2 + x + 1$.\<close>

definition crc8_ref_bit :: "u8 \<Rightarrow> u8" where
  "crc8_ref_bit s = push_bit 1 s XOR (if bit s 7 then 0x07 else 0)"

definition crc8_ref_step :: "u8 \<Rightarrow> u8 \<Rightarrow> u8" where
  "crc8_ref_step d s = (crc8_ref_bit ^^ 8) (s XOR d)"

definition crc8_ref :: "u8 list \<Rightarrow> u8" where
  "crc8_ref data = fold crc8_ref_step data 0"

lemma crc8_bit_ref: "crc8_bit (push_bit 8 (ucast s)) = push_bit 8 (ucast (crc8_ref_bit s))"
  by (rule all_u8) code_simp

lemma crc8_bits_ref: "(crc8_bit ^^ n) (push_bit 8 (ucast s)) = push_bit 8 (ucast ((crc8_ref_bit ^^ n) s))"
  by (induction n) (simp_all add: crc8_bit_ref)

lemma crc8_byte_ref: "crc8_byte d (push_bit 8 (ucast s)) = push_bit 8 (ucast (crc8_ref_step d s))"
proof -
  have "push_bit 8 (ucast s) XOR push_bit 8 (ucast d) = (push_bit 8 (ucast (s XOR d)) :: u32)"
    by (simp add: unsigned_xor_eq)
  then show ?thesis by (simp add: crc8_byte_def crc8_ref_step_def crc8_bits_ref)
qed

lemma crc8_fold_ref: "fold crc8_byte data (push_bit 8 (ucast s)) = push_bit 8 (ucast (fold crc8_ref_step data s))"
  by (induction data arbitrary: s) (simp_all add: crc8_byte_ref)

lemma high_byte: "(ucast (drop_bit 8 (push_bit 8 (ucast s) :: u32)) :: u8) = s"
  by (rule all_u8) code_simp

lemma crc8_is_ref: "crc8 data = crc8_ref data"
  using crc8_fold_ref [of data 0] high_byte [of "fold crc8_ref_step data 0"] by (simp only: crc8_def crc8_ref_def unsigned_0 push_bit_of_0)

definition crc8_back :: "u8 \<Rightarrow> u8" where
  "crc8_back t = (if bit t 0 then 0x80 OR drop_bit 1 (t XOR 0x07) else drop_bit 1 t)"

lemma crc8_back: "crc8_back (crc8_ref_bit s) = s"
  by (rule all_u8) code_simp

lemma crc8_ref_step_inj: "crc8_ref_step d s = crc8_ref_step d' s' \<longleftrightarrow> s XOR d = s' XOR d'"
proof -
  have "inj crc8_ref_bit" by (metis crc8_back injI)
  then have "inj (crc8_ref_bit ^^ n)" for n by (rule inj_fn)
  then show ?thesis by (simp add: crc8_ref_step_def inj_eq)
qed

lemma xor_cancel: "(s :: u8) XOR d = s' XOR d \<longleftrightarrow> s = s'" "s XOR d = s XOR d' \<longleftrightarrow> d = (d' :: u8)"
  by (metis xor.right_neutral xor_self_eq xor.assoc xor.commute)+

lemma crc8_fold_inj: "fold crc8_ref_step data s = fold crc8_ref_step data s' \<longleftrightarrow> s = s'"
  by (induction data arbitrary: s s') (simp_all add: crc8_ref_step_inj xor_cancel)

lemma crc8_ones: "crc8 (replicate 15 0xFF) \<noteq> 0xFF"
  unfolding crc8_is_ref by code_simp

text \<open>
  C21. The checksum of the NVRAM blocks, computed in the upper half of 16 bits of a \<^verbatim>\<open>uint32_t\<close>, is the CRC-8
  of the polynomial $x^8 + x^2 + x + 1$ on bytes, and any change of one byte changes it.
\<close>

theorem crc8_detects_changed_byte:
  "crc8 (pre @ a # post) = crc8_ref (pre @ a # post) \<and>
   (crc8 (pre @ a # post) = crc8 (pre @ b # post) \<longleftrightarrow> a = b)"
  unfolding crc8_is_ref
  by (simp add: crc8_ref_def crc8_fold_inj crc8_ref_step_inj xor_cancel)

subsection \<open>The table of flags\<close>

definition flags_apart :: "vbnv_param \<Rightarrow> vbnv_param \<Rightarrow> bool" where
  "flags_apart p q \<longleftrightarrow> vp_offset p \<noteq> vp_offset q \<or> vp_bits p AND vp_bits q = 0"

lemma table_names: "distinct (map vp_name param_table)"
  by (simp add: param_table_def param_def)

lemma table_apart: "sorted_wrt flags_apart param_table"
  by (simp add: param_table_def param_def flags_apart_def vp_bits_def)

lemma table_fields:
  "p \<in> set param_table \<Longrightarrow> vp_offset p < VB_CRC_OFFSET \<and> drop_bit (vp_shift p) (vp_bits p) = vp_mask p"
  by (auto simp: param_table_def param_def VB_CRC_OFFSET_def vp_bits_def)

lemma flags_apart_commute: "flags_apart p q \<longleftrightarrow> flags_apart q p"
  by (auto simp: flags_apart_def and.commute)

lemma table_flags_apart:
  assumes "p \<in> set param_table" "q \<in> set param_table" "p \<noteq> q"
  shows "flags_apart p q"
proof -
  from assms obtain i j where ij: "i < length param_table" "j < length param_table" "p = param_table ! i" "q = param_table ! j"
    by (metis in_set_conv_nth)
  with assms(3) consider "i < j" | "j < i" by (metis linorder_neqE_nat)
  then show ?thesis using sorted_wrt_nth_less [OF table_apart] ij flags_apart_commute by cases metis+
qed

lemma find_distinct: "x \<in> set xs \<Longrightarrow> distinct (map f xs) \<Longrightarrow> find (\<lambda>y. f y = f x) xs = Some x"
  by (induction xs) (auto simp: image_iff)

lemma table_lookup: "p \<in> set param_table \<Longrightarrow> find (\<lambda>q. vp_name q = vp_name p) param_table = Some p"
  by (rule find_distinct [OF _ table_names])

subsection \<open>Reading and replacing a flag in a block\<close>

lemma length_new_block [simp]: "length (new_block p v block) = length block"
  by (simp add: new_block_def Let_def)

lemma new_block_byte:
  assumes "length block = VB_NVDATA_SIZE" "i < VB_CRC_OFFSET"
  shows "new_block p v block ! i =
    (if i = vp_offset p then (block ! i AND NOT (vp_bits p)) OR (push_bit (vp_shift p) (v AND vp_mask p) AND vp_bits p)
     else block ! i)"
  using assms by (auto simp: new_block_def Let_def VB_CRC_OFFSET_def VB_NVDATA_SIZE_def nth_list_update)

definition block_valid :: "u8 list \<Rightarrow> bool" where
  "block_valid block \<longleftrightarrow> block ! VB_CRC_OFFSET = crc8 (take VB_CRC_OFFSET block)"

lemma new_block_valid: "length block = VB_NVDATA_SIZE \<Longrightarrow> block_valid (new_block p v block)"
  by (simp add: new_block_def Let_def block_valid_def VB_CRC_OFFSET_def VB_NVDATA_SIZE_def)

text \<open>No block that is written looks like an empty one, because of its checksum.\<close>

lemma valid_not_erased: "block_valid block \<Longrightarrow> block \<noteq> erased_block"
  using crc8_ones by (auto simp: block_valid_def erased_block_def VB_CRC_OFFSET_def VB_NVDATA_SIZE_def simp flip: replicate_add)

lemma get_new_same:
  assumes "p \<in> set param_table" "length block = VB_NVDATA_SIZE"
  shows "get_bits p (new_block p v block) = v AND vp_mask p"
proof -
  have t: "vp_offset p < VB_CRC_OFFSET" "drop_bit (vp_shift p) (vp_bits p) = vp_mask p" using table_fields [OF assms(1)] by auto
  have "((b AND NOT m) OR (f AND m)) AND m = f AND m" for b m f :: u8
    by (rule bit_word_eqI) (auto simp: bit_simps)
  then have "get_bits p (new_block p v block) = drop_bit (vp_shift p) (push_bit (vp_shift p) (v AND vp_mask p) AND vp_bits p)"
    using t(1) by (simp add: get_bits_def new_block_byte [OF assms(2)])
  also have "push_bit (vp_shift p) (v AND vp_mask p) AND vp_bits p = push_bit (vp_shift p) v AND vp_bits p"
    by (simp add: vp_bits_def push_bit_and and.assoc)
  also have "drop_bit (vp_shift p) (push_bit (vp_shift p) v AND vp_bits p) = drop_bit (vp_shift p) (push_bit (vp_shift p) v) AND vp_mask p"
    using t(2) by (simp add: drop_bit_and)
  also have "\<dots> = v AND vp_mask p"
  proof (rule bit_word_eqI)
    fix n
    assume "n < LENGTH(8)"
    moreover have "bit (drop_bit (vp_shift p) (push_bit (vp_shift p) (vp_mask p))) n = bit (vp_mask p) n"
      using t(2) by (simp add: vp_bits_def)
    ultimately show "bit (drop_bit (vp_shift p) (push_bit (vp_shift p) v) AND vp_mask p) n = bit (v AND vp_mask p) n"
      by (auto simp: bit_simps)
  qed
  finally show ?thesis .
qed

lemma get_new_other:
  assumes "p \<in> set param_table" "q \<in> set param_table" "p \<noteq> q" "length block = VB_NVDATA_SIZE"
  shows "get_bits q (new_block p v block) = get_bits q block"
proof -
  have t: "vp_offset p < VB_CRC_OFFSET" "vp_offset q < VB_CRC_OFFSET" using table_fields assms(1,2) by auto
  show ?thesis
  proof (cases "vp_offset p = vp_offset q")
    case True
    then have d: "vp_bits p AND vp_bits q = 0" using table_flags_apart [OF assms(1-3)] by (simp add: flags_apart_def)
    have "((b AND NOT m) OR (f AND m)) AND m' = b AND m'" if "m AND m' = 0" for b m f m' :: u8
    proof (rule bit_word_eqI)
      fix n
      assume "n < LENGTH(8)"
      have "\<not> (bit m n \<and> bit m' n)" using that by (metis bit_0_eq bit_and_iff bot_apply bot_bool_def)
      then show "bit ((b AND NOT m OR f AND m) AND m') n = bit (b AND m') n" using \<open>n < LENGTH(8)\<close> by (auto simp: bit_simps)
    qed
    with d t True show ?thesis by (simp add: get_bits_def new_block_byte [OF assms(4)])
  next
    case False
    with t show ?thesis by (simp add: get_bits_def new_block_byte [OF assms(4)])
  qed
qed

subsection \<open>The log of blocks\<close>

definition block_at :: "nat \<Rightarrow> u8 list \<Rightarrow> u8 list" where
  "block_at j nv = bytes_at (VB_NVDATA_SIZE * j) VB_NVDATA_SIZE nv"

definition nv_blocks :: "u8 list \<Rightarrow> nat" where
  "nv_blocks nv = length nv div VB_NVDATA_SIZE"

text \<open>The blocks after the first empty one are empty.\<close>

definition nv_wf :: "u8 list \<Rightarrow> bool" where
  "nv_wf nv \<longleftrightarrow> VB_NVDATA_SIZE \<le> length nv \<and> length nv mod VB_NVDATA_SIZE = 0 \<and>
     (\<forall>j \<in> {first_empty nv..<nv_blocks nv}. block_at j nv = erased_block)"

lemma first_emptyI:
  assumes "m \<le> nv_blocks nv" "\<And>j. j < m \<Longrightarrow> block_at j nv \<noteq> erased_block" "m < nv_blocks nv \<Longrightarrow> block_at m nv = erased_block"
  shows "first_empty nv = m"
proof (cases "m < nv_blocks nv")
  case True
  with assms(2,3) have "find (\<lambda>i. bytes_at (VB_NVDATA_SIZE * i) VB_NVDATA_SIZE nv = erased_block) [0..<nv_blocks nv] = Some m"
    by (auto simp: find_Some_iff block_at_def intro!: exI [of _ m])
  then show ?thesis by (simp add: first_empty_def nv_blocks_def)
next
  case False
  with assms show ?thesis
    by (auto simp: first_empty_def Let_def nv_blocks_def block_at_def find_None_iff find_Some_iff split: option.split)
qed

lemma first_empty_le: "first_empty nv \<le> nv_blocks nv"
  by (auto simp: first_empty_def Let_def nv_blocks_def find_Some_iff split: option.split)

lemma first_empty_before: "j < first_empty nv \<Longrightarrow> block_at j nv \<noteq> erased_block"
  by (auto simp: first_empty_def Let_def nv_blocks_def block_at_def find_Some_iff find_None_iff split: option.splits)


lemma length_block_at:
  assumes "length nv mod VB_NVDATA_SIZE = 0" "j < nv_blocks nv"
  shows "VB_NVDATA_SIZE * j + VB_NVDATA_SIZE \<le> length nv" "length (block_at j nv) = VB_NVDATA_SIZE"
proof -
  show *: "VB_NVDATA_SIZE * j + VB_NVDATA_SIZE \<le> length nv"
    using assms by (auto simp: nv_blocks_def VB_NVDATA_SIZE_def)
  then show "length (block_at j nv) = VB_NVDATA_SIZE" by (simp add: block_at_def)
qed

lemma block_at_patch:
  assumes "length nv mod VB_NVDATA_SIZE = 0" "length d = VB_NVDATA_SIZE" "i < nv_blocks nv" "j < nv_blocks nv"
  shows "block_at j (patch (VB_NVDATA_SIZE * i) d nv) = (if j = i then d else block_at j nv)"
proof (cases "j = i")
  case True
  then show ?thesis
    using bytes_at_patch_same [of "VB_NVDATA_SIZE * i" d nv] length_block_at(1) [OF assms(1,3)] assms(2) by (simp add: block_at_def)
next
  case False
  then have "VB_NVDATA_SIZE * j + VB_NVDATA_SIZE \<le> VB_NVDATA_SIZE * i \<or> VB_NVDATA_SIZE * i + VB_NVDATA_SIZE \<le> VB_NVDATA_SIZE * j"
    by (auto simp: VB_NVDATA_SIZE_def)
  with False show ?thesis
    using bytes_at_patch_other [of "VB_NVDATA_SIZE * i" d nv "VB_NVDATA_SIZE * j" VB_NVDATA_SIZE] length_block_at(1) [OF assms(1)] assms(2-4)
    by (simp add: block_at_def)
qed

text \<open>What a section with \<open>m\<close> blocks in use looks like after block \<open>i\<close> was replaced.\<close>

lemma nv_put:
  assumes wf: "nv_wf nv" and d: "length d = VB_NVDATA_SIZE" "d \<noteq> erased_block"
    and i: "i < nv_blocks nv" "i = first_empty nv - 1 \<or> i = first_empty nv"
  shows "nv_wf (patch (VB_NVDATA_SIZE * i) d nv)" "current_block (patch (VB_NVDATA_SIZE * i) d nv) = d"
proof -
  let ?nv = "patch (VB_NVDATA_SIZE * i) d nv"
  have mod: "length nv mod VB_NVDATA_SIZE = 0" and big: "VB_NVDATA_SIZE \<le> length nv" using wf by (auto simp: nv_wf_def)
  have len: "length ?nv = length nv" using length_block_at(1) [OF mod i(1)] d(1) by simp
  then have n: "nv_blocks ?nv = nv_blocks nv" by (simp add: nv_blocks_def)
  have at: "block_at j ?nv = (if j = i then d else block_at j nv)" if "j < nv_blocks nv" for j
    using block_at_patch [OF mod d(1) i(1) that] .
  have after: "block_at j ?nv = erased_block" if "Suc i \<le> j" "j < nv_blocks nv" for j
    using at [OF that(2)] that wf i(2) by (auto simp: nv_wf_def)
  have fe: "first_empty ?nv = Suc i"
  proof (rule first_emptyI)
    show "block_at j ?nv \<noteq> erased_block" if "j < Suc i" for j
    proof (cases "j = i")
      case False
      then have "j < first_empty nv" using that i(2) by linarith
      with False at [of j] that i(1) first_empty_before [of j nv] show ?thesis by simp
    qed (use at [of i] i(1) d(2) in simp)
  qed (use i(1) after n in auto)
  show "nv_wf ?nv" unfolding nv_wf_def using len mod big fe after n by auto
  show "current_block ?nv = d" using at [OF i(1)] fe by (simp add: current_block_def block_at_def)
qed

text \<open>The section after writing a flag.\<close>

definition nv_update :: "vbnv_param \<Rightarrow> u8 \<Rightarrow> u8 list \<Rightarrow> u8 list" where
  "nv_update p v nv =
     (let d = new_block p v (current_block nv); i = first_empty nv
      in if list_all2 can_overwrite (current_block nv) d then patch (VB_NVDATA_SIZE * (i - 1)) d nv
         else if i < nv_blocks nv then patch (VB_NVDATA_SIZE * i) d nv
         else patch 0 d (replicate (length nv) 0xFF))"

lemma current_block_eq: "current_block nv = block_at (first_empty nv - 1) nv"
  by (simp add: current_block_def block_at_def)

lemma nv_wf_blocks:
  assumes "nv_wf nv"
  shows "0 < nv_blocks nv" "first_empty nv - 1 < nv_blocks nv" "length (current_block nv) = VB_NVDATA_SIZE"
proof -
  show *: "0 < nv_blocks nv" using assms by (auto simp: nv_wf_def nv_blocks_def VB_NVDATA_SIZE_def)
  then show **: "first_empty nv - 1 < nv_blocks nv" using first_empty_le [of nv] by linarith
  show "length (current_block nv) = VB_NVDATA_SIZE"
    unfolding current_block_eq using length_block_at(2) [OF _ **] assms by (simp add: nv_wf_def)
qed

lemma erased_wf:
  assumes "nv_wf nv"
  shows "nv_wf (replicate (length nv) 0xFF)" "first_empty (replicate (length nv) 0xFF) = 0"
proof -
  let ?e = "replicate (length nv) (0xFF :: u8)"
  have n: "nv_blocks ?e = nv_blocks nv" by (simp add: nv_blocks_def)
  have e: "block_at j ?e = erased_block" if "j < nv_blocks nv" for j
    using length_block_at(1) [of nv j] that assms by (simp add: block_at_def bytes_at_def erased_block_def nv_wf_def)
  show fe: "first_empty ?e = 0" by (rule first_emptyI) (use e n in auto)
  show "nv_wf ?e" using assms e n fe by (auto simp: nv_wf_def)
qed

lemma nv_update_result:
  assumes wf: "nv_wf nv"
  shows "nv_wf (nv_update p v nv)" "current_block (nv_update p v nv) = new_block p v (current_block nv)"
    "length (nv_update p v nv) = length nv"
proof -
  let ?d = "new_block p v (current_block nv)"
  note b = nv_wf_blocks [OF wf]
  have d: "length ?d = VB_NVDATA_SIZE" "?d \<noteq> erased_block"
    using b(3) valid_not_erased [OF new_block_valid [OF b(3)]] by simp_all
  note put = nv_put [OF wf d] nv_put [OF erased_wf(1) [OF wf] d, of 0]
  have n: "nv_blocks (replicate (length nv) 0xFF) = nv_blocks nv" by (simp add: nv_blocks_def)
  show "nv_wf (nv_update p v nv)" "current_block (nv_update p v nv) = ?d"
    using put b n erased_wf(2) [OF wf] by (auto simp: nv_update_def Let_def)
  show "length (nv_update p v nv) = length nv"
    using length_block_at(1) [of nv] d(1) b wf by (auto simp: nv_update_def Let_def nv_wf_def)
qed

subsection \<open>The section on a device\<close>

lemma area_bounds: "area_offset fm i < 2 ^ 32" "area_size fm i < 2 ^ 32"
proof -
  have "le_val (bytes_at o' 4 fm) < 2 ^ 32" for o'
    by (rule less_le_trans [OF le_val_bound], rule order_trans [OF power_increasing [of _ 4]]) (simp_all add: bytes_at_def)
  then show "area_offset fm i < 2 ^ 32" "area_size fm i < 2 ^ 32" by (simp_all only: area_offset_def area_size_def)
qed

text \<open>An area of the flash map that was read, inside the device, at \<open>off\<close> and of size \<open>n\<close>.\<close>

definition has_area :: "('h \<Rightarrow> u8 list) \<Rightarrow> ('p, 'h) flash_device \<Rightarrow> string \<Rightarrow> nat \<Rightarrow> nat \<Rightarrow> bool" where
  "has_area contents dev name off n \<longleftrightarrow>
     (case fd_fmap dev of
        None \<Rightarrow> False
      | Some fm \<Rightarrow>
          (case find_area fm name of
             Inr (Some i) \<Rightarrow> area_offset fm i = off \<and> area_size fm i = n \<and> off + n \<le> length (contents (fd_priv dev))
           | _ \<Rightarrow> False))"

lemma has_areaE:
  assumes "has_area contents dev name off n"
  obtains fm i where "fd_fmap dev = Some fm" "find_area fm name = Inr (Some i)" "area_offset fm i = off" "area_size fm i = n"
    "off + n \<le> length (contents (fd_priv dev))" "off < 2 ^ 32" "n < 2 ^ 32"
  using assms area_bounds by (auto simp: has_area_def split: option.splits sum.splits)

lemma has_area_keeps:
  "length (contents h') = length (contents (fd_priv dev)) \<Longrightarrow>
     has_area contents (dev\<lparr>fd_priv := h'\<rparr>) name off n = has_area contents dev name off n"
  by (simp add: has_area_def cong: option.case_cong sum.case_cong)

text \<open>
  The state in which flags can be kept: the section \<^verbatim>\<open>RW_NVRAM\<close> is aligned to the blocks of the device, and
  its log is well formed.
\<close>

definition nvram_ready :: "allocator \<Rightarrow> ('h \<Rightarrow> u8 list) \<Rightarrow> ('p, 'h) flash_device \<Rightarrow> nat \<Rightarrow> nat \<Rightarrow> bool" where
  "nvram_ready alloc contents dev off n \<longleftrightarrow>
     has_area contents dev ''RW_NVRAM'' off n \<and> alloc n \<and>
     0 < fd_write_size dev \<and> off mod fd_write_size dev = 0 \<and> VB_NVDATA_SIZE mod fd_write_size dev = 0 \<and>
     0 < fd_erase_size dev \<and> off mod fd_erase_size dev = 0 \<and> n mod fd_erase_size dev = 0 \<and>
     nv_wf (bytes_at off n (contents (fd_priv dev)))"

lemma can_overwrite_writable: "list_all2 can_overwrite old new \<longleftrightarrow> writable_over old new"
  by (simp add: writable_over_def can_overwrite_def cong: list.rel_cong)

text \<open>
  The abstraction: the values of the flags. \<open>flag_put\<close> is the effect of one call on a flag, and \<open>set_flags\<close>
  makes a sequence of calls and collects their results.
\<close>

definition flag_of :: "('h \<Rightarrow> u8 list) \<Rightarrow> ('p, 'h) flash_device \<Rightarrow> nat \<Rightarrow> nat \<Rightarrow> vbnv_param \<Rightarrow> u8" where
  "flag_of contents dev off n q = get_bits q (current_block (bytes_at off n (contents (fd_priv dev))))"

definition block_ok :: "('h \<Rightarrow> u8 list) \<Rightarrow> ('p, 'h) flash_device \<Rightarrow> nat \<Rightarrow> nat \<Rightarrow> bool" where
  "block_ok contents dev off n \<longleftrightarrow> block_valid (current_block (bytes_at off n (contents (fd_priv dev))))"

definition same_outside :: "('h \<Rightarrow> u8 list) \<Rightarrow> nat \<Rightarrow> nat \<Rightarrow> ('p, 'h) flash_device \<Rightarrow> ('p, 'h) flash_device \<Rightarrow> bool" where
  "same_outside contents off n dev dev' \<longleftrightarrow>
     length (contents (fd_priv dev')) = length (contents (fd_priv dev)) \<and>
     (\<forall>i < length (contents (fd_priv dev)). i < off \<or> off + n \<le> i \<longrightarrow> contents (fd_priv dev') ! i = contents (fd_priv dev) ! i)"

definition set_code :: "string \<Rightarrow> int" where
  "set_code name = (if list_ex (\<lambda>p. vp_name p = name \<and> vp_writable p) param_table then 0 else - EIO)"

definition flag_put :: "string \<Rightarrow> u8 \<Rightarrow> vbnv_param \<Rightarrow> u8 \<Rightarrow> u8" where
  "flag_put name v q x = (if vp_name q = name \<and> vp_writable q then v AND vp_mask q else x)"

fun flags_after :: "(string \<times> u8) list \<Rightarrow> vbnv_param \<Rightarrow> u8 \<Rightarrow> u8" where
  "flags_after [] q x = x"
| "flags_after ((name, v) # ws) q x = flags_after ws q (flag_put name v q x)"

fun set_flags ::
  "allocator \<Rightarrow> ('p, 'h) flash_device \<Rightarrow> (string \<times> u8) list \<Rightarrow> flash_fault + int list \<times> ('p, 'h) flash_device" where
  "set_flags alloc dev [] = Inr ([], dev)"
| "set_flags alloc dev ((name, v) # ws) =
     and_then (vbnv_set_flag alloc dev name v) (\<lambda>(rc, dev').
     and_then (set_flags alloc dev' ws) (\<lambda>(rcs, dev''). Inr (rc # rcs, dev'')))"

context reliable_medium
begin

lemma section_read:
  assumes "fd_ops dev = ops" "usable (fd_priv dev)" "has_area contents dev name off n" "alloc n"
  shows "\<exists>h. fmap_read_section alloc dev (Some name) = Inr (Some (bytes_at off n (contents (fd_priv dev)), off), dev\<lparr>fd_priv := h\<rparr>) \<and>
    usable h \<and> contents h = contents (fd_priv dev)"
proof (rule has_areaE [OF assms(3)])
  fix fm i
  assume a: "fd_fmap dev = Some fm" "find_area fm name = Inr (Some i)" "area_offset fm i = off" "area_size fm i = n"
    "off + n \<le> length (contents (fd_priv dev))"
  from read_total [OF assms(2) a(5)] obtain xs h where r: "fo_read ops (fd_priv dev) off n = Inr (Inr xs, h)" by blast
  with read_back [OF assms(2) r] read_keeps [OF assms(2) r] a assms(1,4) show ?thesis
    by (auto simp: fmap_read_section_def flash_get_fmap_def flash_read_def)
qed

lemma aligned_write:
  assumes "fd_ops dev = ops" "usable (fd_priv dev)" "0 < fd_write_size dev" "off mod fd_write_size dev = 0"
    "length xs mod fd_write_size dev = 0" "off + length xs \<le> length (contents (fd_priv dev))"
    "writable_over (bytes_at off (length xs) (contents (fd_priv dev))) xs"
  shows "\<exists>h. flash_write dev off xs = Inr (0, dev\<lparr>fd_priv := h\<rparr>) \<and> usable h \<and> contents h = patch off xs (contents (fd_priv dev))"
proof -
  from write_total [OF assms(2,6)] obtain h where h: "fo_write ops (fd_priv dev) off xs = Inr (0, h)" by blast
  from write_frame [OF assms(2) h] write_done [OF assms(2) h assms(7)] h assms(1,3-5) show ?thesis
    by (auto simp: flash_write_def)
qed

lemma aligned_erase:
  assumes "fd_ops dev = ops" "usable (fd_priv dev)" "0 < fd_erase_size dev" "off mod fd_erase_size dev = 0" "n mod fd_erase_size dev = 0"
    "off + n \<le> length (contents (fd_priv dev))" "off < 2 ^ 32" "n < 2 ^ 32"
  shows "\<exists>h. flash_erase dev off n = Inr (0, dev\<lparr>fd_priv := h\<rparr>) \<and> usable h \<and>
    contents h = patch off (replicate n 0xFF) (contents (fd_priv dev))"
proof -
  from erase_total [OF assms(2,7,8,6)] obtain h where h: "fo_erase ops (fd_priv dev) off n = Inr (0, h)" by blast
  from erase_frame [OF assms(2,7,8) h] erase_done [OF assms(2,7,8) h] h assms(1,3-5) show ?thesis
    by (auto simp: flash_erase_def)
qed

text \<open>Writing block \<open>i\<close> of the section, as \<^verbatim>\<open>vbnv_readwrite\<close> does.\<close>

lemma block_write:
  assumes dev: "fd_ops dev = ops" "usable (fd_priv dev)" and r: "nvram_ready alloc contents dev off n"
    and d: "length d = VB_NVDATA_SIZE" and i: "i < nv_blocks (bytes_at off n (contents (fd_priv dev)))"
    and w: "writable_over (block_at i (bytes_at off n (contents (fd_priv dev)))) d"
  shows "\<exists>h. flash_write dev (off + VB_NVDATA_SIZE * i) d = Inr (0, dev\<lparr>fd_priv := h\<rparr>) \<and> usable h \<and>
    contents h = patch off (patch (VB_NVDATA_SIZE * i) d (bytes_at off n (contents (fd_priv dev)))) (contents (fd_priv dev))"
proof -
  let ?C = "contents (fd_priv dev)" and ?nv = "bytes_at off n (contents (fd_priv dev))"
  from r have a: "has_area contents dev ''RW_NVRAM'' off n" and al: "0 < fd_write_size dev"
      "off mod fd_write_size dev = 0" "VB_NVDATA_SIZE mod fd_write_size dev = 0" "nv_wf ?nv" by (auto simp: nvram_ready_def)
  from has_areaE [OF a] have len: "off + n \<le> length ?C" by metis
  have fits: "VB_NVDATA_SIZE * i + VB_NVDATA_SIZE \<le> n"
    using length_block_at(1) [OF _ i] al(4) len by (simp add: nv_wf_def)
  have "(off + VB_NVDATA_SIZE * i) mod fd_write_size dev = 0" using al(2,3) by (simp add: mod_eq_0_iff_dvd)
  moreover have "writable_over (bytes_at (off + VB_NVDATA_SIZE * i) (length d) ?C) d"
    using w fits len d by (simp add: block_at_def bytes_at_bytes_at)
  ultimately obtain h where "flash_write dev (off + VB_NVDATA_SIZE * i) d = Inr (0, dev\<lparr>fd_priv := h\<rparr>)" "usable h"
      "contents h = patch (off + VB_NVDATA_SIZE * i) d ?C"
    using aligned_write [OF dev al(1), of "off + VB_NVDATA_SIZE * i" d] al(3) d fits len by auto
  with patch_patch_inside [of "VB_NVDATA_SIZE * i" d ?nv off ?C] fits len d show ?thesis by auto
qed

lemma section_erase:
  assumes dev: "fd_ops dev = ops" "usable (fd_priv dev)" and r: "nvram_ready alloc contents dev off n"
  shows "\<exists>h. flash_erase dev off n = Inr (0, dev\<lparr>fd_priv := h\<rparr>) \<and> usable h \<and>
    contents h = patch off (replicate n 0xFF) (contents (fd_priv dev)) \<and> nvram_ready alloc contents (dev\<lparr>fd_priv := h\<rparr>) off n"
proof -
  from r have a: "has_area contents dev ''RW_NVRAM'' off n" by (simp add: nvram_ready_def)
  from has_areaE [OF a] have b: "off + n \<le> length (contents (fd_priv dev))" "off < 2 ^ 32" "n < 2 ^ 32" by metis+
  from aligned_erase [OF dev _ _ _ b] r obtain h where h: "flash_erase dev off n = Inr (0, dev\<lparr>fd_priv := h\<rparr>)" "usable h"
      "contents h = patch off (replicate n 0xFF) (contents (fd_priv dev))" by (auto simp: nvram_ready_def)
  moreover have "nv_wf (replicate n 0xFF)"
    using erased_wf(1) [of "bytes_at off n (contents (fd_priv dev))"] r b by (simp add: nvram_ready_def)
  moreover have "bytes_at off n (contents h) = replicate n 0xFF"
    using bytes_at_patch_same [of off "replicate n 0xFF" "contents (fd_priv dev)"] h(3) b(1) by simp
  ultimately show ?thesis using r b(1) has_area_keeps [of contents h dev "''RW_NVRAM''" off n] by (auto simp: nvram_ready_def)
qed

lemma ready_other:
  assumes "nvram_ready alloc contents dev off n" "length (contents h) = length (contents (fd_priv dev))" "nv_wf (bytes_at off n (contents h))"
  shows "nvram_ready alloc contents (dev\<lparr>fd_priv := h\<rparr>) off n"
  using assms has_area_keeps [of contents h dev] by (simp add: nvram_ready_def)

lemma store_in_place:
  assumes "fd_ops dev = ops" "usable (fd_priv dev)" "nvram_ready alloc contents dev off n"
    "length d = VB_NVDATA_SIZE" "nv = bytes_at off n (contents (fd_priv dev))" "i < nv_blocks nv" "writable_over (block_at i nv) d"
  shows "\<exists>h. write_entry dev (off + VB_NVDATA_SIZE * i) d = Inr (0, dev\<lparr>fd_priv := h\<rparr>) \<and> usable h \<and>
    contents h = patch off (patch (VB_NVDATA_SIZE * i) d nv) (contents (fd_priv dev))"
  using block_write [OF assms(1-4), of i] assms(5-7) by (auto simp: write_entry_def)

lemma store_erased:
  assumes "fd_ops dev = ops" "usable (fd_priv dev)" "nvram_ready alloc contents dev off n" "length d = VB_NVDATA_SIZE"
  shows "\<exists>h. and_then (flash_erase dev off n) (\<lambda>(rc, spi'). if rc \<noteq> 0 then Inr (- EIO, spi') else write_entry spi' off d) =
      Inr (0, dev\<lparr>fd_priv := h\<rparr>) \<and> usable h \<and>
    contents h = patch off (patch 0 d (replicate n 0xFF)) (contents (fd_priv dev))"
proof -
  let ?C = "contents (fd_priv dev)" and ?e = "replicate n (0xFF :: u8)"
  from section_erase [OF assms(1-3)] obtain h where h: "flash_erase dev off n = Inr (0, dev\<lparr>fd_priv := h\<rparr>)" "usable h"
      "contents h = patch off ?e ?C" "nvram_ready alloc contents (dev\<lparr>fd_priv := h\<rparr>) off n" by blast
  have len: "off + n \<le> length ?C" "VB_NVDATA_SIZE \<le> n"
    using assms(3) by (auto simp: nvram_ready_def nv_wf_def elim!: has_areaE)
  have e: "?e = bytes_at off n (contents (fd_priv (dev\<lparr>fd_priv := h\<rparr>)))"
    using bytes_at_patch_same [of off ?e ?C] h(3) len(1) by simp
  have "0 < nv_blocks ?e" "writable_over (block_at 0 ?e) d"
    using len(2) assms(4) by (simp_all add: nv_blocks_def VB_NVDATA_SIZE_def block_at_def bytes_at_def erased_writable)
  from store_in_place [OF _ _ h(4) assms(4) e this] assms(1) h(2) obtain h' where
    h': "write_entry (dev\<lparr>fd_priv := h\<rparr>) off d = Inr (0, dev\<lparr>fd_priv := h'\<rparr>)" "usable h'"
      "contents h' = patch off (patch 0 d ?e) (contents h)" by auto
  have "patch off (patch 0 d ?e) (patch off ?e ?C) = patch off (patch 0 d ?e) ?C"
    by (rule nth_equalityI) (use len assms(4) in \<open>auto simp: nth_patch\<close>)
  with h h' show ?thesis by auto
qed

text \<open>The branches of the code store the block as the abstract update does.\<close>

lemma store_block_result:
  assumes dev: "fd_ops dev = ops" "usable (fd_priv dev)" and r: "nvram_ready alloc contents dev off n"
    and nv: "nv = bytes_at off n (contents (fd_priv dev))"
  shows "\<exists>h. store_block dev nv off (new_block p v (current_block nv)) = Inr (0, dev\<lparr>fd_priv := h\<rparr>) \<and> usable h \<and>
    contents h = patch off (nv_update p v nv) (contents (fd_priv dev))"
proof -
  let ?d = "new_block p v (current_block nv)"
  have wf: "nv_wf nv" using r nv by (simp add: nvram_ready_def)
  note b = nv_wf_blocks [OF wf]
  have d: "length ?d = VB_NVDATA_SIZE" using b(3) by simp
  have n: "length nv = n" using r nv by (auto simp: nvram_ready_def elim!: has_areaE)
  have full: "VB_NVDATA_SIZE * first_empty nv \<noteq> length nv \<longleftrightarrow> first_empty nv < nv_blocks nv"
    using first_empty_le [of nv] wf by (auto simp: nv_wf_def nv_blocks_def VB_NVDATA_SIZE_def)
  note put = store_in_place [OF dev r d nv]
  consider "writable_over (current_block nv) ?d" | "\<not> writable_over (current_block nv) ?d" "first_empty nv < nv_blocks nv"
    | "\<not> writable_over (current_block nv) ?d" "\<not> first_empty nv < nv_blocks nv" by blast
  then show ?thesis
  proof cases
    case 1
    with put [OF b(2)] show ?thesis
      by (simp add: store_block_def nv_update_def Let_def can_overwrite_writable current_block_eq)
  next
    case 2
    then have "writable_over (block_at (first_empty nv) nv) ?d"
      using wf d by (simp add: nv_wf_def erased_block_def erased_writable)
    with put [OF 2(2)] 2 full show ?thesis by (simp add: store_block_def nv_update_def Let_def can_overwrite_writable)
  next
    case 3
    with store_erased [OF dev r d] full n show ?thesis by (simp add: store_block_def nv_update_def Let_def can_overwrite_writable)
  qed
qed

lemma readwrite_write:
  assumes dev: "fd_ops dev = ops" "usable (fd_priv dev)" and r: "nvram_ready alloc contents dev off n" and p: "vp_offset p < VB_NVDATA_SIZE"
  shows "\<exists>h. vbnv_readwrite alloc dev p (Some v) = Inr ((0, Some v), dev\<lparr>fd_priv := h\<rparr>) \<and> usable h \<and>
    contents h = patch off (nv_update p v (bytes_at off n (contents (fd_priv dev)))) (contents (fd_priv dev))"
proof -
  define nv where "nv = bytes_at off n (contents (fd_priv dev))"
  from r have a: "has_area contents dev ''RW_NVRAM'' off n" "alloc n" and wf: "nv_wf nv" by (simp_all add: nvram_ready_def nv_def)
  from section_read [where alloc = alloc, OF dev a] obtain h where h:
      "fmap_read_section alloc dev (Some ''RW_NVRAM'') = Inr (Some (nv, off), dev\<lparr>fd_priv := h\<rparr>)" "usable h"
      "contents h = contents (fd_priv dev)" by (auto simp: nv_def)
  have "nvram_ready alloc contents (dev\<lparr>fd_priv := h\<rparr>) off n" using ready_other [OF r, of h] h(3) wf by (simp add: nv_def)
  from store_block_result [OF _ _ this, of nv p v] dev(1) h(2,3) obtain h' where
    "store_block (dev\<lparr>fd_priv := h\<rparr>) nv off (new_block p v (current_block nv)) = Inr (0, dev\<lparr>fd_priv := h'\<rparr>)" "usable h'"
    "contents h' = patch off (nv_update p v nv) (contents (fd_priv dev))" by (auto simp: nv_def)
  with h(1) p wf show ?thesis by (auto simp: vbnv_readwrite_def nv_wf_def simp flip: nv_def)
qed

lemma readwrite_read:
  assumes dev: "fd_ops dev = ops" "usable (fd_priv dev)" and r: "nvram_ready alloc contents dev off n" and p: "vp_offset p < VB_NVDATA_SIZE"
  shows "\<exists>h. vbnv_readwrite alloc dev p None =
      Inr ((0, Some (get_bits p (current_block (bytes_at off n (contents (fd_priv dev)))))), dev\<lparr>fd_priv := h\<rparr>) \<and>
    usable h \<and> contents h = contents (fd_priv dev)"
proof -
  from r have a: "has_area contents dev ''RW_NVRAM'' off n" "alloc n" "nv_wf (bytes_at off n (contents (fd_priv dev)))"
    by (simp_all add: nvram_ready_def)
  from section_read [where alloc = alloc, OF dev a(1,2)] a(3) p show ?thesis by (auto simp: vbnv_readwrite_def nv_wf_def)
qed

lemma get_flag:
  assumes "fd_ops dev = ops" "usable (fd_priv dev)" "nvram_ready alloc contents dev off n" "q \<in> set param_table"
  shows "\<exists>dev'. vbnv_get_flag alloc dev (vp_name q) = Inr ((0, Some (flag_of contents dev off n q)), dev')"
  using readwrite_read [OF assms(1-3), of q] table_fields [OF assms(4)]
  by (auto simp: vbnv_get_flag_def table_lookup [OF assms(4)] flag_of_def VB_CRC_OFFSET_def VB_NVDATA_SIZE_def)

definition flag_inv :: "('a, 'b) flash_device \<Rightarrow> allocator \<Rightarrow> nat \<Rightarrow> nat \<Rightarrow> bool" where
  "flag_inv dev alloc off n \<longleftrightarrow> fd_ops dev = ops \<and> usable (fd_priv dev) \<and> nvram_ready alloc contents dev off n"

text \<open>One call, on the abstraction of the section to the values of its flags.\<close>

lemma set_flag_step:
  assumes "flag_inv dev alloc off n"
  shows "\<exists>dev'. vbnv_set_flag alloc dev name v = Inr (set_code name, dev') \<and> flag_inv dev' alloc off n \<and>
    same_outside contents off n dev dev' \<and>
    (block_ok contents dev off n \<or> set_code name = 0 \<longrightarrow> block_ok contents dev' off n) \<and>
    (\<forall>q \<in> set param_table. flag_of contents dev' off n q = flag_put name v q (flag_of contents dev off n q))"
proof (cases "\<exists>p \<in> set param_table. vp_name p = name \<and> vp_writable p")
  case False
  then have code: "set_code name = - EIO" by (auto simp: set_code_def list_ex_iff)
  moreover have "vbnv_set_flag alloc dev name v = Inr (- EIO, dev)"
    using False by (auto simp: vbnv_set_flag_def find_Some_iff split: option.split)
  ultimately show ?thesis using assms False by (auto simp: flag_put_def same_outside_def EIO_def)
next
  case True
  then obtain p where p: "p \<in> set param_table" "vp_name p = name" "vp_writable p" by blast
  then have code: "set_code name = 0" by (auto simp: set_code_def list_ex_iff)
  let ?C = "contents (fd_priv dev)"
  let ?nv = "bytes_at off n ?C"
  from assms have dev: "fd_ops dev = ops" "usable (fd_priv dev)" and r: "nvram_ready alloc contents dev off n" by (simp_all add: flag_inv_def)
  have "vp_offset p < VB_NVDATA_SIZE" using table_fields [OF p(1)] by (simp add: VB_CRC_OFFSET_def VB_NVDATA_SIZE_def)
  from readwrite_write [OF dev r this, of v] obtain h where h: "vbnv_readwrite alloc dev p (Some v) = Inr ((0, Some v), dev\<lparr>fd_priv := h\<rparr>)"
    "usable h" "contents h = patch off (nv_update p v ?nv) ?C" by blast
  from r have wf: "nv_wf ?nv" and area: "off + n \<le> length ?C" by (auto simp: nvram_ready_def elim!: has_areaE)
  note u = nv_update_result [OF wf, of p v]
  have len: "length (nv_update p v ?nv) = n" using u(3) area by simp
  then have nv: "bytes_at off n (contents h) = nv_update p v ?nv" using h(3) area bytes_at_patch_same [of off "nv_update p v ?nv" ?C] by simp
  have "vbnv_set_flag alloc dev name v = Inr (0, dev\<lparr>fd_priv := h\<rparr>)"
    using h(1) p table_lookup [OF p(1)] by (simp add: vbnv_set_flag_def)
  moreover have "nvram_ready alloc contents (dev\<lparr>fd_priv := h\<rparr>) off n"
    by (rule ready_other [OF r]) (use h(3) len area nv u(1) in simp_all)
  moreover have "same_outside contents off n dev (dev\<lparr>fd_priv := h\<rparr>)"
    using h(3) len area by (auto simp: same_outside_def nth_patch)
  moreover have "block_ok contents (dev\<lparr>fd_priv := h\<rparr>) off n"
    using nv u(2) new_block_valid [OF nv_wf_blocks(3) [OF wf]] by (simp add: block_ok_def)
  moreover have "flag_of contents (dev\<lparr>fd_priv := h\<rparr>) off n q = flag_put name v q (flag_of contents dev off n q)" if "q \<in> set param_table" for q
    using nv u(2) p get_new_same [OF p(1) nv_wf_blocks(3) [OF wf]] get_new_other [OF p(1) that _ nv_wf_blocks(3) [OF wf]]
      table_lookup [OF p(1)] table_lookup [OF that] by (cases "q = p") (auto simp: flag_of_def flag_put_def)
  ultimately show ?thesis using code dev(1) h(2) by (auto simp: flag_inv_def)
qed

lemma set_flags_run:
  assumes "flag_inv dev alloc off n"
  shows "\<exists>dev'. set_flags alloc dev ws = Inr (map (set_code \<circ> fst) ws, dev') \<and> flag_inv dev' alloc off n \<and>
    same_outside contents off n dev dev' \<and>
    (block_ok contents dev off n \<or> (\<exists>w \<in> set ws. set_code (fst w) = 0) \<longrightarrow> block_ok contents dev' off n) \<and>
    (\<forall>q \<in> set param_table. flag_of contents dev' off n q = flags_after ws q (flag_of contents dev off n q))"
  using assms
proof (induction ws arbitrary: dev)
  case Nil
  then show ?case by (simp add: same_outside_def)
next
  case (Cons w ws)
  obtain name v where w: "w = (name, v)" by force
  from set_flag_step [OF Cons.prems, of name v] obtain dev' where d: "vbnv_set_flag alloc dev name v = Inr (set_code name, dev')"
      "flag_inv dev' alloc off n" "same_outside contents off n dev dev'"
      "block_ok contents dev off n \<or> set_code name = 0 \<longrightarrow> block_ok contents dev' off n"
      "\<forall>q \<in> set param_table. flag_of contents dev' off n q = flag_put name v q (flag_of contents dev off n q)" by blast
  from Cons.IH [OF d(2)] obtain dev'' where e: "set_flags alloc dev' ws = Inr (map (set_code \<circ> fst) ws, dev'')"
      "flag_inv dev'' alloc off n" "same_outside contents off n dev' dev''"
      "block_ok contents dev' off n \<or> (\<exists>w \<in> set ws. set_code (fst w) = 0) \<longrightarrow> block_ok contents dev'' off n"
      "\<forall>q \<in> set param_table. flag_of contents dev'' off n q = flags_after ws q (flag_of contents dev' off n q)" by blast
  have "same_outside contents off n dev dev''" using d(3) e(3) by (auto simp: same_outside_def)
  with d e show ?case by (auto simp: w)
qed

end

subsection \<open>The flags are a store\<close>

text \<open>
  C8. On the flash chip, the flags of the NVRAM section behave as a store. Any sequence of calls of
  \<^verbatim>\<open>vbnv_set_flag\<close> returns 0 for every flag that can be written and \<open>-EIO\<close> for every other name. Afterwards
  \<^verbatim>\<open>vbnv_get_flag\<close> gives for each flag the last value that was written, cut to the width of the flag, and
  what it gave before for a flag that was not written. This goes through all ways to place a block, the
  erasing of a full section included. No byte outside the section changes, the section stays well formed,
  and the block in use has its checksum.
\<close>

theorem vbnv_flags_are_a_store:
  assumes k: "nor_kernel c v" and ops: "fd_ops dev = flash_mtd_ops opened calloc_ok fdt c"
    and r: "nvram_ready alloc (mtd_contents v) dev off n"
  shows "\<exists>dev'. set_flags alloc dev ws = Inr (map (set_code \<circ> fst) ws, dev') \<and>
    nvram_ready alloc (mtd_contents v) dev' off n \<and> same_outside (mtd_contents v) off n dev dev' \<and>
    (block_ok (mtd_contents v) dev off n \<or> (\<exists>w \<in> set ws. set_code (fst w) = 0) \<longrightarrow> block_ok (mtd_contents v) dev' off n) \<and>
    (\<forall>q \<in> set param_table. \<exists>x dev0 dev1. vbnv_get_flag alloc dev (vp_name q) = Inr ((0, Some x), dev0) \<and>
       vbnv_get_flag alloc dev' (vp_name q) = Inr ((0, Some (flags_after ws q x)), dev1))"
proof -
  note m = mtd_reliable [OF k, of opened calloc_ok fdt]
  have "reliable_medium.flag_inv (flash_mtd_ops opened calloc_ok fdt c) (mtd_contents v) (\<lambda>_. True) dev alloc off n"
    using ops r by (simp add: reliable_medium.flag_inv_def [OF m])
  from reliable_medium.set_flags_run [OF m this, of ws] obtain dev' where d:
    "set_flags alloc dev ws = Inr (map (set_code \<circ> fst) ws, dev')" "fd_ops dev' = flash_mtd_ops opened calloc_ok fdt c"
    "nvram_ready alloc (mtd_contents v) dev' off n" "same_outside (mtd_contents v) off n dev dev'"
    "block_ok (mtd_contents v) dev off n \<or> (\<exists>w \<in> set ws. set_code (fst w) = 0) \<longrightarrow> block_ok (mtd_contents v) dev' off n"
    "\<forall>q \<in> set param_table. flag_of (mtd_contents v) dev' off n q = flags_after ws q (flag_of (mtd_contents v) dev off n q)"
    by (auto simp: reliable_medium.flag_inv_def [OF m])
  have "\<exists>x dev0 dev1. vbnv_get_flag alloc dev (vp_name q) = Inr ((0, Some x), dev0) \<and>
       vbnv_get_flag alloc dev' (vp_name q) = Inr ((0, Some (flags_after ws q x)), dev1)" if "q \<in> set param_table" for q
    using reliable_medium.get_flag [OF m ops _ r that] reliable_medium.get_flag [OF m d(2) _ d(3) that] d(6) that by auto
  with d show ?thesis by blast
qed

text \<open>A chip with a full NVRAM section of two blocks after 16 other bytes, and its flash map.\<close>

definition demo_fmap :: "u8 list" where
  "demo_fmap = FMAP_SIGNATURE @ replicate 46 0 @ [1, 0] @ [16, 0, 0, 0] @ [32, 0, 0, 0] @ bytes_of ''RW_NVRAM'' @ replicate 26 0"

definition demo_spi :: "(string option, nor_chip mtd_data) flash_device" where
  "demo_spi = \<lparr>fd_ops = flash_mtd_ops (\<lambda>_. None) True 0 chip_calls,
     fd_priv = \<lparr>md_fd = 3, md_size = 48, md_erasesize = 16, md_writesize = 1,
       md_kernel = \<lparr>ch_mem = replicate 16 7 @ replicate 32 0, ch_pos = 0\<rparr>\<rparr>,
     fd_fmap = Some demo_fmap, fd_gbb = None, fd_gbb_size = 0, fd_total_size = 48, fd_write_size = 1, fd_erase_size = 16\<rparr>"

lemma demo_ready: "nvram_ready (\<lambda>_. True) (mtd_contents chip_view) demo_spi 16 32"
  unfolding nvram_ready_def by code_simp

theorem vbnv_flags_are_a_store_witness:
  "\<exists>dev'. set_flags (\<lambda>_. True) demo_spi [(''fw_try_next'', 1), (''try_count'', 0x36), (''fw_tried'', 1)] = Inr ([0, 0, - 5], dev') \<and>
    (\<exists>dev1. vbnv_get_flag (\<lambda>_. True) dev' ''try_count'' = Inr ((0, Some 6), dev1))"
proof -
  have q: "param ''try_count'' True 1 0 0xF \<in> set param_table" by (simp add: param_table_def)
  have codes: "map (set_code \<circ> fst) [(''fw_try_next'', 1 :: u8), (''try_count'', 0x36), (''fw_tried'', 1)] = [0, 0, - 5]"
    by (simp add: set_code_def param_table_def param_def EIO_def)
  have "flags_after [(''fw_try_next'', 1), (''try_count'', 0x36), (''fw_tried'', 1)] (param ''try_count'' True 1 0 0xF) x = 6" for x
    by (simp add: flag_put_def param_def)
  moreover have "fd_ops demo_spi = flash_mtd_ops (\<lambda>_. None) True 0 chip_calls" by (simp add: demo_spi_def)
  ultimately show ?thesis
    using vbnv_flags_are_a_store [OF chip_kernel _ demo_ready, of "\<lambda>_. None" True 0 "[(''fw_try_next'', 1), (''try_count'', 0x36), (''fw_tried'', 1)]"] q
    unfolding codes by (fastforce simp: param_def)
qed

subsection \<open>Finding the flash map\<close>

text \<open>The last place below \<open>m * 64\<close> with a signature.\<close>

definition last_signature :: "u8 list \<Rightarrow> nat \<Rightarrow> nat \<Rightarrow> bool" where
  "last_signature C m j \<longleftrightarrow> j < m \<and> bytes_at (64 * j) 8 C = FMAP_SIGNATURE \<and> (\<forall>i. j < i \<longrightarrow> i < m \<longrightarrow> bytes_at (64 * i) 8 C \<noteq> FMAP_SIGNATURE)"

context reliable_medium
begin

lemma device_read:
  assumes "fd_ops dev = ops" "usable (fd_priv dev)" "off + n \<le> length (contents (fd_priv dev))"
  shows "\<exists>h. flash_read dev off n = Inr (Inr (bytes_at off n (contents (fd_priv dev))), dev\<lparr>fd_priv := h\<rparr>) \<and>
    usable h \<and> contents h = contents (fd_priv dev)"
proof -
  from read_total [OF assms(2,3)] obtain xs h where r: "fo_read ops (fd_priv dev) off n = Inr (Inr xs, h)" by blast
  with read_back [OF assms(2) r] read_keeps [OF assms(2) r] assms(1) show ?thesis by (auto simp: flash_read_def)
qed

lemma scan_last:
  assumes "fd_ops dev = ops" "usable (fd_priv dev)" "64 * m \<le> length (contents (fd_priv dev))" "last_signature (contents (fd_priv dev)) m j"
  shows "\<exists>h. fmap_scan dev m = Inr (64 * j, dev\<lparr>fd_priv := h\<rparr>) \<and> usable h \<and> contents h = contents (fd_priv dev)"
  using assms
proof (induction m arbitrary: dev)
  case (Suc m)
  then obtain h where h: "flash_read dev (64 * m) 8 = Inr (Inr (bytes_at (64 * m) 8 (contents (fd_priv dev))), dev\<lparr>fd_priv := h\<rparr>)"
      "usable h" "contents h = contents (fd_priv dev)"
    using device_read [OF Suc.prems(1,2), of "64 * m" 8] by auto
  show ?case
  proof (cases "j = m")
    case True
    then show ?thesis using h Suc.prems(4) by (auto simp: last_signature_def)
  next
    case False
    then have "j < m" "bytes_at (64 * m) 8 (contents (fd_priv dev)) \<noteq> FMAP_SIGNATURE" using Suc.prems(4) by (auto simp: last_signature_def)
    moreover have "last_signature (contents h) m j" using Suc.prems(4) \<open>j < m\<close> h(3) by (simp add: last_signature_def)
    ultimately show ?thesis using Suc.IH [of "dev\<lparr>fd_priv := h\<rparr>"] Suc.prems(1,3) h by auto
  qed
qed (simp add: last_signature_def)

lemma load_map:
  assumes dev: "fd_ops dev = ops" "usable (fd_priv dev)" and C: "contents (fd_priv dev) = C"
    and s: "bytes_at off 8 C = FMAP_SIGNATURE" and hdr: "off + sizeof_fmap \<le> length C"
    and sz: "sz = sizeof_fmap + fmap_nareas (bytes_at off sizeof_fmap C) * sizeof_area" "off + sz \<le> length C" "alloc sz"
  shows "\<exists>h. fmap_load alloc dev off = Inr (Some (bytes_at off sz C), dev\<lparr>fd_priv := h\<rparr>) \<and> usable h \<and> contents h = C"
proof -
  from device_read [OF dev, of off sizeof_fmap] hdr C obtain h where
    h: "flash_read dev off sizeof_fmap = Inr (Inr (bytes_at off sizeof_fmap C), dev\<lparr>fd_priv := h\<rparr>)" "usable h" "contents h = C" by auto
  from device_read [of "dev\<lparr>fd_priv := h\<rparr>" off sz] h(2,3) dev(1) sz(2) obtain h' where
    h': "flash_read (dev\<lparr>fd_priv := h\<rparr>) off sz = Inr (Inr (bytes_at off sz C), dev\<lparr>fd_priv := h'\<rparr>)" "usable h'" "contents h' = C" by auto
  have "take 8 (bytes_at off sizeof_fmap C) = FMAP_SIGNATURE" using s by (simp add: bytes_at_def sizeof_fmap_def min_def)
  with h h' sz(3) show ?thesis by (auto simp: fmap_load_def simp flip: sz(1))
qed

lemma get_map:
  assumes dev: "fd_ops dev = ops" "usable (fd_priv dev)" "fd_fmap dev = None" and C: "contents (fd_priv dev) = C"
    and e: "fo_get_fmap_offset ops (fd_priv dev) = e" "64 \<le> e" "e < 2 ^ 32" "e \<le> length C"
    and j: "last_signature C (e div 64) j" "64 * j + sizeof_fmap \<le> length C"
    and sz: "sz = sizeof_fmap + fmap_nareas (bytes_at (64 * j) sizeof_fmap C) * sizeof_area" "64 * j + sz \<le> length C" "alloc sz"
  shows "\<exists>h. flash_get_fmap alloc dev = Inr (Some (bytes_at (64 * j) sz C), dev\<lparr>fd_priv := h, fd_fmap := Some (bytes_at (64 * j) sz C)\<rparr>) \<and>
    usable h \<and> contents h = C"
proof -
  have u: "unat (of_nat (e - e mod 64) :: u32) = 64 * (e div 64)"
  proof -
    have "unat (of_nat x :: u32) = x" if "x < 2 ^ 32" for x using that by (simp add: unsigned_of_nat take_bit_nat_eq_self)
    from this [of "e - e mod 64"] e(3) show ?thesis by (simp only: minus_mod_eq_mult_div)
  qed
  have "64 * (e div 64) \<le> length C" using e(4) times_div_less_eq_dividend [of 64 e] by linarith
  with scan_last [OF dev(1,2), of "e div 64" j] j(1) C obtain h where
    h: "fmap_scan dev (e div 64) = Inr (64 * j, dev\<lparr>fd_priv := h\<rparr>)" "usable h" "contents h = C" by auto
  have "bytes_at (64 * j) 8 C = FMAP_SIGNATURE" using j(1) by (simp add: last_signature_def)
  from load_map [where dev = "dev\<lparr>fd_priv := h\<rparr>" and alloc = alloc, OF _ _ _ this j(2) sz] dev(1) h(2,3) obtain h' where
    h': "fmap_load alloc (dev\<lparr>fd_priv := h\<rparr>) (64 * j) = Inr (Some (bytes_at (64 * j) sz C), dev\<lparr>fd_priv := h'\<rparr>)" "usable h'" "contents h' = C" by auto
  have "e div 64 \<noteq> 0" using e(2) by simp
  with h h' u dev(1,3) e(1) show ?thesis by (auto simp: flash_get_fmap_def fmap_scan_offset_def)
qed

end

text \<open>
  C20. The flash map is found and kept. When the map's signature is at a 64-byte boundary below the offset
  from the device tree plus 64, \<^verbatim>\<open>flash_get_fmap\<close> returns the whole map at the last such place, with all
  its areas, leaves the chip as it is, and returns the same map without reading from then on.
\<close>

theorem flash_get_fmap_finds_map:
  assumes k: "nor_kernel c v" and ops: "fd_ops dev = flash_mtd_ops opened calloc_ok fdt c" and none: "fd_fmap dev = None"
    and C: "mtd_contents v (fd_priv dev) = C" and e: "64 \<le> unat (fdt + 64)" "unat (fdt + 64) \<le> length C"
    and j: "last_signature C (unat (fdt + 64) div 64) j" "64 * j + sizeof_fmap \<le> length C"
    and sz: "sz = sizeof_fmap + fmap_nareas (bytes_at (64 * j) sizeof_fmap C) * sizeof_area" "64 * j + sz \<le> length C" "alloc sz"
  shows "\<exists>dev'. flash_get_fmap alloc dev = Inr (Some (bytes_at (64 * j) sz C), dev') \<and> mtd_contents v (fd_priv dev') = C \<and>
    fd_ops dev' = fd_ops dev \<and> flash_get_fmap alloc dev' = Inr (Some (bytes_at (64 * j) sz C), dev')"
proof -
  note m = mtd_reliable [OF k, of opened calloc_ok fdt]
  have o': "fo_get_fmap_offset (flash_mtd_ops opened calloc_ok fdt c) (fd_priv dev) = unat (fdt + 64)"
    by (simp add: flash_mtd_ops_def mtd_get_fmap_offset_def)
  have "unat (fdt + 64) < 2 ^ 32" using unsigned_less [of "fdt + 64", where 'a = nat] by simp
  from reliable_medium.get_map [where alloc = alloc, OF m ops _ none C o' e(1) this e(2) j sz] show ?thesis
    by (auto simp: flash_get_fmap_def)
qed

definition demo_flash :: "(string option, nor_chip mtd_data) flash_device" where
  "demo_flash = demo_spi\<lparr>fd_fmap := None, fd_ops := flash_mtd_ops (\<lambda>_. None) True 64 chip_calls,
     fd_priv := (fd_priv demo_spi)\<lparr>md_kernel := \<lparr>ch_mem = replicate 64 0 @ demo_fmap @ replicate 30 0, ch_pos = 0\<rparr>\<rparr>\<rparr>"

theorem flash_get_fmap_finds_map_witness:
  "\<exists>dev'. flash_get_fmap (\<lambda>_. True) demo_flash = Inr (Some demo_fmap, dev')"
proof -
  let ?C = "replicate 64 0 @ demo_fmap @ replicate 30 0"
  have C: "mtd_contents chip_view (fd_priv demo_flash) = ?C" by (simp add: demo_flash_def demo_spi_def mtd_contents_def chip_view_def)
  have u: "unat ((64 :: u32) + 64) = 128" by simp
  have b: "bytes_at 64 8 ?C = FMAP_SIGNATURE" "bytes_at 64 98 ?C = demo_fmap" "length ?C = 192"
    "sizeof_fmap + fmap_nareas (bytes_at 64 sizeof_fmap ?C) * sizeof_area = 98" by code_simp+
  then have l: "last_signature ?C 2 1" by (auto simp: last_signature_def)
  have "fd_ops demo_flash = flash_mtd_ops (\<lambda>_. None) True 64 chip_calls" "fd_fmap demo_flash = None" by (simp_all add: demo_flash_def)
  from flash_get_fmap_finds_map [OF chip_kernel this C, of 1 98 "\<lambda>_. True"] l b show ?thesis by (auto simp: u sizeof_fmap_def)
qed

subsection \<open>The bounds of the root key\<close>

text \<open>
  The test of the root key's bounds adds two 32-bit fields without looking at the carry, so a GBB
  passes it whose key lies outside of it.
\<close>

theorem gbb_rootkey_bounds_wrap:
  assumes "fd_gbb dev = Some gbb" "bytes_at (gl_signature_at g) (length (gl_signature g)) gbb = gl_signature g"
    "gl_signature_at g + length (gl_signature g) \<le> length gbb" "gl_sizeof g \<le> length gbb"
    "le32_at (gl_rootkey_offset_at g) gbb = o32" "le32_at (gl_rootkey_size_at g) gbb = s32"
    "2 ^ 32 \<le> unat o32 + unat s32" "unat o32 + unat s32 - 2 ^ 32 \<le> length gbb" "length gbb < 2 ^ 32"
  shows "gbb_get_rootkey g alloc dev = Inr (Some (gbb, unat o32, unat s32), dev) \<and> length gbb < unat o32 + unat s32"
proof -
  have "unat (o32 + s32) = (unat o32 + unat s32) mod 2 ^ 32" by (simp add: unat_word_ariths(1))
  also have "\<dots> = unat o32 + unat s32 - 2 ^ 32"
    using assms(7) unsigned_less [of o32, where 'a = nat] unsigned_less [of s32, where 'a = nat] by (simp add: mod_if)
  finally have "unat (o32 + s32) \<le> length gbb" using assms(8) by simp
  with assms show ?thesis by (simp add: gbb_get_rootkey_def flash_get_gbb_def Let_def)
qed

end
