(* ===== verification/Update_Fw.thy ===== *)
theory Update_Fw
  imports Vboot
begin

text \<open>
  The update of the main firmware, \<^verbatim>\<open>recovery/updater/update_fw.cpp\<close>: a section of the image is copied to the
  flash at the place that the map of the image gives, and the flags of the NVRAM make the boot loader try
  it. \<open>img\<close> and \<open>spi\<close> are devices of any kind; the functions return both.
\<close>

subsection \<open>Copying a partition\<close>

text \<open>The root keys of the image and the chip are compared after both were looked up.\<close>

definition check_compatible_keys ::
  "gbb_layout \<Rightarrow> allocator \<Rightarrow> ('p, 'h) flash_device \<Rightarrow> ('q, 'k) flash_device
     \<Rightarrow> flash_fault + bool \<times> ('p, 'h) flash_device \<times> ('q, 'k) flash_device" where
  "check_compatible_keys g alloc img spi =
     and_then (gbb_get_rootkey g alloc img) (\<lambda>(img_key, img').
     and_then (gbb_get_rootkey g alloc spi) (\<lambda>(spi_key, spi').
       (case (img_key, spi_key) of
          (Some (gbb, off, sz), Some (gbb', off', sz')) \<Rightarrow>
            if sz \<noteq> sz' then Inr (False, img', spi')
            else if length gbb < off + sz \<or> length gbb' < off' + sz then Inl Over_Read
            else Inr (bytes_at off sz gbb = bytes_at off' sz gbb', img', spi')
        | _ \<Rightarrow> Inr (False, img', spi'))))"

text \<open>The result is 0 also when erasing or writing has failed.\<close>

definition update_partition ::
  "allocator \<Rightarrow> ('p, 'h) flash_device \<Rightarrow> ('q, 'k) flash_device \<Rightarrow> string option
     \<Rightarrow> flash_fault + int \<times> ('p, 'h) flash_device \<times> ('q, 'k) flash_device" where
  "update_partition alloc src dst name =
     and_then (fmap_read_section alloc src name) (\<lambda>(r, src').
       (case r of
          None \<Rightarrow> Inr (- EIO, src', dst)
        | Some (content, offset) \<Rightarrow>
            and_then (flash_erase dst offset (length content)) (\<lambda>(res, dst').
              if res \<noteq> 0 then Inr (0, src', dst')
              else and_then (flash_write dst' offset content) (\<lambda>(_, dst''). Inr (0, src', dst'')))))"

definition update_recovery_fw ::
  "gbb_layout \<Rightarrow> allocator \<Rightarrow> ('q, 'k) flash_device \<Rightarrow> ('p, 'h) flash_device
     \<Rightarrow> flash_fault + int \<times> ('p, 'h) flash_device \<times> ('q, 'k) flash_device" where
  "update_recovery_fw g alloc spi img =
     and_then (check_compatible_keys g alloc img spi) (\<lambda>(ok, img1, spi1).
       if \<not> ok then Inr (- EINVAL, img1, spi1)
       else
         and_then (update_partition alloc img1 spi1 (Some ''RW_SECTION_A'')) (\<lambda>(ra, img2, spi2).
         and_then (update_partition alloc img2 spi2 (Some ''RW_SECTION_B'')) (\<lambda>(rb, img3, spi3).
         and_then (update_partition alloc img3 spi3 (Some ''RW_SHARED'')) (\<lambda>(rs, img4, spi4).
           Inr (if ra \<noteq> 0 \<or> rb \<noteq> 0 \<or> rs \<noteq> 0 then - EIO else 0, img4, spi4)))))"

text \<open>The partition that is not running, and the flag that selects it.\<close>

definition rw_name :: "char \<Rightarrow> string" where
  "rw_name cur_part = (if cur_part = CHR ''B'' then ''RW_SECTION_A'' else ''RW_SECTION_B'')"

definition try_next :: "char \<Rightarrow> u8" where
  "try_next cur_part = (if cur_part = CHR ''B'' then 0 else 1)"

definition update_rw_fw ::
  "gbb_layout \<Rightarrow> allocator \<Rightarrow> ('q, 'k) flash_device \<Rightarrow> ('p, 'h) flash_device \<Rightarrow> char
     \<Rightarrow> flash_fault + int \<times> ('p, 'h) flash_device \<times> ('q, 'k) flash_device" where
  "update_rw_fw g alloc spi img cur_part =
     and_then (check_compatible_keys g alloc img spi) (\<lambda>(ok, img1, spi1).
       if \<not> ok then Inr (- EINVAL, img1, spi1)
       else
         and_then (update_partition alloc img1 spi1 (Some (rw_name cur_part))) (\<lambda>(res, img2, spi2).
           if res \<noteq> 0 then Inr (res, img2, spi2)
           else
             and_then (vbnv_set_flag alloc spi2 ''fw_try_next'' (try_next cur_part)) (\<lambda>(_, spi3).
             and_then (vbnv_set_flag alloc spi3 ''try_count'' 6) (\<lambda>(_, spi4).
               Inr (res, img2, spi4)))))"

text \<open>
  The full update, which is compiled but never called. The vital product data is read before the flash is
  rewritten; what it returned is not tested, and the size of the image's section is used for the chip's data.
\<close>

definition update_ap_fw ::
  "allocator \<Rightarrow> ('q, 'k) flash_device \<Rightarrow> ('p, 'h) flash_device
     \<Rightarrow> flash_fault + int \<times> ('p, 'h) flash_device \<times> ('q, 'k) flash_device" where
  "update_ap_fw alloc spi img =
     and_then (fmap_read_section alloc spi (Some ''RO_VPD'')) (\<lambda>(rovpd, spi1).
     and_then (fmap_read_section alloc img (Some ''RO_VPD'')) (\<lambda>(newvpd, img1).
     and_then (update_partition alloc img1 spi1 None) (\<lambda>(_, img2, spi2).
       (case newvpd of
          None \<Rightarrow> Inl Uninitialised
        | Some (new_data, new_off) \<Rightarrow>
            and_then (flash_erase spi2 new_off (length new_data)) (\<lambda>(res, spi3).
              if res \<noteq> 0 then Inr (res, img2, spi3)
              else
                (case rovpd of
                   None \<Rightarrow> Inl Null_Data
                 | Some (data, _) \<Rightarrow>
                     if length data < length new_data then Inl Over_Read
                     else and_then (flash_write spi3 new_off (take (length new_data) data)) (\<lambda>(res', spi4).
                            Inr (res', img2, spi4))))))))"

subsection \<open>What looking up keys leaves alone\<close>

text \<open>A device after operations that only read: the same map, the same sizes, the same contents.\<close>

definition only_read :: "('h \<Rightarrow> u8 list) \<Rightarrow> ('h \<Rightarrow> bool) \<Rightarrow> ('p, 'h) flash_device \<Rightarrow> ('p, 'h) flash_device \<Rightarrow> bool" where
  "only_read contents usable dev dev' \<longleftrightarrow>
     fd_ops dev' = fd_ops dev \<and> fd_fmap dev' = fd_fmap dev \<and> fd_write_size dev' = fd_write_size dev \<and>
     fd_erase_size dev' = fd_erase_size dev \<and> usable (fd_priv dev') \<and> contents (fd_priv dev') = contents (fd_priv dev)"

context flash_medium
begin

lemma read_only_read:
  assumes "fd_ops dev = ops" "usable (fd_priv dev)" "flash_read dev off n = Inr (r, dev')"
  shows "only_read contents usable dev dev'"
  using assms read_keeps [OF assms(2)] by (auto simp: flash_read_def only_read_def and_then_def split: sum.splits)

lemma section_only_read:
  assumes "fd_ops dev = ops" "usable (fd_priv dev)" "fd_fmap dev = Some fm" "fmap_read_section alloc dev name = Inr (r, dev')"
  shows "only_read contents usable dev dev'"
  using assms read_only_read [OF assms(1,2)]
  by (auto simp: fmap_read_section_def flash_get_fmap_def and_then_def only_read_def split: sum.splits option.splits if_splits prod.splits)

lemma rootkey_only_read:
  assumes "fd_ops dev = ops" "usable (fd_priv dev)" "fd_fmap dev = Some fm" "gbb_get_rootkey g alloc dev = Inr (r, dev')"
  shows "only_read contents usable dev dev'"
proof -
  have "only_read contents usable dev dev''" if "flash_get_gbb alloc dev = Inr (r', dev'')" for r' dev''
    using that section_only_read [OF assms(1-3)] assms(2)
    by (auto simp: flash_get_gbb_def and_then_def only_read_def split: sum.splits option.splits)
  with assms(4) show ?thesis
    by (auto simp: gbb_get_rootkey_def and_then_def Let_def split: sum.splits option.splits if_splits)
qed

end

subsection \<open>The update of a section\<close>

text \<open>Where a section of the image can go.\<close>

definition fits_flash :: "('h \<Rightarrow> u8 list) \<Rightarrow> ('p, 'h) flash_device \<Rightarrow> nat \<Rightarrow> nat \<Rightarrow> bool" where
  "fits_flash contents dev off n \<longleftrightarrow>
     off + n \<le> length (contents (fd_priv dev)) \<and> 0 < fd_write_size dev \<and> off mod fd_write_size dev = 0 \<and> n mod fd_write_size dev = 0 \<and>
     0 < fd_erase_size dev \<and> off mod fd_erase_size dev = 0 \<and> n mod fd_erase_size dev = 0"

context reliable_medium
begin

lemma erase_and_write:
  assumes dst: "fd_ops dst = ops" "usable (fd_priv dst)" "fits_flash contents dst off (length xs)" and b: "off < 2 ^ 32" "length xs < 2 ^ 32"
  shows "\<exists>h1 h2. flash_erase dst off (length xs) = Inr (0, dst\<lparr>fd_priv := h1\<rparr>) \<and>
    flash_write (dst\<lparr>fd_priv := h1\<rparr>) off xs = Inr (0, dst\<lparr>fd_priv := h2\<rparr>) \<and> usable h2 \<and>
    contents h2 = patch off xs (contents (fd_priv dst))"
proof -
  let ?C = "contents (fd_priv dst)" and ?e = "replicate (length xs) (0xFF :: u8)"
  from dst(3) have f: "off + length xs \<le> length ?C" "0 < fd_write_size dst" "off mod fd_write_size dst = 0"
      "length xs mod fd_write_size dst = 0" "0 < fd_erase_size dst" "off mod fd_erase_size dst = 0" "length xs mod fd_erase_size dst = 0"
    by (simp_all add: fits_flash_def)
  from aligned_erase [OF dst(1,2) f(5-7) f(1) b] obtain h where
    h: "flash_erase dst off (length xs) = Inr (0, dst\<lparr>fd_priv := h\<rparr>)" "usable h" "contents h = patch off ?e ?C" by blast
  have "writable_over (bytes_at off (length xs) (contents h)) xs"
    using bytes_at_patch_same [of off ?e ?C] f(1) h(3) by (simp add: erased_writable)
  with aligned_write [of "dst\<lparr>fd_priv := h\<rparr>" off xs] h(2,3) dst(1) f obtain h' where
    "flash_write (dst\<lparr>fd_priv := h\<rparr>) off xs = Inr (0, dst\<lparr>fd_priv := h'\<rparr>)" "usable h'" "contents h' = patch off xs (contents h)"
    by auto
  with h patch_over [of xs ?e off ?C] f(1) show ?thesis by auto
qed

lemma partition_copied:
  assumes src: "fmap_read_section alloc src name = Inr (Some (content, off), src')" "off < 2 ^ 32" "length content < 2 ^ 32"
    and dst: "fd_ops dst = ops" "usable (fd_priv dst)" "fits_flash contents dst off (length content)"
  shows "\<exists>h. update_partition alloc src dst name = Inr (0, src', dst\<lparr>fd_priv := h\<rparr>) \<and> usable h \<and>
    contents h = patch off content (contents (fd_priv dst))"
  using erase_and_write [OF dst src(2,3)] src(1) by (auto simp: update_partition_def)

text \<open>The flags after an update that has copied the section.\<close>

lemma flags_set:
  assumes "flag_inv dev alloc off n"
  shows "\<exists>dev1 dev2 rc rc'. vbnv_set_flag alloc dev ''fw_try_next'' x = Inr (rc, dev1) \<and>
    vbnv_set_flag alloc dev1 ''try_count'' 6 = Inr (rc', dev2) \<and> flag_inv dev2 alloc off n \<and> same_outside contents off n dev dev2 \<and>
    (\<forall>q \<in> set param_table. flag_of contents dev2 off n q =
       flags_after [(''fw_try_next'', x), (''try_count'', 6)] q (flag_of contents dev off n q))"
proof -
  from set_flag_step [OF assms, of "''fw_try_next''" x] obtain dev1 where
    d1: "vbnv_set_flag alloc dev ''fw_try_next'' x = Inr (set_code ''fw_try_next'', dev1)" "flag_inv dev1 alloc off n"
      "same_outside contents off n dev dev1"
      "\<forall>q \<in> set param_table. flag_of contents dev1 off n q = flag_put ''fw_try_next'' x q (flag_of contents dev off n q)" by blast
  from set_flag_step [OF d1(2), of "''try_count''" 6] obtain dev2 where
    d2: "vbnv_set_flag alloc dev1 ''try_count'' 6 = Inr (set_code ''try_count'', dev2)" "flag_inv dev2 alloc off n"
      "same_outside contents off n dev1 dev2"
      "\<forall>q \<in> set param_table. flag_of contents dev2 off n q = flag_put ''try_count'' 6 q (flag_of contents dev1 off n q)" by blast
  have "same_outside contents off n dev dev2" using d1(3) d2(3) by (auto simp: same_outside_def)
  with d1 d2 show ?thesis by auto
qed

end

text \<open>Both devices after the keys were compared.\<close>

lemma keys_only_read:
  assumes "flash_medium iops icontents iusable" "flash_medium ops contents usable"
    "fd_ops img = iops" "iusable (fd_priv img)" "fd_fmap img = Some ifm" "fd_ops spi = ops" "usable (fd_priv spi)" "fd_fmap spi = Some fm"
    "check_compatible_keys g alloc img spi = Inr (ok, img', spi')"
  shows "only_read icontents iusable img img' \<and> only_read contents usable spi spi'"
  using assms(9) flash_medium.rootkey_only_read [OF assms(1,3-5)] flash_medium.rootkey_only_read [OF assms(2,6-8)]
  by (auto simp: check_compatible_keys_def and_then_def split: sum.splits option.splits if_splits)

lemma only_read_area:
  "only_read contents usable dev dev' \<Longrightarrow> has_area contents dev' name off n = has_area contents dev name off n"
  by (simp add: only_read_def has_area_def cong: option.case_cong sum.case_cong)

lemma only_read_ready:
  "only_read contents usable dev dev' \<Longrightarrow> nvram_ready alloc contents dev' off n = nvram_ready alloc contents dev off n"
  using only_read_area [of contents usable dev dev'] by (simp add: nvram_ready_def only_read_def)

lemma only_read_fits:
  "only_read contents usable dev dev' \<Longrightarrow> fits_flash contents dev' off n = fits_flash contents dev off n"
  by (simp add: fits_flash_def only_read_def)

definition apart :: "nat \<Rightarrow> nat \<Rightarrow> nat \<Rightarrow> nat \<Rightarrow> bool" where
  "apart off n off' n' \<longleftrightarrow> off + n \<le> off' \<or> off' + n' \<le> off"

text \<open>The section and the NVRAM after a successful copy.\<close>

lemma ready_after_copy:
  assumes "nvram_ready alloc contents dev noff nn" "apart off (length xs) noff nn" "off + length xs \<le> length (contents (fd_priv dev))"
    "contents h = patch off xs (contents (fd_priv dev))"
  shows "nvram_ready alloc contents (dev\<lparr>fd_priv := h\<rparr>) noff nn"
    "flag_of contents (dev\<lparr>fd_priv := h\<rparr>) noff nn q = flag_of contents dev noff nn q"
proof -
  have "noff + nn \<le> length (contents (fd_priv dev))" using assms(1) by (auto simp: nvram_ready_def elim!: has_areaE)
  then have nv: "bytes_at noff nn (contents h) = bytes_at noff nn (contents (fd_priv dev))"
    using bytes_at_patch_other [of off xs "contents (fd_priv dev)" noff nn] assms(2-4) by (auto simp: apart_def)
  then show "nvram_ready alloc contents (dev\<lparr>fd_priv := h\<rparr>) noff nn" "flag_of contents (dev\<lparr>fd_priv := h\<rparr>) noff nn q = flag_of contents dev noff nn q"
    using assms(1,3,4) has_area_keeps [of contents h dev "''RW_NVRAM''" noff nn] by (simp_all add: nvram_ready_def flag_of_def)
qed

text \<open>The steps of \<^verbatim>\<open>update_rw_fw\<close> after the keys.\<close>

context reliable_medium
begin

lemma copy_and_mark:
  assumes sr: "fmap_read_section alloc img name = Inr (Some (xs, off), img')" "off < 2 ^ 32" "length xs < 2 ^ 32"
    and spi: "fd_ops spi = ops" "usable (fd_priv spi)" "fits_flash contents spi off (length xs)"
    and nv: "nvram_ready alloc contents spi noff nn" "apart off (length xs) noff nn"
  shows "\<exists>s2 s3 s4 rc rc'. update_partition alloc img spi name = Inr (0, img', s2) \<and>
    vbnv_set_flag alloc s2 ''fw_try_next'' x = Inr (rc, s3) \<and> vbnv_set_flag alloc s3 ''try_count'' 6 = Inr (rc', s4) \<and>
    bytes_at off (length xs) (contents (fd_priv s4)) = xs \<and>
    length (contents (fd_priv s4)) = length (contents (fd_priv spi)) \<and>
    (\<forall>i < length (contents (fd_priv spi)). apart i 1 off (length xs) \<longrightarrow> apart i 1 noff nn \<longrightarrow>
       contents (fd_priv s4) ! i = contents (fd_priv spi) ! i) \<and>
    nvram_ready alloc contents s4 noff nn \<and>
    (\<forall>q \<in> set param_table. flag_of contents s4 noff nn q =
       flags_after [(''fw_try_next'', x), (''try_count'', 6)] q (flag_of contents spi noff nn q))"
proof -
  let ?C = "contents (fd_priv spi)"
  have b: "off + length xs \<le> length ?C" using spi(3) by (simp add: fits_flash_def)
  from partition_copied [OF sr spi] obtain h where
    p: "update_partition alloc img spi name = Inr (0, img', spi\<lparr>fd_priv := h\<rparr>)" "usable h" "contents h = patch off xs ?C" by blast
  let ?s2 = "spi\<lparr>fd_priv := h\<rparr>"
  note keep = ready_after_copy [OF nv b p(3)]
  have "flag_inv ?s2 alloc noff nn" using keep(1) spi(1) p(2) by (simp add: flag_inv_def)
  from flags_set [OF this, of x] obtain s3 s4 rc rc' where
    f: "vbnv_set_flag alloc ?s2 ''fw_try_next'' x = Inr (rc, s3)" "vbnv_set_flag alloc s3 ''try_count'' 6 = Inr (rc', s4)"
      "nvram_ready alloc contents s4 noff nn" "same_outside contents noff nn ?s2 s4"
      "\<forall>q \<in> set param_table. flag_of contents s4 noff nn q = flags_after [(''fw_try_next'', x), (''try_count'', 6)] q (flag_of contents ?s2 noff nn q)"
    by (auto simp: flag_inv_def)
  have len: "length (contents (fd_priv s4)) = length ?C" using f(4) p(3) b by (simp add: same_outside_def)
  have nth: "contents (fd_priv s4) ! i = patch off xs ?C ! i" if "i < length ?C" "apart i 1 noff nn" for i
    using f(4) p(3) b that by (auto simp: same_outside_def apart_def)
  have "bytes_at off (length xs) (contents (fd_priv s4)) = bytes_at off (length xs) (patch off xs ?C)"
    by (rule bytes_at_eqI) (use b len nv(2) nth in \<open>auto simp: apart_def\<close>)
  moreover have "contents (fd_priv s4) ! i = ?C ! i" if "i < length ?C" "apart i 1 off (length xs)" "apart i 1 noff nn" for i
    using nth [OF that(1,3)] that(1,2) b by (auto simp: nth_patch apart_def)
  ultimately show ?thesis using p(1) f keep(2) len bytes_at_patch_same [OF b] by auto
qed

end

text \<open>
  The image and the flash that \<^verbatim>\<open>update_rw_fw\<close> starts from: a file and the chip, with the same root key, a
  section in the image's map that is to be copied to \<open>off\<close>, and an NVRAM section at \<open>noff\<close> of the chip.
\<close>

definition update_pair ::
  "gbb_layout \<Rightarrow> allocator \<Rightarrow> 'k nor_view \<Rightarrow> 'k mtd_calls \<Rightarrow> (edify_value, file_data) flash_device
     \<Rightarrow> (string option, 'k mtd_data) flash_device \<Rightarrow> string \<Rightarrow> nat \<Rightarrow> nat \<Rightarrow> nat \<Rightarrow> nat \<Rightarrow> bool" where
  "update_pair g alloc v c img spi name off n noff nn \<longleftrightarrow>
     (\<exists>opened cok fdt. fd_ops spi = flash_mtd_ops opened cok fdt c) \<and> (\<exists>files cok. fd_ops img = flash_file_ops files cok) \<and>
     (\<exists>img' spi'. check_compatible_keys g alloc img spi = Inr (True, img', spi')) \<and>
     has_area ff_data img name off n \<and> alloc n \<and> nvram_ready alloc (mtd_contents v) spi noff nn"

lemma update_pair_checked:
  assumes k: "nor_kernel c v" and u: "update_pair g alloc v c img spi name off n noff nn"
  obtains opened cok fdt img' spi' ih where "reliable_medium (flash_mtd_ops opened cok fdt c) (mtd_contents v) (\<lambda>_. True)"
    "check_compatible_keys g alloc img spi = Inr (True, img', spi')"
    "fmap_read_section alloc img' (Some name) = Inr (Some (bytes_at off n (ff_data (fd_priv img)), off), img'\<lparr>fd_priv := ih\<rparr>)"
    "fd_ops spi' = flash_mtd_ops opened cok fdt c" "only_read (mtd_contents v) (\<lambda>_. True) spi spi'"
    "nvram_ready alloc (mtd_contents v) spi' noff nn" "off < 2 ^ 32" "n < 2 ^ 32" "length (bytes_at off n (ff_data (fd_priv img))) = n"
proof -
  from u obtain opened cok fdt files cok' img' spi' where d: "fd_ops spi = flash_mtd_ops opened cok fdt c" "fd_ops img = flash_file_ops files cok'"
      "check_compatible_keys g alloc img spi = Inr (True, img', spi')" "has_area ff_data img name off n" "alloc n"
      "nvram_ready alloc (mtd_contents v) spi noff nn" by (auto simp: update_pair_def)
  note m = mtd_reliable [OF k, of opened cok fdt]
  obtain ifm fm where maps: "fd_fmap img = Some ifm" "fd_fmap spi = Some fm"
    using d(4,6) by (auto simp: nvram_ready_def elim!: has_areaE)
  have r: "only_read ff_data (\<lambda>_. True) img img'" "only_read (mtd_contents v) (\<lambda>_. True) spi spi'"
    using keys_only_read [OF file_dev.flash_medium_axioms reliable_medium.axioms(1) [OF m] d(2) _ maps(1) d(1) _ maps(2) d(3)] by auto
  have i: "fd_ops img' = flash_file_ops files cok'" "has_area ff_data img' name off n" "ff_data (fd_priv img') = ff_data (fd_priv img)"
    using r(1) d(2,4) only_read_area [OF r(1)] by (simp_all add: only_read_def)
  from file_dev.section_read [where alloc = alloc, OF i(1) _ i(2) d(5)] i(3) obtain ih where
    "fmap_read_section alloc img' (Some name) = Inr (Some (bytes_at off n (ff_data (fd_priv img)), off), img'\<lparr>fd_priv := ih\<rparr>)" by auto
  moreover have "off < 2 ^ 32" "n < 2 ^ 32" "length (bytes_at off n (ff_data (fd_priv img))) = n" using d(4) by (auto elim!: has_areaE)
  moreover have "fd_ops spi' = flash_mtd_ops opened cok fdt c" "nvram_ready alloc (mtd_contents v) spi' noff nn"
    using r(2) d(1,6) only_read_ready [OF r(2)] by (simp_all add: only_read_def)
  ultimately show ?thesis using that m d(3) r(2) by blast
qed



subsection \<open>An update\<close>

definition demo_gbb :: "gbb_layout" where
  "demo_gbb = \<lparr>gl_signature = bytes_of ''$GBB'', gl_sizeof = 12, gl_signature_at = 0, gl_rootkey_offset_at = 4, gl_rootkey_size_at = 8\<rparr>"

definition demo_key :: "u8 list" where
  "demo_key = bytes_of ''$GBB'' @ [12, 0, 0, 0] @ [2, 0, 0, 0] @ [0xAB, 0xCD]"

text \<open>An image of 16 bytes for section B, at offset \<open>off\<close>, and the chip of the boot data.\<close>

definition demo_image :: "u8 \<Rightarrow> (edify_value, file_data) flash_device" where
  "demo_image off = \<lparr>fd_ops = flash_file_ops (\<lambda>_. None) True,
     fd_priv = \<lparr>ff_fd = 4, ff_data = replicate 24 9, ff_blksize = 1\<rparr>,
     fd_fmap = Some (FMAP_SIGNATURE @ replicate 46 0 @ [1, 0] @ [off, 0, 0, 0] @ [16, 0, 0, 0] @ bytes_of ''RW_SECTION_B'' @ replicate 22 0),
     fd_gbb = Some demo_key, fd_gbb_size = 14, fd_total_size = 24, fd_write_size = 1, fd_erase_size = 1\<rparr>"

definition demo_chip_spi :: "(string option, nor_chip mtd_data) flash_device" where
  "demo_chip_spi = demo_spi\<lparr>fd_gbb := Some demo_key\<rparr>"

lemma demo_pair:
  assumes "has_area ff_data (demo_image off) ''RW_SECTION_B'' o' 16"
  shows "update_pair demo_gbb (\<lambda>_. True) chip_view chip_calls (demo_image off) demo_chip_spi ''RW_SECTION_B'' o' 16 16 32"
proof -
  have "nvram_ready (\<lambda>_. True) (mtd_contents chip_view) demo_chip_spi 16 32"
    unfolding nvram_ready_def by code_simp
  moreover have "check_compatible_keys demo_gbb (\<lambda>_. True) (demo_image off) demo_chip_spi = Inr (True, demo_image off, demo_chip_spi)"
    by (simp add: check_compatible_keys_def gbb_get_rootkey_def flash_get_gbb_def demo_image_def demo_chip_spi_def demo_gbb_def demo_key_def
        le32_at_def bytes_at_def bytes_of_def Let_def)
  ultimately show ?thesis using assms
    by (auto simp: update_pair_def demo_image_def demo_chip_spi_def demo_spi_def)
qed



end
