(* ===== verification/Flash_Ec.thy ===== *)
theory Flash_Ec
  imports Flash_Mtd
begin

unbundle bit_operations_syntax

text \<open>
  The flash of the embedded controller, \<^verbatim>\<open>recovery/updater/flash_ec.c\<close>: commands to the controller go through
  one \<^verbatim>\<open>ioctl\<close>, which is an argument, and data goes in packets of a size the controller has named. The
  commands and their packed structures are those of \<^verbatim>\<open>recovery/updater/ec_commands.h\<close>.
\<close>

subsection \<open>Commands\<close>

definition EC_CMD_GET_PROTOCOL_INFO :: int where "EC_CMD_GET_PROTOCOL_INFO = 0x0b"
definition EC_CMD_FLASH_INFO :: int where "EC_CMD_FLASH_INFO = 0x10"
definition EC_CMD_FLASH_READ :: int where "EC_CMD_FLASH_READ = 0x11"
definition EC_CMD_FLASH_WRITE :: int where "EC_CMD_FLASH_WRITE = 0x12"
definition EC_CMD_FLASH_ERASE :: int where "EC_CMD_FLASH_ERASE = 0x13"
definition EC_CMD_FLASH_REGION_INFO :: int where "EC_CMD_FLASH_REGION_INFO = 0x16"
definition EC_FLASH_REGION_RO :: nat where "EC_FLASH_REGION_RO = 0"
definition CROS_EC_DEV_NAME :: string where "CROS_EC_DEV_NAME = ''/dev/cros_ec''"

text \<open>
  \<open>ec_ioctl command version outdata insize\<close> gives the return value, the result of the controller and the bytes
  that are stored in \<^verbatim>\<open>indata\<close>.
\<close>

record 'k ec_calls =
  ec_ioctl :: "int \<Rightarrow> int \<Rightarrow> u8 list \<Rightarrow> nat \<Rightarrow> 'k \<Rightarrow> (int \<times> u32 \<times> u8 list) \<times> 'k"
  ec_errno :: "'k \<Rightarrow> int"

text \<open>\<^verbatim>\<open>struct ec_data\<close>, the responses as their bytes, and the kernel.\<close>

record 'k ec_data =
  ed_fd :: int
  ed_proto :: "u8 list"
  ed_info :: "u8 list"
  ed_ro_region :: "u8 list"
  ed_kernel :: 'k

definition max_response_packet_size :: "'k ec_data \<Rightarrow> u32" where
  "max_response_packet_size dev = of_nat (le_val (bytes_at 6 2 (ed_proto dev)))"

definition u32_at :: "nat \<Rightarrow> u8 list \<Rightarrow> u32" where
  "u32_at off bytes = of_nat (le_val (bytes_at off 4 bytes))"

definition info_flash_size :: "'k ec_data \<Rightarrow> u32" where "info_flash_size dev = u32_at 0 (ed_info dev)"
definition info_erase_block_size :: "'k ec_data \<Rightarrow> u32" where "info_erase_block_size dev = u32_at 8 (ed_info dev)"
definition info_write_ideal_size :: "'k ec_data \<Rightarrow> u32" where "info_write_ideal_size dev = u32_at 16 (ed_info dev)"

definition ec_command ::
  "'k ec_calls \<Rightarrow> 'k ec_data \<Rightarrow> int \<Rightarrow> int \<Rightarrow> u8 list \<Rightarrow> nat \<Rightarrow> (int \<times> u8 list) \<times> 'k ec_data" where
  "ec_command c ec command version outdata insize =
     (if ed_fd ec < 0 then ((- ENODEV, []), ec)
      else
        (case ec_ioctl c command version outdata insize (ed_kernel ec) of
           ((r, result, indata), k) \<Rightarrow>
             ((if r < 0 then - ec_errno c k else if result \<noteq> 0 then sint result else 0, indata), ec\<lparr>ed_kernel := k\<rparr>)))"

text \<open>A response in a structure of \<open>n\<close> bytes that was 0 before.\<close>

definition stored :: "nat \<Rightarrow> u8 list \<Rightarrow> u8 list" where
  "stored n bytes = take n bytes @ replicate (n - length bytes) 0"

definition ec_open ::
  "'k ec_calls \<Rightarrow> (string \<Rightarrow> (int \<times> 'k) option) \<Rightarrow> bool \<Rightarrow> string option \<Rightarrow> 'k ec_data option" where
  "ec_open c opened calloc_ok params =
     (let path = (case params of None \<Rightarrow> CROS_EC_DEV_NAME | Some p \<Rightarrow> p)
      in if \<not> calloc_ok then None
         else case opened path of
             None \<Rightarrow> None
           | Some (fd, k) \<Rightarrow>
               (let dev0 = \<lparr>ed_fd = fd, ed_proto = replicate 12 0, ed_info = replicate 24 0, ed_ro_region = replicate 8 0, ed_kernel = k\<rparr>
                in case ec_command c dev0 EC_CMD_GET_PROTOCOL_INFO 0 [] 12 of
                     ((res, proto), dev1) \<Rightarrow>
                       if res \<noteq> 0 then None
                       else case ec_command c (dev1\<lparr>ed_proto := stored 12 proto\<rparr>) EC_CMD_FLASH_INFO 1 [] 24 of
                           ((res, info), dev2) \<Rightarrow>
                             if res \<noteq> 0 then None
                             else case ec_command c (dev2\<lparr>ed_info := stored 24 info\<rparr>) EC_CMD_FLASH_REGION_INFO 1
                                         (le_bytes 4 EC_FLASH_REGION_RO) 8 of
                                 ((res, region), dev3) \<Rightarrow>
                                   if res \<noteq> 0 then None else Some (dev3\<lparr>ed_ro_region := stored 8 region\<rparr>)))"

subsection \<open>Reading, writing, erasing\<close>

text \<open>
  The loop of \<^verbatim>\<open>ec_read\<close>. Each command may store up to \<open>read_size\<close> bytes, also when fewer are left in
  the buffer. \<open>None\<close>: the loop never ends.
\<close>

partial_function (option) ec_read_loop ::
  "'k ec_calls \<Rightarrow> u32 \<Rightarrow> nat \<Rightarrow> nat \<Rightarrow> u8 list \<Rightarrow> 'k ec_data \<Rightarrow> (flash_fault + (int + u8 list) \<times> 'k ec_data) option" where
  "ec_read_loop c read_size offset count got dev =
     (if count = 0 then Some (Inr (Inr got, dev))
      else
        (let sz = min (unat read_size) count
         in case ec_command c dev EC_CMD_FLASH_READ 0 (le_bytes 4 offset @ le_bytes 4 sz) (unat read_size) of
              ((res, bytes), dev') \<Rightarrow>
                if res \<noteq> 0 then Some (Inr (Inl res, dev'))
                else if count < length bytes then Some (Inl Over_Write)
                else if length bytes < sz then Some (Inl Uninitialised)
                else ec_read_loop c read_size (offset + sz) (count - sz) (got @ take sz bytes) dev'))"

declare ec_read_loop.simps [code]

definition ec_read ::
  "'k ec_calls \<Rightarrow> 'k ec_data \<Rightarrow> nat \<Rightarrow> nat \<Rightarrow> flash_fault + (int + u8 list) \<times> 'k ec_data" where
  "ec_read c dev offset count =
     (case ec_read_loop c (max_response_packet_size dev - 8) offset count [] dev of
        None \<Rightarrow> Inl Never_Returns
      | Some r \<Rightarrow> r)"

text \<open>The loop of \<^verbatim>\<open>ec_write\<close>, which sends whole packets; \<open>rest\<close> is what is left of the buffer.\<close>

partial_function (option) ec_write_loop ::
  "'k ec_calls \<Rightarrow> u32 \<Rightarrow> nat \<Rightarrow> u8 list \<Rightarrow> 'k ec_data \<Rightarrow> (flash_fault + int \<times> 'k ec_data) option" where
  "ec_write_loop c write_size offset rest dev =
     (if rest = [] then Some (Inr (0, dev))
      else if length rest < unat write_size then Some (Inl Over_Read)
      else
        (case ec_command c dev EC_CMD_FLASH_WRITE 1
                (le_bytes 4 offset @ le_bytes 4 (unat write_size) @ take (unat write_size) rest) 0 of
           ((res, _), dev') \<Rightarrow>
             if res \<noteq> 0 then Some (Inr (res, dev'))
             else ec_write_loop c write_size (offset + unat write_size) (drop (unat write_size) rest) dev'))"

declare ec_write_loop.simps [code]

definition ec_write ::
  "'k ec_calls \<Rightarrow> allocator \<Rightarrow> 'k ec_data \<Rightarrow> nat \<Rightarrow> u8 list \<Rightarrow> flash_fault + int \<times> 'k ec_data" where
  "ec_write c alloc dev offset buffer =
     (if \<not> alloc (unat (8 + info_write_ideal_size dev)) then Inr (- ENOMEM, dev)
      else
        (case ec_write_loop c (info_write_ideal_size dev) offset buffer dev of
           None \<Rightarrow> Inl Never_Returns
         | Some r \<Rightarrow> r))"

definition ec_erase :: "'k ec_calls \<Rightarrow> 'k ec_data \<Rightarrow> nat \<Rightarrow> nat \<Rightarrow> flash_fault + int \<times> 'k ec_data" where
  "ec_erase c dev offset count =
     (case ec_command c dev EC_CMD_FLASH_ERASE 0 (le_bytes 4 offset @ le_bytes 4 count) 0 of
        ((res, _), dev') \<Rightarrow> Inr (res, dev'))"

definition ec_get_size :: "'k ec_data \<Rightarrow> nat" where
  "ec_get_size dev = (if 0 < ed_fd dev then unat (info_flash_size dev) else 0)"

definition ec_get_write_size :: "'k ec_data \<Rightarrow> nat" where
  "ec_get_write_size dev = (if 0 < ed_fd dev then unat (info_write_ideal_size dev) else 0)"

definition ec_get_erase_size :: "'k ec_data \<Rightarrow> nat" where
  "ec_get_erase_size dev = (if 0 < ed_fd dev then unat (info_erase_block_size dev) else 0)"

definition ec_get_fmap_offset :: "'k ec_data \<Rightarrow> nat" where
  "ec_get_fmap_offset dev = unat (u32_at 0 (ed_ro_region dev) + u32_at 4 (ed_ro_region dev))"

definition flash_ec_ops ::
  "'k ec_calls \<Rightarrow> (string \<Rightarrow> (int \<times> 'k) option) \<Rightarrow> bool \<Rightarrow> allocator \<Rightarrow> (string option, 'k ec_data) flash_ops" where
  "flash_ec_ops c opened calloc_ok alloc =
     \<lparr>fo_name = ''ec'', fo_open = ec_open c opened calloc_ok, fo_read = ec_read c, fo_write = ec_write c alloc,
      fo_erase = ec_erase c, fo_get_size = ec_get_size, fo_get_write_size = ec_get_write_size,
      fo_get_erase_size = ec_get_erase_size, fo_get_fmap_offset = ec_get_fmap_offset, fo_cmd = Some (ec_command c)\<rparr>"

subsection \<open>A controller with flash\<close>

text \<open>
  What the controller documents for its flash commands: a read responds with exactly the bytes asked for,
  a write clears bits, an erase sets the range to \<open>0xFF\<close>. \<open>mem\<close> is the flash of the controller.
\<close>

definition ec_flash :: "'k ec_calls \<Rightarrow> ('k \<Rightarrow> u8 list) \<Rightarrow> bool" where
  "ec_flash c mem \<longleftrightarrow>
     (\<forall>off n k insize. off + n \<le> length (mem k) \<longrightarrow> n \<le> insize \<longrightarrow>
        (\<exists>k'. ec_ioctl c EC_CMD_FLASH_READ 0 (le_bytes 4 off @ le_bytes 4 n) insize k = ((0, 0, bytes_at off n (mem k)), k') \<and>
           mem k' = mem k)) \<and>
     (\<forall>off xs k. off + length xs \<le> length (mem k) \<longrightarrow>
        (\<exists>r k'. ec_ioctl c EC_CMD_FLASH_WRITE 1 (le_bytes 4 off @ le_bytes 4 (length xs) @ xs) 0 k = ((0, 0, r), k') \<and>
           mem k' = nor_write off xs (mem k))) \<and>
     (\<forall>off n k. off + n \<le> length (mem k) \<longrightarrow>
        (\<exists>r k'. ec_ioctl c EC_CMD_FLASH_ERASE 0 (le_bytes 4 off @ le_bytes 4 n) 0 k = ((0, 0, r), k') \<and>
           mem k' = patch off (replicate n 0xFF) (mem k)))"

lemma ec_read_cmd:
  assumes "ec_flash c mem" "0 \<le> ed_fd dev" "off + n \<le> length (mem (ed_kernel dev))" "n \<le> insize"
  shows "\<exists>k. ec_command c dev EC_CMD_FLASH_READ 0 (le_bytes 4 off @ le_bytes 4 n) insize =
    ((0, bytes_at off n (mem (ed_kernel dev))), dev\<lparr>ed_kernel := k\<rparr>) \<and> mem k = mem (ed_kernel dev)"
  using assms unfolding ec_flash_def ec_command_def by fastforce

lemma ec_write_cmd:
  assumes "ec_flash c mem" "0 \<le> ed_fd dev" "off + length xs \<le> length (mem (ed_kernel dev))"
  shows "\<exists>r k. ec_command c dev EC_CMD_FLASH_WRITE 1 (le_bytes 4 off @ le_bytes 4 (length xs) @ xs) 0 =
    ((0, r), dev\<lparr>ed_kernel := k\<rparr>) \<and> mem k = nor_write off xs (mem (ed_kernel dev))"
  using assms unfolding ec_flash_def ec_command_def by fastforce

lemma ec_erase_done:
  assumes "ec_flash c mem" "0 \<le> ed_fd dev" "off + n \<le> length (mem (ed_kernel dev))"
  shows "\<exists>k. ec_erase c dev off n = Inr (0, dev\<lparr>ed_kernel := k\<rparr>) \<and> mem k = patch off (replicate n 0xFF) (mem (ed_kernel dev))"
proof -
  from assms obtain r k where "ec_ioctl c EC_CMD_FLASH_ERASE 0 (le_bytes 4 off @ le_bytes 4 n) 0 (ed_kernel dev) = ((0, 0, r), k)"
    "mem k = patch off (replicate n 0xFF) (mem (ed_kernel dev))" unfolding ec_flash_def by blast
  with assms(2) show ?thesis by (auto simp: ec_erase_def ec_command_def)
qed

text \<open>Reading in chunks, whatever is left for the last one.\<close>

lemma ec_read_loop_done:
  assumes law: "ec_flash c mem" and rs: "0 < unat rs"
  shows "0 \<le> ed_fd dev \<Longrightarrow> off + n \<le> length (mem (ed_kernel dev)) \<Longrightarrow>
    \<exists>k. ec_read_loop c rs off n got dev = Some (Inr (Inr (got @ bytes_at off n (mem (ed_kernel dev))), dev\<lparr>ed_kernel := k\<rparr>)) \<and>
      mem k = mem (ed_kernel dev)"
proof (induction n arbitrary: off got dev rule: less_induct)
  case (less n)
  show ?case
  proof (cases "n = 0")
    case True
    then show ?thesis by (subst ec_read_loop.simps) (auto simp: bytes_at_def intro!: exI [of _ "ed_kernel dev"])
  next
    case False
    define s where "s = min (unat rs) n"
    have s: "0 < s" "s \<le> n" "s \<le> unat rs" using False rs by (auto simp: s_def)
    let ?m = "mem (ed_kernel dev)"
    from ec_read_cmd [OF law less.prems(1), of off s "unat rs"] less.prems(2) s obtain k where
      k: "ec_command c dev EC_CMD_FLASH_READ 0 (le_bytes 4 off @ le_bytes 4 s) (unat rs) = ((0, bytes_at off s ?m), dev\<lparr>ed_kernel := k\<rparr>)"
        "mem k = ?m" by auto
    have len: "length (bytes_at off s ?m) = s" using s less.prems(2) by simp
    from less.IH [of "n - s" "dev\<lparr>ed_kernel := k\<rparr>" "off + s" "got @ bytes_at off s ?m"] s less.prems k(2) obtain k' where
      k': "ec_read_loop c rs (off + s) (n - s) (got @ bytes_at off s ?m) (dev\<lparr>ed_kernel := k\<rparr>) =
          Some (Inr (Inr (got @ bytes_at off s ?m @ bytes_at (off + s) (n - s) ?m), dev\<lparr>ed_kernel := k'\<rparr>))" "mem k' = ?m" by auto
    have "bytes_at off n ?m = bytes_at off s ?m @ bytes_at (off + s) (n - s) ?m" using bytes_at_add [of off s "n - s" ?m] s by simp
    with False k k' len s show ?thesis
      by (subst ec_read_loop.simps) (auto simp: Let_def simp flip: s_def)
  qed
qed

lemma ec_write_loop_done:
  assumes law: "ec_flash c mem" and ws: "0 < unat ws"
  shows "0 \<le> ed_fd dev \<Longrightarrow> off + length xs \<le> length (mem (ed_kernel dev)) \<Longrightarrow> length xs mod unat ws = 0 \<Longrightarrow>
    \<exists>k. ec_write_loop c ws off xs dev = Some (Inr (0, dev\<lparr>ed_kernel := k\<rparr>)) \<and> mem k = nor_write off xs (mem (ed_kernel dev))"
proof (induction xs arbitrary: off dev rule: length_induct)
  case (1 xs)
  let ?m = "mem (ed_kernel dev)" and ?w = "unat ws"
  show ?case
  proof (cases "xs = []")
    case True
    then show ?thesis
      by (subst ec_write_loop.simps) (auto simp: nor_write_def patch_def bytes_at_def intro!: exI [of _ "ed_kernel dev"])
  next
    case False
    then have w: "?w \<le> length xs" using "1.prems"(3) ws by (metis length_greater_0_conv linorder_not_le mod_less neq0_conv)
    have ys: "length (take ?w xs) = ?w" using w by simp
    from ec_write_cmd [OF law "1.prems"(1), of off "take ?w xs"] "1.prems"(2) w ys obtain r k where
      k: "ec_command c dev EC_CMD_FLASH_WRITE 1 (le_bytes 4 off @ le_bytes 4 ?w @ take ?w xs) 0 = ((0, r), dev\<lparr>ed_kernel := k\<rparr>)"
        "mem k = nor_write off (take ?w xs) ?m" by auto
    have "length (drop ?w xs) mod ?w = 0" using "1.prems"(3) w by (simp add: mod_if [of "length xs"] le_mod_geq)
    with "1.IH" [THEN spec, of "drop ?w xs", THEN mp, THEN spec, of "off + ?w", THEN spec, of "dev\<lparr>ed_kernel := k\<rparr>"] False ws k(2) "1.prems"(1,2) w have
      "\<exists>k'. ec_write_loop c ws (off + ?w) (drop ?w xs) (dev\<lparr>ed_kernel := k\<rparr>) = Some (Inr (0, dev\<lparr>ed_kernel := k'\<rparr>)) \<and>
         mem k' = nor_write (off + ?w) (drop ?w xs) (mem k)" by auto
    moreover have "nor_write (off + ?w) (drop ?w xs) (mem k) = nor_write off xs ?m"
      using nor_write_append [of off "take ?w xs" "drop ?w xs" ?m] k(2) ys "1.prems"(2) by simp
    ultimately show ?thesis using False w k(1) by (subst ec_write_loop.simps) auto
  qed
qed


text \<open>A controller with 64 bytes of flash.\<close>

definition small_mem :: "u8 list \<Rightarrow> u8 list" where
  "small_mem k = take 64 k"

definition small_ec :: "u8 list ec_calls" where
  "small_ec = \<lparr>ec_ioctl = (\<lambda>cmd ver out insize k.
       (let off = le_val (take 4 out); n = le_val (take 4 (drop 4 out))
        in if cmd = EC_CMD_FLASH_READ then ((0, 0, bytes_at off n (small_mem k)), k)
           else if cmd = EC_CMD_FLASH_WRITE then ((0, 0, []), nor_write off (drop 8 out) (small_mem k))
           else ((0, 0, []), patch off (replicate n 0xFF) (small_mem k)))),
     ec_errno = (\<lambda>_. 5)\<rparr>"

lemma small_ec_flash: "ec_flash small_ec small_mem"
proof -
  have v: "le_val (le_bytes 4 x) = x" if "x \<le> 64" for x using that by (simp add: le_val_bytes)
  have l: "length (small_mem k) \<le> 64" for k by (simp add: small_mem_def)
  have s: "small_mem (small_mem k) = small_mem k" "length xs = length (small_mem k) \<Longrightarrow> small_mem xs = xs" for k xs
    by (simp_all add: small_mem_def)
  have b: "off \<le> 64 \<and> n \<le> 64" if "off + n \<le> length (small_mem k)" for off n k using that l [of k] by linarith
  show ?thesis unfolding ec_flash_def
  proof (intro conjI allI impI)
    fix off n insize :: nat and k :: "u8 list"
    assume "off + n \<le> length (small_mem k)"
    from b [OF this] show "\<exists>k'. ec_ioctl small_ec EC_CMD_FLASH_READ 0 (le_bytes 4 off @ le_bytes 4 n) insize k =
        ((0, 0, bytes_at off n (small_mem k)), k') \<and> small_mem k' = small_mem k" by (simp add: small_ec_def v)
  next
    fix off and xs k :: "u8 list"
    assume a: "off + length xs \<le> length (small_mem k)"
    from b [OF a] a show "\<exists>r k'. ec_ioctl small_ec EC_CMD_FLASH_WRITE 1 (le_bytes 4 off @ le_bytes 4 (length xs) @ xs) 0 k = ((0, 0, r), k') \<and>
        small_mem k' = nor_write off xs (small_mem k)"
      by (simp add: small_ec_def v s EC_CMD_FLASH_READ_def EC_CMD_FLASH_WRITE_def)
  next
    fix off n and k :: "u8 list"
    assume a: "off + n \<le> length (small_mem k)"
    from b [OF a] a show "\<exists>r k'. ec_ioctl small_ec EC_CMD_FLASH_ERASE 0 (le_bytes 4 off @ le_bytes 4 n) 0 k = ((0, 0, r), k') \<and>
        small_mem k' = patch off (replicate n 0xFF) (small_mem k)"
      by (simp add: small_ec_def v s EC_CMD_FLASH_READ_def EC_CMD_FLASH_WRITE_def EC_CMD_FLASH_ERASE_def)
  qed
qed

definition demo_ec :: "u8 list ec_data" where
  "demo_ec = \<lparr>ed_fd = 3, ed_proto = [0, 0, 0, 0, 0, 0, 11, 0, 0, 0, 0, 0], ed_info = le_bytes 4 64 @ le_bytes 4 1 @ le_bytes 4 1 @ le_bytes 4 1 @ le_bytes 4 2 @ le_bytes 4 0,
     ed_ro_region = le_bytes 4 0 @ le_bytes 4 32, ed_kernel = replicate 64 0\<rparr>"


text \<open>
  A controller that names a response size of 8 bytes leaves no room for data: a read of anything asks for
  0 bytes again and again, and never returns.
\<close>

lemma ec_read_loop_stuck:
  assumes law: "ec_flash c mem" and r: "ec_read_loop c rs off n got dev = Some r"
  shows "rs = 0 \<longrightarrow> 0 \<le> ed_fd dev \<longrightarrow> off \<le> length (mem (ed_kernel dev)) \<longrightarrow> n = 0"
proof -
  define P where "P c' (rs' :: u32) off' n' (got' :: u8 list) (dev' :: 'a ec_data) (y :: flash_fault + (int + u8 list) \<times> 'a ec_data) \<longleftrightarrow>
    (c' = c \<longrightarrow> rs' = 0 \<longrightarrow> 0 \<le> ed_fd dev' \<longrightarrow> off' \<le> length (mem (ed_kernel dev')) \<longrightarrow> n' = (0 :: nat))" for c' rs' off' n' got' dev' y
  have "P c rs off n got dev r"
  proof (rule ec_read_loop.raw_induct [OF _ r, of P])
    fix loop c' rs' off' n' got' dev' y
    assume IH: "\<And>c rs off n g d y. loop c rs off n g d = Some y \<Longrightarrow> P c rs off n g d y"
      and step: "(if n' = 0 then Some (Inr (Inr got', dev'))
        else let sz = min (unat rs') n'
          in case ec_command c' dev' EC_CMD_FLASH_READ 0 (le_bytes 4 off' @ le_bytes 4 sz) (unat rs') of
               ((res, bytes), dev'') \<Rightarrow>
                 if res \<noteq> 0 then Some (Inr (Inl res, dev''))
                 else if n' < length bytes then Some (Inl Over_Write)
                 else if length bytes < sz then Some (Inl Uninitialised)
                 else loop c' rs' (off' + sz) (n' - sz) (got' @ take sz bytes) dev'') = Some y"
    show "P c' rs' off' n' got' dev' y" unfolding P_def
    proof (intro impI, rule ccontr)
      assume a: "c' = c" "rs' = 0" "0 \<le> ed_fd dev'" "off' \<le> length (mem (ed_kernel dev'))" "n' \<noteq> 0"
      from ec_read_cmd [OF law a(3), of off' 0 0] a(4) obtain k where
        k: "ec_command c dev' EC_CMD_FLASH_READ 0 (le_bytes 4 off' @ le_bytes 4 0) 0 = ((0, []), dev'\<lparr>ed_kernel := k\<rparr>)" "mem k = mem (ed_kernel dev')"
        by (auto simp: bytes_at_def)
      have "loop c 0 off' n' got' (dev'\<lparr>ed_kernel := k\<rparr>) = Some y" using step a k(1) by (simp add: Let_def)
      from IH [OF this] a k(2) show False by (simp add: P_def)
    qed
  qed
  then show ?thesis by (simp add: P_def)
qed

theorem ec_read_without_room_endless:
  assumes "ec_flash c mem" "0 \<le> ed_fd dev" "off \<le> length (mem (ed_kernel dev))" "max_response_packet_size dev = 8" "0 < n"
  shows "ec_read c dev off n = Inl Never_Returns"
  using ec_read_loop_stuck [OF assms(1), of 0 off n "[]" dev] assms(2-5) by (auto simp: ec_read_def split: option.split)

end
