(* ===== verification/Fwtool.thy ===== *)
theory Fwtool
  imports Update_Fw Flash_Ec
begin

text \<open>
  The entry points of the updater: \<^verbatim>\<open>update_fw\<close> of \<^verbatim>\<open>recovery/updater/update_fw.cpp\<close>, the edify function of
  \<^verbatim>\<open>recovery/updater/recovery_updater.cpp\<close>, and the commands of \<^verbatim>\<open>recovery/updater/fwtool.cpp\<close> that change the
  flash. What the code prints is left out. The commands to the controller in \<^verbatim>\<open>debug_ec.c\<close>, which \<open>Debug_Ec\<close>
  models, are an argument of the table of commands.
\<close>

subsection \<open>What the updater runs on\<close>

text \<open>
  The device tree, the files, the allocator, the layouts of the headers that are not part of the sources, and
  the two devices of the kernel with the state they are opened in.
\<close>

record ('k, 'e) updater_env =
  ue_fdt :: "string \<Rightarrow> u8 list option"
  ue_files :: "string \<Rightarrow> (int \<times> u8 list \<times> nat) option"
  ue_alloc :: allocator
  ue_calloc :: bool
  ue_shared :: shared_data_layout
  ue_gbb :: gbb_layout
  ue_mtd :: "'k mtd_calls"
  ue_mtd_open :: "string \<Rightarrow> (int \<times> mtd_info option \<times> 'k) option"
  ue_ec :: "'e ec_calls"
  ue_ec_open :: "string \<Rightarrow> (int \<times> 'e) option"

text \<open>\<^verbatim>\<open>flash_open\<close> with the entry of the table of devices that has the name.\<close>

definition open_file :: "('k, 'e) updater_env \<Rightarrow> edify_value \<Rightarrow> (edify_value, file_data) flash_device option" where
  "open_file env v = flash_open [flash_file_ops (ue_files env) (ue_calloc env)] (ue_calloc env) (Some ''file'') v"

definition open_ec :: "('k, 'e) updater_env \<Rightarrow> (string option, 'e ec_data) flash_device option" where
  "open_ec env = flash_open [flash_ec_ops (ue_ec env) (ue_ec_open env) (ue_calloc env) (ue_alloc env)] (ue_calloc env) (Some ''ec'') None"

definition spi_ops :: "('k, 'e) updater_env \<Rightarrow> (string option, 'k mtd_data) flash_ops" where
  "spi_ops env = flash_mtd_ops (ue_mtd_open env) (ue_calloc env) (fdt_read_u32 (ue_fdt env) ''fmap-offset'') (ue_mtd env)"

definition open_spi :: "('k, 'e) updater_env \<Rightarrow> (string option, 'k mtd_data) flash_device option" where
  "open_spi env = flash_open [spi_ops env] (ue_calloc env) (Some ''spi'') None"

subsection \<open>The update\<close>

text \<open>\<^verbatim>\<open>strncmp(a, b, n) == 0\<close>; a string that ends without its NUL byte is not equal to anything.\<close>

fun strncmp_eq :: "nat \<Rightarrow> u8 list \<Rightarrow> u8 list \<Rightarrow> bool" where
  "strncmp_eq 0 xs ys = True"
| "strncmp_eq (Suc n) (x # xs) (y # ys) = (x = y \<and> (x = 0 \<or> strncmp_eq n xs ys))"
| "strncmp_eq (Suc n) _ _ = False"

text \<open>The return code, and the flash when it was opened.\<close>

definition update_fw ::
  "('k, 'e) updater_env \<Rightarrow> edify_value \<Rightarrow> bool
     \<Rightarrow> flash_fault + int \<times> (string option, 'k mtd_data) flash_device option" where
  "update_fw env fw_file force =
     and_then (vboot_get_mainfw_act (ue_shared env) (ue_fdt env) (ue_alloc env)) (\<lambda>cur_part.
       (case fdt_read_string (ue_fdt env) (ue_alloc env) ''firmware-version'' of
          None \<Rightarrow> Inr (- EIO, None)
        | Some version \<Rightarrow>
            (case open_file env fw_file of
               None \<Rightarrow> Inr (- EINVAL, None)
             | Some img \<Rightarrow>
                 and_then (fmap_read_section (ue_alloc env) img (Some ''RW_FWID_A'')) (\<lambda>(r, img1).
                   (case r of
                      None \<Rightarrow> Inr (- EINVAL, None)
                    | Some (fwid, _) \<Rightarrow>
                        if strncmp_eq (length fwid) version fwid \<and> \<not> force then Inr (0, None)
                        else
                          (case open_ec env of
                             None \<Rightarrow> Inr (- EINVAL, None)
                           | Some ec \<Rightarrow>
                               (case open_spi env of
                                  None \<Rightarrow> Inr (- EINVAL, None)
                                | Some spi \<Rightarrow>
                                    and_then
                                      (if cur_part = CHR ''R'' then update_recovery_fw (ue_gbb env) (ue_alloc env) spi img1
                                       else update_rw_fw (ue_gbb env) (ue_alloc env) spi img1 cur_part)
                                      (\<lambda>(res, _, spi'). Inr (if res = 0 then 1 else res, Some spi')))))))))"

text \<open>The edify function: \<open>Inl\<close> the code of an error, \<open>Inr\<close> the value. \<open>values\<close> is what evaluating the arguments gives.\<close>

definition firmware_update ::
  "('k, 'e) updater_env \<Rightarrow> 'x list \<Rightarrow> ('x list \<Rightarrow> edify_value list option)
     \<Rightarrow> flash_fault + (string + string) \<times> (string option, 'k mtd_data) flash_device option" where
  "firmware_update env argv values =
     (if length argv \<noteq> 2 then Inr (Inl ''kArgsParsingFailure'', None)
      else
        (case values argv of
           None \<Rightarrow> Inr (Inl ''kArgsParsingFailure'', None)
         | Some args \<Rightarrow>
             and_then (update_fw env (args ! 0) False) (\<lambda>(res, spi).
               Inr (if res < 0 then Inl ''kVendorFailure'' else Inr (if res \<noteq> 0 then ''UPDATED'' else ''''), spi))))"

subsection \<open>The commands of the tool\<close>

text \<open>The two slots, with the areas of their sections and of their identification.\<close>

definition slot_section :: "nat \<Rightarrow> string" where
  "slot_section i = [''RW_SECTION_A'', ''RW_SECTION_B''] ! i"

definition slot_id :: "nat \<Rightarrow> string" where
  "slot_id i = [''RW_FWID_A'', ''RW_FWID_B''] ! i"

text \<open>The last part of \<^verbatim>\<open>sync_slots\<close>: the section of the slot in use is copied over the other one.\<close>

definition copy_slot ::
  "allocator \<Rightarrow> nat \<Rightarrow> nat \<Rightarrow> ('p, 'h) flash_device \<Rightarrow> flash_fault + ('p, 'h) flash_device" where
  "copy_slot alloc cur_index old_index dev =
     and_then (fmap_read_section alloc dev (Some (slot_section cur_index))) (\<lambda>(r, dev1).
       (case r of
          None \<Rightarrow> Inr dev1
        | Some (cur_section, _) \<Rightarrow>
            and_then (fmap_get_section_offset alloc dev1 (Some (slot_section old_index))) (\<lambda>((rc, off), dev2).
              (case off of
                 None \<Rightarrow> Inr dev2
               | Some old_offset \<Rightarrow>
                   and_then (flash_erase dev2 old_offset (length cur_section)) (\<lambda>(res, dev3).
                     if res \<noteq> 0 then Inr dev3
                     else and_then (flash_write dev3 old_offset cur_section) (\<lambda>(_, dev4). Inr dev4))))))"

definition sync_slots ::
  "allocator \<Rightarrow> char \<Rightarrow> ('p, 'h) flash_device \<Rightarrow> flash_fault + ('p, 'h) flash_device" where
  "sync_slots alloc cur_part dev =
     (if cur_part \<noteq> CHR ''A'' \<and> cur_part \<noteq> CHR ''B'' then Inr dev
      else
        (let cur_index = (if cur_part = CHR ''A'' then 0 else 1); old_index = 1 - cur_index
         in and_then (fmap_read_section alloc dev (Some (slot_id cur_index))) (\<lambda>(cur, dev1).
              (case cur of
                 None \<Rightarrow> Inr dev1
               | Some (cur_fwid, _) \<Rightarrow>
                   if cur_fwid = [] then Inr dev1
                   else
                     and_then (fmap_read_section alloc dev1 (Some (slot_id old_index))) (\<lambda>(old, dev2).
                       (case old of
                          None \<Rightarrow> copy_slot alloc cur_index old_index dev2
                        | Some (old_fwid, _) \<Rightarrow>
                            if old_fwid \<noteq> [] \<and> length cur_fwid = length old_fwid \<and> strncmp_eq (length cur_fwid) cur_fwid old_fwid
                            then Inr dev2
                            else copy_slot alloc cur_index old_index dev2))))))"

definition VB2_FW_RESULT_SUCCESS :: u8 where
  "VB2_FW_RESULT_SUCCESS = 2"

text \<open>\<open>spi\<close> is the static variable, and \<^verbatim>\<open>get_spi\<close> opens the device when it is not set.\<close>

definition get_spi ::
  "('k, 'e) updater_env \<Rightarrow> (string option, 'k mtd_data) flash_device option \<Rightarrow> (string option, 'k mtd_data) flash_device option" where
  "get_spi env spi = (case spi of None \<Rightarrow> open_spi env | Some d \<Rightarrow> Some d)"

type_synonym 'k cmd_result = "flash_fault + int \<times> (string option, 'k mtd_data) flash_device option"

text \<open>The vectors of arguments start with the name of the command.\<close>

definition cmd_mark_boot ::
  "('k, 'e) updater_env \<Rightarrow> (string option, 'k mtd_data) flash_device option \<Rightarrow> string list \<Rightarrow> 'k cmd_result" where
  "cmd_mark_boot env spi argv =
     (if length argv \<noteq> 2 then Inr (- EINVAL, spi)
      else
        (case get_spi env spi of
           None \<Rightarrow> Inr (- ENODEV, None)
         | Some dev \<Rightarrow>
             if argv ! 1 \<noteq> ''success'' then Inr (- EINVAL, Some dev)
             else
               and_then (vbnv_set_flag (ue_alloc env) dev ''boot_result'' VB2_FW_RESULT_SUCCESS) (\<lambda>(_, dev1).
               and_then (vbnv_set_flag (ue_alloc env) dev1 ''try_count'' 0) (\<lambda>(_, dev2).
               and_then (vboot_get_mainfw_act (ue_shared env) (ue_fdt env) (ue_alloc env)) (\<lambda>cur_part.
               and_then (sync_slots (ue_alloc env) cur_part dev2) (\<lambda>dev3. Inr (0, Some dev3)))))))"

text \<open>The value that is printed comes with the result.\<close>

definition cmd_vbnv_read ::
  "('k, 'e) updater_env \<Rightarrow> (string option, 'k mtd_data) flash_device option \<Rightarrow> string list
     \<Rightarrow> flash_fault + (int \<times> u8 option) \<times> (string option, 'k mtd_data) flash_device option" where
  "cmd_vbnv_read env spi argv =
     (if length argv \<noteq> 2 then Inr ((- EINVAL, None), spi)
      else
        (case get_spi env spi of
           None \<Rightarrow> Inr ((- ENODEV, None), None)
         | Some dev \<Rightarrow>
             and_then (vbnv_get_flag (ue_alloc env) dev (argv ! 1)) (\<lambda>((rc, val), dev').
               Inr ((0, if rc = 0 then val else None), Some dev'))))"

text \<open>\<^verbatim>\<open>atoi\<close> of the value, cut to a byte.\<close>

definition cmd_vbnv_write ::
  "('k, 'e) updater_env \<Rightarrow> (string option, 'k mtd_data) flash_device option \<Rightarrow> string list \<Rightarrow> 'k cmd_result" where
  "cmd_vbnv_write env spi argv =
     (if length argv \<noteq> 3 then Inr (- EINVAL, spi)
      else
        (case get_spi env spi of
           None \<Rightarrow> Inr (- ENODEV, None)
         | Some dev \<Rightarrow>
             and_then (vbnv_set_flag (ue_alloc env) dev (argv ! 1) (of_int (fst (strtol 10 (argv ! 2))))) (\<lambda>(_, dev').
               Inr (0, Some dev'))))"

text \<open>The update opens devices of its own.\<close>

definition cmd_update ::
  "('k, 'e) updater_env \<Rightarrow> (string option, 'k mtd_data) flash_device option \<Rightarrow> string list \<Rightarrow> 'k cmd_result" where
  "cmd_update env spi argv =
     (if length argv < 3 then Inr (- EINVAL, spi)
      else and_then (update_fw env (Value_String (argv ! 1)) True) (\<lambda>_. Inr (- ENOENT, spi)))"

subsection \<open>The table of commands\<close>

text \<open>\<^verbatim>\<open>struct command\<close>: a command has a handler, by its name, or commands of its own.\<close>

datatype command = Command string "string option" "command list option"

text \<open>
  \<^verbatim>\<open>run_cmd\<close>: \<open>Inl\<close> the handler that is called with its vector of arguments, \<open>Inr\<close> the code after the usage was
  printed. \<open>prefix\<close> characters of a name stand for the commands it belongs to.
\<close>

fun run_cmd :: "command list \<Rightarrow> nat \<Rightarrow> nat \<Rightarrow> string list \<Rightarrow> (string \<times> string list) + int" where
  "run_cmd [] idx pre argv = Inr (- ENOENT)"
| "run_cmd (Command name handler subcmd # cs) idx pre argv =
     (if length argv \<le> idx + 1 then Inr (- ENOENT)
      else if drop pre name = argv ! (idx + 1) then
        (case subcmd of
           Some subs \<Rightarrow> run_cmd subs (idx + 1) (pre + length name + 1) argv
         | None \<Rightarrow> (case handler of Some h \<Rightarrow> Inl (h, drop (idx + 1) argv) | None \<Rightarrow> Inr (- EINVAL)))
      else run_cmd cs idx pre argv)"

definition CMD :: "string \<Rightarrow> command" where
  "CMD name = Command name (Some (''cmd_'' @ name)) None"

definition SUBCMDS :: "string \<Rightarrow> command list \<Rightarrow> command" where
  "SUBCMDS name subs = Command name None (Some subs)"

definition cmds :: "command list \<Rightarrow> command list" where
  "cmds subcmds_ec =
     [SUBCMDS ''ec'' subcmds_ec, SUBCMDS ''flash'' [CMD ''flash_fmap''], CMD ''update'', CMD ''vboot'',
      SUBCMDS ''vbnv'' [CMD ''vbnv_read'', CMD ''vbnv_write''], CMD ''mark_boot'']"

lemma run_cmd_table:
  "run_cmd (cmds ec) 0 0 (tool # ''vbnv'' # ''read'' # args) = Inl (''cmd_vbnv_read'', ''read'' # args)"
  "run_cmd (cmds ec) 0 0 (tool # ''vbnv'' # ''write'' # args) = Inl (''cmd_vbnv_write'', ''write'' # args)"
  "run_cmd (cmds ec) 0 0 (tool # ''mark_boot'' # args) = Inl (''cmd_mark_boot'', ''mark_boot'' # args)"
  "run_cmd (cmds ec) 0 0 (tool # ''update'' # args) = Inl (''cmd_update'', ''update'' # args)"
  "run_cmd (cmds ec) 0 0 [tool] = Inr (- ENOENT)"
  "run_cmd (cmds ec) 0 0 [tool, ''vbnv''] = Inr (- ENOENT)"
  by (simp_all add: cmds_def CMD_def SUBCMDS_def)

subsection \<open>Return codes\<close>

lemma update_partition_codes:
  "update_partition alloc src dst name = Inr (rc, src', dst') \<Longrightarrow> rc \<in> {0, - EIO}"
  by (auto simp: update_partition_def and_then_def split: sum.splits option.splits if_splits)

lemma update_rw_codes:
  "update_rw_fw g alloc spi img cur_part = Inr (rc, img', spi') \<Longrightarrow> rc \<in> {0, - EIO, - EINVAL}"
  using update_partition_codes by (fastforce simp: update_rw_fw_def and_then_def split: sum.splits if_splits)

lemma update_recovery_codes:
  "update_recovery_fw g alloc spi img = Inr (rc, img', spi') \<Longrightarrow> rc \<in> {0, - EIO, - EINVAL}"
  by (auto simp: update_recovery_fw_def and_then_def split: sum.splits if_splits)


subsection \<open>Keeping the slots the same\<close>

definition same_id :: "u8 list \<Rightarrow> u8 list \<Rightarrow> bool" where
  "same_id cur old \<longleftrightarrow> old \<noteq> [] \<and> length cur = length old \<and> strncmp_eq (length cur) cur old"

lemma has_area_only_read:
  assumes "contents h = contents (fd_priv dev)"
  shows "has_area contents (dev\<lparr>fd_priv := h\<rparr>) name off n = has_area contents dev name off n"
  using has_area_keeps [of contents h dev] assms by simp

context reliable_medium
begin

lemma copy_slot_done:
  assumes dev: "fd_ops dev = ops" "usable (fd_priv dev)"
    and a: "has_area contents dev (slot_section i) coff n" "has_area contents dev (slot_section j) ooff m" "alloc n"
    and f: "fits_flash contents dev ooff n"
  shows "\<exists>dev'. copy_slot alloc i j dev = Inr dev' \<and>
    contents (fd_priv dev') = patch ooff (bytes_at coff n (contents (fd_priv dev))) (contents (fd_priv dev))"
proof -
  let ?C = "contents (fd_priv dev)" and ?xs = "bytes_at coff n (contents (fd_priv dev))"
  from section_read [where alloc = alloc, OF dev a(1,3)] obtain h where
    h: "fmap_read_section alloc dev (Some (slot_section i)) = Inr (Some (?xs, coff), dev\<lparr>fd_priv := h\<rparr>)" "usable h" "contents h = ?C" by blast
  from has_areaE [OF a(1)] have x: "length ?xs = n" "n < 2 ^ 32" by (metis length_bytes_at)+
  from has_areaE [OF a(2)] obtain fm k where fm: "fd_fmap dev = Some fm" "find_area fm (slot_section j) = Inr (Some k)" "area_offset fm k = ooff" "ooff < 2 ^ 32" by metis
  let ?d1 = "dev\<lparr>fd_priv := h\<rparr>"
  have o': "fmap_get_section_offset alloc ?d1 (Some (slot_section j)) = Inr ((0, Some ooff), ?d1)"
    using fm by (simp add: fmap_get_section_offset_def flash_get_fmap_def)
  have d1: "fd_ops ?d1 = ops" "usable (fd_priv ?d1)" "fits_flash contents ?d1 ooff (length ?xs)" using dev(1) h(2,3) f x(1) by (simp_all add: fits_flash_def)
  from erase_and_write [OF d1 fm(4)] x obtain h1 h2 where "flash_erase ?d1 ooff n = Inr (0, ?d1\<lparr>fd_priv := h1\<rparr>)"
      "flash_write (?d1\<lparr>fd_priv := h1\<rparr>) ooff ?xs = Inr (0, ?d1\<lparr>fd_priv := h2\<rparr>)" "contents h2 = patch ooff ?xs ?C" using h(3) by auto
  then show ?thesis using h(1) o' x(1) by (auto simp: copy_slot_def)
qed

lemma sync_slots_done:
  assumes dev: "fd_ops dev = ops" "usable (fd_priv dev)" and part: "part = CHR ''A'' \<and> i = 0 \<and> j = 1 \<or> part = CHR ''B'' \<and> i = 1 \<and> j = 0"
    and ids: "has_area contents dev (slot_id i) co cn" "has_area contents dev (slot_id j) oo on" "0 < cn" "alloc cn" "alloc on"
    and a: "has_area contents dev (slot_section i) coff n" "has_area contents dev (slot_section j) ooff m" "alloc n"
    and f: "fits_flash contents dev ooff n"
  shows "\<exists>dev'. sync_slots alloc part dev = Inr dev' \<and> contents (fd_priv dev') =
    (if same_id (bytes_at co cn (contents (fd_priv dev))) (bytes_at oo on (contents (fd_priv dev))) then contents (fd_priv dev)
     else patch ooff (bytes_at coff n (contents (fd_priv dev))) (contents (fd_priv dev)))"
proof -
  let ?C = "contents (fd_priv dev)"
  from section_read [where alloc = alloc, OF dev ids(1,4)] obtain h1 where
    h1: "fmap_read_section alloc dev (Some (slot_id i)) = Inr (Some (bytes_at co cn ?C, co), dev\<lparr>fd_priv := h1\<rparr>)" "usable h1" "contents h1 = ?C" by blast
  from section_read [where alloc = alloc, of "dev\<lparr>fd_priv := h1\<rparr>", OF _ _ _ ids(5)] ids(2) dev(1) h1(2,3) obtain h2 where
    h2: "fmap_read_section alloc (dev\<lparr>fd_priv := h1\<rparr>) (Some (slot_id j)) = Inr (Some (bytes_at oo on ?C, oo), dev\<lparr>fd_priv := h2\<rparr>)"
      "usable h2" "contents h2 = ?C" by (auto simp: has_area_only_read)
  from copy_slot_done [where alloc = alloc, of "dev\<lparr>fd_priv := h2\<rparr>" i coff n j ooff m] dev(1) h2(2,3) a f obtain dev' where
    c: "copy_slot alloc i j (dev\<lparr>fd_priv := h2\<rparr>) = Inr dev'" "contents (fd_priv dev') = patch ooff (bytes_at coff n ?C) ?C"
    by (auto simp: has_area_only_read fits_flash_def)
  have "bytes_at co cn ?C \<noteq> []" using ids(1,3) by (auto simp: bytes_at_def elim!: has_areaE)
  then have "sync_slots alloc part dev = (if same_id (bytes_at co cn ?C) (bytes_at oo on ?C) then Inr (dev\<lparr>fd_priv := h2\<rparr>)
      else copy_slot alloc i j (dev\<lparr>fd_priv := h2\<rparr>))"
    using part h1(1) h2(1) by (elim disjE conjE) (simp_all add: sync_slots_def Let_def cong: if_cong flip: same_id_def)
  then show ?thesis using c h2(3) by auto
qed

end

text \<open>
  C19. After a successful boot the slots of the firmware are made the same. When the identifications of the
  two slots differ, \<^verbatim>\<open>sync_slots\<close> copies the section in use over the other one and changes nothing else; when
  they agree it changes nothing. The section in use is never written, if the slots do not overlap.
\<close>

theorem sync_slots_mirrors_section:
  assumes k: "nor_kernel c v" and ops: "fd_ops dev = flash_mtd_ops opened cok fdt c" and C: "C = mtd_contents v (fd_priv dev)"
    and part: "part = CHR ''A'' \<and> i = 0 \<and> j = 1 \<or> part = CHR ''B'' \<and> i = 1 \<and> j = 0"
    and ids: "has_area (mtd_contents v) dev (slot_id i) co cn" "has_area (mtd_contents v) dev (slot_id j) oo on" "0 < cn" "alloc cn" "alloc on"
    and a: "has_area (mtd_contents v) dev (slot_section i) coff n" "has_area (mtd_contents v) dev (slot_section j) ooff m" "alloc n"
    and f: "fits_flash (mtd_contents v) dev ooff n" "apart coff n ooff n"
  shows "\<exists>dev'. sync_slots alloc part dev = Inr dev' \<and> bytes_at coff n (mtd_contents v (fd_priv dev')) = bytes_at coff n C \<and>
    (if same_id (bytes_at co cn C) (bytes_at oo on C) then mtd_contents v (fd_priv dev') = C
     else bytes_at ooff n (mtd_contents v (fd_priv dev')) = bytes_at coff n C \<and>
       (\<forall>x < length C. apart x 1 ooff n \<longrightarrow> mtd_contents v (fd_priv dev') ! x = C ! x))"
proof -
  note m = mtd_reliable [OF k, of opened cok fdt]
  have b: "coff + n \<le> length C" "ooff + n \<le> length C" using a(1) f(1) C by (auto simp: fits_flash_def elim!: has_areaE)
  have len: "length (bytes_at coff n C) = n" using b(1) by simp
  have "bytes_at coff n (patch ooff (bytes_at coff n C) C) = bytes_at coff n C"
    by (rule bytes_at_patch_other) (use b len f(2) in \<open>auto simp: apart_def\<close>)
  moreover have "bytes_at ooff n (patch ooff (bytes_at coff n C) C) = bytes_at coff n C"
    using bytes_at_patch_same [of ooff "bytes_at coff n C" C] b len by simp
  moreover have "patch ooff (bytes_at coff n C) C ! x = C ! x" if "x < length C" "apart x 1 ooff n" for x
    using that b len by (auto simp: nth_patch apart_def)
  ultimately show ?thesis
    using reliable_medium.sync_slots_done [where alloc = alloc, OF m ops _ part ids a f(1)] by (auto simp flip: C)
qed

text \<open>A chip of 32 bytes with two slots of 8 bytes, which have their identifications behind them.\<close>

definition demo_area :: "u8 \<Rightarrow> u8 \<Rightarrow> string \<Rightarrow> u8 list" where
  "demo_area off n name = [off, 0, 0, 0, n, 0, 0, 0] @ bytes_of name @ replicate (34 - length name) 0"

definition demo_slots :: "(string option, nor_chip mtd_data) flash_device" where
  "demo_slots = demo_spi\<lparr>
     fd_fmap := Some (FMAP_SIGNATURE @ replicate 46 0 @ [4, 0] @ demo_area 0 8 ''RW_SECTION_A'' @ demo_area 8 8 ''RW_SECTION_B'' @
       demo_area 16 2 ''RW_FWID_A'' @ demo_area 18 2 ''RW_FWID_B''),
     fd_erase_size := 8,
     fd_priv := (fd_priv demo_spi)\<lparr>md_kernel := \<lparr>ch_mem = replicate 8 1 @ replicate 8 2 @ [65, 66, 65, 67] @ replicate 12 0, ch_pos = 0\<rparr>\<rparr>\<rparr>"

theorem sync_slots_mirrors_section_witness:
  "\<exists>dev'. sync_slots (\<lambda>_. True) (CHR ''B'') demo_slots = Inr dev' \<and> bytes_at 0 8 (mtd_contents chip_view (fd_priv dev')) = replicate 8 2"
proof -
  have ops: "fd_ops demo_slots = flash_mtd_ops (\<lambda>_. None) True 0 chip_calls" by (simp add: demo_slots_def demo_spi_def)
  have areas: "has_area (mtd_contents chip_view) demo_slots (slot_id 1) 18 2" "has_area (mtd_contents chip_view) demo_slots (slot_id 0) 16 2"
    "has_area (mtd_contents chip_view) demo_slots (slot_section 1) 8 8" "has_area (mtd_contents chip_view) demo_slots (slot_section 0) 0 8"
    "fits_flash (mtd_contents chip_view) demo_slots 0 8" "apart 8 8 0 8" by code_simp+
  have ids: "\<not> same_id (bytes_at 18 2 (mtd_contents chip_view (fd_priv demo_slots))) (bytes_at 16 2 (mtd_contents chip_view (fd_priv demo_slots)))"
    "bytes_at 8 8 (mtd_contents chip_view (fd_priv demo_slots)) = replicate 8 2" by code_simp+
  show ?thesis
    using sync_slots_mirrors_section [where alloc = "\<lambda>_. True", OF chip_kernel ops refl, of "CHR ''B''" 1 0, OF _ areas(1,2) _ _ _ areas(3,4) _ areas(5,6)] ids
    by auto
qed

end
