(* ===== verification/Debug_Ec.thy ===== *)
theory Debug_Ec
  imports Fwtool
begin

text \<open>
  The debug commands to the controller, \<^verbatim>\<open>recovery/updater/debug_ec.c\<close>: they read their arguments, send requests and print the
  responses. A command returns its code, the device and what it has printed; the messages on \<^verbatim>\<open>stderr\<close> are left out.
  Structures are their bytes, with the layout of \<^verbatim>\<open>recovery/updater/ec_commands.h\<close>. A byte of a response that was not stored is
  \<open>None\<close>; reading it is a fault. \<open>junk i\<close> is what byte \<open>i\<close> of a parameter holds before it is set: such bytes are sent to the
  controller.
\<close>

unbundle bit_operations_syntax

subsection \<open>Requests\<close>

definition EC_CMD_GET_VERSION :: int where "EC_CMD_GET_VERSION = 0x02"
definition EC_CMD_GET_BUILD_INFO :: int where "EC_CMD_GET_BUILD_INFO = 0x04"
definition EC_CMD_READ_MEMMAP :: int where "EC_CMD_READ_MEMMAP = 0x07"
definition EC_CMD_LIGHTBAR_CMD :: int where "EC_CMD_LIGHTBAR_CMD = 0x28"
definition EC_CMD_VBOOT_HASH :: int where "EC_CMD_VBOOT_HASH = 0x2a"
definition EC_CMD_GPIO_SET :: int where "EC_CMD_GPIO_SET = 0x92"
definition EC_CMD_GPIO_GET :: int where "EC_CMD_GPIO_GET = 0x93"
definition EC_CMD_I2C_READ :: int where "EC_CMD_I2C_READ = 0x94"
definition EC_CMD_I2C_WRITE :: int where "EC_CMD_I2C_WRITE = 0x95"
definition EC_CMD_CHARGE_CONTROL :: int where "EC_CMD_CHARGE_CONTROL = 0x96"
definition EC_CMD_CONSOLE_SNAPSHOT :: int where "EC_CMD_CONSOLE_SNAPSHOT = 0x97"
definition EC_CMD_CONSOLE_READ :: int where "EC_CMD_CONSOLE_READ = 0x98"
definition EC_CMD_USB_PD_CONTROL :: int where "EC_CMD_USB_PD_CONTROL = 0x101"
definition EC_CMD_USB_PD_PORTS :: int where "EC_CMD_USB_PD_PORTS = 0x102"
definition EC_CMD_USB_PD_POWER_INFO :: int where "EC_CMD_USB_PD_POWER_INFO = 0x103"

text \<open>
  What goes wrong outside of a code: a byte that nobody has set is read, a string without its NUL is printed, a digest is longer than its
  array, or a loop never ends.
\<close>

datatype dbg_fault = Unset_Byte | Unterminated | Digest_Overread | Endless

text \<open>The device and the output, and the result of a command, which has its code in front.\<close>

type_synonym 'e ec_dev = "(string option, 'e ec_data) flash_device"
type_synonym 'e dbg_state = "'e ec_dev \<times> string"
type_synonym 'e dbg_result = "dbg_fault + int \<times> 'e dbg_state"
type_synonym 'e dbg_outcome = "dbg_fault + int \<times> 'e ec_dev option \<times> string"

definition say :: "string \<Rightarrow> 'e dbg_state \<Rightarrow> 'e dbg_state" where
  "say text st = (fst st, snd st @ text)"

text \<open>A request whose response goes into a buffer, which it does not exceed: the code, the buffer and the new state.\<close>

definition overlay :: "u8 list \<Rightarrow> u8 option list \<Rightarrow> u8 option list" where
  "overlay bytes buf = map Some (take (length buf) bytes) @ drop (length bytes) buf"

definition request ::
  "int \<Rightarrow> int \<Rightarrow> u8 list \<Rightarrow> u8 option list \<Rightarrow> 'e dbg_state \<Rightarrow> (int \<times> u8 option list) \<times> 'e dbg_state" where
  "request cmd ver odata buf st =
     (case flash_cmd (fst st) cmd ver odata (length buf) of ((rv, bytes), dev) \<Rightarrow> ((rv, overlay bytes buf), (dev, snd st)))"

definition unset :: "nat \<Rightarrow> u8 option list" where
  "unset n = replicate n None"

definition get_bytes :: "nat \<Rightarrow> nat \<Rightarrow> u8 option list \<Rightarrow> dbg_fault + u8 list" where
  "get_bytes off n buf = (let xs = bytes_at off n buf in if None \<in> set xs then Inl Unset_Byte else Inr (map the xs))"

definition get_le :: "nat \<Rightarrow> nat \<Rightarrow> u8 option list \<Rightarrow> dbg_fault + nat" where
  "get_le off n buf = and_then (get_bytes off n buf) (\<lambda>bs. Inr (le_val bs))"

text \<open>\<^verbatim>\<open>%s\<close>: the bytes up to the NUL, which has to be in the array.\<close>

fun c_string :: "u8 option list \<Rightarrow> dbg_fault + string" where
  "c_string [] = Inl Unterminated"
| "c_string (None # bs) = Inl Unset_Byte"
| "c_string (Some b # bs) = (if b = 0 then Inr [] else and_then (c_string bs) (\<lambda>s. Inr (char_of (unat b) # s)))"

text \<open>A parameter whose bytes are only set in part.\<close>

definition filled :: "(nat \<Rightarrow> u8) \<Rightarrow> nat \<Rightarrow> (nat \<times> u8 list) list \<Rightarrow> u8 list" where
  "filled junk n sets = fold (\<lambda>(off, bs) p. patch off bs p) sets (map junk [0..<n])"

text \<open>The device is opened by the first command that needs it.\<close>

definition get_ec :: "('k, 'e) updater_env \<Rightarrow> 'e ec_dev option \<Rightarrow> 'e ec_dev option" where
  "get_ec env ec = (case ec of None \<Rightarrow> open_ec env | Some dev \<Rightarrow> Some dev)"

definition with_ec :: "('k, 'e) updater_env \<Rightarrow> 'e ec_dev option \<Rightarrow> ('e dbg_state \<Rightarrow> 'e dbg_result) \<Rightarrow> 'e dbg_outcome" where
  "with_ec env ec body =
     (case get_ec env ec of
        None \<Rightarrow> Inr (- ENODEV, None, [])
      | Some dev \<Rightarrow> and_then (body (dev, [])) (\<lambda>(rv, dev', out). Inr (rv, Some dev', out)))"

subsection \<open>Printing and reading numbers\<close>

definition hex_digit :: "nat \<Rightarrow> char" where
  "hex_digit n = ''0123456789abcdef'' ! (n mod 16)"

fun show_hex :: "nat \<Rightarrow> string" where
  "show_hex n = (if n < 16 then [hex_digit n] else show_hex (n div 16) @ [hex_digit n])"

declare show_hex.simps [simp del]

definition fill_left :: "char \<Rightarrow> nat \<Rightarrow> string \<Rightarrow> string" where
  "fill_left c n s = replicate (n - length s) c @ s"

definition fill_right :: "nat \<Rightarrow> string \<Rightarrow> string" where
  "fill_right n s = s @ replicate (n - length s) (CHR '' '')"

text \<open>\<^verbatim>\<open>%0nx\<close> of an \<^verbatim>\<open>int\<close>, which is taken as unsigned, \<^verbatim>\<open>%0nX\<close> and \<^verbatim>\<open>%d\<close>.\<close>

definition hexn :: "nat \<Rightarrow> int \<Rightarrow> string" where
  "hexn n x = fill_left (CHR ''0'') n (show_hex (nat (x mod 2 ^ 32)))"

definition toupper :: "char \<Rightarrow> char" where
  "toupper c = (if islower c then char_of ((of_char c :: nat) - 32) else c)"

definition decimal :: "int \<Rightarrow> string" where
  "decimal x = (if x < 0 then CHR ''-'' # show_nat (nat (- x)) else show_nat (nat x))"

definition newline :: string where "newline = [CHR 0x0a]"

definition strcasecmp_eq :: "string \<Rightarrow> string \<Rightarrow> bool" where
  "strcasecmp_eq a b \<longleftrightarrow> map tolower a = map tolower b"

text \<open>\<^verbatim>\<open>strtoul\<close> with a 64-bit \<^verbatim>\<open>unsigned long\<close>; a minus sign negates the number modulo \<open>2 ^ 64\<close>.\<close>

definition strtoul :: "nat \<Rightarrow> string \<Rightarrow> nat \<times> string" where
  "strtoul base s =
     (let s1 = skip_ws s;
          neg = (s1 \<noteq> [] \<and> s1 ! 0 = CHR ''-'');
          s2 = (if s1 \<noteq> [] \<and> (s1 ! 0 = CHR ''-'' \<or> s1 ! 0 = CHR ''+'') then tl s1 else s1);
          (b, s3) = strtol_prefix base s2;
          ds = takeWhile (is_base_digit b) s3;
          v = digits_val b 0 ds
      in if ds = [] then (0, s)
         else (if 2 ^ 64 \<le> v then 2 ^ 64 - 1 else if neg then (2 ^ 64 - v) mod 2 ^ 64 else v, dropWhile (is_base_digit b) s3))"

subsection \<open>The battery\<close>

definition EC_MEMMAP_TEXT_MAX :: nat where "EC_MEMMAP_TEXT_MAX = 8"
definition EC_MEMMAP_BATTERY_VERSION :: nat where "EC_MEMMAP_BATTERY_VERSION = 0x24"
definition EC_MEMMAP_BATT_VOLT :: nat where "EC_MEMMAP_BATT_VOLT = 0x40"
definition EC_MEMMAP_BATT_RATE :: nat where "EC_MEMMAP_BATT_RATE = 0x44"
definition EC_MEMMAP_BATT_CAP :: nat where "EC_MEMMAP_BATT_CAP = 0x48"
definition EC_MEMMAP_BATT_FLAG :: nat where "EC_MEMMAP_BATT_FLAG = 0x4c"
definition EC_MEMMAP_BATT_DCAP :: nat where "EC_MEMMAP_BATT_DCAP = 0x50"
definition EC_MEMMAP_BATT_DVLT :: nat where "EC_MEMMAP_BATT_DVLT = 0x54"
definition EC_MEMMAP_BATT_LFCC :: nat where "EC_MEMMAP_BATT_LFCC = 0x58"
definition EC_MEMMAP_BATT_CCNT :: nat where "EC_MEMMAP_BATT_CCNT = 0x5c"
definition EC_MEMMAP_BATT_MFGR :: nat where "EC_MEMMAP_BATT_MFGR = 0x60"
definition EC_MEMMAP_BATT_MODEL :: nat where "EC_MEMMAP_BATT_MODEL = 0x68"
definition EC_MEMMAP_BATT_SERIAL :: nat where "EC_MEMMAP_BATT_SERIAL = 0x70"

text \<open>The number of bytes to read is the size of the destination.\<close>

definition ec_readmem :: "nat \<Rightarrow> u8 option list \<Rightarrow> 'e dbg_state \<Rightarrow> (int \<times> u8 option list) \<times> 'e dbg_state" where
  "ec_readmem offset dest st = request EC_CMD_READ_MEMMAP 0 [of_nat offset, of_nat (length dest)] dest st"

definition ec_readmem8 :: "nat \<Rightarrow> 'e dbg_state \<Rightarrow> dbg_fault + nat \<times> 'e dbg_state" where
  "ec_readmem8 offset st =
     (case ec_readmem offset (unset 1) st of
        ((ret, val), st') \<Rightarrow> if ret \<noteq> 0 then Inr (0, st') else and_then (get_le 0 1 val) (\<lambda>v. Inr (v, st')))"

definition ec_readmem32 :: "nat \<Rightarrow> 'e dbg_state \<Rightarrow> dbg_fault + nat \<times> 'e dbg_state" where
  "ec_readmem32 offset st =
     (case ec_readmem offset (unset 4) st of
        ((ret, val), st') \<Rightarrow> if ret \<noteq> 0 then Inr (0, st') else and_then (get_le 0 4 val) (\<lambda>v. Inr (v, st')))"

text \<open>One text of the battery: the buffer keeps what it held when the read fails. One number of the battery.\<close>

definition battery_text :: "nat \<Rightarrow> string list \<Rightarrow> u8 option list \<Rightarrow> 'e dbg_state \<Rightarrow> dbg_fault + u8 option list \<times> 'e dbg_state" where
  "battery_text offset labels batt_text st =
     (case ec_readmem offset batt_text st of
        ((_, batt_text'), st') \<Rightarrow>
          and_then (c_string batt_text') (\<lambda>s. Inr (batt_text', say (concat (map (\<lambda>l. l @ s @ newline) labels)) st')))"

definition battery_number :: "nat \<Rightarrow> string \<Rightarrow> string \<Rightarrow> 'e dbg_state \<Rightarrow> dbg_fault + 'e dbg_state" where
  "battery_number offset label unit st =
     and_then (ec_readmem32 offset st) (\<lambda>(val, st'). Inr (say (label @ show_nat val @ unit @ newline) st'))"

definition flag_name :: "nat \<Rightarrow> nat \<Rightarrow> string \<Rightarrow> string" where
  "flag_name val m name = (if val AND m \<noteq> 0 then name else [])"

definition cmd_ec_battery :: "('k, 'e) updater_env \<Rightarrow> 'e ec_dev option \<Rightarrow> string list \<Rightarrow> 'e dbg_outcome" where
  "cmd_ec_battery env ec argv = with_ec env ec (\<lambda>st.
     and_then (ec_readmem8 EC_MEMMAP_BATTERY_VERSION (say (''Battery info:'' @ newline) st)) (\<lambda>(val, st).
       if val < 1 then Inr (- EINVAL, st)
       else
         and_then (battery_text EC_MEMMAP_BATT_MFGR [''  OEM name:               ''] (replicate (EC_MEMMAP_TEXT_MAX + 1) (Some 0)) st)
           (\<lambda>(batt_text, st).
         and_then (battery_text EC_MEMMAP_BATT_MODEL [''  Model number:           '', ''  Chemistry   :           ''] batt_text st)
           (\<lambda>(batt_text, st).
         and_then (battery_text EC_MEMMAP_BATT_SERIAL [''  Serial number:          ''] batt_text st) (\<lambda>(batt_text, st).
         and_then (battery_number EC_MEMMAP_BATT_DCAP ''  Design capacity:        '' '' mAh'' st) (\<lambda>st.
         and_then (battery_number EC_MEMMAP_BATT_LFCC ''  Last full charge:       '' '' mAh'' st) (\<lambda>st.
         and_then (battery_number EC_MEMMAP_BATT_DVLT ''  Design output voltage   '' '' mV'' st) (\<lambda>st.
         and_then (battery_number EC_MEMMAP_BATT_CCNT ''  Cycle count             '' '''' st) (\<lambda>st.
         and_then (battery_number EC_MEMMAP_BATT_VOLT ''  Present voltage         '' '' mV'' st) (\<lambda>st.
         and_then (battery_number EC_MEMMAP_BATT_RATE ''  Present current         '' '' mA'' st) (\<lambda>st.
         and_then (battery_number EC_MEMMAP_BATT_CAP ''  Remaining capacity      '' '' mAh'' st) (\<lambda>st.
         and_then (ec_readmem8 EC_MEMMAP_BATT_FLAG st) (\<lambda>(val, st).
           Inr (0, say (''  Flags                   0x'' @ hexn 2 (int val) @ flag_name val 0x01 '' AC_PRESENT'' @
                        flag_name val 0x02 '' BATT_PRESENT'' @ flag_name val 0x04 '' DISCHARGING'' @ flag_name val 0x08 '' CHARGING'' @
                        flag_name val 0x10 '' LEVEL_CRITICAL'' @ newline) st))))))))))))))"

subsection \<open>Chips behind the controller\<close>

text \<open>\<^verbatim>\<open>struct ec_params_i2c_read\<close>, \<^verbatim>\<open>struct ec_params_i2c_write\<close>: the address, the size in bits, the port 0 and the register.\<close>

definition i2c_read :: "nat \<Rightarrow> nat \<Rightarrow> nat \<Rightarrow> 'e dbg_state \<Rightarrow> dbg_fault + (int \<times> int) \<times> 'e dbg_state" where
  "i2c_read addr nbits reg st =
     (case request EC_CMD_I2C_READ 0 (le_bytes 2 addr @ [of_nat nbits, 0, of_nat reg]) (unset 2) st of
        ((rv, r), st') \<Rightarrow> if rv < 0 then Inr ((rv, -1), st') else and_then (get_le 0 2 r) (\<lambda>d. Inr ((0, int d), st')))"

definition i2c_write :: "nat \<Rightarrow> nat \<Rightarrow> nat \<Rightarrow> int \<Rightarrow> 'e dbg_state \<Rightarrow> int \<times> 'e dbg_state" where
  "i2c_write addr nbits reg value st =
     (case request EC_CMD_I2C_WRITE 0 (le_bytes 2 (nat (value mod 2 ^ 16)) @ le_bytes 2 addr @ [of_nat nbits, 0, of_nat reg]) [] st of
        ((rv, _), st') \<Rightarrow> (if rv < 0 then rv else 0, st'))"

text \<open>The registers of a chip in a row; the first read that fails ends the command.\<close>

fun dump_values :: "(nat \<Rightarrow> 'e dbg_state \<Rightarrow> dbg_fault + (int \<times> int) \<times> 'e dbg_state) \<Rightarrow> nat list \<Rightarrow> 'e dbg_state \<Rightarrow> 'e dbg_result" where
  "dump_values rd [] st = Inr (0, say newline st)"
| "dump_values rd (reg # regs) st =
     and_then (rd reg st) (\<lambda>((rv, value), st').
       if rv \<noteq> 0 then Inr (rv, st') else dump_values rd regs (say ('' '' @ hexn 2 value) st'))"

definition dump_registers ::
  "(nat \<Rightarrow> 'e dbg_state \<Rightarrow> dbg_fault + (int \<times> int) \<times> 'e dbg_state) \<Rightarrow> nat list \<Rightarrow> 'e dbg_state \<Rightarrow> 'e dbg_result" where
  "dump_registers rd regs st =
     dump_values rd regs
       (say (''REG:'' @ concat (map (\<lambda>r. '' '' @ hexn 2 (int r)) regs) @ newline @ ''VAL:'') st)"

definition BQ2589X_ADDR :: nat where "BQ2589X_ADDR = 0xD6"
definition BQ2589X_REG_CFG1 :: nat where "BQ2589X_REG_CFG1 = 0x02"
definition BQ2589X_CFG1_CONV_START :: int where "BQ2589X_CFG1_CONV_START = 0x80"
definition BQ2589X_REG_ADC_BATT_VOLT :: nat where "BQ2589X_REG_ADC_BATT_VOLT = 0x0E"
definition BQ2589X_REG_ADC_SYS_VOLT :: nat where "BQ2589X_REG_ADC_SYS_VOLT = 0x0F"
definition BQ2589X_REG_ADC_VBUS_VOLT :: nat where "BQ2589X_REG_ADC_VBUS_VOLT = 0x11"
definition BQ2589X_REG_ADC_CHG_CURR :: nat where "BQ2589X_REG_ADC_CHG_CURR = 0x12"
definition BQ2589X_REG_ADC_INPUT_CURR :: nat where "BQ2589X_REG_ADC_INPUT_CURR = 0x13"

definition bq25892_read :: "nat \<Rightarrow> 'e dbg_state \<Rightarrow> dbg_fault + (int \<times> int) \<times> 'e dbg_state" where
  "bq25892_read reg st = i2c_read BQ2589X_ADDR 8 reg st"

definition bq25892_write :: "nat \<Rightarrow> int \<Rightarrow> 'e dbg_state \<Rightarrow> int \<times> 'e dbg_state" where
  "bq25892_write reg value st = i2c_write BQ2589X_ADDR 8 reg value st"

text \<open>The wait for the conversion. \<open>None\<close>: it never ends.\<close>

partial_function (option) conversion_wait :: "'e dbg_state \<Rightarrow> (dbg_fault + 'e dbg_state) option" where
  "conversion_wait st =
     (case bq25892_read BQ2589X_REG_CFG1 st of
        Inl f \<Rightarrow> Some (Inl f)
      | Inr ((rv, value), st') \<Rightarrow>
          if value AND BQ2589X_CFG1_CONV_START \<noteq> 0 \<or> rv < 0 then conversion_wait st' else Some (Inr st'))"

declare conversion_wait.simps [code]

definition cmd_ec_bq25892 :: "('k, 'e) updater_env \<Rightarrow> 'e ec_dev option \<Rightarrow> string list \<Rightarrow> 'e dbg_outcome" where
  "cmd_ec_bq25892 env ec argv = with_ec env ec (\<lambda>st.
     and_then (bq25892_read BQ2589X_REG_CFG1 st) (\<lambda>((_, value), st).
     (case bq25892_write BQ2589X_REG_CFG1 (value OR BQ2589X_CFG1_CONV_START) st of (_, st) \<Rightarrow>
     (case conversion_wait st of
        None \<Rightarrow> Inl Endless
      | Some waited \<Rightarrow>
          and_then waited (\<lambda>st.
          and_then (bq25892_read BQ2589X_REG_ADC_BATT_VOLT st) (\<lambda>((_, batt_mv), st).
          and_then (bq25892_read BQ2589X_REG_ADC_SYS_VOLT st) (\<lambda>((_, sys_mv), st).
          and_then (bq25892_read BQ2589X_REG_ADC_VBUS_VOLT st) (\<lambda>((_, vbus_mv), st).
          and_then (bq25892_read BQ2589X_REG_ADC_CHG_CURR st) (\<lambda>((_, chg_ma), st).
          and_then (bq25892_read BQ2589X_REG_ADC_INPUT_CURR st) (\<lambda>((_, input_ma), st).
            dump_registers bq25892_read [0..<0x15]
              (say (''ADC Batt '' @ decimal (2304 + (batt_mv AND 0x7f) * 20) @ ''mV Sys '' @ decimal (2304 + sys_mv * 20) @
                    ''mV VBUS '' @ decimal (2600 + (vbus_mv AND 0x7f) * 100) @ ''mV Chg '' @ decimal (chg_ma * 50) @
                    ''mA Input '' @ decimal (100 + (input_ma AND 0x3f) * 50) @ ''mA'' @ newline) st)))))))))))"

definition BQ27742_ADDR :: nat where "BQ27742_ADDR = 0xAA"
definition BQ27742_REG_CTRL :: nat where "BQ27742_REG_CTRL = 0x00"
definition BQ27742_REG_FLAGS :: nat where "BQ27742_REG_FLAGS = 0x0A"
definition BQ27742_REG_CHARGING_MV :: nat where "BQ27742_REG_CHARGING_MV = 0x30"
definition BQ27742_REG_CHARGING_MA :: nat where "BQ27742_REG_CHARGING_MA = 0x32"
definition BQ27742_REG_PROTECTOR :: nat where "BQ27742_REG_PROTECTOR = 0x6D"

definition bq27742_read :: "nat \<Rightarrow> nat \<Rightarrow> 'e dbg_state \<Rightarrow> dbg_fault + (int \<times> int) \<times> 'e dbg_state" where
  "bq27742_read reg nbits st = i2c_read BQ27742_ADDR nbits reg st"

definition bq27742_write :: "nat \<Rightarrow> nat \<Rightarrow> int \<Rightarrow> 'e dbg_state \<Rightarrow> int \<times> 'e dbg_state" where
  "bq27742_write reg nbits value st = i2c_write BQ27742_ADDR nbits reg value st"

definition cmd_ec_bq27742 :: "('k, 'e) updater_env \<Rightarrow> 'e ec_dev option \<Rightarrow> string list \<Rightarrow> 'e dbg_outcome" where
  "cmd_ec_bq27742 env ec argv = with_ec env ec (\<lambda>st.
     (case bq27742_write BQ27742_REG_CTRL 16 1 st of (_, st) \<Rightarrow>
     and_then (bq27742_read BQ27742_REG_CTRL 16 st) (\<lambda>((_, value), st).
     and_then (bq27742_read BQ27742_REG_CHARGING_MV 16
                 (say (''ID: BQ27'' @ fill_left (CHR '' '') 3 (hexn 0 value) @ newline) st)) (\<lambda>((_, chg_mv), st).
     and_then (bq27742_read BQ27742_REG_CHARGING_MA 16 st) (\<lambda>((_, chg_ma), st).
     and_then (bq27742_read BQ27742_REG_FLAGS 16
                 (say (''Requested charge: '' @ decimal chg_mv @ '' mV '' @ decimal chg_ma @ '' mA'' @ newline) st)) (\<lambda>((_, value), st).
     and_then (bq27742_read BQ27742_REG_PROTECTOR 8 (say (''Flags: '' @ hexn 4 value @ newline) st)) (\<lambda>((_, value), st).
       Inr (0, say (''ProtectorState: '' @ hexn 2 value @ newline) st))))))))"

definition PI3USB9281_ADDR :: nat where "PI3USB9281_ADDR = 0x4A"
definition PI3USB9281_REG_DEV_ID :: nat where "PI3USB9281_REG_DEV_ID = 0x01"
definition PI3USB9281_REG_CONTROL :: nat where "PI3USB9281_REG_CONTROL = 0x02"
definition PI3USB9281_REG_INT :: nat where "PI3USB9281_REG_INT = 0x03"
definition PI3USB9281_REG_INT_MASK :: nat where "PI3USB9281_REG_INT_MASK = 0x05"
definition PI3USB9281_REG_DEV_TYPE :: nat where "PI3USB9281_REG_DEV_TYPE = 0x0a"
definition PI3USB9281_REG_CHG_STATUS :: nat where "PI3USB9281_REG_CHG_STATUS = 0x0e"
definition PI3USB9281_REG_MANUAL :: nat where "PI3USB9281_REG_MANUAL = 0x13"
definition PI3USB9281_REG_VBUS :: nat where "PI3USB9281_REG_VBUS = 0x1d"

definition pi3usb9281_regs :: "nat list" where
  "pi3usb9281_regs =
     [PI3USB9281_REG_DEV_ID, PI3USB9281_REG_CONTROL, PI3USB9281_REG_INT, PI3USB9281_REG_INT_MASK, PI3USB9281_REG_DEV_TYPE,
      PI3USB9281_REG_CHG_STATUS, PI3USB9281_REG_MANUAL, PI3USB9281_REG_VBUS]"

definition pi3usb9281_read :: "nat \<Rightarrow> 'e dbg_state \<Rightarrow> dbg_fault + (int \<times> int) \<times> 'e dbg_state" where
  "pi3usb9281_read reg st = i2c_read PI3USB9281_ADDR 8 reg st"

definition apple_chg :: "int \<Rightarrow> string" where
  "apple_chg chg_stat =
     (let v = drop_bit 2 chg_stat AND 7
      in if v = 4 then ''Apple 2.4A'' else if v = 2 then ''Apple 2A'' else if v = 1 then ''Apple 1A'' else [])"

definition proprio_chg :: "int \<Rightarrow> string" where
  "proprio_chg chg_stat =
     (let v = chg_stat AND 3 in if v = 3 then ''type-2'' else if v = 2 then ''type-1'' else if v = 1 then ''rsvd'' else [])"

definition type_name :: "int \<Rightarrow> int \<Rightarrow> string \<Rightarrow> string" where
  "type_name dev_type m name = (if dev_type AND m \<noteq> 0 then name else '' '')"

definition cmd_ec_pi3usb9281 :: "('k, 'e) updater_env \<Rightarrow> 'e ec_dev option \<Rightarrow> string list \<Rightarrow> 'e dbg_outcome" where
  "cmd_ec_pi3usb9281 env ec argv = with_ec env ec (\<lambda>st.
     and_then (pi3usb9281_read PI3USB9281_REG_DEV_TYPE st) (\<lambda>((_, dev_type), st).
     and_then (pi3usb9281_read PI3USB9281_REG_CHG_STATUS st) (\<lambda>((_, chg_stat), st).
     and_then (pi3usb9281_read PI3USB9281_REG_VBUS st) (\<lambda>((_, vbus), st).
       dump_registers pi3usb9281_read pi3usb9281_regs
         (say (''USB: '' @ type_name dev_type 0x40 ''DCP'' @ type_name dev_type 0x20 ''CDP'' @ type_name dev_type 0x10 ''CarKit'' @
               type_name dev_type 0x04 ''SDP'' @ type_name dev_type 0x02 ''OTG'' @ type_name dev_type 0x01 ''MHL'' @
               '' Charger: '' @ apple_chg chg_stat @ proprio_chg chg_stat @ '' VBUS: '' @
               (if vbus AND 2 \<noteq> 0 then ''1'' else ''0'') @ newline) st)))))"

subsection \<open>Charging, console\<close>

definition CHARGE_CONTROL_NORMAL :: nat where "CHARGE_CONTROL_NORMAL = 0"
definition CHARGE_CONTROL_IDLE :: nat where "CHARGE_CONTROL_IDLE = 1"
definition CHARGE_CONTROL_DISCHARGE :: nat where "CHARGE_CONTROL_DISCHARGE = 2"

definition charge_mode :: "string \<Rightarrow> nat option" where
  "charge_mode arg =
     (if strcasecmp_eq arg ''normal'' then Some CHARGE_CONTROL_NORMAL
      else if strcasecmp_eq arg ''idle'' then Some CHARGE_CONTROL_IDLE
      else if strcasecmp_eq arg ''discharge'' then Some CHARGE_CONTROL_DISCHARGE
      else None)"

definition charge_text :: "nat \<Rightarrow> string" where
  "charge_text mode =
     (if mode = CHARGE_CONTROL_NORMAL then ''Charge state machine normal mode.'' @ newline
      else if mode = CHARGE_CONTROL_IDLE then ''Charge state machine force idle.'' @ newline
      else if mode = CHARGE_CONTROL_DISCHARGE then ''Charge state machine force discharge.'' @ newline
      else [])"

text \<open>The arguments are looked at before the device is opened.\<close>

definition cmd_ec_chargecontrol :: "('k, 'e) updater_env \<Rightarrow> 'e ec_dev option \<Rightarrow> string list \<Rightarrow> 'e dbg_outcome" where
  "cmd_ec_chargecontrol env ec argv =
     (if length argv \<noteq> 2 then Inr (- EINVAL, ec, [])
      else
        (case charge_mode (argv ! 1) of
           None \<Rightarrow> Inr (- EINVAL, ec, [])
         | Some mode \<Rightarrow> with_ec env ec (\<lambda>st.
             (case request EC_CMD_CHARGE_CONTROL 1 (le_bytes 4 mode) [] st of
                ((rv, _), st) \<Rightarrow> if rv < 0 then Inr (rv, st) else Inr (0, say (charge_text mode) st)))))"

text \<open>The loop over the chunks of the snapshot. \<open>None\<close>: it never ends.\<close>

partial_function (option) console_loop :: "'e dbg_state \<Rightarrow> 'e dbg_result option" where
  "console_loop st =
     (case request EC_CMD_CONSOLE_READ 0 [] (replicate 128 (Some 0)) st of
        ((rv, data), st') \<Rightarrow>
          if rv \<noteq> 0 then Some (Inr (rv, st'))
          else if data ! 0 = Some 0 then Some (Inr (0, say newline st'))
          else
            (case c_string (data[127 := Some 0]) of
               Inl f \<Rightarrow> Some (Inl f)
             | Inr s \<Rightarrow> console_loop (say s st')))"

declare console_loop.simps [code]

definition cmd_ec_console :: "('k, 'e) updater_env \<Rightarrow> 'e ec_dev option \<Rightarrow> string list \<Rightarrow> 'e dbg_outcome" where
  "cmd_ec_console env ec argv = with_ec env ec (\<lambda>st.
     (case request EC_CMD_CONSOLE_SNAPSHOT 0 [] [] st of
        ((rv, _), st) \<Rightarrow>
          if rv < 0 then Inr (rv, st) else (case console_loop st of None \<Rightarrow> Inl Endless | Some r \<Rightarrow> r)))"

subsection \<open>GPIO signals\<close>

definition EC_GPIO_GET_BY_NAME :: nat where "EC_GPIO_GET_BY_NAME = 0"
definition EC_GPIO_GET_COUNT :: nat where "EC_GPIO_GET_COUNT = 1"
definition EC_GPIO_GET_INFO :: nat where "EC_GPIO_GET_INFO = 2"

text \<open>
  \<^verbatim>\<open>struct ec_params_gpio_get_v1\<close> has 33 bytes: the subcommand, then the name or the index. The 37 bytes of the response are the
  value, the name and the flags; the buffer is the same for all requests.
\<close>

fun gpio_infos :: "(nat \<Rightarrow> u8) \<Rightarrow> u8 option list \<Rightarrow> nat list \<Rightarrow> 'e dbg_state \<Rightarrow> 'e dbg_result" where
  "gpio_infos junk r_v1 [] st = Inr (0, st)"
| "gpio_infos junk r_v1 (i # is) st =
     (case request EC_CMD_GPIO_GET 1 (filled junk 33 [(0, [of_nat EC_GPIO_GET_INFO]), (1, [of_nat i])]) r_v1 st of
        ((rv, r_v1'), st') \<Rightarrow>
          if rv < 0 then Inr (rv, st')
          else
            and_then (get_le 0 1 r_v1') (\<lambda>val.
            and_then (c_string (bytes_at 1 32 r_v1')) (\<lambda>name.
            and_then (get_le 33 4 r_v1') (\<lambda>flags.
              gpio_infos junk r_v1' is
                (say (fill_left (CHR '' '') 2 (show_nat val) @ '' '' @ fill_right 32 name @ '' 0x'' @
                      map toupper (hexn 4 (int flags)) @ newline) st')))))"

definition gpio_subcmd :: "string list \<Rightarrow> nat" where
  "gpio_subcmd argv =
     (if length argv = 1 then EC_GPIO_GET_INFO
      else if argv ! 1 = ''count'' then EC_GPIO_GET_COUNT
      else if argv ! 1 = ''all'' then EC_GPIO_GET_INFO
      else EC_GPIO_GET_BY_NAME)"

definition gpioget_usage :: "string \<Rightarrow> string" where
  "gpioget_usage name =
     ''Usage: '' @ name @ '' [<subcmd> <GPIO name>]'' @ newline @
     [CHR 0x27] @ ''gpioget <GPIO_NAME>'' @ [CHR 0x27] @ '' - Get value by name'' @ newline @
     [CHR 0x27] @ ''gpioget count'' @ [CHR 0x27] @ '' - Get count of GPIOS'' @ newline @
     [CHR 0x27] @ ''gpioget all'' @ [CHR 0x27] @ '' - Get info for all GPIOs'' @ newline"

definition gpioget_by_name :: "(nat \<Rightarrow> u8) \<Rightarrow> string \<Rightarrow> 'e dbg_state \<Rightarrow> 'e dbg_result" where
  "gpioget_by_name junk name st =
     (if 32 < length name + 1 then Inr (-1, st)
      else
        (case request EC_CMD_GPIO_GET 1 (filled junk 33 [(0, [of_nat EC_GPIO_GET_BY_NAME]), (1, bytes_of name @ [0])]) (unset 37) st of
           ((rv, r_v1), st) \<Rightarrow>
             if rv < 0 then Inr (rv, st)
             else and_then (get_le 0 1 r_v1) (\<lambda>val. Inr (0, say (''GPIO '' @ name @ '' = '' @ show_nat val @ newline) st))))"

definition cmd_ec_gpioget ::
  "(nat \<Rightarrow> u8) \<Rightarrow> ('k, 'e) updater_env \<Rightarrow> 'e ec_dev option \<Rightarrow> string list \<Rightarrow> 'e dbg_outcome" where
  "cmd_ec_gpioget junk env ec argv = with_ec env ec (\<lambda>st.
     if 2 < length argv then Inr (-1, say (gpioget_usage (argv ! 0)) st)
     else if gpio_subcmd argv = EC_GPIO_GET_BY_NAME then gpioget_by_name junk (argv ! 1) st
     else
       (case request EC_CMD_GPIO_GET 1 (filled junk 33 [(0, [of_nat EC_GPIO_GET_COUNT])]) (unset 37) st of
          ((rv, r_v1), st) \<Rightarrow>
            if rv < 0 then Inr (rv, st)
            else
              and_then (get_le 0 1 r_v1) (\<lambda>count.
                if gpio_subcmd argv = EC_GPIO_GET_COUNT then Inr (0, say (''GPIO COUNT = '' @ show_nat count @ newline) st)
                else gpio_infos junk r_v1 [0..<count] st)))"

text \<open>\<^verbatim>\<open>struct ec_params_gpio_set\<close>: the name in 32 bytes, and the value cut to a byte.\<close>

definition cmd_ec_gpioset ::
  "(nat \<Rightarrow> u8) \<Rightarrow> ('k, 'e) updater_env \<Rightarrow> 'e ec_dev option \<Rightarrow> string list \<Rightarrow> 'e dbg_outcome" where
  "cmd_ec_gpioset junk env ec argv = with_ec env ec (\<lambda>st.
     if length argv \<noteq> 3 then Inr (-1, st)
     else if 32 < length (argv ! 1) + 1 then Inr (-1, st)
     else
       (case strtol 0 (argv ! 2) of (v, e) \<Rightarrow>
          if e \<noteq> [] then Inr (-1, st)
          else
            (case request EC_CMD_GPIO_SET 0 (filled junk 33 [(0, bytes_of (argv ! 1) @ [0]), (32, [of_int v])]) [] st of
               ((rv, _), st) \<Rightarrow>
                 if rv < 0 then Inr (rv, st)
                 else Inr (0, say (''GPIO '' @ argv ! 1 @ '' set to '' @ show_nat (unat (of_int v :: u8)) @ newline) st))))"

subsection \<open>Hashes\<close>

definition EC_VBOOT_HASH_GET :: nat where "EC_VBOOT_HASH_GET = 0"
definition EC_VBOOT_HASH_ABORT :: nat where "EC_VBOOT_HASH_ABORT = 1"
definition EC_VBOOT_HASH_START :: nat where "EC_VBOOT_HASH_START = 2"
definition EC_VBOOT_HASH_RECALC :: nat where "EC_VBOOT_HASH_RECALC = 3"
definition EC_VBOOT_HASH_TYPE_SHA256 :: nat where "EC_VBOOT_HASH_TYPE_SHA256 = 0"
definition EC_VBOOT_HASH_STATUS_NONE :: nat where "EC_VBOOT_HASH_STATUS_NONE = 0"
definition EC_VBOOT_HASH_STATUS_DONE :: nat where "EC_VBOOT_HASH_STATUS_DONE = 1"
definition EC_VBOOT_HASH_STATUS_BUSY :: nat where "EC_VBOOT_HASH_STATUS_BUSY = 2"
definition EC_VBOOT_HASH_OFFSET_RO :: nat where "EC_VBOOT_HASH_OFFSET_RO = 0xfffffffe"
definition EC_VBOOT_HASH_OFFSET_RW :: nat where "EC_VBOOT_HASH_OFFSET_RW = 0xfffffffd"

text \<open>
  \<^verbatim>\<open>struct ec_response_vboot_hash\<close>: status, type, size of the digest, a reserved byte, offset, size, and 64 bytes for the digest.
  The loop over the digest goes by the size in the response.
\<close>

definition hash_digest :: "u8 option list \<Rightarrow> nat \<Rightarrow> dbg_fault + string" where
  "hash_digest r digest_size =
     and_then (get_bytes 12 (min 64 digest_size) r) (\<lambda>bs.
       if 64 < digest_size then Inl Digest_Overread else Inr (concat (map (\<lambda>b. hexn 2 (uint b)) bs)))"

definition ec_hash_print :: "u8 option list \<Rightarrow> 'e dbg_state \<Rightarrow> 'e dbg_result" where
  "ec_hash_print r st =
     and_then (get_le 0 1 r) (\<lambda>status.
       if status = EC_VBOOT_HASH_STATUS_BUSY then Inr (0, say (''status:  busy'' @ newline) st)
       else if status = EC_VBOOT_HASH_STATUS_NONE then Inr (0, say (''status:  unavailable'' @ newline) st)
       else if status \<noteq> EC_VBOOT_HASH_STATUS_DONE then Inr (0, say (''status:  '' @ show_nat status @ newline) st)
       else
         and_then (get_le 1 1 r) (\<lambda>hash_type.
         and_then (get_le 4 4 r) (\<lambda>off.
         and_then (get_le 8 4 r) (\<lambda>sz.
         and_then (get_le 2 1 r) (\<lambda>digest_size.
         and_then (hash_digest r digest_size) (\<lambda>digest.
           Inr (0, say (''status:  done'' @ newline @
                        ''type:    '' @ (if hash_type = EC_VBOOT_HASH_TYPE_SHA256 then ''SHA-256'' else show_nat hash_type) @ newline @
                        ''offset:  0x'' @ hexn 8 (int off) @ newline @
                        ''size:    0x'' @ hexn 8 (int sz) @ newline @
                        ''hash:    '' @ digest @ newline) st)))))))"

text \<open>
  The region to hash and what is printed about it: \<open>Inl\<close> the code when the arguments are wrong, else offset and size, cut to 32 bits.
\<close>

definition hash_region :: "string list \<Rightarrow> int + nat \<times> nat \<times> string" where
  "hash_region argv =
     (if length argv < 3 then Inl (-1)
      else if strcasecmp_eq (argv ! 2) ''ro'' then Inr (EC_VBOOT_HASH_OFFSET_RO, 0, ''Hashing EC-RO...'' @ newline)
      else if strcasecmp_eq (argv ! 2) ''rw'' then Inr (EC_VBOOT_HASH_OFFSET_RW, 0, ''Hashing EC-RW...'' @ newline)
      else if length argv < 4 then Inl (-1)
      else
        (case strtol 0 (argv ! 2) of (off, e) \<Rightarrow>
           if e \<noteq> [] then Inl (-1)
           else
             (case strtol 0 (argv ! 3) of (sz, e) \<Rightarrow>
                if e \<noteq> [] then Inl (-1)
                else Inr (nat (off mod 2 ^ 32), nat (sz mod 2 ^ 32),
                          ''Hashing '' @ decimal (to_int sz) @ '' bytes at offset '' @ decimal (to_int off) @ ''...'' @ newline))))"

definition hash_nonce :: "string list \<Rightarrow> (nat \<times> u8 list) list option" where
  "hash_nonce argv =
     (if length argv = 5 then
        (case strtol 0 (argv ! 4) of (nonce, e) \<Rightarrow>
           if e \<noteq> [] then None else Some [(12, le_bytes 4 (nat (nonce mod 2 ^ 32))), (2, [4])])
      else Some [(2, [0])])"

definition hash_start :: "(nat \<Rightarrow> u8) \<Rightarrow> nat \<Rightarrow> string list \<Rightarrow> 'e dbg_state \<Rightarrow> 'e dbg_result" where
  "hash_start junk cmd argv st =
     (case hash_region argv of
        Inl code \<Rightarrow> Inr (code, st)
      | Inr (off, sz, text) \<Rightarrow>
          (case hash_nonce argv of
             None \<Rightarrow> Inr (-1, say text st)
           | Some nonce \<Rightarrow>
               (case request EC_CMD_VBOOT_HASH 0
                       (filled junk 76 ([(0, [of_nat cmd]), (1, [of_nat EC_VBOOT_HASH_TYPE_SHA256]), (4, le_bytes 4 off), (8, le_bytes 4 sz)] @ nonce))
                       (unset 76) (say text st) of
                  ((rv, r), st) \<Rightarrow>
                    if rv < 0 then Inr (rv, st) else if cmd = EC_VBOOT_HASH_START then Inr (0, st) else ec_hash_print r st)))"

definition cmd_ec_echash ::
  "(nat \<Rightarrow> u8) \<Rightarrow> ('k, 'e) updater_env \<Rightarrow> 'e ec_dev option \<Rightarrow> string list \<Rightarrow> 'e dbg_outcome" where
  "cmd_ec_echash junk env ec argv = with_ec env ec (\<lambda>st.
     if length argv < 2 then
       (case request EC_CMD_VBOOT_HASH 0 (filled junk 76 [(0, [of_nat EC_VBOOT_HASH_GET])]) (unset 76) st of
          ((rv, r), st) \<Rightarrow> if rv < 0 then Inr (rv, st) else ec_hash_print r st)
     else if length argv = 2 \<and> strcasecmp_eq (argv ! 1) ''abort'' then
       (case request EC_CMD_VBOOT_HASH 0 (filled junk 76 [(0, [of_nat EC_VBOOT_HASH_ABORT])]) (unset 76) st of
          ((rv, r), st) \<Rightarrow> Inr (if rv < 0 then rv else 0, st))
     else if strcasecmp_eq (argv ! 1) ''start'' then hash_start junk EC_VBOOT_HASH_START argv st
     else if strcasecmp_eq (argv ! 1) ''recalc'' then hash_start junk EC_VBOOT_HASH_RECALC argv st
     else Inr (- EINVAL, st))"

subsection \<open>The light bar\<close>

definition LIGHTBAR_NUM_SEQUENCES :: nat where "LIGHTBAR_NUM_SEQUENCES = 13"
definition LIGHTBAR_CMD_DUMP :: nat where "LIGHTBAR_CMD_DUMP = 0"
definition LIGHTBAR_CMD_OFF :: nat where "LIGHTBAR_CMD_OFF = 1"
definition LIGHTBAR_CMD_ON :: nat where "LIGHTBAR_CMD_ON = 2"
definition LIGHTBAR_CMD_INIT :: nat where "LIGHTBAR_CMD_INIT = 3"
definition LIGHTBAR_CMD_SET_BRIGHTNESS :: nat where "LIGHTBAR_CMD_SET_BRIGHTNESS = 4"
definition LIGHTBAR_CMD_SEQ :: nat where "LIGHTBAR_CMD_SEQ = 5"
definition LIGHTBAR_CMD_REG :: nat where "LIGHTBAR_CMD_REG = 6"
definition LIGHTBAR_CMD_SET_RGB :: nat where "LIGHTBAR_CMD_SET_RGB = 7"
definition LIGHTBAR_CMD_DEMO :: nat where "LIGHTBAR_CMD_DEMO = 9"
definition LIGHTBAR_CMD_VERSION :: nat where "LIGHTBAR_CMD_VERSION = 12"
definition LIGHTBAR_CMD_GET_BRIGHTNESS :: nat where "LIGHTBAR_CMD_GET_BRIGHTNESS = 13"
definition LIGHTBAR_CMD_GET_RGB :: nat where "LIGHTBAR_CMD_GET_RGB = 14"
definition LIGHTBAR_CMD_GET_DEMO :: nat where "LIGHTBAR_CMD_GET_DEMO = 15"

text \<open>120 bytes are sent and 120 are asked for. \<open>args\<close> are the bytes of the union that are set.\<close>

definition lb_do_cmd :: "(nat \<Rightarrow> u8) \<Rightarrow> nat \<Rightarrow> u8 list \<Rightarrow> 'e dbg_state \<Rightarrow> (int \<times> u8 option list) \<times> 'e dbg_state" where
  "lb_do_cmd junk cmd args st =
     (case request EC_CMD_LIGHTBAR_CMD 0 (filled junk 120 [(1, args), (0, [of_nat cmd])]) (unset 120) st of
        ((rv, out), st') \<Rightarrow> ((if rv < 0 then rv else 0, out), st'))"

text \<open>A command whose code is returned, and one whose response is printed when the code is 0.\<close>

definition lb_set :: "(nat \<Rightarrow> u8) \<Rightarrow> nat \<Rightarrow> u8 list \<Rightarrow> 'e dbg_state \<Rightarrow> 'e dbg_result" where
  "lb_set junk cmd args st = (case lb_do_cmd junk cmd args st of ((r, _), st') \<Rightarrow> Inr (r, st'))"

definition lb_get ::
  "(nat \<Rightarrow> u8) \<Rightarrow> nat \<Rightarrow> u8 list \<Rightarrow> (u8 option list \<Rightarrow> dbg_fault + string) \<Rightarrow> 'e dbg_state \<Rightarrow> 'e dbg_result" where
  "lb_get junk cmd args text st =
     (case lb_do_cmd junk cmd args st of
        ((r, resp), st') \<Rightarrow> if r \<noteq> 0 then Inr (r, st') else and_then (text resp) (\<lambda>s. Inr (0, say s st')))"

fun dump_triples :: "u8 list \<Rightarrow> string" where
  "dump_triples (reg # ic0 # ic1 # bs) =
     '' '' @ hexn 2 (uint reg) @ ''     '' @ hexn 2 (uint ic0) @ ''     '' @ hexn 2 (uint ic1) @ newline @ dump_triples bs"
| "dump_triples _ = []"

definition dump_text :: "u8 option list \<Rightarrow> dbg_fault + string" where
  "dump_text resp = and_then (get_bytes 0 (3 * 23) resp) (\<lambda>bs. Inr (dump_triples bs))"

definition version_text :: "u8 option list \<Rightarrow> dbg_fault + string" where
  "version_text resp =
     and_then (get_le 0 4 resp) (\<lambda>num. and_then (get_le 4 4 resp) (\<lambda>flags.
       Inr (''version '' @ decimal (to_int (int num)) @ '' flags 0x'' @ hexn 0 (int flags) @ newline)))"

definition brightness_text :: "u8 option list \<Rightarrow> dbg_fault + string" where
  "brightness_text resp = and_then (get_le 0 1 resp) (\<lambda>num. Inr (hexn 2 (int num) @ newline))"

definition demo_text :: "u8 option list \<Rightarrow> dbg_fault + string" where
  "demo_text resp = and_then (get_le 0 1 resp) (\<lambda>num. Inr ((if num \<noteq> 0 then ''on'' else ''off'') @ newline))"

definition rgb_text :: "u8 option list \<Rightarrow> dbg_fault + string" where
  "rgb_text resp =
     and_then (get_le 0 1 resp) (\<lambda>red. and_then (get_le 1 1 resp) (\<lambda>green. and_then (get_le 2 1 resp) (\<lambda>blue.
       Inr (hexn 2 (int red) @ '' '' @ hexn 2 (int green) @ '' '' @ hexn 2 (int blue) @ newline))))"

definition byte_arg :: "string \<Rightarrow> u8" where
  "byte_arg arg = of_nat (fst (strtoul 16 arg))"

text \<open>A string starts with a character; the empty one starts with its NUL.\<close>

definition starts :: "char \<Rightarrow> string \<Rightarrow> bool" where
  "starts c s \<longleftrightarrow> s \<noteq> [] \<and> s ! 0 = c"

definition demo_arg :: "string \<Rightarrow> u8 option" where
  "demo_arg arg =
     (if strcasecmp_eq arg ''on'' \<or> starts (CHR ''1'') arg then Some 1
      else if strcasecmp_eq arg ''off'' \<or> starts (CHR ''0'') arg then Some 0
      else None)"

definition seq_arg :: "string \<Rightarrow> nat" where
  "seq_arg arg =
     (case strtoul 16 arg of (v, e) \<Rightarrow>
        if e = [] then v mod 256
        else if strcasecmp_eq arg ''stop'' then 8
        else if strcasecmp_eq arg ''run'' then 9
        else if strcasecmp_eq arg ''konami'' then 10
        else LIGHTBAR_NUM_SEQUENCES)"

definition cmd_ec_lightbar ::
  "(nat \<Rightarrow> u8) \<Rightarrow> ('k, 'e) updater_env \<Rightarrow> 'e ec_dev option \<Rightarrow> string list \<Rightarrow> 'e dbg_outcome" where
  "cmd_ec_lightbar junk env ec argv = with_ec env ec (\<lambda>st.
     (let argc = length argv in
      if argc = 1 then lb_get junk LIGHTBAR_CMD_DUMP [] dump_text st
      else if argc = 2 \<and> strcasecmp_eq (argv ! 1) ''init'' then lb_set junk LIGHTBAR_CMD_INIT [] st
      else if argc = 2 \<and> strcasecmp_eq (argv ! 1) ''off'' then lb_set junk LIGHTBAR_CMD_OFF [] st
      else if argc = 2 \<and> strcasecmp_eq (argv ! 1) ''on'' then lb_set junk LIGHTBAR_CMD_ON [] st
      else if strcasecmp_eq (argv ! 1) ''version'' then lb_get junk LIGHTBAR_CMD_VERSION [] version_text st
      else if argc > 1 \<and> strcasecmp_eq (argv ! 1) ''brightness'' then
        (if argc > 2 then lb_set junk LIGHTBAR_CMD_SET_BRIGHTNESS [byte_arg (argv ! 2)] st
         else lb_get junk LIGHTBAR_CMD_GET_BRIGHTNESS [] brightness_text st)
      else if argc > 1 \<and> strcasecmp_eq (argv ! 1) ''demo'' then
        (if argc > 2 then
           (case demo_arg (argv ! 2) of None \<Rightarrow> Inr (-1, st) | Some num \<Rightarrow> lb_set junk LIGHTBAR_CMD_DEMO [num] st)
         else lb_get junk LIGHTBAR_CMD_GET_DEMO [] demo_text st)
      else if argc > 2 \<and> strcasecmp_eq (argv ! 1) ''seq'' then
        (let num = seq_arg (argv ! 2)
         in if LIGHTBAR_NUM_SEQUENCES \<le> num then Inr (-1, st) else lb_set junk LIGHTBAR_CMD_SEQ [of_nat num] st)
      else if argc = 4 then
        lb_set junk LIGHTBAR_CMD_REG [byte_arg (argv ! 1), byte_arg (argv ! 2), byte_arg (argv ! 3)] st
      else if argc = 5 then
        lb_set junk LIGHTBAR_CMD_SET_RGB [byte_arg (argv ! 1), byte_arg (argv ! 2), byte_arg (argv ! 3), byte_arg (argv ! 4)] st
      else if argc = 2 then
        (case strtoul 0 (argv ! 1) of (led, e) \<Rightarrow>
           if e = [] then lb_get junk LIGHTBAR_CMD_GET_RGB [of_nat led] rgb_text st else Inr (0, st))
      else Inr (0, st)))"

subsection \<open>USB power delivery\<close>

definition USB_PD_CTRL_ROLE_NO_CHANGE :: nat where "USB_PD_CTRL_ROLE_NO_CHANGE = 0"
definition USB_PD_CTRL_ROLE_TOGGLE_ON :: nat where "USB_PD_CTRL_ROLE_TOGGLE_ON = 1"
definition USB_PD_CTRL_MUX_NO_CHANGE :: nat where "USB_PD_CTRL_MUX_NO_CHANGE = 0"
definition USB_PD_CTRL_MUX_AUTO :: nat where "USB_PD_CTRL_MUX_AUTO = 5"
definition USB_PD_CTRL_SWAP_NONE :: nat where "USB_PD_CTRL_SWAP_NONE = 0"

definition role_str :: "string list" where "role_str = ['''', ''toggle'', ''toggle-off'', ''sink'', ''source'']"
definition mux_str :: "string list" where "mux_str = ['''', ''none'', ''usb'', ''dp'', ''dock'', ''auto'']"
definition swap_str :: "string list" where "swap_str = ['''', ''dr_swap'', ''pr_swap'', ''vconn_swap'']"

fun str_index :: "string \<Rightarrow> string list \<Rightarrow> nat option" where
  "str_index s [] = None"
| "str_index s (x # xs) = (if s = x then Some 0 else map_option Suc (str_index s xs))"

text \<open>The loop over the options. \<open>None\<close>: the command returns -1.\<close>

fun usbpd_options :: "nat \<Rightarrow> string list \<Rightarrow> nat \<Rightarrow> nat \<Rightarrow> nat \<Rightarrow> (nat \<times> nat \<times> nat) option" where
  "usbpd_options argc [] role mux swap = Some (role, mux, swap)"
| "usbpd_options argc (a # as) role mux swap =
     (if a = ''auto'' then
        (if argc \<noteq> 3 then None else usbpd_options argc as USB_PD_CTRL_ROLE_TOGGLE_ON USB_PD_CTRL_MUX_AUTO swap)
      else case str_index a role_str of
        Some j \<Rightarrow> if role \<noteq> USB_PD_CTRL_ROLE_NO_CHANGE then None else usbpd_options argc as j mux swap
      | None \<Rightarrow>
          (case str_index a mux_str of
             Some j \<Rightarrow> if mux \<noteq> USB_PD_CTRL_MUX_NO_CHANGE then None else usbpd_options argc as role j swap
           | None \<Rightarrow>
               (case str_index a swap_str of
                  Some j \<Rightarrow> if swap \<noteq> USB_PD_CTRL_SWAP_NONE then None else usbpd_options argc as role mux j
                | None \<Rightarrow> None)))"

definition port_text :: "nat \<Rightarrow> u8 option list \<Rightarrow> dbg_fault + string" where
  "port_text port r =
     and_then (get_le 0 1 r) (\<lambda>enabled. and_then (get_le 1 1 r) (\<lambda>role. and_then (get_le 2 1 r) (\<lambda>polarity.
     and_then (c_string (bytes_at 3 32 r)) (\<lambda>state.
       Inr (''Port C'' @ show_nat port @ '' is '' @ (if enabled AND 1 \<noteq> 0 then ''enabled'' else ''disabled'') @ '','' @
            (if enabled AND 2 \<noteq> 0 then ''connected'' else ''disconnected'') @ '', Role:'' @
            (if role AND 1 \<noteq> 0 then ''SRC'' else ''SNK'') @ '' '' @ (if role AND 2 \<noteq> 0 then ''DFP'' else ''UFP'') @
            (if role AND 4 \<noteq> 0 then '' VCONN'' else []) @ '' Polarity:CC'' @ show_nat (polarity + 1) @ '' State:'' @ state @ newline)))))"

text \<open>The port is cut to a byte.\<close>

definition cmd_ec_usbpd :: "('k, 'e) updater_env \<Rightarrow> 'e ec_dev option \<Rightarrow> string list \<Rightarrow> 'e dbg_outcome" where
  "cmd_ec_usbpd env ec argv = with_ec env ec (\<lambda>st.
     if length argv < 2 then Inr (-1, st)
     else
       (case strtol 0 (argv ! 1) of (v, e) \<Rightarrow>
          if e \<noteq> [] then Inr (-1, st)
          else
            (case usbpd_options (length argv) (drop 2 argv) USB_PD_CTRL_ROLE_NO_CHANGE USB_PD_CTRL_MUX_NO_CHANGE USB_PD_CTRL_SWAP_NONE of
               None \<Rightarrow> Inr (-1, st)
             | Some (role, mux, swap) \<Rightarrow>
                 (case request EC_CMD_USB_PD_CONTROL 1 [of_int v, of_nat role, of_nat mux, of_nat swap] (unset 35) st of
                    ((rv, r), st) \<Rightarrow>
                      if rv < 0 then Inr (rv, st)
                      else if length argv \<noteq> 2 then Inr (0, st)
                      else and_then (port_text (unat (of_int v :: u8)) r) (\<lambda>s. Inr (0, say s st))))))"

definition USB_PD_PORT_POWER_DISCONNECTED :: nat where "USB_PD_PORT_POWER_DISCONNECTED = 0"
definition USB_PD_PORT_POWER_SOURCE :: nat where "USB_PD_PORT_POWER_SOURCE = 1"
definition USB_PD_PORT_POWER_SINK :: nat where "USB_PD_PORT_POWER_SINK = 2"
definition USB_PD_PORT_POWER_SINK_NOT_CHARGING :: nat where "USB_PD_PORT_POWER_SINK_NOT_CHARGING = 3"

text \<open>The names of the types of chargers, from 0; no name is printed for the first, nor for a type behind the last.\<close>

definition chg_type_names :: "string list" where
  "chg_type_names =
     [[], '' PD'', '' Type-C'', '' Proprietary'', '' DCP'', '' CDP'', '' SDP'', '' Other'', '' VBUS'', '' Unknown'']"

definition power_role_name :: "nat \<Rightarrow> string" where
  "power_role_name role =
     (if role = USB_PD_PORT_POWER_DISCONNECTED then ''Disconnected''
      else if role = USB_PD_PORT_POWER_SOURCE then ''SRC''
      else if role = USB_PD_PORT_POWER_SINK then ''SNK''
      else if role = USB_PD_PORT_POWER_SINK_NOT_CHARGING then ''SNK (not charging)''
      else ''Unknown'')"

definition print_pd_power_info :: "u8 option list \<Rightarrow> 'e dbg_state \<Rightarrow> dbg_fault + 'e dbg_state" where
  "print_pd_power_info r st =
     and_then (get_le 0 1 r) (\<lambda>role.
       if role = USB_PD_PORT_POWER_DISCONNECTED \<or> role = USB_PD_PORT_POWER_SOURCE then Inr (say (power_role_name role @ newline) st)
       else
         and_then (get_le 2 1 r) (\<lambda>dualrole.
         and_then (get_le 1 1 r) (\<lambda>type.
         and_then (get_le 4 2 r) (\<lambda>voltage_max. and_then (get_le 6 2 r) (\<lambda>voltage_now.
         and_then (get_le 8 2 r) (\<lambda>current_max. and_then (get_le 10 2 r) (\<lambda>current_lim.
         and_then (get_le 12 4 r) (\<lambda>max_power.
           Inr (say (power_role_name role @ (if dualrole \<noteq> 0 then '' DRP'' else '' Charger'') @
                     (if type < length chg_type_names then chg_type_names ! type else []) @ '' '' @
                     show_nat voltage_now @ ''mV / '' @ show_nat current_lim @ ''mA, max '' @ show_nat voltage_max @ ''mV / '' @
                     show_nat current_max @ ''mA'' @ (if max_power \<noteq> 0 then '' / '' @ show_nat (max_power div 1000) @ ''mW'' else []) @
                     newline) st)))))))))"

text \<open>The loop over the ports, with one buffer for all responses.\<close>

fun power_infos :: "u8 option list \<Rightarrow> nat list \<Rightarrow> 'e dbg_state \<Rightarrow> 'e dbg_result" where
  "power_infos r [] st = Inr (0, st)"
| "power_infos r (i # is) st =
     (case request EC_CMD_USB_PD_POWER_INFO 0 [of_nat i] r st of
        ((rv, r'), st') \<Rightarrow>
          if rv \<noteq> 0 then Inr (rv, st')
          else and_then (print_pd_power_info r' (say (''Port '' @ show_nat i @ '': '') st')) (power_infos r' is))"

definition cmd_ec_usbpdpower :: "('k, 'e) updater_env \<Rightarrow> 'e ec_dev option \<Rightarrow> string list \<Rightarrow> 'e dbg_outcome" where
  "cmd_ec_usbpdpower env ec argv = with_ec env ec (\<lambda>st.
     (case request EC_CMD_USB_PD_PORTS 0 [] (unset 1) st of
        ((rv, rp), st) \<Rightarrow>
          if rv \<noteq> 0 then Inr (rv, st)
          else and_then (get_le 0 1 rp) (\<lambda>num_ports. power_infos (unset 16) [0..<num_ports] st)))"

subsection \<open>The version\<close>

definition image_names :: "string list" where "image_names = [''unknown'', ''RO'', ''RW'']"

definition image_name :: "nat \<Rightarrow> string" where
  "image_name n = (if n < length image_names then image_names ! n else ''?'')"

definition cmd_ec_version :: "('k, 'e) updater_env \<Rightarrow> 'e ec_dev option \<Rightarrow> string list \<Rightarrow> 'e dbg_outcome" where
  "cmd_ec_version env ec argv = with_ec env ec (\<lambda>st.
     (case request EC_CMD_GET_VERSION 0 [] (unset 100) st of
        ((rv, r), st) \<Rightarrow>
          if rv < 0 then Inr (rv, st)
          else
            (case request EC_CMD_GET_BUILD_INFO 0 [] (unset 128) st of
               ((rv, build_string), st) \<Rightarrow>
                 if rv < 0 then Inr (rv, st)
                 else
                   and_then (c_string ((bytes_at 0 32 r)[31 := Some 0])) (\<lambda>version_ro.
                   and_then (c_string ((bytes_at 32 32 r)[31 := Some 0])) (\<lambda>version_rw.
                   and_then (get_le 96 4 r) (\<lambda>current_image.
                   and_then (c_string (build_string[127 := Some 0])) (\<lambda>build.
                     Inr (0, say (''RO version:    '' @ version_ro @ newline @ ''RW version:    '' @ version_rw @ newline @
                                  ''Firmware copy: '' @ image_name current_image @ newline @
                                  ''Build info:    '' @ build @ newline) st))))))))"

subsection \<open>The table\<close>

definition subcmds_ec :: "command list" where
  "subcmds_ec =
     [CMD ''ec_battery'', CMD ''ec_bq25892'', CMD ''ec_bq27742'', CMD ''ec_chargecontrol'', CMD ''ec_console'', CMD ''ec_gpioget'',
      CMD ''ec_gpioset'', CMD ''ec_echash'', CMD ''ec_lightbar'', CMD ''ec_pi3usb9281'', CMD ''ec_usbpd'', CMD ''ec_usbpdpower'',
      CMD ''ec_version'']"

text \<open>The functions behind the names of the table, which holds pointers to them.\<close>

definition ec_handlers ::
  "(nat \<Rightarrow> u8) \<Rightarrow> (string \<times> (('k, 'e) updater_env \<Rightarrow> 'e ec_dev option \<Rightarrow> string list \<Rightarrow> 'e dbg_outcome)) list" where
  "ec_handlers junk =
     [(''cmd_ec_battery'', cmd_ec_battery), (''cmd_ec_bq25892'', cmd_ec_bq25892), (''cmd_ec_bq27742'', cmd_ec_bq27742),
      (''cmd_ec_chargecontrol'', cmd_ec_chargecontrol), (''cmd_ec_console'', cmd_ec_console),
      (''cmd_ec_gpioget'', cmd_ec_gpioget junk), (''cmd_ec_gpioset'', cmd_ec_gpioset junk),
      (''cmd_ec_echash'', cmd_ec_echash junk), (''cmd_ec_lightbar'', cmd_ec_lightbar junk),
      (''cmd_ec_pi3usb9281'', cmd_ec_pi3usb9281), (''cmd_ec_usbpd'', cmd_ec_usbpd),
      (''cmd_ec_usbpdpower'', cmd_ec_usbpdpower), (''cmd_ec_version'', cmd_ec_version)]"

subsection \<open>Commands that always return\<close>

text \<open>\<open>returns P r\<close>: there is no fault, and the result satisfies \<open>P\<close>.\<close>

definition returns :: "('a \<Rightarrow> bool) \<Rightarrow> dbg_fault + 'a \<Rightarrow> bool" where
  "returns P r = (case r of Inl _ \<Rightarrow> False | Inr x \<Rightarrow> P x)"

lemma returns_Inr [simp]: "returns P (Inr x) = P x" by (simp add: returns_def)

lemma returns_bind: "returns Q r \<Longrightarrow> (\<And>x. Q x \<Longrightarrow> returns P (f x)) \<Longrightarrow> returns P (and_then r f)"
  by (cases r) (simp_all add: returns_def)

lemma returns_ex: "returns P r \<longleftrightarrow> (\<exists>x. r = Inr x \<and> P x)"
  by (auto simp: returns_def split: sum.splits)

text \<open>The variable \<open>ec\<close> only ever holds the device that \<^verbatim>\<open>flash_open\<close> made.\<close>

definition talks_to :: "'e ec_calls \<Rightarrow> 'e ec_dev \<Rightarrow> bool" where
  "talks_to c dev \<longleftrightarrow> fo_cmd (fd_ops dev) = Some (ec_command c)"

definition ec_var_ok :: "('k, 'e) updater_env \<Rightarrow> 'e ec_dev option \<Rightarrow> bool" where
  "ec_var_ok env ec \<longleftrightarrow> (case ec of None \<Rightarrow> True | Some dev \<Rightarrow> talks_to (ue_ec env) dev)"

lemma open_ec_talks: "open_ec env = Some dev \<Longrightarrow> talks_to (ue_ec env) dev"
  by (auto simp: open_ec_def flash_open_def flash_ec_ops_def talks_to_def Let_def split: if_splits option.splits)

lemma with_ec_ok:
  assumes "ec_var_ok env ec"
    and "\<And>dev. talks_to (ue_ec env) dev \<Longrightarrow> returns (\<lambda>(rv, st). rv \<le> 0 \<and> talks_to (ue_ec env) (fst st)) (body (dev, []))"
  shows "returns (\<lambda>(rv, ec', out). rv \<le> 0 \<and> ec_var_ok env ec') (with_ec env ec body)"
proof (cases "get_ec env ec")
  case None
  then show ?thesis by (simp add: with_ec_def ec_var_ok_def ENODEV_def)
next
  case (Some dev)
  with assms(1) open_ec_talks [of env dev] have "talks_to (ue_ec env) dev"
    by (auto simp: get_ec_def ec_var_ok_def split: option.splits)
  from assms(2) [OF this] Some show ?thesis
    by (auto simp: with_ec_def ec_var_ok_def intro!: returns_bind)
qed

text \<open>
  A controller whose driver reports a command that is not carried out as an error of the call, and otherwise stores a whole response;
  the build information may be shorter, as it is a string with its NUL.
\<close>

definition answering :: "'e ec_calls \<Rightarrow> bool" where
  "answering c \<longleftrightarrow>
     (\<forall>cmd ver odata n k. case ec_ioctl c cmd ver odata n k of
        ((r, result, indata), k') \<Rightarrow>
          r < 0 \<and> 0 < ec_errno c k' \<or>
          0 \<le> r \<and> result = 0 \<and>
            (length indata = n \<or> cmd = EC_CMD_GET_BUILD_INFO \<and> 0 \<in> set indata \<and> length indata < n))"

lemma set_overlay: "length buf \<le> length bytes \<Longrightarrow> None \<notin> set (overlay bytes buf)"
  by (auto simp: overlay_def)

lemma length_overlay [simp]: "length (overlay bytes buf) = length buf"
  by (simp add: overlay_def)

lemma request_answered:
  assumes "answering c" "talks_to c (fst st)" "request cmd ver odata buf st = ((rv, buf'), st')"
  shows "talks_to c (fst st')" "rv \<le> 0" "length buf' = length buf"
    "rv = 0 \<Longrightarrow> cmd \<noteq> EC_CMD_GET_BUILD_INFO \<Longrightarrow> None \<notin> set buf'"
    "rv = 0 \<Longrightarrow> \<exists>bytes. buf' = overlay bytes buf \<and> (length bytes = length buf \<or> 0 \<in> set bytes \<and> length bytes < length buf)"
proof -
  define dev where "dev = fd_priv (fst st)"
  have cmd: "flash_cmd (fst st) cmd ver odata (length buf) =
      (case ec_command c dev cmd ver odata (length buf) of (r, h) \<Rightarrow> (r, (fst st)\<lparr>fd_priv := h\<rparr>))"
    using assms(2) by (simp add: flash_cmd_def talks_to_def dev_def)
  obtain r result indata k' where io: "ec_ioctl c cmd ver odata (length buf) (ed_kernel dev) = ((r, result, indata), k')"
    by (metis prod.exhaust)
  have a: "r < 0 \<and> 0 < ec_errno c k' \<or> 0 \<le> r \<and> result = 0 \<and>
      (length indata = length buf \<or> cmd = EC_CMD_GET_BUILD_INFO \<and> 0 \<in> set indata \<and> length indata < length buf)"
    using assms(1) io unfolding answering_def by (metis (mono_tags, lifting) old.prod.case)
  note all = assms(3) cmd io a
  show "talks_to c (fst st')" using all assms(2)
    by (auto simp: request_def ec_command_def talks_to_def split: if_splits)
  show "rv \<le> 0" using all by (auto simp: request_def ec_command_def ENODEV_def split: if_splits)
  show "length buf' = length buf" using all by (auto simp: request_def split: prod.splits)
  show "None \<notin> set buf'" if "rv = 0" "cmd \<noteq> EC_CMD_GET_BUILD_INFO"
    using all that set_overlay [of buf indata] by (auto simp: request_def ec_command_def ENODEV_def split: if_splits)
  show "\<exists>bytes. buf' = overlay bytes buf \<and> (length bytes = length buf \<or> 0 \<in> set bytes \<and> length bytes < length buf)" if "rv = 0"
    using all that by (auto simp: request_def ec_command_def ENODEV_def split: if_splits)
qed

lemma get_le_set: "None \<notin> set buf \<Longrightarrow> returns (\<lambda>_. True) (get_le off n buf)"
  using set_take_subset [of n "drop off buf"] set_drop_subset [of off buf]
  by (auto simp: get_le_def get_bytes_def bytes_at_def Let_def)

lemma get_bytes_set: "None \<notin> set buf \<Longrightarrow> returns (\<lambda>_. True) (get_bytes off n buf)"
  using set_take_subset [of n "drop off buf"] set_drop_subset [of off buf]
  by (auto simp: get_bytes_def bytes_at_def Let_def)

text \<open>A string returns when a NUL comes before anything that was not set.\<close>

lemma c_string_terminated: "None \<notin> set xs \<Longrightarrow> returns (\<lambda>_. True) (c_string (xs @ Some 0 # ys))"
proof (induction xs)
  case (Cons x xs)
  then obtain b where "x = Some b" by (cases x) auto
  with Cons show ?case by (auto intro!: returns_bind)
qed simp

lemma c_string_last_cleared:
  assumes "None \<notin> set xs" "i < length xs"
  shows "returns (\<lambda>_. True) (c_string (xs[i := Some 0]))"
proof -
  have "None \<notin> set (take i xs)" using assms(1) set_take_subset [of i xs] by blast
  from c_string_terminated [OF this] show ?thesis using assms(2) by (simp add: upd_conv_take_nth_drop)
qed

text \<open>A request that succeeded, a register that is read or written.\<close>

definition answered :: "'e ec_calls \<Rightarrow> int \<Rightarrow> u8 option list \<Rightarrow> 'e dbg_state \<Rightarrow> bool" where
  "answered c rv buf st \<longleftrightarrow> talks_to c (fst st) \<and> rv \<le> 0 \<and> (rv = 0 \<longrightarrow> None \<notin> set buf)"

lemma request_case:
  assumes "answering c" "talks_to c (fst st)" "cmd \<noteq> EC_CMD_GET_BUILD_INFO"
    and "\<And>rv buf' st'. answered c rv buf' st' \<Longrightarrow> length buf' = length buf \<Longrightarrow> returns P (f rv buf' st')"
  shows "returns P (case request cmd ver odata buf st of ((rv, buf'), st') \<Rightarrow> f rv buf' st')"
proof -
  obtain rv buf' st' where r: "request cmd ver odata buf st = ((rv, buf'), st')" by (metis prod.exhaust)
  from request_answered [OF assms(1,2) r] assms(3) show ?thesis by (simp add: r) (auto intro!: assms(4) simp: answered_def)
qed

lemma say_fst [simp]: "fst (say s st) = fst st" by (simp add: say_def)

lemma i2c_read_returns:
  assumes "answering c" "talks_to c (fst st)"
  shows "returns (\<lambda>((rv, v), st'). rv \<le> 0 \<and> talks_to c (fst st')) (i2c_read addr n reg st)"
  unfolding i2c_read_def
  by (rule request_case [OF assms]) (auto simp: answered_def EC_CMD_I2C_READ_def EC_CMD_GET_BUILD_INFO_def intro!: returns_bind [OF get_le_set])

lemma i2c_write_talks:
  assumes "answering c" "talks_to c (fst st)"
  shows "talks_to c (fst (snd (i2c_write addr n reg v st)))"
  using request_answered(1) [OF assms] by (auto simp: i2c_write_def split: prod.splits)

lemma dump_values_returns:
  assumes "\<And>reg st. talks_to c (fst st) \<Longrightarrow> returns (\<lambda>((rv, v), st'). rv \<le> 0 \<and> talks_to c (fst st')) (rd reg st)"
  shows "talks_to c (fst st) \<Longrightarrow> returns (\<lambda>(rv, st'). rv \<le> 0 \<and> talks_to c (fst st')) (dump_values rd regs st)"
proof (induction regs arbitrary: st)
  case (Cons reg regs)
  from Cons show ?case by (auto intro!: returns_bind [OF assms] Cons.IH)
qed simp

lemmas i2c_reads = bq25892_read_def bq27742_read_def pi3usb9281_read_def

definition quiet :: "('k, 'e) updater_env \<Rightarrow> int \<times> 'e ec_dev option \<times> string \<Rightarrow> bool" where
  "quiet env = (\<lambda>(rv, ec', out). rv \<le> 0 \<and> ec_var_ok env ec')"

lemma bq27742_returns:
  assumes "answering (ue_ec env)" "ec_var_ok env ec"
  shows "returns (quiet env) (cmd_ec_bq27742 env ec argv)"
  unfolding cmd_ec_bq27742_def quiet_def
proof (rule with_ec_ok [OF assms(2)], goal_cases)
  case (1 dev)
  note rd = returns_bind [OF i2c_read_returns [OF assms(1)]]
  obtain rv st where w: "bq27742_write BQ27742_REG_CTRL 16 1 (dev, []) = (rv, st)" by (metis prod.exhaust)
  with i2c_write_talks [OF assms(1), of "(dev, [])"] 1 have "talks_to (ue_ec env) (fst st)"
    by (metis bq27742_write_def fst_conv snd_conv)
  then show ?case by (auto simp: w i2c_reads intro!: rd)
qed

lemma pi3usb9281_returns:
  assumes "answering (ue_ec env)" "ec_var_ok env ec"
  shows "returns (quiet env) (cmd_ec_pi3usb9281 env ec argv)"
  unfolding cmd_ec_pi3usb9281_def quiet_def
proof (rule with_ec_ok [OF assms(2)], goal_cases)
  case (1 dev)
  note rd = returns_bind [OF i2c_read_returns [OF assms(1)]]
  have regs: "talks_to (ue_ec env) (fst st) \<Longrightarrow>
      returns (\<lambda>(rv, st'). rv \<le> 0 \<and> talks_to (ue_ec env) (fst st')) (dump_registers pi3usb9281_read rs st)" for rs st
    using dump_values_returns [of "ue_ec env" pi3usb9281_read] i2c_read_returns [OF assms(1)]
    by (simp add: dump_registers_def pi3usb9281_read_def)
  from 1 show ?case by (auto simp: i2c_reads [of PI3USB9281_REG_DEV_TYPE] i2c_reads [of PI3USB9281_REG_CHG_STATUS] i2c_reads [of PI3USB9281_REG_VBUS] intro!: rd regs)
qed

lemma chargecontrol_returns:
  assumes "answering (ue_ec env)" "ec_var_ok env ec"
  shows "returns (quiet env) (cmd_ec_chargecontrol env ec argv)"
proof (cases "length argv = 2 \<and> charge_mode (argv ! 1) \<noteq> None")
  case True
  then obtain mode where "length argv = 2" "charge_mode (argv ! 1) = Some mode" by blast
  then show ?thesis unfolding quiet_def cmd_ec_chargecontrol_def
    by (simp only: option.case not_True_eq_False if_False not_not simp_thms, intro with_ec_ok [OF assms(2)] request_case [OF assms(1)])
      (auto simp: answered_def EC_CMD_CHARGE_CONTROL_def EC_CMD_GET_BUILD_INFO_def)
next
  case False
  with assms(2) show ?thesis by (auto simp: cmd_ec_chargecontrol_def quiet_def EINVAL_def)
qed

lemma gpioset_returns:
  assumes "answering (ue_ec env)" "ec_var_ok env ec"
  shows "returns (quiet env) (cmd_ec_gpioset junk env ec argv)"
  unfolding cmd_ec_gpioset_def quiet_def
proof (rule with_ec_ok [OF assms(2)], goal_cases)
  case (1 dev)
  obtain v e where "strtol 0 (argv ! 2) = (v, e)" by fastforce
  moreover have "returns (\<lambda>(rv, st'). rv \<le> 0 \<and> talks_to (ue_ec env) (fst st'))
      (case request EC_CMD_GPIO_SET 0 p [] (dev, []) of
         ((rv, _), st) \<Rightarrow> if rv < 0 then Inr (rv, st) else Inr (0, say msg st))" for p msg
    by (rule request_case [OF assms(1)]) (use 1 in \<open>auto simp: answered_def EC_CMD_GPIO_SET_def EC_CMD_GET_BUILD_INFO_def\<close>)
  ultimately show ?case using 1 by simp
qed

lemma lb_set_returns:
  assumes "answering c" "talks_to c (fst st)"
  shows "returns (\<lambda>(rv, st'). rv \<le> 0 \<and> talks_to c (fst st')) (lb_set junk cmd args st)"
  using request_answered [OF assms] by (auto simp: lb_set_def lb_do_cmd_def split: prod.splits)

lemma lb_get_returns:
  assumes "answering c" "talks_to c (fst st)" "\<And>resp. None \<notin> set resp \<Longrightarrow> returns (\<lambda>_. True) (text resp)"
  shows "returns (\<lambda>(rv, st'). rv \<le> 0 \<and> talks_to c (fst st')) (lb_get junk cmd args text st)"
proof -
  obtain rv resp st' where r: "request EC_CMD_LIGHTBAR_CMD 0 (filled junk 120 [(1, args), (0, [of_nat cmd])]) (unset 120) st = ((rv, resp), st')"
    by (metis prod.exhaust)
  have "EC_CMD_LIGHTBAR_CMD \<noteq> EC_CMD_GET_BUILD_INFO" by (simp add: EC_CMD_LIGHTBAR_CMD_def EC_CMD_GET_BUILD_INFO_def)
  with request_answered [OF assms(1,2) r] show ?thesis unfolding lb_get_def lb_do_cmd_def r
    by (auto intro!: returns_bind [OF assms(3)])
qed

lemma lb_texts_return:
  assumes "None \<notin> set resp"
  shows "returns (\<lambda>_. True) (dump_text resp)" "returns (\<lambda>_. True) (version_text resp)" "returns (\<lambda>_. True) (brightness_text resp)"
    "returns (\<lambda>_. True) (demo_text resp)" "returns (\<lambda>_. True) (rgb_text resp)"
  unfolding dump_text_def version_text_def brightness_text_def demo_text_def rgb_text_def
  by (auto intro!: returns_bind [OF get_le_set [OF assms]] returns_bind [OF get_bytes_set [OF assms]])

lemma lightbar_returns:
  assumes "answering (ue_ec env)" "ec_var_ok env ec"
  shows "returns (quiet env) (cmd_ec_lightbar junk env ec argv)"
  unfolding cmd_ec_lightbar_def quiet_def Let_def
proof (rule with_ec_ok [OF assms(2)], goal_cases)
  case (1 dev)
  note get = lb_get_returns [OF assms(1)] and set = lb_set_returns [OF assms(1)]
  from 1 show ?case by (simp add: get set lb_texts_return split: option.split prod.split)
qed

lemma print_pd_power_info_returns:
  "None \<notin> set r \<Longrightarrow> talks_to c (fst st) \<Longrightarrow> returns (\<lambda>st'. talks_to c (fst st')) (print_pd_power_info r st)"
  unfolding print_pd_power_info_def by (auto intro!: returns_bind [OF get_le_set])

lemma power_infos_returns:
  assumes "answering c"
  shows "talks_to c (fst st) \<Longrightarrow> returns (\<lambda>(rv, st'). rv \<le> 0 \<and> talks_to c (fst st')) (power_infos r is st)"
proof (induction "is" arbitrary: r st)
  case (Cons i "is")
  show ?case unfolding power_infos.simps
    by (rule request_case [OF assms Cons.prems])
      (auto simp: answered_def EC_CMD_USB_PD_POWER_INFO_def EC_CMD_GET_BUILD_INFO_def
        intro!: returns_bind [OF print_pd_power_info_returns] Cons.IH)
qed simp

lemma usbpdpower_returns:
  assumes "answering (ue_ec env)" "ec_var_ok env ec"
  shows "returns (quiet env) (cmd_ec_usbpdpower env ec argv)"
  unfolding cmd_ec_usbpdpower_def quiet_def
  by (rule with_ec_ok [OF assms(2)], rule request_case [OF assms(1)])
    (auto simp: answered_def EC_CMD_USB_PD_PORTS_def EC_CMD_GET_BUILD_INFO_def intro!: returns_bind [OF get_le_set] power_infos_returns [OF assms(1)])

lemma c_string_terminated_update:
  assumes "None \<notin> set xs" "length xs < i"
  shows "returns (\<lambda>_. True) (c_string ((xs @ Some 0 # ys)[i := v]))"
proof -
  obtain k where "i = length xs + Suc k" using assms(2) less_iff_Suc_add by auto
  then show ?thesis using c_string_terminated [OF assms(1)] by (simp add: list_update_append)
qed

lemma c_string_build_info:
  assumes "length bytes = 128 \<or> 0 \<in> set bytes \<and> length bytes < 128"
  shows "returns (\<lambda>_. True) (c_string ((overlay bytes (unset 128))[127 := Some 0]))"
proof (cases "length bytes = 128")
  case True
  then show ?thesis by (intro c_string_last_cleared set_overlay) (simp_all add: unset_def)
next
  case False
  with assms obtain xs ys where b: "bytes = xs @ 0 # ys" "length bytes < 128" by (meson split_list)
  then have o: "overlay bytes (unset 128) = map Some xs @ Some 0 # (map Some ys @ replicate (128 - length bytes) None)"
    by (simp add: overlay_def unset_def)
  from c_string_terminated_update [of "map Some xs" 127] b show ?thesis unfolding o by simp
qed

lemma version_returns:
  assumes "answering (ue_ec env)" "ec_var_ok env ec"
  shows "returns (quiet env) (cmd_ec_version env ec argv)"
  unfolding cmd_ec_version_def quiet_def
proof (rule with_ec_ok [OF assms(2)], rule request_case [OF assms(1)], goal_cases)
  case (3 dev rv r st)
  obtain rv2 b st2 where q: "request EC_CMD_GET_BUILD_INFO 0 [] (unset 128) st = ((rv2, b), st2)" by (metis prod.exhaust)
  have talks: "talks_to (ue_ec env) (fst st)" using 3(2) by (simp add: answered_def)
  note a = request_answered [OF assms(1) talks q]
  show ?case
  proof (cases "rv = 0 \<and> rv2 = 0")
    case True
    with a(5) obtain bytes where bytes: "b = overlay bytes (unset 128)" "length bytes = 128 \<or> 0 \<in> set bytes \<and> length bytes < 128"
      by (auto simp: unset_def)
    have set: "None \<notin> set r" using 3(2) True by (simp add: answered_def)
    then have part: "None \<notin> set (bytes_at off n r)" for off n
      using set_take_subset [of n "drop off r"] set_drop_subset [of off r] by (auto simp: bytes_at_def)
    have len: "length (bytes_at 0 32 r) = 32" "length (bytes_at 32 32 r) = 32" using 3(3) by (simp_all add: bytes_at_def unset_def)
    show ?thesis using True a(1)
      by (auto simp: q bytes intro!: returns_bind [OF c_string_last_cleared [OF part]] returns_bind [OF get_le_set [OF set]]
          returns_bind [OF c_string_build_info [OF bytes(2)]] simp: len)
  next
    case False
    then show ?thesis using 3(2) a(1,2) by (auto simp: q answered_def)
  qed
qed (auto simp: EC_CMD_GET_VERSION_def EC_CMD_GET_BUILD_INFO_def)

lemma gpioget_by_name_returns:
  assumes "answering c" "talks_to c (fst st)"
  shows "returns (\<lambda>(rv, st'). rv \<le> 0 \<and> talks_to c (fst st')) (gpioget_by_name junk name st)"
proof (cases "32 < length name + 1")
  case True
  with assms(2) show ?thesis by (simp add: gpioget_by_name_def)
next
  case False
  then show ?thesis unfolding gpioget_by_name_def if_not_P [OF False]
    by (intro request_case [OF assms])
      (auto simp: answered_def EC_CMD_GPIO_GET_def EC_CMD_GET_BUILD_INFO_def intro!: returns_bind [OF get_le_set])
qed

text \<open>The signals one by one have texts in their responses; the value of one and their number have not.\<close>

lemma gpioget_returns:
  assumes "answering (ue_ec env)" "ec_var_ok env ec" "gpio_subcmd argv \<noteq> EC_GPIO_GET_INFO"
  shows "returns (quiet env) (cmd_ec_gpioget junk env ec argv)"
proof -
  have sub: "gpio_subcmd argv = EC_GPIO_GET_BY_NAME \<or> gpio_subcmd argv = EC_GPIO_GET_COUNT"
    using assms(3) by (auto simp: gpio_subcmd_def split: if_splits)
  have count: "returns (\<lambda>(rv, st'). rv \<le> 0 \<and> talks_to (ue_ec env) (fst st'))
      (case request EC_CMD_GPIO_GET 1 p (unset 37) (dev, []) of
         ((rv, r_v1), st) \<Rightarrow> if rv < 0 then Inr (rv, st) else and_then (get_le 0 1 r_v1) (\<lambda>count. Inr (0, say (msg count) st)))"
    if "talks_to (ue_ec env) dev" for p dev msg
    by (rule request_case [OF assms(1)])
      (use that in \<open>auto simp: answered_def EC_CMD_GPIO_GET_def EC_CMD_GET_BUILD_INFO_def intro!: returns_bind [OF get_le_set]\<close>)
  have ne: "EC_GPIO_GET_COUNT \<noteq> EC_GPIO_GET_BY_NAME" by (simp add: EC_GPIO_GET_BY_NAME_def EC_GPIO_GET_COUNT_def)
  show ?thesis unfolding cmd_ec_gpioget_def quiet_def
  proof (rule with_ec_ok [OF assms(2)], goal_cases)
    case (1 dev)
    from sub show ?case
    proof
      assume c: "gpio_subcmd argv = EC_GPIO_GET_COUNT"
      show ?thesis unfolding c simp_thms(6) if_True using 1 ne count [OF 1] by simp
    qed (use 1 gpioget_by_name_returns [OF assms(1)] in simp)
  qed
qed


text \<open>A machine with nothing but the controller, and a controller that answers with zeros.\<close>

definition demo_env :: "'e ec_calls \<Rightarrow> (nor_chip, 'e) updater_env" where
  "demo_env c = \<lparr>ue_fdt = (\<lambda>_. None), ue_files = (\<lambda>_. None), ue_alloc = (\<lambda>_. True), ue_calloc = True,
     ue_shared = \<lparr>sl_magic = 0, sl_magic_at = 0, sl_firmware_index_at = 0\<rparr>,
     ue_gbb = \<lparr>gl_signature = [], gl_sizeof = 0, gl_signature_at = 0, gl_rootkey_offset_at = 0, gl_rootkey_size_at = 0\<rparr>,
     ue_mtd = chip_calls, ue_mtd_open = (\<lambda>_. None), ue_ec = c, ue_ec_open = (\<lambda>_. None)\<rparr>"

definition demo_ec_dev :: "'e ec_calls \<Rightarrow> 'e \<Rightarrow> 'e ec_dev" where
  "demo_ec_dev c k = \<lparr>fd_ops = flash_ec_ops c (\<lambda>_. None) True (\<lambda>_. True),
     fd_priv = \<lparr>ed_fd = 3, ed_proto = replicate 12 0, ed_info = replicate 24 0, ed_ro_region = replicate 8 0, ed_kernel = k\<rparr>,
     fd_fmap = None, fd_gbb = None, fd_gbb_size = 0, fd_total_size = 0, fd_write_size = 1, fd_erase_size = 1\<rparr>"

definition zero_ec :: "nat ec_calls" where
  "zero_ec = \<lparr>ec_ioctl = (\<lambda>cmd ver out n k. ((0, 0, replicate n 0), Suc k)), ec_errno = (\<lambda>_. 5)\<rparr>"

lemma demo_ec_dev_ok [simp]: "ue_ec (demo_env c) = c" "ec_var_ok (demo_env c) (Some (demo_ec_dev c k))" "talks_to c (demo_ec_dev c k)"
  by (simp_all add: demo_env_def ec_var_ok_def talks_to_def demo_ec_dev_def flash_ec_ops_def)


subsection \<open>The console\<close>

text \<open>
  What is documented for the console: a snapshot takes what is logged, and each read gives its next chunk as a string with its NUL, which
  is empty when nothing is left.
\<close>

definition console_source :: "'e ec_calls \<Rightarrow> ('e \<Rightarrow> u8 list list) \<Rightarrow> ('e \<Rightarrow> u8 list list) \<Rightarrow> bool" where
  "console_source c log left \<longleftrightarrow>
     (\<forall>k. \<exists>r k'. ec_ioctl c EC_CMD_CONSOLE_SNAPSHOT 0 [] 0 k = ((0, 0, r), k') \<and> left k' = log k) \<and>
     (\<forall>k t ts. left k = t # ts \<longrightarrow> t \<noteq> [] \<and> 0 \<notin> set t \<and> length t < 128 \<and>
        (\<exists>pad k'. ec_ioctl c EC_CMD_CONSOLE_READ 0 [] 128 k = ((0, 0, t @ 0 # pad), k') \<and> left k' = ts)) \<and>
     (\<forall>k. left k = [] \<longrightarrow> (\<exists>pad k'. ec_ioctl c EC_CMD_CONSOLE_READ 0 [] 128 k = ((0, 0, 0 # pad), k')))"

definition ec_text :: "u8 list \<Rightarrow> string" where
  "ec_text bs = map (\<lambda>b. char_of (unat b)) bs"

definition with_kernel :: "'e ec_dev \<Rightarrow> 'e \<Rightarrow> 'e ec_dev" where
  "with_kernel dev k = dev\<lparr>fd_priv := (fd_priv dev)\<lparr>ed_kernel := k\<rparr>\<rparr>"

lemma with_kernel_simps [simp]:
  "with_kernel (with_kernel dev k) k' = with_kernel dev k'" "talks_to c (with_kernel dev k) = talks_to c dev"
  "ed_fd (fd_priv (with_kernel dev k)) = ed_fd (fd_priv dev)" "ed_kernel (fd_priv (with_kernel dev k)) = k"
  by (simp_all add: with_kernel_def talks_to_def)

lemma request_success:
  assumes "talks_to c dev" "0 \<le> ed_fd (fd_priv dev)"
    and "ec_ioctl c cmd ver odata (length buf) (ed_kernel (fd_priv dev)) = ((0, 0, bytes), k)"
  shows "request cmd ver odata buf (dev, out) = ((0, overlay bytes buf), (with_kernel dev k, out))"
  using assms by (simp add: request_def flash_cmd_def talks_to_def ec_command_def with_kernel_def)

lemma c_string_chunk: "0 \<notin> set t \<Longrightarrow> c_string (map Some t @ Some 0 # ys) = Inr (ec_text t)"
  by (induction t) (auto simp: ec_text_def)

lemma overlay_append:
  assumes "length t < length buf"
  shows "\<exists>zs. overlay (t @ b # pad) buf = map Some t @ Some b # zs"
proof -
  obtain n where "length buf - length t = Suc n" using assms by (metis Suc_diff_Suc)
  then show ?thesis using assms by (simp add: overlay_def)
qed

lemma update_chunk:
  assumes "length xs \<le> i"
  shows "\<exists>ys. (xs @ x # zs)[i := x] = xs @ x # ys"
proof -
  obtain k where "i = length xs + k" using assms le_Suc_ex by blast
  then show ?thesis by (cases k) (simp_all add: list_update_append)
qed

lemma overlay_chunk:
  assumes "0 \<notin> set t" "length t < 128" "t \<noteq> []"
  shows "c_string ((overlay (t @ 0 # pad) (replicate 128 (Some 0)))[127 := Some 0]) = Inr (ec_text t)"
    "overlay (t @ 0 # pad) (replicate 128 (Some 0)) ! 0 \<noteq> Some 0"
proof -
  obtain zs where o: "overlay (t @ 0 # pad) (replicate 128 (Some 0)) = map Some t @ Some 0 # zs"
    using overlay_append [of t "replicate 128 (Some 0)"] assms(2) by fastforce
  obtain ys where "(map Some t @ Some 0 # zs)[127 := Some 0] = map Some t @ Some (0 :: u8) # ys"
    using update_chunk [of "map Some t" 127] assms(2) by fastforce
  with c_string_chunk [OF assms(1)] show "c_string ((overlay (t @ 0 # pad) (replicate 128 (Some 0)))[127 := Some 0]) = Inr (ec_text t)"
    unfolding o by simp
  show "overlay (t @ 0 # pad) (replicate 128 (Some 0)) ! 0 \<noteq> Some 0"
    unfolding o using assms(1,3) by (cases t) auto
qed

lemma console_loop_prints:
  assumes src: "console_source c log left"
  shows "talks_to c dev \<Longrightarrow> 0 \<le> ed_fd (fd_priv dev) \<Longrightarrow> left (ed_kernel (fd_priv dev)) = ts \<Longrightarrow>
    \<exists>k. console_loop (dev, out) = Some (Inr (0, (with_kernel dev k, out @ ec_text (concat ts) @ newline)))"
proof (induction ts arbitrary: dev out)
  case Nil
  from src Nil.prems(3) obtain pad k where
    io: "ec_ioctl c EC_CMD_CONSOLE_READ 0 [] (length (replicate 128 (Some (0 :: u8)))) (ed_kernel (fd_priv dev)) = ((0, 0, 0 # pad), k)"
    unfolding console_source_def by fastforce
  have "overlay (0 # pad) (replicate 128 (Some 0)) ! 0 = Some (0 :: u8)"
    using overlay_append [of "[]" "replicate 128 (Some (0 :: u8))" 0 pad] by auto
  then show ?case
    by (subst console_loop.simps) (simp add: request_success [OF Nil.prems(1,2) io] say_def ec_text_def; blast)
next
  case (Cons t ts)
  from src Cons.prems(3) obtain pad k where t: "t \<noteq> []" "0 \<notin> set t" "length t < 128" and
    io: "ec_ioctl c EC_CMD_CONSOLE_READ 0 [] (length (replicate 128 (Some (0 :: u8)))) (ed_kernel (fd_priv dev)) = ((0, 0, t @ 0 # pad), k)"
    and left: "left k = ts"
    unfolding console_source_def by fastforce
  obtain k' where "console_loop (with_kernel dev k, out @ ec_text t) =
      Some (Inr (0, (with_kernel dev k', (out @ ec_text t) @ ec_text (concat ts) @ newline)))"
    using Cons.IH [of "with_kernel dev k" "out @ ec_text t"] Cons.prems(1,2) left by auto
  then show ?case
    by (subst console_loop.simps)
      (simp add: request_success [OF Cons.prems(1,2) io] overlay_chunk [OF t(2,3,1)] say_def ec_text_def; blast)
qed

text \<open>
  C24. The console command prints the whole snapshot. With a controller that keeps what is documented for the console, whatever the
  chunks are into which it cuts the snapshot, the command takes the snapshot first, prints all of its chunks in order and a newline, ends,
  and returns 0; of the device only the controller has changed.
\<close>

theorem console_prints_snapshot:
  assumes "console_source c log left" "talks_to c dev" "0 \<le> ed_fd (fd_priv dev)"
  shows "\<exists>k. cmd_ec_console env (Some dev) argv =
    Inr (0, Some (with_kernel dev k), ec_text (concat (log (ed_kernel (fd_priv dev)))) @ newline)"
proof -
  obtain r k where io: "ec_ioctl c EC_CMD_CONSOLE_SNAPSHOT 0 [] (length ([] :: u8 option list)) (ed_kernel (fd_priv dev)) = ((0, 0, r), k)"
    and left: "left k = log (ed_kernel (fd_priv dev))"
    using assms(1) unfolding console_source_def by fastforce
  obtain k' where "console_loop (with_kernel dev k, []) =
      Some (Inr (0, (with_kernel dev k', ec_text (concat (log (ed_kernel (fd_priv dev)))) @ newline)))"
    using console_loop_prints [OF assms(1), of "with_kernel dev k" _ "[]"] assms(2,3) left by auto
  then show ?thesis
    by (simp add: cmd_ec_console_def with_ec_def get_ec_def request_success [OF assms(2,3) io]; blast)
qed

text \<open>A controller with two chunks in its log; its state is the number of chunks that are left to read.\<close>

definition log_left :: "nat \<Rightarrow> u8 list list" where
  "log_left k = (if k = 0 then [] else if k = 1 then [[33]] else [[72, 105], [33]])"

definition log_ec :: "nat ec_calls" where
  "log_ec = \<lparr>ec_ioctl = (\<lambda>cmd ver out n k.
       if cmd = EC_CMD_CONSOLE_SNAPSHOT then ((0, 0, []), 2)
       else ((0, 0, (case log_left k of [] \<Rightarrow> [] | t # ts \<Rightarrow> t) @ [0]), min k 2 - 1)),
     ec_errno = (\<lambda>_. 5)\<rparr>"

lemma log_ec_source: "console_source log_ec (\<lambda>_. [[72, 105], [33]]) log_left"
proof -
  have "EC_CMD_CONSOLE_READ \<noteq> EC_CMD_CONSOLE_SNAPSHOT" by (simp add: EC_CMD_CONSOLE_READ_def EC_CMD_CONSOLE_SNAPSHOT_def)
  then show ?thesis by (auto simp: console_source_def log_ec_def log_left_def)
qed

theorem console_prints_snapshot_witness:
  "\<exists>k. cmd_ec_console (demo_env log_ec) (Some (demo_ec_dev log_ec 0)) [''console''] =
    Inr (0, Some (with_kernel (demo_ec_dev log_ec 0) k), ''Hi!'' @ newline)"
proof -
  have "0 \<le> ed_fd (fd_priv (demo_ec_dev log_ec 0))" by (simp add: demo_ec_dev_def)
  moreover have "ec_text (concat [[72, 105], [33]]) = ''Hi!''" by code_simp
  ultimately show ?thesis
    using console_prints_snapshot [OF log_ec_source demo_ec_dev_ok(3), of 0 "demo_env log_ec" "[''console'']"] by simp
qed

subsection \<open>What goes wrong\<close>

text \<open>
  C25. A refusal is reported as success. When the call goes through and the controller refuses to set a signal, with a positive result,
  the command prints that the signal was set and returns 0.
\<close>

theorem gpioset_refusal_reported_done:
  assumes "talks_to c dev" "0 \<le> ed_fd (fd_priv dev)"
    and "\<And>odata k. \<exists>r result bytes k'. ec_ioctl c EC_CMD_GPIO_SET 0 odata 0 k = ((r, result, bytes), k') \<and> 0 \<le> r \<and> 0 < sint result"
    and "length name < 32" "strtol 0 arg = (v, [])"
  shows "\<exists>k. cmd_ec_gpioset junk env (Some dev) [tool, name, arg] =
    Inr (0, Some (with_kernel dev k), ''GPIO '' @ name @ '' set to '' @ show_nat (unat (of_int v :: u8)) @ newline)"
proof -
  define p where "p = filled junk 33 [(0, bytes_of name @ [0]), (32, [of_int v])]"
  obtain r result bytes k where "ec_ioctl c EC_CMD_GPIO_SET 0 p 0 (ed_kernel (fd_priv dev)) = ((r, result, bytes), k)" "0 \<le> r" "0 < sint result"
    using assms(3) by blast
  then have "request EC_CMD_GPIO_SET 0 p [] (dev, []) = ((sint result, overlay bytes []), (with_kernel dev k, []))" "\<not> sint result < 0"
    using assms(1,2) by (auto simp: request_def flash_cmd_def talks_to_def ec_command_def with_kernel_def)
  then show ?thesis using assms(4,5) by (auto simp: cmd_ec_gpioset_def with_ec_def get_ec_def p_def say_def)
qed

text \<open>A controller that denies access.\<close>

definition denying_ec :: "nat ec_calls" where
  "denying_ec = \<lparr>ec_ioctl = (\<lambda>cmd ver out n k. ((0, 4, []), k)), ec_errno = (\<lambda>_. 5)\<rparr>"

theorem gpioset_refusal_reported_done_witness:
  "\<exists>k. cmd_ec_gpioset (\<lambda>_. 0) (demo_env denying_ec) (Some (demo_ec_dev denying_ec 0)) [''gpioset'', ''EN'', ''1''] =
    Inr (0, Some (with_kernel (demo_ec_dev denying_ec 0) k), ''GPIO EN set to 1'' @ newline)"
proof -
  have d: "0 \<le> ed_fd (fd_priv (demo_ec_dev denying_ec 0))" by (simp add: demo_ec_dev_def)
  have io: "\<exists>r result bytes k'. ec_ioctl denying_ec EC_CMD_GPIO_SET 0 odata 0 k = ((r, result, bytes), k') \<and> 0 \<le> r \<and> 0 < sint result" for odata k
    by (simp add: denying_ec_def)
  have v: "strtol 0 ''1'' = (1, [])" "show_nat (unat (of_int 1 :: u8)) = ''1''" by code_simp+
  show ?thesis
    using gpioset_refusal_reported_done [OF demo_ec_dev_ok(3) d io, of "''EN''" "''1''" 1 "\<lambda>_. 0" "demo_env denying_ec" "''gpioset''"] v by simp
qed

text \<open>While the charger cannot be read, the wait for its conversion has no end: a failed read counts as a conversion that still runs.\<close>

lemma conversion_wait_endless:
  assumes "talks_to c (fst st)" and gone: "\<And>odata n k. \<exists>r result bytes k'.
      ec_ioctl c EC_CMD_I2C_READ 0 odata n k = ((r, result, bytes), k') \<and> r < 0 \<and> 0 < ec_errno c k'"
  shows "conversion_wait st = None"
proof (rule ccontr)
  assume "conversion_wait st \<noteq> None"
  then obtain y where y: "conversion_wait st = Some y" by blast
  have fails: "\<exists>rv st'. bq25892_read reg s = Inr ((rv, -1), st') \<and> rv < 0 \<and> talks_to c (fst st')" if t: "talks_to c (fst s)" for reg s
  proof -
    define p where "p = le_bytes 2 BQ2589X_ADDR @ [8, 0, of_nat reg]"
    obtain r result bytes k' where "ec_ioctl c EC_CMD_I2C_READ 0 p 2 (ed_kernel (fd_priv (fst s))) = ((r, result, bytes), k')" "r < 0" "0 < ec_errno c k'"
      using gone by blast
    then show ?thesis using t
      by (cases s) (auto simp: bq25892_read_def i2c_read_def request_def flash_cmd_def talks_to_def ec_command_def unset_def ENODEV_def p_def)
  qed
  define P where "P (s :: 'a dbg_state) (y :: dbg_fault + 'a dbg_state) \<longleftrightarrow> \<not> talks_to c (fst s)" for s y
  have "P st y"
  proof (rule conversion_wait.raw_induct [OF _ y, of P], goal_cases)
    case (1 loop s y)
    show ?case unfolding P_def
    proof
      assume "talks_to c (fst s)"
      from fails [OF this] obtain rv s' where "bq25892_read BQ2589X_REG_CFG1 s = Inr ((rv, -1), s')" "rv < 0" "talks_to c (fst s')" by blast
      with 1(2) have "loop s' = Some y" by simp
      from 1(1) [OF this] \<open>talks_to c (fst s')\<close> show False by (simp add: P_def)
    qed
  qed
  with assms(1) show False by (simp add: P_def)
qed

text \<open>
  The texts of the battery have 8 bytes, but 9 are read: a text of 8 bytes takes the place of the NUL with the first byte of its neighbour, and
  when that is not 0 the text is printed past the array.
\<close>

lemma battery_text_unterminated:
  assumes "talks_to c dev" "0 \<le> ed_fd (fd_priv dev)"
    and "ec_ioctl c EC_CMD_READ_MEMMAP 0 [of_nat offset, 9] (length buf) (ed_kernel (fd_priv dev)) = ((0, 0, bytes), k)"
    and "length buf = EC_MEMMAP_TEXT_MAX + 1" "length bytes = EC_MEMMAP_TEXT_MAX + 1" "0 \<notin> set bytes"
  shows "battery_text offset labels buf (dev, out) = Inl Unterminated"
proof -
  have "c_string (map Some bs) = Inl Unterminated" if "0 \<notin> set bs" for bs using that by (induction bs) auto
  then show ?thesis using request_success [OF assms(1,2,3)] assms(4-6)
    by (simp add: battery_text_def ec_readmem_def overlay_def EC_MEMMAP_TEXT_MAX_def)
qed

text \<open>A digest that the controller reports as longer than 64 bytes is read past the end of the response.\<close>

lemma hash_print_overread:
  assumes "None \<notin> set r" "get_le 0 1 r = Inr EC_VBOOT_HASH_STATUS_DONE" "get_le 2 1 r = Inr n" "64 < n"
  shows "ec_hash_print r st = Inl Digest_Overread"
proof -
  have g: "\<exists>v. get_le off m r = Inr v" "\<exists>bs. get_bytes off m r = Inr bs" for off m
    using get_le_set [OF assms(1), of off m] get_bytes_set [OF assms(1), of off m] by (auto simp: returns_ex)
  obtain a b d where v: "get_le 1 1 r = Inr a" "get_le 4 4 r = Inr b" "get_le 8 4 r = Inr d" using g(1) by meson
  obtain bs where "get_bytes 12 (min 64 n) r = Inr bs" using g(2) by blast
  then have "hash_digest r n = Inl Digest_Overread" using assms(4) by (simp add: hash_digest_def)
  then show ?thesis unfolding ec_hash_print_def assms(2,3) v
    by (simp add: EC_VBOOT_HASH_STATUS_DONE_def EC_VBOOT_HASH_STATUS_BUSY_def EC_VBOOT_HASH_STATUS_NONE_def)
qed

subsection \<open>The commands are reached\<close>

text \<open>Every handler is called by the name behind \<^verbatim>\<open>ec\<close>, with its arguments, and there is no other name.\<close>

lemma run_ec_command:
  "run_cmd (cmds subcmds_ec) 0 0 (tool # ''ec'' # name # args) =
     (if ''cmd_ec_'' @ name \<in> set (map fst (ec_handlers junk :: (string \<times> (('k, 'e) updater_env \<Rightarrow> _)) list))
      then Inl (''cmd_ec_'' @ name, name # args) else Inr (- ENOENT))"
  by (simp add: cmds_def subcmds_ec_def CMD_def SUBCMDS_def ec_handlers_def)

text \<open>Each kind of option of \<^verbatim>\<open>usbpd\<close> is accepted once: what is set stays.\<close>

lemma usbpd_options_keep:
  assumes "usbpd_options argc as role mux swap = Some (role', mux', swap')" "argc \<noteq> 3"
  shows "(role \<noteq> 0 \<longrightarrow> role' = role) \<and> (mux \<noteq> 0 \<longrightarrow> mux' = mux) \<and> (swap \<noteq> 0 \<longrightarrow> swap' = swap)"
  using assms
proof (induction "as" arbitrary: role mux swap)
  case (Cons a "as")
  then show ?case
    by (fastforce simp: USB_PD_CTRL_ROLE_NO_CHANGE_def USB_PD_CTRL_MUX_NO_CHANGE_def USB_PD_CTRL_SWAP_NONE_def split: if_splits option.splits)
qed simp

end
