(* ===== verification/Sound_Trigger.thy ===== *)
theory Sound_Trigger
  imports Dragon_Prelude
begin

text \<open>
  The sound trigger, \<^verbatim>\<open>audio/soundtrigger/sound_trigger_hw.c\<close>: one device that a client opens, loads with a model and
  lets listen, a thread that waits for the hotword, and a reader of the samples that follow. The functions
  hold a lock, so the sections between taking and giving it are the atomic steps of the model. A function
  that waits for the thread is two steps. What the sound devices answer are arguments.
\<close>

subsection \<open>State\<close>

text \<open>
  What goes wrong outside a return code: a control of a closed mixer is set, a descriptor is closed that the
  device does not own, a second thread is started next to a running one, a PCM is closed that is not open.
\<close>

datatype st_fault = Closed_Mixer | Foreign_Close int | Second_Thread | No_Pcm

text \<open>The parts of the structures of \<^verbatim>\<open>system/sound_trigger.h\<close> that are read or set.\<close>

record phrase_extra =
  px_id :: nat
  px_confidence_level :: nat
  px_num_levels :: nat
  px_levels :: "(nat \<times> nat) list"

record recognition_config =
  rc_capture_requested :: bool
  rc_num_phrases :: nat
  rc_phrases :: "phrase_extra list"

text \<open>The callback thread: before its first section, in \<^verbatim>\<open>poll\<close>, in the callback, after its end.\<close>

datatype thread_pc = Not_Running | Starting | Polling | Delivering nat | Finished

datatype client_pc = Idle | Join_Unload | Join_Stop

text \<open>
  \<^verbatim>\<open>struct dragon_sound_trigger_device\<close>, with the callback and its cookie as one value, the mixer as whether it
  is open, the value of the microphone switch, and the PCM as whether it is open. The last fields are the thread,
  the client, the descriptors that are open and whether a byte waits in the socket.
\<close>

record st_dev =
  sd_model_handle :: int
  sd_recognition :: "nat option"
  sd_sound_model_callback :: "nat option"
  sd_send_sock :: int
  sd_term_sock :: int
  sd_mixer :: bool
  sd_int_mic_sw :: int
  sd_hotword_model :: bool
  sd_config :: "recognition_config option"
  sd_pcm :: bool
  sd_is_streaming :: bool
  sd_opened :: bool
  sd_thread :: thread_pc
  sd_client :: client_pc
  sd_fds :: "int list"
  sd_message :: bool

definition g_stdev :: st_dev where
  "g_stdev = \<lparr>sd_model_handle = 0, sd_recognition = None, sd_sound_model_callback = None, sd_send_sock = 0, sd_term_sock = 0,
     sd_mixer = False, sd_int_mic_sw = 0, sd_hotword_model = False, sd_config = None, sd_pcm = False, sd_is_streaming = False,
     sd_opened = False, sd_thread = Not_Running, sd_client = Idle, sd_fds = [], sd_message = False\<rparr>"

definition ST_EINVAL :: int where "ST_EINVAL = 22"
definition ST_ENOSYS :: int where "ST_ENOSYS = 38"
definition ST_ENOMEM :: int where "ST_ENOMEM = 12"
definition ST_EFAULT :: int where "ST_EFAULT = 14"
definition ST_EBUSY :: int where "ST_EBUSY = 16"

subsection \<open>Mixer and sockets\<close>

definition stdev_dsp_set_power :: "int \<Rightarrow> st_dev \<Rightarrow> st_fault + st_dev" where
  "stdev_dsp_set_power val st =
     (if \<not> sd_mixer st then Inl Closed_Mixer else Inr (st\<lparr>sd_is_streaming := False, sd_int_mic_sw := val\<rparr>))"

text \<open>\<open>mixer\<close>, \<open>mic\<close> and \<open>hotword\<close>: whether the mixer opens and has the two controls.\<close>

definition stdev_init_mixer :: "bool \<Rightarrow> bool \<Rightarrow> bool \<Rightarrow> st_dev \<Rightarrow> st_fault + int \<times> st_dev" where
  "stdev_init_mixer mixer mic hotword st =
     (if \<not> mixer \<or> \<not> mic then Inr (- 1, st\<lparr>sd_mixer := False\<rparr>)
      else and_then (stdev_dsp_set_power 0 (st\<lparr>sd_mixer := True, sd_hotword_model := hotword\<rparr>)) (\<lambda>st'. Inr (0, st')))"

definition close_fd :: "int \<Rightarrow> st_dev \<Rightarrow> st_fault + st_dev" where
  "close_fd fd st = (if fd \<in> set (sd_fds st) then Inr (st\<lparr>sd_fds := remove1 fd (sd_fds st)\<rparr>) else Inl (Foreign_Close fd))"

definition stdev_close_term_sock :: "st_dev \<Rightarrow> st_fault + st_dev" where
  "stdev_close_term_sock st =
     and_then
       (if 0 \<le> sd_send_sock st then and_then (close_fd (sd_send_sock st) st) (\<lambda>st1. Inr (st1\<lparr>sd_send_sock := - 1\<rparr>)) else Inr st)
       (\<lambda>st1. if 0 \<le> sd_term_sock st1
              then and_then (close_fd (sd_term_sock st1) st1) (\<lambda>st2. Inr (st2\<lparr>sd_term_sock := - 1\<rparr>)) else Inr st1)"

definition stdev_close_mixer :: "st_dev \<Rightarrow> st_fault + st_dev" where
  "stdev_close_mixer st =
     and_then (stdev_dsp_set_power 0 st) (\<lambda>st1. stdev_close_term_sock (st1\<lparr>sd_mixer := False\<rparr>))"

subsection \<open>The event\<close>

record recognition_event =
  ev_model :: int
  ev_capture_available :: bool
  ev_sample_rate :: nat
  ev_num_phrases :: nat
  ev_phrase_extras :: "phrase_extra list"

definition no_phrase :: "nat \<Rightarrow> phrase_extra" where
  "no_phrase max_users = \<lparr>px_id = 0, px_confidence_level = 0, px_num_levels = 0, px_levels = replicate max_users (0, 0)\<rparr>"

text \<open>
  The phrases of the configuration are copied, and then the first one is set to full confidence.
  \<open>max_phrases\<close> and \<open>max_users\<close> are the sizes of the arrays. The fields that are set to constants of the header (the
  status, the type, the format and the channel mask) are left out.
\<close>

definition sound_trigger_event_alloc :: "nat \<Rightarrow> nat \<Rightarrow> st_dev \<Rightarrow> recognition_event" where
  "sound_trigger_event_alloc max_phrases max_users st =
     (let extras0 = replicate max_phrases (no_phrase max_users);
          extras1 =
            (case sd_config st of
               None \<Rightarrow> extras0
             | Some c \<Rightarrow>
                 (let n = min (rc_num_phrases c) max_phrases in take n (rc_phrases c) @ drop n extras0));
          first = (extras1 ! 0)\<lparr>px_confidence_level := 100, px_num_levels := 1, px_levels := (px_levels (extras1 ! 0))[0 := (0, 100)]\<rparr>
      in \<lparr>ev_model = sd_model_handle st, ev_capture_available = True, ev_sample_rate = 16000, ev_num_phrases = 1, ev_phrase_extras = extras1[0 := first]\<rparr>)"

subsection \<open>The thread\<close>

text \<open>The label \<^verbatim>\<open>exit\<close> of \<^verbatim>\<open>callback_thread_loop\<close>.\<close>

definition thread_exit :: "st_dev \<Rightarrow> st_fault + st_dev" where
  "thread_exit st =
     and_then (stdev_close_term_sock (st\<lparr>sd_recognition := None\<rparr>)) (\<lambda>st1.
     and_then
       (case sd_config st1 of
          Some c \<Rightarrow> if rc_capture_requested c then Inr st1 else stdev_dsp_set_power 0 st1
        | None \<Rightarrow> Inr st1)
       (\<lambda>st2. Inr (st2\<lparr>sd_thread := Finished\<rparr>)))"

text \<open>What \<^verbatim>\<open>pcm_open\<close> returns: nothing, an object that is not ready, or an open device.\<close>

datatype pcm_open_result = Pcm_Null | Pcm_Not_Ready | Pcm_Ready

text \<open>The first section, up to the loop.\<close>

definition thread_start :: "(int \<times> int) option \<Rightarrow> pcm_open_result \<Rightarrow> bool \<Rightarrow> bool \<Rightarrow> st_dev \<Rightarrow> st_fault + st_dev" where
  "thread_start pair opened started has_fd st =
     (if sd_recognition st = None then thread_exit st
      else case pair of
          None \<Rightarrow> thread_exit st
        | Some (a, b) \<Rightarrow>
            and_then (stdev_close_term_sock st) (\<lambda>st1.
            and_then (stdev_dsp_set_power 1 (st1\<lparr>sd_send_sock := a, sd_term_sock := b, sd_fds := a # b # sd_fds st1, sd_message := False\<rparr>)) (\<lambda>st2.
              (let st3 = st2\<lparr>sd_pcm := (opened \<noteq> Pcm_Null)\<rparr>
               in if opened \<noteq> Pcm_Ready \<or> \<not> started \<or> \<not> has_fd then thread_exit st3
                  else Inr (st3\<lparr>sd_thread := Polling\<rparr>)))))"

definition close_pcm :: "st_dev \<Rightarrow> st_dev" where
  "close_pcm st = (if sd_pcm st then st\<lparr>sd_pcm := False\<rparr> else st)"

text \<open>
  One round of the loop: the result of \<^verbatim>\<open>poll\<close>, what is ready, and whether the event can be allocated.
\<close>

definition thread_poll :: "int \<Rightarrow> bool \<Rightarrow> bool \<Rightarrow> bool \<Rightarrow> st_dev \<Rightarrow> st_fault + st_dev" where
  "thread_poll err pcm_in term_in alloc st =
     (if err < 0 then thread_exit (close_pcm st)
      else case sd_recognition st of
          None \<Rightarrow> thread_exit (close_pcm st)
        | Some cookie \<Rightarrow>
            if pcm_in then
              if \<not> alloc then (if sd_pcm st then thread_exit (close_pcm st) else Inl No_Pcm)
              else Inr (st\<lparr>sd_is_streaming := True, sd_thread := Delivering cookie\<rparr>)
            else if term_in then thread_exit (close_pcm (st\<lparr>sd_message := False\<rparr>))
            else Inr st)"

text \<open>The callback has returned. The PCM stays open for streaming.\<close>

definition thread_delivered :: "st_dev \<Rightarrow> st_fault + st_dev" where
  "thread_delivered st = thread_exit st"

definition thread_active :: "st_dev \<Rightarrow> bool" where
  "thread_active st \<longleftrightarrow> sd_thread st \<noteq> Not_Running \<and> sd_thread st \<noteq> Finished"

subsection \<open>The functions of the device\<close>

text \<open>\<open>ctl\<close> is what setting the control with the model returns.\<close>

definition stdev_load_sound_model :: "bool \<Rightarrow> int \<Rightarrow> nat option \<Rightarrow> st_dev \<Rightarrow> st_fault + int \<times> st_dev" where
  "stdev_load_sound_model args_ok ctl callback st =
     Inr (if \<not> args_ok then (- ST_EINVAL, st)
          else if sd_model_handle st = 1 then (- ST_ENOSYS, st)
          else if ctl \<noteq> 0 then (ctl, st)
          else (0, st\<lparr>sd_model_handle := 1, sd_sound_model_callback := callback\<rparr>))"

text \<open>The label \<^verbatim>\<open>exit\<close> of unloading and stopping, which switches the microphone off whatever the status.\<close>

definition power_off :: "int \<Rightarrow> st_dev \<Rightarrow> st_fault + int \<times> st_dev" where
  "power_off status st = and_then (stdev_dsp_set_power 0 st) (\<lambda>st'. Inr (status, st'))"

text \<open>The callback is taken away and the thread is told; the client waits for it.\<close>

definition tell_thread :: "client_pc \<Rightarrow> st_dev \<Rightarrow> st_dev" where
  "tell_thread pc st =
     st\<lparr>sd_recognition := None, sd_message := (if 0 \<le> sd_send_sock st then True else sd_message st), sd_client := pc\<rparr>"

definition stdev_unload_sound_model :: "int \<Rightarrow> st_dev \<Rightarrow> st_fault + int \<times> st_dev" where
  "stdev_unload_sound_model handle st =
     (if handle \<noteq> 1 then power_off (- ST_EINVAL) st
      else if sd_model_handle st = 0 then power_off (- ST_ENOSYS) st
      else
        (let st1 = st\<lparr>sd_model_handle := 0, sd_config := None\<rparr>
         in if sd_recognition st1 \<noteq> None then Inr (0, tell_thread Join_Unload st1) else power_off 0 st1))"

text \<open>\<open>callback\<close> stands for the callback, which is not NULL, and its cookie. The new thread is \<open>Starting\<close>.\<close>

definition stdev_start_recognition :: "int \<Rightarrow> recognition_config option \<Rightarrow> nat \<Rightarrow> bool \<Rightarrow> st_dev \<Rightarrow> st_fault + int \<times> st_dev" where
  "stdev_start_recognition handle config callback malloc_ok st =
     (if sd_model_handle st \<noteq> handle then Inr (- ST_ENOSYS, st)
      else if sd_recognition st \<noteq> None then Inr (- ST_ENOSYS, st)
      else if config \<noteq> None \<and> \<not> malloc_ok then Inr (- ST_ENOMEM, st\<lparr>sd_config := None\<rparr>)
      else
        and_then (stdev_dsp_set_power 0 (close_pcm (st\<lparr>sd_config := config\<rparr>))) (\<lambda>st1.
          if thread_active st1 then Inl Second_Thread
          else Inr (0, st1\<lparr>sd_recognition := Some callback, sd_thread := Starting\<rparr>)))"

definition stdev_stop_recognition :: "int \<Rightarrow> st_dev \<Rightarrow> st_fault + int \<times> st_dev" where
  "stdev_stop_recognition handle st =
     (if sd_model_handle st \<noteq> handle then power_off (- ST_ENOSYS) st
      else if sd_recognition st = None then power_off (- ST_ENOSYS) st
      else Inr (0, tell_thread Join_Stop (st\<lparr>sd_config := None\<rparr>)))"

text \<open>After \<^verbatim>\<open>pthread_join\<close>: the rest of unloading, and of stopping, which also closes the PCM.\<close>

definition client_joined :: "st_dev \<Rightarrow> st_fault + int \<times> st_dev" where
  "client_joined st =
     power_off 0 ((if sd_client st = Join_Stop then close_pcm st else st)\<lparr>sd_thread := Not_Running, sd_client := Idle\<rparr>)"

definition stdev_close :: "st_dev \<Rightarrow> st_fault + int \<times> st_dev" where
  "stdev_close st =
     (if \<not> sd_opened st then Inr (- ST_EFAULT, st)
      else and_then (stdev_close_mixer st) (\<lambda>st1.
             Inr (0, st1\<lparr>sd_model_handle := 0, sd_send_sock := 0, sd_term_sock := 0, sd_opened := False\<rparr>)))"

definition stdev_open :: "bool \<Rightarrow> bool \<Rightarrow> bool \<Rightarrow> bool \<Rightarrow> st_dev \<Rightarrow> st_fault + int \<times> st_dev" where
  "stdev_open name_ok mixer mic hotword st =
     (if \<not> name_ok then Inr (- ST_EINVAL, st)
      else if sd_opened st then Inr (- ST_EBUSY, st)
      else and_then (stdev_init_mixer mixer mic hotword st) (\<lambda>(ret, st1).
             if ret \<noteq> 0 then Inr (ret, st1)
             else Inr (0, st1\<lparr>sd_send_sock := - 1, sd_term_sock := - 1, sd_opened := True\<rparr>)))"

subsection \<open>Streaming\<close>

definition sound_trigger_open_for_streaming :: "st_dev \<Rightarrow> int" where
  "sound_trigger_open_for_streaming st =
     (if \<not> sd_opened st then - ST_EFAULT else if \<not> sd_is_streaming st then - ST_EBUSY
      else if \<not> sd_pcm st then - ST_EINVAL else 1)"

text \<open>
  The wait for frames: \<open>avail k\<close> is the result of call \<open>k\<close> of \<^verbatim>\<open>pcm_mmap_avail\<close>. \<open>Inl\<close> is a result of the function.
\<close>

function await_frames :: "(nat \<Rightarrow> int) \<Rightarrow> nat \<Rightarrow> int + nat" where
  "await_frames avail retry_attempts =
     (if avail retry_attempts < 0 then Inl (avail retry_attempts)
      else if avail retry_attempts = 0 then
        (if 10 < Suc retry_attempts then Inl 0 else await_frames avail (Suc retry_attempts))
      else Inr (nat (avail retry_attempts)))"
  by pat_completeness auto
termination by (relation "measure (\<lambda>(_, r). 11 - r)") auto

declare await_frames.simps [simp del]

text \<open>
  \<open>mmap n\<close> is what \<^verbatim>\<open>pcm_mmap_begin\<close> gives for \<open>n\<close> frames: its result, the bytes from the offset on, and the number of
  frames. The result is the return value before it is cast to \<^verbatim>\<open>size_t\<close>, and the bytes that were copied.
\<close>

definition sound_trigger_read_samples ::
  "int \<Rightarrow> nat \<Rightarrow> (nat \<Rightarrow> int) \<Rightarrow> (nat \<Rightarrow> int \<times> u8 list \<times> nat) \<Rightarrow> st_dev \<Rightarrow> int \<times> u8 list" where
  "sound_trigger_read_samples audio_handle buffer_len avail mmap st =
     (if audio_handle \<le> 0 then (- ST_EINVAL, [])
      else if \<not> sd_opened st then (- ST_EFAULT, [])
      else if \<not> sd_is_streaming st then (- ST_EINVAL, [])
      else if \<not> sd_pcm st then (- ST_EINVAL, [])
      else case await_frames avail 0 of
          Inl ret \<Rightarrow> (ret, [])
        | Inr frames \<Rightarrow>
            (case mmap (min frames (buffer_len div 2)) of
               (ret, bytes, n) \<Rightarrow> if ret < 0 then (ret, []) else (int n * 2, take (n * 2) bytes)))"

text \<open>Closing does not take the lock.\<close>

definition sound_trigger_close_for_streaming :: "int \<Rightarrow> st_dev \<Rightarrow> st_fault + int \<times> st_dev" where
  "sound_trigger_close_for_streaming audio_handle st =
     Inr (if audio_handle \<le> 0 then (- ST_EINVAL, st) else (0, close_pcm st))"

subsection \<open>The system\<close>

datatype st_call =
    Open bool bool bool bool
  | Close
  | Load bool int "nat option"
  | Unload int
  | Start int "recognition_config option" nat bool
  | Stop int
  | Joined
  | Thread_Start "(int \<times> int) option" pcm_open_result bool bool
  | Thread_Poll int bool bool bool
  | Thread_Delivered
  | Stream_Close int

fun st_apply :: "st_call \<Rightarrow> st_dev \<Rightarrow> st_fault + int \<times> st_dev" where
  "st_apply (Open n m c h) st = stdev_open n m c h st"
| "st_apply Close st = stdev_close st"
| "st_apply (Load ok ctl cb) st = stdev_load_sound_model ok ctl cb st"
| "st_apply (Unload h) st = stdev_unload_sound_model h st"
| "st_apply (Start h c cb ok) st = stdev_start_recognition h c cb ok st"
| "st_apply (Stop h) st = stdev_stop_recognition h st"
| "st_apply Joined st = client_joined st"
| "st_apply (Thread_Start p o' s f) st = and_then (thread_start p o' s f st) (\<lambda>st'. Inr (0, st'))"
| "st_apply (Thread_Poll e i t a) st = and_then (thread_poll e i t a st) (\<lambda>st'. Inr (0, st'))"
| "st_apply Thread_Delivered st = and_then (thread_delivered st) (\<lambda>st'. Inr (0, st'))"
| "st_apply (Stream_Close h) st = sound_trigger_close_for_streaming h st"

text \<open>
  When a step can happen. The client makes one call at a time and uses the device after opening it; it does
  not close it while it listens. The thread goes from section to section; the sockets are new descriptors,
  and a socket is ready when a byte was written to it. A thread that polls the PCM has it open.
\<close>

fun st_enabled :: "st_call \<Rightarrow> st_dev \<Rightarrow> bool" where
  "st_enabled (Open n m c h) st \<longleftrightarrow> sd_client st = Idle"
| "st_enabled Close st \<longleftrightarrow> sd_client st = Idle \<and> \<not> thread_active st"
| "st_enabled (Load ok ctl cb) st \<longleftrightarrow> sd_client st = Idle \<and> sd_opened st"
| "st_enabled (Unload h) st \<longleftrightarrow> sd_client st = Idle \<and> sd_opened st"
| "st_enabled (Start h c cb ok) st \<longleftrightarrow> sd_client st = Idle \<and> sd_opened st"
| "st_enabled (Stop h) st \<longleftrightarrow> sd_client st = Idle \<and> sd_opened st"
| "st_enabled Joined st \<longleftrightarrow> sd_client st \<noteq> Idle \<and> sd_thread st = Finished"
| "st_enabled (Thread_Start p o' s f) st \<longleftrightarrow> sd_thread st = Starting \<and>
     (case p of None \<Rightarrow> True | Some (a, b) \<Rightarrow> 0 \<le> a \<and> 0 \<le> b \<and> a \<noteq> b \<and> a \<notin> set (sd_fds st) \<and> b \<notin> set (sd_fds st))"
| "st_enabled (Thread_Poll e i t a) st \<longleftrightarrow> sd_thread st = Polling \<and> (t \<longrightarrow> sd_message st) \<and> (i \<longrightarrow> sd_pcm st)"
| "st_enabled Thread_Delivered st \<longleftrightarrow> (\<exists>c. sd_thread st = Delivering c)"
| "st_enabled (Stream_Close h) st \<longleftrightarrow> True"

inductive st_reachable :: "st_dev \<Rightarrow> bool" where
  st_init: "st_reachable g_stdev"
| st_step: "st_reachable st \<Longrightarrow> st_enabled c st \<Longrightarrow> st_apply c st = Inr (r, st') \<Longrightarrow> st_reachable st'"

text \<open>The invariant: who owns the sockets, the mixer and the thread.\<close>

definition socks_open :: "st_dev \<Rightarrow> bool" where
  "socks_open st \<longleftrightarrow> sd_fds st = [sd_send_sock st, sd_term_sock st] \<and> 0 \<le> sd_send_sock st \<and> 0 \<le> sd_term_sock st \<and>
     sd_send_sock st \<noteq> sd_term_sock st"

definition socks_closed :: "st_dev \<Rightarrow> bool" where
  "socks_closed st \<longleftrightarrow> sd_fds st = [] \<and> (sd_opened st \<longrightarrow> sd_send_sock st = - 1 \<and> sd_term_sock st = - 1)"

fun socks_ok :: "bool \<Rightarrow> int list \<Rightarrow> int \<Rightarrow> int \<Rightarrow> bool \<Rightarrow> bool" where
  "socks_ok True fds send term opened \<longleftrightarrow> fds = [send, term] \<and> 0 \<le> send \<and> 0 \<le> term \<and> send \<noteq> term"
| "socks_ok False fds send term opened \<longleftrightarrow> fds = [] \<and> (opened \<longrightarrow> send = - 1 \<and> term = - 1)"

fun loop_pc :: "thread_pc \<Rightarrow> bool" where
  "loop_pc Polling = True"
| "loop_pc (Delivering _) = True"
| "loop_pc _ = False"

fun active_pc :: "thread_pc \<Rightarrow> bool" where
  "active_pc Not_Running = False"
| "active_pc Finished = False"
| "active_pc _ = True"

text \<open>What the program counters say of the other parts: the callback, the message, the device.\<close>

fun pcs_ok :: "client_pc \<Rightarrow> thread_pc \<Rightarrow> bool \<Rightarrow> bool \<Rightarrow> bool \<Rightarrow> bool" where
  "pcs_ok Idle pc listening message opened \<longleftrightarrow> listening = active_pc pc \<and> (active_pc pc \<longrightarrow> opened)"
| "pcs_ok _ pc listening message opened \<longleftrightarrow> \<not> listening \<and> pc \<noteq> Not_Running \<and> opened \<and> (pc = Polling \<longrightarrow> message)"

definition st_inv :: "st_dev \<Rightarrow> bool" where
  "st_inv st \<longleftrightarrow>
     sd_mixer st = sd_opened st \<and> (sd_is_streaming st \<longrightarrow> sd_opened st) \<and>
     pcs_ok (sd_client st) (sd_thread st) (sd_recognition st \<noteq> None) (sd_message st) (sd_opened st) \<and>
     socks_ok (loop_pc (sd_thread st)) (sd_fds st) (sd_send_sock st) (sd_term_sock st) (sd_opened st)"

lemma thread_active_pc: "thread_active st = active_pc (sd_thread st)"
  by (cases "sd_thread st") (simp_all add: thread_active_def)

lemma loop_active: "loop_pc pc \<Longrightarrow> active_pc pc"
  by (cases pc) simp_all

lemma st_inv_socks:
  assumes "st_inv st"
  shows "loop_pc (sd_thread st) \<Longrightarrow> socks_open st" "\<not> loop_pc (sd_thread st) \<Longrightarrow> socks_closed st"
  using assms by (simp_all add: st_inv_def socks_open_def socks_closed_def)

lemma st_inv_opened:
  assumes "st_inv st" "active_pc (sd_thread st) \<or> sd_client st \<noteq> Idle"
  shows "sd_opened st" "sd_mixer st"
  using assms by (cases "sd_client st"; auto simp: st_inv_def)+

lemmas st_inv_defs = st_inv_def socks_open_def socks_closed_def

lemma st_inv_init: "st_inv g_stdev"
  by (simp add: st_inv_defs g_stdev_def)

lemma term_sock_result:
  assumes "socks_open st \<or> (socks_closed st \<and> sd_opened st)"
  shows "stdev_close_term_sock st = Inr (st\<lparr>sd_send_sock := - 1, sd_term_sock := - 1, sd_fds := []\<rparr>)"
  using assms by (auto simp: stdev_close_term_sock_def close_fd_def socks_open_def socks_closed_def)

text \<open>The end of the thread, from any of its sections.\<close>

definition exit_off :: "st_dev \<Rightarrow> bool" where
  "exit_off st \<longleftrightarrow> (case sd_config st of None \<Rightarrow> False | Some c \<Rightarrow> \<not> rc_capture_requested c)"

definition exited :: "st_dev \<Rightarrow> st_dev" where
  "exited st = st\<lparr>sd_recognition := None, sd_send_sock := - 1, sd_term_sock := - 1, sd_fds := [],
     sd_is_streaming := (sd_is_streaming st \<and> \<not> exit_off st), sd_int_mic_sw := (if exit_off st then 0 else sd_int_mic_sw st),
     sd_thread := Finished\<rparr>"

lemma thread_exit_result:
  assumes "socks_open st \<or> (socks_closed st \<and> sd_opened st)" "sd_mixer st"
  shows "thread_exit st = Inr (exited st)"
proof -
  have "socks_open (st\<lparr>sd_recognition := None\<rparr>) \<or> socks_closed (st\<lparr>sd_recognition := None\<rparr>) \<and> sd_opened (st\<lparr>sd_recognition := None\<rparr>)"
    using assms(1) by (auto simp: socks_open_def socks_closed_def)
  from term_sock_result [OF this] assms(2) show ?thesis
    by (auto simp: thread_exit_def stdev_dsp_set_power_def exited_def exit_off_def split: option.split)
qed

lemma exited_inv:
  assumes "sd_mixer st" "sd_opened st"
  shows "st_inv (exited st)"
  using assms by (cases "sd_client st") (simp_all add: st_inv_def socks_closed_def exited_def)

lemma close_pcm_fields [simp]:
  "sd_mixer (close_pcm st) = sd_mixer st" "sd_opened (close_pcm st) = sd_opened st" "sd_fds (close_pcm st) = sd_fds st"
  "sd_send_sock (close_pcm st) = sd_send_sock st" "sd_term_sock (close_pcm st) = sd_term_sock st"
  "sd_client (close_pcm st) = sd_client st" "sd_thread (close_pcm st) = sd_thread st" "sd_recognition (close_pcm st) = sd_recognition st"
  "sd_message (close_pcm st) = sd_message st" "sd_is_streaming (close_pcm st) = sd_is_streaming st" "sd_pcm (close_pcm st) = False"
  "sd_int_mic_sw (close_pcm st) = sd_int_mic_sw st" "sd_config (close_pcm st) = sd_config st"
  by (simp_all add: close_pcm_def)

text \<open>Each step keeps the invariant and does not fault.\<close>

definition st_good :: "st_fault + int \<times> st_dev \<Rightarrow> bool" where
  "st_good r \<longleftrightarrow> (case r of Inl _ \<Rightarrow> False | Inr (_, st) \<Rightarrow> st_inv st)"

lemma thread_poll_good:
  assumes "st_inv st" "st_enabled (Thread_Poll e i t a) st"
  shows "st_good (st_apply (Thread_Poll e i t a) st)"
proof -
  have s: "socks_open st" "sd_mixer st" "sd_opened st" "sd_thread st = Polling"
    using assms st_inv_opened [OF assms(1)] st_inv_socks [OF assms(1)] by simp_all
  have ex: "thread_exit (close_pcm st) = Inr (exited (close_pcm st))"
      "thread_exit (close_pcm (st\<lparr>sd_message := False\<rparr>)) = Inr (exited (close_pcm (st\<lparr>sd_message := False\<rparr>)))"
    using s by (simp_all add: thread_exit_result socks_open_def)
  have inv: "st_inv (exited (close_pcm st))" "st_inv (exited (close_pcm (st\<lparr>sd_message := False\<rparr>)))"
    using s by (simp_all add: exited_inv)
  show ?thesis
  proof (cases "e < 0 \<or> sd_recognition st = None")
    case True
    then show ?thesis using ex inv by (auto simp: st_good_def thread_poll_def split: option.split)
  next
    case False
    then obtain c where r: "\<not> e < 0" "sd_recognition st = Some c" by auto
    have "st_inv (st\<lparr>sd_is_streaming := True, sd_thread := Delivering c\<rparr>)"
      using assms r s by (cases "sd_client st") (simp_all add: st_inv_def socks_open_def)
    with r show ?thesis using ex inv assms by (simp add: st_good_def thread_poll_def)
  qed
qed

lemma thread_start_good:
  assumes inv: "st_inv st" and en: "st_enabled (Thread_Start p o' s f) st"
  shows "st_good (st_apply (Thread_Start p o' s f) st)"
proof -
  have c: "socks_closed st" "sd_mixer st" "sd_opened st" "sd_thread st = Starting" using assms st_inv_opened [OF inv] st_inv_socks [OF inv] by simp_all
  have ex: "thread_exit st = Inr (exited st)" using thread_exit_result [of st] c by simp
  show ?thesis
  proof (cases "sd_recognition st = None \<or> p = None")
    case True
    then show ?thesis using ex c by (auto simp: st_good_def thread_start_def exited_inv)
  next
    case False
    then obtain a b where p: "p = Some (a, b)" and r: "sd_recognition st \<noteq> None" by auto
    let ?st = "st\<lparr>sd_send_sock := a, sd_term_sock := b, sd_fds := [a, b], sd_message := False, sd_is_streaming := False,
      sd_int_mic_sw := 1, sd_pcm := (o' \<noteq> Pcm_Null)\<rparr>"
    have ts: "stdev_close_term_sock st = Inr (st\<lparr>sd_send_sock := - 1, sd_term_sock := - 1, sd_fds := []\<rparr>)"
      using term_sock_result [of st] c by simp
    have so: "socks_open ?st" using en p by (simp add: socks_open_def)
    then have ex': "thread_exit ?st = Inr (exited ?st)" using thread_exit_result [of ?st] c by simp
    have "st_inv (?st\<lparr>sd_thread := Polling\<rparr>)"
      using inv so r c by (cases "sd_client st") (simp_all add: st_inv_def socks_open_def)
    then show ?thesis
      using ts ex' c r p by (auto simp: st_good_def thread_start_def stdev_dsp_set_power_def Let_def exited_inv)
  qed
qed

lemma power_off_good:
  assumes "st_inv st" "sd_opened st"
  shows "st_good (power_off r st)"
  using assms by (simp add: st_good_def power_off_def stdev_dsp_set_power_def st_inv_defs)

lemma tell_thread_inv:
  assumes "st_inv st" "sd_recognition st \<noteq> None" "pc \<noteq> Idle"
  shows "st_inv (tell_thread pc st)"
proof (cases "sd_client st")
  case Idle
  then have a: "active_pc (sd_thread st)" "sd_opened st" using assms by (auto simp: st_inv_def)
  moreover have "sd_thread st = Polling \<Longrightarrow> 0 \<le> sd_send_sock st" using assms(1) by (simp add: st_inv_defs)
  moreover have "sd_thread st \<noteq> Not_Running" using a(1) by auto
  ultimately show ?thesis
    using assms(1,3) by (cases pc) (simp_all add: tell_thread_def st_inv_defs)
qed (use assms in \<open>simp_all add: st_inv_def\<close>)

lemma config_inv:
  assumes "st_inv st"
  shows "st_inv (st\<lparr>sd_config := c\<rparr>)" "st_inv (st\<lparr>sd_model_handle := h, sd_config := c\<rparr>)" "st_inv (close_pcm st)"
    "st_inv (st\<lparr>sd_model_handle := h, sd_sound_model_callback := cb\<rparr>)"
  using assms by (simp_all add: st_inv_defs)

lemma unload_good:
  assumes "st_inv st" "sd_opened st"
  shows "st_good (stdev_unload_sound_model h st)"
  unfolding stdev_unload_sound_model_def Let_def
  using power_off_good [OF assms] power_off_good [of "st\<lparr>sd_model_handle := 0, sd_config := None\<rparr>"] config_inv(2) [OF assms(1), of None 0]
    tell_thread_inv [of "st\<lparr>sd_model_handle := 0, sd_config := None\<rparr>" Join_Unload] assms
  by (simp add: st_good_def [of "Inr _"])

lemma stop_good:
  assumes "st_inv st" "sd_opened st"
  shows "st_good (stdev_stop_recognition h st)"
  using power_off_good [OF assms] config_inv(1) [OF assms(1), of None] tell_thread_inv [of "st\<lparr>sd_config := None\<rparr>" Join_Stop] assms
  by (simp add: stdev_stop_recognition_def st_good_def [of "Inr _"])

lemma start_good:
  assumes "st_inv st" "sd_opened st" "sd_client st = Idle"
  shows "st_good (stdev_start_recognition h c cb ok st)"
proof (cases "sd_recognition st = None")
  case True
  then have n: "\<not> active_pc (sd_thread st)" using assms by (simp add: st_inv_def)
  have "\<not> loop_pc (sd_thread st)" using n loop_active by blast
  then have "st_inv ((close_pcm (st\<lparr>sd_config := c\<rparr>))\<lparr>sd_is_streaming := False, sd_int_mic_sw := 0, sd_recognition := Some cb, sd_thread := Starting\<rparr>)"
    using assms by (simp add: st_inv_def socks_closed_def)
  moreover have "sd_mixer st" using assms by (simp add: st_inv_def)
  ultimately show ?thesis using assms n config_inv(1) [OF assms(1), of None]
    by (simp add: stdev_start_recognition_def st_good_def stdev_dsp_set_power_def thread_active_pc)
qed (use assms in \<open>simp add: stdev_start_recognition_def st_good_def\<close>)

lemma open_good:
  assumes "st_inv st" "sd_client st = Idle"
  shows "st_good (stdev_open n m mi h st)"
proof (cases "sd_opened st")
  case False
  then have "\<not> active_pc (sd_thread st)" using assms by (simp add: st_inv_def)
  moreover from this have "\<not> loop_pc (sd_thread st)" using loop_active by blast
  ultimately show ?thesis using False assms
    by (simp add: stdev_open_def stdev_init_mixer_def stdev_dsp_set_power_def st_good_def st_inv_def socks_closed_def)
qed (use assms in \<open>simp add: stdev_open_def st_good_def\<close>)

lemma joined_good:
  assumes "st_inv st" "sd_client st \<noteq> Idle" "sd_thread st = Finished"
  shows "st_good (client_joined st)"
proof -
  let ?st = "(if sd_client st = Join_Stop then close_pcm st else st)\<lparr>sd_thread := Not_Running, sd_client := Idle\<rparr>"
  have "sd_opened st" "sd_mixer st" using st_inv_opened [OF assms(1)] assms(2) by auto
  moreover have "sd_recognition st = None" using assms(1,2) by (cases "sd_client st") (simp_all add: st_inv_def)
  ultimately have "st_inv ?st" "sd_opened ?st" using assms(1,3) by (simp_all add: st_inv_def socks_closed_def)
  from power_off_good [OF this] show ?thesis by (simp add: client_joined_def)
qed

lemma close_good:
  assumes "st_inv st" "sd_client st = Idle" "\<not> thread_active st"
  shows "st_good (stdev_close st)"
proof (cases "sd_opened st")
  case True
  let ?st = "st\<lparr>sd_is_streaming := False, sd_int_mic_sw := 0, sd_mixer := False\<rparr>"
  have n: "\<not> active_pc (sd_thread st)" "\<not> loop_pc (sd_thread st)" using assms(3) loop_active by (auto simp: thread_active_pc)
  then have "socks_closed ?st \<and> sd_opened ?st" using assms(1) True by (simp add: st_inv_defs)
  then have "stdev_close_term_sock ?st = Inr (?st\<lparr>sd_send_sock := - 1, sd_term_sock := - 1, sd_fds := []\<rparr>)"
    using term_sock_result [of ?st] by simp
  with True assms(1,2) n show ?thesis
    by (simp add: st_good_def stdev_close_def stdev_close_mixer_def stdev_dsp_set_power_def st_inv_def socks_closed_def)
qed (use assms in \<open>simp add: st_good_def stdev_close_def\<close>)

lemma delivered_good:
  assumes "st_inv st" "st_enabled Thread_Delivered st"
  shows "st_good (st_apply Thread_Delivered st)"
proof -
  have "socks_open st" "sd_mixer st" "sd_opened st"
    using assms st_inv_opened [OF assms(1)] st_inv_socks [OF assms(1)] by auto
  then show ?thesis using thread_exit_result [of st] by (simp add: st_good_def thread_delivered_def exited_inv)
qed

lemma load_good: "st_inv st \<Longrightarrow> st_good (stdev_load_sound_model ok ctl cb st)"
  by (simp add: stdev_load_sound_model_def st_good_def config_inv)

lemma stream_close_good: "st_inv st \<Longrightarrow> st_good (sound_trigger_close_for_streaming h st)"
  by (simp add: sound_trigger_close_for_streaming_def st_good_def config_inv)

lemma st_step_good: "st_inv st \<Longrightarrow> st_enabled c st \<Longrightarrow> st_good (st_apply c st)"
proof (cases c)
  case (Thread_Start p o' s f)
  then show "st_inv st \<Longrightarrow> st_enabled c st \<Longrightarrow> ?thesis" using thread_start_good by blast
next
  case (Thread_Poll e i t a)
  then show "st_inv st \<Longrightarrow> st_enabled c st \<Longrightarrow> ?thesis" using thread_poll_good by blast
next
  case Thread_Delivered
  then show "st_inv st \<Longrightarrow> st_enabled c st \<Longrightarrow> ?thesis" using delivered_good by blast
qed (simp_all add: unload_good stop_good start_good open_good joined_good close_good load_good stream_close_good)

lemma reachable_inv: "st_reachable st \<Longrightarrow> st_inv st"
proof (induction rule: st_reachable.induct)
  case (st_step st c r st')
  then show ?case using st_step_good [of st c] by (simp add: st_good_def)
qed (rule st_inv_init)

subsection \<open>The properties of the device\<close>


text \<open>A device that listens: opened, with a model, the thread in its loop.\<close>

definition listening_config :: recognition_config where
  "listening_config = \<lparr>rc_capture_requested = True, rc_num_phrases = 0, rc_phrases = []\<rparr>"

definition demo_listening :: st_dev where
  "demo_listening = \<lparr>sd_model_handle = 1, sd_recognition = Some 7, sd_sound_model_callback = None, sd_send_sock = 4, sd_term_sock = 5,
     sd_mixer = True, sd_int_mic_sw = 1, sd_hotword_model = True, sd_config = Some listening_config, sd_pcm = True, sd_is_streaming = False,
     sd_opened = True, sd_thread = Polling, sd_client = Idle, sd_fds = [4, 5], sd_message = False\<rparr>"

fun st_run :: "st_call list \<Rightarrow> st_dev \<Rightarrow> st_dev option" where
  "st_run [] st = Some st"
| "st_run (c # cs) st =
     (if st_enabled c st then (case st_apply c st of Inl _ \<Rightarrow> None | Inr (_, st') \<Rightarrow> st_run cs st') else None)"

lemma st_run_reachable: "st_reachable st \<Longrightarrow> st_run cs st = Some st' \<Longrightarrow> st_reachable st'"
  by (induction cs arbitrary: st) (auto split: if_splits sum.splits intro: st_step)

lemma demo_listening_reachable: "st_reachable demo_listening"
proof (rule st_run_reachable [OF st_init])
  show "st_run [Open True True True True, Load True 0 None, Start 1 (Some listening_config) 7 True,
      Thread_Start (Some (4, 5)) Pcm_Ready True True] g_stdev = Some demo_listening"
    by (simp add: g_stdev_def demo_listening_def stdev_open_def stdev_init_mixer_def stdev_dsp_set_power_def stdev_load_sound_model_def
        stdev_start_recognition_def close_pcm_def thread_active_def thread_start_def stdev_close_term_sock_def close_fd_def Let_def)
qed


definition thread_call :: "st_call \<Rightarrow> bool" where
  "thread_call c \<longleftrightarrow> (case c of Thread_Start _ _ _ _ \<Rightarrow> True | Thread_Poll _ _ _ _ \<Rightarrow> True | Thread_Delivered \<Rightarrow> True | _ \<Rightarrow> False)"

lemma waiting_fields:
  assumes "st_inv st" "sd_client st \<noteq> Idle"
  shows "sd_recognition st = None" "sd_opened st" "sd_mixer st" "sd_thread st \<noteq> Not_Running" "sd_thread st = Polling \<Longrightarrow> sd_message st"
  using assms by (cases "sd_client st"; simp add: st_inv_def)+

lemma exited_fields [simp]:
  "sd_thread (exited st) = Finished" "sd_client (exited st) = sd_client st" "sd_recognition (exited st) = None"
  by (simp_all add: exited_def)

lemma thread_ends:
  assumes inv: "st_inv st" and w: "sd_client st \<noteq> Idle" and c: "thread_call c" "st_enabled c st" "st_apply c st = Inr (r, st')"
  shows "sd_thread st' = Finished \<and> sd_client st' = sd_client st"
proof -
  note f = waiting_fields [OF inv w]
  have s: "loop_pc (sd_thread st) \<Longrightarrow> socks_open st" "\<not> loop_pc (sd_thread st) \<Longrightarrow> socks_closed st" using st_inv_socks [OF inv] by simp_all
  have ex: "thread_exit st = Inr (exited st)" using thread_exit_result [of st] s f by (cases "loop_pc (sd_thread st)") simp_all
  have ex': "loop_pc (sd_thread st) \<Longrightarrow> thread_exit (close_pcm st) = Inr (exited (close_pcm st))"
    using thread_exit_result [of "close_pcm st"] s(1) f by (simp add: socks_open_def)
  show ?thesis
    using c f(1) ex ex' by (cases c) (auto simp: thread_call_def thread_start_def thread_poll_def thread_delivered_def split: if_splits)
qed

text \<open>
  C18. Stopping or unloading while the device listens returns. While the client waits for the thread, the thread
  can always go on, since a byte waits for its \<^verbatim>\<open>poll\<close>, and whatever section it is in, its next one is its last. Then the
  call ends with the microphone off, no callback, no socket left open and, after stopping, the PCM closed.
\<close>

theorem stop_recognition_returns:
  assumes "st_reachable st" "sd_client st \<noteq> Idle"
  shows "if sd_thread st = Finished
    then \<exists>st'. st_enabled Joined st \<and> st_apply Joined st = Inr (0, st') \<and> sd_client st' = Idle \<and> sd_int_mic_sw st' = 0 \<and> \<not> sd_is_streaming st' \<and>
      sd_recognition st' = None \<and> sd_fds st' = [] \<and> (sd_client st = Join_Stop \<longrightarrow> \<not> sd_pcm st')
    else (\<exists>c. thread_call c \<and> st_enabled c st) \<and> (sd_thread st = Polling \<longrightarrow> sd_message st) \<and>
      (\<forall>c r st'. thread_call c \<longrightarrow> st_enabled c st \<longrightarrow> st_apply c st = Inr (r, st') \<longrightarrow>
         sd_thread st' = Finished \<and> sd_client st' = sd_client st)"
proof -
  note inv = reachable_inv [OF assms(1)]
  note f = waiting_fields [OF inv assms(2)]
  show ?thesis
  proof (cases "sd_thread st = Finished")
    case True
    then have "sd_fds st = []" using st_inv_socks(2) [OF inv] by (simp add: socks_closed_def)
    with True f assms(2) show ?thesis by (simp add: client_joined_def power_off_def stdev_dsp_set_power_def)
  next
    case False
    have "\<exists>c. thread_call c \<and> st_enabled c st"
    proof (cases "sd_thread st")
      case Starting
      then show ?thesis by (intro exI [of _ "Thread_Start None Pcm_Null True True"]) (simp add: thread_call_def)
    next
      case Polling
      with f(5) show ?thesis by (intro exI [of _ "Thread_Poll 1 False True True"]) (simp add: thread_call_def)
    next
      case (Delivering c)
      then show ?thesis by (intro exI [of _ Thread_Delivered]) (simp add: thread_call_def)
    qed (use False f in simp_all)
    with False f(5) thread_ends [OF inv assms(2)] show ?thesis by (auto simp del: st_enabled.simps st_apply.simps)
  qed
qed

definition demo_stopping :: st_dev where
  "demo_stopping = tell_thread Join_Stop (demo_listening\<lparr>sd_config := None\<rparr>)"

theorem stop_recognition_returns_witness:
  "st_reachable demo_stopping \<and> (\<exists>c. thread_call c \<and> st_enabled c demo_stopping)"
proof -
  have "st_apply (Stop 1) demo_listening = Inr (0, demo_stopping)" by (simp add: stdev_stop_recognition_def demo_listening_def demo_stopping_def)
  then have r: "st_reachable demo_stopping"
    using st_step [OF demo_listening_reachable, of "Stop 1"] by (simp add: demo_listening_def)
  have "sd_client demo_stopping \<noteq> Idle" "sd_thread demo_stopping = Polling" by (simp_all add: demo_stopping_def tell_thread_def demo_listening_def)
  with r stop_recognition_returns [OF r] show ?thesis by simp
qed

text \<open>
  C36. A call that is refused can silence a device that listens. Unloading or stopping with a handle that is not
  the loaded model's returns an error, but switches the microphone off: the thread goes on waiting for a
  hotword that cannot come.
\<close>

theorem refused_call_silences_device:
  assumes "st_reachable st" "sd_thread st = Polling" "sd_client st = Idle" "handle \<noteq> 1" "sd_model_handle st \<noteq> handle"
  shows "\<exists>st1 st2. st_apply (Unload handle) st = Inr (- ST_EINVAL, st1) \<and> st_apply (Stop handle) st = Inr (- ST_ENOSYS, st2) \<and>
    (\<forall>st' \<in> {st1, st2}. sd_int_mic_sw st' = 0 \<and> sd_thread st' = Polling \<and> sd_recognition st' = sd_recognition st \<and> sd_recognition st' \<noteq> None)"
proof -
  note inv = reachable_inv [OF assms(1)]
  have "sd_mixer st" "sd_recognition st \<noteq> None" using inv assms(2,3) by (auto simp: st_inv_def)
  with assms show ?thesis
    by (simp add: stdev_unload_sound_model_def stdev_stop_recognition_def power_off_def stdev_dsp_set_power_def)
qed

theorem refused_call_silences_device_witness:
  "\<exists>st1. st_apply (Unload 2) demo_listening = Inr (- ST_EINVAL, st1) \<and> sd_int_mic_sw st1 = 0 \<and> sd_thread st1 = Polling"
  using refused_call_silences_device [OF demo_listening_reachable, of 2] by (auto simp: demo_listening_def)

text \<open>
  Closing the device while it listens makes the thread close a descriptor that is not the device's. \<^verbatim>\<open>stdev_close\<close>
  sets the sockets to 0 and leaves the thread alone; when the thread leaves its loop, it closes descriptor 0.
\<close>

theorem close_while_listening_closes_stdin:
  assumes "st_reachable st" "sd_thread st = Polling" "sd_client st = Idle"
  shows "\<exists>st1. stdev_close st = Inr (0, st1) \<and> sd_thread st1 = Polling \<and> thread_poll (- 1) pcm_in term_in alloc st1 = Inl (Foreign_Close 0)"
proof -
  note inv = reachable_inv [OF assms(1)]
  let ?st = "st\<lparr>sd_is_streaming := False, sd_int_mic_sw := 0, sd_mixer := False\<rparr>"
  have s: "socks_open st" "sd_mixer st" "sd_opened st" using assms(2) st_inv_socks [OF inv] st_inv_opened [OF inv] by simp_all
  then have "stdev_close_term_sock ?st = Inr (?st\<lparr>sd_send_sock := - 1, sd_term_sock := - 1, sd_fds := []\<rparr>)"
    using term_sock_result [of ?st] by (simp add: socks_open_def)
  with s assms(2) show ?thesis
    by (simp add: stdev_close_def stdev_close_mixer_def stdev_dsp_set_power_def thread_poll_def thread_exit_def stdev_close_term_sock_def close_fd_def)
qed

theorem close_while_listening_closes_stdin_witness:
  "\<exists>st1. stdev_close demo_listening = Inr (0, st1) \<and> thread_poll (- 1) False False True st1 = Inl (Foreign_Close 0)"
  using close_while_listening_closes_stdin [OF demo_listening_reachable, of False False True] by (auto simp: demo_listening_def)

lemma await_frames_ret: "await_frames avail k = Inl r \<Longrightarrow> r \<le> 0"
  by (induction avail k rule: await_frames.induct) (subst (asm) await_frames.simps, auto split: if_splits)

text \<open>
  C37. Reading samples never stores more than the buffer holds, whatever the PCM has available: the value that is
  returned is an error, 0 after ten waits without frames, or the number of bytes that were stored.
\<close>

theorem read_samples_bounded:
  assumes "\<And>n. snd (snd (mmap n)) \<le> n" "\<And>n. 0 \<le> fst (mmap n) \<Longrightarrow> 2 * snd (snd (mmap n)) \<le> length (fst (snd (mmap n)))"
  shows "case sound_trigger_read_samples handle buffer_len avail mmap st of
    (ret, bytes) \<Rightarrow> length bytes \<le> buffer_len \<and> (0 \<le> ret \<longrightarrow> ret = int (length bytes)) \<and>
      (0 < ret \<longrightarrow> sd_opened st \<and> sd_is_streaming st \<and> sd_pcm st)"
proof -
  have fits: "snd (snd (mmap (min f (buffer_len div 2)))) * 2 \<le> buffer_len" for f
    using assms(1) [of "min f (buffer_len div 2)"] by linarith
  have len: "length (take (snd (snd (mmap n)) * 2) (fst (snd (mmap n)))) = snd (snd (mmap n)) * 2" if "0 \<le> fst (mmap n)" for n
    using assms(2) [OF that] by simp
  show ?thesis
  proof (cases "0 < handle \<and> sd_opened st \<and> sd_is_streaming st \<and> sd_pcm st")
    case True
    show ?thesis
    proof (cases "await_frames avail 0")
      case (Inl ret)
      with True await_frames_ret [OF Inl] show ?thesis by (simp add: sound_trigger_read_samples_def)
    next
      case (Inr f)
      obtain ret bytes n where m: "mmap (min f (buffer_len div 2)) = (ret, bytes, n)" by (metis prod.collapse)
      with True Inr fits [of f] len [of "min f (buffer_len div 2)"] show ?thesis by (simp add: sound_trigger_read_samples_def)
    qed
  qed (auto simp: sound_trigger_read_samples_def ST_EINVAL_def ST_EFAULT_def)
qed

theorem read_samples_bounded_witness:
  "case sound_trigger_read_samples 1 7 (\<lambda>k. if k < 2 then 0 else 100) (\<lambda>n. (if n \<le> 100 then 0 else - 1, replicate 200 1, n))
     (demo_listening\<lparr>sd_is_streaming := True\<rparr>) of (ret, bytes) \<Rightarrow> length bytes \<le> 7"
  using read_samples_bounded [where mmap = "\<lambda>n. (if n \<le> 100 then 0 else - 1, replicate 200 1, n)" and handle = 1 and buffer_len = 7
      and avail = "\<lambda>k. if k < 2 then 0 else 100" and st = "demo_listening\<lparr>sd_is_streaming := True\<rparr>"]
  by (auto split: if_splits)

end
