(* ===== verification/Audio_Route.thy ===== *)
theory Audio_Route
  imports Dragon_Prelude
begin

text \<open>
  Routing of \<^verbatim>\<open>audio/hal/audio_hw.c\<close>: the sound devices and PCM profiles of the board, the choice of a sound device
  for a use case, and the reference counts that say which mixer paths are in use. What the code takes from
  the system's headers (\<^verbatim>\<open>system/audio.h\<close>) is a record of constants, which is an argument.
\<close>

unbundle bit_operations_syntax

subsection \<open>The constants of the system\<close>

record audio_h =
  AUDIO_DEVICE_NONE :: u32
  AUDIO_DEVICE_BIT_IN :: u32
  AUDIO_DEVICE_OUT_EARPIECE :: u32
  AUDIO_DEVICE_OUT_SPEAKER :: u32
  AUDIO_DEVICE_OUT_WIRED_HEADSET :: u32
  AUDIO_DEVICE_OUT_WIRED_HEADPHONE :: u32
  AUDIO_DEVICE_IN_COMMUNICATION :: u32
  AUDIO_DEVICE_IN_BUILTIN_MIC :: u32
  AUDIO_DEVICE_IN_WIRED_HEADSET :: u32
  AUDIO_DEVICE_IN_AUX_DIGITAL :: u32
  AUDIO_DEVICE_IN_VOICE_CALL :: u32
  AUDIO_DEVICE_IN_BACK_MIC :: u32
  AUDIO_SOURCE_DEFAULT :: int
  AUDIO_SOURCE_MIC :: int
  AUDIO_SOURCE_CAMCORDER :: int
  AUDIO_SOURCE_VOICE_RECOGNITION :: int
  AUDIO_SOURCE_VOICE_COMMUNICATION :: int
  AUDIO_SOURCE_HOTWORD :: int
  AUDIO_MODE_NORMAL :: int
  AUDIO_MODE_IN_CALL :: int
  AUDIO_MODE_IN_COMMUNICATION :: int
  AUDIO_CHANNEL_IN_MONO :: u32
  AUDIO_CHANNEL_IN_FRONT_BACK :: u32
  AUDIO_CHANNEL_INDEX_MASK_4 :: u32
  AUDIO_CHANNEL_OUT_STEREO :: u32
  AUDIO_FORMAT_PCM_16_BIT :: nat
  AUDIO_OUTPUT_FLAG_PRIMARY :: u32
  AUDIO_OUTPUT_FLAG_DEEP_BUFFER :: u32
  AUDIO_INPUT_FLAG_FAST :: u32
  audio_channel_count_from_in_mask :: "u32 \<Rightarrow> nat"
  audio_channel_count_from_out_mask :: "u32 \<Rightarrow> nat"
  audio_bytes_per_sample :: "nat \<Rightarrow> nat"

text \<open>The test \<^verbatim>\<open>a & b\<close> of C.\<close>

definition has :: "u32 \<Rightarrow> u32 \<Rightarrow> bool" where
  "has a b \<longleftrightarrow> a AND b \<noteq> 0"

definition popcount :: "u32 \<Rightarrow> nat" where
  "popcount w = length (filter (bit w) [0..<32])"

definition HAL_EINVAL :: int where "HAL_EINVAL = 22"
definition HAL_EEXIST :: int where "HAL_EEXIST = 17"
definition HAL_EIO :: int where "HAL_EIO = 5"
definition HAL_ENOSYS :: int where "HAL_ENOSYS = 38"
definition HAL_ENODEV :: int where "HAL_ENODEV = 19"

subsection \<open>Sound devices\<close>

named_theorems snd_device_defs "the numbers of the sound devices"

definition SND_DEVICE_NONE :: nat where [snd_device_defs]: "SND_DEVICE_NONE = 0"
definition SND_DEVICE_MIN :: nat where [snd_device_defs]: "SND_DEVICE_MIN = 1"
definition SND_DEVICE_OUT_HANDSET :: nat where [snd_device_defs]: "SND_DEVICE_OUT_HANDSET = 1"
definition SND_DEVICE_OUT_SPEAKER :: nat where [snd_device_defs]: "SND_DEVICE_OUT_SPEAKER = 2"
definition SND_DEVICE_OUT_HEADPHONES :: nat where [snd_device_defs]: "SND_DEVICE_OUT_HEADPHONES = 3"
definition SND_DEVICE_OUT_SPEAKER_AND_HEADPHONES :: nat where [snd_device_defs]: "SND_DEVICE_OUT_SPEAKER_AND_HEADPHONES = 4"
definition SND_DEVICE_OUT_VOICE_SPEAKER :: nat where [snd_device_defs]: "SND_DEVICE_OUT_VOICE_SPEAKER = 6"
definition SND_DEVICE_OUT_VOICE_HEADPHONES :: nat where [snd_device_defs]: "SND_DEVICE_OUT_VOICE_HEADPHONES = 7"
definition SND_DEVICE_OUT_VOICE_TTY_FULL_HEADPHONES :: nat where [snd_device_defs]: "SND_DEVICE_OUT_VOICE_TTY_FULL_HEADPHONES = 10"
definition SND_DEVICE_OUT_VOICE_TTY_VCO_HEADPHONES :: nat where [snd_device_defs]: "SND_DEVICE_OUT_VOICE_TTY_VCO_HEADPHONES = 11"
definition SND_DEVICE_OUT_VOICE_TTY_HCO_HANDSET :: nat where [snd_device_defs]: "SND_DEVICE_OUT_VOICE_TTY_HCO_HANDSET = 12"
definition SND_DEVICE_OUT_END :: nat where [snd_device_defs]: "SND_DEVICE_OUT_END = 13"
definition SND_DEVICE_IN_HANDSET_MIC :: nat where [snd_device_defs]: "SND_DEVICE_IN_HANDSET_MIC = 13"
definition SND_DEVICE_IN_SPEAKER_MIC :: nat where [snd_device_defs]: "SND_DEVICE_IN_SPEAKER_MIC = 14"
definition SND_DEVICE_IN_HEADSET_MIC :: nat where [snd_device_defs]: "SND_DEVICE_IN_HEADSET_MIC = 15"
definition SND_DEVICE_IN_HANDSET_MIC_AEC :: nat where [snd_device_defs]: "SND_DEVICE_IN_HANDSET_MIC_AEC = 16"
definition SND_DEVICE_IN_SPEAKER_MIC_AEC :: nat where [snd_device_defs]: "SND_DEVICE_IN_SPEAKER_MIC_AEC = 17"
definition SND_DEVICE_IN_HEADSET_MIC_AEC :: nat where [snd_device_defs]: "SND_DEVICE_IN_HEADSET_MIC_AEC = 18"
definition SND_DEVICE_IN_VOICE_SPEAKER_MIC :: nat where [snd_device_defs]: "SND_DEVICE_IN_VOICE_SPEAKER_MIC = 19"
definition SND_DEVICE_IN_VOICE_HEADSET_MIC :: nat where [snd_device_defs]: "SND_DEVICE_IN_VOICE_HEADSET_MIC = 20"
definition SND_DEVICE_IN_HDMI_MIC :: nat where [snd_device_defs]: "SND_DEVICE_IN_HDMI_MIC = 21"
definition SND_DEVICE_IN_CAMCORDER_MIC :: nat where [snd_device_defs]: "SND_DEVICE_IN_CAMCORDER_MIC = 22"
definition SND_DEVICE_IN_VOICE_TTY_FULL_HEADSET_MIC :: nat where [snd_device_defs]: "SND_DEVICE_IN_VOICE_TTY_FULL_HEADSET_MIC = 25"
definition SND_DEVICE_IN_VOICE_TTY_VCO_HANDSET_MIC :: nat where [snd_device_defs]: "SND_DEVICE_IN_VOICE_TTY_VCO_HANDSET_MIC = 26"
definition SND_DEVICE_IN_VOICE_TTY_HCO_HEADSET_MIC :: nat where [snd_device_defs]: "SND_DEVICE_IN_VOICE_TTY_HCO_HEADSET_MIC = 27"
definition SND_DEVICE_IN_VOICE_REC_HEADSET_MIC :: nat where [snd_device_defs]: "SND_DEVICE_IN_VOICE_REC_HEADSET_MIC = 28"
definition SND_DEVICE_IN_VOICE_REC_MIC :: nat where [snd_device_defs]: "SND_DEVICE_IN_VOICE_REC_MIC = 29"
definition SND_DEVICE_IN_VOICE_REC_DMIC_1 :: nat where [snd_device_defs]: "SND_DEVICE_IN_VOICE_REC_DMIC_1 = 30"
definition SND_DEVICE_IN_VOICE_REC_DMIC_NS_1 :: nat where [snd_device_defs]: "SND_DEVICE_IN_VOICE_REC_DMIC_NS_1 = 31"
definition SND_DEVICE_IN_LOOPBACK_AEC :: nat where [snd_device_defs]: "SND_DEVICE_IN_LOOPBACK_AEC = 32"
definition SND_DEVICE_MAX :: nat where [snd_device_defs]: "SND_DEVICE_MAX = 33"

definition device_table :: "string list" where
  "device_table =
    [''none'', ''handset'', ''speaker'', ''headphones'', ''speaker-and-headphones'', ''voice-handset'', ''voice-speaker'',
     ''voice-headphones'', ''hdmi'', ''speaker-and-hdmi'', ''voice-tty-full-headphones'', ''voice-tty-vco-headphones'',
     ''voice-tty-hco-handset'',
     ''handset-mic'', ''speaker-mic'', ''headset-mic'', ''handset-mic'', ''voice-speaker-mic'', ''headset-mic'', ''voice-speaker-mic'',
     ''voice-headset-mic'', ''hdmi-mic'', ''camcorder-mic'', ''voice-dmic-1'', ''voice-speaker-dmic-1'', ''voice-tty-full-headset-mic'',
     ''voice-tty-vco-handset-mic'', ''voice-tty-hco-headset-mic'', ''voice-rec-headset-mic'', ''voice-rec-mic'', ''voice-rec-dmic-1'',
     ''voice-rec-dmic-ns-1'', ''loopback-aec'']"

definition get_snd_device_name :: "nat \<Rightarrow> string option" where
  "get_snd_device_name snd_device =
     (if SND_DEVICE_MIN \<le> snd_device \<and> snd_device < SND_DEVICE_MAX then Some (device_table ! snd_device) else None)"

definition get_snd_device_display_name :: "nat \<Rightarrow> string" where
  "get_snd_device_display_name snd_device =
     (case get_snd_device_name snd_device of None \<Rightarrow> ''SND DEVICE NOT FOUND'' | Some name \<Rightarrow> name)"

subsection \<open>PCM profiles\<close>

definition PCM_PLAYBACK :: u32 where "PCM_PLAYBACK = 1"
definition PCM_CAPTURE :: u32 where "PCM_CAPTURE = 2"
definition VOICE_CALL :: u32 where "VOICE_CALL = 4"
definition PCM_HOTWORD_STREAMING :: u32 where "PCM_HOTWORD_STREAMING = 8"

definition USECASE_AUDIO_PLAYBACK :: int where "USECASE_AUDIO_PLAYBACK = 0"
definition USECASE_AUDIO_PLAYBACK_MULTI_CH :: int where "USECASE_AUDIO_PLAYBACK_MULTI_CH = 1"
definition USECASE_AUDIO_PLAYBACK_DEEP_BUFFER :: int where "USECASE_AUDIO_PLAYBACK_DEEP_BUFFER = 2"
definition USECASE_AUDIO_CAPTURE :: int where "USECASE_AUDIO_CAPTURE = 3"
definition USECASE_AUDIO_CAPTURE_HOTWORD :: int where "USECASE_AUDIO_CAPTURE_HOTWORD = 4"
definition USECASE_VOICE_CALL :: int where "USECASE_VOICE_CALL = 5"

lemmas usecase_defs = USECASE_AUDIO_PLAYBACK_def USECASE_AUDIO_PLAYBACK_MULTI_CH_def USECASE_AUDIO_PLAYBACK_DEEP_BUFFER_def
  USECASE_AUDIO_CAPTURE_def USECASE_AUDIO_CAPTURE_HOTWORD_def USECASE_VOICE_CALL_def
lemmas usecase_type_defs = PCM_PLAYBACK_def PCM_CAPTURE_def VOICE_CALL_def PCM_HOTWORD_STREAMING_def

definition SOUND_CARD :: int where "SOUND_CARD = 0"
definition PLAYBACK_PERIOD_SIZE :: nat where "PLAYBACK_PERIOD_SIZE = 512"
definition PLAYBACK_PERIOD_COUNT :: nat where "PLAYBACK_PERIOD_COUNT = 2"
definition PLAYBACK_DEFAULT_CHANNEL_COUNT :: nat where "PLAYBACK_DEFAULT_CHANNEL_COUNT = 4"
definition PLAYBACK_DEFAULT_SAMPLING_RATE :: nat where "PLAYBACK_DEFAULT_SAMPLING_RATE = 48000"
definition CAPTURE_PERIOD_SIZE :: nat where "CAPTURE_PERIOD_SIZE = 1024"
definition CAPTURE_PERIOD_SIZE_LOW_LATENCY :: nat where "CAPTURE_PERIOD_SIZE_LOW_LATENCY = 512"
definition CAPTURE_PERIOD_COUNT :: nat where "CAPTURE_PERIOD_COUNT = 2"
definition CAPTURE_DEFAULT_CHANNEL_COUNT :: nat where "CAPTURE_DEFAULT_CHANNEL_COUNT = 4"
definition CAPTURE_DEFAULT_SAMPLING_RATE :: nat where "CAPTURE_DEFAULT_SAMPLING_RATE = 48000"
definition CAPTURE_START_THRESHOLD :: nat where "CAPTURE_START_THRESHOLD = 1"
definition DEEP_BUFFER_OUTPUT_SAMPLING_RATE :: nat where "DEEP_BUFFER_OUTPUT_SAMPLING_RATE = 48000"
definition DEEP_BUFFER_OUTPUT_PERIOD_SIZE :: nat where "DEEP_BUFFER_OUTPUT_PERIOD_SIZE = 1440"
definition DEEP_BUFFER_OUTPUT_PERIOD_COUNT :: nat where "DEEP_BUFFER_OUTPUT_PERIOD_COUNT = 8"

lemmas period_defs = PLAYBACK_PERIOD_SIZE_def PLAYBACK_PERIOD_COUNT_def PLAYBACK_DEFAULT_CHANNEL_COUNT_def
  PLAYBACK_DEFAULT_SAMPLING_RATE_def CAPTURE_PERIOD_SIZE_def CAPTURE_PERIOD_SIZE_LOW_LATENCY_def CAPTURE_PERIOD_COUNT_def
  CAPTURE_DEFAULT_CHANNEL_COUNT_def CAPTURE_DEFAULT_SAMPLING_RATE_def CAPTURE_START_THRESHOLD_def
  DEEP_BUFFER_OUTPUT_SAMPLING_RATE_def DEEP_BUFFER_OUTPUT_PERIOD_SIZE_def DEEP_BUFFER_OUTPUT_PERIOD_COUNT_def

text \<open>\<^verbatim>\<open>struct pcm_config\<close>; the sample format is always \<^verbatim>\<open>PCM_FORMAT_S16_LE\<close>.\<close>

record pcm_config =
  pc_channels :: nat
  pc_rate :: nat
  pc_period_size :: nat
  pc_period_count :: nat
  pc_start_threshold :: nat
  pc_stop_threshold :: nat
  pc_silence_threshold :: nat
  pc_avail_min :: nat

record pcm_device_profile =
  pp_config :: pcm_config
  pp_card :: int
  pp_device :: int
  pp_id :: int
  pp_type :: u32
  pp_devices :: u32
  pp_dsp_name :: "string option"

definition playback_config :: pcm_config where
  "playback_config = \<lparr>pc_channels = PLAYBACK_DEFAULT_CHANNEL_COUNT, pc_rate = PLAYBACK_DEFAULT_SAMPLING_RATE,
     pc_period_size = PLAYBACK_PERIOD_SIZE, pc_period_count = PLAYBACK_PERIOD_COUNT,
     pc_start_threshold = PLAYBACK_PERIOD_SIZE * PLAYBACK_PERIOD_COUNT - 1, pc_stop_threshold = PLAYBACK_PERIOD_SIZE * PLAYBACK_PERIOD_COUNT,
     pc_silence_threshold = 0, pc_avail_min = 1\<rparr>"

definition capture_config :: pcm_config where
  "capture_config = \<lparr>pc_channels = CAPTURE_DEFAULT_CHANNEL_COUNT, pc_rate = CAPTURE_DEFAULT_SAMPLING_RATE,
     pc_period_size = CAPTURE_PERIOD_SIZE, pc_period_count = CAPTURE_PERIOD_COUNT, pc_start_threshold = CAPTURE_START_THRESHOLD,
     pc_stop_threshold = 0, pc_silence_threshold = 0, pc_avail_min = 0\<rparr>"

definition pcm_config_deep_buffer :: pcm_config where
  "pcm_config_deep_buffer = \<lparr>pc_channels = 2, pc_rate = DEEP_BUFFER_OUTPUT_SAMPLING_RATE,
     pc_period_size = DEEP_BUFFER_OUTPUT_PERIOD_SIZE, pc_period_count = DEEP_BUFFER_OUTPUT_PERIOD_COUNT,
     pc_start_threshold = DEEP_BUFFER_OUTPUT_PERIOD_SIZE div 4, pc_stop_threshold = 2147483647, pc_silence_threshold = 0,
     pc_avail_min = DEEP_BUFFER_OUTPUT_PERIOD_SIZE div 4\<rparr>"

definition pcm_device_playback_hs :: "audio_h \<Rightarrow> pcm_device_profile" where
  "pcm_device_playback_hs A = \<lparr>pp_config = playback_config, pp_card = SOUND_CARD, pp_device = 0, pp_id = 1, pp_type = PCM_PLAYBACK,
     pp_devices = AUDIO_DEVICE_OUT_WIRED_HEADSET A OR AUDIO_DEVICE_OUT_WIRED_HEADPHONE A, pp_dsp_name = Some ''invert_lr''\<rparr>"

definition pcm_device_capture :: "audio_h \<Rightarrow> pcm_device_profile" where
  "pcm_device_capture A = \<lparr>pp_config = capture_config, pp_card = SOUND_CARD, pp_device = 0, pp_id = 2, pp_type = PCM_CAPTURE,
     pp_devices = AUDIO_DEVICE_IN_BUILTIN_MIC A OR AUDIO_DEVICE_IN_WIRED_HEADSET A OR AUDIO_DEVICE_IN_BACK_MIC A, pp_dsp_name = None\<rparr>"

definition pcm_device_capture_loopback_aec :: pcm_device_profile where
  "pcm_device_capture_loopback_aec = \<lparr>pp_config = capture_config, pp_card = SOUND_CARD, pp_device = 1, pp_id = 3, pp_type = PCM_CAPTURE,
     pp_devices = word_of_nat SND_DEVICE_IN_LOOPBACK_AEC, pp_dsp_name = None\<rparr>"

definition pcm_device_playback_spk_and_headset :: "audio_h \<Rightarrow> pcm_device_profile" where
  "pcm_device_playback_spk_and_headset A = \<lparr>pp_config = playback_config, pp_card = SOUND_CARD, pp_device = 0, pp_id = 4, pp_type = PCM_PLAYBACK,
     pp_devices = AUDIO_DEVICE_OUT_SPEAKER A OR AUDIO_DEVICE_OUT_WIRED_HEADSET A OR AUDIO_DEVICE_OUT_WIRED_HEADPHONE A,
     pp_dsp_name = Some ''speaker_eq''\<rparr>"

definition pcm_device_playback_spk :: "audio_h \<Rightarrow> pcm_device_profile" where
  "pcm_device_playback_spk A = \<lparr>pp_config = playback_config, pp_card = SOUND_CARD, pp_device = 0, pp_id = 5, pp_type = PCM_PLAYBACK,
     pp_devices = AUDIO_DEVICE_OUT_SPEAKER A, pp_dsp_name = Some ''speaker_eq''\<rparr>"

definition pcm_device_hotword_streaming :: "audio_h \<Rightarrow> pcm_device_profile" where
  "pcm_device_hotword_streaming A = \<lparr>pp_config = capture_config\<lparr>pc_channels := 1, pc_rate := 16000\<rparr>, pp_card = SOUND_CARD, pp_device = 0,
     pp_id = 0, pp_type = PCM_HOTWORD_STREAMING,
     pp_devices = AUDIO_DEVICE_IN_BUILTIN_MIC A OR AUDIO_DEVICE_IN_WIRED_HEADSET A OR AUDIO_DEVICE_IN_BACK_MIC A, pp_dsp_name = None\<rparr>"

definition pcm_devices :: "audio_h \<Rightarrow> pcm_device_profile list" where
  "pcm_devices A = [pcm_device_playback_hs A, pcm_device_capture A, pcm_device_playback_spk A, pcm_device_capture_loopback_aec,
     pcm_device_playback_spk_and_headset A, pcm_device_hotword_streaming A]"

text \<open>
  A profile is named by its place in the array, since a stream can change it. The first match wins.
\<close>

definition get_pcm_device :: "audio_h \<Rightarrow> pcm_device_profile list \<Rightarrow> u32 \<Rightarrow> u32 \<Rightarrow> nat option" where
  "get_pcm_device A profiles uc_type devices0 =
     (let devices = devices0 AND NOT (AUDIO_DEVICE_BIT_IN A)
      in if devices = 0 then None
         else find (\<lambda>i. pp_type (profiles ! i) = uc_type \<and> devices AND pp_devices (profiles ! i) = devices) [0..<length profiles])"

subsection \<open>Streams, use cases and the device\<close>

text \<open>
  What goes wrong outside a return code: a NULL pointer or a freed stream is used, a stream of the other
  direction, a list that was never initialised, a card without a mixer, a list node that is put into two
  lists, the stack is used up, or the process is aborted on purpose (\<^verbatim>\<open>LOG_ALWAYS_FATAL_IF\<close>).
\<close>

datatype hal_fault = Null_Stream | Freed_Stream | Wrong_Stream | Uninitialised_List | No_Mixer | Node_In_Two_Lists
  | Stack_Overflow | Fatal_Abort

text \<open>\<^verbatim>\<open>struct pcm_device\<close>, with the handle of the PCM that is open, and whether there is a resampler and a DSP context.\<close>

record pcm_device =
  pd_profile :: nat
  pd_pcm :: "nat option"
  pd_status :: int
  pd_resampler :: bool
  pd_res_buffer :: bool
  pd_res_byte_count :: nat
  pd_dsp_context :: bool
  pd_sound_trigger_handle :: int

text \<open>
  The streams, without locks and function tables. The list of PCM devices is \<open>None\<close> until it is initialised. Buffers
  are \<open>None\<close> while they are NULL, and the effects are their handles.
\<close>

record stream_out =
  so_config :: pcm_config
  so_pcm_dev_list :: "pcm_device list option"
  so_standby :: bool
  so_sample_rate :: nat
  so_channel_mask :: u32
  so_format :: nat
  so_devices :: u32
  so_flags :: u32
  so_usecase :: int
  so_muted :: bool
  so_written :: "64 word"
  so_proc_buf_size :: nat

record stream_in =
  si_config :: pcm_config
  si_pcm_dev_list :: "pcm_device list option"
  si_standby :: bool
  si_source :: int
  si_devices :: u32
  si_main_channels :: u32
  si_usecase :: int
  si_usecase_type :: u32
  si_enable_aec :: bool
  si_input_flags :: u32
  si_requested_rate :: nat
  si_resampler :: bool
  si_read_status :: int
  si_read_buf :: "u16 list option"
  si_read_buf_size :: nat
  si_read_buf_frames :: nat
  si_proc_buf_size :: nat
  si_proc_buf_in :: "u16 list"
  si_proc_buf_frames :: nat
  si_preprocessors :: "nat list"
  si_aux_channels_changed :: bool
  si_aux_channels :: u32

datatype stream_ref = Out_Stream nat | In_Stream nat

text \<open>The mixer cards of a use case are their numbers.\<close>

record audio_usecase =
  uc_id :: int
  uc_type :: u32
  uc_devices :: u32
  uc_out_snd_device :: nat
  uc_in_snd_device :: nat
  uc_stream :: stream_ref
  uc_mixer_list :: "int list"

text \<open>The calls to the library of mixer paths, with the card.\<close>

datatype route_call = Apply_Path int string | Reset_Path int string | Update_Mixer int

text \<open>
  \<^verbatim>\<open>struct audio_device\<close> with the streams that are allocated, the profiles, the PCM handles that are open and the calls to the
  library of mixer paths, the last one first. \<open>ad_sound_trigger\<close> says whether the functions of the sound trigger were found.
\<close>

record audio_device =
  ad_mixer_list :: "int list"
  ad_mode :: int
  ad_active_input :: "nat option"
  ad_primary_output :: "nat option"
  ad_in_call :: bool
  ad_mic_mute :: bool
  ad_tty_mode :: int
  ad_bluetooth_nrec :: bool
  ad_screen_off :: bool
  ad_snd_dev_ref_cnt :: "int list"
  ad_usecase_list :: "audio_usecase list"
  ad_speaker_lr_swap :: bool
  ad_dualmic_config :: int
  ad_ns_in_voice_rec :: bool
  ad_sound_trigger :: bool
  ad_profiles :: "pcm_device_profile list"
  ad_outs :: "nat \<Rightarrow> stream_out option"
  ad_ins :: "nat \<Rightarrow> stream_in option"
  ad_pcms :: "nat list"
  ad_log :: "route_call list"

text \<open>
  What the code runs on: the constants, how the bytes of an output stream look when they are read as an input
  stream, and how many nested calls the stack has room for.
\<close>

record audio_env =
  ae_h :: audio_h
  ae_as_input :: "stream_out \<Rightarrow> stream_in"
  ae_stack :: nat

definition get_out :: "audio_device \<Rightarrow> nat \<Rightarrow> hal_fault + stream_out" where
  "get_out ad a = (case ad_outs ad a of None \<Rightarrow> Inl Freed_Stream | Some s \<Rightarrow> Inr s)"

definition get_in :: "audio_device \<Rightarrow> nat \<Rightarrow> hal_fault + stream_in" where
  "get_in ad a = (case ad_ins ad a of None \<Rightarrow> Inl Freed_Stream | Some s \<Rightarrow> Inr s)"

definition put_out :: "nat \<Rightarrow> stream_out \<Rightarrow> audio_device \<Rightarrow> audio_device" where
  "put_out a s ad = ad\<lparr>ad_outs := (ad_outs ad)(a := Some s)\<rparr>"

definition put_in :: "nat \<Rightarrow> stream_in \<Rightarrow> audio_device \<Rightarrow> audio_device" where
  "put_in a s ad = ad\<lparr>ad_ins := (ad_ins ad)(a := Some s)\<rparr>"

text \<open>The casts of \<^verbatim>\<open>usecase->stream\<close>. An output stream can be read as an input stream; the opposite never happens.\<close>

fun stream_as_input :: "audio_env \<Rightarrow> audio_device \<Rightarrow> stream_ref \<Rightarrow> hal_fault + stream_in" where
  "stream_as_input E ad (In_Stream a) = get_in ad a"
| "stream_as_input E ad (Out_Stream a) = and_then (get_out ad a) (\<lambda>s. Inr (ae_as_input E s))"

fun stream_as_output :: "audio_device \<Rightarrow> stream_ref \<Rightarrow> hal_fault + (nat \<times> stream_out)" where
  "stream_as_output ad (Out_Stream a) = and_then (get_out ad a) (\<lambda>s. Inr (a, s))"
| "stream_as_output ad (In_Stream a) = Inl Wrong_Stream"

definition adev_get_mixer_for_card :: "audio_device \<Rightarrow> int \<Rightarrow> int option" where
  "adev_get_mixer_for_card ad cd = find (\<lambda>c. c = cd) (ad_mixer_list ad)"

definition uc_get_mixer_for_card :: "audio_usecase \<Rightarrow> int \<Rightarrow> int option" where
  "uc_get_mixer_for_card usecase cd = find (\<lambda>c. c = cd) (uc_mixer_list usecase)"

definition get_usecase_from_id :: "audio_device \<Rightarrow> int \<Rightarrow> audio_usecase option" where
  "get_usecase_from_id ad i = find (\<lambda>u. uc_id u = i) (ad_usecase_list ad)"

definition get_usecase_from_type :: "audio_device \<Rightarrow> u32 \<Rightarrow> audio_usecase option" where
  "get_usecase_from_type ad t = find (\<lambda>u. has (uc_type u) t) (ad_usecase_list ad)"

text \<open>A change through the pointer that \<^verbatim>\<open>get_usecase_from_id\<close> returns, and the removal of that use case.\<close>

fun change_first :: "('a \<Rightarrow> bool) \<Rightarrow> ('a \<Rightarrow> 'a) \<Rightarrow> 'a list \<Rightarrow> 'a list" where
  "change_first P f [] = []"
| "change_first P f (x # xs) = (if P x then f x # xs else x # change_first P f xs)"

fun remove_first :: "('a \<Rightarrow> bool) \<Rightarrow> 'a list \<Rightarrow> 'a list" where
  "remove_first P [] = []"
| "remove_first P (x # xs) = (if P x then xs else x # remove_first P xs)"

definition change_usecase :: "int \<Rightarrow> (audio_usecase \<Rightarrow> audio_usecase) \<Rightarrow> audio_device \<Rightarrow> audio_device" where
  "change_usecase i f ad = ad\<lparr>ad_usecase_list := change_first (\<lambda>u. uc_id u = i) f (ad_usecase_list ad)\<rparr>"

definition remove_usecase :: "int \<Rightarrow> audio_device \<Rightarrow> audio_device" where
  "remove_usecase i ad = ad\<lparr>ad_usecase_list := remove_first (\<lambda>u. uc_id u = i) (ad_usecase_list ad)\<rparr>"

subsection \<open>The choice of a sound device\<close>

definition TTY_MODE_OFF :: int where "TTY_MODE_OFF = 1"
definition TTY_MODE_FULL :: int where "TTY_MODE_FULL = 2"
definition TTY_MODE_VCO :: int where "TTY_MODE_VCO = 4"
definition TTY_MODE_HCO :: int where "TTY_MODE_HCO = 8"
definition DUALMIC_CONFIG_1 :: int where "DUALMIC_CONFIG_1 = 1"

definition headphones :: "audio_h \<Rightarrow> u32 \<Rightarrow> bool" where
  "headphones A devices \<longleftrightarrow> has devices (AUDIO_DEVICE_OUT_WIRED_HEADPHONE A) \<or> has devices (AUDIO_DEVICE_OUT_WIRED_HEADSET A)"

definition call_output_device :: "audio_h \<Rightarrow> int \<Rightarrow> u32 \<Rightarrow> nat" where
  "call_output_device A tty_mode devices =
     (if headphones A devices then
        (if tty_mode = TTY_MODE_FULL then SND_DEVICE_OUT_VOICE_TTY_FULL_HEADPHONES
         else if tty_mode = TTY_MODE_VCO then SND_DEVICE_OUT_VOICE_TTY_VCO_HEADPHONES
         else if tty_mode = TTY_MODE_HCO then SND_DEVICE_OUT_VOICE_TTY_HCO_HANDSET
         else SND_DEVICE_OUT_VOICE_HEADPHONES)
      else if has devices (AUDIO_DEVICE_OUT_SPEAKER A) then SND_DEVICE_OUT_VOICE_SPEAKER
      else if has devices (AUDIO_DEVICE_OUT_EARPIECE A) then SND_DEVICE_OUT_HANDSET
      else SND_DEVICE_NONE)"

definition plain_output_device :: "audio_h \<Rightarrow> u32 \<Rightarrow> nat" where
  "plain_output_device A devices =
     (if popcount devices = 2 then
        (if devices = AUDIO_DEVICE_OUT_WIRED_HEADPHONE A OR AUDIO_DEVICE_OUT_SPEAKER A then SND_DEVICE_OUT_SPEAKER_AND_HEADPHONES
         else if devices = AUDIO_DEVICE_OUT_WIRED_HEADSET A OR AUDIO_DEVICE_OUT_SPEAKER A then SND_DEVICE_OUT_SPEAKER_AND_HEADPHONES
         else SND_DEVICE_NONE)
      else if popcount devices \<noteq> 1 then SND_DEVICE_NONE
      else if headphones A devices then SND_DEVICE_OUT_HEADPHONES
      else if has devices (AUDIO_DEVICE_OUT_SPEAKER A) then SND_DEVICE_OUT_SPEAKER
      else if has devices (AUDIO_DEVICE_OUT_EARPIECE A) then SND_DEVICE_OUT_HANDSET
      else SND_DEVICE_NONE)"

definition get_output_snd_device :: "audio_h \<Rightarrow> audio_device \<Rightarrow> u32 \<Rightarrow> nat" where
  "get_output_snd_device A ad devices =
     (if devices = AUDIO_DEVICE_NONE A \<or> has devices (AUDIO_DEVICE_BIT_IN A) then SND_DEVICE_NONE
      else if ad_mode ad = AUDIO_MODE_IN_CALL A \<and> call_output_device A (ad_tty_mode ad) devices \<noteq> SND_DEVICE_NONE
      then call_output_device A (ad_tty_mode ad) devices
      else plain_output_device A devices)"

definition tty_input_device :: "int \<Rightarrow> nat" where
  "tty_input_device tty_mode =
     (if tty_mode = TTY_MODE_FULL then SND_DEVICE_IN_VOICE_TTY_FULL_HEADSET_MIC
      else if tty_mode = TTY_MODE_VCO then SND_DEVICE_IN_VOICE_TTY_VCO_HANDSET_MIC
      else if tty_mode = TTY_MODE_HCO then SND_DEVICE_IN_VOICE_TTY_HCO_HEADSET_MIC
      else SND_DEVICE_NONE)"

definition call_input_device :: "audio_h \<Rightarrow> u32 \<Rightarrow> nat" where
  "call_input_device A out_device =
     (if has out_device (AUDIO_DEVICE_OUT_EARPIECE A) \<or> has out_device (AUDIO_DEVICE_OUT_WIRED_HEADPHONE A) then SND_DEVICE_IN_HANDSET_MIC
      else if has out_device (AUDIO_DEVICE_OUT_WIRED_HEADSET A) then SND_DEVICE_IN_VOICE_HEADSET_MIC
      else if has out_device (AUDIO_DEVICE_OUT_SPEAKER A) then SND_DEVICE_IN_VOICE_SPEAKER_MIC
      else SND_DEVICE_NONE)"

definition voice_rec_device :: "audio_h \<Rightarrow> audio_device \<Rightarrow> u32 \<Rightarrow> u32 \<Rightarrow> nat" where
  "voice_rec_device A ad in_device channel_mask =
     (if has in_device (AUDIO_DEVICE_IN_BUILTIN_MIC A) then
        (if ad_dualmic_config ad = DUALMIC_CONFIG_1 \<and> channel_mask = AUDIO_CHANNEL_IN_FRONT_BACK A then SND_DEVICE_IN_VOICE_REC_DMIC_1
         else if ad_dualmic_config ad = DUALMIC_CONFIG_1 \<and> ad_ns_in_voice_rec ad then SND_DEVICE_IN_VOICE_REC_DMIC_NS_1
         else SND_DEVICE_IN_VOICE_REC_MIC)
      else if has in_device (AUDIO_DEVICE_IN_WIRED_HEADSET A) then SND_DEVICE_IN_VOICE_REC_HEADSET_MIC
      else SND_DEVICE_NONE)"

definition aec_device :: "audio_h \<Rightarrow> u32 \<Rightarrow> u32 \<Rightarrow> nat" where
  "aec_device A in_device out_device =
     (if has in_device (AUDIO_DEVICE_IN_BACK_MIC A) then SND_DEVICE_IN_SPEAKER_MIC_AEC
      else if has in_device (AUDIO_DEVICE_IN_BUILTIN_MIC A) then
        (if has out_device (AUDIO_DEVICE_OUT_WIRED_HEADPHONE A) then SND_DEVICE_IN_SPEAKER_MIC_AEC else SND_DEVICE_IN_HANDSET_MIC_AEC)
      else if has in_device (AUDIO_DEVICE_IN_WIRED_HEADSET A) then SND_DEVICE_IN_HEADSET_MIC_AEC
      else SND_DEVICE_NONE)"

text \<open>The default at the end of the function.\<close>

definition default_input_device :: "audio_h \<Rightarrow> u32 \<Rightarrow> u32 \<Rightarrow> nat" where
  "default_input_device A in_device out_device =
     (if in_device \<noteq> AUDIO_DEVICE_NONE A \<and> \<not> has in_device (AUDIO_DEVICE_IN_VOICE_CALL A) \<and> \<not> has in_device (AUDIO_DEVICE_IN_COMMUNICATION A) then
        (if has in_device (AUDIO_DEVICE_IN_BUILTIN_MIC A) then SND_DEVICE_IN_HANDSET_MIC
         else if has in_device (AUDIO_DEVICE_IN_BACK_MIC A) then SND_DEVICE_IN_SPEAKER_MIC
         else if has in_device (AUDIO_DEVICE_IN_WIRED_HEADSET A) then SND_DEVICE_IN_HEADSET_MIC
         else if has in_device (AUDIO_DEVICE_IN_AUX_DIGITAL A) then SND_DEVICE_IN_HDMI_MIC
         else SND_DEVICE_IN_HANDSET_MIC)
      else
        (if has out_device (AUDIO_DEVICE_OUT_EARPIECE A) then SND_DEVICE_IN_HANDSET_MIC
         else if has out_device (AUDIO_DEVICE_OUT_WIRED_HEADSET A) then SND_DEVICE_IN_HEADSET_MIC
         else if has out_device (AUDIO_DEVICE_OUT_SPEAKER A) then SND_DEVICE_IN_SPEAKER_MIC
         else if has out_device (AUDIO_DEVICE_OUT_WIRED_HEADPHONE A) then SND_DEVICE_IN_HANDSET_MIC
         else SND_DEVICE_IN_HANDSET_MIC))"

definition or_default :: "nat \<Rightarrow> nat \<Rightarrow> nat" where
  "or_default snd_device d = (if snd_device \<noteq> SND_DEVICE_NONE then snd_device else d)"

text \<open>The function once the active input is known.\<close>

definition input_snd_device :: "audio_h \<Rightarrow> audio_device \<Rightarrow> stream_in option \<Rightarrow> u32 \<Rightarrow> nat" where
  "input_snd_device A ad active_input out_device =
     (let source = (case active_input of None \<Rightarrow> AUDIO_SOURCE_DEFAULT A | Some s \<Rightarrow> si_source s);
          in_device = (case active_input of None \<Rightarrow> AUDIO_DEVICE_NONE A | Some s \<Rightarrow> si_devices s) AND NOT (AUDIO_DEVICE_BIT_IN A);
          channel_mask = (case active_input of None \<Rightarrow> AUDIO_CHANNEL_IN_MONO A | Some s \<Rightarrow> si_main_channels s)
      in if ad_mode ad = AUDIO_MODE_IN_CALL A then
           (if out_device = AUDIO_DEVICE_NONE A then SND_DEVICE_NONE
            else if ad_tty_mode ad \<noteq> TTY_MODE_OFF \<and> headphones A out_device then tty_input_device (ad_tty_mode ad)
            else or_default (call_input_device A out_device) (default_input_device A in_device out_device))
         else if source = AUDIO_SOURCE_CAMCORDER A then
           (if has in_device (AUDIO_DEVICE_IN_BUILTIN_MIC A) \<or> has in_device (AUDIO_DEVICE_IN_BACK_MIC A) then SND_DEVICE_IN_CAMCORDER_MIC
            else default_input_device A in_device out_device)
         else if source = AUDIO_SOURCE_VOICE_RECOGNITION A then
           or_default (voice_rec_device A ad in_device channel_mask) (default_input_device A in_device out_device)
         else if source = AUDIO_SOURCE_VOICE_COMMUNICATION A \<or> source = AUDIO_SOURCE_MIC A then
           (let in_device' = (if has out_device (AUDIO_DEVICE_OUT_SPEAKER A) then AUDIO_DEVICE_IN_BACK_MIC A else in_device);
                aec = (case active_input of Some s \<Rightarrow> si_enable_aec s | None \<Rightarrow> False)
            in or_default (if aec then aec_device A in_device' out_device else SND_DEVICE_NONE) (default_input_device A in_device' out_device))
         else if source = AUDIO_SOURCE_DEFAULT A then SND_DEVICE_NONE
         else default_input_device A in_device out_device)"

text \<open>The input stream that runs: the stream of the first capture or voice call, read as an input stream.\<close>

definition running_input :: "audio_env \<Rightarrow> audio_device \<Rightarrow> hal_fault + stream_in option" where
  "running_input E ad =
     (case get_usecase_from_type ad (PCM_CAPTURE OR VOICE_CALL) of
        None \<Rightarrow> Inr None
      | Some u \<Rightarrow> and_then (stream_as_input E ad (uc_stream u)) (\<lambda>s. Inr (Some s)))"

definition get_input_snd_device :: "audio_env \<Rightarrow> audio_device \<Rightarrow> u32 \<Rightarrow> hal_fault + nat" where
  "get_input_snd_device E ad out_device =
     and_then (running_input E ad) (\<lambda>active_input. Inr (input_snd_device (ae_h E) ad active_input out_device))"

subsection \<open>Reference counts and paths\<close>

definition route_calls :: "(int \<Rightarrow> string \<Rightarrow> route_call) \<Rightarrow> string \<Rightarrow> bool \<Rightarrow> int list \<Rightarrow> route_call list \<Rightarrow> route_call list" where
  "route_calls C name update_mixer cards log =
     fold (\<lambda>cd l. (if update_mixer then [Update_Mixer cd] else []) @ C cd name # l) cards log"

definition enable_snd_device :: "audio_device \<Rightarrow> audio_usecase \<Rightarrow> nat \<Rightarrow> bool \<Rightarrow> int \<times> audio_device" where
  "enable_snd_device ad uc_info snd_device update_mixer =
     (case get_snd_device_name snd_device of
        None \<Rightarrow> (- HAL_EINVAL, ad)
      | Some name \<Rightarrow>
          (let cnt = ad_snd_dev_ref_cnt ad ! snd_device + 1;
               ad1 = ad\<lparr>ad_snd_dev_ref_cnt := (ad_snd_dev_ref_cnt ad)[snd_device := cnt]\<rparr>
           in if 1 < cnt then (0, ad1)
              else (0, ad1\<lparr>ad_log := route_calls Apply_Path name update_mixer (uc_mixer_list uc_info) (ad_log ad1)\<rparr>)))"

definition disable_snd_device :: "audio_device \<Rightarrow> audio_usecase \<Rightarrow> nat \<Rightarrow> bool \<Rightarrow> int \<times> audio_device" where
  "disable_snd_device ad uc_info snd_device update_mixer =
     (case get_snd_device_name snd_device of
        None \<Rightarrow> (- HAL_EINVAL, ad)
      | Some name \<Rightarrow>
          (let cnt = ad_snd_dev_ref_cnt ad ! snd_device
           in if cnt \<le> 0 then (- HAL_EINVAL, ad)
              else
                (let ad1 = ad\<lparr>ad_snd_dev_ref_cnt := (ad_snd_dev_ref_cnt ad)[snd_device := cnt - 1]\<rparr>
                 in if cnt - 1 = 0
                    then (0, ad1\<lparr>ad_log := route_calls Reset_Path name update_mixer (uc_mixer_list uc_info) (ad_log ad1)\<rparr>)
                    else (0, ad1))))"

text \<open>The end of \<^verbatim>\<open>select_devices\<close>: the old sound devices are left, the new ones entered, and the mixers updated.\<close>

definition switch_devices :: "int \<Rightarrow> nat \<Rightarrow> nat \<Rightarrow> audio_device \<Rightarrow> audio_device" where
  "switch_devices i out_snd_device in_snd_device ad =
     (case get_usecase_from_id ad i of
        None \<Rightarrow> ad
      | Some u \<Rightarrow>
          if out_snd_device = uc_out_snd_device u \<and> in_snd_device = uc_in_snd_device u then ad
          else
            (let ad1 = (if uc_out_snd_device u \<noteq> SND_DEVICE_NONE then snd (disable_snd_device ad u (uc_out_snd_device u) False) else ad);
                 ad2 = (if uc_in_snd_device u \<noteq> SND_DEVICE_NONE then snd (disable_snd_device ad1 u (uc_in_snd_device u) False) else ad1);
                 ad3 = (if out_snd_device \<noteq> SND_DEVICE_NONE then snd (enable_snd_device ad2 u out_snd_device False) else ad2);
                 ad4 = (if in_snd_device \<noteq> SND_DEVICE_NONE then snd (enable_snd_device ad3 u in_snd_device False) else ad3);
                 ad5 = ad4\<lparr>ad_log := fold (\<lambda>cd l. Update_Mixer cd # l) (uc_mixer_list u) (ad_log ad4)\<rparr>
             in change_usecase i (\<lambda>v. v\<lparr>uc_in_snd_device := in_snd_device, uc_out_snd_device := out_snd_device\<rparr>) ad5))"

definition set_devices :: "int \<Rightarrow> u32 \<Rightarrow> audio_device \<Rightarrow> audio_device" where
  "set_devices i d = change_usecase i (\<lambda>v. v\<lparr>uc_devices := d\<rparr>)"

text \<open>The sound devices of a voice call. There is no test that its use case was found.\<close>

definition call_devices :: "audio_device \<Rightarrow> hal_fault + nat \<times> nat" where
  "call_devices ad =
     (if ad_in_call ad then
        (case get_usecase_from_id ad USECASE_VOICE_CALL of
           None \<Rightarrow> Inl Null_Stream
         | Some vc \<Rightarrow> Inr (uc_out_snd_device vc, uc_in_snd_device vc))
      else Inr (SND_DEVICE_NONE, SND_DEVICE_NONE))"

text \<open>The three kinds of use cases. \<open>rec\<close> is the call of \<^verbatim>\<open>select_devices\<close> for the input stream that runs.\<close>

definition select_voice_call :: "audio_env \<Rightarrow> audio_device \<Rightarrow> int \<Rightarrow> stream_ref \<Rightarrow> hal_fault + audio_device" where
  "select_voice_call E ad i stream =
     and_then (stream_as_output ad stream) (\<lambda>(_, out).
     and_then (get_input_snd_device E ad (so_devices out)) (\<lambda>in_dev.
       Inr (switch_devices i (get_output_snd_device (ae_h E) ad (so_devices out)) in_dev (set_devices i (so_devices out) ad))))"

definition reselect_input :: "audio_env \<Rightarrow> (audio_device \<Rightarrow> int \<Rightarrow> hal_fault + int \<times> audio_device) \<Rightarrow> nat \<Rightarrow> audio_device \<Rightarrow> hal_fault + audio_device" where
  "reselect_input E rec a ad =
     (if ad_primary_output ad = Some a then
        and_then (running_input E ad) (\<lambda>active_input.
          (case active_input of
             None \<Rightarrow> Inr ad
           | Some s \<Rightarrow>
               if si_source s = AUDIO_SOURCE_VOICE_COMMUNICATION (ae_h E)
               then and_then (rec ad (si_usecase s)) (\<lambda>(_, ad'). Inr ad') else Inr ad))
      else Inr ad)"

definition select_playback ::
  "audio_env \<Rightarrow> (audio_device \<Rightarrow> int \<Rightarrow> hal_fault + int \<times> audio_device) \<Rightarrow> audio_device \<Rightarrow> int \<Rightarrow> stream_ref \<Rightarrow> nat \<Rightarrow> hal_fault + audio_device" where
  "select_playback E rec ad i stream out_dev =
     and_then (stream_as_output ad stream) (\<lambda>(a, out).
       (let ad1 = set_devices i (so_devices out) ad
        in if out_dev \<noteq> SND_DEVICE_NONE then Inr (switch_devices i out_dev SND_DEVICE_NONE ad1)
           else and_then (reselect_input E rec a ad1) (\<lambda>ad2.
                  Inr (switch_devices i (get_output_snd_device (ae_h E) ad (so_devices out)) SND_DEVICE_NONE ad2))))"

text \<open>The output devices that matter for an echo: those of the primary output, if it plays.\<close>

definition echo_devices :: "audio_env \<Rightarrow> audio_device \<Rightarrow> hal_fault + u32" where
  "echo_devices E ad =
     and_then (running_input E ad) (\<lambda>active_input.
       (case active_input of
          None \<Rightarrow> Inl Null_Stream
        | Some s \<Rightarrow>
            if si_source s = AUDIO_SOURCE_VOICE_COMMUNICATION (ae_h E) then
              (case ad_primary_output ad of
                 None \<Rightarrow> Inr (AUDIO_DEVICE_NONE (ae_h E))
               | Some p \<Rightarrow> and_then (get_out ad p) (\<lambda>out. Inr (if so_standby out then AUDIO_DEVICE_NONE (ae_h E) else so_devices out)))
            else Inr (AUDIO_DEVICE_NONE (ae_h E))))"

definition select_capture :: "audio_env \<Rightarrow> audio_device \<Rightarrow> int \<Rightarrow> stream_ref \<Rightarrow> nat \<Rightarrow> hal_fault + audio_device" where
  "select_capture E ad i stream in_dev =
     and_then (stream_as_input E ad stream) (\<lambda>s.
       (let ad1 = set_devices i (si_devices s) ad
        in if in_dev \<noteq> SND_DEVICE_NONE then Inr (switch_devices i SND_DEVICE_NONE in_dev ad1)
           else and_then (echo_devices E ad1) (\<lambda>devices.
                and_then (get_input_snd_device E ad1 devices) (\<lambda>in_dev'.
                  Inr (switch_devices i SND_DEVICE_NONE in_dev' ad1)))))"

text \<open>\<^verbatim>\<open>select_devices\<close>. The first number counts how many nested calls there is room for.\<close>

fun select_devices :: "nat \<Rightarrow> audio_env \<Rightarrow> audio_device \<Rightarrow> int \<Rightarrow> hal_fault + int \<times> audio_device" where
  "select_devices 0 E ad i = Inl Stack_Overflow"
| "select_devices (Suc n) E ad i =
     (if i = USECASE_AUDIO_CAPTURE_HOTWORD then Inr (0, ad)
      else case get_usecase_from_id ad i of
          None \<Rightarrow> Inr (- HAL_EINVAL, ad)
        | Some u \<Rightarrow>
            and_then
              (if uc_type u = VOICE_CALL then select_voice_call E ad i (uc_stream u)
               else and_then (call_devices ad) (\<lambda>(out_dev, in_dev).
                      if uc_type u = PCM_PLAYBACK then select_playback E (select_devices n E) ad i (uc_stream u) out_dev
                      else if uc_type u = PCM_CAPTURE then select_capture E ad i (uc_stream u) in_dev
                      else Inr (switch_devices i out_dev in_dev ad)))
              (\<lambda>ad'. Inr (0, ad')))"

subsection \<open>The sound devices are of the right kind\<close>

definition out_range :: "nat \<Rightarrow> bool" where
  "out_range d \<longleftrightarrow> d = SND_DEVICE_NONE \<or> SND_DEVICE_OUT_HANDSET \<le> d \<and> d < SND_DEVICE_OUT_END"

definition in_range :: "nat \<Rightarrow> bool" where
  "in_range d \<longleftrightarrow> d = SND_DEVICE_NONE \<or> SND_DEVICE_IN_HANDSET_MIC \<le> d \<and> d < SND_DEVICE_MAX"

lemma none_in_range [simp]: "out_range SND_DEVICE_NONE" "in_range SND_DEVICE_NONE"
  by (simp_all add: out_range_def in_range_def)

lemma get_output_range [simp]: "out_range (get_output_snd_device A ad devices)"
  by (simp add: get_output_snd_device_def call_output_device_def plain_output_device_def out_range_def snd_device_defs)

lemma choice_range [simp]:
  "in_range (tty_input_device t)" "in_range (call_input_device A o')" "in_range (voice_rec_device A ad i m)" "in_range (aec_device A i o')"
  "in_range (default_input_device A i o')" "default_input_device A i o' \<noteq> SND_DEVICE_NONE"
  by (simp_all add: tty_input_device_def call_input_device_def voice_rec_device_def aec_device_def default_input_device_def in_range_def snd_device_defs)

lemma or_default_range [simp]: "in_range d \<Longrightarrow> in_range e \<Longrightarrow> in_range (or_default d e)"
  by (simp add: or_default_def)

lemma camcorder_range [simp]: "in_range SND_DEVICE_IN_CAMCORDER_MIC"
  by (simp add: in_range_def snd_device_defs)

lemma input_snd_device_range [simp]: "in_range (input_snd_device A ad s o')"
  by (simp add: input_snd_device_def Let_def)

lemma get_input_range: "get_input_snd_device E ad devices = Inr d \<Longrightarrow> in_range d"
  by (auto simp: get_input_snd_device_def and_then_Inr)

subsection \<open>What a change of routes does\<close>

text \<open>
  Every result of \<^verbatim>\<open>select_devices\<close> comes about by switching use cases to sound devices of the right kind and by
  noting the devices of a stream in its use case. A playback has no input device and a capture no output device.
\<close>

definition route_fits :: "audio_device \<Rightarrow> int \<Rightarrow> nat \<Rightarrow> nat \<Rightarrow> bool" where
  "route_fits ad i x y \<longleftrightarrow> out_range x \<and> in_range y \<and>
     (\<forall>u. get_usecase_from_id ad i = Some u \<longrightarrow>
        (uc_type u = PCM_PLAYBACK \<longrightarrow> y = SND_DEVICE_NONE) \<and> (uc_type u = PCM_CAPTURE \<longrightarrow> x = SND_DEVICE_NONE))"

inductive routed :: "audio_device \<Rightarrow> audio_device \<Rightarrow> bool" where
  routed_refl: "routed ad ad"
| routed_devices: "routed ad ad' \<Longrightarrow> routed ad (set_devices i d ad')"
| routed_switch: "routed ad ad' \<Longrightarrow> route_fits ad' i x y \<Longrightarrow> routed ad (switch_devices i x y ad')"

lemma routed_trans: "routed b c \<Longrightarrow> routed a b \<Longrightarrow> routed a c"
  by (induction rule: routed.induct) (auto intro: routed.intros)

definition devices_ok :: "audio_device \<Rightarrow> bool" where
  "devices_ok ad \<longleftrightarrow>
     (\<forall>u \<in> set (ad_usecase_list ad). out_range (uc_out_snd_device u) \<and> in_range (uc_in_snd_device u) \<and>
        (uc_type u = PCM_PLAYBACK \<longrightarrow> uc_in_snd_device u = SND_DEVICE_NONE) \<and> (uc_type u = PCM_CAPTURE \<longrightarrow> uc_out_snd_device u = SND_DEVICE_NONE))"

lemma find_in_set: "find P xs = Some x \<Longrightarrow> x \<in> set xs \<and> P x"
  by (auto simp: find_Some_iff)

lemma set_change_first: "y \<in> set (change_first P f xs) \<Longrightarrow> y \<in> set xs \<or> (\<exists>x. find P xs = Some x \<and> y = f x)"
  by (induction xs) (auto split: if_splits)

lemma change_first_none: "find P xs = None \<Longrightarrow> change_first P f xs = xs"
  by (induction xs) (auto split: if_splits)

lemma map_change_first: "(\<And>x. g (f x) = g x) \<Longrightarrow> map g (change_first P f xs) = map g xs"
  by (induction xs) auto

lemma sum_change_first:
  "find P xs = Some x \<Longrightarrow> sum_list (map g (change_first P f xs)) = sum_list (map g xs) - g x + (g (f x) :: int)"
  by (induction xs) (auto split: if_splits)

lemma sum_remove_first: "find P xs = Some x \<Longrightarrow> sum_list (map g (remove_first P xs)) = sum_list (map g xs) - (g x :: int)"
  by (induction xs) (auto split: if_splits)

lemma set_remove_first: "set (remove_first P xs) \<subseteq> set xs"
  by (induction xs) auto

text \<open>The parts of the device that routing leaves alone.\<close>

definition uc_keys :: "audio_device \<Rightarrow> (int \<times> u32 \<times> stream_ref \<times> int list) list" where
  "uc_keys ad = map (\<lambda>u. (uc_id u, uc_type u, uc_stream u, uc_mixer_list u)) (ad_usecase_list ad)"

definition ad_frame :: "audio_device \<Rightarrow> audio_device" where
  "ad_frame ad = ad\<lparr>ad_snd_dev_ref_cnt := [], ad_usecase_list := [], ad_log := []\<rparr>"

definition same_except_routes :: "audio_device \<Rightarrow> audio_device \<Rightarrow> bool" where
  "same_except_routes a b \<longleftrightarrow> ad_frame a = ad_frame b \<and> uc_keys a = uc_keys b"

lemma same_except_routes_refl [simp]: "same_except_routes a a"
  by (simp add: same_except_routes_def)

lemma same_except_routes_trans: "same_except_routes a b \<Longrightarrow> same_except_routes b c \<Longrightarrow> same_except_routes a c"
  by (simp add: same_except_routes_def)

lemma ad_frame_fields:
  assumes "ad_frame a = ad_frame b"
  shows "ad_mixer_list b = ad_mixer_list a" "ad_mode b = ad_mode a" "ad_active_input b = ad_active_input a"
    "ad_primary_output b = ad_primary_output a" "ad_in_call b = ad_in_call a" "ad_profiles b = ad_profiles a" "ad_outs b = ad_outs a"
    "ad_ins b = ad_ins a" "ad_pcms b = ad_pcms a" "ad_tty_mode b = ad_tty_mode a" "ad_mic_mute b = ad_mic_mute a"
    "ad_sound_trigger b = ad_sound_trigger a"
  using arg_cong [OF assms, of ad_mixer_list] arg_cong [OF assms, of ad_mode] arg_cong [OF assms, of ad_active_input]
    arg_cong [OF assms, of ad_primary_output] arg_cong [OF assms, of ad_in_call] arg_cong [OF assms, of ad_profiles]
    arg_cong [OF assms, of ad_outs] arg_cong [OF assms, of ad_ins] arg_cong [OF assms, of ad_pcms] arg_cong [OF assms, of ad_tty_mode]
    arg_cong [OF assms, of ad_mic_mute] arg_cong [OF assms, of ad_sound_trigger]
  by (simp_all add: ad_frame_def)

lemma frame_enable [simp]: "ad_frame (snd (enable_snd_device ad u d b)) = ad_frame ad"
  "ad_usecase_list (snd (enable_snd_device ad u d b)) = ad_usecase_list ad"
  by (simp_all add: enable_snd_device_def ad_frame_def Let_def split: option.split)

lemma frame_disable [simp]: "ad_frame (snd (disable_snd_device ad u d b)) = ad_frame ad"
  "ad_usecase_list (snd (disable_snd_device ad u d b)) = ad_usecase_list ad"
  by (simp_all add: disable_snd_device_def ad_frame_def Let_def split: option.split)

lemma frame_change [simp]: "ad_frame (change_usecase i f ad) = ad_frame ad" "ad_frame (ad\<lparr>ad_log := l\<rparr>) = ad_frame ad"
  by (simp_all add: change_usecase_def ad_frame_def)

lemma frame_switch [simp]: "ad_frame (switch_devices i x y ad) = ad_frame ad"
  by (simp add: switch_devices_def Let_def split: option.split)

lemma list_switch:
  "ad_usecase_list (switch_devices i x y ad) =
     change_first (\<lambda>u. uc_id u = i) (\<lambda>v. v\<lparr>uc_in_snd_device := y, uc_out_snd_device := x\<rparr>) (ad_usecase_list ad)"
proof (cases "get_usecase_from_id ad i")
  case None
  then show ?thesis by (simp add: switch_devices_def get_usecase_from_id_def change_first_none)
next
  case (Some u)
  have same: "find P xs = Some u \<Longrightarrow> x = uc_out_snd_device u \<Longrightarrow> y = uc_in_snd_device u \<Longrightarrow>
      change_first P (\<lambda>v. v\<lparr>uc_in_snd_device := y, uc_out_snd_device := x\<rparr>) xs = xs" for P xs
    by (induction xs) (auto split: if_splits)
  show ?thesis
    using Some same by (simp add: switch_devices_def get_usecase_from_id_def change_usecase_def Let_def)
qed

lemma routed_frame: "routed a b \<Longrightarrow> same_except_routes a b"
proof (induction rule: routed.induct)
  case (routed_devices ad ad' i d)
  then show ?case
    by (simp add: same_except_routes_def set_devices_def uc_keys_def) (simp add: change_usecase_def map_change_first)
next
  case (routed_switch ad ad' x y i)
  then show ?case by (simp add: same_except_routes_def uc_keys_def list_switch map_change_first)
qed simp

lemma devices_ok_switch: "devices_ok ad \<Longrightarrow> route_fits ad i x y \<Longrightarrow> devices_ok (switch_devices i x y ad)"
  using set_change_first by (fastforce simp: devices_ok_def list_switch route_fits_def get_usecase_from_id_def)

lemma devices_ok_set [simp]: "devices_ok ad \<Longrightarrow> devices_ok (set_devices i d ad)"
  using set_change_first find_in_set by (fastforce simp: devices_ok_def set_devices_def change_usecase_def)

lemma routed_devices_ok: "routed a b \<Longrightarrow> devices_ok a \<Longrightarrow> devices_ok b"
  by (induction rule: routed.induct) (auto intro: devices_ok_switch)

lemma usecase_ok: "devices_ok ad \<Longrightarrow> get_usecase_from_id ad i = Some u \<Longrightarrow> out_range (uc_out_snd_device u) \<and> in_range (uc_in_snd_device u)"
  using find_in_set by (fastforce simp: devices_ok_def get_usecase_from_id_def)

lemma find_map_key: "(\<And>x. P x = Q (g x)) \<Longrightarrow> map_option g (find P xs) = find Q (map g xs)"
  by (induction xs) auto

lemma type_of_key:
  assumes "uc_keys a = uc_keys b"
  shows "map_option uc_type (get_usecase_from_id a i) = map_option uc_type (get_usecase_from_id b i)"
proof -
  let ?g = "\<lambda>u. (uc_id u, uc_type u, uc_stream u, uc_mixer_list u)"
  have "map_option ?g (get_usecase_from_id ad i) = find (\<lambda>k. fst k = i) (uc_keys ad)" for ad
    unfolding get_usecase_from_id_def uc_keys_def by (rule find_map_key) simp
  then have "map_option ?g (get_usecase_from_id a i) = map_option ?g (get_usecase_from_id b i)" using assms by simp
  then show ?thesis by (cases "get_usecase_from_id a i"; cases "get_usecase_from_id b i") auto
qed

lemma fits_routed: "routed a b \<Longrightarrow> route_fits b i x y = route_fits a i x y"
  using type_of_key [of a b i] routed_frame [of a b]
  by (cases "get_usecase_from_id a i"; cases "get_usecase_from_id b i") (auto simp: same_except_routes_def route_fits_def)

lemma routed_then_switch: "routed a b \<Longrightarrow> route_fits a i x y \<Longrightarrow> routed a (switch_devices i x y b)"
  by (intro routed_switch) (simp_all add: fits_routed)

lemma routed_set_switch: "route_fits ad i x y \<Longrightarrow> routed ad (switch_devices i x y (set_devices i d ad))"
  by (intro routed_then_switch routed_devices routed_refl)

lemma call_devices_range: "devices_ok ad \<Longrightarrow> call_devices ad = Inr (x, y) \<Longrightarrow> out_range x \<and> in_range y"
  using usecase_ok by (auto simp: call_devices_def split: if_splits option.splits)

lemma select_voice_call_routed:
  "get_usecase_from_id ad i = Some u \<Longrightarrow> uc_type u = VOICE_CALL \<Longrightarrow> select_voice_call E ad i st = Inr ad' \<Longrightarrow> routed ad ad'"
  using get_input_range by (auto simp: select_voice_call_def and_then_Inr route_fits_def usecase_type_defs intro!: routed_set_switch)

lemma reselect_input_routed:
  "(\<And>j r ad'. rec ad j = Inr (r, ad') \<Longrightarrow> routed ad ad') \<Longrightarrow> reselect_input E rec a ad = Inr ad' \<Longrightarrow> routed ad ad'"
  by (auto simp: reselect_input_def and_then_Inr split: if_splits option.splits intro: routed_refl)

lemma select_playback_routed:
  assumes "devices_ok ad" "\<And>ad j r ad'. devices_ok ad \<Longrightarrow> rec ad j = Inr (r, ad') \<Longrightarrow> routed ad ad'"
    and "get_usecase_from_id ad i = Some u" "uc_type u = PCM_PLAYBACK" "out_range x"
    and "select_playback E rec ad i st x = Inr ad'"
  shows "routed ad ad'"
proof -
  obtain a out where out: "stream_as_output ad st = Inr (a, out)" using assms(6) by (auto simp: select_playback_def and_then_Inr)
  let ?ad = "set_devices i (so_devices out) ad"
  have fit: "out_range z \<Longrightarrow> route_fits ad i z SND_DEVICE_NONE" for z using assms(3,4) by (simp add: route_fits_def usecase_type_defs)
  show ?thesis
  proof (cases "x \<noteq> SND_DEVICE_NONE")
    case True
    then show ?thesis using assms(5,6) out fit by (auto simp: select_playback_def Let_def intro!: routed_set_switch)
  next
    case False
    then obtain ad2 where "reselect_input E rec a ?ad = Inr ad2" and ad': "ad' = switch_devices i (get_output_snd_device (ae_h E) ad (so_devices out)) SND_DEVICE_NONE ad2"
      using assms(6) out by (auto simp: select_playback_def Let_def and_then_Inr)
    then have "routed ?ad ad2" using reselect_input_routed assms(2) devices_ok_set [OF assms(1)] by blast
    then have "routed ad ad2" using routed_trans routed_devices routed_refl by blast
    then show ?thesis unfolding ad' by (intro routed_then_switch fit) auto
  qed
qed

lemma select_capture_routed:
  assumes "get_usecase_from_id ad i = Some u" "uc_type u = PCM_CAPTURE" "in_range y" "select_capture E ad i st y = Inr ad'"
  shows "routed ad ad'"
proof -
  have "in_range z \<Longrightarrow> route_fits ad i SND_DEVICE_NONE z" for z using assms(1,2) by (simp add: route_fits_def usecase_type_defs)
  then show ?thesis
    using assms(3,4) get_input_range by (auto simp: select_capture_def and_then_Inr Let_def split: if_splits intro!: routed_set_switch)
qed

lemma select_devices_routed: "devices_ok ad \<Longrightarrow> select_devices n E ad i = Inr (r, ad') \<Longrightarrow> routed ad ad'"
proof (induction n arbitrary: ad i r ad')
  case (Suc n)
  note rec = Suc.IH
  show ?case
  proof (cases "i = USECASE_AUDIO_CAPTURE_HOTWORD \<or> get_usecase_from_id ad i = None")
    case True
    then show ?thesis using Suc.prems(2) by (auto split: if_splits intro: routed_refl)
  next
    case False
    then obtain u where u: "get_usecase_from_id ad i = Some u" "i \<noteq> USECASE_AUDIO_CAPTURE_HOTWORD" by auto
    show ?thesis
    proof (cases "uc_type u = VOICE_CALL")
      case True
      then show ?thesis using Suc.prems(2) u select_voice_call_routed by (auto simp: and_then_Inr)
    next
      case other: False
      then obtain x y where xy: "call_devices ad = Inr (x, y)" using Suc.prems(2) u by (auto simp: and_then_Inr)
      note range = call_devices_range [OF Suc.prems(1) xy]
      consider "uc_type u = PCM_PLAYBACK" "select_playback E (select_devices n E) ad i (uc_stream u) x = Inr ad'"
        | "uc_type u = PCM_CAPTURE" "select_capture E ad i (uc_stream u) y = Inr ad'"
        | "route_fits ad i x y" "ad' = switch_devices i x y ad"
        using Suc.prems(2) u other xy range by (auto simp: and_then_Inr route_fits_def split: if_splits)
      then show ?thesis
      proof cases
        case 1
        then show ?thesis using select_playback_routed [of ad "select_devices n E" i u x] Suc.prems(1) rec u range by metis
      next
        case 2
        then show ?thesis using select_capture_routed u range by blast
      next
        case 3
        then show ?thesis using routed_switch [OF routed_refl] by blast
      qed
    qed
  qed
qed simp

subsection \<open>Reference counts\<close>

definition uses :: "nat \<Rightarrow> audio_usecase \<Rightarrow> int" where
  "uses d u = of_bool (uc_out_snd_device u = d) + of_bool (uc_in_snd_device u = d)"

definition users :: "nat \<Rightarrow> audio_device \<Rightarrow> int" where
  "users d ad = sum_list (map (uses d) (ad_usecase_list ad))"

text \<open>The count of a sound device is the number of use cases that have it.\<close>

definition refs_ok :: "audio_device \<Rightarrow> bool" where
  "refs_ok ad \<longleftrightarrow> length (ad_snd_dev_ref_cnt ad) = SND_DEVICE_MAX \<and>
     (\<forall>d. SND_DEVICE_MIN \<le> d \<and> d < SND_DEVICE_MAX \<longrightarrow> ad_snd_dev_ref_cnt ad ! d = users d ad)"

lemma uses_nonneg [simp]: "0 \<le> uses d u"
  by (simp add: uses_def)

lemma users_member: "u \<in> set (ad_usecase_list ad) \<Longrightarrow> uses d u \<le> users d ad"
  unfolding users_def by (intro member_le_sum_list) auto

definition counts_after :: "int \<Rightarrow> nat \<Rightarrow> audio_device \<Rightarrow> audio_device \<Rightarrow> bool" where
  "counts_after k d ad ad' \<longleftrightarrow> length (ad_snd_dev_ref_cnt ad') = length (ad_snd_dev_ref_cnt ad) \<and>
     (\<forall>e. SND_DEVICE_MIN \<le> e \<and> e < SND_DEVICE_MAX \<longrightarrow> ad_snd_dev_ref_cnt ad' ! e = ad_snd_dev_ref_cnt ad ! e + k * of_bool (e = d))"

lemma counts_none [simp]: "counts_after k SND_DEVICE_NONE ad ad"
  by (simp add: counts_after_def snd_device_defs)

lemma enable_counts:
  "length (ad_snd_dev_ref_cnt ad) = SND_DEVICE_MAX \<Longrightarrow> d < SND_DEVICE_MAX \<Longrightarrow> counts_after 1 d ad (snd (enable_snd_device ad u d b))"
  by (auto simp: counts_after_def enable_snd_device_def get_snd_device_name_def Let_def nth_list_update)

lemma disable_counts:
  "length (ad_snd_dev_ref_cnt ad) = SND_DEVICE_MAX \<Longrightarrow> d < SND_DEVICE_MAX \<Longrightarrow> (d = SND_DEVICE_NONE \<or> 0 < ad_snd_dev_ref_cnt ad ! d) \<Longrightarrow>
   counts_after (- 1) d ad (snd (disable_snd_device ad u d b))"
  by (auto simp: counts_after_def disable_snd_device_def get_snd_device_name_def Let_def nth_list_update snd_device_defs)

lemma range_max: "out_range d \<Longrightarrow> d < SND_DEVICE_MAX" "in_range d \<Longrightarrow> d < SND_DEVICE_MAX"
  by (auto simp: out_range_def in_range_def snd_device_defs)

lemma range_min: "out_range d \<or> in_range d \<Longrightarrow> d \<noteq> SND_DEVICE_NONE \<Longrightarrow> SND_DEVICE_MIN \<le> d"
  by (auto simp: out_range_def in_range_def snd_device_defs)

text \<open>A use case that leaves its two sound devices.\<close>

lemma leave_counts:
  assumes "refs_ok ad" "u \<in> set (ad_usecase_list ad)" "out_range (uc_out_snd_device u)" "in_range (uc_in_snd_device u)"
    and "ad1 = snd (disable_snd_device ad u (uc_out_snd_device u) b)" "ad2 = snd (disable_snd_device ad1 u (uc_in_snd_device u) c)"
  shows "length (ad_snd_dev_ref_cnt ad2) = SND_DEVICE_MAX"
    "SND_DEVICE_MIN \<le> e \<Longrightarrow> e < SND_DEVICE_MAX \<Longrightarrow> ad_snd_dev_ref_cnt ad2 ! e = ad_snd_dev_ref_cnt ad ! e - uses e u"
proof -
  let ?x = "uc_out_snd_device u" and ?y = "uc_in_snd_device u"
  have len: "length (ad_snd_dev_ref_cnt ad) = SND_DEVICE_MAX" and cnt: "\<And>d. SND_DEVICE_MIN \<le> d \<Longrightarrow> d < SND_DEVICE_MAX \<Longrightarrow> ad_snd_dev_ref_cnt ad ! d = users d ad"
    using assms(1) by (auto simp: refs_ok_def)
  have pos: "d \<noteq> SND_DEVICE_NONE \<Longrightarrow> SND_DEVICE_MIN \<le> d \<Longrightarrow> d < SND_DEVICE_MAX \<Longrightarrow> uses d u \<le> ad_snd_dev_ref_cnt ad ! d" for d
    using cnt users_member [OF assms(2)] by simp
  have ux: "uses ?x u = 1 + of_bool (?y = ?x)" and uy: "uses ?y u = 1 + of_bool (?x = ?y)" by (simp_all add: uses_def)
  have "?x = SND_DEVICE_NONE \<or> 0 < ad_snd_dev_ref_cnt ad ! ?x"
    using pos [of ?x] ux range_max(1) [OF assms(3)] range_min [of ?x] assms(3) by (cases "?x = SND_DEVICE_NONE"; cases "?y = ?x") auto
  then have c1: "counts_after (- 1) ?x ad ad1" unfolding assms(5) using disable_counts [OF len range_max(1) [OF assms(3)]] by simp
  have "?y = SND_DEVICE_NONE \<or> 0 < ad_snd_dev_ref_cnt ad1 ! ?y"
    using pos [of ?y] uy range_max(2) [OF assms(4)] range_min [of ?y] assms(4) c1
    by (cases "?y = SND_DEVICE_NONE"; cases "?y = ?x") (auto simp: counts_after_def)
  moreover have len1: "length (ad_snd_dev_ref_cnt ad1) = SND_DEVICE_MAX" using c1 len by (simp add: counts_after_def)
  ultimately have c2: "counts_after (- 1) ?y ad1 ad2" unfolding assms(6) using disable_counts [OF len1 range_max(2) [OF assms(4)]] by simp
  show "length (ad_snd_dev_ref_cnt ad2) = SND_DEVICE_MAX" using c2 len1 by (simp add: counts_after_def)
  show "SND_DEVICE_MIN \<le> e \<Longrightarrow> e < SND_DEVICE_MAX \<Longrightarrow> ad_snd_dev_ref_cnt ad2 ! e = ad_snd_dev_ref_cnt ad ! e - uses e u"
    using c1 c2 by (auto simp: counts_after_def uses_def)
qed

lemma disable_none [simp]: "snd (disable_snd_device ad u SND_DEVICE_NONE b) = ad"
  by (simp add: disable_snd_device_def get_snd_device_name_def snd_device_defs)

lemma enable_none [simp]: "snd (enable_snd_device ad u SND_DEVICE_NONE b) = ad"
  by (simp add: enable_snd_device_def get_snd_device_name_def snd_device_defs)

lemma refs_ok_switch:
  assumes "refs_ok ad" "devices_ok ad" "out_range x" "in_range y"
  shows "refs_ok (switch_devices i x y ad)"
proof (cases "get_usecase_from_id ad i")
  case None
  then show ?thesis using assms(1) by (simp add: switch_devices_def)
next
  case (Some u)
  note mem = find_in_set [OF Some [unfolded get_usecase_from_id_def]]
  let ?sw = "switch_devices i x y ad" and ?f = "\<lambda>v. v\<lparr>uc_in_snd_device := y, uc_out_snd_device := x\<rparr>"
  show ?thesis
  proof (cases "x = uc_out_snd_device u \<and> y = uc_in_snd_device u")
    case True
    then show ?thesis using assms(1) Some by (simp add: switch_devices_def)
  next
    case False
    define ad1 where "ad1 = snd (disable_snd_device ad u (uc_out_snd_device u) False)"
    define ad2 where "ad2 = snd (disable_snd_device ad1 u (uc_in_snd_device u) False)"
    define ad3 where "ad3 = snd (enable_snd_device ad2 u x False)"
    define ad4 where "ad4 = snd (enable_snd_device ad3 u y False)"
    have sw: "ad_snd_dev_ref_cnt ?sw = ad_snd_dev_ref_cnt ad4"
      using Some False by (auto simp: switch_devices_def change_usecase_def Let_def ad1_def ad2_def ad3_def ad4_def)
    note range = usecase_ok [OF assms(2) Some]
    note l = leave_counts [OF assms(1) conjunct1 [OF mem] conjunct1 [OF range] conjunct2 [OF range] ad1_def ad2_def]
    have c3: "counts_after 1 x ad2 ad3" unfolding ad3_def using enable_counts [OF l(1) range_max(1) [OF assms(3)]] .
    then have l3: "length (ad_snd_dev_ref_cnt ad3) = SND_DEVICE_MAX" using l(1) by (simp add: counts_after_def)
    have c4: "counts_after 1 y ad3 ad4" unfolding ad4_def using enable_counts [OF l3 range_max(2) [OF assms(4)]] .
    have users: "users e ?sw = users e ad - uses e u + (of_bool (x = e) + of_bool (y = e))" for e
      unfolding users_def list_switch using sum_change_first [OF Some [unfolded get_usecase_from_id_def], of "uses e" ?f] by (simp add: uses_def)
    show ?thesis
      unfolding refs_ok_def sw users using assms(1) l c3 c4 l3 by (auto simp: counts_after_def refs_ok_def)
  qed
qed

lemma refs_ok_set [simp]: "refs_ok (set_devices i d ad) = refs_ok ad"
proof -
  have "map (uses e) (change_first P (\<lambda>v. v\<lparr>uc_devices := d\<rparr>) us) = map (uses e) us" for e P us
    by (intro map_change_first) (simp add: uses_def)
  then show ?thesis by (simp add: refs_ok_def users_def set_devices_def change_usecase_def)
qed

lemma routed_refs_ok: "routed a b \<Longrightarrow> devices_ok a \<Longrightarrow> refs_ok a \<Longrightarrow> refs_ok b"
  by (induction rule: routed.induct) (auto simp: route_fits_def intro: refs_ok_switch dest: routed_devices_ok)

end
