(* ===== verification/Audio_Stream.thy ===== *)
theory Audio_Stream
  imports Audio_Route
begin

text \<open>
  The streams of \<^verbatim>\<open>audio/hal/audio_hw.c\<close>: opening and closing them, starting and stopping their use cases, voice calls,
  parameters. What the sound devices answer are arguments. A function returns its result and the new device.
\<close>

definition HAL_ENOENT :: int where "HAL_ENOENT = 2"

text \<open>What \<^verbatim>\<open>pcm_open\<close> returns: NULL, an object that is not ready, or the handle of an open device.\<close>

datatype pcm_answer = Pcm_None | Pcm_Unready | Pcm_Opened nat

definition open_handle :: "pcm_answer \<Rightarrow> nat option" where
  "open_handle p = (case p of Pcm_Opened h \<Rightarrow> Some h | _ \<Rightarrow> None)"

definition pcm_opened :: "pcm_answer \<Rightarrow> audio_device \<Rightarrow> audio_device" where
  "pcm_opened p ad = (case p of Pcm_Opened h \<Rightarrow> ad\<lparr>ad_pcms := h # ad_pcms ad\<rparr> | _ \<Rightarrow> ad)"

definition pcm_close :: "nat option \<Rightarrow> audio_device \<Rightarrow> audio_device" where
  "pcm_close p ad = (case p of Some h \<Rightarrow> ad\<lparr>ad_pcms := remove1 h (ad_pcms ad)\<rparr> | None \<Rightarrow> ad)"

definition new_pcm_device :: "nat \<Rightarrow> pcm_device" where
  "new_pcm_device p = \<lparr>pd_profile = p, pd_pcm = None, pd_status = 0, pd_resampler = False, pd_res_buffer = False,
     pd_res_byte_count = 0, pd_dsp_context = False, pd_sound_trigger_handle = 0\<rparr>"

text \<open>
  A mixer card has one list node for each use case id: the node is in the list of at most one use case.
\<close>

definition link_mixer :: "audio_device \<Rightarrow> audio_usecase \<Rightarrow> int \<Rightarrow> hal_fault + audio_usecase" where
  "link_mixer ad u cd =
     (case adev_get_mixer_for_card ad cd of
        None \<Rightarrow> Inl No_Mixer
      | Some m \<Rightarrow>
          if \<exists>v \<in> set (ad_usecase_list ad). uc_id v = uc_id u \<and> m \<in> set (uc_mixer_list v) then Inl Node_In_Two_Lists
          else Inr (u\<lparr>uc_mixer_list := uc_mixer_list u @ [m]\<rparr>))"

subsection \<open>PCM devices of an output stream\<close>

definition uc_release_pcm_devices :: "audio_device \<Rightarrow> audio_usecase \<Rightarrow> hal_fault + audio_device" where
  "uc_release_pcm_devices ad u =
     and_then (stream_as_output ad (uc_stream u)) (\<lambda>(a, out).
       case so_pcm_dev_list out of
         None \<Rightarrow> Inl Uninitialised_List
       | Some _ \<Rightarrow> Inr (put_out a (out\<lparr>so_pcm_dev_list := Some []\<rparr>) ad))"

text \<open>The use case is not yet in the list of the device; it is returned with its mixer cards.\<close>

definition uc_select_pcm_devices :: "audio_h \<Rightarrow> audio_device \<Rightarrow> audio_usecase \<Rightarrow> hal_fault + audio_usecase \<times> audio_device" where
  "uc_select_pcm_devices A ad u0 =
     and_then (stream_as_output ad (uc_stream u0)) (\<lambda>(a, out).
       (let u = u0\<lparr>uc_mixer_list := []\<rparr>
        in case get_pcm_device A (ad_profiles ad) (uc_type u) (uc_devices u) of
             None \<Rightarrow> Inr (u, put_out a (out\<lparr>so_pcm_dev_list := Some []\<rparr>) ad)
           | Some p \<Rightarrow>
               and_then
                 (case uc_get_mixer_for_card u (pp_card (ad_profiles ad ! p)) of
                    Some _ \<Rightarrow> Inr u
                  | None \<Rightarrow> link_mixer ad u (pp_card (ad_profiles ad ! p)))
                 (\<lambda>u'. Inr (u', put_out a (out\<lparr>so_pcm_dev_list := Some [new_pcm_device p]\<rparr>) ad))))"

definition closed_pcm_device :: "pcm_device \<Rightarrow> pcm_device" where
  "closed_pcm_device pd = pd\<lparr>pd_sound_trigger_handle := (if 0 < pd_sound_trigger_handle pd then 0 else pd_sound_trigger_handle pd),
     pd_pcm := None, pd_resampler := False, pd_res_buffer := False, pd_dsp_context := False\<rparr>"

definition out_close_pcm_devices :: "audio_device \<Rightarrow> nat \<Rightarrow> hal_fault + audio_device" where
  "out_close_pcm_devices ad a =
     and_then (get_out ad a) (\<lambda>out.
       case so_pcm_dev_list out of
         None \<Rightarrow> Inl Uninitialised_List
       | Some pds \<Rightarrow>
           Inr (fold (\<lambda>pd. pcm_close (pd_pcm pd)) pds (put_out a (out\<lparr>so_pcm_dev_list := Some (map closed_pcm_device pds)\<rparr>) ad)))"

text \<open>What is answered when a PCM device of an output is opened: whether there is a DSP context, the PCM, the result of the resampler.\<close>

record open_answer =
  oa_dsp :: bool
  oa_pcm :: pcm_answer
  oa_resampler :: "int \<times> bool"

text \<open>
  One round of the loop: the PCM device, the result so far and whether the loop goes on. A PCM that is not ready is
  dropped.
\<close>

definition open_one :: "audio_device \<Rightarrow> stream_out \<Rightarrow> open_answer \<Rightarrow> pcm_device \<Rightarrow> int \<Rightarrow> pcm_device \<times> int \<times> bool" where
  "open_one ad out ans pd ret =
     (let profile = ad_profiles ad ! pd_profile pd;
          pd1 = (if pp_dsp_name profile \<noteq> None then pd\<lparr>pd_dsp_context := oa_dsp ans\<rparr> else pd)
      in if oa_pcm ans = Pcm_Unready then (pd1\<lparr>pd_pcm := None\<rparr>, - HAL_EIO, False)
         else
           (let pd2 = pd1\<lparr>pd_pcm := open_handle (oa_pcm ans)\<rparr>
            in if so_sample_rate out \<noteq> pc_rate (pp_config profile)
               then (pd2\<lparr>pd_resampler := snd (oa_resampler ans), pd_res_byte_count := 0, pd_res_buffer := False\<rparr>, fst (oa_resampler ans), True)
               else (pd2, ret, True)))"

fun open_loop :: "audio_device \<Rightarrow> stream_out \<Rightarrow> (nat \<Rightarrow> open_answer) \<Rightarrow> nat \<Rightarrow> pcm_device list \<Rightarrow> int \<Rightarrow> pcm_device list \<times> int \<times> bool" where
  "open_loop ad out ans k [] ret = ([], ret, True)"
| "open_loop ad out ans k (pd # pds) ret =
     (case open_one ad out (ans k) pd ret of
        (pd', ret', go) \<Rightarrow>
          if go then (case open_loop ad out ans (Suc k) pds ret' of (pds', ret'', ok) \<Rightarrow> (pd' # pds', ret'', ok))
          else (pd' # pds, ret', False))"

definition add_opened :: "pcm_device list \<Rightarrow> audio_device \<Rightarrow> audio_device" where
  "add_opened pds ad = ad\<lparr>ad_pcms := fold (\<lambda>pd l. case pd_pcm pd of Some h \<Rightarrow> h # l | None \<Rightarrow> l) pds (ad_pcms ad)\<rparr>"

definition out_open_pcm_devices :: "audio_device \<Rightarrow> nat \<Rightarrow> (nat \<Rightarrow> open_answer) \<Rightarrow> hal_fault + int \<times> audio_device" where
  "out_open_pcm_devices ad a ans =
     and_then (get_out ad a) (\<lambda>out.
       case so_pcm_dev_list out of
         None \<Rightarrow> Inl Uninitialised_List
       | Some pds \<Rightarrow>
           (case open_loop ad out ans 0 pds 0 of
              (pds', ret, ok) \<Rightarrow>
                (let ad1 = add_opened pds' (put_out a (out\<lparr>so_pcm_dev_list := Some pds'\<rparr>) ad)
                 in if ok then Inr (ret, ad1) else and_then (out_close_pcm_devices ad1 a) (\<lambda>ad2. Inr (ret, ad2)))))"

subsection \<open>Output paths\<close>

definition disable_output_path_l :: "audio_device \<Rightarrow> nat \<Rightarrow> hal_fault + int \<times> audio_device" where
  "disable_output_path_l ad a =
     and_then (get_out ad a) (\<lambda>out.
       case get_usecase_from_id ad (so_usecase out) of
         None \<Rightarrow> Inr (- HAL_EINVAL, ad)
       | Some u \<Rightarrow>
           and_then (uc_release_pcm_devices (snd (disable_snd_device ad u (uc_out_snd_device u) True)) u) (\<lambda>ad1.
             Inr (0, remove_usecase (so_usecase out) ad1)))"

definition new_usecase :: "int \<Rightarrow> u32 \<Rightarrow> stream_ref \<Rightarrow> u32 \<Rightarrow> audio_usecase" where
  "new_usecase i t stream devices = \<lparr>uc_id = i, uc_type = t, uc_devices = devices, uc_out_snd_device = SND_DEVICE_NONE,
     uc_in_snd_device = SND_DEVICE_NONE, uc_stream = stream, uc_mixer_list = []\<rparr>"

definition add_usecase :: "audio_usecase \<Rightarrow> audio_device \<Rightarrow> audio_device" where
  "add_usecase u ad = ad\<lparr>ad_usecase_list := ad_usecase_list ad @ [u]\<rparr>"

definition enable_output_path_l :: "audio_env \<Rightarrow> audio_device \<Rightarrow> nat \<Rightarrow> hal_fault + audio_device" where
  "enable_output_path_l E ad a =
     and_then (get_out ad a) (\<lambda>out.
     and_then (uc_select_pcm_devices (ae_h E) ad (new_usecase (so_usecase out) PCM_PLAYBACK (Out_Stream a) (so_devices out))) (\<lambda>(u, ad1).
     and_then (select_devices (ae_stack E) E (add_usecase u ad1) (so_usecase out)) (\<lambda>(_, ad2). Inr ad2)))"

definition stop_output_stream :: "audio_device \<Rightarrow> nat \<Rightarrow> hal_fault + int \<times> audio_device" where
  "stop_output_stream ad a = disable_output_path_l ad a"

definition start_output_stream :: "audio_env \<Rightarrow> audio_device \<Rightarrow> nat \<Rightarrow> (nat \<Rightarrow> open_answer) \<Rightarrow> hal_fault + int \<times> audio_device" where
  "start_output_stream E ad a ans =
     and_then (enable_output_path_l E ad a) (\<lambda>ad1.
     and_then (out_open_pcm_devices ad1 a ans) (\<lambda>(ret, ad2).
       if ret \<noteq> 0 then and_then (stop_output_stream ad2 a) (\<lambda>(_, ad3). Inr (ret, ad3)) else Inr (0, ad2)))"

definition do_out_standby_l :: "audio_device \<Rightarrow> nat \<Rightarrow> hal_fault + int \<times> audio_device" where
  "do_out_standby_l ad a =
     and_then (get_out ad a) (\<lambda>out.
     and_then (out_close_pcm_devices (put_out a (out\<lparr>so_standby := True\<rparr>) ad) a) (\<lambda>ad1. stop_output_stream ad1 a))"

definition out_standby :: "audio_device \<Rightarrow> nat \<Rightarrow> hal_fault + audio_device" where
  "out_standby ad a =
     and_then (get_out ad a) (\<lambda>out. if so_standby out then Inr ad else and_then (do_out_standby_l ad a) (\<lambda>(_, ad'). Inr ad'))"

subsection \<open>Voice calls\<close>

definition stop_voice_call :: "audio_device \<Rightarrow> hal_fault + int \<times> audio_device" where
  "stop_voice_call ad0 =
     (let ad = ad0\<lparr>ad_in_call := False\<rparr>
      in case get_usecase_from_id ad USECASE_VOICE_CALL of
           None \<Rightarrow> Inr (- HAL_EINVAL, ad)
         | Some u \<Rightarrow>
             (let ad1 = snd (disable_snd_device ad u (uc_out_snd_device u) False);
                  ad2 = snd (disable_snd_device ad1 u (uc_in_snd_device u) True)
              in and_then (uc_release_pcm_devices ad2 u) (\<lambda>ad3. Inr (0, remove_usecase USECASE_VOICE_CALL ad3))))"

definition start_voice_call :: "audio_env \<Rightarrow> audio_device \<Rightarrow> hal_fault + int \<times> audio_device" where
  "start_voice_call E ad =
     (case ad_primary_output ad of
        None \<Rightarrow> Inl Null_Stream
      | Some p \<Rightarrow>
          and_then (get_out ad p) (\<lambda>out.
          and_then (uc_select_pcm_devices (ae_h E) ad (new_usecase USECASE_VOICE_CALL VOICE_CALL (Out_Stream p) (so_devices out))) (\<lambda>(u, ad1).
          and_then (select_devices (ae_stack E) E (add_usecase u ad1) USECASE_VOICE_CALL) (\<lambda>(_, ad2).
            Inr (0, ad2\<lparr>ad_in_call := True\<rparr>)))))"

subsection \<open>Input streams\<close>

definition stop_input_stream :: "audio_device \<Rightarrow> nat \<Rightarrow> hal_fault + int \<times> audio_device" where
  "stop_input_stream ad0 a =
     (let ad = ad0\<lparr>ad_active_input := None\<rparr>
      in and_then (get_in ad a) (\<lambda>s.
           case get_usecase_from_id ad (si_usecase s) of
             None \<Rightarrow> Inr (- HAL_EINVAL, ad)
           | Some u \<Rightarrow>
               (let ad1 = remove_usecase (si_usecase s) (snd (disable_snd_device ad u (uc_in_snd_device u) True))
                in case si_pcm_dev_list s of
                     None \<Rightarrow> Inl Uninitialised_List
                   | Some [] \<Rightarrow> Inr (- HAL_EINVAL, ad1)
                   | Some _ \<Rightarrow> Inr (0, put_in a (s\<lparr>si_pcm_dev_list := Some []\<rparr>) ad1))))"

text \<open>What is answered when an input starts: the resampler, the PCM, the handle of the sound trigger.\<close>

record start_answer =
  sa_resampler :: "int \<times> bool"
  sa_pcm :: pcm_answer
  sa_trigger :: int

text \<open>The configuration and the resampler of an input that starts, from the profile; the first component is the result.\<close>

definition configure_input :: "audio_h \<Rightarrow> pcm_config \<Rightarrow> int \<times> bool \<Rightarrow> stream_in \<Rightarrow> int \<times> stream_in" where
  "configure_input A config resampler s =
     (let changed = pc_rate (si_config s) \<noteq> pc_rate config;
          config1 = (if si_aux_channels_changed s then config\<lparr>pc_channels := audio_channel_count_from_in_mask A (si_aux_channels s)\<rparr> else config);
          recreate = (changed \<or> si_aux_channels_changed s \<or> si_requested_rate s \<noteq> pc_rate config1);
          s1 = s\<lparr>si_config := config1\<rparr>
      in if recreate then (fst resampler, s1\<lparr>si_resampler := snd resampler\<rparr>) else (0, s1))"

definition input_failed :: "audio_device \<Rightarrow> nat \<Rightarrow> int \<Rightarrow> hal_fault + int \<times> audio_device" where
  "input_failed ad a ret =
     and_then (get_in ad a) (\<lambda>s.
     and_then (stop_input_stream (put_in a (s\<lparr>si_resampler := False\<rparr>) ad) a) (\<lambda>(_, ad1). Inr (ret, ad1\<lparr>ad_active_input := None\<rparr>)))"

definition open_input :: "audio_device \<Rightarrow> nat \<Rightarrow> pcm_device_profile \<Rightarrow> pcm_device \<Rightarrow> start_answer \<Rightarrow> int \<Rightarrow> hal_fault + int \<times> audio_device" where
  "open_input ad a profile pd ans ret =
     and_then (get_in ad a) (\<lambda>s.
       (let done = (\<lambda>pd' ad'. Inr (ret, put_in a (s\<lparr>si_pcm_dev_list := Some [pd'], si_proc_buf_frames := 0, si_proc_buf_size := 0,
                                        si_read_buf_size := 0, si_read_buf_frames := 0\<rparr>) ad'));
            failed = (\<lambda>pd'. input_failed (put_in a (s\<lparr>si_pcm_dev_list := Some [pd']\<rparr>) ad) a (- HAL_EIO))
        in if pp_type profile = PCM_HOTWORD_STREAMING then
             (if \<not> ad_sound_trigger ad then failed pd
              else
                (let pd1 = pd\<lparr>pd_pcm := None, pd_sound_trigger_handle := sa_trigger ans\<rparr>
                 in if sa_trigger ans \<le> 0 then failed pd1 else done pd1 ad))
           else
             (let pd1 = pd\<lparr>pd_sound_trigger_handle := 0, pd_pcm := open_handle (sa_pcm ans)\<rparr>
              in if sa_pcm ans = Pcm_Unready then failed pd1 else done pd1 (pcm_opened (sa_pcm ans) ad))))"

text \<open>A fast input writes its period size into the profile.\<close>

definition input_config :: "audio_h \<Rightarrow> stream_in \<Rightarrow> pcm_config \<Rightarrow> pcm_config" where
  "input_config A s config =
     (if has (si_input_flags s) (AUDIO_INPUT_FLAG_FAST A) then config\<lparr>pc_period_size := CAPTURE_PERIOD_SIZE_LOW_LATENCY\<rparr> else config)"

definition start_input_stream :: "audio_env \<Rightarrow> audio_device \<Rightarrow> nat \<Rightarrow> start_answer \<Rightarrow> hal_fault + int \<times> audio_device" where
  "start_input_stream E ad0 a ans =
     (let ad = ad0\<lparr>ad_active_input := Some a\<rparr>
      in and_then (get_in ad a) (\<lambda>s.
           case get_pcm_device (ae_h E) (ad_profiles ad) (si_usecase_type s) (si_devices s) of
             None \<Rightarrow> Inr (- HAL_EINVAL, ad\<lparr>ad_active_input := None\<rparr>)
           | Some p \<Rightarrow>
               (let config = input_config (ae_h E) s (pp_config (ad_profiles ad ! p));
                    profile = (ad_profiles ad ! p)\<lparr>pp_config := config\<rparr>;
                    ad1 = put_in a (s\<lparr>si_pcm_dev_list := Some [new_pcm_device p]\<rparr>) (ad\<lparr>ad_profiles := (ad_profiles ad)[p := profile]\<rparr>)
                in and_then (link_mixer ad1 (new_usecase (si_usecase s) PCM_CAPTURE (In_Stream a) (si_devices s)) (pp_card profile)) (\<lambda>u.
                   and_then (select_devices (ae_stack E) E (add_usecase u ad1) (si_usecase s)) (\<lambda>(_, ad2).
                   and_then (get_in ad2 a) (\<lambda>s2.
                     (case configure_input (ae_h E) config (sa_resampler ans) s2 of
                        (ret, s3) \<Rightarrow> open_input (put_in a s3 ad2) a profile (new_pcm_device p) ans ret)))))))"

definition in_close_pcm_devices :: "audio_device \<Rightarrow> nat \<Rightarrow> hal_fault + audio_device" where
  "in_close_pcm_devices ad a =
     and_then (get_in ad a) (\<lambda>s.
       case si_pcm_dev_list s of
         None \<Rightarrow> Inl Uninitialised_List
       | Some pds \<Rightarrow>
           Inr (fold (\<lambda>pd. pcm_close (pd_pcm pd)) pds
                 (put_in a (s\<lparr>si_pcm_dev_list := Some (map (\<lambda>pd. pd\<lparr>pd_pcm := None, pd_sound_trigger_handle := 0\<rparr>) pds)\<rparr>) ad)))"

definition do_in_standby_l :: "audio_device \<Rightarrow> nat \<Rightarrow> hal_fault + audio_device" where
  "do_in_standby_l ad a =
     and_then (get_in ad a) (\<lambda>s0.
       if si_standby s0 then Inr ad
       else
         and_then (in_close_pcm_devices ad a) (\<lambda>ad1.
         and_then (stop_input_stream ad1 a) (\<lambda>(_, ad2).
         and_then (get_in ad2 a) (\<lambda>s. Inr (put_in a (s\<lparr>si_read_buf := None, si_standby := True\<rparr>) ad2)))))"

definition in_standby :: "audio_device \<Rightarrow> nat \<Rightarrow> hal_fault + audio_device" where
  "in_standby ad a = and_then (get_in ad a) (\<lambda>s. if si_standby s then Inr ad else do_in_standby_l ad a)"

subsection \<open>Parameters\<close>

text \<open>
  The functions below hold the lock on the inputs until they have put the active input into standby. This is a
  section of its own (\<open>force_input_standby\<close>); the input is the last component of the result.
\<close>

definition input_to_reset :: "audio_h \<Rightarrow> audio_device \<Rightarrow> hal_fault + nat option" where
  "input_to_reset A ad =
     (case ad_active_input ad of
        None \<Rightarrow> Inr None
      | Some b \<Rightarrow> and_then (get_in ad b) (\<lambda>s.
          Inr (if si_source s = AUDIO_SOURCE_VOICE_COMMUNICATION A \<or> si_source s = AUDIO_SOURCE_MIC A then Some b else None)))"

definition force_input_standby :: "audio_device \<Rightarrow> nat \<Rightarrow> hal_fault + audio_device" where
  "force_input_standby ad b = (if ad_active_input ad \<noteq> Some b then Inl Fatal_Abort else do_in_standby_l ad b)"

text \<open>The call of a stream that is routed: start, or switch the voice call that is active.\<close>

definition route_voice_call :: "audio_env \<Rightarrow> audio_device \<Rightarrow> nat \<Rightarrow> hal_fault + audio_device" where
  "route_voice_call E ad a =
     (if ad_mode ad = AUDIO_MODE_IN_CALL (ae_h E) \<and> ad_primary_output ad = Some a then
        and_then (if ad_in_call ad then select_devices (ae_stack E) E ad USECASE_VOICE_CALL else start_voice_call E ad) (\<lambda>(_, ad'). Inr ad')
      else Inr ad)"

text \<open>The new devices of a stream: a stream that plays is stopped when they change.\<close>

definition reroute_output :: "audio_env \<Rightarrow> audio_device \<Rightarrow> nat \<Rightarrow> stream_out \<Rightarrow> u32 \<Rightarrow> hal_fault + audio_device" where
  "reroute_output E ad a out val =
     (let ad1 = put_out a (out\<lparr>so_devices := val\<rparr>) ad
      in if so_standby out then Inr ad1
         else and_then (if so_devices out \<noteq> val then do_out_standby_l ad1 a else select_devices (ae_stack E) E ad1 (so_usecase out))
                (\<lambda>(_, ad2). Inr ad2))"

definition end_voice_call :: "audio_h \<Rightarrow> audio_device \<Rightarrow> nat \<Rightarrow> hal_fault + audio_device" where
  "end_voice_call A ad a =
     (if ad_mode ad = AUDIO_MODE_NORMAL A \<and> ad_in_call ad \<and> ad_primary_output ad = Some a
      then and_then (stop_voice_call ad) (\<lambda>(_, ad'). Inr ad') else Inr ad)"

text \<open>\<open>routing\<close> is the value of the parameter, if it is there.\<close>

definition out_set_parameters :: "audio_env \<Rightarrow> audio_device \<Rightarrow> nat \<Rightarrow> u32 option \<Rightarrow> hal_fault + audio_device \<times> nat option" where
  "out_set_parameters E ad a routing =
     (case routing of
        None \<Rightarrow> Inr (ad, None)
      | Some val \<Rightarrow>
          and_then (get_out ad a) (\<lambda>out.
          and_then (if so_devices out \<noteq> val \<and> val \<noteq> 0 \<and> \<not> so_standby out \<and> so_usecase out = USECASE_AUDIO_PLAYBACK
                    then input_to_reset (ae_h E) ad else Inr None) (\<lambda>reset.
          and_then (if val \<noteq> 0 then and_then (reroute_output E ad a out val) (\<lambda>ad1. route_voice_call E ad1 a) else Inr ad) (\<lambda>ad2.
          and_then (end_voice_call (ae_h E) ad2 a) (\<lambda>ad3. Inr (ad3, reset))))))"

definition in_set_parameters :: "audio_env \<Rightarrow> audio_device \<Rightarrow> nat \<Rightarrow> int option \<Rightarrow> u32 option \<Rightarrow> hal_fault + int \<times> audio_device" where
  "in_set_parameters E ad0 a source routing =
     and_then (get_in ad0 a) (\<lambda>s0.
       (let s = (case source of Some val \<Rightarrow> if si_source s0 \<noteq> val \<and> val \<noteq> 0 then s0\<lparr>si_source := val\<rparr> else s0 | None \<Rightarrow> s0);
            ad = put_in a s ad0
        in case routing of
             None \<Rightarrow> Inr (- HAL_ENOENT, ad)
           | Some val \<Rightarrow>
               if si_devices s = val \<or> val = 0 then Inr (0, ad)
               else
                 (let ad1 = put_in a (s\<lparr>si_devices := val\<rparr>) ad
                  in if si_standby s then Inr (0, ad1)
                     else case get_usecase_from_id ad1 (si_usecase s) of
                         None \<Rightarrow> select_devices (ae_stack E) E ad1 (si_usecase s)
                       | Some _ \<Rightarrow>
                           (case si_pcm_dev_list s of
                              None \<Rightarrow> Inl Uninitialised_List
                            | Some [] \<Rightarrow> select_devices (ae_stack E) E ad1 (si_usecase s)
                            | Some (pd # _) \<Rightarrow>
                                if pp_devices (ad_profiles ad1 ! pd_profile pd) AND val AND NOT (AUDIO_DEVICE_BIT_IN (ae_h E)) = 0
                                then and_then (do_in_standby_l ad1 a) (\<lambda>ad2. Inr (0, ad2))
                                else select_devices (ae_stack E) E ad1 (si_usecase s)))))"

text \<open>\<open>tty\<close> is the value of the TTY parameter as one of the modes; \<open>Some None\<close> is a value that is none of them.\<close>

definition adev_set_parameters ::
  "audio_env \<Rightarrow> audio_device \<Rightarrow> int option option \<Rightarrow> bool option \<Rightarrow> bool option \<Rightarrow> int option \<Rightarrow> hal_fault + int \<times> audio_device" where
  "adev_set_parameters E ad tty bt_nrec screen_on rotation =
     (if tty = Some None then Inr (- HAL_EINVAL, ad)
      else
        and_then
          (case tty of
             Some (Some mode) \<Rightarrow>
               if mode \<noteq> ad_tty_mode ad then
                 (let ad1 = ad\<lparr>ad_tty_mode := mode\<rparr>
                  in if ad_in_call ad1 then and_then (select_devices (ae_stack E) E ad1 USECASE_VOICE_CALL) (\<lambda>(_, ad2). Inr ad2) else Inr ad1)
               else Inr ad
           | _ \<Rightarrow> Inr ad)
          (\<lambda>ad1.
             (let ad2 = (case bt_nrec of Some on \<Rightarrow> ad1\<lparr>ad_bluetooth_nrec := on\<rparr> | None \<Rightarrow> ad1);
                  ad3 = (case screen_on of Some on \<Rightarrow> ad2\<lparr>ad_screen_off := \<not> on\<rparr> | None \<Rightarrow> ad2)
              in case rotation of
                   None \<Rightarrow> Inr (- HAL_ENOENT, ad3)
                 | Some val \<Rightarrow>
                     (let reverse_speakers = (val = 180)
                      in if ad_speaker_lr_swap ad3 \<noteq> reverse_speakers then
                           (let ad4 = ad3\<lparr>ad_speaker_lr_swap := reverse_speakers\<rparr>
                            in case adev_get_mixer_for_card ad4 SOUND_CARD of
                                 None \<Rightarrow> Inr (0, ad4)
                               | Some m \<Rightarrow> Inr (0, ad4\<lparr>ad_log := Update_Mixer m # Apply_Path m (if reverse_speakers then ''speaker-lr-reverse'' else ''speaker-lr-normal'') # ad_log ad4\<rparr>))
                         else Inr (0, ad3)))))"

definition adev_set_mode :: "int \<Rightarrow> audio_device \<Rightarrow> audio_device" where
  "adev_set_mode mode ad = (if ad_mode ad \<noteq> mode then ad\<lparr>ad_mode := mode\<rparr> else ad)"

definition adev_set_mic_mute :: "bool \<Rightarrow> audio_device \<Rightarrow> audio_device" where
  "adev_set_mic_mute state ad = ad\<lparr>ad_mic_mute := state\<rparr>"

subsection \<open>Effects\<close>

definition MAX_PREPROCESSORS :: nat where "MAX_PREPROCESSORS = 3"

definition get_command_status :: "int \<Rightarrow> int \<Rightarrow> int \<Rightarrow> int" where
  "get_command_status status fct_status cmd_status =
     (if fct_status \<noteq> 0 then fct_status else if cmd_status \<noteq> 0 then cmd_status else status)"

definition in_get_aux_channels :: "audio_h \<Rightarrow> stream_in \<Rightarrow> u32" where
  "in_get_aux_channels A s =
     (if si_preprocessors s = [] then 0
      else if \<not> has (si_devices s) (AUDIO_DEVICE_IN_BUILTIN_MIC A AND NOT (AUDIO_DEVICE_BIT_IN A)) then 0
      else AUDIO_CHANNEL_INDEX_MASK_4 A)"

text \<open>
  The commands to an effect, with the channels that are set. \<open>cmd i e c\<close> is the answer of effect \<open>e\<close> to command \<open>c\<close> in round \<open>i\<close>: the
  result of the function, and the status it stores.
\<close>

datatype effect_cmd = EFFECT_CMD_GET_CONFIG | EFFECT_CMD_SET_CONFIG u32 | EFFECT_CMD_ENABLE

type_synonym effect_answers = "nat \<Rightarrow> nat \<Rightarrow> effect_cmd \<Rightarrow> int \<times> int"

definition in_configure_effect_channels :: "(effect_cmd \<Rightarrow> int \<times> int) \<Rightarrow> u32 \<Rightarrow> int" where
  "in_configure_effect_channels cmd aux_channels =
     (if fst (cmd EFFECT_CMD_GET_CONFIG) \<noteq> 0 then fst (cmd EFFECT_CMD_GET_CONFIG)
      else
        (let status = (case cmd (EFFECT_CMD_SET_CONFIG aux_channels) of (fct, st) \<Rightarrow> get_command_status 0 fct st)
         in if status \<noteq> 0 then status
            else (case cmd EFFECT_CMD_ENABLE of (fct, st) \<Rightarrow> get_command_status status fct st)))"

text \<open>The status of the last effect that fails.\<close>

fun reconfigure_loop :: "effect_answers \<Rightarrow> u32 \<Rightarrow> nat \<Rightarrow> nat list \<Rightarrow> int \<Rightarrow> int" where
  "reconfigure_loop cmd aux_channels i [] status = status"
| "reconfigure_loop cmd aux_channels i (e # es) status =
     (let cur_status = in_configure_effect_channels (cmd i e) aux_channels
      in reconfigure_loop cmd aux_channels (Suc i) es (if cur_status \<noteq> 0 then cur_status else status))"

definition in_reconfigure_channels :: "effect_answers \<Rightarrow> stream_in \<Rightarrow> nat \<Rightarrow> u32 \<Rightarrow> bool \<Rightarrow> int" where
  "in_reconfigure_channels cmd s effect aux_channels config_changed =
     (if config_changed then reconfigure_loop cmd aux_channels 0 (si_preprocessors s) 0
      else if aux_channels \<noteq> 0 then in_configure_effect_channels (cmd 0 effect) aux_channels
      else 0)"

text \<open>When the effects are reset after an error, their answers are not looked at.\<close>

definition in_update_aux_channels :: "audio_h \<Rightarrow> effect_answers \<Rightarrow> audio_device \<Rightarrow> nat \<Rightarrow> nat \<Rightarrow> hal_fault + audio_device" where
  "in_update_aux_channels A cmd ad a effect =
     and_then (get_in ad a) (\<lambda>s.
       (let wanted = in_get_aux_channels A s;
            status = in_reconfigure_channels cmd s effect wanted (wanted \<noteq> si_aux_channels s);
            aux_channels = (if status \<noteq> 0 then 0 else wanted)
        in if si_aux_channels s \<noteq> aux_channels
           then do_in_standby_l (put_in a (s\<lparr>si_aux_channels_changed := True, si_aux_channels := aux_channels\<rparr>) ad) a
           else Inr ad))"

text \<open>\<open>descriptor\<close> is the result of \<^verbatim>\<open>get_descriptor\<close>.\<close>

definition add_remove_audio_effect ::
  "audio_h \<Rightarrow> effect_answers \<Rightarrow> int \<Rightarrow> audio_device \<Rightarrow> nat \<Rightarrow> nat \<Rightarrow> bool \<Rightarrow> hal_fault + int \<times> audio_device" where
  "add_remove_audio_effect A cmd descriptor ad a effect enable =
     (if descriptor \<noteq> 0 then Inr (descriptor, ad)
      else and_then (get_in ad a) (\<lambda>s.
        if enable then
          (if MAX_PREPROCESSORS \<le> length (si_preprocessors s) then Inr (- HAL_ENOSYS, ad)
           else
             and_then (in_update_aux_channels A cmd (put_in a (s\<lparr>si_preprocessors := si_preprocessors s @ [effect]\<rparr>) ad) a effect) (\<lambda>ad1.
             and_then (get_in ad1 a) (\<lambda>s1. Inr (0, put_in a (s1\<lparr>si_aux_channels_changed := True\<rparr>) ad1))))
        else
          (if si_preprocessors s = [] then Inr (- HAL_ENOSYS, ad)
           else if effect \<notin> set (si_preprocessors s) then Inr (- HAL_EINVAL, ad)
           else Inr (0, put_in a (s\<lparr>si_preprocessors := remove1 effect (si_preprocessors s), si_aux_channels_changed := False\<rparr>) ad))))"

definition in_add_audio_effect :: "audio_h \<Rightarrow> effect_answers \<Rightarrow> int \<Rightarrow> audio_device \<Rightarrow> nat \<Rightarrow> nat \<Rightarrow> hal_fault + int \<times> audio_device" where
  "in_add_audio_effect A cmd descriptor ad a effect = add_remove_audio_effect A cmd descriptor ad a effect True"

definition in_remove_audio_effect :: "audio_h \<Rightarrow> effect_answers \<Rightarrow> int \<Rightarrow> audio_device \<Rightarrow> nat \<Rightarrow> nat \<Rightarrow> hal_fault + int \<times> audio_device" where
  "in_remove_audio_effect A cmd descriptor ad a effect = add_remove_audio_effect A cmd descriptor ad a effect False"

subsection \<open>Leaving standby\<close>

text \<open>
  The first part of \<^verbatim>\<open>out_write\<close> and \<^verbatim>\<open>in_read\<close>: a stream in standby is started. A write then has the active input put into
  standby, after it has written its samples.
\<close>

definition out_write_start :: "audio_env \<Rightarrow> audio_device \<Rightarrow> nat \<Rightarrow> (nat \<Rightarrow> open_answer) \<Rightarrow> hal_fault + int \<times> audio_device \<times> nat option" where
  "out_write_start E ad a ans =
     and_then (get_out ad a) (\<lambda>out.
       if \<not> so_standby out then Inr (0, ad, None)
       else
         and_then (start_output_stream E ad a ans) (\<lambda>(ret, ad1).
           if ret \<noteq> 0 then Inr (ret, ad1, None)
           else
             and_then (get_out ad1 a) (\<lambda>out1.
               (let ad2 = put_out a (out1\<lparr>so_standby := False\<rparr>) ad1
                in and_then (input_to_reset (ae_h E) ad2) (\<lambda>reset. Inr (0, ad2, reset))))))"

definition in_read_start :: "audio_env \<Rightarrow> audio_device \<Rightarrow> nat \<Rightarrow> start_answer \<Rightarrow> hal_fault + int \<times> audio_device" where
  "in_read_start E ad a ans =
     and_then (get_in ad a) (\<lambda>s.
       if \<not> si_standby s then Inr (0, ad)
       else
         and_then (start_input_stream E ad a ans) (\<lambda>(ret, ad1).
           if ret \<noteq> 0 then Inr (ret, ad1)
           else and_then (get_in ad1 a) (\<lambda>s1. Inr (0, put_in a (s1\<lparr>si_standby := False\<rparr>) ad1))))"

subsection \<open>Opening and closing streams\<close>

definition check_input_parameters :: "audio_h \<Rightarrow> nat \<Rightarrow> nat \<Rightarrow> nat \<Rightarrow> int" where
  "check_input_parameters A sample_rate format channel_count =
     (if format \<noteq> AUDIO_FORMAT_PCM_16_BIT A then - HAL_EINVAL
      else if channel_count < 1 \<or> 4 < channel_count then - HAL_EINVAL
      else if sample_rate \<in> {8000, 11025, 12000, 16000, 22050, 24000, 32000, 44100, 48000} then 0
      else - HAL_EINVAL)"

text \<open>The sizes are 32-bit numbers until the division; the quotient is a \<^verbatim>\<open>size_t\<close>.\<close>

definition get_input_buffer_size :: "audio_h \<Rightarrow> pcm_device_profile list \<Rightarrow> nat \<Rightarrow> nat \<Rightarrow> nat \<Rightarrow> u32 \<Rightarrow> u32 \<Rightarrow> nat" where
  "get_input_buffer_size A profiles sample_rate format channel_count usecase_type devices =
     (if check_input_parameters A sample_rate format channel_count \<noteq> 0 then 0
      else case get_pcm_device A profiles usecase_type devices of
          None \<Rightarrow> 0
        | Some p \<Rightarrow>
            (let config = pp_config (profiles ! p);
                 size = (pc_period_size config * sample_rate) mod 2 ^ 32 div pc_rate config;
                 size1 = ((size + 15) div 16) * 16
             in size1 * channel_count * audio_bytes_per_sample A format))"

definition in_get_buffer_size :: "audio_h \<Rightarrow> audio_device \<Rightarrow> stream_in \<Rightarrow> nat" where
  "in_get_buffer_size A ad s =
     get_input_buffer_size A (ad_profiles ad) (si_requested_rate s) (AUDIO_FORMAT_PCM_16_BIT A)
       (audio_channel_count_from_in_mask A (si_main_channels s)) (si_usecase_type s) (si_devices s)"

definition adev_get_input_buffer_size :: "audio_h \<Rightarrow> audio_device \<Rightarrow> nat \<Rightarrow> nat \<Rightarrow> u32 \<Rightarrow> nat" where
  "adev_get_input_buffer_size A ad sample_rate format channel_mask =
     get_input_buffer_size A (ad_profiles ad) sample_rate format (audio_channel_count_from_in_mask A channel_mask) PCM_CAPTURE (AUDIO_DEVICE_IN_BUILTIN_MIC A)"

definition new_stream_out :: "audio_h \<Rightarrow> pcm_config \<Rightarrow> u32 \<Rightarrow> u32 \<Rightarrow> nat \<Rightarrow> stream_out" where
  "new_stream_out A config devices flags format =
     (let deep = has flags (AUDIO_OUTPUT_FLAG_DEEP_BUFFER A);
          config' = (if deep then pcm_config_deep_buffer else config)
      in \<lparr>so_config = config', so_pcm_dev_list = None, so_standby = True, so_sample_rate = pc_rate config',
          so_channel_mask = AUDIO_CHANNEL_OUT_STEREO A, so_format = format, so_devices = devices, so_flags = flags,
          so_usecase = (if deep then USECASE_AUDIO_PLAYBACK_DEEP_BUFFER else USECASE_AUDIO_PLAYBACK), so_muted = False, so_written = 0,
          so_proc_buf_size = 0\<rparr>)"

text \<open>
  \<open>a\<close> is the address that \<^verbatim>\<open>calloc\<close> returns. The primary output is set before the last test; a stream that is then
  refused is freed.
\<close>

definition adev_open_output_stream :: "audio_h \<Rightarrow> audio_device \<Rightarrow> nat \<Rightarrow> u32 \<Rightarrow> u32 \<Rightarrow> nat \<Rightarrow> int \<times> audio_device" where
  "adev_open_output_stream A ad a devices0 flags format =
     (let devices = (if devices0 = AUDIO_DEVICE_NONE A then AUDIO_DEVICE_OUT_SPEAKER A else devices0)
      in case get_pcm_device A (ad_profiles ad) PCM_PLAYBACK devices of
           None \<Rightarrow> (- HAL_EINVAL, ad)
         | Some p \<Rightarrow>
             (let out = new_stream_out A (pp_config (ad_profiles ad ! p)) devices flags format;
                  primary = has flags (AUDIO_OUTPUT_FLAG_PRIMARY A);
                  ad1 = (if primary then ad\<lparr>ad_primary_output := Some a\<rparr> else ad)
              in if primary \<and> ad_primary_output ad \<noteq> None then (- HAL_EEXIST, ad)
                 else if get_usecase_from_id ad1 (so_usecase out) \<noteq> None then (- HAL_EEXIST, ad1)
                 else (0, put_out a out ad1)))"

definition adev_close_output_stream :: "audio_device \<Rightarrow> nat \<Rightarrow> hal_fault + audio_device" where
  "adev_close_output_stream ad a = and_then (out_standby ad a) (\<lambda>ad1. Inr (ad1\<lparr>ad_outs := (ad_outs ad1)(a := None)\<rparr>))"

definition new_stream_in :: "audio_h \<Rightarrow> pcm_config \<Rightarrow> u32 \<Rightarrow> nat \<Rightarrow> u32 \<Rightarrow> u32 \<Rightarrow> int \<Rightarrow> stream_in" where
  "new_stream_in A config devices sample_rate channel_mask flags source =
     \<lparr>si_config = config, si_pcm_dev_list = None, si_standby = True, si_source = source, si_devices = devices,
      si_main_channels = channel_mask,
      si_usecase = (if source = AUDIO_SOURCE_HOTWORD A then USECASE_AUDIO_CAPTURE_HOTWORD else USECASE_AUDIO_CAPTURE),
      si_usecase_type = (if source = AUDIO_SOURCE_HOTWORD A then PCM_HOTWORD_STREAMING else PCM_CAPTURE), si_enable_aec = False,
      si_input_flags = (if sample_rate \<noteq> CAPTURE_DEFAULT_SAMPLING_RATE then flags AND NOT (AUDIO_INPUT_FLAG_FAST A) else flags),
      si_requested_rate = sample_rate, si_resampler = False, si_read_status = 0, si_read_buf = None, si_read_buf_size = 0,
      si_read_buf_frames = 0, si_proc_buf_size = 0, si_proc_buf_in = [], si_proc_buf_frames = 0, si_preprocessors = [],
      si_aux_channels_changed = False, si_aux_channels = 0\<rparr>"

definition adev_open_input_stream :: "audio_h \<Rightarrow> audio_device \<Rightarrow> nat \<Rightarrow> u32 \<Rightarrow> nat \<Rightarrow> nat \<Rightarrow> u32 \<Rightarrow> u32 \<Rightarrow> int \<Rightarrow> int \<times> audio_device" where
  "adev_open_input_stream A ad a devices sample_rate format channel_mask flags source =
     (if check_input_parameters A sample_rate format (audio_channel_count_from_in_mask A channel_mask) \<noteq> 0 then (- HAL_EINVAL, ad)
      else case get_pcm_device A (ad_profiles ad) (if source = AUDIO_SOURCE_HOTWORD A then PCM_HOTWORD_STREAMING else PCM_CAPTURE) devices of
          None \<Rightarrow> (- HAL_EINVAL, ad)
        | Some p \<Rightarrow> (0, put_in a (new_stream_in A (pp_config (ad_profiles ad ! p)) devices sample_rate channel_mask flags source) ad))"

definition adev_close_input_stream :: "audio_device \<Rightarrow> nat \<Rightarrow> hal_fault + audio_device" where
  "adev_close_input_stream ad a = and_then (in_standby ad a) (\<lambda>ad1. Inr (ad1\<lparr>ad_ins := (ad_ins ad1)(a := None)\<rparr>))"

subsection \<open>Opening the device\<close>

text \<open>\<open>opens k\<close>: whether attempt \<open>k\<close> to open the mixer of a card succeeds; the code gives up after ten retries.\<close>

fun open_mixer :: "(nat \<Rightarrow> bool) \<Rightarrow> nat \<Rightarrow> nat \<Rightarrow> bool" where
  "open_mixer opens 0 k = opens k"
| "open_mixer opens (Suc n) k = (opens k \<or> open_mixer opens n (Suc k))"

definition RETRY_NUMBER :: nat where "RETRY_NUMBER = 10"

fun mixer_init_loop :: "(int \<Rightarrow> nat \<Rightarrow> bool) \<Rightarrow> (int \<Rightarrow> bool) \<Rightarrow> pcm_device_profile list \<Rightarrow> audio_device \<Rightarrow> int \<times> audio_device" where
  "mixer_init_loop opens route_init [] ad = (0, ad)"
| "mixer_init_loop opens route_init (p # ps) ad =
     (if adev_get_mixer_for_card ad (pp_card p) \<noteq> None then mixer_init_loop opens route_init ps ad
      else if \<not> open_mixer (opens (pp_card p)) RETRY_NUMBER 0 \<or> \<not> route_init (pp_card p) then (- HAL_ENODEV, ad\<lparr>ad_mixer_list := []\<rparr>)
      else mixer_init_loop opens route_init ps (ad\<lparr>ad_mixer_list := ad_mixer_list ad @ [pp_card p]\<rparr>))"

definition mixer_init :: "(int \<Rightarrow> nat \<Rightarrow> bool) \<Rightarrow> (int \<Rightarrow> bool) \<Rightarrow> audio_device \<Rightarrow> int \<times> audio_device" where
  "mixer_init opens route_init ad = mixer_init_loop opens route_init (ad_profiles ad) (ad\<lparr>ad_mixer_list := []\<rparr>)"

text \<open>The state before any call: the profiles are those of the source.\<close>

definition new_device :: "audio_h \<Rightarrow> audio_device" where
  "new_device A = \<lparr>ad_mixer_list = [], ad_mode = AUDIO_MODE_NORMAL A, ad_active_input = None, ad_primary_output = None, ad_in_call = False,
     ad_mic_mute = False, ad_tty_mode = TTY_MODE_OFF, ad_bluetooth_nrec = True, ad_screen_off = False,
     ad_snd_dev_ref_cnt = replicate SND_DEVICE_MAX 0, ad_usecase_list = [], ad_speaker_lr_swap = False, ad_dualmic_config = 0,
     ad_ns_in_voice_rec = False, ad_sound_trigger = False, ad_profiles = pcm_devices A, ad_outs = (\<lambda>_. None), ad_ins = (\<lambda>_. None),
     ad_pcms = [], ad_log = []\<rparr>"

definition adev_open :: "audio_h \<Rightarrow> (int \<Rightarrow> nat \<Rightarrow> bool) \<Rightarrow> (int \<Rightarrow> bool) \<Rightarrow> bool \<Rightarrow> int + audio_device" where
  "adev_open A opens route_init trigger_found =
     (case mixer_init opens route_init (new_device A) of
        (ret, ad) \<Rightarrow> if ret \<noteq> 0 then Inl (- HAL_EINVAL) else Inr (ad\<lparr>ad_sound_trigger := trigger_found\<rparr>))"

end
