(* ===== verification/Audio_Hal.thy ===== *)
theory Audio_Hal
  imports Audio_Stream
begin

text \<open>
  The audio device as a system: its invariant, and that every function of \<^verbatim>\<open>audio/hal/audio_hw.c\<close> that changes the device
  keeps it and does not fail.
\<close>

unbundle bit_operations_syntax

subsection \<open>The invariant\<close>

text \<open>
  What a use case of the list stands for: an output stream that plays, an input stream that captures, or the
  voice call, which runs on the primary output.
\<close>

definition play_ids :: "int set" where "play_ids = {USECASE_AUDIO_PLAYBACK, USECASE_AUDIO_PLAYBACK_DEEP_BUFFER}"
definition capture_ids :: "int set" where "capture_ids = {USECASE_AUDIO_CAPTURE, USECASE_AUDIO_CAPTURE_HOTWORD}"

definition key_ok :: "audio_device \<Rightarrow> int \<times> u32 \<times> stream_ref \<times> int list \<Rightarrow> bool" where
  "key_ok ad k \<longleftrightarrow>
     (case k of (i, t, st, ms) \<Rightarrow>
        (\<exists>a out. t = PCM_PLAYBACK \<and> st = Out_Stream a \<and> ad_outs ad a = Some out \<and> so_usecase out = i \<and> so_pcm_dev_list out \<noteq> None) \<or>
        (\<exists>a s. t = PCM_CAPTURE \<and> st = In_Stream a \<and> ad_ins ad a = Some s \<and> si_usecase s = i \<and> si_pcm_dev_list s \<noteq> None) \<or>
        (\<exists>a out. t = VOICE_CALL \<and> i = USECASE_VOICE_CALL \<and> st = Out_Stream a \<and> ad_primary_output ad = Some a \<and> ad_outs ad a = Some out \<and>
           so_pcm_dev_list out \<noteq> None))"

definition keys_ok :: "audio_device \<Rightarrow> bool" where
  "keys_ok ad \<longleftrightarrow> list_all (key_ok ad) (uc_keys ad) \<and> distinct (map fst (uc_keys ad))"

definition streams_typed :: "audio_device \<Rightarrow> bool" where
  "streams_typed ad \<longleftrightarrow>
     (\<forall>a out. ad_outs ad a = Some out \<longrightarrow> so_usecase out \<in> play_ids \<and> so_sample_rate out = PLAYBACK_DEFAULT_SAMPLING_RATE) \<and>
     (\<forall>a s. ad_ins ad a = Some s \<longrightarrow> si_usecase s \<in> capture_ids)"

definition profiles_ok :: "audio_device \<Rightarrow> bool" where
  "profiles_ok ad \<longleftrightarrow> list_all (\<lambda>p. pp_card p = SOUND_CARD \<and>
     (pp_type p = PCM_PLAYBACK \<longrightarrow> pc_rate (pp_config p) = PLAYBACK_DEFAULT_SAMPLING_RATE)) (ad_profiles ad)"

definition call_ok :: "audio_device \<Rightarrow> bool" where
  "call_ok ad \<longleftrightarrow> ad_in_call ad = (\<exists>k \<in> set (uc_keys ad). fst k = USECASE_VOICE_CALL)"

definition primary_ok :: "audio_device \<Rightarrow> bool" where
  "primary_ok ad \<longleftrightarrow> (\<forall>p. ad_primary_output ad = Some p \<longrightarrow> ad_outs ad p \<noteq> None)"

definition table_inv :: "audio_device \<Rightarrow> bool" where
  "table_inv ad \<longleftrightarrow> refs_ok ad \<and> devices_ok ad \<and> keys_ok ad \<and> ad_mixer_list ad = [SOUND_CARD]"

definition base_inv :: "audio_device \<Rightarrow> bool" where
  "base_inv ad \<longleftrightarrow> table_inv ad \<and> streams_typed ad \<and> profiles_ok ad \<and> primary_ok ad"

lemmas base_defs = base_inv_def table_inv_def keys_ok_def key_ok_def streams_typed_def profiles_ok_def primary_ok_def

text \<open>A stream is out of standby exactly while it has a use case.\<close>

definition playing :: "audio_device \<Rightarrow> nat \<Rightarrow> bool" where
  "playing ad a \<longleftrightarrow> (\<exists>i ms. (i, PCM_PLAYBACK, Out_Stream a, ms) \<in> set (uc_keys ad))"

definition capturing :: "audio_device \<Rightarrow> nat \<Rightarrow> bool" where
  "capturing ad a \<longleftrightarrow> (\<exists>i t ms. (i, t, In_Stream a, ms) \<in> set (uc_keys ad))"

definition stream_linked :: "audio_device \<Rightarrow> bool" where
  "stream_linked ad \<longleftrightarrow> (\<forall>a out. ad_outs ad a = Some out \<longrightarrow> playing ad a = (\<not> so_standby out)) \<and>
     (\<forall>a s. ad_ins ad a = Some s \<longrightarrow> capturing ad a = (\<not> si_standby s))"

definition active_ok :: "audio_device \<Rightarrow> bool" where
  "active_ok ad \<longleftrightarrow> (\<forall>b. ad_active_input ad = Some b \<longrightarrow> capturing ad b)"

definition hal_inv :: "audio_device \<Rightarrow> bool" where
  "hal_inv ad \<longleftrightarrow> base_inv ad \<and> call_ok ad \<and> stream_linked ad \<and> active_ok ad"

subsection \<open>Routing keeps the invariant\<close>

lemma key_ok_cong: "ad_outs b = ad_outs a \<Longrightarrow> ad_ins b = ad_ins a \<Longrightarrow> ad_primary_output b = ad_primary_output a \<Longrightarrow> key_ok b = key_ok a"
  by (simp add: fun_eq_iff key_ok_def)

lemma routed_fields:
  assumes "routed a b"
  shows "ad_frame a = ad_frame b" "uc_keys b = uc_keys a"
  using routed_frame [OF assms] by (simp_all add: same_except_routes_def)

lemma routed_base:
  assumes "routed a b" "base_inv a"
  shows "base_inv b"
proof -
  note f = ad_frame_fields [OF routed_fields(1) [OF assms(1)]]
  have "key_ok b = key_ok a" using f by (intro key_ok_cong) auto
  then have "keys_ok b" using assms(2) routed_fields(2) [OF assms(1)] by (simp add: base_inv_def table_inv_def keys_ok_def)
  moreover have "refs_ok b" "devices_ok b"
    using routed_refs_ok routed_devices_ok assms by (auto simp: base_inv_def table_inv_def)
  ultimately show ?thesis using assms(2) f by (simp add: base_inv_def table_inv_def streams_typed_def profiles_ok_def primary_ok_def)
qed

lemma routed_hal:
  assumes "routed a b" "hal_inv a"
  shows "hal_inv b"
proof -
  note f = ad_frame_fields [OF routed_fields(1) [OF assms(1)]] routed_fields(2) [OF assms(1)]
  have "playing b = playing a" "capturing b = capturing a" using f by (simp_all add: fun_eq_iff playing_def capturing_def)
  then show ?thesis using assms(2) routed_base [OF assms(1)] f by (simp add: hal_inv_def call_ok_def stream_linked_def active_ok_def)
qed

subsection \<open>Routing does not fail\<close>

text \<open>
  What routing relies on outside of the invariant: room for two nested calls, and that the bytes of an output
  stream do not look like an input stream for voice communication.
\<close>

definition env_ok :: "audio_env \<Rightarrow> bool" where
  "env_ok E \<longleftrightarrow> 2 \<le> ae_stack E \<and> (\<forall>out. si_source (ae_as_input E out) \<noteq> AUDIO_SOURCE_VOICE_COMMUNICATION (ae_h E))"

lemma key_of_usecase: "u \<in> set (ad_usecase_list ad) \<Longrightarrow> (uc_id u, uc_type u, uc_stream u, uc_mixer_list u) \<in> set (uc_keys ad)"
  by (auto simp: uc_keys_def)

lemma usecase_key_ok: "keys_ok ad \<Longrightarrow> u \<in> set (ad_usecase_list ad) \<Longrightarrow> key_ok ad (uc_id u, uc_type u, uc_stream u, uc_mixer_list u)"
  using key_of_usecase by (fastforce simp: keys_ok_def list_all_iff)

lemma type_distinct [simp]:
  "PCM_PLAYBACK \<noteq> PCM_CAPTURE" "PCM_PLAYBACK \<noteq> VOICE_CALL" "PCM_CAPTURE \<noteq> VOICE_CALL" "PCM_CAPTURE \<noteq> PCM_PLAYBACK" "VOICE_CALL \<noteq> PCM_PLAYBACK" "VOICE_CALL \<noteq> PCM_CAPTURE"
  by (simp_all add: usecase_type_defs)

lemma input_types: "has t (PCM_CAPTURE OR VOICE_CALL) \<Longrightarrow> t = PCM_PLAYBACK \<Longrightarrow> False" "has PCM_CAPTURE (PCM_CAPTURE OR VOICE_CALL)"
  by (simp_all add: has_def usecase_type_defs)

lemma usecase_cases:
  assumes "base_inv ad" "get_usecase_from_id ad i = Some u"
  obtains (playback) a out where "uc_type u = PCM_PLAYBACK" "uc_stream u = Out_Stream a" "ad_outs ad a = Some out" "so_usecase out = i" "so_pcm_dev_list out \<noteq> None"
  | (capture) a s where "uc_type u = PCM_CAPTURE" "uc_stream u = In_Stream a" "ad_ins ad a = Some s" "si_usecase s = i" "si_pcm_dev_list s \<noteq> None"
  | (call) a out where "uc_type u = VOICE_CALL" "i = USECASE_VOICE_CALL" "uc_stream u = Out_Stream a" "ad_primary_output ad = Some a" "ad_outs ad a = Some out" "so_pcm_dev_list out \<noteq> None"
proof -
  have "u \<in> set (ad_usecase_list ad)" "uc_id u = i" using find_in_set assms(2) by (fastforce simp: get_usecase_from_id_def)+
  then have "key_ok ad (i, uc_type u, uc_stream u, uc_mixer_list u)"
    using usecase_key_ok [of ad u] assms(1) by (simp add: base_inv_def table_inv_def)
  then show thesis using that by (auto simp: key_ok_def)
qed

lemma running_input_total:
  assumes "base_inv ad" "env_ok E"
  obtains r where "running_input E ad = Inr r"
    "\<And>s. r = Some s \<Longrightarrow> si_source s = AUDIO_SOURCE_VOICE_COMMUNICATION (ae_h E) \<Longrightarrow> si_usecase s \<in> capture_ids"
    "\<And>u. u \<in> set (ad_usecase_list ad) \<Longrightarrow> uc_type u = PCM_CAPTURE \<Longrightarrow> r \<noteq> None"
proof (cases "get_usecase_from_type ad (PCM_CAPTURE OR VOICE_CALL)")
  case None
  then have "u \<in> set (ad_usecase_list ad) \<Longrightarrow> uc_type u \<noteq> PCM_CAPTURE" for u
    using input_types(2) by (auto simp: get_usecase_from_type_def find_None_iff)
  then show thesis using None that [of None] by (simp add: running_input_def)
next
  case (Some u)
  then have u: "u \<in> set (ad_usecase_list ad)" "has (uc_type u) (PCM_CAPTURE OR VOICE_CALL)"
    using find_in_set by (fastforce simp: get_usecase_from_type_def)+
  have "key_ok ad (uc_id u, uc_type u, uc_stream u, uc_mixer_list u)"
    using usecase_key_ok u(1) assms(1) by (simp add: base_inv_def table_inv_def)
  then consider a s where "uc_stream u = In_Stream a" "ad_ins ad a = Some s" | a out where "uc_stream u = Out_Stream a" "ad_outs ad a = Some out"
    by (auto simp: key_ok_def)
  then show thesis
  proof cases
    case (1 a s)
    then have "si_usecase s \<in> capture_ids" using assms(1) by (auto simp: base_inv_def streams_typed_def)
    then show thesis using 1 Some that [of "Some s"] by (simp add: running_input_def get_in_def)
  next
    case (2 a out)
    then show thesis using Some that [of "Some (ae_as_input E out)"] assms(2) by (simp add: running_input_def get_out_def env_ok_def)
  qed
qed

lemma get_input_total:
  assumes "base_inv ad" "env_ok E"
  obtains d where "get_input_snd_device E ad devices = Inr d" "in_range d"
  using running_input_total [OF assms] that by (metis and_then_simps(2) get_input_snd_device_def get_input_range)

lemma echo_devices_total:
  assumes "base_inv ad" "env_ok E" "u \<in> set (ad_usecase_list ad)" "uc_type u = PCM_CAPTURE"
  obtains d where "echo_devices E ad = Inr d"
proof -
  obtain r where r: "running_input E ad = Inr r" "r \<noteq> None" using running_input_total [OF assms(1,2)] assms(3,4) by metis
  then obtain s where s: "r = Some s" by blast
  have "ad_primary_output ad = Some p \<Longrightarrow> \<exists>out. ad_outs ad p = Some out" for p using assms(1) by (auto simp: base_inv_def primary_ok_def)
  then have "\<exists>d. echo_devices E ad = Inr d"
    using r s by (cases "ad_primary_output ad") (auto simp: echo_devices_def get_out_def)
  then show thesis using that by blast
qed

lemma set_devices_base [simp]: "base_inv ad \<Longrightarrow> base_inv (set_devices i d ad)"
  using routed_base routed_devices [OF routed_refl] by blast

lemma select_voice_call_total:
  assumes "base_inv ad" "env_ok E" "stream_as_output ad st = Inr (a, out)"
  shows "\<exists>ad'. select_voice_call E ad i st = Inr ad'"
  using get_input_total [OF assms(1,2)] assms(3) by (auto simp: select_voice_call_def) (metis and_then_simps(2))

lemma set_devices_mem:
  assumes "get_usecase_from_id ad i = Some u"
  shows "\<exists>v \<in> set (ad_usecase_list (set_devices i d ad)). uc_type v = uc_type u"
proof -
  have "find P xs = Some u \<Longrightarrow> \<exists>v \<in> set (change_first P (\<lambda>v. v\<lparr>uc_devices := d\<rparr>) xs). uc_type v = uc_type u" for P xs
    by (induction xs) (auto split: if_splits)
  then show ?thesis using assms by (simp add: get_usecase_from_id_def set_devices_def change_usecase_def)
qed

lemma select_capture_total:
  assumes "base_inv ad" "env_ok E" "get_usecase_from_id ad i = Some u" "uc_type u = PCM_CAPTURE" "uc_stream u = In_Stream a" "ad_ins ad a = Some s"
  shows "\<exists>ad'. select_capture E ad i (uc_stream u) y = Inr ad'"
proof -
  let ?ad = "set_devices i (si_devices s) ad"
  obtain v where "v \<in> set (ad_usecase_list ?ad)" "uc_type v = PCM_CAPTURE" using set_devices_mem [OF assms(3), of "si_devices s"] assms(4) by auto
  then obtain d where "echo_devices E ?ad = Inr d" using echo_devices_total [OF set_devices_base [OF assms(1)] assms(2)] by metis
  moreover obtain e where "get_input_snd_device E ?ad d = Inr e" using get_input_total [OF set_devices_base [OF assms(1)] assms(2)] by metis
  ultimately show ?thesis using assms(5,6) by (simp add: select_capture_def get_in_def Let_def)
qed

definition call_found :: "audio_device \<Rightarrow> bool" where
  "call_found ad \<longleftrightarrow> (ad_in_call ad \<longrightarrow> get_usecase_from_id ad USECASE_VOICE_CALL \<noteq> None)"

lemma call_devices_total: "call_found ad \<Longrightarrow> \<exists>x y. call_devices ad = Inr (x, y)"
  by (auto simp: call_found_def call_devices_def)

lemma found_key: "get_usecase_from_id ad i \<noteq> None \<longleftrightarrow> i \<in> fst ` set (uc_keys ad)"
  by (auto simp: get_usecase_from_id_def find_None_iff uc_keys_def image_iff)

lemma call_found_routed:
  assumes "routed a b"
  shows "call_found b = call_found a"
  using routed_fields(2) [OF assms] ad_frame_fields(5) [OF routed_fields(1) [OF assms]] unfolding call_found_def found_key by simp

lemma ids_disjoint: "i \<in> capture_ids \<Longrightarrow> i \<notin> play_ids" "USECASE_VOICE_CALL \<notin> capture_ids" "USECASE_VOICE_CALL \<notin> play_ids"
  "USECASE_AUDIO_CAPTURE_HOTWORD \<notin> play_ids"
  by (auto simp: capture_ids_def play_ids_def usecase_defs)

lemma select_capture_id_total:
  assumes "base_inv ad" "env_ok E" "call_found ad" "i \<in> capture_ids"
  shows "\<exists>r ad'. select_devices (Suc n) E ad i = Inr (r, ad')"
proof (cases "get_usecase_from_id ad i")
  case (Some u)
  from assms(1) Some show ?thesis
  proof (cases rule: usecase_cases)
    case (playback a out)
    then have "i \<in> play_ids" using assms(1) by (auto simp: base_inv_def streams_typed_def)
    then show ?thesis using ids_disjoint(1) [OF assms(4)] by simp
  next
    case (capture a s)
    obtain x y where "call_devices ad = Inr (x, y)" using call_devices_total [OF assms(3)] by blast
    moreover obtain ad' where "select_capture E ad i (uc_stream u) y = Inr ad'"
      using select_capture_total [OF assms(1,2) Some capture(1,2,3)] by blast
    ultimately show ?thesis using Some capture(1) by simp
  next
    case call
    then show ?thesis using assms(4) ids_disjoint(2) by simp
  qed
qed simp

lemma reselect_input_total:
  assumes "base_inv ad" "env_ok E" "\<And>i. i \<in> capture_ids \<Longrightarrow> \<exists>r ad'. rec ad i = Inr (r, ad')"
  shows "\<exists>ad'. reselect_input E rec a ad = Inr ad'"
proof -
  obtain r where "running_input E ad = Inr r"
    "\<And>s. r = Some s \<Longrightarrow> si_source s = AUDIO_SOURCE_VOICE_COMMUNICATION (ae_h E) \<Longrightarrow> si_usecase s \<in> capture_ids"
    using running_input_total [OF assms(1,2)] by metis
  then show ?thesis
    using assms(3) [of "si_usecase (the r)"] by (cases r; cases "si_source (the r) = AUDIO_SOURCE_VOICE_COMMUNICATION (ae_h E)") (auto simp: reselect_input_def)
qed

lemma select_playback_total:
  assumes "base_inv ad" "env_ok E" "call_found ad" "stream_as_output ad st = Inr (a, out)"
  shows "\<exists>ad'. select_playback E (select_devices (Suc n) E) ad i st x = Inr ad'"
proof -
  let ?ad = "set_devices i (so_devices out) ad"
  have "call_found ?ad" using call_found_routed [OF routed_devices [OF routed_refl]] assms(3) by simp
  then obtain ad2 where "reselect_input E (select_devices (Suc n) E) a ?ad = Inr ad2"
    using reselect_input_total [OF set_devices_base [OF assms(1)] assms(2)] select_capture_id_total [OF set_devices_base [OF assms(1)] assms(2)] by metis
  then show ?thesis using assms(4) by (simp add: select_playback_def Let_def)
qed

lemma select_devices_total:
  assumes "base_inv ad" "env_ok E" "call_found ad"
  obtains r ad' where "select_devices (ae_stack E) E ad i = Inr (r, ad')" "routed ad ad'"
proof -
  obtain n where n: "ae_stack E = Suc (Suc n)" using assms(2) le_Suc_ex [of 2 "ae_stack E"] by (auto simp: env_ok_def)
  note step = select_devices.simps(2) [of "Suc n"]
  have "\<exists>r ad'. select_devices (ae_stack E) E ad i = Inr (r, ad')"
    supply select_devices.simps [simp del]
  proof (cases "get_usecase_from_id ad i")
    case (Some u)
    obtain x y where xy: "call_devices ad = Inr (x, y)" using call_devices_total [OF assms(3)] by blast
    from assms(1) Some show ?thesis
    proof (cases rule: usecase_cases)
      case (playback a out)
      then have "\<exists>ad'. select_playback E (select_devices (Suc n) E) ad i (uc_stream u) x = Inr ad'"
        by (intro select_playback_total [OF assms]) (simp add: get_out_def)
      then show ?thesis using Some xy playback(1) by (auto simp: n step)
    next
      case (capture a s)
      then have "\<exists>ad'. select_capture E ad i (uc_stream u) y = Inr ad'" using select_capture_total [OF assms(1,2) Some] by blast
      then show ?thesis using Some xy capture(1) by (auto simp: n step)
    next
      case (call a out)
      then have "\<exists>ad'. select_voice_call E ad i (uc_stream u) = Inr ad'"
        by (intro select_voice_call_total [OF assms(1,2)]) (simp add: get_out_def)
      then show ?thesis using Some call(1) by (auto simp: n step)
    qed
  qed (simp add: n step)
  moreover have "devices_ok ad" using assms(1) by (simp add: base_inv_def table_inv_def)
  ultimately show thesis using that select_devices_routed by blast
qed

subsection \<open>Changes of the device that keep the invariant\<close>

lemma put_fields [simp]:
  "ad_usecase_list (put_out a out ad) = ad_usecase_list ad" "ad_usecase_list (put_in a s ad) = ad_usecase_list ad"
  "ad_snd_dev_ref_cnt (put_out a out ad) = ad_snd_dev_ref_cnt ad" "ad_snd_dev_ref_cnt (put_in a s ad) = ad_snd_dev_ref_cnt ad"
  "ad_mixer_list (put_out a out ad) = ad_mixer_list ad" "ad_mixer_list (put_in a s ad) = ad_mixer_list ad"
  "ad_profiles (put_out a out ad) = ad_profiles ad" "ad_profiles (put_in a s ad) = ad_profiles ad"
  "ad_primary_output (put_out a out ad) = ad_primary_output ad" "ad_primary_output (put_in a s ad) = ad_primary_output ad"
  "ad_in_call (put_out a out ad) = ad_in_call ad" "ad_in_call (put_in a s ad) = ad_in_call ad"
  "ad_active_input (put_out a out ad) = ad_active_input ad" "ad_active_input (put_in a s ad) = ad_active_input ad"
  "ad_outs (put_out a out ad) = (ad_outs ad)(a := Some out)" "ad_outs (put_in a s ad) = ad_outs ad"
  "ad_ins (put_out a out ad) = ad_ins ad" "ad_ins (put_in a s ad) = (ad_ins ad)(a := Some s)"
  "ad_pcms (put_out a out ad) = ad_pcms ad" "ad_pcms (put_in a s ad) = ad_pcms ad"
  "ad_sound_trigger (put_out a out ad) = ad_sound_trigger ad" "ad_sound_trigger (put_in a s ad) = ad_sound_trigger ad"
  "uc_keys (put_out a out ad) = uc_keys ad" "uc_keys (put_in a s ad) = uc_keys ad"
  "ad_mode (put_out a out ad) = ad_mode ad" "ad_mode (put_in a s ad) = ad_mode ad"
  by (simp_all add: put_out_def put_in_def uc_keys_def)

text \<open>The table of use cases and counts depends on the list of use cases and the counts only.\<close>

lemma table_parts_cong:
  "ad_usecase_list b = ad_usecase_list a \<Longrightarrow> ad_snd_dev_ref_cnt b = ad_snd_dev_ref_cnt a \<Longrightarrow>
   refs_ok b = refs_ok a \<and> devices_ok b = devices_ok a \<and> uc_keys b = uc_keys a"
  by (simp add: refs_ok_def users_def devices_ok_def uc_keys_def)

lemma base_cong:
  assumes "ad_usecase_list b = ad_usecase_list a" "ad_snd_dev_ref_cnt b = ad_snd_dev_ref_cnt a" "ad_mixer_list b = ad_mixer_list a"
    and "ad_outs b = ad_outs a" "ad_ins b = ad_ins a" "ad_primary_output b = ad_primary_output a" "profiles_ok b = profiles_ok a"
  shows "base_inv b = base_inv a"
  using table_parts_cong [OF assms(1,2)] key_ok_cong [OF assms(4,5,6)] assms
  by (simp add: base_inv_def table_inv_def keys_ok_def streams_typed_def primary_ok_def)

lemma base_updates [simp]:
  "base_inv (ad\<lparr>ad_pcms := v1\<rparr>) = base_inv ad" "base_inv (ad\<lparr>ad_active_input := v2\<rparr>) = base_inv ad"
  "base_inv (ad\<lparr>ad_in_call := v3\<rparr>) = base_inv ad" "base_inv (ad\<lparr>ad_mode := v4\<rparr>) = base_inv ad"
  "base_inv (ad\<lparr>ad_tty_mode := v4\<rparr>) = base_inv ad" "base_inv (ad\<lparr>ad_mic_mute := v3\<rparr>) = base_inv ad"
  "base_inv (ad\<lparr>ad_bluetooth_nrec := v3\<rparr>) = base_inv ad" "base_inv (ad\<lparr>ad_screen_off := v3\<rparr>) = base_inv ad"
  "base_inv (ad\<lparr>ad_speaker_lr_swap := v3\<rparr>) = base_inv ad" "base_inv (ad\<lparr>ad_log := v5\<rparr>) = base_inv ad"
  "base_inv (ad\<lparr>ad_sound_trigger := v3\<rparr>) = base_inv ad"
  by (rule base_cong; simp add: profiles_ok_def)+

lemma key_ok_put_out:
  assumes "ad_outs ad a = Some out" "so_usecase out' = so_usecase out" "so_pcm_dev_list out \<noteq> None \<Longrightarrow> so_pcm_dev_list out' \<noteq> None" "key_ok ad k"
  shows "key_ok (put_out a out' ad) k"
  using assms by (cases k) (auto simp: key_ok_def)

lemma put_out_base:
  assumes "base_inv ad" "ad_outs ad a = Some out" "so_usecase out' = so_usecase out" "so_sample_rate out' = so_sample_rate out"
    and "so_pcm_dev_list out \<noteq> None \<Longrightarrow> so_pcm_dev_list out' \<noteq> None"
  shows "base_inv (put_out a out' ad)"
proof -
  have "list_all (key_ok (put_out a out' ad)) (uc_keys ad)"
    using assms(1) key_ok_put_out [OF assms(2,3,5)] by (auto simp: base_inv_def table_inv_def keys_ok_def list_all_iff)
  then show ?thesis
    using assms(1-4) table_parts_cong [of "put_out a out' ad" ad]
    by (simp add: base_inv_def table_inv_def keys_ok_def streams_typed_def profiles_ok_def primary_ok_def)
qed

lemma key_ok_put_in:
  assumes "ad_ins ad a = Some s" "si_usecase s' = si_usecase s" "si_pcm_dev_list s \<noteq> None \<Longrightarrow> si_pcm_dev_list s' \<noteq> None" "key_ok ad k"
  shows "key_ok (put_in a s' ad) k"
  using assms by (cases k) (auto simp: key_ok_def)

lemma put_in_base:
  assumes "base_inv ad" "ad_ins ad a = Some s" "si_usecase s' = si_usecase s"
    and "si_pcm_dev_list s \<noteq> None \<Longrightarrow> si_pcm_dev_list s' \<noteq> None"
  shows "base_inv (put_in a s' ad)"
proof -
  have "list_all (key_ok (put_in a s' ad)) (uc_keys ad)"
    using assms(1) key_ok_put_in [OF assms(2,3,4)] by (auto simp: base_inv_def table_inv_def keys_ok_def list_all_iff)
  then show ?thesis
    using assms(1-3) table_parts_cong [of "put_in a s' ad" ad]
    by (simp add: base_inv_def table_inv_def keys_ok_def streams_typed_def profiles_ok_def primary_ok_def)
qed

definition uc_key :: "audio_usecase \<Rightarrow> int \<times> u32 \<times> stream_ref \<times> int list" where
  "uc_key u = (uc_id u, uc_type u, uc_stream u, uc_mixer_list u)"

lemma keys_add [simp]: "uc_keys (add_usecase u ad) = uc_keys ad @ [uc_key u]"
  by (simp add: uc_keys_def add_usecase_def uc_key_def)

lemma add_usecase_base:
  assumes "base_inv ad" "key_ok ad (uc_key u)" "uc_id u \<notin> fst ` set (uc_keys ad)"
    and "uc_out_snd_device u = SND_DEVICE_NONE" "uc_in_snd_device u = SND_DEVICE_NONE"
  shows "base_inv (add_usecase u ad)"
proof -
  have "users d (add_usecase u ad) = users d ad" if "SND_DEVICE_MIN \<le> d" for d
    using that assms(4,5) by (auto simp: users_def add_usecase_def uses_def snd_device_defs)
  then have "refs_ok (add_usecase u ad)" using assms(1) by (simp add: base_inv_def table_inv_def refs_ok_def) (simp add: add_usecase_def)
  moreover have "devices_ok (add_usecase u ad)" using assms(1,4,5) by (auto simp: base_inv_def table_inv_def devices_ok_def add_usecase_def)
  moreover have "key_ok (add_usecase u ad) = key_ok ad" by (rule key_ok_cong) (simp_all add: add_usecase_def)
  moreover have "fst (uc_key u) = uc_id u" by (simp add: uc_key_def)
  ultimately show ?thesis
    using assms(1-3) by (simp add: base_inv_def table_inv_def keys_ok_def streams_typed_def profiles_ok_def primary_ok_def)
      (simp add: add_usecase_def)
qed

lemma map_remove_first: "(\<And>x. P x = Q (g x)) \<Longrightarrow> map g (remove_first P xs) = remove_first Q (map g xs)"
  by (induction xs) auto

lemma keys_remove: "uc_keys (remove_usecase i ad) = remove_first (\<lambda>k. fst k = i) (uc_keys ad)"
  unfolding uc_keys_def remove_usecase_def by (simp add: map_remove_first [where Q = "\<lambda>k. fst k = i"])

lemma set_remove_distinct:
  "distinct (map fst ks) \<Longrightarrow> set (remove_first (\<lambda>k. fst k = i) ks) = {k \<in> set ks. fst k \<noteq> i}"
  by (induction ks) (auto simp: image_iff)

lemma distinct_remove: "distinct (map f xs) \<Longrightarrow> distinct (map f (remove_first P xs))"
  by (induction xs) (use set_remove_first in \<open>fastforce\<close>)+

lemma keys_after_remove: "keys_ok ad \<Longrightarrow> set (uc_keys (remove_usecase i ad)) = {k \<in> set (uc_keys ad). fst k \<noteq> i}"
  by (simp add: keys_remove keys_ok_def set_remove_distinct)

text \<open>A use case leaves its sound devices and the list.\<close>

definition drop_usecase :: "bool \<Rightarrow> bool \<Rightarrow> int \<Rightarrow> audio_usecase \<Rightarrow> audio_device \<Rightarrow> audio_device" where
  "drop_usecase b c i u ad =
     remove_usecase i (snd (disable_snd_device (snd (disable_snd_device ad u (uc_out_snd_device u) b)) u (uc_in_snd_device u) c))"

lemma drop_frame: "ad_frame (drop_usecase b c i u ad) = ad_frame ad"
proof -
  have "ad_frame (remove_usecase i ad') = ad_frame ad'" for ad' by (simp add: remove_usecase_def ad_frame_def)
  then show ?thesis by (simp add: drop_usecase_def)
qed

lemmas drop_fields = ad_frame_fields [OF drop_frame [symmetric]]

lemma drop_list: "ad_usecase_list (drop_usecase b c i u ad) = remove_first (\<lambda>v. uc_id v = i) (ad_usecase_list ad)"
  by (simp add: drop_usecase_def remove_usecase_def)

lemma drop_keys: "uc_keys (drop_usecase b c i u ad) = uc_keys (remove_usecase i ad)"
  unfolding uc_keys_def drop_list by (simp add: remove_usecase_def)

lemma drop_usecase_base:
  assumes "base_inv ad" "get_usecase_from_id ad i = Some u"
  shows "base_inv (drop_usecase b c i u ad)"
proof -
  let ?ad = "drop_usecase b c i u ad"
  have t: "refs_ok ad" "devices_ok ad" "keys_ok ad" using assms(1) by (simp_all add: base_inv_def table_inv_def)
  note f = assms(2) [unfolded get_usecase_from_id_def]
  note range = usecase_ok [OF t(2) assms(2)]
  note l = leave_counts [OF t(1) conjunct1 [OF find_in_set [OF f]] conjunct1 [OF range] conjunct2 [OF range] refl refl]
  have users: "users d ?ad = users d ad - uses d u" for d
    unfolding users_def drop_list by (rule sum_remove_first [OF f])
  have cnt: "ad_snd_dev_ref_cnt (remove_usecase i ad') = ad_snd_dev_ref_cnt ad'" for ad' by (simp add: remove_usecase_def)
  have "refs_ok ?ad" using t(1) l unfolding refs_ok_def users by (simp add: drop_usecase_def cnt)
  moreover have "devices_ok ?ad" using t(2) set_remove_first by (fastforce simp: devices_ok_def drop_list)
  moreover have "key_ok ?ad = key_ok ad" by (rule key_ok_cong) (simp_all add: drop_fields)
  moreover have "distinct (map fst (uc_keys ?ad))" using t(3) by (simp add: drop_keys keys_remove keys_ok_def distinct_remove)
  moreover have "set (uc_keys ?ad) \<subseteq> set (uc_keys ad)" using keys_after_remove [OF t(3)] by (auto simp: drop_keys)
  ultimately show ?thesis
    using assms(1) drop_fields by (auto simp: base_inv_def table_inv_def keys_ok_def streams_typed_def profiles_ok_def primary_ok_def list_all_iff)
qed

lemma put_remove [simp]: "remove_usecase i (put_out a out ad) = put_out a out (remove_usecase i ad)"
  by (simp add: remove_usecase_def put_out_def)

text \<open>The device after a playback or a capture has left.\<close>

lemma usecase_device_none:
  assumes "base_inv ad" "get_usecase_from_id ad i = Some u"
  shows "uc_type u = PCM_PLAYBACK \<Longrightarrow> uc_in_snd_device u = SND_DEVICE_NONE" "uc_type u = PCM_CAPTURE \<Longrightarrow> uc_out_snd_device u = SND_DEVICE_NONE"
  using assms find_in_set by (fastforce simp: base_inv_def table_inv_def devices_ok_def get_usecase_from_id_def)+

lemma drop_playback:
  assumes "base_inv ad" "get_usecase_from_id ad i = Some u" "uc_type u = PCM_PLAYBACK"
  shows "remove_usecase i (snd (disable_snd_device ad u (uc_out_snd_device u) b)) = drop_usecase b True i u ad"
  using usecase_device_none(1) [OF assms] by (simp add: drop_usecase_def)

lemma drop_capture:
  assumes "base_inv ad" "get_usecase_from_id ad i = Some u" "uc_type u = PCM_CAPTURE"
  shows "remove_usecase i (snd (disable_snd_device ad u (uc_in_snd_device u) b)) = drop_usecase True b i u ad"
  using usecase_device_none(2) [OF assms] by (simp add: drop_usecase_def)

subsection \<open>Output streams\<close>

lemma fold_close: "\<exists>p. fold (\<lambda>pd. pcm_close (pd_pcm pd)) pds ad = ad\<lparr>ad_pcms := p\<rparr>"
proof (induction pds arbitrary: ad)
  case Nil
  show ?case by (intro exI [of _ "ad_pcms ad"]) simp
next
  case (Cons pd pds)
  define p where "p = (case pd_pcm pd of Some h \<Rightarrow> remove1 h (ad_pcms ad) | None \<Rightarrow> ad_pcms ad)"
  have p: "pcm_close (pd_pcm pd) ad = ad\<lparr>ad_pcms := p\<rparr>" by (cases "pd_pcm pd") (simp_all add: pcm_close_def p_def)
  obtain q where "fold (\<lambda>pd. pcm_close (pd_pcm pd)) pds (ad\<lparr>ad_pcms := p\<rparr>) = ad\<lparr>ad_pcms := p\<rparr>\<lparr>ad_pcms := q\<rparr>" using Cons by blast
  then show ?case using p by auto
qed

lemma out_close_result:
  assumes "ad_outs ad a = Some out" "so_pcm_dev_list out = Some pds"
  obtains p where "out_close_pcm_devices ad a = Inr ((put_out a (out\<lparr>so_pcm_dev_list := Some (map closed_pcm_device pds)\<rparr>) ad)\<lparr>ad_pcms := p\<rparr>)"
  using fold_close [of pds "put_out a (out\<lparr>so_pcm_dev_list := Some (map closed_pcm_device pds)\<rparr>) ad"] that assms
  by (auto simp: out_close_pcm_devices_def get_out_def)

lemma find_distinct_key:
  assumes "distinct (map fst (uc_keys ad))" "(i, t, st, ms) \<in> set (uc_keys ad)"
  obtains u where "get_usecase_from_id ad i = Some u" "uc_type u = t" "uc_stream u = st" "uc_mixer_list u = ms"
proof -
  obtain u where u: "get_usecase_from_id ad i = Some u" using assms(2) found_key [of ad i] by force
  then have "u \<in> set (ad_usecase_list ad)" "uc_id u = i" using find_in_set by (fastforce simp: get_usecase_from_id_def)+
  then have "(i, uc_type u, uc_stream u, uc_mixer_list u) \<in> set (uc_keys ad)" using key_of_usecase by force
  then have "(uc_type u, uc_stream u, uc_mixer_list u) = (t, st, ms)" using assms eq_key_imp_eq_value by metis
  then show thesis using that u by auto
qed

lemma playing_found:
  assumes "base_inv ad" "playing ad a" "ad_outs ad a = Some out"
  obtains u pds where "get_usecase_from_id ad (so_usecase out) = Some u" "uc_type u = PCM_PLAYBACK" "uc_stream u = Out_Stream a"
    "so_pcm_dev_list out = Some pds"
proof -
  obtain i ms where k: "(i, PCM_PLAYBACK, Out_Stream a, ms) \<in> set (uc_keys ad)" using assms(2) by (auto simp: playing_def)
  then have "key_ok ad (i, PCM_PLAYBACK, Out_Stream a, ms)" using assms(1) by (auto simp: base_inv_def table_inv_def keys_ok_def list_all_iff)
  then have i: "i = so_usecase out" "so_pcm_dev_list out \<noteq> None" using assms(3) by (auto simp: key_ok_def)
  have "distinct (map fst (uc_keys ad))" using assms(1) by (simp add: base_inv_def table_inv_def keys_ok_def)
  then show thesis using find_distinct_key [OF _ k] i that by auto
qed

lemma disable_output_result:
  assumes "base_inv ad" "playing ad a" "ad_outs ad a = Some out"
  obtains u where "get_usecase_from_id ad (so_usecase out) = Some u" "uc_type u = PCM_PLAYBACK"
    "stop_output_stream ad a = Inr (0, put_out a (out\<lparr>so_pcm_dev_list := Some []\<rparr>) (drop_usecase True True (so_usecase out) u ad))"
proof -
  obtain u pds where u: "get_usecase_from_id ad (so_usecase out) = Some u" "uc_type u = PCM_PLAYBACK" "uc_stream u = Out_Stream a"
      and pds: "so_pcm_dev_list out = Some pds"
    using playing_found [OF assms] by metis
  have "ad_outs (snd (disable_snd_device ad u d b)) = ad_outs ad" for d b by (rule ad_frame_fields(7)) simp
  then have "uc_release_pcm_devices (snd (disable_snd_device ad u (uc_out_snd_device u) True)) u =
      Inr (put_out a (out\<lparr>so_pcm_dev_list := Some []\<rparr>) (snd (disable_snd_device ad u (uc_out_snd_device u) True)))"
    using assms(3) u pds by (simp add: uc_release_pcm_devices_def get_out_def)
  then have "stop_output_stream ad a = Inr (0, put_out a (out\<lparr>so_pcm_dev_list := Some []\<rparr>) (drop_usecase True True (so_usecase out) u ad))"
    using assms(3) u drop_playback [OF assms(1) u(1,2)] by (simp add: stop_output_stream_def disable_output_path_l_def get_out_def)
  then show thesis using that u by blast
qed

text \<open>The rest of the invariant after the use case of an output has gone.\<close>

lemma key_stream_unique:
  assumes "base_inv ad" "(i, t, Out_Stream a, ms) \<in> set (uc_keys ad)" "ad_outs ad a = Some out"
  shows "t = PCM_PLAYBACK \<and> i = so_usecase out \<or> t = VOICE_CALL \<and> i = USECASE_VOICE_CALL"
proof -
  have "key_ok ad (i, t, Out_Stream a, ms)" using assms(1,2) by (auto simp: base_inv_def table_inv_def keys_ok_def list_all_iff)
  then show ?thesis using assms(3) by (auto simp: key_ok_def)
qed

lemma key_types:
  assumes "base_inv ad" "(i, t, st, ms) \<in> set (uc_keys ad)"
  shows "t = PCM_PLAYBACK \<and> i \<in> play_ids \<and> (\<exists>a out. st = Out_Stream a \<and> ad_outs ad a = Some out \<and> so_usecase out = i) \<or>
    t = PCM_CAPTURE \<and> i \<in> capture_ids \<and> (\<exists>a s. st = In_Stream a \<and> ad_ins ad a = Some s \<and> si_usecase s = i) \<or>
    t = VOICE_CALL \<and> i = USECASE_VOICE_CALL \<and> (\<exists>a. st = Out_Stream a)"
proof -
  have "key_ok ad (i, t, st, ms)" using assms by (auto simp: base_inv_def table_inv_def keys_ok_def list_all_iff)
  then show ?thesis using assms(1) by (auto simp: key_ok_def base_inv_def streams_typed_def)
qed

lemma hal_after_output_stop:
  assumes "hal_inv ad" "ad_outs ad a = Some out" "playing ad a" "base_inv ad'" "so_standby out'"
    and "set (uc_keys ad') = {k \<in> set (uc_keys ad). fst k \<noteq> so_usecase out}" "ad_outs ad' = (ad_outs ad)(a := Some out')"
    and "ad_ins ad' = ad_ins ad" "ad_in_call ad' = ad_in_call ad" "ad_active_input ad' = ad_active_input ad"
  shows "hal_inv ad'"
proof -
  have b: "base_inv ad" and o: "so_usecase out \<in> play_ids" using assms(1,2) by (auto simp: hal_inv_def base_inv_def streams_typed_def)
  have ids: "so_usecase out \<noteq> USECASE_VOICE_CALL" "so_usecase out \<notin> capture_ids" using o by (auto simp: play_ids_def capture_ids_def usecase_defs)
  obtain ms where k: "(so_usecase out, PCM_PLAYBACK, Out_Stream a, ms) \<in> set (uc_keys ad)"
    using assms(2,3) key_stream_unique [OF b] by (fastforce simp: playing_def)
  have dist: "distinct (map fst (uc_keys ad))" using b by (simp add: base_inv_def table_inv_def keys_ok_def)
  have play: "playing ad' c = (playing ad c \<and> c \<noteq> a)" for c
  proof -
    have "(so_usecase out, t, Out_Stream c, ms') \<in> set (uc_keys ad) \<Longrightarrow> c = a" for t ms'
      using eq_key_imp_eq_value [OF dist k] by fastforce
    moreover have "(i, PCM_PLAYBACK, Out_Stream a, ms') \<in> set (uc_keys ad) \<Longrightarrow> i = so_usecase out" for i ms'
      using key_stream_unique [OF b _ assms(2)] by fastforce
    ultimately show ?thesis by (auto simp: playing_def assms(6))
  qed
  have capt: "capturing ad' c = capturing ad c" for c
  proof -
    have "(i, t, In_Stream c, ms') \<in> set (uc_keys ad) \<Longrightarrow> i \<noteq> so_usecase out" for i t ms' using key_types [OF b] ids(2) by fastforce
    then show ?thesis by (auto simp: capturing_def assms(6))
  qed
  have "call_ok ad'" using assms(1) ids(1) by (auto simp: hal_inv_def call_ok_def assms(6,9)) (metis fst_conv)+
  then show ?thesis using assms play capt by (auto simp: hal_inv_def stream_linked_def active_ok_def)
qed

lemma put_twice [simp]: "put_out a x (put_out a y ad) = put_out a x ad" "put_in a v (put_in a w ad) = put_in a v ad"
  by (simp_all add: put_out_def put_in_def)

lemma pcms_fields [simp]: "uc_keys (ad\<lparr>ad_pcms := p\<rparr>) = uc_keys ad" "playing (ad\<lparr>ad_pcms := p\<rparr>) = playing ad"
  "playing (put_out a out ad) = playing ad" "playing (put_in b s ad) = playing ad"
  "capturing (put_out a out ad) = capturing ad" "capturing (put_in b s ad) = capturing ad" "capturing (ad\<lparr>ad_pcms := p\<rparr>) = capturing ad"
  by (simp_all add: uc_keys_def playing_def capturing_def fun_eq_iff)

lemma put_out_hal:
  assumes "hal_inv ad" "ad_outs ad a = Some out" "so_usecase out' = so_usecase out" "so_sample_rate out' = so_sample_rate out"
    and "so_pcm_dev_list out \<noteq> None \<Longrightarrow> so_pcm_dev_list out' \<noteq> None" "so_standby out' = so_standby out"
  shows "hal_inv (put_out a out' ad)"
  using assms put_out_base [OF _ assms(2-5)] by (auto simp: hal_inv_def call_ok_def stream_linked_def active_ok_def)

lemma put_in_hal:
  assumes "hal_inv ad" "ad_ins ad a = Some s" "si_usecase s' = si_usecase s"
    and "si_pcm_dev_list s \<noteq> None \<Longrightarrow> si_pcm_dev_list s' \<noteq> None" "si_standby s' = si_standby s"
  shows "hal_inv (put_in a s' ad)"
  using assms put_in_base [OF _ assms(2-4)] by (auto simp: hal_inv_def call_ok_def stream_linked_def active_ok_def)

text \<open>The part of the device that starting and stopping an output leaves alone.\<close>

definition same_inputs :: "audio_device \<Rightarrow> audio_device \<Rightarrow> bool" where
  "same_inputs ad ad' \<longleftrightarrow> ad_ins ad' = ad_ins ad \<and> ad_active_input ad' = ad_active_input ad \<and> ad_primary_output ad' = ad_primary_output ad \<and>
     ad_mode ad' = ad_mode ad \<and> ad_in_call ad' = ad_in_call ad"

lemma same_inputs_refl [simp]: "same_inputs ad ad"
  by (simp add: same_inputs_def)

lemma same_inputs_trans: "same_inputs a b \<Longrightarrow> same_inputs b c \<Longrightarrow> same_inputs a c"
  by (simp add: same_inputs_def)

lemma routed_same_inputs: "routed a b \<Longrightarrow> same_inputs a b"
  using ad_frame_fields [OF routed_fields(1)] by (simp add: same_inputs_def)

lemma do_out_standby_hal:
  assumes "hal_inv ad" "ad_outs ad a = Some out" "\<not> so_standby out"
  obtains ad' out' where "do_out_standby_l ad a = Inr (0, ad')" "hal_inv ad'" "ad_outs ad' = (ad_outs ad)(a := Some out')" "so_standby out'"
    "so_devices out' = so_devices out" "same_inputs ad ad'"
proof -
  have play: "playing ad a" and b: "base_inv ad" using assms by (auto simp: hal_inv_def stream_linked_def)
  obtain pds where pds: "so_pcm_dev_list out = Some pds" using playing_found [OF b play assms(2)] by metis
  let ?o1 = "out\<lparr>so_standby := True\<rparr>" and ?o2 = "out\<lparr>so_standby := True, so_pcm_dev_list := Some (map closed_pcm_device pds)\<rparr>"
  obtain p where p: "out_close_pcm_devices (put_out a ?o1 ad) a = Inr ((put_out a ?o2 ad)\<lparr>ad_pcms := p\<rparr>)"
    using out_close_result [of "put_out a ?o1 ad" a ?o1 pds] pds by auto
  let ?ad1 = "(put_out a ?o2 ad)\<lparr>ad_pcms := p\<rparr>"
  have b1: "base_inv ?ad1" using put_out_base [OF b assms(2)] by simp
  obtain u where u: "get_usecase_from_id ?ad1 (so_usecase ?o2) = Some u"
      and st: "stop_output_stream ?ad1 a = Inr (0, put_out a (?o2\<lparr>so_pcm_dev_list := Some []\<rparr>) (drop_usecase True True (so_usecase ?o2) u ?ad1))"
    using disable_output_result [OF b1, of a ?o2] play by auto
  let ?ad' = "put_out a (?o2\<lparr>so_pcm_dev_list := Some []\<rparr>) (drop_usecase True True (so_usecase ?o2) u ?ad1)"
  have b2: "base_inv ?ad'"
    by (rule put_out_base [OF drop_usecase_base [OF b1 u], where out = ?o2]) (simp_all add: drop_fields)
  have keys: "set (uc_keys ?ad') = {k \<in> set (uc_keys ad). fst k \<noteq> so_usecase out}"
    using keys_after_remove [of ?ad1] b1 by (simp add: drop_keys base_inv_def table_inv_def)
  have "hal_inv ?ad'"
    by (rule hal_after_output_stop [OF assms(1,2) play b2 _ keys, where out' = "?o2\<lparr>so_pcm_dev_list := Some []\<rparr>"]) (simp_all add: drop_fields)
  moreover have "do_out_standby_l ad a = Inr (0, ?ad')" using p st assms(2) by (simp add: do_out_standby_l_def get_out_def)
  moreover have "same_inputs ad ?ad'" by (simp add: same_inputs_def drop_fields)
  ultimately show thesis using that [of ?ad'] by (simp add: drop_fields)
qed

lemma out_standby_hal:
  assumes "hal_inv ad" "ad_outs ad a = Some out"
  obtains ad' out' where "out_standby ad a = Inr ad'" "hal_inv ad'" "ad_outs ad' = (ad_outs ad)(a := Some out')" "so_standby out'" "same_inputs ad ad'"
proof (cases "so_standby out")
  case True
  then show thesis using that [of ad out] assms by (simp add: out_standby_def get_out_def fun_upd_idem)
next
  case False
  obtain ad' out' where r: "do_out_standby_l ad a = Inr (0, ad')" "hal_inv ad'" "ad_outs ad' = (ad_outs ad)(a := Some out')" "so_standby out'" "same_inputs ad ad'"
    using do_out_standby_hal [OF assms False] by metis
  show thesis by (rule that [OF _ r(2-5)]) (use r(1) assms False in \<open>simp add: out_standby_def get_out_def\<close>)
qed

lemma get_pcm_device_Some:
  "get_pcm_device A profiles t d = Some p \<Longrightarrow> p < length profiles \<and> pp_type (profiles ! p) = t"
  by (auto simp: get_pcm_device_def Let_def find_upt_Some split: if_splits)

lemma link_mixer_result:
  assumes "base_inv ad" "uc_id u \<notin> fst ` set (uc_keys ad)" "c = SOUND_CARD"
  shows "link_mixer ad u c = Inr (u\<lparr>uc_mixer_list := uc_mixer_list u @ [SOUND_CARD]\<rparr>)"
proof -
  have "v \<in> set (ad_usecase_list ad) \<Longrightarrow> uc_id v \<noteq> uc_id u" for v using assms(2) key_of_usecase by force
  then show ?thesis using assms(1,3) by (auto simp: link_mixer_def adev_get_mixer_for_card_def base_inv_def table_inv_def)
qed

lemma uc_select_result:
  assumes "base_inv ad" "ad_outs ad a = Some out" "uc_stream u = Out_Stream a" "uc_id u \<notin> fst ` set (uc_keys ad)"
  obtains ms pds where "uc_select_pcm_devices A ad u = Inr (u\<lparr>uc_mixer_list := ms\<rparr>, put_out a (out\<lparr>so_pcm_dev_list := Some pds\<rparr>) ad)"
    "\<And>pd. pd \<in> set pds \<Longrightarrow> pp_type (ad_profiles ad ! pd_profile pd) = uc_type u \<and> pd_profile pd < length (ad_profiles ad)" "length pds \<le> 1"
proof (cases "get_pcm_device A (ad_profiles ad) (uc_type u) (uc_devices u)")
  case None
  then show thesis using that [of "[]" "[]"] assms(2,3) by (simp add: uc_select_pcm_devices_def get_out_def)
next
  case (Some p)
  have "pp_card (ad_profiles ad ! p) = SOUND_CARD"
    using get_pcm_device_Some [OF Some] assms(1) by (auto simp: base_inv_def profiles_ok_def list_all_length)
  then have "link_mixer ad (u\<lparr>uc_mixer_list := []\<rparr>) (pp_card (ad_profiles ad ! p)) = Inr (u\<lparr>uc_mixer_list := [SOUND_CARD]\<rparr>)"
    using link_mixer_result [OF assms(1), of "u\<lparr>uc_mixer_list := []\<rparr>"] assms(4) by simp
  then show thesis using that [of "[SOUND_CARD]" "[new_pcm_device p]"] Some get_pcm_device_Some [OF Some] assms(2,3)
    by (simp add: uc_select_pcm_devices_def get_out_def uc_get_mixer_for_card_def new_pcm_device_def)
qed

lemma call_ok_found: "call_ok ad \<Longrightarrow> call_found ad"
  unfolding call_ok_def call_found_def found_key by force

lemma add_fields [simp]:
  "ad_in_call (add_usecase u ad) = ad_in_call ad" "ad_outs (add_usecase u ad) = ad_outs ad" "ad_ins (add_usecase u ad) = ad_ins ad"
  "ad_profiles (add_usecase u ad) = ad_profiles ad" "ad_active_input (add_usecase u ad) = ad_active_input ad"
  "ad_primary_output (add_usecase u ad) = ad_primary_output ad" "ad_mode (add_usecase u ad) = ad_mode ad"
  by (simp_all add: add_usecase_def)

lemma call_found_add: "call_found ad \<Longrightarrow> call_found (add_usecase u (put_out a out ad))"
  unfolding call_found_def found_key by auto

lemma key_ok_fields: "key_ok (ad\<lparr>ad_pcms := p\<rparr>) = key_ok ad"
  by (rule key_ok_cong) simp_all

lemma open_loop_ret:
  assumes "\<And>pd. pd \<in> set pds \<Longrightarrow> pc_rate (pp_config (ad_profiles ad ! pd_profile pd)) = so_sample_rate out"
  shows "\<exists>pds' ok. open_loop ad out ans k pds 0 = (pds', if ok then 0 else - HAL_EIO, ok)"
  using assms
proof (induction pds arbitrary: k)
  case (Cons pd pds)
  then obtain pds' ok where "open_loop ad out ans (Suc k) pds 0 = (pds', if ok then 0 else - HAL_EIO, ok)" by (meson list.set_intros(2))
  then show ?case using Cons.prems [of pd] by (auto simp: open_one_def Let_def split: if_splits)
qed (auto intro: exI [of _ True])

lemma out_open_result:
  assumes "ad_outs ad a = Some out" "so_pcm_dev_list out = Some pds"
    and "\<And>pd. pd \<in> set pds \<Longrightarrow> pc_rate (pp_config (ad_profiles ad ! pd_profile pd)) = so_sample_rate out"
  obtains ret pds' p where "out_open_pcm_devices ad a ans = Inr (ret, (put_out a (out\<lparr>so_pcm_dev_list := Some pds'\<rparr>) ad)\<lparr>ad_pcms := p\<rparr>)"
    "ret = 0 \<or> ret = - HAL_EIO"
proof -
  obtain pds' ok where l: "open_loop ad out ans 0 pds 0 = (pds', if ok then 0 else - HAL_EIO, ok)" using open_loop_ret [OF assms(3)] by metis
  obtain q where q: "add_opened pds' (put_out a (out\<lparr>so_pcm_dev_list := Some pds'\<rparr>) ad) = (put_out a (out\<lparr>so_pcm_dev_list := Some pds'\<rparr>) ad)\<lparr>ad_pcms := q\<rparr>"
    by (auto simp: add_opened_def)
  show thesis
  proof (cases ok)
    case True
    then show thesis using that [of 0 q pds'] l q assms(1,2) by (simp add: out_open_pcm_devices_def get_out_def)
  next
    case False
    obtain p where "out_close_pcm_devices ((put_out a (out\<lparr>so_pcm_dev_list := Some pds'\<rparr>) ad)\<lparr>ad_pcms := q\<rparr>) a =
        Inr ((put_out a (out\<lparr>so_pcm_dev_list := Some (map closed_pcm_device pds')\<rparr>) ad)\<lparr>ad_pcms := p\<rparr>)"
      using out_close_result [of "(put_out a (out\<lparr>so_pcm_dev_list := Some pds'\<rparr>) ad)\<lparr>ad_pcms := q\<rparr>" a "out\<lparr>so_pcm_dev_list := Some pds'\<rparr>" pds']
      by (auto simp: put_out_def)
    then show thesis using that [of "- HAL_EIO" p "map closed_pcm_device pds'"] l q False assms(1,2) by (simp add: out_open_pcm_devices_def get_out_def)
  qed
qed

lemma hal_same_keys:
  assumes "hal_inv ad" "base_inv ad'" "set (uc_keys ad') = set (uc_keys ad)" "ad_outs ad a = Some out" "ad_outs ad' = (ad_outs ad)(a := Some out')"
    and "so_standby out' = so_standby out" "ad_ins ad' = ad_ins ad" "ad_in_call ad' = ad_in_call ad" "ad_active_input ad' = ad_active_input ad"
  shows "hal_inv ad'"
  using assms by (auto simp: hal_inv_def call_ok_def stream_linked_def active_ok_def playing_def capturing_def)

lemma hal_after_output_start:
  assumes "hal_inv ad" "base_inv ad'" "set (uc_keys ad') = insert (so_usecase out, PCM_PLAYBACK, Out_Stream a, ms) (set (uc_keys ad))"
    and "ad_outs ad a = Some out" "ad_outs ad' = (ad_outs ad)(a := Some out')" "\<not> so_standby out'"
    and "ad_ins ad' = ad_ins ad" "ad_in_call ad' = ad_in_call ad" "ad_active_input ad' = ad_active_input ad"
  shows "hal_inv ad'"
proof -
  have "so_usecase out \<in> play_ids" using assms(1,4) by (auto simp: hal_inv_def base_inv_def streams_typed_def)
  then have "so_usecase out \<noteq> USECASE_VOICE_CALL" using ids_disjoint(3) by auto
  then have "call_ok ad'" using assms(1,3,8) by (simp add: hal_inv_def call_ok_def)
  moreover have "playing ad' c = (playing ad c \<or> c = a)" "capturing ad' c = capturing ad c" for c
    using assms(3) by (auto simp: playing_def capturing_def)
  ultimately show ?thesis using assms by (auto simp: hal_inv_def stream_linked_def active_ok_def)
qed

lemma enable_output_result:
  assumes "base_inv ad" "call_found ad" "env_ok E" "ad_outs ad a = Some out" "so_usecase out \<notin> fst ` set (uc_keys ad)"
  obtains ms pds ad' where "enable_output_path_l E ad a = Inr ad'" "base_inv ad'"
    "uc_keys ad' = uc_keys ad @ [(so_usecase out, PCM_PLAYBACK, Out_Stream a, ms)]" "ad_outs ad' = (ad_outs ad)(a := Some (out\<lparr>so_pcm_dev_list := Some pds\<rparr>))"
    "\<And>pd. pd \<in> set pds \<Longrightarrow> pc_rate (pp_config (ad_profiles ad' ! pd_profile pd)) = so_sample_rate out" "same_inputs ad ad'"
proof -
  let ?u = "new_usecase (so_usecase out) PCM_PLAYBACK (Out_Stream a) (so_devices out)"
  have u: "uc_stream ?u = Out_Stream a" "uc_id ?u \<notin> fst ` set (uc_keys ad)" "uc_type ?u = PCM_PLAYBACK" using assms(5) by (simp_all add: new_usecase_def)
  obtain ms pds where sel: "uc_select_pcm_devices (ae_h E) ad ?u = Inr (?u\<lparr>uc_mixer_list := ms\<rparr>, put_out a (out\<lparr>so_pcm_dev_list := Some pds\<rparr>) ad)"
      and pds: "\<And>pd. pd \<in> set pds \<Longrightarrow> pp_type (ad_profiles ad ! pd_profile pd) = PCM_PLAYBACK \<and> pd_profile pd < length (ad_profiles ad)"
    by (rule uc_select_result [OF assms(1,4) u(1,2), of "ae_h E"]) (simp add: u(3))
  let ?out = "out\<lparr>so_pcm_dev_list := Some pds\<rparr>" and ?v = "?u\<lparr>uc_mixer_list := ms\<rparr>"
  let ?ad = "add_usecase ?v (put_out a ?out ad)"
  have k: "uc_key ?v = (so_usecase out, PCM_PLAYBACK, Out_Stream a, ms)" by (simp add: uc_key_def new_usecase_def)
  have b: "base_inv ?ad"
    by (rule add_usecase_base [OF put_out_base [OF assms(1,4)]]) (use assms(5) k in \<open>simp_all add: key_ok_def new_usecase_def\<close>)
  obtain r ad' where s: "select_devices (ae_stack E) E ?ad (so_usecase out) = Inr (r, ad')" "routed ?ad ad'"
    using select_devices_total [OF b assms(3) call_found_add [OF assms(2)]] by metis
  note f = ad_frame_fields [OF routed_fields(1) [OF s(2)]]
  have rate: "pd \<in> set pds \<Longrightarrow> pc_rate (pp_config (ad_profiles ad ! pd_profile pd)) = so_sample_rate out" for pd
    using pds [of pd] assms(1,4) by (auto simp: base_inv_def profiles_ok_def streams_typed_def list_all_length)
  show thesis
  proof (rule that)
    show "enable_output_path_l E ad a = Inr ad'" using sel s(1) assms(4) by (simp add: enable_output_path_l_def get_out_def)
    show "base_inv ad'" using routed_base [OF s(2) b] .
    show "uc_keys ad' = uc_keys ad @ [(so_usecase out, PCM_PLAYBACK, Out_Stream a, ms)]" using routed_fields(2) [OF s(2)] k by simp
    show "ad_outs ad' = (ad_outs ad)(a := Some (out\<lparr>so_pcm_dev_list := Some pds\<rparr>))" using f by simp
    show "pd \<in> set pds \<Longrightarrow> pc_rate (pp_config (ad_profiles ad' ! pd_profile pd)) = so_sample_rate out" for pd using rate f by simp
    show "same_inputs ad ad'" using f by (simp add: same_inputs_def)
  qed
qed

lemma start_output_hal:
  assumes "hal_inv ad" "env_ok E" "ad_outs ad a = Some out" "so_standby out" "so_usecase out \<notin> fst ` set (uc_keys ad)"
  obtains ret ad' out' where "start_output_stream E ad a ans = Inr (ret, ad')" "same_inputs ad ad'" "ad_outs ad' = (ad_outs ad)(a := Some out')"
    "ret = 0 \<Longrightarrow> hal_inv (put_out a (out'\<lparr>so_standby := False\<rparr>) ad')" "ret \<noteq> 0 \<Longrightarrow> ret = - HAL_EIO \<and> hal_inv ad'"
proof -
  have b: "base_inv ad" and cf: "call_found ad" using assms(1) call_ok_found by (simp_all add: hal_inv_def)
  obtain ms pds ad1 where e: "enable_output_path_l E ad a = Inr ad1" and b1: "base_inv ad1"
      and k1: "uc_keys ad1 = uc_keys ad @ [(so_usecase out, PCM_PLAYBACK, Out_Stream a, ms)]"
      and o1: "ad_outs ad1 = (ad_outs ad)(a := Some (out\<lparr>so_pcm_dev_list := Some pds\<rparr>))"
      and rate: "\<And>pd. pd \<in> set pds \<Longrightarrow> pc_rate (pp_config (ad_profiles ad1 ! pd_profile pd)) = so_sample_rate out" and i1: "same_inputs ad ad1"
    using enable_output_result [OF b cf assms(2,3,5)] by metis
  let ?out1 = "out\<lparr>so_pcm_dev_list := Some pds\<rparr>"
  obtain ret pds' p where op: "out_open_pcm_devices ad1 a ans = Inr (ret, (put_out a (?out1\<lparr>so_pcm_dev_list := Some pds'\<rparr>) ad1)\<lparr>ad_pcms := p\<rparr>)"
      and ret: "ret = 0 \<or> ret = - HAL_EIO"
    by (rule out_open_result [of ad1 a ?out1 pds ans]) (use o1 rate in auto)
  let ?out2 = "out\<lparr>so_pcm_dev_list := Some pds'\<rparr>"
  let ?ad2 = "(put_out a ?out2 ad1)\<lparr>ad_pcms := p\<rparr>"
  have b2: "base_inv ?ad2" using put_out_base [OF b1, of a ?out1 ?out2] o1 by simp
  show thesis
  proof (cases "ret = 0")
    case True
    have "base_inv (put_out a (?out2\<lparr>so_standby := False\<rparr>) ?ad2)" by (rule put_out_base [OF b2, where out = ?out2]) simp_all
    then have "hal_inv (put_out a (?out2\<lparr>so_standby := False\<rparr>) ?ad2)"
      by (rule hal_after_output_start [OF assms(1) _ _ assms(3), where out' = "?out2\<lparr>so_standby := False\<rparr>"]) (use o1 k1 i1 in \<open>simp_all add: same_inputs_def\<close>)
    then show thesis
      using that [of 0 ?ad2 ?out2] e op True o1 i1 by (simp add: start_output_stream_def same_inputs_def)
  next
    case False
    have "playing ?ad2 a" using k1 by (auto simp: playing_def)
    then obtain u where u: "get_usecase_from_id ?ad2 (so_usecase ?out2) = Some u"
        and st: "stop_output_stream ?ad2 a = Inr (0, put_out a (?out2\<lparr>so_pcm_dev_list := Some []\<rparr>) (drop_usecase True True (so_usecase ?out2) u ?ad2))"
      using disable_output_result [OF b2, of a ?out2] by auto
    let ?out3 = "?out2\<lparr>so_pcm_dev_list := Some []\<rparr>"
    let ?ad3 = "put_out a ?out3 (drop_usecase True True (so_usecase ?out2) u ?ad2)"
    have b3: "base_inv ?ad3" by (rule put_out_base [OF drop_usecase_base [OF b2 u], where out = ?out2]) (simp_all add: drop_fields)
    have ne: "k \<in> set (uc_keys ad) \<Longrightarrow> fst k \<noteq> so_usecase out" for k using assms(5) by (metis imageI)
    have "keys_ok ?ad2" using b2 by (simp add: base_inv_def table_inv_def)
    then have k3: "set (uc_keys ?ad3) = set (uc_keys ad)" using keys_after_remove [of ?ad2 "so_usecase out"] k1 ne by (auto simp: drop_keys)
    have "hal_inv ?ad3"
      by (rule hal_same_keys [OF assms(1) b3 k3 assms(3), where out' = ?out3]) (use o1 i1 in \<open>simp_all add: drop_fields same_inputs_def\<close>)
    then show thesis
      using that [of ret ?ad3 ?out3] e op st False ret o1 i1 by (simp add: start_output_stream_def same_inputs_def drop_fields)
  qed
qed

subsection \<open>Input streams\<close>

lemma capturing_found:
  assumes "base_inv ad" "capturing ad a" "ad_ins ad a = Some s"
  obtains u pds where "get_usecase_from_id ad (si_usecase s) = Some u" "uc_type u = PCM_CAPTURE" "uc_stream u = In_Stream a"
    "si_pcm_dev_list s = Some pds"
proof -
  obtain i t ms where k: "(i, t, In_Stream a, ms) \<in> set (uc_keys ad)" using assms(2) by (auto simp: capturing_def)
  then have "key_ok ad (i, t, In_Stream a, ms)" using assms(1) by (auto simp: base_inv_def table_inv_def keys_ok_def list_all_iff)
  then have i: "i = si_usecase s" "t = PCM_CAPTURE" "si_pcm_dev_list s \<noteq> None" using assms(3) by (auto simp: key_ok_def)
  have "distinct (map fst (uc_keys ad))" using assms(1) by (simp add: base_inv_def table_inv_def keys_ok_def)
  then show thesis using find_distinct_key [OF _ k] i that by auto
qed

lemma active_fields [simp]: "uc_keys (ad\<lparr>ad_active_input := v\<rparr>) = uc_keys ad" "playing (ad\<lparr>ad_active_input := v\<rparr>) = playing ad"
  "capturing (ad\<lparr>ad_active_input := v\<rparr>) = capturing ad" "get_usecase_from_id (ad\<lparr>ad_active_input := v\<rparr>) i = get_usecase_from_id ad i"
  by (simp_all add: uc_keys_def playing_def capturing_def fun_eq_iff get_usecase_from_id_def)

lemma stop_input_result:
  assumes "base_inv ad" "capturing ad a" "ad_ins ad a = Some s"
  obtains r ad' where "stop_input_stream ad a = Inr (r, ad')" "base_inv ad'" "set (uc_keys ad') = {k \<in> set (uc_keys ad). fst k \<noteq> si_usecase s}"
    "ad_ins ad' = (ad_ins ad)(a := Some (s\<lparr>si_pcm_dev_list := Some []\<rparr>))" "ad_outs ad' = ad_outs ad" "ad_active_input ad' = None"
    "ad_in_call ad' = ad_in_call ad" "ad_primary_output ad' = ad_primary_output ad" "ad_mode ad' = ad_mode ad"
proof -
  let ?ad = "ad\<lparr>ad_active_input := None\<rparr>"
  obtain u pds where u: "get_usecase_from_id ad (si_usecase s) = Some u" "uc_type u = PCM_CAPTURE" and pds: "si_pcm_dev_list s = Some pds"
    using capturing_found [OF assms] by metis
  have b: "base_inv ?ad" using assms(1) by simp
  have u': "get_usecase_from_id ?ad (si_usecase s) = Some u" using u by simp
  let ?ad1 = "drop_usecase True True (si_usecase s) u ?ad" and ?s = "s\<lparr>si_pcm_dev_list := Some []\<rparr>"
  note b1 = drop_usecase_base [OF b u', of True True]
  have keys: "set (uc_keys ?ad1) = {k \<in> set (uc_keys ad). fst k \<noteq> si_usecase s}"
    using keys_after_remove [of ?ad "si_usecase s"] b by (simp add: drop_keys base_inv_def table_inv_def)
  have res: "stop_input_stream ad a = (case pds of [] \<Rightarrow> Inr (- HAL_EINVAL, ?ad1) | _ \<Rightarrow> Inr (0, put_in a ?s ?ad1))"
    using assms(3) u pds drop_capture [OF b u' u(2)] by (cases pds) (simp_all add: stop_input_stream_def get_in_def Let_def)
  show thesis
  proof (cases pds)
    case Nil
    then have "?s = s" using pds by simp
    then have "ad_ins ?ad1 = (ad_ins ad)(a := Some ?s)" using assms(3) by (auto simp: drop_fields)
    then show thesis using that [of "- HAL_EINVAL" ?ad1] res Nil b1 keys by (simp add: drop_fields)
  next
    case (Cons pd qs)
    have "base_inv (put_in a ?s ?ad1)" by (rule put_in_base [OF b1, where s = s]) (simp_all add: drop_fields assms(3))
    then show thesis using that [of 0 "put_in a ?s ?ad1"] res Cons keys by (simp add: drop_fields)
  qed
qed

lemma hal_after_input_stop:
  assumes "hal_inv ad" "ad_ins ad a = Some s" "base_inv ad'" "capturing ad a"
    and "set (uc_keys ad') = {k \<in> set (uc_keys ad). fst k \<noteq> si_usecase s}" "ad_ins ad' = (ad_ins ad)(a := Some s')" "si_standby s'"
    and "ad_outs ad' = ad_outs ad" "ad_in_call ad' = ad_in_call ad" "ad_active_input ad' = None"
  shows "hal_inv ad'"
proof -
  have b: "base_inv ad" and ids: "si_usecase s \<in> capture_ids" using assms(1,2) by (auto simp: hal_inv_def base_inv_def streams_typed_def)
  have dist: "distinct (map fst (uc_keys ad))" using b by (simp add: base_inv_def table_inv_def keys_ok_def)
  have play: "playing ad' c = playing ad c" for c
  proof -
    have "(i, PCM_PLAYBACK, Out_Stream c, ms') \<in> set (uc_keys ad) \<Longrightarrow> i \<noteq> si_usecase s" for i ms'
      using key_types [OF b] ids ids_disjoint(1) by fastforce
    then show ?thesis by (auto simp: playing_def assms(5))
  qed
  have capt: "capturing ad' c = (capturing ad c \<and> c \<noteq> a)" for c
  proof -
    have "(i, t, In_Stream a, ms) \<in> set (uc_keys ad) \<Longrightarrow> i = si_usecase s" for i t ms using key_types [OF b] assms(2) by fastforce
    moreover have "(si_usecase s, t, In_Stream c, ms) \<in> set (uc_keys ad) \<Longrightarrow> c = a" for t ms
      using eq_key_imp_eq_value [OF dist] calculation assms(4) by (fastforce simp: capturing_def)
    ultimately show ?thesis by (auto simp: capturing_def assms(5)) metis+
  qed
  have "si_usecase s \<noteq> USECASE_VOICE_CALL" using ids ids_disjoint(2) by auto
  then have "call_ok ad'" using assms(1) by (auto simp: hal_inv_def call_ok_def assms(5,9)) (metis fst_conv)+
  then show ?thesis using assms play capt by (auto simp: hal_inv_def stream_linked_def active_ok_def)
qed

lemma in_close_result:
  assumes "ad_ins ad a = Some s" "si_pcm_dev_list s = Some pds"
  obtains p where "in_close_pcm_devices ad a =
    Inr ((put_in a (s\<lparr>si_pcm_dev_list := Some (map (\<lambda>pd. pd\<lparr>pd_pcm := None, pd_sound_trigger_handle := 0\<rparr>) pds)\<rparr>) ad)\<lparr>ad_pcms := p\<rparr>)"
proof -
  let ?ad = "put_in a (s\<lparr>si_pcm_dev_list := Some (map (\<lambda>pd. pd\<lparr>pd_pcm := None, pd_sound_trigger_handle := 0\<rparr>) pds)\<rparr>) ad"
  obtain p where "fold (\<lambda>pd. pcm_close (pd_pcm pd)) pds ?ad = ?ad\<lparr>ad_pcms := p\<rparr>" using fold_close by blast
  then show thesis using that [of p] assms by (simp add: in_close_pcm_devices_def get_in_def)
qed

text \<open>What an input leaves alone: the outputs, the call and the mode.\<close>

definition same_outputs :: "audio_device \<Rightarrow> audio_device \<Rightarrow> bool" where
  "same_outputs ad ad' \<longleftrightarrow> ad_outs ad' = ad_outs ad \<and> ad_in_call ad' = ad_in_call ad \<and> ad_primary_output ad' = ad_primary_output ad \<and> ad_mode ad' = ad_mode ad"

lemma same_outputs_refl [simp]: "same_outputs ad ad"
  by (simp add: same_outputs_def)

lemma do_in_standby_hal:
  assumes "hal_inv ad" "ad_ins ad a = Some s" "\<not> si_standby s"
  obtains ad' s' where "do_in_standby_l ad a = Inr ad'" "hal_inv ad'" "ad_ins ad' = (ad_ins ad)(a := Some s')" "si_standby s'" "same_outputs ad ad'"
    "ad_active_input ad' = None"
proof -
  have capt: "capturing ad a" and b: "base_inv ad" using assms by (auto simp: hal_inv_def stream_linked_def)
  obtain pds where pds: "si_pcm_dev_list s = Some pds" using capturing_found [OF b capt assms(2)] by metis
  let ?s1 = "s\<lparr>si_pcm_dev_list := Some (map (\<lambda>pd. pd\<lparr>pd_pcm := None, pd_sound_trigger_handle := 0\<rparr>) pds)\<rparr>"
  obtain p where p: "in_close_pcm_devices ad a = Inr ((put_in a ?s1 ad)\<lparr>ad_pcms := p\<rparr>)" using in_close_result [OF assms(2) pds] by metis
  let ?ad1 = "(put_in a ?s1 ad)\<lparr>ad_pcms := p\<rparr>"
  have b1: "base_inv ?ad1" using put_in_base [OF b assms(2), of ?s1] by simp
  have c1: "capturing ?ad1 a" "ad_ins ?ad1 a = Some ?s1" using capt by simp_all
  obtain r ad2 where st: "stop_input_stream ?ad1 a = Inr (r, ad2)" "base_inv ad2" "set (uc_keys ad2) = {k \<in> set (uc_keys ?ad1). fst k \<noteq> si_usecase ?s1}"
    "ad_ins ad2 = (ad_ins ?ad1)(a := Some (?s1\<lparr>si_pcm_dev_list := Some []\<rparr>))" "ad_outs ad2 = ad_outs ?ad1" "ad_active_input ad2 = None"
    "ad_in_call ad2 = ad_in_call ?ad1" "ad_primary_output ad2 = ad_primary_output ?ad1" "ad_mode ad2 = ad_mode ?ad1"
    by (rule stop_input_result [OF b1 c1]) (rule that)
  let ?s2 = "s\<lparr>si_pcm_dev_list := Some [], si_read_buf := None, si_standby := True\<rparr>"
  let ?ad3 = "put_in a ?s2 ad2"
  have b3: "base_inv ?ad3" by (rule put_in_base [OF st(2), where s = "?s1\<lparr>si_pcm_dev_list := Some []\<rparr>"]) (simp_all add: st)
  have "hal_inv ?ad3"
    by (rule hal_after_input_stop [OF assms(1,2) b3 capt, where s' = ?s2]) (simp_all add: st)
  moreover have "do_in_standby_l ad a = Inr ?ad3" using p st(1,4) assms(2,3) by (simp add: do_in_standby_l_def get_in_def)
  ultimately show thesis using that [of ?ad3 ?s2] by (simp add: st same_outputs_def)
qed

lemma in_standby_hal:
  assumes "hal_inv ad" "ad_ins ad a = Some s"
  obtains ad' s' where "in_standby ad a = Inr ad'" "hal_inv ad'" "ad_ins ad' = (ad_ins ad)(a := Some s')" "si_standby s'" "same_outputs ad ad'"
    "ad_active_input ad' = ad_active_input ad \<or> ad_active_input ad' = None"
proof (cases "si_standby s")
  case True
  then show thesis using that [of ad s] assms by (simp add: in_standby_def get_in_def fun_upd_idem)
next
  case False
  obtain ad' s' where r: "do_in_standby_l ad a = Inr ad'" "hal_inv ad'" "ad_ins ad' = (ad_ins ad)(a := Some s')" "si_standby s'" "same_outputs ad ad'"
      "ad_active_input ad' = None"
    using do_in_standby_hal [OF assms False] by metis
  show thesis by (rule that [OF _ r(2-5)]) (use r(1,6) assms False in \<open>simp_all add: in_standby_def get_in_def\<close>)
qed

lemma input_failed_result:
  assumes "base_inv ad" "capturing ad a" "ad_ins ad a = Some s"
  obtains ad' s' where "input_failed ad a ret = Inr (ret, ad')" "base_inv ad'" "set (uc_keys ad') = {k \<in> set (uc_keys ad). fst k \<noteq> si_usecase s}"
    "ad_ins ad' = (ad_ins ad)(a := Some s')" "si_standby s' = si_standby s" "same_outputs ad ad'" "ad_active_input ad' = None"
proof -
  let ?s = "s\<lparr>si_resampler := False\<rparr>"
  let ?ad = "put_in a ?s ad"
  have b: "base_inv ?ad" by (rule put_in_base [OF assms(1,3)]) simp_all
  have c: "capturing ?ad a" "ad_ins ?ad a = Some ?s" using assms(2) by simp_all
  obtain r ad' where st: "stop_input_stream ?ad a = Inr (r, ad')" "base_inv ad'" "set (uc_keys ad') = {k \<in> set (uc_keys ?ad). fst k \<noteq> si_usecase ?s}"
    "ad_ins ad' = (ad_ins ?ad)(a := Some (?s\<lparr>si_pcm_dev_list := Some []\<rparr>))" "ad_outs ad' = ad_outs ?ad" "ad_active_input ad' = None"
    "ad_in_call ad' = ad_in_call ?ad" "ad_primary_output ad' = ad_primary_output ?ad" "ad_mode ad' = ad_mode ?ad"
    by (rule stop_input_result [OF b c]) (rule that)
  show thesis
    by (rule that [of "ad'\<lparr>ad_active_input := None\<rparr>" "?s\<lparr>si_pcm_dev_list := Some []\<rparr>"])
      (use st assms(3) in \<open>simp_all add: input_failed_def get_in_def same_outputs_def\<close>)
qed

lemma open_input_result:
  assumes "base_inv ad" "capturing ad a" "ad_ins ad a = Some s"
  obtains (opened) p s' where "open_input ad a profile pd ans ret = Inr (ret, (put_in a s' ad)\<lparr>ad_pcms := p\<rparr>)"
      "si_usecase s' = si_usecase s" "si_pcm_dev_list s' \<noteq> None"
  | (failed) ad' s' where "open_input ad a profile pd ans ret = Inr (- HAL_EIO, ad')" "base_inv ad'"
      "set (uc_keys ad') = {k \<in> set (uc_keys ad). fst k \<noteq> si_usecase s}"
      "ad_ins ad' = (ad_ins ad)(a := Some s')" "si_standby s' = si_standby s" "same_outputs ad ad'" "ad_active_input ad' = None"
proof -
  define ok where "ok = (\<lambda>pd'. s\<lparr>si_pcm_dev_list := Some [pd'], si_proc_buf_frames := 0, si_proc_buf_size := 0, si_read_buf_size := 0, si_read_buf_frames := 0\<rparr>)"
  have opens: "put_in a v (pcm_opened x ad) = (put_in a v ad)\<lparr>ad_pcms := ad_pcms (pcm_opened x ad)\<rparr>" for v x
    by (cases x) (simp_all add: pcm_opened_def put_in_def)
  have self: "put_in a v ad = (put_in a v ad)\<lparr>ad_pcms := ad_pcms ad\<rparr>" for v by (simp add: put_in_def)
  consider pd' p where "open_input ad a profile pd ans ret = Inr (ret, (put_in a (ok pd') ad)\<lparr>ad_pcms := p\<rparr>)"
    | pd' where "open_input ad a profile pd ans ret = input_failed (put_in a (s\<lparr>si_pcm_dev_list := Some [pd']\<rparr>) ad) a (- HAL_EIO)"
  proof (cases "pp_type profile = PCM_HOTWORD_STREAMING")
    case True
    let ?pd = "pd\<lparr>pd_pcm := None, pd_sound_trigger_handle := sa_trigger ans\<rparr>"
    show thesis
    proof (cases "ad_sound_trigger ad \<and> 0 < sa_trigger ans")
      case ok: True
      then show thesis using that(1) [of "ad_pcms ad" ?pd] True assms(3) self by (simp add: open_input_def get_in_def Let_def ok_def)
    next
      case bad: False
      show thesis
      proof (cases "ad_sound_trigger ad")
        case on: True
        then show thesis using that(2) [of ?pd] True bad assms(3) by (simp add: open_input_def get_in_def Let_def)
      next
        case off: False
        then show thesis using that(2) [of pd] True assms(3) by (simp add: open_input_def get_in_def Let_def)
      qed
    qed
  next
    case False
    let ?pd = "pd\<lparr>pd_sound_trigger_handle := 0, pd_pcm := open_handle (sa_pcm ans)\<rparr>"
    show thesis
    proof (cases "sa_pcm ans = Pcm_Unready")
      case True
      then show thesis using that(2) [of ?pd] False assms(3) by (simp add: open_input_def get_in_def Let_def)
    next
      case ready: False
      then show thesis
        using that(1) [of "ad_pcms (pcm_opened (sa_pcm ans) ad)" ?pd] False assms(3) by (simp add: open_input_def get_in_def Let_def ok_def opens)
    qed
  qed
  then show thesis
  proof cases
    case (1 pd' p)
    then show thesis by (rule opened) (simp_all add: ok_def)
  next
    case (2 pd')
    let ?s = "s\<lparr>si_pcm_dev_list := Some [pd']\<rparr>"
    let ?ad = "put_in a ?s ad"
    have b: "base_inv ?ad" by (rule put_in_base [OF assms(1,3)]) simp_all
    have c: "capturing ?ad a" "ad_ins ?ad a = Some ?s" using assms(2) by simp_all
    obtain ad' s' where f: "input_failed ?ad a (- HAL_EIO) = Inr (- HAL_EIO, ad')" "base_inv ad'" "set (uc_keys ad') = {k \<in> set (uc_keys ?ad). fst k \<noteq> si_usecase ?s}"
      "ad_ins ad' = (ad_ins ?ad)(a := Some s')" "si_standby s' = si_standby ?s" "same_outputs ?ad ad'" "ad_active_input ad' = None"
      by (rule input_failed_result [OF b c]) (rule that)
    show thesis by (rule failed [of ad' s']) (use f 2 in \<open>simp_all add: same_outputs_def\<close>)
  qed
qed

lemma hal_after_input_start:
  assumes "hal_inv ad" "base_inv ad'" "set (uc_keys ad') = insert (si_usecase s, PCM_CAPTURE, In_Stream a, ms) (set (uc_keys ad))"
    and "ad_ins ad a = Some s" "ad_ins ad' = (ad_ins ad)(a := Some s')" "\<not> si_standby s'"
    and "same_outputs ad ad'" "ad_active_input ad' = Some a"
  shows "hal_inv ad'"
proof -
  have "si_usecase s \<in> capture_ids" using assms(1,4) by (auto simp: hal_inv_def base_inv_def streams_typed_def)
  then have "si_usecase s \<noteq> USECASE_VOICE_CALL" using ids_disjoint(2) by auto
  then have "call_ok ad'" using assms(1,3,7) by (simp add: hal_inv_def call_ok_def same_outputs_def)
  moreover have "playing ad' c = playing ad c" "capturing ad' c = (capturing ad c \<or> c = a)" for c
    using assms(3) by (auto simp: playing_def capturing_def)
  ultimately show ?thesis using assms by (auto simp: hal_inv_def stream_linked_def active_ok_def same_outputs_def)
qed

lemma hal_same_keys_in:
  assumes "hal_inv ad" "base_inv ad'" "set (uc_keys ad') = set (uc_keys ad)" "ad_ins ad a = Some s" "ad_ins ad' = (ad_ins ad)(a := Some s')"
    and "si_standby s' = si_standby s" "same_outputs ad ad'" "ad_active_input ad' = None"
  shows "hal_inv ad'"
  using assms by (auto simp: hal_inv_def call_ok_def stream_linked_def active_ok_def playing_def capturing_def same_outputs_def)

lemma configure_input_fields:
  "configure_input A config resampler s = (ret, s') \<Longrightarrow>
   si_usecase s' = si_usecase s \<and> si_pcm_dev_list s' = si_pcm_dev_list s \<and> si_standby s' = si_standby s \<and> (ret = 0 \<or> ret = fst resampler)"
  by (auto simp: configure_input_def Let_def split: if_splits)

lemma profiles_ok_update:
  "profiles_ok ad \<Longrightarrow> p < length (ad_profiles ad) \<Longrightarrow> pp_card q = pp_card (ad_profiles ad ! p) \<Longrightarrow> pp_type q = pp_type (ad_profiles ad ! p) \<Longrightarrow>
   pc_rate (pp_config q) = pc_rate (pp_config (ad_profiles ad ! p)) \<Longrightarrow> profiles_ok (ad\<lparr>ad_profiles := (ad_profiles ad)[p := q]\<rparr>)"
  by (auto simp: profiles_ok_def list_all_length nth_list_update)

lemma base_profiles: "base_inv ad \<Longrightarrow> profiles_ok (ad\<lparr>ad_profiles := v\<rparr>) \<Longrightarrow> base_inv (ad\<lparr>ad_profiles := v\<rparr>)"
  using base_cong [of "ad\<lparr>ad_profiles := v\<rparr>" ad] by (simp add: base_inv_def)

text \<open>Everything that starting an input does before it opens the PCM: the use case is there, and the devices are selected.\<close>

lemma start_input_prepared:
  assumes "base_inv ad" "call_found ad" "env_ok E" "ad_ins ad a = Some s" "si_usecase s \<notin> fst ` set (uc_keys ad)"
    and "get_pcm_device (ae_h E) (ad_profiles ad) (si_usecase_type s) (si_devices s) = Some p"
  defines "config \<equiv> input_config (ae_h E) s (pp_config (ad_profiles ad ! p))"
  obtains ad' s' ret where "start_input_stream E ad a ans = open_input ad' a ((ad_profiles ad ! p)\<lparr>pp_config := config\<rparr>) (new_pcm_device p) ans ret"
    "configure_input (ae_h E) config (sa_resampler ans) (s\<lparr>si_pcm_dev_list := Some [new_pcm_device p]\<rparr>) = (ret, s')"
    "base_inv ad'" "uc_keys ad' = uc_keys ad @ [(si_usecase s, PCM_CAPTURE, In_Stream a, [SOUND_CARD])]" "ad_ins ad' = (ad_ins ad)(a := Some s')"
    "same_outputs ad ad'" "ad_active_input ad' = Some a" "ad_pcms ad' = ad_pcms ad"
    "ad_profiles ad' = (ad_profiles ad)[p := (ad_profiles ad ! p)\<lparr>pp_config := config\<rparr>]"
proof -
  let ?A = "ae_h E" and ?ad0 = "ad\<lparr>ad_active_input := Some a\<rparr>"
  note p = get_pcm_device_Some [OF assms(6)]
  define profile where "profile = (ad_profiles ad ! p)\<lparr>pp_config := config\<rparr>"
  define s1 where "s1 = s\<lparr>si_pcm_dev_list := Some [new_pcm_device p]\<rparr>"
  define ad1 where "ad1 = put_in a s1 (?ad0\<lparr>ad_profiles := (ad_profiles ad)[p := profile]\<rparr>)"
  have prof: "profiles_ok (?ad0\<lparr>ad_profiles := (ad_profiles ad)[p := profile]\<rparr>)"
    using profiles_ok_update [of ?ad0 p profile] assms(1) p by (simp add: base_inv_def profiles_ok_def profile_def config_def input_config_def)
  have b0: "base_inv (?ad0\<lparr>ad_profiles := (ad_profiles ad)[p := profile]\<rparr>)" by (rule base_profiles [OF _ prof]) (simp add: assms(1))
  have b1: "base_inv ad1" unfolding ad1_def by (rule put_in_base [OF b0, where s = s]) (simp_all add: assms(4) s1_def)
  have k1: "uc_keys ad1 = uc_keys ad" by (simp add: ad1_def uc_keys_def)
  let ?u = "new_usecase (si_usecase s) PCM_CAPTURE (In_Stream a) (si_devices s)"
  have card1: "pp_card profile = SOUND_CARD" using p assms(1) by (auto simp: base_inv_def profiles_ok_def list_all_length profile_def)
  let ?v = "?u\<lparr>uc_mixer_list := [SOUND_CARD]\<rparr>"
  have lk: "link_mixer ad1 ?u (pp_card profile) = Inr ?v"
    using link_mixer_result [OF b1, of ?u] assms(5) card1 k1 by (simp add: new_usecase_def)
  have kv: "uc_key ?v = (si_usecase s, PCM_CAPTURE, In_Stream a, [SOUND_CARD])" by (simp add: uc_key_def new_usecase_def)
  have b2: "base_inv (add_usecase ?v ad1)"
    by (rule add_usecase_base [OF b1]) (use assms(5) k1 kv in \<open>simp_all add: key_ok_def new_usecase_def ad1_def s1_def\<close>)
  have cf2: "call_found (add_usecase ?v ad1)" using assms(2) unfolding call_found_def found_key by (auto simp: k1) (simp add: ad1_def)
  obtain r ad2 where sel: "select_devices (ae_stack E) E (add_usecase ?v ad1) (si_usecase s) = Inr (r, ad2)" "routed (add_usecase ?v ad1) ad2"
    using select_devices_total [OF b2 assms(3) cf2] by metis
  note f = ad_frame_fields [OF routed_fields(1) [OF sel(2)]]
  have keys2: "uc_keys ad2 = uc_keys ad @ [(si_usecase s, PCM_CAPTURE, In_Stream a, [SOUND_CARD])]" using routed_fields(2) [OF sel(2)] k1 kv by simp
  have ins2: "ad_ins ad2 = (ad_ins ad)(a := Some s1)" using f(8) by (simp add: ad1_def)
  obtain ret s3 where cfg: "configure_input ?A config (sa_resampler ans) s1 = (ret, s3)" by fastforce
  have s3: "si_usecase s3 = si_usecase s" "si_pcm_dev_list s3 \<noteq> None" using configure_input_fields [OF cfg] by (auto simp: s1_def)
  have b3: "base_inv (put_in a s3 ad2)"
    by (rule put_in_base [OF routed_base [OF sel(2) b2], where s = s1]) (use ins2 s3 in \<open>simp_all add: s1_def\<close>)
  have start: "start_input_stream E ad a ans = open_input (put_in a s3 ad2) a profile (new_pcm_device p) ans ret"
    using assms(4,6) lk sel(1) ins2 cfg by (simp add: start_input_stream_def get_in_def Let_def config_def profile_def s1_def ad1_def)
  show thesis
    by (rule that [OF start [unfolded profile_def] cfg [unfolded s1_def] b3])
      (use keys2 ins2 f in \<open>simp_all add: ad1_def same_outputs_def profile_def add_usecase_def\<close>)
qed

lemma start_input_hal:
  assumes "hal_inv ad" "env_ok E" "ad_ins ad a = Some s" "si_standby s" "si_usecase s \<notin> fst ` set (uc_keys ad)" "fst (sa_resampler ans) = 0"
  obtains ret ad' s' where "start_input_stream E ad a ans = Inr (ret, ad')" "same_outputs ad ad'" "ad_ins ad' = (ad_ins ad)(a := Some s')"
    "ret = 0 \<Longrightarrow> hal_inv (put_in a (s'\<lparr>si_standby := False\<rparr>) ad')" "ret \<noteq> 0 \<Longrightarrow> hal_inv ad'"
proof -
  have b: "base_inv ad" and cf: "call_found ad" using assms(1) call_ok_found by (simp_all add: hal_inv_def)
  show thesis
  proof (cases "get_pcm_device (ae_h E) (ad_profiles ad) (si_usecase_type s) (si_devices s)")
    case None
    have "hal_inv (ad\<lparr>ad_active_input := None\<rparr>)"
      using assms(1) by (simp add: hal_inv_def call_ok_def stream_linked_def active_ok_def)
    then show thesis using that [of "- HAL_EINVAL" "ad\<lparr>ad_active_input := None\<rparr>" s] None assms(3)
      by (simp add: start_input_stream_def get_in_def Let_def same_outputs_def fun_upd_idem HAL_EINVAL_def)
  next
    case (Some p)
    obtain ad3 s3 ret0 profile config where start: "start_input_stream E ad a ans = open_input ad3 a profile (new_pcm_device p) ans ret0"
        and cfg: "configure_input (ae_h E) config (sa_resampler ans) (s\<lparr>si_pcm_dev_list := Some [new_pcm_device p]\<rparr>) = (ret0, s3)"
        and b3: "base_inv ad3" and keys: "uc_keys ad3 = uc_keys ad @ [(si_usecase s, PCM_CAPTURE, In_Stream a, [SOUND_CARD])]"
        and ins: "ad_ins ad3 = (ad_ins ad)(a := Some s3)" and outs: "same_outputs ad ad3" and act: "ad_active_input ad3 = Some a"
      using start_input_prepared [OF b cf assms(2,3,5) Some] by metis
    have s3: "si_usecase s3 = si_usecase s" "si_standby s3 = si_standby s" "ret0 = 0" using configure_input_fields [OF cfg] assms(6) by auto
    have c3: "capturing ad3 a" "ad_ins ad3 a = Some s3" using keys ins by (auto simp: capturing_def)
    from b3 c3 show thesis
    proof (cases rule: open_input_result [of ad3 a s3 profile "new_pcm_device p" ans ret0])
      case (opened q s')
      let ?ad' = "(put_in a s' ad3)\<lparr>ad_pcms := q\<rparr>" and ?s' = "s'\<lparr>si_standby := False\<rparr>"
      have "base_inv (put_in a s' ad3)" by (rule put_in_base [OF b3 c3(2)]) (simp_all add: opened)
      then have "base_inv (put_in a ?s' ?ad')" by (intro put_in_base [where s = s']) (simp_all add: opened)
      then have "hal_inv (put_in a ?s' ?ad')"
        by (rule hal_after_input_start [OF assms(1) _ _ assms(3), where s' = ?s' and ms = "[SOUND_CARD]"])
          (use keys ins outs act in \<open>simp_all add: same_outputs_def\<close>)
      then show thesis using that [of 0 ?ad' s'] start opened(1) s3(3) ins outs by (simp add: same_outputs_def)
    next
      case (failed ad' s')
      have ne: "k \<in> set (uc_keys ad) \<Longrightarrow> fst k \<noteq> si_usecase s" for k using assms(5) by (metis imageI)
      have k': "set (uc_keys ad') = set (uc_keys ad)" using failed(3) keys ne s3 by auto
      have "hal_inv ad'"
        by (rule hal_same_keys_in [OF assms(1) failed(2) k' assms(3), where s' = s']) (use failed ins outs s3 in \<open>simp_all add: same_outputs_def\<close>)
      then show thesis using that [of "- HAL_EIO" ad' s'] start failed ins outs by (simp add: same_outputs_def HAL_EIO_def)
    qed
  qed
qed

subsection \<open>Voice calls and parameters\<close>

lemma keys_updates [simp]:
  "uc_keys (ad\<lparr>ad_in_call := v1\<rparr>) = uc_keys ad" "uc_keys (ad\<lparr>ad_mode := v2\<rparr>) = uc_keys ad" "uc_keys (ad\<lparr>ad_tty_mode := v2\<rparr>) = uc_keys ad"
  "uc_keys (ad\<lparr>ad_mic_mute := v1\<rparr>) = uc_keys ad" "uc_keys (ad\<lparr>ad_bluetooth_nrec := v1\<rparr>) = uc_keys ad" "uc_keys (ad\<lparr>ad_screen_off := v1\<rparr>) = uc_keys ad"
  "uc_keys (ad\<lparr>ad_speaker_lr_swap := v1\<rparr>) = uc_keys ad" "uc_keys (ad\<lparr>ad_log := v3\<rparr>) = uc_keys ad" "uc_keys (ad\<lparr>ad_outs := v4\<rparr>) = uc_keys ad"
  "uc_keys (ad\<lparr>ad_ins := v5\<rparr>) = uc_keys ad" "uc_keys (ad\<lparr>ad_primary_output := v6\<rparr>) = uc_keys ad"
  by (simp_all add: uc_keys_def)

lemma hal_updates [simp]:
  "hal_inv (ad\<lparr>ad_mode := v2\<rparr>) = hal_inv ad" "hal_inv (ad\<lparr>ad_tty_mode := v2\<rparr>) = hal_inv ad" "hal_inv (ad\<lparr>ad_mic_mute := v1\<rparr>) = hal_inv ad"
  "hal_inv (ad\<lparr>ad_bluetooth_nrec := v1\<rparr>) = hal_inv ad" "hal_inv (ad\<lparr>ad_screen_off := v1\<rparr>) = hal_inv ad"
  "hal_inv (ad\<lparr>ad_speaker_lr_swap := v1\<rparr>) = hal_inv ad" "hal_inv (ad\<lparr>ad_log := v3\<rparr>) = hal_inv ad"
  by (simp_all add: hal_inv_def call_ok_def stream_linked_def active_ok_def playing_def capturing_def)

lemma select_hal:
  assumes "hal_inv ad" "env_ok E"
  obtains r ad' where "select_devices (ae_stack E) E ad i = Inr (r, ad')" "routed ad ad'" "hal_inv ad'" "same_inputs ad ad'" "ad_outs ad' = ad_outs ad"
proof -
  have "base_inv ad" "call_found ad" using assms(1) call_ok_found by (simp_all add: hal_inv_def)
  then obtain r ad' where r: "select_devices (ae_stack E) E ad i = Inr (r, ad')" "routed ad ad'" using select_devices_total assms(2) by metis
  show thesis by (rule that [OF r routed_hal [OF r(2) assms(1)] routed_same_inputs [OF r(2)] ad_frame_fields(7) [OF routed_fields(1) [OF r(2)]]])
qed

lemma stream_ids:
  "base_inv ad \<Longrightarrow> ad_outs ad a = Some out \<Longrightarrow> so_usecase out \<in> play_ids" "base_inv ad \<Longrightarrow> ad_ins ad b = Some s \<Longrightarrow> si_usecase s \<in> capture_ids"
  by (auto simp: base_inv_def streams_typed_def)

lemma call_key:
  assumes "hal_inv ad" "ad_in_call ad"
  obtains u p out pds where "get_usecase_from_id ad USECASE_VOICE_CALL = Some u" "uc_type u = VOICE_CALL" "uc_stream u = Out_Stream p"
    "ad_primary_output ad = Some p" "ad_outs ad p = Some out" "so_pcm_dev_list out = Some pds"
proof -
  have b: "base_inv ad" and "call_found ad" using assms(1) call_ok_found by (simp_all add: hal_inv_def)
  then obtain u where u: "get_usecase_from_id ad USECASE_VOICE_CALL = Some u" using assms(2) by (auto simp: call_found_def)
  from b u show thesis
  proof (cases rule: usecase_cases)
    case (playback a out)
    then have "USECASE_VOICE_CALL \<in> play_ids" using stream_ids(1) [OF b playback(3)] by simp
    then show thesis using ids_disjoint(3) by simp
  next
    case (capture a s)
    then have "USECASE_VOICE_CALL \<in> capture_ids" using stream_ids(2) [OF b capture(3)] by simp
    then show thesis using ids_disjoint(2) by simp
  next
    case (call a out)
    then show thesis using that u by blast
  qed
qed

lemma stop_voice_call_hal:
  assumes "hal_inv ad" "ad_in_call ad"
  obtains ad' out' where "stop_voice_call ad = Inr (0, ad')" "hal_inv ad'" "ad_outs ad' = (ad_outs ad)(the (ad_primary_output ad) := Some out')"
    "ad_active_input ad' = ad_active_input ad" "ad_ins ad' = ad_ins ad" "ad_primary_output ad' = ad_primary_output ad"
proof -
  obtain u p out pds where u: "get_usecase_from_id ad USECASE_VOICE_CALL = Some u" "uc_stream u = Out_Stream p" "ad_primary_output ad = Some p"
      and out: "ad_outs ad p = Some out" "so_pcm_dev_list out = Some pds"
    using call_key [OF assms] by metis
  let ?ad0 = "ad\<lparr>ad_in_call := False\<rparr>" and ?out = "out\<lparr>so_pcm_dev_list := Some []\<rparr>"
  have b: "base_inv ?ad0" using assms(1) by (simp add: hal_inv_def)
  then have k: "keys_ok ?ad0" by (simp add: base_inv_def table_inv_def)
  have u0: "get_usecase_from_id ?ad0 USECASE_VOICE_CALL = Some u" using u(1) by (simp add: get_usecase_from_id_def)
  have outs: "ad_outs (snd (disable_snd_device ad' u d b)) = ad_outs ad'" for ad' d b by (rule ad_frame_fields(7)) simp
  let ?ad' = "put_out p ?out (drop_usecase False True USECASE_VOICE_CALL u ?ad0)"
  have res: "stop_voice_call ad = Inr (0, ?ad')"
    using u0 u(2) out outs by (simp add: stop_voice_call_def Let_def uc_release_pcm_devices_def get_out_def drop_usecase_def)
  have b': "base_inv ?ad'" by (rule put_out_base [OF drop_usecase_base [OF b u0], where out = out]) (simp_all add: drop_fields out)
  have keys: "set (uc_keys ?ad') = {k \<in> set (uc_keys ad). fst k \<noteq> USECASE_VOICE_CALL}"
    using keys_after_remove [OF k] by (simp add: drop_keys)
  have bb: "base_inv ad" using assms(1) by (simp add: hal_inv_def)
  have "playing ?ad' c = playing ad c" "capturing ?ad' c = capturing ad c" for c
    using key_types [OF bb] ids_disjoint(2,3) unfolding playing_def capturing_def keys by fastforce+
  then have "hal_inv ?ad'"
    using assms(1) b' keys out by (auto simp: hal_inv_def call_ok_def stream_linked_def active_ok_def drop_fields)
  then show thesis using that [of ?ad' ?out] res u(3) by (simp add: drop_fields)
qed

lemma start_voice_call_hal:
  assumes "hal_inv ad" "env_ok E" "\<not> ad_in_call ad" "ad_primary_output ad = Some p"
  obtains ad' out' where "start_voice_call E ad = Inr (0, ad')" "hal_inv ad'" "ad_outs ad' = (ad_outs ad)(p := Some out')"
    "ad_active_input ad' = ad_active_input ad" "ad_ins ad' = ad_ins ad" "ad_primary_output ad' = ad_primary_output ad" "ad_mode ad' = ad_mode ad"
proof -
  have b: "base_inv ad" and cf: "call_found ad" using assms(1) call_ok_found by (simp_all add: hal_inv_def)
  obtain out where out: "ad_outs ad p = Some out" using b assms(4) by (auto simp: base_inv_def primary_ok_def)
  let ?u = "new_usecase USECASE_VOICE_CALL VOICE_CALL (Out_Stream p) (so_devices out)"
  have new: "USECASE_VOICE_CALL \<notin> fst ` set (uc_keys ad)" using assms(1,3) by (auto simp: hal_inv_def call_ok_def)
  have u: "uc_stream ?u = Out_Stream p" "uc_id ?u \<notin> fst ` set (uc_keys ad)" using new by (simp_all add: new_usecase_def)
  obtain ms pds where sel: "uc_select_pcm_devices (ae_h E) ad ?u = Inr (?u\<lparr>uc_mixer_list := ms\<rparr>, put_out p (out\<lparr>so_pcm_dev_list := Some pds\<rparr>) ad)"
    by (rule uc_select_result [OF b out u, of "ae_h E"]) (rule that)
  let ?out = "out\<lparr>so_pcm_dev_list := Some pds\<rparr>" and ?v = "?u\<lparr>uc_mixer_list := ms\<rparr>"
  let ?ad = "add_usecase ?v (put_out p ?out ad)"
  have k: "uc_key ?v = (USECASE_VOICE_CALL, VOICE_CALL, Out_Stream p, ms)" by (simp add: uc_key_def new_usecase_def)
  have b1: "base_inv ?ad"
    by (rule add_usecase_base [OF put_out_base [OF b out]]) (use new k assms(4) in \<open>simp_all add: key_ok_def new_usecase_def\<close>)
  obtain r ad2 where s: "select_devices (ae_stack E) E ?ad USECASE_VOICE_CALL = Inr (r, ad2)" "routed ?ad ad2"
    using select_devices_total [OF b1 assms(2) call_found_add [OF cf]] by metis
  note f = ad_frame_fields [OF routed_fields(1) [OF s(2)]]
  let ?ad' = "ad2\<lparr>ad_in_call := True\<rparr>"
  have res: "start_voice_call E ad = Inr (0, ?ad')" using assms(4) out sel s(1) by (simp add: start_voice_call_def get_out_def)
  have keys: "uc_keys ?ad' = uc_keys ad @ [(USECASE_VOICE_CALL, VOICE_CALL, Out_Stream p, ms)]"
    using routed_fields(2) [OF s(2)] k by simp
  have "playing ?ad' c = playing ad c" "capturing ?ad' c = capturing ad c" for c unfolding playing_def capturing_def keys by auto
  then have "hal_inv ?ad'"
    using assms(1) routed_base [OF s(2) b1] keys f out by (auto simp: hal_inv_def call_ok_def stream_linked_def active_ok_def)
  then show thesis using that [of ?ad' ?out] res f by simp
qed

text \<open>What is kept while an output is routed: the inputs, the primary output, and which outputs are allocated.\<close>

definition keeps_inputs :: "audio_device \<Rightarrow> audio_device \<Rightarrow> bool" where
  "keeps_inputs ad ad' \<longleftrightarrow> ad_ins ad' = ad_ins ad \<and> ad_active_input ad' = ad_active_input ad \<and> ad_primary_output ad' = ad_primary_output ad \<and>
     dom (ad_outs ad') = dom (ad_outs ad)"

lemma keeps_refl [simp]: "keeps_inputs ad ad"
  by (simp add: keeps_inputs_def)

lemma keeps_trans: "keeps_inputs a b \<Longrightarrow> keeps_inputs b c \<Longrightarrow> keeps_inputs a c"
  by (simp add: keeps_inputs_def)

lemma same_keeps: "same_inputs ad ad' \<Longrightarrow> dom (ad_outs ad') = dom (ad_outs ad) \<Longrightarrow> keeps_inputs ad ad'"
  by (simp add: same_inputs_def keeps_inputs_def)

lemma route_voice_call_hal:
  assumes "hal_inv ad" "env_ok E"
  obtains ad' where "route_voice_call E ad a = Inr ad'" "hal_inv ad'" "keeps_inputs ad ad'"
proof (cases "ad_mode ad = AUDIO_MODE_IN_CALL (ae_h E) \<and> ad_primary_output ad = Some a")
  case True
  show thesis
  proof (cases "ad_in_call ad")
    case call: True
    obtain r ad' where "select_devices (ae_stack E) E ad USECASE_VOICE_CALL = Inr (r, ad')" "hal_inv ad'" "same_inputs ad ad'" "ad_outs ad' = ad_outs ad"
      using select_hal [OF assms] by metis
    then show thesis using that [of ad'] True call same_keeps by (simp add: route_voice_call_def)
  next
    case no: False
    obtain ad' out' where s: "start_voice_call E ad = Inr (0, ad')" "hal_inv ad'" "ad_outs ad' = (ad_outs ad)(a := Some out')"
        "ad_active_input ad' = ad_active_input ad" "ad_ins ad' = ad_ins ad" "ad_primary_output ad' = ad_primary_output ad"
      using start_voice_call_hal [OF assms no] True by metis
    have "ad_outs ad a \<noteq> None" using assms(1) True by (auto simp: hal_inv_def base_inv_def primary_ok_def)
    then show thesis using that [of ad'] True no s by (auto simp: route_voice_call_def keeps_inputs_def)
  qed
next
  case False
  then show thesis using that [of ad] assms(1) by (auto simp: route_voice_call_def)
qed

lemma input_to_reset_total:
  assumes "hal_inv ad"
  obtains r where "input_to_reset A ad = Inr r" "r = None \<or> r = ad_active_input ad"
proof (cases "ad_active_input ad")
  case (Some b)
  then have "capturing ad b" using assms by (simp add: hal_inv_def active_ok_def)
  then obtain s where "ad_ins ad b = Some s" using key_types assms by (fastforce simp: hal_inv_def capturing_def)
  then show thesis using that [of "if si_source s = AUDIO_SOURCE_VOICE_COMMUNICATION A \<or> si_source s = AUDIO_SOURCE_MIC A then Some b else None"] Some
    by (simp add: input_to_reset_def get_in_def)
qed (simp add: that input_to_reset_def)

lemma end_voice_call_hal:
  assumes "hal_inv ad"
  obtains ad' where "end_voice_call A ad a = Inr ad'" "hal_inv ad'" "keeps_inputs ad ad'"
proof (cases "ad_mode ad = AUDIO_MODE_NORMAL A \<and> ad_in_call ad \<and> ad_primary_output ad = Some a")
  case True
  obtain ad' out' where s: "stop_voice_call ad = Inr (0, ad')" "hal_inv ad'" "ad_outs ad' = (ad_outs ad)(the (ad_primary_output ad) := Some out')"
      "ad_active_input ad' = ad_active_input ad" "ad_ins ad' = ad_ins ad" "ad_primary_output ad' = ad_primary_output ad"
    using stop_voice_call_hal [OF assms] True by metis
  have "ad_outs ad a \<noteq> None" using assms True by (auto simp: hal_inv_def base_inv_def primary_ok_def)
  then show thesis using that [of ad'] True s by (auto simp: keeps_inputs_def end_voice_call_def)
next
  case False
  then show thesis using that [of ad] assms by (auto simp: end_voice_call_def)
qed

lemma reroute_output_hal:
  assumes "hal_inv ad" "env_ok E" "ad_outs ad a = Some out"
  obtains ad' where "reroute_output E ad a out val = Inr ad'" "hal_inv ad'" "keeps_inputs ad ad'"
proof -
  let ?out = "out\<lparr>so_devices := val\<rparr>"
  let ?ad = "put_out a ?out ad"
  have h: "hal_inv ?ad" by (rule put_out_hal [OF assms(1,3)]) simp_all
  have k: "keeps_inputs ad ?ad" using assms(3) by (auto simp: keeps_inputs_def)
  consider "so_standby out" | "\<not> so_standby out" "so_devices out \<noteq> val" | "\<not> so_standby out" "so_devices out = val" by blast
  then show thesis
  proof cases
    case 1
    then show thesis using that [of ?ad] h k by (simp add: reroute_output_def)
  next
    case 2
    obtain ad' out' where d: "do_out_standby_l ?ad a = Inr (0, ad')" "hal_inv ad'" "ad_outs ad' = (ad_outs ?ad)(a := Some out')" "same_inputs ?ad ad'"
      by (rule do_out_standby_hal [OF h, of a ?out]) (use 2 in auto)
    have "dom (ad_outs ad') = dom (ad_outs ?ad)" by (auto simp: d(3))
    then show thesis using that [of ad'] 2 d keeps_trans [OF k same_keeps [OF d(4)]] by (simp add: reroute_output_def)
  next
    case 3
    obtain r ad' where s: "select_devices (ae_stack E) E ?ad (so_usecase out) = Inr (r, ad')" "hal_inv ad'" "same_inputs ?ad ad'" "ad_outs ad' = ad_outs ?ad"
      by (rule select_hal [OF h assms(2), of "so_usecase out"]) (rule that)
    then show thesis using that [of ad'] 3 keeps_trans [OF k same_keeps [OF s(3)]] by (simp add: reroute_output_def)
  qed
qed

lemma out_set_parameters_hal:
  assumes "hal_inv ad" "env_ok E" "ad_outs ad a = Some out"
  obtains ad' reset where "out_set_parameters E ad a routing = Inr (ad', reset)" "hal_inv ad'" "keeps_inputs ad ad'"
    "reset = None \<or> reset = ad_active_input ad'"
proof (cases routing)
  case None
  then show thesis using that [of ad None] assms(1) by (simp add: out_set_parameters_def)
next
  case (Some val)
  obtain reset where r: "(if so_devices out \<noteq> val \<and> val \<noteq> 0 \<and> \<not> so_standby out \<and> so_usecase out = USECASE_AUDIO_PLAYBACK
      then input_to_reset (ae_h E) ad else Inr None) = Inr reset" "reset = None \<or> reset = ad_active_input ad"
    using input_to_reset_total [OF assms(1), of "ae_h E"] by metis
  obtain ad2 where ad2: "(if val \<noteq> 0 then and_then (reroute_output E ad a out val) (\<lambda>ad1. route_voice_call E ad1 a) else Inr ad) = Inr ad2"
      "hal_inv ad2" "keeps_inputs ad ad2"
  proof (cases "val = 0")
    case False
    obtain ad1 where 1: "reroute_output E ad a out val = Inr ad1" "hal_inv ad1" "keeps_inputs ad ad1" using reroute_output_hal [OF assms] by metis
    obtain ad2 where "route_voice_call E ad1 a = Inr ad2" "hal_inv ad2" "keeps_inputs ad1 ad2" using route_voice_call_hal [OF 1(2) assms(2)] by metis
    then show thesis using that [of ad2] False 1(1) keeps_trans [OF 1(3)] by simp
  qed (use assms(1) that [of ad] in simp)
  obtain ad3 where "end_voice_call (ae_h E) ad2 a = Inr ad3" "hal_inv ad3" "keeps_inputs ad2 ad3" using end_voice_call_hal [OF ad2(2)] by metis
  then show thesis using that [of ad3 reset] Some r ad2 assms(3) keeps_trans [OF ad2(3)] by (simp add: out_set_parameters_def get_out_def keeps_inputs_def)
qed

end
