(* ===== verification/Audio_System.thy ===== *)
theory Audio_System
  imports Audio_Hal
begin

text \<open>
  The audio device and its clients: the calls of the interface as steps of threads that interleave, and that no
  step fails as long as the clients keep their part of the contract.
\<close>

unbundle bit_operations_syntax

subsection \<open>The other functions keep the invariant\<close>

lemma in_set_parameters_hal:
  assumes "hal_inv ad" "env_ok E" "ad_ins ad a = Some s"
  obtains r ad' where "in_set_parameters E ad a source routing = Inr (r, ad')" "hal_inv ad'"
proof -
  define s1 where "s1 = (case source of Some val \<Rightarrow> if si_source s \<noteq> val \<and> val \<noteq> 0 then s\<lparr>si_source := val\<rparr> else s | None \<Rightarrow> s)"
  have s1: "si_usecase s1 = si_usecase s" "si_pcm_dev_list s1 = si_pcm_dev_list s" "si_standby s1 = si_standby s" "si_devices s1 = si_devices s"
    by (simp_all add: s1_def split: option.splits)
  have h: "hal_inv (put_in a (s1\<lparr>si_devices := v\<rparr>) ad)" "hal_inv (put_in a s1 ad)" for v
    by (rule put_in_hal [OF assms(1,3)]; simp add: s1)+
  show thesis
  proof (cases routing)
    case None
    then show thesis using that [of "- HAL_ENOENT" "put_in a s1 ad"] h(2) assms(3) by (simp add: in_set_parameters_def get_in_def s1_def Let_def)
  next
    case (Some val)
    let ?s = "s1\<lparr>si_devices := val\<rparr>"
    let ?ad = "put_in a ?s ad"
    obtain r ad1 where sel: "select_devices (ae_stack E) E ?ad (si_usecase s1) = Inr (r, ad1)" "hal_inv ad1"
      using select_hal [OF h(1) assms(2)] by metis
    consider "si_devices s1 = val \<or> val = 0" | "\<not> (si_devices s1 = val \<or> val = 0)" "si_standby s1"
      | "\<not> (si_devices s1 = val \<or> val = 0)" "\<not> si_standby s1" by blast
    then show thesis
    proof cases
      case 1
      then show thesis using that [of 0 "put_in a s1 ad"] Some h(2) assms(3) by (simp add: in_set_parameters_def get_in_def s1_def Let_def)
    next
      case 2
      then show thesis using that [of 0 ?ad] Some h(1) assms(3) by (simp add: in_set_parameters_def get_in_def s1_def [symmetric] Let_def)
    next
      case 3
      have c: "capturing ?ad a" using h(1) [of val] 3 by (simp add: hal_inv_def stream_linked_def)
      have b: "base_inv ?ad" using h(1) by (simp add: hal_inv_def)
      obtain u pds where u: "get_usecase_from_id ?ad (si_usecase s1) = Some u" "si_pcm_dev_list s1 = Some pds"
        using capturing_found [OF b c, of ?s] by fastforce
      let ?res = "in_set_parameters E ad a source routing"
      have res: "?res = (case pds of [] \<Rightarrow> select_devices (ae_stack E) E ?ad (si_usecase s1)
          | pd # _ \<Rightarrow> if pp_devices (ad_profiles ?ad ! pd_profile pd) AND val AND NOT (AUDIO_DEVICE_BIT_IN (ae_h E)) = 0
             then and_then (do_in_standby_l ?ad a) (\<lambda>ad2. Inr (0, ad2)) else select_devices (ae_stack E) E ?ad (si_usecase s1))"
        using Some 3 u assms(3) by (simp add: in_set_parameters_def get_in_def s1_def [symmetric] Let_def split: list.split)
      obtain ad2 where d: "do_in_standby_l ?ad a = Inr ad2" "hal_inv ad2"
        using do_in_standby_hal [OF h(1), of val a ?s] 3 by fastforce
      show thesis
      proof (cases "?res = select_devices (ae_stack E) E ?ad (si_usecase s1)")
        case False
        then have "?res = Inr (0, ad2)" using res d(1) by (auto split: list.splits if_splits)
        then show thesis using that d(2) by blast
      qed (use sel that in simp)
    qed
  qed
qed

lemma adev_set_parameters_hal:
  assumes "hal_inv ad" "env_ok E"
  obtains r ad' where "adev_set_parameters E ad tty bt_nrec screen_on rotation = Inr (r, ad')" "hal_inv ad'" "keeps_inputs ad ad'"
proof (cases "tty = Some None")
  case True
  then show thesis using that [of "- HAL_EINVAL" ad] assms(1) by (simp add: adev_set_parameters_def)
next
  case False
  let ?tty = "case tty of
             Some (Some mode) \<Rightarrow>
               if mode \<noteq> ad_tty_mode ad then
                 (let ad1 = ad\<lparr>ad_tty_mode := mode\<rparr>
                  in if ad_in_call ad1 then and_then (select_devices (ae_stack E) E ad1 USECASE_VOICE_CALL) (\<lambda>(_, ad2). Inr ad2) else Inr ad1)
               else Inr ad
           | _ \<Rightarrow> Inr ad"
  have "\<exists>ad1. ?tty = Inr ad1 \<and> hal_inv ad1 \<and> keeps_inputs ad ad1"
  proof (cases "\<exists>mode. tty = Some (Some mode) \<and> mode \<noteq> ad_tty_mode ad")
    case True
    then obtain mode where m: "tty = Some (Some mode)" "mode \<noteq> ad_tty_mode ad" by blast
    let ?ad = "ad\<lparr>ad_tty_mode := mode\<rparr>"
    obtain r ad' where s: "select_devices (ae_stack E) E ?ad USECASE_VOICE_CALL = Inr (r, ad')" "hal_inv ad'" "same_inputs ?ad ad'" "ad_outs ad' = ad_outs ?ad"
      using select_hal [OF _ assms(2), of ?ad USECASE_VOICE_CALL] assms(1) hal_updates(2) by metis
    then have "keeps_inputs ad ad'" by (simp add: same_inputs_def keeps_inputs_def)
    then show ?thesis using m s(1,2) assms(1) by (cases "ad_in_call ad") (simp_all add: keeps_inputs_def)
  qed (use assms(1) in \<open>auto split: option.splits\<close>)
  then obtain ad1 where t: "?tty = Inr ad1" "hal_inv ad1" "keeps_inputs ad ad1" by blast
  have "\<exists>r ad'. adev_set_parameters E ad tty bt_nrec screen_on rotation = Inr (r, ad') \<and> hal_inv ad' \<and> keeps_inputs ad ad'"
    unfolding adev_set_parameters_def if_not_P [OF False] t(1) and_then_simps
    using t(2,3) by (simp add: keeps_inputs_def Let_def split: option.split)
  then show thesis using that by blast
qed

text \<open>A use case depends on its stream, and the voice call on the primary output too.\<close>

lemma key_ok_frame:
  assumes "key_ok ad (i, t, st, ms)" "\<And>a. st = Out_Stream a \<Longrightarrow> ad_outs ad a \<noteq> None \<Longrightarrow> ad_outs ad' a = ad_outs ad a"
    and "\<And>a. st = In_Stream a \<Longrightarrow> ad_ins ad a \<noteq> None \<Longrightarrow> ad_ins ad' a = ad_ins ad a"
    and "t = VOICE_CALL \<Longrightarrow> ad_primary_output ad \<noteq> None \<Longrightarrow> ad_primary_output ad' = ad_primary_output ad"
  shows "key_ok ad' (i, t, st, ms)"
proof -
  from assms(1) consider
      (playback) a out where "t = PCM_PLAYBACK" "st = Out_Stream a" "ad_outs ad a = Some out" "so_usecase out = i" "so_pcm_dev_list out \<noteq> None"
    | (capture) a s where "t = PCM_CAPTURE" "st = In_Stream a" "ad_ins ad a = Some s" "si_usecase s = i" "si_pcm_dev_list s \<noteq> None"
    | (call) a out where "t = VOICE_CALL" "i = USECASE_VOICE_CALL" "st = Out_Stream a" "ad_primary_output ad = Some a" "ad_outs ad a = Some out"
        "so_pcm_dev_list out \<noteq> None"
    unfolding key_ok_def by blast
  then show ?thesis
  proof cases
    case playback
    then show ?thesis using assms(2) unfolding key_ok_def by fastforce
  next
    case capture
    then show ?thesis using assms(3) unfolding key_ok_def by fastforce
  next
    case call
    then show ?thesis using assms(2,4) unfolding key_ok_def by fastforce
  qed
qed

text \<open>
  The invariant of a device whose use cases are the same: the streams may change that have no use case.
\<close>

lemma base_frame:
  assumes "base_inv ad" "ad_usecase_list ad' = ad_usecase_list ad" "ad_snd_dev_ref_cnt ad' = ad_snd_dev_ref_cnt ad"
    and "ad_mixer_list ad' = ad_mixer_list ad" "ad_profiles ad' = ad_profiles ad"
    and "\<And>k. k \<in> set (uc_keys ad) \<Longrightarrow> key_ok ad k \<Longrightarrow> key_ok ad' k" "streams_typed ad'" "primary_ok ad'"
  shows "base_inv ad'"
proof -
  have t: "refs_ok ad' = refs_ok ad" "devices_ok ad' = devices_ok ad" "uc_keys ad' = uc_keys ad" using table_parts_cong [OF assms(2,3)] by auto
  then have "keys_ok ad'" using assms(1,6) by (auto simp: base_inv_def table_inv_def keys_ok_def list_all_iff)
  then show ?thesis using assms(1,4,5,7,8) t by (simp add: base_inv_def table_inv_def profiles_ok_def)
qed

lemma hal_frame:
  assumes "hal_inv ad" "base_inv ad'" "ad_usecase_list ad' = ad_usecase_list ad" "ad_in_call ad' = ad_in_call ad" "ad_active_input ad' = ad_active_input ad"
    and "\<And>a out. ad_outs ad' a = Some out \<Longrightarrow> playing ad a = (\<not> so_standby out)"
    and "\<And>a s. ad_ins ad' a = Some s \<Longrightarrow> capturing ad a = (\<not> si_standby s)"
  shows "hal_inv ad'"
proof -
  have "uc_keys ad' = uc_keys ad" using assms(3) by (simp add: uc_keys_def)
  then have "playing ad' = playing ad" "capturing ad' = capturing ad" "call_ok ad' = call_ok ad"
    using assms(4) by (simp_all add: playing_def capturing_def call_ok_def fun_eq_iff)
  then show ?thesis using assms by (simp add: hal_inv_def stream_linked_def active_ok_def)
qed

lemma hal_parts: "hal_inv ad \<Longrightarrow> base_inv ad" "hal_inv ad \<Longrightarrow> streams_typed ad" "hal_inv ad \<Longrightarrow> primary_ok ad"
  "hal_inv ad \<Longrightarrow> ad_outs ad a = Some out \<Longrightarrow> playing ad a = (\<not> so_standby out)"
  "hal_inv ad \<Longrightarrow> ad_ins ad b = Some s \<Longrightarrow> capturing ad b = (\<not> si_standby s)"
  by (simp_all add: hal_inv_def base_inv_def stream_linked_def)

lemma unallocated:
  assumes "base_inv ad"
  shows "ad_outs ad a = None \<Longrightarrow> \<not> playing ad a" "ad_ins ad b = None \<Longrightarrow> \<not> capturing ad b"
  using key_types [OF assms] by (fastforce simp: playing_def capturing_def)+

text \<open>A new stream is in standby, a stream that is freed is too, and it is not the primary output.\<close>

lemma new_out_hal:
  assumes "hal_inv ad" "ad_outs ad a = None" "so_standby out" "so_usecase out \<in> play_ids" "so_sample_rate out = PLAYBACK_DEFAULT_SAMPLING_RATE"
  shows "hal_inv (put_out a out ad)"
proof (rule hal_frame [OF assms(1)])
  show "base_inv (put_out a out ad)"
  proof (rule base_frame [OF hal_parts(1) [OF assms(1)]])
    show "key_ok (put_out a out ad) k" if "key_ok ad k" for k
      using that assms(2) by (cases k, simp only:, elim key_ok_frame) auto
    show "streams_typed (put_out a out ad)" using hal_parts(2) [OF assms(1)] assms(4,5) by (auto simp: streams_typed_def)
    show "primary_ok (put_out a out ad)" using hal_parts(3) [OF assms(1)] by (auto simp: primary_ok_def)
  qed simp_all
  show "playing ad c = (\<not> so_standby o')" if "ad_outs (put_out a out ad) c = Some o'" for c o'
    using that unallocated(1) [OF hal_parts(1)] hal_parts(4) assms(1-3) by (cases "c = a") auto
qed (use hal_parts(5) assms(1) in simp_all)

lemma new_in_hal:
  assumes "hal_inv ad" "ad_ins ad a = None" "si_standby s" "si_usecase s \<in> capture_ids"
  shows "hal_inv (put_in a s ad)"
proof (rule hal_frame [OF assms(1)])
  show "base_inv (put_in a s ad)"
  proof (rule base_frame [OF hal_parts(1) [OF assms(1)]])
    show "key_ok (put_in a s ad) k" if "key_ok ad k" for k
      using that assms(2) by (cases k, simp only:, elim key_ok_frame) auto
    show "streams_typed (put_in a s ad)" using hal_parts(2) [OF assms(1)] assms(4) by (auto simp: streams_typed_def)
    show "primary_ok (put_in a s ad)" using hal_parts(3) [OF assms(1)] by (auto simp: primary_ok_def)
  qed simp_all
  show "capturing ad c = (\<not> si_standby s')" if "ad_ins (put_in a s ad) c = Some s'" for c s'
    using that unallocated(2) [OF hal_parts(1)] hal_parts(5) assms(1-3) by (cases "c = a") auto
qed (use hal_parts(4) assms(1) in simp_all)

lemma primary_hal:
  assumes "hal_inv ad" "ad_outs ad a \<noteq> None" "ad_primary_output ad = None"
  shows "hal_inv (ad\<lparr>ad_primary_output := Some a\<rparr>)"
proof (rule hal_frame [OF assms(1)])
  let ?ad = "ad\<lparr>ad_primary_output := Some a\<rparr>"
  show "base_inv ?ad"
  proof (rule base_frame [OF hal_parts(1) [OF assms(1)]])
    show "key_ok ?ad k" if "key_ok ad k" for k
      using that assms(3) by (cases k, simp only:, elim key_ok_frame) auto
    show "streams_typed ?ad" using hal_parts(2) [OF assms(1)] by (simp add: streams_typed_def)
  qed (use assms(2) in \<open>simp_all add: primary_ok_def\<close>)
qed (use hal_parts(4,5) assms(1) in simp_all)

lemma gone_out_hal:
  assumes "hal_inv ad" "ad_outs ad a = Some out" "so_standby out" "ad_primary_output ad \<noteq> Some a"
  shows "hal_inv (ad\<lparr>ad_outs := (ad_outs ad)(a := None)\<rparr>)"
proof (rule hal_frame [OF assms(1)])
  let ?ad = "ad\<lparr>ad_outs := (ad_outs ad)(a := None)\<rparr>"
  have np: "\<not> playing ad a" using hal_parts(4) [OF assms(1,2)] assms(3) by simp
  show "base_inv ?ad"
  proof (rule base_frame [OF hal_parts(1) [OF assms(1)]])
    fix k
    assume k: "k \<in> set (uc_keys ad)" "key_ok ad k"
    obtain i t st ms where k': "k = (i, t, st, ms)" by (cases k)
    have "st \<noteq> Out_Stream a" using np k assms(4) unfolding k' by (auto simp: playing_def key_ok_def)
    then show "key_ok ?ad k" using k(2) unfolding k' by (elim key_ok_frame) auto
  next
    show "streams_typed ?ad" using hal_parts(2) [OF assms(1)] by (simp add: streams_typed_def)
    show "primary_ok ?ad" using hal_parts(3) [OF assms(1)] assms(4) by (auto simp: primary_ok_def)
  qed simp_all
  show "playing ad c = (\<not> so_standby o')" if "ad_outs ?ad c = Some o'" for c o'
    using that hal_parts(4) [OF assms(1)] by (auto split: if_splits)
qed (use hal_parts(5) assms(1) in simp_all)

lemma gone_in_hal:
  assumes "hal_inv ad" "ad_ins ad a = Some s" "si_standby s"
  shows "hal_inv (ad\<lparr>ad_ins := (ad_ins ad)(a := None)\<rparr>)"
proof (rule hal_frame [OF assms(1)])
  let ?ad = "ad\<lparr>ad_ins := (ad_ins ad)(a := None)\<rparr>"
  have np: "\<not> capturing ad a" using hal_parts(5) [OF assms(1,2)] assms(3) by simp
  show "base_inv ?ad"
  proof (rule base_frame [OF hal_parts(1) [OF assms(1)]])
    fix k
    assume k: "k \<in> set (uc_keys ad)" "key_ok ad k"
    obtain i t st ms where k': "k = (i, t, st, ms)" by (cases k)
    have "st \<noteq> In_Stream a" using np k(1) unfolding k' by (auto simp: capturing_def)
    then show "key_ok ?ad k" using k(2) unfolding k' by (elim key_ok_frame) auto
  next
    show "streams_typed ?ad" using hal_parts(2) [OF assms(1)] by (simp add: streams_typed_def)
    show "primary_ok ?ad" using hal_parts(3) [OF assms(1)] by (simp add: primary_ok_def)
  qed simp_all
  show "capturing ad c = (\<not> si_standby s')" if "ad_ins ?ad c = Some s'" for c s'
    using that hal_parts(5) [OF assms(1)] by (auto split: if_splits)
qed (use hal_parts(4) assms(1) in simp_all)

text \<open>Opening and closing streams.\<close>

lemma new_stream_out_fields:
  assumes "profiles_ok ad" "get_pcm_device A (ad_profiles ad) PCM_PLAYBACK devices = Some p"
  shows "so_standby (new_stream_out A (pp_config (ad_profiles ad ! p)) devices flags format)"
    "so_usecase (new_stream_out A (pp_config (ad_profiles ad ! p)) devices flags format) \<in> play_ids"
    "so_sample_rate (new_stream_out A (pp_config (ad_profiles ad ! p)) devices flags format) = PLAYBACK_DEFAULT_SAMPLING_RATE"
proof -
  have "pc_rate (pp_config (ad_profiles ad ! p)) = PLAYBACK_DEFAULT_SAMPLING_RATE"
    using get_pcm_device_Some [OF assms(2)] assms(1) by (simp add: profiles_ok_def list_all_length)
  then show "so_standby (new_stream_out A (pp_config (ad_profiles ad ! p)) devices flags format)"
      "so_usecase (new_stream_out A (pp_config (ad_profiles ad ! p)) devices flags format) \<in> play_ids"
      "so_sample_rate (new_stream_out A (pp_config (ad_profiles ad ! p)) devices flags format) = PLAYBACK_DEFAULT_SAMPLING_RATE"
    by (simp_all add: new_stream_out_def Let_def play_ids_def pcm_config_deep_buffer_def period_defs)
qed

definition primary_free :: "audio_h \<Rightarrow> audio_device \<Rightarrow> u32 \<Rightarrow> bool" where
  "primary_free A ad flags \<longleftrightarrow> (has flags (AUDIO_OUTPUT_FLAG_PRIMARY A) \<longrightarrow>
     get_usecase_from_id ad (if has flags (AUDIO_OUTPUT_FLAG_DEEP_BUFFER A) then USECASE_AUDIO_PLAYBACK_DEEP_BUFFER else USECASE_AUDIO_PLAYBACK) = None)"

lemma found_update [simp]: "get_usecase_from_id (ad\<lparr>ad_primary_output := v\<rparr>) i = get_usecase_from_id ad i"
  by (simp add: get_usecase_from_id_def)

lemma put_out_primary [simp]: "put_out a out (ad\<lparr>ad_primary_output := v\<rparr>) = (put_out a out ad)\<lparr>ad_primary_output := v\<rparr>"
  by (simp add: put_out_def)

lemma open_output_hal:
  assumes "hal_inv ad" "ad_outs ad a = None" "primary_free A ad flags"
  obtains r ad' where "adev_open_output_stream A ad a devices flags format = (r, ad')" "hal_inv ad'" "ad_active_input ad' = ad_active_input ad" "ad_ins ad' = ad_ins ad"
proof -
  let ?d = "if devices = AUDIO_DEVICE_NONE A then AUDIO_DEVICE_OUT_SPEAKER A else devices"
  let ?primary = "has flags (AUDIO_OUTPUT_FLAG_PRIMARY A)"
  have "\<exists>r ad'. adev_open_output_stream A ad a devices flags format = (r, ad') \<and> hal_inv ad' \<and> ad_active_input ad' = ad_active_input ad \<and> ad_ins ad' = ad_ins ad"
  proof (cases "get_pcm_device A (ad_profiles ad) PCM_PLAYBACK ?d")
    case None
    then show ?thesis using assms(1) by (simp add: adev_open_output_stream_def Let_def)
  next
    case (Some p)
    let ?out = "new_stream_out A (pp_config (ad_profiles ad ! p)) ?d flags format"
    have "profiles_ok ad" using assms(1) by (simp add: hal_inv_def base_inv_def)
    note f = new_stream_out_fields [OF this Some, of flags format]
    have h: "hal_inv (put_out a ?out ad)" by (rule new_out_hal [OF assms(1,2) f])
    have uc: "so_usecase ?out = (if has flags (AUDIO_OUTPUT_FLAG_DEEP_BUFFER A) then USECASE_AUDIO_PLAYBACK_DEEP_BUFFER else USECASE_AUDIO_PLAYBACK)"
      by (simp add: new_stream_out_def Let_def)
    have p: "ad_primary_output ad = None \<Longrightarrow> hal_inv ((put_out a ?out ad)\<lparr>ad_primary_output := Some a\<rparr>)"
      by (rule primary_hal [OF h]) simp_all
    show ?thesis
      using Some assms(1,3) h p by (cases ?primary; cases "ad_primary_output ad")
        (simp_all add: adev_open_output_stream_def primary_free_def uc [symmetric] Let_def)
  qed
  then show thesis using that by blast
qed

lemma close_output_hal:
  assumes "hal_inv ad" "ad_outs ad a = Some out" "ad_primary_output ad \<noteq> Some a"
  obtains ad' where "adev_close_output_stream ad a = Inr ad'" "hal_inv ad'" "ad_active_input ad' = ad_active_input ad" "ad_ins ad' = ad_ins ad"
proof -
  obtain ad1 out1 where s: "out_standby ad a = Inr ad1" "hal_inv ad1" "ad_outs ad1 = (ad_outs ad)(a := Some out1)" "so_standby out1" "same_inputs ad ad1"
    using out_standby_hal [OF assms(1,2)] by metis
  have "hal_inv (ad1\<lparr>ad_outs := (ad_outs ad1)(a := None)\<rparr>)"
    by (rule gone_out_hal [OF s(2), where out = out1]) (use s assms(3) in \<open>simp_all add: same_inputs_def\<close>)
  then show thesis using that [of "ad1\<lparr>ad_outs := (ad_outs ad1)(a := None)\<rparr>"] s(1,5) by (simp add: adev_close_output_stream_def same_inputs_def)
qed

lemma open_input_stream_hal:
  assumes "hal_inv ad" "ad_ins ad a = None"
  obtains r ad' where "adev_open_input_stream A ad a devices rate format channels flags source = (r, ad')" "hal_inv ad'" "ad_active_input ad' = ad_active_input ad"
proof -
  have "hal_inv (put_in a (new_stream_in A config devices rate channels flags source) ad)" for config
    by (rule new_in_hal [OF assms]) (simp_all add: new_stream_in_def capture_ids_def)
  moreover have "adev_open_input_stream A ad a devices rate format channels flags source = (- HAL_EINVAL, ad) \<or>
      (\<exists>config. adev_open_input_stream A ad a devices rate format channels flags source = (0, put_in a (new_stream_in A config devices rate channels flags source) ad))"
    by (auto simp: adev_open_input_stream_def split: option.split)
  ultimately show thesis using that assms by (elim disjE exE) auto
qed

lemma close_input_stream_hal:
  assumes "hal_inv ad" "ad_ins ad a = Some s"
  obtains ad' where "adev_close_input_stream ad a = Inr ad'" "hal_inv ad'"
proof -
  obtain ad1 s1 where s: "in_standby ad a = Inr ad1" "hal_inv ad1" "ad_ins ad1 = (ad_ins ad)(a := Some s1)" "si_standby s1"
    using in_standby_hal [OF assms] by metis
  have "hal_inv (ad1\<lparr>ad_ins := (ad_ins ad1)(a := None)\<rparr>)" by (rule gone_in_hal [OF s(2), where s = s1]) (use s in simp_all)
  then show thesis using that s(1) by (simp add: adev_close_input_stream_def)
qed

text \<open>Effects.\<close>

lemma do_in_standby_any:
  assumes "hal_inv ad" "ad_ins ad a = Some s"
  obtains ad' s' where "do_in_standby_l ad a = Inr ad'" "hal_inv ad'" "ad_ins ad' a = Some s'"
proof (cases "si_standby s")
  case True
  then show thesis using that [of ad s] assms by (simp add: do_in_standby_l_def get_in_def)
next
  case False
  then show thesis using do_in_standby_hal [OF assms] that by (metis fun_upd_same)
qed

lemma update_aux_hal:
  assumes "hal_inv ad" "ad_ins ad a = Some s"
  obtains ad' s' where "in_update_aux_channels A cmd ad a e = Inr ad'" "hal_inv ad'" "ad_ins ad' a = Some s'"
proof -
  have h: "hal_inv (put_in a (s\<lparr>si_aux_channels_changed := True, si_aux_channels := c\<rparr>) ad)" for c by (rule put_in_hal [OF assms]) simp_all
  have "\<exists>ad' s'. do_in_standby_l (put_in a (s\<lparr>si_aux_channels_changed := True, si_aux_channels := c\<rparr>) ad) a = Inr ad' \<and> hal_inv ad' \<and> ad_ins ad' a = Some s'" for c
    by (rule do_in_standby_any [OF h, where c1 = c]) auto
  then show thesis using that assms by (simp add: in_update_aux_channels_def get_in_def Let_def) (metis (no_types))
qed

lemma effect_hal:
  assumes "hal_inv ad" "ad_ins ad a = Some s"
  obtains r ad' where "add_remove_audio_effect A cmd descriptor ad a e enable = Inr (r, ad')" "hal_inv ad'"
proof -
  have h: "hal_inv (put_in a (s\<lparr>si_preprocessors := es\<rparr>) ad)" "hal_inv (put_in a (s\<lparr>si_preprocessors := es, si_aux_channels_changed := b\<rparr>) ad)" for es b
    by (rule put_in_hal [OF assms]; simp)+
  obtain ad1 s1 where u: "in_update_aux_channels A cmd (put_in a (s\<lparr>si_preprocessors := si_preprocessors s @ [e]\<rparr>) ad) a e = Inr ad1" "hal_inv ad1"
      "ad_ins ad1 a = Some s1"
    by (rule update_aux_hal [OF h(1)]) auto
  have h1: "hal_inv (put_in a (s1\<lparr>si_aux_channels_changed := True\<rparr>) ad1)" by (rule put_in_hal [OF u(2,3)]) simp_all
  have "\<exists>r ad'. add_remove_audio_effect A cmd descriptor ad a e enable = Inr (r, ad') \<and> hal_inv ad'"
    using assms u(1,3) h(2) h1 unfolding add_remove_audio_effect_def by (cases enable) (auto simp: get_in_def)
  then show thesis using that by blast
qed

text \<open>Leaving standby.\<close>

lemma out_write_start_hal:
  assumes "hal_inv ad" "env_ok E" "ad_outs ad a = Some out" "so_standby out \<Longrightarrow> get_usecase_from_id ad (so_usecase out) = None"
  obtains r ad' reset where "out_write_start E ad a ans = Inr (r, ad', reset)" "hal_inv ad'" "reset = None \<or> reset = ad_active_input ad'"
    "ad_active_input ad' = ad_active_input ad" "\<not> so_standby out \<Longrightarrow> reset = None"
proof (cases "so_standby out")
  case False
  then show thesis using that [of 0 ad None] assms(1,3) by (simp add: out_write_start_def get_out_def)
next
  case True
  then have new: "so_usecase out \<notin> fst ` set (uc_keys ad)" using assms(4) found_key by blast
  obtain ret ad1 out1 where s: "start_output_stream E ad a ans = Inr (ret, ad1)" "same_inputs ad ad1" "ad_outs ad1 = (ad_outs ad)(a := Some out1)"
      "ret = 0 \<Longrightarrow> hal_inv (put_out a (out1\<lparr>so_standby := False\<rparr>) ad1)" "ret \<noteq> 0 \<Longrightarrow> ret = - HAL_EIO \<and> hal_inv ad1"
    using start_output_hal [OF assms(1,2,3) True new] by metis
  have act: "ad_active_input ad1 = ad_active_input ad" using s(2) by (simp add: same_inputs_def)
  show thesis
  proof (cases "ret = 0")
    case False
    then show thesis using that [of ret ad1 None] s act True assms(3) by (simp add: out_write_start_def get_out_def)
  next
    case ok: True
    let ?ad = "put_out a (out1\<lparr>so_standby := False\<rparr>) ad1"
    obtain reset where "input_to_reset (ae_h E) ?ad = Inr reset" "reset = None \<or> reset = ad_active_input ?ad"
      using input_to_reset_total [OF s(4) [OF ok]] by metis
    then show thesis using that [of 0 ?ad reset] s(1,3) s(4) [OF ok] ok act True assms(3) by (simp add: out_write_start_def get_out_def Let_def)
  qed
qed

lemma in_read_start_hal:
  assumes "hal_inv ad" "env_ok E" "ad_ins ad a = Some s" "si_standby s \<Longrightarrow> get_usecase_from_id ad (si_usecase s) = None"
    "si_standby s \<Longrightarrow> fst (sa_resampler ans) = 0"
  obtains r ad' where "in_read_start E ad a ans = Inr (r, ad')" "hal_inv ad'" "\<not> si_standby s \<Longrightarrow> ad' = ad"
proof (cases "si_standby s")
  case False
  then show thesis using that [of 0 ad] assms(1,3) by (simp add: in_read_start_def get_in_def)
next
  case True
  then have new: "si_usecase s \<notin> fst ` set (uc_keys ad)" using assms(4) found_key by blast
  obtain ret ad1 s1 where st: "start_input_stream E ad a ans = Inr (ret, ad1)" "ad_ins ad1 = (ad_ins ad)(a := Some s1)"
      "ret = 0 \<Longrightarrow> hal_inv (put_in a (s1\<lparr>si_standby := False\<rparr>) ad1)" "ret \<noteq> 0 \<Longrightarrow> hal_inv ad1"
    using start_input_hal [OF assms(1,2,3) True new assms(5) [OF True]] by metis
  show thesis
  proof (cases "ret = 0")
    case False
    then show thesis using that [of ret ad1] st True assms(3) by (simp add: in_read_start_def get_in_def)
  next
    case ok: True
    then show thesis using that [of 0 "put_in a (s1\<lparr>si_standby := False\<rparr>) ad1"] st(1,2) st(3) [OF ok] True assms(3)
      by (simp add: in_read_start_def get_in_def)
  qed
qed

text \<open>Opening the device.\<close>

lemma mixer_init_one:
  assumes "list_all (\<lambda>p. pp_card p = SOUND_CARD) ps" "ad_mixer_list ad = [] \<or> ad_mixer_list ad = [SOUND_CARD]"
  shows "\<exists>r. mixer_init_loop opens route_init ps ad = (- HAL_ENODEV, r) \<or>
    mixer_init_loop opens route_init ps ad = (0, ad\<lparr>ad_mixer_list := if ps = [] then ad_mixer_list ad else [SOUND_CARD]\<rparr>)"
  using assms
proof (induction ps arbitrary: ad)
  case (Cons p ps)
  then have c: "pp_card p = SOUND_CARD" and ps: "list_all (\<lambda>p. pp_card p = SOUND_CARD) ps" by simp_all
  show ?case
  proof (cases "ad_mixer_list ad = []")
    case True
    then show ?thesis using Cons.IH [OF ps, of "ad\<lparr>ad_mixer_list := [SOUND_CARD]\<rparr>"] c by (auto simp: adev_get_mixer_for_card_def)
  next
    case False
    then have "ad_mixer_list ad = [SOUND_CARD]" using Cons.prems(2) by simp
    then show ?thesis using Cons.IH [OF ps, of ad] c by (auto simp: adev_get_mixer_for_card_def)
  qed
qed auto

lemma adev_open_hal:
  assumes "adev_open A opens route_init trigger = Inr ad"
  shows "hal_inv ad"
proof -
  have cards: "list_all (\<lambda>p. pp_card p = SOUND_CARD) (pcm_devices A)"
    by (simp add: pcm_devices_def pcm_device_playback_hs_def pcm_device_capture_def pcm_device_playback_spk_def pcm_device_capture_loopback_aec_def
        pcm_device_playback_spk_and_headset_def pcm_device_hotword_streaming_def)
  have "HAL_ENODEV \<noteq> 0" by (simp add: HAL_ENODEV_def)
  then have ad: "ad = (new_device A)\<lparr>ad_mixer_list := [SOUND_CARD], ad_sound_trigger := trigger\<rparr>"
    using assms mixer_init_one [OF cards, of "(new_device A)\<lparr>ad_mixer_list := []\<rparr>" opens route_init]
    by (auto simp: adev_open_def mixer_init_def new_device_def pcm_devices_def split: if_splits)
  have "list_all (\<lambda>p. pp_type p = PCM_PLAYBACK \<longrightarrow> pc_rate (pp_config p) = PLAYBACK_DEFAULT_SAMPLING_RATE) (pcm_devices A)"
    by (simp add: pcm_devices_def pcm_device_playback_hs_def pcm_device_capture_def pcm_device_playback_spk_def pcm_device_capture_loopback_aec_def
        pcm_device_playback_spk_and_headset_def pcm_device_hotword_streaming_def playback_config_def usecase_type_defs)
  then have "profiles_ok ad" using cards by (auto simp: profiles_ok_def ad new_device_def list_all_iff)
  moreover have "uc_keys ad = []" by (simp add: ad uc_keys_def new_device_def)
  ultimately show ?thesis
    by (simp add: hal_inv_def base_inv_def table_inv_def keys_ok_def streams_typed_def primary_ok_def call_ok_def stream_linked_def active_ok_def playing_def
        capturing_def) (simp add: ad new_device_def refs_ok_def users_def devices_ok_def)
qed

subsection \<open>Clients\<close>

text \<open>
  A state is the device and the input stream, if any, that a thread is about to force into standby. That thread holds
  the lock on the inputs from the moment it has chosen the stream. A step is a section of a function in which it
  holds the locks it needs: \<^verbatim>\<open>out_write\<close> and \<^verbatim>\<open>in_read\<close> are their start, their samples, and standby after an error.
\<close>

type_synonym hal_state = "audio_device \<times> nat option"

datatype hal_call =
    Out_Write_Start nat "nat \<Rightarrow> open_answer"
  | Out_Samples nat stream_out
  | Out_Standby nat
  | Out_Set_Parameters nat "u32 option"
  | Force_Input_Standby
  | In_Read_Start nat start_answer
  | In_Samples nat stream_in
  | In_Standby nat
  | In_Set_Parameters nat "int option" "u32 option"
  | In_Effect effect_answers int nat nat bool
  | Set_Parameters "int option option" "bool option" "bool option" "int option"
  | Set_Mode int
  | Set_Mic_Mute bool
  | Open_Output_Stream nat u32 u32 nat
  | Close_Output_Stream nat
  | Open_Input_Stream nat u32 nat nat u32 u32 int
  | Close_Input_Stream nat

text \<open>The samples change the buffers of a stream and the state of its PCM devices.\<close>

definition only_samples_out :: "stream_out \<Rightarrow> stream_out \<Rightarrow> bool" where
  "only_samples_out out out' \<longleftrightarrow>
     out' = out\<lparr>so_pcm_dev_list := so_pcm_dev_list out', so_written := so_written out', so_proc_buf_size := so_proc_buf_size out'\<rparr> \<and>
     (so_pcm_dev_list out' = None) = (so_pcm_dev_list out = None)"

definition only_samples_in :: "stream_in \<Rightarrow> stream_in \<Rightarrow> bool" where
  "only_samples_in s s' \<longleftrightarrow>
     s' = s\<lparr>si_read_status := si_read_status s', si_read_buf := si_read_buf s', si_read_buf_size := si_read_buf_size s',
       si_read_buf_frames := si_read_buf_frames s', si_proc_buf_size := si_proc_buf_size s', si_proc_buf_in := si_proc_buf_in s',
       si_proc_buf_frames := si_proc_buf_frames s'\<rparr>"

fun hal_apply :: "audio_env \<Rightarrow> hal_call \<Rightarrow> hal_state \<Rightarrow> hal_fault + hal_state" where
  "hal_apply E (Out_Write_Start a ans) (ad, w) = and_then (out_write_start E ad a ans) (\<lambda>(_, ad', reset). Inr (ad', if reset = None then w else reset))"
| "hal_apply E (Out_Samples a out) (ad, w) = Inr (put_out a out ad, w)"
| "hal_apply E (Out_Standby a) (ad, w) = and_then (out_standby ad a) (\<lambda>ad'. Inr (ad', w))"
| "hal_apply E (Out_Set_Parameters a routing) (ad, w) = and_then (out_set_parameters E ad a routing) (\<lambda>(ad', reset). Inr (ad', if reset = None then w else reset))"
| "hal_apply E Force_Input_Standby (ad, w) =
     (case w of None \<Rightarrow> Inr (ad, w) | Some b \<Rightarrow> and_then (force_input_standby ad b) (\<lambda>ad'. Inr (ad', None)))"
| "hal_apply E (In_Read_Start a ans) (ad, w) = and_then (in_read_start E ad a ans) (\<lambda>(_, ad'). Inr (ad', w))"
| "hal_apply E (In_Samples a s) (ad, w) = Inr (put_in a s ad, w)"
| "hal_apply E (In_Standby a) (ad, w) = and_then (in_standby ad a) (\<lambda>ad'. Inr (ad', w))"
| "hal_apply E (In_Set_Parameters a source routing) (ad, w) = and_then (in_set_parameters E ad a source routing) (\<lambda>(_, ad'). Inr (ad', w))"
| "hal_apply E (In_Effect cmd descriptor a e enable) (ad, w) =
     and_then (add_remove_audio_effect (ae_h E) cmd descriptor ad a e enable) (\<lambda>(_, ad'). Inr (ad', w))"
| "hal_apply E (Set_Parameters tty bt_nrec screen_on rotation) (ad, w) =
     and_then (adev_set_parameters E ad tty bt_nrec screen_on rotation) (\<lambda>(_, ad'). Inr (ad', w))"
| "hal_apply E (Set_Mode mode) (ad, w) = Inr (adev_set_mode mode ad, w)"
| "hal_apply E (Set_Mic_Mute state) (ad, w) = Inr (adev_set_mic_mute state ad, w)"
| "hal_apply E (Open_Output_Stream a devices flags format) (ad, w) = Inr (snd (adev_open_output_stream (ae_h E) ad a devices flags format), w)"
| "hal_apply E (Close_Output_Stream a) (ad, w) = and_then (adev_close_output_stream ad a) (\<lambda>ad'. Inr (ad', w))"
| "hal_apply E (Open_Input_Stream a devices rate format channels flags source) (ad, w) =
     Inr (snd (adev_open_input_stream (ae_h E) ad a devices rate format channels flags source), w)"
| "hal_apply E (Close_Input_Stream a) (ad, w) = and_then (adev_close_input_stream ad a) (\<lambda>ad'. Inr (ad', w))"

text \<open>
  When a step can be taken: the lock on the inputs is free where the code takes it, and the client keeps the contract. A stream
  is used between opening and closing, an address that is allocated is not in use, a stream does not start while
  another stream of its use case runs, the primary output is not closed and is not opened while its use case runs, and a resampler
  can be made.
\<close>

fun hal_enabled :: "audio_env \<Rightarrow> hal_call \<Rightarrow> hal_state \<Rightarrow> bool" where
  "hal_enabled E (Out_Write_Start a ans) (ad, w) =
     (case ad_outs ad a of None \<Rightarrow> False | Some out \<Rightarrow> so_standby out \<longrightarrow> w = None \<and> get_usecase_from_id ad (so_usecase out) = None)"
| "hal_enabled E (Out_Samples a out') (ad, w) = (case ad_outs ad a of None \<Rightarrow> False | Some out \<Rightarrow> only_samples_out out out')"
| "hal_enabled E (Out_Standby a) (ad, w) = (ad_outs ad a \<noteq> None)"
| "hal_enabled E (Out_Set_Parameters a routing) (ad, w) = (ad_outs ad a \<noteq> None \<and> w = None)"
| "hal_enabled E Force_Input_Standby (ad, w) = (w \<noteq> None)"
| "hal_enabled E (In_Read_Start a ans) (ad, w) =
     (case ad_ins ad a of
        None \<Rightarrow> False
      | Some s \<Rightarrow> si_standby s \<longrightarrow> w = None \<and> get_usecase_from_id ad (si_usecase s) = None \<and> fst (sa_resampler ans) = 0)"
| "hal_enabled E (In_Samples a s') (ad, w) = (case ad_ins ad a of None \<Rightarrow> False | Some s \<Rightarrow> only_samples_in s s')"
| "hal_enabled E (In_Standby a) (ad, w) = (ad_ins ad a \<noteq> None \<and> w = None)"
| "hal_enabled E (In_Set_Parameters a source routing) (ad, w) = (ad_ins ad a \<noteq> None \<and> w = None)"
| "hal_enabled E (In_Effect cmd descriptor a e enable) (ad, w) = (ad_ins ad a \<noteq> None \<and> w = None)"
| "hal_enabled E (Set_Parameters tty bt_nrec screen_on rotation) (ad, w) = True"
| "hal_enabled E (Set_Mode mode) (ad, w) = True"
| "hal_enabled E (Set_Mic_Mute state) (ad, w) = True"
| "hal_enabled E (Open_Output_Stream a devices flags format) (ad, w) = (ad_outs ad a = None \<and> primary_free (ae_h E) ad flags)"
| "hal_enabled E (Close_Output_Stream a) (ad, w) = (ad_outs ad a \<noteq> None \<and> ad_primary_output ad \<noteq> Some a)"
| "hal_enabled E (Open_Input_Stream a devices rate format channels flags source) (ad, w) = (ad_ins ad a = None)"
| "hal_enabled E (Close_Input_Stream a) (ad, w) = (ad_ins ad a \<noteq> None \<and> w = None)"

definition sys_inv :: "hal_state \<Rightarrow> bool" where
  "sys_inv st \<longleftrightarrow> (case st of (ad, w) \<Rightarrow> hal_inv ad \<and> (w = None \<or> w = ad_active_input ad))"

text \<open>Every step that is possible ends without a fault, and keeps the invariant.\<close>

definition steps_well :: "audio_env \<Rightarrow> hal_call \<Rightarrow> hal_state \<Rightarrow> bool" where
  "steps_well E c st \<longleftrightarrow> (\<exists>st'. hal_apply E c st = Inr st' \<and> sys_inv st')"

lemma out_steps:
  assumes "env_ok E" "sys_inv (ad, w)"
  shows "hal_enabled E (Out_Write_Start a ans) (ad, w) \<Longrightarrow> steps_well E (Out_Write_Start a ans) (ad, w)"
    "hal_enabled E (Out_Samples a out') (ad, w) \<Longrightarrow> steps_well E (Out_Samples a out') (ad, w)"
    "hal_enabled E (Out_Standby a) (ad, w) \<Longrightarrow> steps_well E (Out_Standby a) (ad, w)"
    "hal_enabled E (Out_Set_Parameters a routing) (ad, w) \<Longrightarrow> steps_well E (Out_Set_Parameters a routing) (ad, w)"
proof -
  have h: "hal_inv ad" and w: "w = None \<or> w = ad_active_input ad" using assms(2) by (simp_all add: sys_inv_def)
  {
    assume "hal_enabled E (Out_Write_Start a ans) (ad, w)"
    then obtain out where out: "ad_outs ad a = Some out" "so_standby out \<Longrightarrow> get_usecase_from_id ad (so_usecase out) = None"
      by (auto split: option.splits)
    obtain r ad' reset where "out_write_start E ad a ans = Inr (r, ad', reset)" "hal_inv ad'" "reset = None \<or> reset = ad_active_input ad'"
        "ad_active_input ad' = ad_active_input ad"
      using out_write_start_hal [OF h assms(1) out] by metis
    then show "steps_well E (Out_Write_Start a ans) (ad, w)" using w by (auto simp: steps_well_def sys_inv_def)
  next
    assume "hal_enabled E (Out_Samples a out') (ad, w)"
    then obtain out where out: "ad_outs ad a = Some out" "only_samples_out out out'" by (auto split: option.splits)
    have eq: "so_usecase out' = so_usecase out \<and> so_sample_rate out' = so_sample_rate out \<and> so_standby out' = so_standby out"
      using out(2) unfolding only_samples_out_def by (cases out, cases out') simp
    have "(so_pcm_dev_list out' = None) = (so_pcm_dev_list out = None)" using out(2) unfolding only_samples_out_def by blast
    then have "hal_inv (put_out a out' ad)" using eq by (intro put_out_hal [OF h out(1), of out']) simp_all
    then show "steps_well E (Out_Samples a out') (ad, w)" using w by (auto simp: steps_well_def sys_inv_def)
  next
    assume "hal_enabled E (Out_Standby a) (ad, w)"
    then obtain out where "ad_outs ad a = Some out" by auto
    then obtain ad' where "out_standby ad a = Inr ad'" "hal_inv ad'" "same_inputs ad ad'" using out_standby_hal [OF h] by metis
    then show "steps_well E (Out_Standby a) (ad, w)" using w by (auto simp: steps_well_def sys_inv_def same_inputs_def)
  next
    assume "hal_enabled E (Out_Set_Parameters a routing) (ad, w)"
    then obtain out where "ad_outs ad a = Some out" by auto
    then obtain ad' reset where "out_set_parameters E ad a routing = Inr (ad', reset)" "hal_inv ad'" "keeps_inputs ad ad'"
        "reset = None \<or> reset = ad_active_input ad'"
      using out_set_parameters_hal [OF h assms(1)] by metis
    then show "steps_well E (Out_Set_Parameters a routing) (ad, w)" using w by (auto simp: steps_well_def sys_inv_def keeps_inputs_def)
  }
qed

lemma force_step:
  assumes "sys_inv (ad, w)" "hal_enabled E Force_Input_Standby (ad, w)"
  shows "steps_well E Force_Input_Standby (ad, w)"
proof -
  obtain b where "w = Some b" using assms(2) by (cases w) simp_all
  then have b: "w = Some b" "ad_active_input ad = Some b" "hal_inv ad" using assms(1) by (simp_all add: sys_inv_def)
  then have "capturing ad b" by (simp add: hal_inv_def active_ok_def)
  then obtain s where "ad_ins ad b = Some s" using unallocated(2) [OF hal_parts(1) [OF b(3)], of b] by (cases "ad_ins ad b") auto
  then obtain ad' where "do_in_standby_l ad b = Inr ad'" "hal_inv ad'" using do_in_standby_any [OF b(3)] by metis
  then show ?thesis using b by (auto simp: steps_well_def sys_inv_def force_input_standby_def)
qed

lemma in_steps:
  assumes "env_ok E" "sys_inv (ad, w)"
  shows "hal_enabled E (In_Read_Start a ans) (ad, w) \<Longrightarrow> steps_well E (In_Read_Start a ans) (ad, w)"
    "hal_enabled E (In_Samples a s') (ad, w) \<Longrightarrow> steps_well E (In_Samples a s') (ad, w)"
    "hal_enabled E (In_Standby a) (ad, w) \<Longrightarrow> steps_well E (In_Standby a) (ad, w)"
    "hal_enabled E (In_Set_Parameters a source routing) (ad, w) \<Longrightarrow> steps_well E (In_Set_Parameters a source routing) (ad, w)"
    "hal_enabled E (In_Effect cmd descriptor a e enable) (ad, w) \<Longrightarrow> steps_well E (In_Effect cmd descriptor a e enable) (ad, w)"
proof -
  have h: "hal_inv ad" and w: "w = None \<or> w = ad_active_input ad" using assms(2) by (simp_all add: sys_inv_def)
  {
    assume en: "hal_enabled E (In_Read_Start a ans) (ad, w)"
    then obtain s where s: "ad_ins ad a = Some s" "si_standby s \<Longrightarrow> get_usecase_from_id ad (si_usecase s) = None"
        "si_standby s \<Longrightarrow> fst (sa_resampler ans) = 0"
      by (auto split: option.splits)
    obtain r ad' where "in_read_start E ad a ans = Inr (r, ad')" "hal_inv ad'" "\<not> si_standby s \<Longrightarrow> ad' = ad"
      using in_read_start_hal [OF h assms(1) s] by metis
    then show "steps_well E (In_Read_Start a ans) (ad, w)" using w en s(1) by (auto simp: steps_well_def sys_inv_def)
  next
    assume "hal_enabled E (In_Samples a s') (ad, w)"
    then obtain s where s: "ad_ins ad a = Some s" "only_samples_in s s'" by (auto split: option.splits)
    have "si_usecase s' = si_usecase s \<and> si_pcm_dev_list s' = si_pcm_dev_list s \<and> si_standby s' = si_standby s"
      using s(2) unfolding only_samples_in_def by (cases s, cases s') simp
    then have "hal_inv (put_in a s' ad)" using put_in_hal [OF h s(1), of s'] by simp
    then show "steps_well E (In_Samples a s') (ad, w)" using w by (auto simp: steps_well_def sys_inv_def)
  next
    assume en: "hal_enabled E (In_Standby a) (ad, w)"
    then obtain s where "ad_ins ad a = Some s" by auto
    then obtain ad' where "in_standby ad a = Inr ad'" "hal_inv ad'" using in_standby_hal [OF h] by metis
    then show "steps_well E (In_Standby a) (ad, w)" using en by (auto simp: steps_well_def sys_inv_def)
  next
    assume en: "hal_enabled E (In_Set_Parameters a source routing) (ad, w)"
    then obtain s where "ad_ins ad a = Some s" by auto
    then obtain r ad' where "in_set_parameters E ad a source routing = Inr (r, ad')" "hal_inv ad'" using in_set_parameters_hal [OF h assms(1)] by metis
    then show "steps_well E (In_Set_Parameters a source routing) (ad, w)" using en by (auto simp: steps_well_def sys_inv_def)
  next
    assume en: "hal_enabled E (In_Effect cmd descriptor a e enable) (ad, w)"
    then obtain s where "ad_ins ad a = Some s" by auto
    then obtain r ad' where "add_remove_audio_effect (ae_h E) cmd descriptor ad a e enable = Inr (r, ad')" "hal_inv ad'" using effect_hal [OF h] by metis
    then show "steps_well E (In_Effect cmd descriptor a e enable) (ad, w)" using en by (auto simp: steps_well_def sys_inv_def)
  }
qed

lemma device_steps:
  assumes "env_ok E" "sys_inv (ad, w)"
  shows "steps_well E (Set_Parameters tty bt_nrec screen_on rotation) (ad, w)" "steps_well E (Set_Mode mode) (ad, w)" "steps_well E (Set_Mic_Mute state) (ad, w)"
    "hal_enabled E (Open_Output_Stream a devices flags format) (ad, w) \<Longrightarrow> steps_well E (Open_Output_Stream a devices flags format) (ad, w)"
    "hal_enabled E (Close_Output_Stream a) (ad, w) \<Longrightarrow> steps_well E (Close_Output_Stream a) (ad, w)"
    "hal_enabled E (Open_Input_Stream a devices rate format channels flags source) (ad, w) \<Longrightarrow>
       steps_well E (Open_Input_Stream a devices rate format channels flags source) (ad, w)"
    "hal_enabled E (Close_Input_Stream a) (ad, w) \<Longrightarrow> steps_well E (Close_Input_Stream a) (ad, w)"
proof -
  have h: "hal_inv ad" and w: "w = None \<or> w = ad_active_input ad" using assms(2) by (simp_all add: sys_inv_def)
  obtain r ad' where "adev_set_parameters E ad tty bt_nrec screen_on rotation = Inr (r, ad')" "hal_inv ad'" "keeps_inputs ad ad'"
    using adev_set_parameters_hal [OF h assms(1)] by metis
  then show "steps_well E (Set_Parameters tty bt_nrec screen_on rotation) (ad, w)" using w by (auto simp: steps_well_def sys_inv_def keeps_inputs_def)
  show "steps_well E (Set_Mode mode) (ad, w)" "steps_well E (Set_Mic_Mute state) (ad, w)"
    using h w by (auto simp: steps_well_def sys_inv_def adev_set_mode_def adev_set_mic_mute_def)
  {
    assume "hal_enabled E (Open_Output_Stream a devices flags format) (ad, w)"
    then have "ad_outs ad a = None" "primary_free (ae_h E) ad flags" by simp_all
    from open_output_hal [OF h this] obtain r ad' where "adev_open_output_stream (ae_h E) ad a devices flags format = (r, ad')" "hal_inv ad'"
      "ad_active_input ad' = ad_active_input ad" by metis
    then show "steps_well E (Open_Output_Stream a devices flags format) (ad, w)" using w by (auto simp: steps_well_def sys_inv_def)
  next
    assume "hal_enabled E (Close_Output_Stream a) (ad, w)"
    then obtain out where out: "ad_outs ad a = Some out" "ad_primary_output ad \<noteq> Some a" by auto
    from close_output_hal [OF h this] obtain ad' where "adev_close_output_stream ad a = Inr ad'" "hal_inv ad'" "ad_active_input ad' = ad_active_input ad" by metis
    then show "steps_well E (Close_Output_Stream a) (ad, w)" using w by (auto simp: steps_well_def sys_inv_def)
  next
    assume "hal_enabled E (Open_Input_Stream a devices rate format channels flags source) (ad, w)"
    then have "ad_ins ad a = None" by simp
    from open_input_stream_hal [OF h this] obtain r ad' where "adev_open_input_stream (ae_h E) ad a devices rate format channels flags source = (r, ad')"
      "hal_inv ad'" "ad_active_input ad' = ad_active_input ad" by metis
    then show "steps_well E (Open_Input_Stream a devices rate format channels flags source) (ad, w)" using w by (auto simp: steps_well_def sys_inv_def)
  next
    assume en: "hal_enabled E (Close_Input_Stream a) (ad, w)"
    then obtain s where "ad_ins ad a = Some s" by auto
    from close_input_stream_hal [OF h this] obtain ad' where "adev_close_input_stream ad a = Inr ad'" "hal_inv ad'" by metis
    then show "steps_well E (Close_Input_Stream a) (ad, w)" using en by (auto simp: steps_well_def sys_inv_def)
  }
qed

lemma hal_step:
  assumes "env_ok E" "sys_inv st" "hal_enabled E c st"
  shows "steps_well E c st"
proof -
  obtain ad w where st: "st = (ad, w)" by (cases st)
  note rules = out_steps [OF assms(1), of ad w] in_steps [OF assms(1), of ad w] device_steps [OF assms(1), of ad w] force_step [of ad w E]
  show ?thesis using assms(2,3) unfolding st by (cases c) (simp_all only: rules)
qed

subsection \<open>Reachable states\<close>

inductive hal_reachable :: "audio_env \<Rightarrow> hal_state \<Rightarrow> bool" for E where
  opened: "adev_open (ae_h E) opens route_init trigger = Inr ad \<Longrightarrow> hal_reachable E (ad, None)"
| call: "hal_reachable E st \<Longrightarrow> hal_enabled E c st \<Longrightarrow> hal_apply E c st = Inr st' \<Longrightarrow> hal_reachable E st'"

text \<open>
  What a client relies on: a call that is enabled in a good state ends without a fault in a good state.
\<close>

locale guarded_calls =
  fixes good :: "'s \<Rightarrow> bool" and enabled :: "'c \<Rightarrow> 's \<Rightarrow> bool" and run_call :: "'c \<Rightarrow> 's \<Rightarrow> 'e + 's"
  assumes call_ends: "good st \<Longrightarrow> enabled c st \<Longrightarrow> \<exists>st'. run_call c st = Inr st' \<and> good st'"
begin

lemma call_result: "good st \<Longrightarrow> enabled c st \<Longrightarrow> run_call c st = Inr st' \<Longrightarrow> good st'"
  using call_ends by fastforce

lemma call_no_fault: "good st \<Longrightarrow> enabled c st \<Longrightarrow> run_call c st \<noteq> Inl e"
  using call_ends by fastforce

end

interpretation hal: guarded_calls "\<lambda>st. env_ok E \<and> sys_inv st" "hal_enabled E" "hal_apply E" for E
  by unfold_locales (use hal_step in \<open>auto simp: steps_well_def\<close>)

lemma hal_reachable_inv:
  assumes "hal_reachable E st" "env_ok E"
  shows "sys_inv st"
  using assms
proof (induction rule: hal_reachable.induct)
  case (opened opens route_init trigger ad)
  then show ?case using adev_open_hal by (simp add: sys_inv_def)
next
  case (call st c st')
  then show ?case using hal.call_result [of E st c st'] by simp
qed

subsection \<open>An example of a system\<close>

text \<open>Values for the constants of the system, as its headers have them.\<close>

definition std_audio_h :: audio_h where
  "std_audio_h = \<lparr>AUDIO_DEVICE_NONE = 0, AUDIO_DEVICE_BIT_IN = 0x80000000, AUDIO_DEVICE_OUT_EARPIECE = 1, AUDIO_DEVICE_OUT_SPEAKER = 2,
     AUDIO_DEVICE_OUT_WIRED_HEADSET = 4, AUDIO_DEVICE_OUT_WIRED_HEADPHONE = 8, AUDIO_DEVICE_IN_COMMUNICATION = 0x80000001,
     AUDIO_DEVICE_IN_BUILTIN_MIC = 0x80000004, AUDIO_DEVICE_IN_WIRED_HEADSET = 0x80000010, AUDIO_DEVICE_IN_AUX_DIGITAL = 0x80000020,
     AUDIO_DEVICE_IN_VOICE_CALL = 0x80000040, AUDIO_DEVICE_IN_BACK_MIC = 0x80000080, AUDIO_SOURCE_DEFAULT = 0, AUDIO_SOURCE_MIC = 1,
     AUDIO_SOURCE_CAMCORDER = 5, AUDIO_SOURCE_VOICE_RECOGNITION = 6, AUDIO_SOURCE_VOICE_COMMUNICATION = 7, AUDIO_SOURCE_HOTWORD = 1999,
     AUDIO_MODE_NORMAL = 0, AUDIO_MODE_IN_CALL = 2, AUDIO_MODE_IN_COMMUNICATION = 3, AUDIO_CHANNEL_IN_MONO = 0x10,
     AUDIO_CHANNEL_IN_FRONT_BACK = 0x30, AUDIO_CHANNEL_INDEX_MASK_4 = 0x8000000F, AUDIO_CHANNEL_OUT_STEREO = 3, AUDIO_FORMAT_PCM_16_BIT = 1,
     AUDIO_OUTPUT_FLAG_PRIMARY = 2, AUDIO_OUTPUT_FLAG_DEEP_BUFFER = 8, AUDIO_INPUT_FLAG_FAST = 1,
     audio_channel_count_from_in_mask = (\<lambda>m. popcount (m AND 0x3FFFFFFF)), audio_channel_count_from_out_mask = (\<lambda>m. popcount (m AND 0x3FFFFFFF)),
     audio_bytes_per_sample = (\<lambda>f. 2)\<rparr>"

definition std_env :: audio_env where
  "std_env = \<lparr>ae_h = std_audio_h,
     ae_as_input = (\<lambda>out. new_stream_in std_audio_h (so_config out) 0 0 0 0 (AUDIO_SOURCE_DEFAULT std_audio_h)), ae_stack = Suc (Suc 0)\<rparr>"

definition std_device :: audio_device where
  "std_device = (new_device std_audio_h)\<lparr>ad_mixer_list := [SOUND_CARD]\<rparr>"

definition opens_ok :: "nat \<Rightarrow> open_answer" where
  "opens_ok k = \<lparr>oa_dsp = False, oa_pcm = Pcm_Opened 7, oa_resampler = (0, False)\<rparr>"

lemma std_env_ok: "env_ok std_env"
  by (simp add: env_ok_def std_env_def std_audio_h_def new_stream_in_def)

lemmas pcm_eval = pcm_devices_def pcm_device_playback_hs_def pcm_device_capture_def pcm_device_playback_spk_def pcm_device_capture_loopback_aec_def
  pcm_device_playback_spk_and_headset_def pcm_device_hotword_streaming_def usecase_type_defs

lemma open_mixer_first: "opens k \<Longrightarrow> open_mixer opens n k"
  by (cases n) simp_all

lemma std_opened: "adev_open (ae_h std_env) (\<lambda>_ _. True) (\<lambda>_. True) False = Inr std_device"
  by (simp add: adev_open_def mixer_init_def std_device_def new_device_def pcm_eval adev_get_mixer_for_card_def std_env_def open_mixer_first)

lemma std_profile:
  "get_pcm_device std_audio_h (pcm_devices std_audio_h) PCM_PLAYBACK 2 = Some 2"
  "get_pcm_device std_audio_h (pcm_devices std_audio_h) VOICE_CALL 2 = None"
  "get_pcm_device std_audio_h (pcm_devices std_audio_h) PCM_CAPTURE 0x80000004 = Some 1"
proof -
  have "[0..<length (pcm_devices std_audio_h)] = [0, 1, 2, 3, 4, 5]" by (simp add: pcm_devices_def upt_rec)
  then show "get_pcm_device std_audio_h (pcm_devices std_audio_h) PCM_PLAYBACK 2 = Some 2"
      "get_pcm_device std_audio_h (pcm_devices std_audio_h) VOICE_CALL 2 = None"
      "get_pcm_device std_audio_h (pcm_devices std_audio_h) PCM_CAPTURE 0x80000004 = Some 1"
    by (simp_all add: get_pcm_device_def pcm_eval std_audio_h_def)
qed

definition std_primary :: audio_device where
  "std_primary = (put_out 1 (new_stream_out std_audio_h playback_config 2 2 1) std_device)\<lparr>ad_primary_output := Some 1\<rparr>"

lemma std_open_output: "adev_open_output_stream std_audio_h std_device 1 2 2 1 = (0, std_primary)"
proof -
  have "pp_config (pcm_devices std_audio_h ! 2) = playback_config" by (simp add: pcm_eval)
  moreover have "ad_profiles std_device = pcm_devices std_audio_h" "ad_primary_output std_device = None" "ad_usecase_list std_device = []"
    by (simp_all add: std_device_def new_device_def)
  moreover have "has 2 (AUDIO_OUTPUT_FLAG_PRIMARY std_audio_h)" "AUDIO_DEVICE_NONE std_audio_h \<noteq> 2" by (simp_all add: std_audio_h_def has_def)
  ultimately show ?thesis 
    by (simp add: adev_open_output_stream_def std_profile std_primary_def Let_def get_usecase_from_id_def)
qed

lemma std_speaker: "get_output_snd_device std_audio_h ad 2 = SND_DEVICE_OUT_SPEAKER" if "ad_mode ad = 0"
proof -
  have "popcount 2 = 1" by code_simp
  then show ?thesis using that by (simp add: get_output_snd_device_def plain_output_device_def headphones_def has_def std_audio_h_def)
qed

lemmas start_eval = out_write_start_def start_output_stream_def enable_output_path_l_def uc_select_pcm_devices_def link_mixer_def select_playback_def
   reselect_input_def running_input_def switch_devices_def call_devices_def get_usecase_from_id_def get_usecase_from_type_def get_out_def
   set_devices_def change_usecase_def enable_snd_device_def out_open_pcm_devices_def open_one_def add_opened_def new_pcm_device_def input_to_reset_def
   adev_get_mixer_for_card_def uc_get_mixer_for_card_def add_usecase_def new_usecase_def opens_ok_def open_handle_def put_out_def

lemma std_sel:
  "AUDIO_OUTPUT_FLAG_DEEP_BUFFER std_audio_h = 8" "AUDIO_OUTPUT_FLAG_PRIMARY std_audio_h = 2" "AUDIO_MODE_NORMAL std_audio_h = 0"
  "AUDIO_MODE_IN_CALL std_audio_h = 2" "AUDIO_DEVICE_NONE std_audio_h = 0" "AUDIO_DEVICE_BIT_IN std_audio_h = 0x80000000"
  by (simp_all add: std_audio_h_def)

lemma std_has: "PCM_PLAYBACK AND (PCM_CAPTURE OR VOICE_CALL) = 0" "USECASE_AUDIO_PLAYBACK \<noteq> USECASE_AUDIO_CAPTURE_HOTWORD"
  by (simp_all add: usecase_type_defs usecase_defs)

lemma std_cards: "pp_card (pcm_devices std_audio_h ! 2) = SOUND_CARD" "pp_config (pcm_devices std_audio_h ! 2) = playback_config"
  by (simp_all add: pcm_eval)

lemma std_name: "get_snd_device_name SND_DEVICE_OUT_SPEAKER = Some ''speaker''" "SND_DEVICE_OUT_SPEAKER \<noteq> SND_DEVICE_NONE" "SND_DEVICE_OUT_SPEAKER < SND_DEVICE_MAX"
  by (simp_all add: get_snd_device_name_def snd_device_defs device_table_def)

text \<open>The primary output plays on the speaker.\<close>

definition std_playing :: audio_device where
  "std_playing = (case out_write_start std_env std_primary 1 opens_ok of Inr (_, ad, _) \<Rightarrow> ad | Inl _ \<Rightarrow> std_primary)"

lemma std_start:
  "\<exists>ad. out_write_start std_env std_primary 1 opens_ok = Inr (0, ad, None) \<and> ad_pcms ad = [7] \<and>
     (\<exists>out. ad_outs ad 1 = Some out \<and> so_pcm_dev_list out = Some [(new_pcm_device 2)\<lparr>pd_pcm := Some 7\<rparr>]) \<and> ad_profiles ad = pcm_devices std_audio_h \<and>
     map uc_out_snd_device (ad_usecase_list ad) = [SND_DEVICE_OUT_SPEAKER] \<and> ad_primary_output ad = Some 1 \<and> \<not> ad_in_call ad"
  by (simp add: start_eval Let_def std_primary_def std_env_def new_stream_out_def has_def std_device_def std_profile new_device_def std_sel std_cards
      std_speaker std_has std_name)

lemma std_playing_facts:
  "out_write_start std_env std_primary 1 opens_ok = Inr (0, std_playing, None)" "ad_pcms std_playing = [7]" "ad_profiles std_playing = pcm_devices std_audio_h"
  "\<exists>out. ad_outs std_playing 1 = Some out \<and> so_pcm_dev_list out = Some [(new_pcm_device 2)\<lparr>pd_pcm := Some 7\<rparr>]"
  "map uc_out_snd_device (ad_usecase_list std_playing) = [SND_DEVICE_OUT_SPEAKER]" "ad_primary_output std_playing = Some 1" "\<not> ad_in_call std_playing"
  using std_start by (auto simp: std_playing_def)

lemma std_primary_reachable: "hal_reachable std_env (std_primary, None)"
proof (rule hal_reachable.call [OF hal_reachable.opened [OF std_opened]])
  show "hal_enabled std_env (Open_Output_Stream 1 2 2 1) (std_device, None)"
    by (simp add: std_device_def new_device_def primary_free_def get_usecase_from_id_def)
  show "hal_apply std_env (Open_Output_Stream 1 2 2 1) (std_device, None) = Inr (std_primary, None)"
    using std_open_output by (simp add: std_env_def)
qed

lemma std_playing_reachable: "hal_reachable std_env (std_playing, None)"
proof (rule hal_reachable.call [OF std_primary_reachable])
  show "hal_enabled std_env (Out_Write_Start 1 opens_ok) (std_primary, None)"
    by (simp add: std_primary_def std_device_def new_device_def get_usecase_from_id_def put_out_def)
  show "hal_apply std_env (Out_Write_Start 1 opens_ok) (std_primary, None) = Inr (std_playing, None)"
    using std_playing_facts(1) by simp
qed

subsection \<open>Properties\<close>

lemma users_filter:
  assumes "devices_ok ad" "SND_DEVICE_MIN \<le> d"
  shows "users d ad = int (length (filter (\<lambda>u. uc_out_snd_device u = d \<or> uc_in_snd_device u = d) (ad_usecase_list ad)))"
proof -
  define P where "P u = (uc_out_snd_device u = d \<or> uc_in_snd_device u = d)" for u :: audio_usecase
  have "uses d u = of_bool (P u)" if "u \<in> set (ad_usecase_list ad)" for u
    using assms that by (auto simp: P_def uses_def devices_ok_def out_range_def in_range_def snd_device_defs)
  then have "users d ad = sum_list (map (\<lambda>u. of_bool (P u)) (ad_usecase_list ad))" by (simp add: users_def cong: map_cong)
  moreover have "sum_list (map (\<lambda>u. of_bool (P u)) xs) = int (length (filter P xs))" for xs by (induction xs) simp_all
  ultimately have "users d ad = int (length (filter P (ad_usecase_list ad)))" by simp
  then show ?thesis unfolding P_def .
qed



lemma stream_use_cases:
  "playing ad a = (\<exists>u \<in> set (ad_usecase_list ad). uc_type u = PCM_PLAYBACK \<and> uc_stream u = Out_Stream a)"
  "capturing ad b = (\<exists>u \<in> set (ad_usecase_list ad). uc_stream u = In_Stream b)"
  unfolding playing_def capturing_def uc_keys_def by force+





text \<open>
  One stream for each use case. Opening an output is refused while its use case runs, but a second output that was opened
  before it ran is not: when it starts, the node of the mixer card for that use case is put into a second list while it is
  still in the first.
\<close>

theorem second_stream_breaks_list:
  assumes "ad_outs ad a = Some out" "so_standby out" "get_pcm_device (ae_h E) (ad_profiles ad) PCM_PLAYBACK (so_devices out) = Some p"
    and "adev_get_mixer_for_card ad (pp_card (ad_profiles ad ! p)) = Some m"
    and "get_usecase_from_id ad (so_usecase out) = Some u" "m \<in> set (uc_mixer_list u)"
  shows "out_write_start E ad a ans = Inl Node_In_Two_Lists"
proof -
  have u: "u \<in> set (ad_usecase_list ad)" "uc_id u = so_usecase out" using assms(5) find_in_set by (fastforce simp: get_usecase_from_id_def)+
  then have "link_mixer ad ((new_usecase (so_usecase out) PCM_PLAYBACK (Out_Stream a) (so_devices out))\<lparr>uc_mixer_list := []\<rparr>) (pp_card (ad_profiles ad ! p)) =
      Inl Node_In_Two_Lists"
    using assms(4,6) by (auto simp: link_mixer_def new_usecase_def)
  then show ?thesis
    using assms(1-3) by (simp add: out_write_start_def get_out_def start_output_stream_def enable_output_path_l_def uc_select_pcm_devices_def new_usecase_def
        uc_get_mixer_for_card_def Let_def)
qed

definition std_two_outputs :: audio_device where
  "std_two_outputs = put_out 2 (new_stream_out std_audio_h playback_config 2 0 1) std_primary"

theorem second_stream_breaks_list_witness:
  "\<exists>ad. out_write_start std_env std_two_outputs 1 opens_ok = Inr (0, ad, None) \<and> out_write_start std_env ad 2 opens_ok = Inl Node_In_Two_Lists"
proof -
  have "\<exists>ad. out_write_start std_env std_two_outputs 1 opens_ok = Inr (0, ad, None) \<and>
      ad_outs ad 2 = Some (new_stream_out std_audio_h playback_config 2 0 1) \<and> ad_profiles ad = pcm_devices std_audio_h \<and> ad_mixer_list ad = [SOUND_CARD] \<and>
      (\<exists>u. get_usecase_from_id ad USECASE_AUDIO_PLAYBACK = Some u \<and> SOUND_CARD \<in> set (uc_mixer_list u))"
    by (simp add: start_eval Let_def std_two_outputs_def std_primary_def std_env_def new_stream_out_def has_def std_device_def std_profile new_device_def
        std_sel std_cards std_speaker std_has std_name)
  then obtain ad u where ad: "out_write_start std_env std_two_outputs 1 opens_ok = Inr (0, ad, None)"
      "ad_outs ad 2 = Some (new_stream_out std_audio_h playback_config 2 0 1)" "ad_profiles ad = pcm_devices std_audio_h" "ad_mixer_list ad = [SOUND_CARD]"
      "get_usecase_from_id ad USECASE_AUDIO_PLAYBACK = Some u" "SOUND_CARD \<in> set (uc_mixer_list u)"
    by blast
  have "out_write_start std_env ad 2 opens_ok = Inl Node_In_Two_Lists"
    by (rule second_stream_breaks_list [OF ad(2), where p = 2 and m = SOUND_CARD and u = u])
      (use ad(3-6) in \<open>simp_all add: std_env_def new_stream_out_def std_profile std_sel std_cards has_def adev_get_mixer_for_card_def\<close>)
  then show ?thesis using ad(1) by blast
qed

lemma get_pcm_device_update:
  assumes "pp_type q = pp_type (profiles ! p)" "pp_devices q = pp_devices (profiles ! p)" "p < length profiles"
  shows "get_pcm_device A (profiles[p := q]) t d = get_pcm_device A profiles t d"
proof -
  have "(\<lambda>i. pp_type (profiles[p := q] ! i) = t \<and> e AND pp_devices (profiles[p := q] ! i) = e) =
      (\<lambda>i. pp_type (profiles ! i) = t \<and> e AND pp_devices (profiles ! i) = e)" for e
    using assms by (auto simp: fun_eq_iff nth_list_update)
  then show ?thesis by (simp add: get_pcm_device_def Let_def)
qed

lemma input_of_busy_use_case:
  assumes "base_inv ad" "ad_ins ad a = Some s" "si_standby s" "(si_usecase s, t, st, [SOUND_CARD]) \<in> set (uc_keys ad)"
    and "get_pcm_device (ae_h E) (ad_profiles ad) (si_usecase_type s) (si_devices s) = Some p"
  shows "in_read_start E ad a ans = Inl Node_In_Two_Lists"
proof -
  have card: "pp_card (ad_profiles ad ! p) = SOUND_CARD" using get_pcm_device_Some [OF assms(5)] assms(1) by (auto simp: base_inv_def profiles_ok_def list_all_length)
  obtain v where v: "v \<in> set (ad_usecase_list ad)" "uc_id v = si_usecase s" "uc_mixer_list v = [SOUND_CARD]" using assms(4) by (auto simp: uc_keys_def)
  have "ad_mixer_list ad = [SOUND_CARD]" using assms(1) by (simp add: base_inv_def table_inv_def)
  then show ?thesis using assms(2,3,5) v card
    by (auto simp: in_read_start_def get_in_def start_input_stream_def Let_def link_mixer_def adev_get_mixer_for_card_def new_usecase_def)
qed

text \<open>
  C40. A resampler that cannot be made. When an input needs a resampler and none can be made, the read fails, but the use case of
  the stream and its PCM stay while the stream is still in standby: standby does nothing, the PCM is not closed, and the next
  read puts the node of the mixer card into a second list.
\<close>

theorem failed_resampler_leaves_use_case:
  assumes "hal_reachable E (ad, w)" "env_ok E" "ad_ins ad a = Some s" "si_standby s" "get_usecase_from_id ad (si_usecase s) = None"
    and "get_pcm_device (ae_h E) (ad_profiles ad) (si_usecase_type s) (si_devices s) = Some p" "pp_type (ad_profiles ad ! p) \<noteq> PCM_HOTWORD_STREAMING"
    and "si_requested_rate s \<noteq> pc_rate (pp_config (ad_profiles ad ! p))" "sa_resampler ans = (r, False)" "r \<noteq> 0" "sa_pcm ans = Pcm_Opened h"
  shows "\<exists>ad'. in_read_start E ad a ans = Inr (r, ad') \<and> h \<in> set (ad_pcms ad') \<and> in_standby ad' a = Inr ad' \<and>
    (\<forall>ans'. in_read_start E ad' a ans' = Inl Node_In_Two_Lists)"
proof -
  have h: "hal_inv ad" using hal_reachable_inv [OF assms(1,2)] by (simp add: sys_inv_def)
  then have b: "base_inv ad" and cf: "call_found ad" using call_ok_found by (simp_all add: hal_inv_def)
  have new: "si_usecase s \<notin> fst ` set (uc_keys ad)" using assms(5) found_key by blast
  define config where "config = input_config (ae_h E) s (pp_config (ad_profiles ad ! p))"
  let ?profile = "(ad_profiles ad ! p)\<lparr>pp_config := config\<rparr>" and ?pds = "\<lambda>s. s\<lparr>si_pcm_dev_list := Some [new_pcm_device p]\<rparr>"
  obtain ad1 s1 ret where start: "start_input_stream E ad a ans = open_input ad1 a ?profile (new_pcm_device p) ans ret"
      and cfg: "configure_input (ae_h E) config (sa_resampler ans) (?pds s) = (ret, s1)" and b1: "base_inv ad1"
      and keys: "uc_keys ad1 = uc_keys ad @ [(si_usecase s, PCM_CAPTURE, In_Stream a, [SOUND_CARD])]" and ins: "ad_ins ad1 = (ad_ins ad)(a := Some s1)"
      and prof: "ad_profiles ad1 = (ad_profiles ad)[p := ?profile]"
    using start_input_prepared [OF b cf assms(2,3) new assms(6), of ans] unfolding config_def by metis
  have "pc_rate config = pc_rate (pp_config (ad_profiles ad ! p))" by (simp add: config_def input_config_def)
  then have s1: "ret = r" "si_standby s1" "si_usecase s1 = si_usecase s" "si_usecase_type s1 = si_usecase_type s" "si_devices s1 = si_devices s"
      "si_pcm_dev_list s1 \<noteq> None"
    using cfg assms(4,8,9) by (auto simp: configure_input_def Let_def split: if_splits)
  let ?s2 = "s1\<lparr>si_pcm_dev_list := Some [(new_pcm_device p)\<lparr>pd_sound_trigger_handle := 0, pd_pcm := Some h\<rparr>], si_proc_buf_frames := 0,
      si_proc_buf_size := 0, si_read_buf_size := 0, si_read_buf_frames := 0\<rparr>"
  let ?ad2 = "put_in a ?s2 (ad1\<lparr>ad_pcms := h # ad_pcms ad1\<rparr>)"
  have "start_input_stream E ad a ans = Inr (r, ?ad2)"
    using start assms(7,11) ins s1(1) by (simp add: open_input_def get_in_def Let_def pcm_opened_def open_handle_def)
  then have first: "in_read_start E ad a ans = Inr (r, ?ad2)" using assms(3,4,10) by (simp add: in_read_start_def get_in_def)
  have b2: "base_inv ?ad2" by (rule put_in_base [where s = s1]) (simp_all add: b1 ins)
  have key: "(si_usecase ?s2, PCM_CAPTURE, In_Stream a, [SOUND_CARD]) \<in> set (uc_keys ?ad2)" using keys s1(3) by simp
  have dev: "get_pcm_device (ae_h E) (ad_profiles ?ad2) (si_usecase_type ?s2) (si_devices ?s2) = Some p"
    using get_pcm_device_update [of ?profile "ad_profiles ad" p] get_pcm_device_Some [OF assms(6)] assms(6) prof s1(4,5) by simp
  have "in_read_start E ?ad2 a ans' = Inl Node_In_Two_Lists" for ans'
    by (rule input_of_busy_use_case [OF b2 _ _ key dev]) (simp_all add: s1(2))
  moreover have "in_standby ?ad2 a = Inr ?ad2" using s1(2) by (simp add: in_standby_def get_in_def)
  ultimately show ?thesis using first by (intro exI [of _ ?ad2]) simp
qed

definition std_recorder :: stream_in where
  "std_recorder = new_stream_in std_audio_h capture_config 0x80000004 44100 0x10 0 1"

theorem failed_resampler_leaves_use_case_witness:
  "\<exists>ad'. in_read_start std_env (put_in 2 std_recorder std_device) 2 \<lparr>sa_resampler = (- 22, False), sa_pcm = Pcm_Opened 9, sa_trigger = 0\<rparr> = Inr (- 22, ad') \<and>
     9 \<in> set (ad_pcms ad')"
proof -
  let ?ad = "put_in 2 std_recorder std_device" and ?ans = "\<lparr>sa_resampler = (- 22, False), sa_pcm = Pcm_Opened 9, sa_trigger = 0\<rparr>"
  have prof: "ad_profiles std_device = pcm_devices std_audio_h" "ad_ins std_device = (\<lambda>_. None)" by (simp_all add: std_device_def new_device_def)
  have mono: "audio_channel_count_from_in_mask std_audio_h 0x10 = 1"
  proof -
    have "popcount 16 = 1" by code_simp
    then show ?thesis by (simp add: std_audio_h_def)
  qed
  have chk: "check_input_parameters std_audio_h 44100 1 1 = 0" by (simp add: check_input_parameters_def std_audio_h_def)
  have src: "AUDIO_SOURCE_HOTWORD std_audio_h = 1999" by (simp add: std_audio_h_def)
  have cfg: "pp_config (pcm_devices std_audio_h ! 1) = capture_config" "pp_type (pcm_devices std_audio_h ! 1) = PCM_CAPTURE"
    by (simp_all add: pcm_eval)
  have hw: "PCM_CAPTURE \<noteq> PCM_HOTWORD_STREAMING" by (simp add: usecase_type_defs)
  have "hal_apply std_env (Open_Input_Stream 2 0x80000004 44100 1 0x10 0 1) (std_device, None) = Inr (?ad, None)"
    by (simp add: std_env_def adev_open_input_stream_def mono chk [unfolded One_nat_def] src prof std_profile cfg [unfolded One_nat_def] std_recorder_def)
  then have reach: "hal_reachable std_env (?ad, None)"
    by (rule hal_reachable.call [OF hal_reachable.opened [OF std_opened], rotated]) (simp add: prof)
  have "\<exists>ad'. in_read_start std_env ?ad 2 ?ans = Inr (- 22, ad') \<and> 9 \<in> set (ad_pcms ad') \<and> in_standby ad' 2 = Inr ad' \<and>
      (\<forall>ans'. in_read_start std_env ad' 2 ans' = Inl Node_In_Two_Lists)"
    by (rule failed_resampler_leaves_use_case [OF reach std_env_ok, where s = std_recorder and p = 1])
      (simp_all add: std_recorder_def new_stream_in_def src prof std_env_def std_profile cfg [unfolded One_nat_def] std_device_def new_device_def
        get_usecase_from_id_def put_in_def hw capture_config_def period_defs)
  then show ?thesis by blast
qed

end
