(* ===== verification/Audio_Data.thy ===== *)
theory Audio_Data
  imports Audio_System
begin

text \<open>
  The samples of \<^verbatim>\<open>audio/hal/audio_hw.c\<close>: reading from a capture device through a buffer of one period, the preprocessing
  effects, and writing to a playback device. PCM devices, resamplers, effects and the conversion of channels
  are arguments. Buffers are lists of 16-bit samples; a write outside of one is a fault.
\<close>

datatype data_fault = Bad_List | Null_Pcm | Overflow | Over_Read | Null_Resampler_Buffer

subsection \<open>Reading frames\<close>

text \<open>
  \<open>pcm k n\<close> is the answer to read \<open>k\<close> of the device for \<open>n\<close> samples: a status and the samples. \<open>channels\<close> is the number of
  channels of the device. The result is the buffer with its number of frames, the stream, and the number of
  the next read.
\<close>

type_synonym pcm_source = "nat \<Rightarrow> nat \<Rightarrow> int \<times> u16 list"

definition get_next_buffer ::
  "nat \<Rightarrow> pcm_source \<Rightarrow> nat \<Rightarrow> nat \<Rightarrow> stream_in \<Rightarrow> data_fault + (u16 list option \<times> nat) \<times> stream_in \<times> nat" where
  "get_next_buffer channels pcm k frame_count s =
     (case si_pcm_dev_list s of
        None \<Rightarrow> Inl Bad_List
      | Some [] \<Rightarrow> Inr ((None, 0), s\<lparr>si_read_status := - HAL_ENODEV\<rparr>, k)
      | Some (pd # _) \<Rightarrow>
          (let period = pc_period_size (si_config s);
               give = (\<lambda>s k.
                 (let n = (if si_read_buf_frames s < frame_count then si_read_buf_frames s else frame_count)
                  in Inr ((Some (drop ((period - si_read_buf_frames s) * pc_channels (si_config s)) (the (si_read_buf s))), n), s, k)))
           in if si_read_buf_frames s \<noteq> 0 then give s k
              else if pd_pcm pd = None then Inl Null_Pcm
              else
                (let s1 = (if si_read_buf_size s < period then s\<lparr>si_read_buf_size := period\<rparr> else s);
                     (status, samples) = pcm k (period * channels);
                     s2 = s1\<lparr>si_read_status := status\<rparr>
                 in if status \<noteq> 0 then Inr ((None, 0), s2, Suc k)
                    else give (s2\<lparr>si_read_buf := Some samples, si_read_buf_frames := period\<rparr>) (Suc k))))"

definition release_buffer :: "nat \<Rightarrow> stream_in \<Rightarrow> stream_in" where
  "release_buffer frame_count s = s\<lparr>si_read_buf_frames := si_read_buf_frames s - frame_count\<rparr>"

text \<open>
  One round of \<^verbatim>\<open>read_frames\<close>: up to \<open>want\<close> frames are stored after the \<open>done\<close> frames that are already in the buffer, which
  has room for \<open>room\<close> samples. The offsets are those of the device's channels.
\<close>

definition copy_frames :: "nat \<Rightarrow> pcm_source \<Rightarrow> nat \<Rightarrow> nat \<Rightarrow> nat \<Rightarrow> nat \<Rightarrow> stream_in \<Rightarrow> data_fault + u16 list \<times> nat \<times> stream_in \<times> nat" where
  "copy_frames channels pcm room done want k s =
     and_then (get_next_buffer channels pcm k want s) (\<lambda>((raw, n), s1, k1).
       case raw of
         None \<Rightarrow> Inr ([], want, release_buffer n s1, k1)
       | Some samples \<Rightarrow>
           if length samples < n * channels then Inl Over_Read
           else if room < (done + n) * channels then Inl Overflow
           else Inr (take (n * channels) samples, n, release_buffer n s1, k1))"

text \<open>
  \<open>resample\<close> is the resampler: the samples it stores, their number of frames, the stream and the next read. The loop
  returns the frames or a status below 0, and the samples that were stored; \<open>None\<close> stands for a loop without end.
\<close>

type_synonym resample_from = "nat \<Rightarrow> stream_in \<Rightarrow> nat \<Rightarrow> u16 list \<times> nat \<times> stream_in \<times> nat"

definition read_round ::
  "nat \<Rightarrow> pcm_source \<Rightarrow> resample_from \<Rightarrow> nat \<Rightarrow> nat \<Rightarrow> nat \<Rightarrow> nat \<Rightarrow> stream_in \<Rightarrow> data_fault + u16 list \<times> nat \<times> stream_in \<times> nat" where
  "read_round channels pcm resample room done want k s =
     (if si_resampler s then
        (case resample want s k of (samples, n, s1, k1) \<Rightarrow> if room < done * channels + length samples then Inl Overflow else Inr (samples, n, s1, k1))
      else copy_frames channels pcm room done want k s)"

partial_function (option) read_loop ::
  "nat \<Rightarrow> pcm_source \<Rightarrow> resample_from \<Rightarrow> nat \<Rightarrow> nat \<Rightarrow> nat \<Rightarrow> u16 list \<Rightarrow> nat \<Rightarrow> stream_in \<Rightarrow>
   (data_fault + int \<times> u16 list \<times> stream_in \<times> nat) option" where
  "read_loop channels pcm resample room frames done acc k s =
     (if done < frames then
        (case read_round channels pcm resample room done (frames - done) k s of
           Inl e \<Rightarrow> Some (Inl e)
         | Inr (samples, n, s1, k1) \<Rightarrow>
             if si_read_status s1 \<noteq> 0 then Some (Inr (si_read_status s1, acc @ samples, s1, k1))
             else read_loop channels pcm resample room frames (done + n) (acc @ samples) k1 s1)
      else Some (Inr (int done, acc, s, k)))"

declare read_loop.simps [code]

definition read_frames ::
  "nat \<Rightarrow> pcm_source \<Rightarrow> resample_from \<Rightarrow> nat \<Rightarrow> nat \<Rightarrow> nat \<Rightarrow> stream_in \<Rightarrow> (data_fault + int \<times> u16 list \<times> stream_in \<times> nat) option" where
  "read_frames channels pcm resample room frames k s =
     (case si_pcm_dev_list s of
        None \<Rightarrow> Some (Inl Bad_List)
      | Some [] \<Rightarrow> Some (Inr (- HAL_EINVAL, [], s, k))
      | Some _ \<Rightarrow> read_loop channels pcm resample room frames 0 [] k s)"

subsection \<open>Processing frames\<close>

text \<open>
  What the effects do in one round: from the samples of the input frames and the number of frames there is room for,
  the frames they use and the frames they make.
\<close>

type_synonym effect_process = "nat list \<Rightarrow> u16 list \<Rightarrow> nat \<Rightarrow> nat \<Rightarrow> nat \<times> u16 list \<times> nat"

text \<open>The input buffer is filled up to the wanted number of frames; a status below 0 ends the loop.\<close>

definition fill_input ::
  "nat \<Rightarrow> pcm_source \<Rightarrow> resample_from \<Rightarrow> nat \<Rightarrow> nat \<Rightarrow> stream_in \<Rightarrow> (data_fault + int \<times> stream_in \<times> nat) option" where
  "fill_input channels pcm resample frames_num k s =
     (if si_proc_buf_frames s < frames_num then
        (let used = si_proc_buf_frames s * pc_channels (si_config s)
         in case read_frames channels pcm resample (si_proc_buf_size s div 2 - used) (frames_num - si_proc_buf_frames s) k s of
              None \<Rightarrow> None
            | Some (Inl e) \<Rightarrow> Some (Inl e)
            | Some (Inr (n, samples, s1, k1)) \<Rightarrow>
                if n < 0 then Some (Inr (n, s1, k1))
                else Some (Inr (0, s1\<lparr>si_proc_buf_in := take used (si_proc_buf_in s1) @ samples, si_proc_buf_frames := si_proc_buf_frames s1 + nat n\<rparr>, k1)))
      else Some (Inr (0, s, k)))"

text \<open>The frames the effects have used are taken off the input buffer.\<close>

definition shift_input :: "nat \<Rightarrow> stream_in \<Rightarrow> stream_in" where
  "shift_input used s =
     s\<lparr>si_proc_buf_frames := si_proc_buf_frames s - used, si_proc_buf_in := drop (used * pc_channels (si_config s)) (si_proc_buf_in s)\<rparr>"

partial_function (option) preprocess_loop ::
  "nat \<Rightarrow> pcm_source \<Rightarrow> resample_from \<Rightarrow> effect_process \<Rightarrow> nat \<Rightarrow> nat \<Rightarrow> u16 list \<Rightarrow> nat \<Rightarrow> stream_in \<Rightarrow>
   (data_fault + int \<times> u16 list \<times> stream_in \<times> nat) option" where
  "preprocess_loop channels pcm resample process frames_num wr acc k s =
     (if wr < frames_num then
        (case fill_input channels pcm resample frames_num k s of
           None \<Rightarrow> None
         | Some (Inl e) \<Rightarrow> Some (Inl e)
         | Some (Inr (status, s1, k1)) \<Rightarrow>
             if status < 0 then Some (Inr (status, acc, s1, k1))
             else
               (case process (si_preprocessors s1) (si_proc_buf_in s1) (si_proc_buf_frames s1) (frames_num - wr) of
                  (used, samples, made) \<Rightarrow>
                    if made = 0 then preprocess_loop channels pcm resample process frames_num wr acc k1 (shift_input used s1)
                    else preprocess_loop channels pcm resample process frames_num (if wr + made \<le> frames_num then wr + made else frames_num)
                           (acc @ samples) k1 (shift_input used s1)))
      else Some (Inr (int wr, acc, s, k)))"

declare preprocess_loop.simps [code]

text \<open>\<open>adjust_channels from to\<close> is the conversion of the number of channels.\<close>

type_synonym channel_adjust = "nat \<Rightarrow> nat \<Rightarrow> u16 list \<Rightarrow> u16 list"

definition read_and_process_frames ::
  "audio_h \<Rightarrow> nat \<Rightarrow> pcm_source \<Rightarrow> resample_from \<Rightarrow> effect_process \<Rightarrow> channel_adjust \<Rightarrow> nat \<Rightarrow> nat \<Rightarrow> nat \<Rightarrow> stream_in \<Rightarrow>
   (data_fault + int \<times> u16 list \<times> stream_in \<times> nat) option" where
  "read_and_process_frames A channels pcm resample process adjust_channels room frames_num k s =
     (let bytes = audio_bytes_per_sample A (AUDIO_FORMAT_PCM_16_BIT A);
          src_channels = pc_channels (si_config s);
          dst_channels = audio_channel_count_from_in_mask A (si_main_channels s);
          remap = (dst_channels \<noteq> src_channels);
          processing = (si_preprocessors s \<noteq> []);
          size = frames_num * (src_channels * bytes);
          s1 = (if (remap \<or> processing) \<and> si_proc_buf_size s < size then s\<lparr>si_proc_buf_size := size\<rparr> else s);
          out_room = (if remap then si_proc_buf_size s1 div 2 else room);
          result = (if processing then preprocess_loop channels pcm resample process frames_num 0 [] k s1
                    else read_frames channels pcm resample out_room frames_num k s1)
      in case result of
           Some (Inr (n, samples, s2, k1)) \<Rightarrow>
             if out_room < length samples then Some (Inl Overflow)
             else if remap \<and> 0 < n then
               (let samples' = adjust_channels src_channels dst_channels (take (nat n * src_channels) samples)
                in if room < length samples' then Some (Inl Overflow) else Some (Inr (n, samples', s2, k1)))
             else Some (Inr (n, samples, s2, k1))
         | r \<Rightarrow> r)"

subsection \<open>Writing frames\<close>

text \<open>
  What the write of a stream meets: the pipeline of the DSP context, if it has one, the resampler (the samples it makes from
  the buffer, given the room in frames), the conversion of channels, and the status of the \<open>k\<close>-th write. \<open>wa_frame_size\<close> is
  the size of a frame of the stream in bytes.
\<close>

record write_answers =
  wa_frame_size :: nat
  wa_pipeline :: "(nat \<Rightarrow> u16 list \<Rightarrow> u16 list) option"
  wa_resample :: "u16 list \<Rightarrow> nat \<Rightarrow> u16 list \<times> nat"
  wa_adjust_channels :: channel_adjust
  wa_status :: "nat \<Rightarrow> int"

definition apply_dsp :: "write_answers \<Rightarrow> pcm_device \<Rightarrow> u16 list \<Rightarrow> nat \<Rightarrow> u16 list" where
  "apply_dsp W iodev buf frames =
     (if \<not> pd_dsp_context iodev then buf else case wa_pipeline W of None \<Rightarrow> buf | Some pipeline \<Rightarrow> pipeline frames buf)"

text \<open>The buffer of the resampler grows, and the buffer is resampled.\<close>

definition resample_out :: "audio_device \<Rightarrow> write_answers \<Rightarrow> stream_out \<Rightarrow> pcm_device \<Rightarrow> u16 list \<Rightarrow> nat \<Rightarrow> pcm_device \<times> u16 list \<times> nat" where
  "resample_out ad W out pd buffer bytes =
     (if \<not> pd_resampler pd then (pd, [], 0)
      else
        (let need = bytes * pc_rate (pp_config (ad_profiles ad ! pd_profile pd)) div so_sample_rate out + wa_frame_size W;
             pd1 = (if pd_res_byte_count pd < need then pd\<lparr>pd_res_byte_count := need, pd_res_buffer := True\<rparr> else pd);
             (samples, frames_wr) = wa_resample W buffer (pd_res_byte_count pd1 div wa_frame_size W)
         in (pd1, samples, frames_wr)))"

text \<open>
  One device: the device and the stream after the write, the buffer of the client, in which the DSP works, and the samples
  that were written, with the handle. The conversion of channels needs a buffer of its own.
\<close>

definition write_device ::
  "audio_h \<Rightarrow> audio_device \<Rightarrow> write_answers \<Rightarrow> nat \<Rightarrow> nat \<Rightarrow> stream_out \<Rightarrow> pcm_device \<Rightarrow> u16 list \<Rightarrow>
   data_fault + pcm_device \<times> stream_out \<times> u16 list \<times> (nat \<times> u16 list) option" where
  "write_device A ad W bytes k out pd buffer =
     (case resample_out ad W out pd buffer bytes of
        (pd1, res_buffer, frames_wr) \<Rightarrow>
          (case pd_pcm pd1 of
             None \<Rightarrow> Inr (pd1, out, buffer, None)
           | Some h \<Rightarrow>
               (let src_channels = audio_channel_count_from_out_mask A (so_channel_mask out);
                    dst_channels = pc_channels (pp_config (ad_profiles ad ! pd_profile pd1));
                    resampled = (pd_resampler pd1 \<and> pd_res_buffer pd1);
                    audio_bytes = (if resampled then frames_wr * wa_frame_size W else bytes);
                    data = apply_dsp W pd1 (if resampled then res_buffer else buffer) (audio_bytes div 4);
                    buffer' = (if resampled then buffer else data);
                    pd2 = pd1\<lparr>pd_status := wa_status W k\<rparr>
                in if dst_channels = src_channels then Inr (pd2, out, buffer', Some (h, data))
                   else
                     (let dest_buffer_size = audio_bytes * dst_channels div src_channels;
                          out' = (if so_proc_buf_size out < dest_buffer_size then out\<lparr>so_proc_buf_size := dest_buffer_size\<rparr> else out);
                          samples = wa_adjust_channels W src_channels dst_channels data
                      in if so_proc_buf_size out' < 2 * length samples then Inl Overflow
                         else Inr (pd2, out', buffer', Some (h, take (dest_buffer_size div 2) samples))))))"

fun write_devices ::
  "audio_h \<Rightarrow> audio_device \<Rightarrow> write_answers \<Rightarrow> nat \<Rightarrow> nat \<Rightarrow> stream_out \<Rightarrow> pcm_device list \<Rightarrow> u16 list \<Rightarrow> int \<Rightarrow>
   data_fault + pcm_device list \<times> stream_out \<times> int \<times> (nat \<times> u16 list) list" where
  "write_devices A ad W bytes k out [] buffer ret = Inr ([], out, ret, [])"
| "write_devices A ad W bytes k out (pd # pds) buffer ret =
     and_then (write_device A ad W bytes k out pd buffer) (\<lambda>(pd', out', buffer', written).
     and_then (write_devices A ad W bytes (Suc k) out' pds buffer' (if written \<noteq> None \<and> pd_status pd' \<noteq> 0 then pd_status pd' else ret))
       (\<lambda>(pds', out'', ret', ws). Inr (pd' # pds', out'', ret', (case written of None \<Rightarrow> ws | Some w \<Rightarrow> w # ws))))"

text \<open>The samples of a write; \<open>written\<close> counts frames as a 64-bit number.\<close>

definition out_write_samples ::
  "audio_h \<Rightarrow> audio_device \<Rightarrow> write_answers \<Rightarrow> stream_out \<Rightarrow> u16 list \<Rightarrow> data_fault + int \<times> stream_out \<times> (nat \<times> u16 list) list" where
  "out_write_samples A ad W out buffer0 =
     (case so_pcm_dev_list out of
        None \<Rightarrow> Inl Bad_List
      | Some pds \<Rightarrow>
          (let bytes = 2 * length buffer0;
               buffer = (if so_muted out then map (\<lambda>_. 0) buffer0 else buffer0)
           in and_then (write_devices A ad W bytes 0 out pds buffer 0) (\<lambda>(pds', out', ret, ws).
                (let out1 = out'\<lparr>so_pcm_dev_list := Some pds'\<rparr>
                 in Inr (ret, if ret = 0 then out1\<lparr>so_written := so_written out1 + of_nat (bytes div wa_frame_size W)\<rparr> else out1, ws)))))"

definition out_get_buffer_size :: "nat \<Rightarrow> stream_out \<Rightarrow> nat" where
  "out_get_buffer_size frame_size out = pc_period_size (so_config out) * frame_size"

definition out_get_latency :: "stream_out \<Rightarrow> nat" where
  "out_get_latency out = (pc_period_count (so_config out) * pc_period_size (so_config out) * 1000) mod 2 ^ 32 div pc_rate (so_config out)"

definition out_set_volume :: "bool \<Rightarrow> stream_out \<Rightarrow> int \<times> stream_out" where
  "out_set_volume left_is_zero out =
     (if so_usecase out = USECASE_AUDIO_PLAYBACK_MULTI_CH then (0, out\<lparr>so_muted := left_is_zero\<rparr>) else (- HAL_ENOSYS, out))"

definition render_latency :: "int \<Rightarrow> int" where "render_latency usecase = 0"

text \<open>
  \<open>htimestamp\<close> is the answer of \<^verbatim>\<open>pcm_get_htimestamp\<close>: the frames that are free in the buffer of the PCM, or an error. The sum is a 64-bit
  number that is read as a signed one.
\<close>

definition out_get_presentation_position :: "nat option \<Rightarrow> stream_out \<Rightarrow> data_fault + int \<times> nat option" where
  "out_get_presentation_position htimestamp out =
     (case so_pcm_dev_list out of
        None \<Rightarrow> Inl Bad_List
      | Some [] \<Rightarrow> Inr (- 1, None)
      | Some (pd # _) \<Rightarrow>
          if pd_pcm pd = None then Inl Null_Pcm
          else case htimestamp of
              None \<Rightarrow> Inr (- 1, None)
            | Some avail \<Rightarrow>
                (let kernel_buffer_size = (pc_period_size (so_config out) * pc_period_count (so_config out)) mod 2 ^ 32;
                     signed_frames = sint (so_written out - of_nat kernel_buffer_size + of_nat avail)
                       - render_latency (so_usecase out) * int (so_sample_rate out) div 1000000
                 in if 0 \<le> signed_frames then Inr (0, Some (nat signed_frames)) else Inr (- 1, None)))"

subsection \<open>Reading and writing\<close>

text \<open>\<open>trigger\<close> is the answer of the sound trigger, for a handle and a number of bytes.\<close>

definition read_bytes_from_dsp :: "(int \<Rightarrow> nat \<Rightarrow> u16 list) \<Rightarrow> stream_in \<Rightarrow> nat \<Rightarrow> data_fault + u16 list" where
  "read_bytes_from_dsp trigger s bytes =
     (case si_pcm_dev_list s of
        Some (pd # _) \<Rightarrow> Inr (if 0 < pd_sound_trigger_handle pd then trigger (pd_sound_trigger_handle pd) bytes else [])
      | _ \<Rightarrow> Inl Bad_List)"

text \<open>
  The samples of a read of \<open>bytes\<close> bytes into a buffer of that size: whether it succeeded, the samples, the stream and the next read of the device.
\<close>

definition in_read_samples ::
  "audio_h \<Rightarrow> bool \<Rightarrow> nat \<Rightarrow> nat \<Rightarrow> pcm_source \<Rightarrow> resample_from \<Rightarrow> effect_process \<Rightarrow> channel_adjust \<Rightarrow> (int \<Rightarrow> nat \<Rightarrow> u16 list) \<Rightarrow> nat \<Rightarrow> nat \<Rightarrow> stream_in \<Rightarrow>
   (data_fault + bool \<times> u16 list \<times> stream_in \<times> nat) option" where
  "in_read_samples A mic_mute frame_size channels pcm resample process adjust_channels trigger bytes k s =
     (let mute = (\<lambda>samples. if mic_mute then map (\<lambda>_. 0) samples else samples)
      in case si_pcm_dev_list s of
           None \<Rightarrow> Some (Inl Bad_List)
         | Some [] \<Rightarrow> Some (Inr (False, [], s, k))
         | Some _ \<Rightarrow>
             if si_usecase s = USECASE_AUDIO_CAPTURE_HOTWORD then
               Some (and_then (read_bytes_from_dsp trigger s bytes) (\<lambda>samples.
                 Inr (samples \<noteq> [], if samples \<noteq> [] then mute samples else [], s, k)))
             else
               (case read_and_process_frames A channels pcm resample process adjust_channels (bytes div 2) (bytes div frame_size) k s of
                  Some (Inr (frames, samples, s1, k1)) \<Rightarrow> Some (Inr (0 \<le> frames, if 0 \<le> frames then mute samples else samples, s1, k1))
                | Some (Inl e) \<Rightarrow> Some (Inl e)
                | None \<Rightarrow> None))"

subsection \<open>Reading delivers the samples of the device in order\<close>

text \<open>
  A capture device as the sequence \<open>X\<close> of its samples: read \<open>k\<close> of \<open>n\<close> samples returns the \<open>k\<close>-th block. A stream is at position \<open>p\<close> of the
  sequence when \<open>k\<close> blocks were read and the rest of the last block that was not delivered begins at \<open>p\<close>.
\<close>

definition pcm_stream :: "(nat \<Rightarrow> u16) \<Rightarrow> pcm_source" where
  "pcm_stream X k n = (0, map X [k * n..<k * n + n])"

definition block_size :: "stream_in \<Rightarrow> nat" where
  "block_size s = pc_period_size (si_config s) * pc_channels (si_config s)"

definition ready :: "stream_in \<Rightarrow> bool" where
  "ready s \<longleftrightarrow> (\<exists>pd pds. si_pcm_dev_list s = Some (pd # pds) \<and> pd_pcm pd \<noteq> None) \<and> \<not> si_resampler s \<and> 0 < pc_period_size (si_config s)"

definition reads_at :: "(nat \<Rightarrow> u16) \<Rightarrow> nat \<Rightarrow> stream_in \<Rightarrow> nat \<Rightarrow> bool" where
  "reads_at X k s p \<longleftrightarrow>
     ready s \<and> si_read_buf_frames s \<le> pc_period_size (si_config s) \<and> p + si_read_buf_frames s * pc_channels (si_config s) = k * block_size s \<and>
     (si_read_buf_frames s \<noteq> 0 \<longrightarrow> 0 < k \<and> si_read_status s = 0 \<and> si_read_buf s = Some (map X [(k - 1) * block_size s..<k * block_size s]))"

lemma rest_of_block:
  assumes "reads_at X k s p" "si_read_buf_frames s \<noteq> 0" "n \<le> si_read_buf_frames s"
  shows "take (n * pc_channels (si_config s)) (drop ((pc_period_size (si_config s) - si_read_buf_frames s) * pc_channels (si_config s)) (the (si_read_buf s))) =
      map X [p..<p + n * pc_channels (si_config s)]"
    and "n * pc_channels (si_config s) \<le>
      length (drop ((pc_period_size (si_config s) - si_read_buf_frames s) * pc_channels (si_config s)) (the (si_read_buf s)))"
proof -
  let ?ch = "pc_channels (si_config s)" and ?rem = "si_read_buf_frames s" and ?period = "pc_period_size (si_config s)" and ?B = "block_size s"
  have k: "0 < k" and buf: "si_read_buf s = Some (map X [(k - 1) * ?B..<k * ?B])" and rem: "?rem \<le> ?period" and p: "p + ?rem * ?ch = k * ?B"
    using assms(1,2) by (simp_all add: reads_at_def)
  obtain j where j: "k = Suc j" using k by (cases k) auto
  have start: "j * ?B + (?period - ?rem) * ?ch = p"
    using p rem by (simp add: j block_size_def diff_mult_distrib mult_le_mono1)
  have n: "n * ?ch \<le> ?rem * ?ch" using assms(3) by (rule mult_le_mono1)
  have d: "drop ((?period - ?rem) * ?ch) (the (si_read_buf s)) = map X [p..<k * ?B]" using start by (simp add: buf j drop_map drop_upt)
  show "take (n * ?ch) (drop ((?period - ?rem) * ?ch) (the (si_read_buf s))) = map X [p..<p + n * ?ch]"
    unfolding d take_map using n p by (intro arg_cong [of _ _ "map X"] take_upt) linarith
  show "n * ?ch \<le> length (drop ((?period - ?rem) * ?ch) (the (si_read_buf s)))" using n p unfolding d length_map length_upt by linarith
qed

lemma copy_frames_reads:
  assumes "reads_at X k s p" "0 < want" "(got + want) * channels \<le> room" "channels = pc_channels (si_config s)"
  obtains n s' k' where "copy_frames channels (pcm_stream X) room got want k s = Inr (map X [p..<p + n * channels], n, s', k')" "0 < n" "n \<le> want"
    "reads_at X k' s' (p + n * channels)" "si_config s' = si_config s" "si_read_status s' = 0"
proof -
  let ?period = "pc_period_size (si_config s)"
  define s1 where "s1 = (if si_read_buf_frames s \<noteq> 0 then s
     else s\<lparr>si_read_buf_size := if si_read_buf_size s < ?period then ?period else si_read_buf_size s, si_read_status := 0,
       si_read_buf := Some (map X [k * block_size s..<k * block_size s + block_size s]), si_read_buf_frames := ?period\<rparr>)"
  define k1 where "k1 = (if si_read_buf_frames s \<noteq> 0 then k else Suc k)"
  define n where "n = (if si_read_buf_frames s1 < want then si_read_buf_frames s1 else want)"
  have rdy: "ready s" using assms(1) by (simp add: reads_at_def)
  have c1: "si_config s1 = si_config s" "block_size s1 = block_size s" by (simp_all add: s1_def block_size_def)
  have at1: "reads_at X k1 s1 p" and some: "si_read_buf_frames s1 \<noteq> 0" and st: "si_read_status s1 = 0"
    using assms(1) rdy by (auto simp: reads_at_def s1_def k1_def block_size_def ready_def algebra_simps)
  have next_buf: "get_next_buffer channels (pcm_stream X) k want s =
      Inr ((Some (drop ((?period - si_read_buf_frames s1) * pc_channels (si_config s)) (the (si_read_buf s1))), n), s1, k1)"
    using rdy assms(4) by (auto simp: get_next_buffer_def ready_def s1_def k1_def n_def pcm_stream_def block_size_def Let_def)
  have n: "0 < n" "n \<le> want" "n \<le> si_read_buf_frames s1" using some assms(2) by (auto simp: n_def)
  note rest = rest_of_block [OF at1 some n(3)]
  have "(got + n) * channels \<le> (got + want) * channels" using n(2) by (intro mult_le_mono1) simp
  then have room: "\<not> room < (got + n) * channels" using assms(3) by linarith
  have copy: "copy_frames channels (pcm_stream X) room got want k s = Inr (map X [p..<p + n * channels], n, release_buffer n s1, k1)"
    using next_buf rest room by (simp add: copy_frames_def c1 assms(4))
  have "n * channels \<le> si_read_buf_frames s1 * channels" using n(3) by simp
  then have "reads_at X k1 (release_buffer n s1) (p + n * channels)"
    using at1 assms(4) st by (auto simp: reads_at_def release_buffer_def ready_def block_size_def c1 diff_mult_distrib)
  then show thesis using that [OF copy n(1,2)] c1(1) st by (simp add: release_buffer_def)
qed

lemma read_loop_reads:
  assumes "reads_at X k s p" "frames * channels \<le> room" "channels = pc_channels (si_config s)" "got \<le> frames"
  shows "\<exists>s' k'. read_loop channels (pcm_stream X) resample room frames got acc k s =
      Some (Inr (int frames, acc @ map X [p..<p + (frames - got) * channels], s', k')) \<and> reads_at X k' s' (p + (frames - got) * channels) \<and>
      si_config s' = si_config s"
  using assms
proof (induction "frames - got" arbitrary: got acc k s p rule: less_induct)
  case less
  show ?case
  proof (cases "got < frames")
    case False
    then have "got = frames" using less.prems(4) by simp
    then show ?thesis using less.prems(1) by (simp add: read_loop.simps)
  next
    case True
    have res: "\<not> si_resampler s" using less.prems(1) by (simp add: reads_at_def ready_def)
    have room: "(got + (frames - got)) * channels \<le> room" using True less.prems(2) by simp
    obtain n s1 k1 where c: "copy_frames channels (pcm_stream X) room got (frames - got) k s = Inr (map X [p..<p + n * channels], n, s1, k1)"
        "0 < n" "n \<le> frames - got" "reads_at X k1 s1 (p + n * channels)" "si_config s1 = si_config s" "si_read_status s1 = 0"
      using copy_frames_reads [OF less.prems(1) _ room less.prems(3)] True by (metis zero_less_diff)
    have ih: "\<exists>s' k'. read_loop channels (pcm_stream X) resample room frames (got + n) (acc @ map X [p..<p + n * channels]) k1 s1 =
        Some (Inr (int frames, (acc @ map X [p..<p + n * channels]) @ map X [p + n * channels..<p + n * channels + (frames - (got + n)) * channels], s', k')) \<and>
        reads_at X k' s' (p + n * channels + (frames - (got + n)) * channels) \<and> si_config s' = si_config s1"
      by (rule less.hyps) (use c(2-5) True less.prems(2,3) in auto)
    have len: "n * channels + (frames - (got + n)) * channels = (frames - got) * channels"
    proof -
      have "n + (frames - (got + n)) = frames - got" using c(3) by simp
      then show ?thesis by (simp only: distrib_right [symmetric])
    qed
    have len': "p + n * channels + (frames - (got + n)) * channels = p + (frames - got) * channels" using len by linarith
    have app: "map X [p..<p + n * channels] @ map X [p + n * channels..<p + (frames - got) * channels] = map X [p..<p + (frames - got) * channels]"
      using upt_add_eq_append [of p "p + n * channels" "(frames - (got + n)) * channels"] by (simp only: len' map_append [symmetric] le_add1)
    have "read_loop channels (pcm_stream X) resample room frames got acc k s =
        read_loop channels (pcm_stream X) resample room frames (got + n) (acc @ map X [p..<p + n * channels]) k1 s1"
      using True c(1,6) res by (subst read_loop.simps) (simp add: read_round_def)
    then show ?thesis using ih unfolding len' append_assoc app c(5) by simp
  qed
qed

text \<open>
  C7. Reading frames. A read of any number of frames from a stream without a resampler returns, and delivers the next samples of the device: what one
  read leaves of a period is what the next read begins with, so that no sample is lost or delivered twice over any sequence of
  reads, whatever their sizes and the size of the period.
\<close>

theorem reads_are_consecutive:
  assumes "reads_at X k s p" "frames * channels \<le> room" "channels = pc_channels (si_config s)"
  shows "\<exists>s' k'. read_frames channels (pcm_stream X) resample room frames k s = Some (Inr (int frames, map X [p..<p + frames * channels], s', k')) \<and>
    reads_at X k' s' (p + frames * channels) \<and> si_config s' = si_config s"
proof -
  obtain pd pds where "si_pcm_dev_list s = Some (pd # pds)" using assms(1) by (auto simp: reads_at_def ready_def)
  then show ?thesis using read_loop_reads [OF assms, of 0 resample "[]"] by (simp add: read_frames_def)
qed

definition short_input :: stream_in where
  "short_input = std_recorder\<lparr>si_config := capture_config\<lparr>pc_period_size := 2, pc_channels := 1\<rparr>,
     si_pcm_dev_list := Some [(new_pcm_device 1)\<lparr>pd_pcm := Some 9\<rparr>]\<rparr>"

theorem reads_are_consecutive_witness:
  "\<exists>s1 k1 s2 k2. read_frames 1 (pcm_stream word_of_nat) (\<lambda>n s k. ([], n, s, k)) 3 3 0 short_input = Some (Inr (3, [0, 1, 2], s1, k1)) \<and>
     read_frames 1 (pcm_stream word_of_nat) (\<lambda>n s k. ([], n, s, k)) 2 2 k1 s1 = Some (Inr (2, [3, 4], s2, k2))"
proof -
  have s: "reads_at word_of_nat 0 short_input 0" "pc_channels (si_config short_input) = 1"
    by (simp_all add: short_input_def reads_at_def ready_def std_recorder_def new_stream_in_def block_size_def)
  obtain s1 k1 where r1: "read_frames 1 (pcm_stream word_of_nat) (\<lambda>n s k. ([], n, s, k)) 3 3 0 short_input = Some (Inr (3, map word_of_nat [0..<3], s1, k1))"
      "reads_at word_of_nat k1 s1 3" "si_config s1 = si_config short_input"
    using reads_are_consecutive [OF s(1), of 3 1 3 "\<lambda>n s k. ([], n, s, k)"] s(2) by auto
  obtain s2 k2 where "read_frames 1 (pcm_stream word_of_nat) (\<lambda>n s k. ([], n, s, k)) 2 2 k1 s1 = Some (Inr (2, map word_of_nat [3..<5], s2, k2))"
    using reads_are_consecutive [OF r1(2), of 2 1 2 "\<lambda>n s k. ([], n, s, k)"] s(2) r1(3) by auto
  then show ?thesis using r1(1) by (simp add: upt_rec)
qed

text \<open>
  C38. The size of an input buffer. For every request that is accepted, the buffer holds a whole number of frames that is a multiple of 16 and the least one that
  holds one period of the device at the rate of the stream; the 32-bit product does not wrap around.
\<close>

theorem input_buffer_rounds_up:
  assumes "check_input_parameters A rate format channels = 0" "get_pcm_device A profiles t devices = Some p"
    and "list_all (\<lambda>q. pc_period_size (pp_config q) \<le> CAPTURE_PERIOD_SIZE) profiles"
  shows "\<exists>frames. get_input_buffer_size A profiles rate format channels t devices = frames * channels * audio_bytes_per_sample A format \<and> 16 dvd frames \<and>
    pc_period_size (pp_config (profiles ! p)) * rate div pc_rate (pp_config (profiles ! p)) \<le> frames \<and>
    frames < pc_period_size (pp_config (profiles ! p)) * rate div pc_rate (pp_config (profiles ! p)) + 16"
proof -
  let ?period = "pc_period_size (pp_config (profiles ! p))"
  let ?size = "?period * rate div pc_rate (pp_config (profiles ! p))"
  have "rate \<le> 48000" using assms(1) by (auto simp: check_input_parameters_def HAL_EINVAL_def split: if_splits)
  moreover have "?period \<le> 1024" using assms(3) get_pcm_device_Some [OF assms(2)] by (auto simp: list_all_length CAPTURE_PERIOD_SIZE_def)
  ultimately have "?period * rate \<le> 1024 * 48000" by (intro mult_le_mono)
  then have "?period * rate mod 2 ^ 32 = ?period * rate" by (intro mod_less) simp
  then have "get_input_buffer_size A profiles rate format channels t devices = (?size + 15) div 16 * 16 * channels * audio_bytes_per_sample A format"
    using assms(1,2) by (simp add: get_input_buffer_size_def Let_def)
  moreover have "?size \<le> (?size + 15) div 16 * 16 \<and> (?size + 15) div 16 * 16 < ?size + 16" by linarith
  ultimately show ?thesis by (intro exI [of _ "(?size + 15) div 16 * 16"]) simp
qed

theorem input_buffer_rounds_up_witness:
  "\<exists>frames. get_input_buffer_size std_audio_h (pcm_devices std_audio_h) 44100 1 1 PCM_CAPTURE 0x80000004 = frames * 2 \<and> 16 dvd frames \<and> 940 \<le> frames \<and> frames < 956"
proof -
  have chk: "check_input_parameters std_audio_h 44100 1 1 = 0" by (simp add: check_input_parameters_def std_audio_h_def)
  have cfg: "pp_config (pcm_devices std_audio_h ! 1) = capture_config" by (simp add: pcm_eval)
  have "list_all (\<lambda>q. pc_period_size (pp_config q) \<le> CAPTURE_PERIOD_SIZE) (pcm_devices std_audio_h)"
    by (simp add: pcm_eval playback_config_def capture_config_def period_defs)
  from input_buffer_rounds_up [OF chk std_profile(3) this] show ?thesis
    unfolding cfg by (simp add: capture_config_def period_defs std_audio_h_def)
qed

lemma sint_small: "- (2 ^ 63) \<le> x \<Longrightarrow> x < 2 ^ 63 \<Longrightarrow> sint (word_of_int x :: 64 word) = x"
  by (simp add: sint_sbintrunc' signed_take_bit_int_eq_self)

lemma position_sum: "w - 11520 + of_nat avail = (word_of_int (int (unat w) - 11520 + int avail) :: 64 word)"
proof -
  have "word_of_int (int (unat w)) = w" by simp
  then show ?thesis by (simp only: wi_hom_sub [symmetric] wi_hom_add [symmetric]) simp
qed

lemma signed_position:
  assumes "avail \<le> 1024" "unat w < 2 ^ 62"
  shows "sint (w - 11520 + of_nat avail :: 64 word) = int (unat w) - 11520 + int avail"
proof -
  have "int (unat w) < 2 ^ 62" using of_nat_less_iff [where 'a = int, of "unat w" "2 ^ 62"] assms(2) by (simp only: of_nat_power of_nat_numeral)
  then show ?thesis unfolding position_sum using assms(1) by (intro sint_small) auto
qed

text \<open>
  The presentation position of a deep-buffer output. The position is computed with the buffer of the deep-buffer configuration, 1440 * 8 frames, but the
  PCM is opened with the configuration of the profile, whose buffer has 512 * 2 frames. So the position that is reported is 10496 frames, more than 200 ms,
  behind the frames that have been played, and there is none at all until that many have been played.
\<close>

theorem deep_buffer_position_late:
  assumes "so_config out = pcm_config_deep_buffer" "so_pcm_dev_list out = Some (pd # pds)" "pd_pcm pd = Some h"
    and "avail \<le> pc_period_size playback_config * pc_period_count playback_config" "unat (so_written out) < 2 ^ 62"
  defines "played \<equiv> int (unat (so_written out)) - (int (pc_period_size playback_config * pc_period_count playback_config) - int avail)"
  shows "out_get_presentation_position (Some avail) out = (if played < 10496 then Inr (- 1, None) else Inr (0, Some (nat (played - 10496))))"
proof -
  let ?x = "int (unat (so_written out)) - 11520 + int avail"
  have avail: "avail \<le> 1024" using assms(4) by (simp add: playback_config_def period_defs)
  have played: "played - 10496 = ?x" by (simp add: played_def playback_config_def period_defs)
  have "sint (so_written out - 11520 + of_nat avail :: 64 word) = played - 10496" using signed_position [OF avail assms(5)] played by simp
  then show ?thesis using assms(1-3)
    by (simp add: out_get_presentation_position_def pcm_config_deep_buffer_def period_defs render_latency_def Let_def)
qed

definition deep_output :: stream_out where
  "deep_output = (new_stream_out std_audio_h playback_config 2 8 1)\<lparr>so_pcm_dev_list := Some [(new_pcm_device 2)\<lparr>pd_pcm := Some 7\<rparr>], so_written := 48000\<rparr>"

theorem deep_buffer_position_late_witness: "out_get_presentation_position (Some 1024) deep_output = Inr (0, Some 37504)"
proof -
  have "so_config deep_output = pcm_config_deep_buffer" by (simp add: deep_output_def new_stream_out_def std_sel has_def)
  from deep_buffer_position_late [OF this, of "(new_pcm_device 2)\<lparr>pd_pcm := Some 7\<rparr>" "[]" 7 1024] show ?thesis
    by (simp add: deep_output_def playback_config_def period_defs)
qed

end
