(* ===== verification/Spec2Isabelle.thy ===== *)
theory Spec2Isabelle
  imports C_Array Crossover Dsp_Context Debug_Ec Sound_Trigger Audio_Data
begin

text \<open>
  A verification of the C code of the device: the audio HAL and its signal processing under \<^verbatim>\<open>src/audio/hal\<close>, the sound
  trigger under \<^verbatim>\<open>src/audio/soundtrigger\<close> and the firmware updater under \<^verbatim>\<open>src/recovery/updater\<close>.

  \<^bold>\<open>Audio: from a file to samples.\<close> \<^verbatim>\<open>cras_dsp.c\<close> reads a configuration file with \<^verbatim>\<open>iniparser.c\<close> into a
  dictionary (\<^verbatim>\<open>dictionary.c\<close>), turns it into a graph of plugins, ports and flows (\<^verbatim>\<open>cras_dsp_ini.c\<close>), and keeps for
  each context a pipeline of the plugins that the expressions of its environment enable (\<^verbatim>\<open>cras_expr.c\<close>,
  \<^verbatim>\<open>cras_dsp_pipeline.c\<close>). A pipeline runs modules (\<^verbatim>\<open>cras_dsp_mod_builtin.c\<close>) on buffers it has assigned; the
  modules are filters, crossovers and compressors (\<^verbatim>\<open>dsp/\<close>).

  \<^item> \<open>Dragon_Prelude\<close>: the error monad \<open>and_then\<close>, C strings, \<^verbatim>\<open>strtol\<close>, machine integers, list lemmas.
  \<^item> \<open>Dictionary\<close> (\<^verbatim>\<open>dictionary.c\<close>): every operation on the arrays of keys, values and hashes. A dictionary that is
    well formed refines a finite map; growth, its failure and the wrapping search for a free slot are covered.
  \<^item> \<open>C_Array\<close> (\<^verbatim>\<open>array.h\<close>): the macros of growable arrays.
  \<^item> \<open>Iniparser\<close> (\<^verbatim>\<open>iniparser.c\<close>): the line scanner, loading, dumping and the accessors. A rendered file loads into
    the dictionary it denotes, and every file loads into a well formed one.
  \<^item> \<open>Cras_Expr\<close> (\<^verbatim>\<open>cras_expr.c\<close>): the parser and evaluator. Parsing gives back a printed expression, the parser
    makes progress on every character, and the builtins evaluate as specified.
  \<^item> \<open>Dsp_Ini\<close> (\<^verbatim>\<open>cras_dsp_ini.c\<close>): the graph is well formed whatever the dictionary holds.
  \<^item> \<open>Dsp_Pipeline\<close>, \<open>Dsp_Module\<close>, \<open>Dsp_Run\<close> (\<^verbatim>\<open>cras_dsp_pipeline.c\<close>, \<^verbatim>\<open>cras_dsp_module.h\<close>): construction, loading,
    buffer assignment, running. A pipeline is in dependency order, construction ends on graphs without
    cycles, and no buffer is overwritten before it is read. The modules are a locale whose laws say what a
    call may write.
  \<^item> \<open>Biquad\<close>, \<open>Crossover\<close>, \<open>Dsp_Util\<close>, \<open>Drc_Kernel\<close>, \<open>Drc\<close> (\<^verbatim>\<open>dsp/\<close>): the portable code over an abstract floating point
    type with its operations as arguments. The optimised loops are equivalent to the plain ones, the disabled
    compressor is a delay line, and all accesses stay inside their buffers.
  \<^item> \<open>Dsp_Builtin\<close> (\<^verbatim>\<open>cras_dsp_mod_builtin.c\<close>): the modules on a memory in which ports may share buffers. They meet
    the laws of the modules, so in a pipeline each input reads what its feeder wrote.
  \<^item> \<open>Dsp_Context\<close> (\<^verbatim>\<open>cras_dsp.c\<close>): the contexts and the loaded configuration as a state machine; in every reachable
    state each pipeline points into the one configuration that is allocated.

  \<^bold>\<open>The firmware updater.\<close> The updater copies a section of an image into the flash of the device and sets flags
  in a section of the flash that the boot loader reads.

  \<^item> \<open>Flash_Device\<close> (\<^verbatim>\<open>flash_device.c\<close>, \<^verbatim>\<open>flash_file.cpp\<close>): the interface of a flash device, its contract as the locales
    \<open>flash_medium\<close> and \<open>reliable_medium\<close>, and the device on files.
  \<^item> \<open>Flash_Mtd\<close> (\<^verbatim>\<open>flash_mtd.c\<close>): the device on the kernel's MTD interface. The system calls are an argument; with the
    documented behaviour of NOR flash (\<open>nor_kernel\<close>) the device meets the contract.
  \<^item> \<open>Flash_Ec\<close> (\<^verbatim>\<open>flash_ec.c\<close>): the flash of the embedded controller; data survives a round trip.
  \<^item> \<open>Vboot\<close> (\<^verbatim>\<open>vboot_interface.c\<close>): the flash map, the root key, the flags of the NVRAM. The flags are a store, through
    the log of blocks with their checksums and through the erasing of a full section.
  \<^item> \<open>Update_Fw\<close>, \<open>Fwtool\<close> (\<^verbatim>\<open>update_fw.cpp\<close>, \<^verbatim>\<open>recovery_updater.cpp\<close>, \<^verbatim>\<open>fwtool.cpp\<close>): the update and the commands. An
    update installs exactly the section of the image and changes nothing outside of it and the flags; the
    slots are kept the same after a successful boot.
  \<^item> \<open>Debug_Ec\<close> (\<^verbatim>\<open>debug_ec.c\<close>): the commands that ask the embedded controller for its state, with their arguments, requests and
    output. With a controller that answers they read no byte that was not stored; the console is printed whole; four
    lemmas show what a command does with a controller that refuses, is gone or answers out of bounds.

  \<^bold>\<open>The sound trigger.\<close> \<open>Sound_Trigger\<close> (\<^verbatim>\<open>sound_trigger_hw.c\<close>) models the device that listens for a hotword: its
  functions, its thread and the reader of the samples as steps between taking and giving the lock. In every
  interleaving no resource is used after it was closed, and a client that stops the device gets an answer.

  \<^bold>\<open>The audio HAL.\<close> \<^verbatim>\<open>audio_hw.c\<close> connects the streams of the system to the kernel's sound devices. A stream that plays or
  captures has a use case; a use case runs on sound devices, which are paths of the mixer with reference counts.

  \<^item> \<open>Audio_Route\<close>: the sound devices and the PCM profiles, the choice of a sound device from the mode, the source and the
    devices, and \<^verbatim>\<open>select_devices\<close> with its nested call. A chosen device is of the right direction, and routing keeps
    the reference counts equal to the number of use cases on a device.
  \<^item> \<open>Audio_Stream\<close>: opening, starting, stopping and closing streams, standby, voice calls, parameters, effects, and opening
    the device. What the PCM devices, resamplers and effects answer are arguments.
  \<^item> \<open>Audio_Hal\<close>, \<open>Audio_System\<close>: the invariant of the device and that every function keeps it; then the sections of the
    functions between taking and giving the locks as steps that interleave. The contract of the clients is the locale
    \<open>guarded_calls\<close>: no call faults in any reachable state. Three theorems show what goes wrong outside of the contract or in
    spite of it.
  \<^item> \<open>Audio_Data\<close>: the samples. Reads deliver the consecutive samples of the device through the buffer of a period; sizes of
    buffers and positions.

  \<^bold>\<open>How the code is modelled.\<close> A structure is a record, a tagged union a datatype. A function that changes
  state returns the new state. What C leaves undefined or what crashes (a NULL pointer, a read outside a
  buffer, a division by zero, memory that was freed or never set) is a value of an error type, so that a
  theorem that a call returns \<open>Inr\<close> says that none of it happens. Integers have their width where it matters:
  the hash of the dictionary, the fields of the flash map, sizes in commands. A loop that may not end is a
  \<open>partial_function\<close> with result \<open>None\<close> for not ending, and theorems say when it ends; fuel is used only where the
  bound follows from the data (the sort of the plugins visits each of them once). Allocation is an argument
  that says which requests succeed. Floating point numbers are an abstract type: the theorems on samples hold
  for every choice of its operations that meets their stated laws.

  \<^bold>\<open>Not modelled.\<close> The assembler variants of the filters; \<^verbatim>\<open>iniparser_getdouble\<close>; logging and, outside of \<open>Debug_Ec\<close>,
  printing; in \<^verbatim>\<open>audio_hw.c\<close> the functions that only return a constant, the text of \<^verbatim>\<open>out_get_parameters\<close>, and the search for
  the file of mixer paths; the waiting after an error; the C++ and Java
  parts of the repository. The headers \<^verbatim>\<open>gbb_header.h\<close> and \<^verbatim>\<open>vboot_struct.h\<close> are not in the repository: their layouts
  are arguments.
\<close>

end
